(* ===== verification/Prelude.thy ===== *)
theory Prelude imports Main "HOL-Library.Multiset" "HOL-Library.Word" begin

text \<open>
  Shared vocabulary of the development.

  \<^item> \<open>bytes\<close> are the octets the program moves around (\<open>Vec<u8>\<close>, \<open>&[u8]\<close>, and the UTF-8
    bytes of a \<open>String\<close>); HOL's \<open>char\<close> is exactly one octet.
  \<^item> \<open>duration\<close> is \<open>std::time::Duration\<close>, counted in nanoseconds; \<open>instant\<close> is a point of
    the monotonic clock, counted in nanoseconds from an arbitrary origin.
  \<^item> A fallible Rust function returns \<open>'e + 'a\<close>: \<open>Inl\<close> is \<open>Err\<close>, \<open>Inr\<close> is \<open>Ok\<close>.
  \<^item> Unsigned counters that the code saturates are naturals with the saturation written
    out (\<open>sat_add\<close>, \<open>sat_mul\<close>); counters that wrap are \<open>64 word\<close>.
\<close>

type_synonym bytes = string
type_synonym duration = nat
type_synonym instant = nat
type_synonym u64 = "64 word"

named_theorems rust_defs \<open>definitions of the standard-library operations the code uses\<close>
named_theorems handler_defs \<open>definitions of the handlers of a component\<close>

subsection \<open>Saturating and truncating arithmetic\<close>

abbreviation U16_MAX :: nat where "U16_MAX \<equiv> 2 ^ 16 - 1"
abbreviation U32_MAX :: nat where "U32_MAX \<equiv> 2 ^ 32 - 1"
abbreviation U64_MAX :: nat where "U64_MAX \<equiv> 2 ^ 64 - 1"
abbreviation I64_MAX :: int where "I64_MAX \<equiv> 2 ^ 63 - 1"
abbreviation I64_MIN :: int where "I64_MIN \<equiv> - (2 ^ 63)"

definition sat_add :: "nat \<Rightarrow> nat \<Rightarrow> nat \<Rightarrow> nat" where
  [rust_defs]: "sat_add bound a b = min bound (a + b)"

definition sat_mul :: "nat \<Rightarrow> nat \<Rightarrow> nat \<Rightarrow> nat" where
  [rust_defs]: "sat_mul bound a b = min bound (a * b)"

definition i64_sat :: "int \<Rightarrow> int" where
  [rust_defs]: "i64_sat x = max I64_MIN (min I64_MAX x)"

lemma sat_add_le [simp]: "sat_add bound a b \<le> bound"
  by (simp add: sat_add_def)

lemma sat_mul_le [simp]: "sat_mul bound a b \<le> bound"
  by (simp add: sat_mul_def)

lemma sat_mul_mono: "b \<le> c \<Longrightarrow> sat_mul bound a b \<le> sat_mul bound a c"
  by (auto simp: sat_mul_def min_le_iff_disj)

subsection \<open>Durations\<close>

abbreviation NS_PER_MS :: nat where "NS_PER_MS \<equiv> 1000000"
abbreviation NS_PER_SEC :: nat where "NS_PER_SEC \<equiv> 1000000000"

definition from_millis :: "nat \<Rightarrow> duration" where
  [rust_defs]: "from_millis n = n * NS_PER_MS"

definition from_secs :: "nat \<Rightarrow> duration" where
  [rust_defs]: "from_secs n = n * NS_PER_SEC"

definition as_millis :: "duration \<Rightarrow> nat" where
  [rust_defs]: "as_millis d = d div NS_PER_MS"

lemma from_millis_mono: "m \<le> n \<Longrightarrow> from_millis m \<le> from_millis n"
  by (simp add: from_millis_def)

lemma as_millis_from_millis [simp]: "as_millis (from_millis n) = n"
  by (simp add: as_millis_def from_millis_def)

text \<open>\<open>Instant::elapsed\<close> and \<open>Duration\<close> subtraction saturate at zero, as \<open>nat\<close> does.\<close>

definition elapsed_since :: "instant \<Rightarrow> instant \<Rightarrow> duration" where
  [rust_defs]: "elapsed_since t now = now - t"

subsection \<open>Results and options\<close>

abbreviation is_ok :: "'e + 'a \<Rightarrow> bool" where
  "is_ok r \<equiv> (\<exists>x. r = Inr x)"

text \<open>\<open>Option::or\<close>: the first value present wins.\<close>

fun opt_or :: "'a option \<Rightarrow> 'a option \<Rightarrow> 'a option" where
  "opt_or (Some x) _ = Some x"
| "opt_or None y = y"

lemma opt_or_None2 [simp]: "opt_or x None = x"
  by (cases x) auto

lemma opt_or_assoc: "opt_or (opt_or x y) z = opt_or x (opt_or y z)"
  by (cases x) auto

lemma opt_or_eq_None [simp]: "opt_or x y = None \<longleftrightarrow> x = None \<and> y = None"
  by (cases x) auto

lemma opt_or_idem [simp]: "opt_or x x = x"
  by (cases x) auto

subsection \<open>Lists\<close>

text \<open>The first element of a list that satisfies a predicate, as \<open>Iterator::position\<close> finds it.\<close>

fun position :: "('a \<Rightarrow> bool) \<Rightarrow> 'a list \<Rightarrow> nat option" where
  "position p [] = None"
| "position p (x # xs) = (if p x then Some 0 else map_option Suc (position p xs))"

lemma position_Some:
  "position p xs = Some i \<Longrightarrow> i < length xs \<and> p (xs ! i) \<and> (\<forall>j < i. \<not> p (xs ! j))"
proof (induction xs arbitrary: i)
  case (Cons x xs)
  then show ?case
    by (cases i) (auto split: if_splits simp: less_Suc_eq_0_disj)
qed simp

lemma position_None: "position p xs = None \<longleftrightarrow> (\<forall>x \<in> set xs. \<not> p x)"
  by (induction xs) auto

text \<open>The last \<open>n\<close> elements of a list.\<close>

definition lastn :: "nat \<Rightarrow> 'a list \<Rightarrow> 'a list" where
  "lastn n xs = drop (length xs - n) xs"

lemma length_lastn [simp]: "length (lastn n xs) = min n (length xs)"
  by (auto simp: lastn_def)

lemma lastn_short [simp]: "length xs \<le> n \<Longrightarrow> lastn n xs = xs"
  by (simp add: lastn_def)

lemma lastn_snoc_full: "0 < n \<Longrightarrow> n \<le> length xs \<Longrightarrow> lastn n (xs @ [x]) = tl (lastn n xs) @ [x]"
proof -
  assume "0 < n" "n \<le> length xs"
  then have "Suc (length xs) - n = Suc (length xs - n)" and "length xs - n < length xs" by auto
  then show ?thesis by (simp add: lastn_def drop_Suc tl_drop)
qed

text \<open>Sorting by a key.\<close>

lemma sort_key_snoc:
  assumes "\<forall>q \<in> set xs. k q \<le> k x"
  shows "sort_key k (xs @ [x]) = sort_key k xs @ [x]"
proof -
  have stable: "filter (\<lambda>y. v = k y) (sort_key k xs) = filter (\<lambda>y. v = k y) xs" for v
    unfolding eq_commute [of v] by (rule sort_key_stable)
  from assms show ?thesis by (intro properties_for_sort_key) (auto simp: sorted_append stable)
qed

lemma sort_key_map: "sort_key k (map f xs) = map f (sort_key (k \<circ> f) xs)"
proof -
  have "insort_key k (f x) (map f ys) = map f (insort_key (k \<circ> f) x ys)" for x ys
    by (induction ys) auto
  then show ?thesis by (induction xs) simp_all
qed

text \<open>
  A loop over indices whose \<open>i\<close>-th round changes only the \<open>i\<close>-th entry of a view of the state
  maps that change over the view.
\<close>

lemma fold_entrywise:
  assumes step: "\<And>i c. i < n \<Longrightarrow> P c \<Longrightarrow> v (step i c) = (v c)[i := g (v c ! i)] \<and> P (step i c)"
    and "P c" and len: "length (v c) = n"
  shows "v (fold step [0..<n] c) = map g (v c) \<and> P (fold step [0..<n] c)"
proof -
  have "k \<le> n \<Longrightarrow> v (fold step [0..<k] c) = map g (take k (v c)) @ drop k (v c) \<and> P (fold step [0..<k] c)" for k
  proof (induction k)
    case 0
    then show ?case using \<open>P c\<close> by simp
  next
    case (Suc k)
    let ?d = "fold step [0..<k] c"
    have k: "k < n" using Suc.prems by simp
    then have IH: "v ?d = map g (take k (v c)) @ drop k (v c)" and "P ?d" using Suc.IH by auto
    then have "v (step k ?d) = (v ?d)[k := g (v ?d ! k)]" and "P (step k ?d)" using step k by auto
    moreover have "(v ?d)[k := g (v ?d ! k)] = map g (take (Suc k) (v c)) @ drop (Suc k) (v c)"
      using k len unfolding IH
      by (simp add: nth_append list_update_append take_Suc_conv_app_nth min_absorb2
          Cons_nth_drop_Suc [symmetric])
    ultimately show ?case by simp
  qed
  from this [of n] len show ?thesis by simp
qed

end
