(* ===== verification/Rust_Str.thy ===== *)
theory Rust_Str imports Prelude begin

text \<open>
  The operations on strings and byte slices that the code takes from Rust's standard library.

  A \<open>str\<close> is represented by its UTF-8 bytes. Splitting at, searching for and comparing with
  ASCII text then agree with Rust's character-level operations, because no byte of a multi-byte
  UTF-8 sequence is an ASCII byte. \<open>str::trim\<close> removes Unicode white space, so the UTF-8
  sequences of all \<open>White_Space\<close> code points are listed.
\<close>

subsection \<open>Prefixes and suffixes\<close>

fun strip_prefix :: "'a list \<Rightarrow> 'a list \<Rightarrow> 'a list option" where
  "strip_prefix [] ys = Some ys"
| "strip_prefix (x # xs) [] = None"
| "strip_prefix (x # xs) (y # ys) = (if x = y then strip_prefix xs ys else None)"

lemma strip_prefix_iff [simp]: "strip_prefix p s = Some r \<longleftrightarrow> s = p @ r"
  by (induction p s rule: strip_prefix.induct) auto

definition starts_with :: "'a list \<Rightarrow> 'a list \<Rightarrow> bool" where
  [rust_defs]: "starts_with p s = (strip_prefix p s \<noteq> None)"

lemma starts_with_iff: "starts_with p s \<longleftrightarrow> (\<exists>r. s = p @ r)"
  by (auto simp: starts_with_def)

definition strip_suffix :: "'a list \<Rightarrow> 'a list \<Rightarrow> 'a list option" where
  [rust_defs]: "strip_suffix p s = map_option rev (strip_prefix (rev p) (rev s))"

lemma strip_suffix_iff [simp]: "strip_suffix p s = Some r \<longleftrightarrow> s = r @ p"
proof -
  have "strip_suffix p s = Some r \<longleftrightarrow> strip_prefix (rev p) (rev s) = Some (rev r)"
    by (auto simp: strip_suffix_def simp del: strip_prefix_iff)
  also have "\<dots> \<longleftrightarrow> rev s = rev (r @ p)" by simp
  also have "\<dots> \<longleftrightarrow> s = r @ p" by (simp only: rev_is_rev_conv)
  finally show ?thesis .
qed

lemma strip_suffix_append [simp]: "strip_suffix p (r @ p) = Some r"
  by simp

subsection \<open>Windows and substring search\<close>

text \<open>\<open>slice::windows(n)\<close>: every contiguous part of length \<open>n\<close>.\<close>

definition windows :: "nat \<Rightarrow> 'a list \<Rightarrow> 'a list list" where
  [rust_defs]: "windows n xs = map (\<lambda>i. take n (drop i xs)) [0..<Suc (length xs) - n]"

definition contains :: "'a list \<Rightarrow> 'a list \<Rightarrow> bool" where
  [rust_defs]: "contains p s = list_ex (\<lambda>w. w = p) (windows (length p) s)"

lemma contains_iff: "contains p s \<longleftrightarrow> (\<exists>a b. s = a @ p @ b)"
proof
  assume "contains p s"
  then obtain i where "i < Suc (length s) - length p" and "take (length p) (drop i s) = p"
    by (auto simp: contains_def windows_def list_ex_iff)
  then have "s = take i s @ p @ drop (length p) (drop i s)"
    by (metis append_take_drop_id)
  then show "\<exists>a b. s = a @ p @ b" by blast
next
  assume "\<exists>a b. s = a @ p @ b"
  then obtain a b where s: "s = a @ p @ b" by blast
  then have "length a < Suc (length s) - length p" and "take (length p) (drop (length a) s) = p"
    by auto
  then show "contains p s"
    unfolding contains_def windows_def list_ex_iff by (auto simp: image_iff intro!: bexI [of _ "length a"])
qed

subsection \<open>Trimming\<close>

text \<open>The UTF-8 encodings of the Unicode \<open>White_Space\<close> code points.\<close>

definition utf8_of :: "nat list \<Rightarrow> string" where
  "utf8_of = map char_of"

definition white_space :: "string list" where
  "white_space = map utf8_of
     ([[9], [10], [11], [12], [13], [32], [194, 133], [194, 160], [225, 154, 128]]
      @ map (\<lambda>b. [226, 128, b]) ([128..<139] @ [168, 169, 175])
      @ [[226, 129, 159], [227, 128, 128]])"

fun find_prefix :: "'a list list \<Rightarrow> 'a list \<Rightarrow> 'a list option" where
  "find_prefix [] s = None"
| "find_prefix (p # ps) s = (case strip_prefix p s of Some r \<Rightarrow> Some r | None \<Rightarrow> find_prefix ps s)"

function strip_all :: "'a list list \<Rightarrow> 'a list \<Rightarrow> 'a list" where
  "strip_all ps s = (case find_prefix ps s of
      None \<Rightarrow> s
    | Some r \<Rightarrow> if length r < length s then strip_all ps r else s)"
  by pat_completeness auto
termination
  by (relation "measure (\<lambda>(ps, s). length s)") auto

declare strip_all.simps [simp del]

definition trim_start :: "string \<Rightarrow> string" where
  [rust_defs]: "trim_start s = strip_all white_space s"

definition trim_end :: "string \<Rightarrow> string" where
  [rust_defs]: "trim_end s = rev (strip_all (map rev white_space) (rev s))"

definition trim :: "string \<Rightarrow> string" where
  [rust_defs]: "trim s = trim_end (trim_start s)"

lemma strip_all_suffix: "\<exists>p. s = p @ strip_all ps s"
proof (induction ps s rule: strip_all.induct)
  case (1 ps s)
  have pre: "find_prefix ps s = Some r \<Longrightarrow> \<exists>p. s = p @ r" for r
    by (induction ps) (auto split: option.splits)
  show ?case
  proof (cases "find_prefix ps s")
    case None
    then show ?thesis by (simp add: strip_all.simps [of ps s])
  next
    case (Some r)
    with pre obtain p where p: "s = p @ r" by blast
    show ?thesis
    proof (cases "length r < length s")
      case True
      with "1.IH" Some obtain q where "r = q @ strip_all ps r" by auto
      with p have "s = (p @ q) @ strip_all ps r" by simp
      moreover from True Some have "strip_all ps s = strip_all ps r"
        by (simp add: strip_all.simps [of ps s])
      ultimately show ?thesis by metis
    next
      case False
      with Some show ?thesis by (simp add: strip_all.simps [of ps s])
    qed
  qed
qed

lemma length_strip_all: "length (strip_all ps s) \<le> length s"
  using strip_all_suffix [of s ps] by (metis le_add2 length_append)

lemma trim_infix: "\<exists>a b. s = a @ trim s @ b"
proof -
  obtain a where a: "s = a @ trim_start s"
    using strip_all_suffix unfolding trim_start_def by blast
  obtain c where "rev (trim_start s) = c @ strip_all (map rev white_space) (rev (trim_start s))"
    using strip_all_suffix by blast
  then have "trim_start s = trim s @ rev c"
    unfolding trim_def trim_end_def by (metis rev_append rev_rev_ident)
  with a show ?thesis by metis
qed

lemma set_trim: "set (trim s) \<subseteq> set s"
  using trim_infix [of s] by (metis Un_iff set_append subsetI)

text \<open>Text that starts and ends with printable ASCII is already trimmed.\<close>

definition printable :: "char \<Rightarrow> bool" where
  "printable c = (33 \<le> (of_char c :: nat) \<and> (of_char c :: nat) \<le> 126)"

lemma white_space_ends:
  "p \<in> set white_space \<Longrightarrow> p \<noteq> [] \<and> \<not> printable (hd p) \<and> \<not> printable (last p)"
  by (auto simp: white_space_def utf8_of_def printable_def)

lemma strip_all_plain:
  assumes "\<And>p. p \<in> set ps \<Longrightarrow> p \<noteq> [] \<and> \<not> printable (hd p)" and "s = [] \<or> printable (hd s)"
  shows "strip_all ps s = s"
proof -
  have "strip_prefix p s = None" if "p \<in> set ps" for p
    using assms(1) [OF that] assms(2) by (cases p; cases s) auto
  then have "find_prefix ps s = None" by (induction ps) auto
  then show ?thesis by (simp add: strip_all.simps [of ps s])
qed

lemma trim_plain:
  assumes "s = [] \<or> printable (hd s) \<and> printable (last s)"
  shows "trim s = s"
proof -
  have "trim_start s = s"
    unfolding trim_start_def using assms by (intro strip_all_plain) (auto dest: white_space_ends)
  moreover have "strip_all (map rev white_space) (rev s) = rev s"
    using assms by (intro strip_all_plain) (auto dest: white_space_ends simp: hd_rev)
  ultimately show ?thesis by (simp add: trim_def trim_end_def)
qed

lemma trim_Nil [simp]: "trim [] = []"
  by (rule trim_plain) simp

lemmas trim_eval = trim_plain printable_def

subsection \<open>Splitting and joining\<close>

fun split_on :: "'a \<Rightarrow> 'a list \<Rightarrow> 'a list list" where
  "split_on c [] = [[]]"
| "split_on c (x # xs) =
     (if x = c then [] # split_on c xs
      else case split_on c xs of [] \<Rightarrow> [[x]] | f # fs \<Rightarrow> (x # f) # fs)"

fun join_with :: "'a list \<Rightarrow> 'a list list \<Rightarrow> 'a list" where
  "join_with sep [] = []"
| "join_with sep [f] = f"
| "join_with sep (f # fs) = f @ sep @ join_with sep fs"

lemma split_on_not_Nil [simp]: "split_on c s \<noteq> []"
  by (induction s) (auto split: list.splits)

lemma join_split_on: "join_with [c] (split_on c s) = s"
proof (induction s)
  case (Cons x s)
  show ?case
  proof (cases "split_on c s")
    case (Cons f fs)
    with Cons.IH show ?thesis by (cases fs) auto
  qed simp
qed simp

lemma split_on_no_sep: "f \<in> set (split_on c s) \<Longrightarrow> c \<notin> set f"
  by (induction s arbitrary: f) (auto split: list.splits if_splits)

lemma split_on_append: "c \<notin> set f \<Longrightarrow> split_on c (f @ c # s) = f # split_on c s"
  by (induction f) auto

lemma split_on_single: "c \<notin> set f \<Longrightarrow> split_on c f = [f]"
  by (induction f) auto

lemma split_on_join:
  "fs \<noteq> [] \<Longrightarrow> (\<forall>f \<in> set fs. c \<notin> set f) \<Longrightarrow> split_on c (join_with [c] fs) = fs"
  by (induction "[c]" fs rule: join_with.induct) (auto simp: split_on_single split_on_append)

subsection \<open>Numbers in text\<close>

definition is_digit :: "char \<Rightarrow> bool" where
  "is_digit c = (48 \<le> (of_char c :: nat) \<and> (of_char c :: nat) \<le> 57)"

definition digit_val :: "char \<Rightarrow> nat" where
  "digit_val c = of_char c - 48"

definition digits_val :: "string \<Rightarrow> nat" where
  "digits_val s = foldl (\<lambda>n c. 10 * n + digit_val c) 0 s"

text \<open>\<open>str::parse\<close> for an unsigned integer type: an optional \<open>+\<close>, digits, no overflow.\<close>

definition parse_unsigned :: "nat \<Rightarrow> string \<Rightarrow> nat option" where
  [rust_defs]: "parse_unsigned bound s =
     (let ds = (case s of [] \<Rightarrow> [] | c # cs \<Rightarrow> if c = CHR ''+'' then cs else s)
      in if ds \<noteq> [] \<and> list_all is_digit ds \<and> digits_val ds \<le> bound
         then Some (digits_val ds) else None)"

lemma parse_unsigned_bound: "parse_unsigned b s = Some n \<Longrightarrow> n \<le> b"
  by (auto simp: parse_unsigned_def Let_def split: if_splits)

text \<open>\<open>format!("{}", n)\<close> for a natural number.\<close>

fun nat_str :: "nat \<Rightarrow> string" where
  "nat_str n = (if n < 10 then [char_of (48 + n)]
                else nat_str (n div 10) @ [char_of (48 + n mod 10)])"

declare nat_str.simps [simp del]

lemma digits_val_snoc: "digits_val (s @ [c]) = 10 * digits_val s + digit_val c"
  by (simp add: digits_val_def)

lemma digit_val_char_of: "(d::nat) < 10 \<Longrightarrow> digit_val (char_of (48 + d)) = d"
  by (simp add: digit_val_def)

lemma is_digit_char_of: "(d::nat) < 10 \<Longrightarrow> is_digit (char_of (48 + d))"
  by (simp add: is_digit_def)

lemma digits_val_nat_str [simp]: "digits_val (nat_str n) = n"
proof (induction n rule: nat_str.induct)
  case (1 n)
  show ?case
  proof (cases "n < 10")
    case True
    then show ?thesis
      by (subst nat_str.simps) (simp add: digits_val_def digit_val_char_of)
  next
    case False
    with 1 show ?thesis
      by (subst nat_str.simps) (simp add: digits_val_snoc digit_val_char_of)
  qed
qed

lemma list_all_digit_nat_str [simp]: "list_all is_digit (nat_str n)"
proof (induction n rule: nat_str.induct)
  case (1 n)
  then show ?case
    by (subst nat_str.simps) (auto simp: is_digit_char_of)
qed

lemma nat_str_inject [simp]: "nat_str m = nat_str n \<longleftrightarrow> m = n"
  by (metis digits_val_nat_str)

lemma nat_str_not_Nil [simp]: "nat_str n \<noteq> []"
  by (subst nat_str.simps) simp

lemma parse_unsigned_nat_str: "n \<le> b \<Longrightarrow> parse_unsigned b (nat_str n) = Some n"
proof -
  assume n: "n \<le> b"
  have "nat_str n \<noteq> [] \<and> hd (nat_str n) \<noteq> CHR ''+''"
    using list_all_digit_nat_str [of n]
    by (cases "nat_str n") (auto simp: is_digit_def)
  then have "(case nat_str n of [] \<Rightarrow> [] | c # cs \<Rightarrow> if c = CHR ''+'' then cs else nat_str n) = nat_str n"
    by (auto split: list.splits)
  with n show ?thesis by (simp add: parse_unsigned_def)
qed

subsection \<open>ASCII case and validity of UTF-8\<close>

definition ascii_lower :: "char \<Rightarrow> char" where
  "ascii_lower c = (if 65 \<le> (of_char c :: nat) \<and> (of_char c :: nat) \<le> 90
                    then char_of ((of_char c :: nat) + 32) else c)"

definition to_ascii_lowercase :: "string \<Rightarrow> string" where
  [rust_defs]: "to_ascii_lowercase = map ascii_lower"

definition ascii_whitespace :: "char \<Rightarrow> bool" where
  [rust_defs]: "ascii_whitespace c = ((of_char c :: nat) \<in> {9, 10, 12, 13, 32})"

text \<open>
  \<open>std::str::from_utf8\<close>: the well-formed byte sequences of the Unicode standard (no overlong
  forms, no surrogates, nothing above \<open>U+10FFFF\<close>).
\<close>

fun utf8_ok :: "nat list \<Rightarrow> bool" where
  "utf8_ok [] = True"
| "utf8_ok (a # as) =
     (if a < 128 then utf8_ok as
      else (case as of
          [] \<Rightarrow> False
        | b # bs \<Rightarrow>
            if 194 \<le> a \<and> a < 224 then 128 \<le> b \<and> b < 192 \<and> utf8_ok bs
            else (case bs of
                [] \<Rightarrow> False
              | c # cs \<Rightarrow>
                  if 224 \<le> a \<and> a < 240
                  then (if a = 224 then 160 \<le> b else 128 \<le> b)
                     \<and> (if a = 237 then b < 160 else b < 192)
                     \<and> 128 \<le> c \<and> c < 192 \<and> utf8_ok cs
                  else (case cs of
                      [] \<Rightarrow> False
                    | d # ds \<Rightarrow>
                        240 \<le> a \<and> a < 245
                        \<and> (if a = 240 then 144 \<le> b else 128 \<le> b)
                        \<and> (if a = 244 then b < 144 else b < 192)
                        \<and> 128 \<le> c \<and> c < 192 \<and> 128 \<le> d \<and> d < 192 \<and> utf8_ok ds))))"

definition from_utf8 :: "bytes \<Rightarrow> string option" where
  [rust_defs]: "from_utf8 bs = (if utf8_ok (map of_char bs) then Some bs else None)"

subsection \<open>Trimming twice\<close>

lemma find_prefix_None: "find_prefix ps s = None \<longleftrightarrow> (\<forall>p \<in> set ps. strip_prefix p s = None)"
  by (induction ps) (auto split: option.split)

lemma strip_prefix_shorter: "strip_prefix p s = Some r \<Longrightarrow> p \<noteq> [] \<Longrightarrow> length r < length s"
  by simp

lemma find_prefix_shorter: "find_prefix ps s = Some r \<Longrightarrow> [] \<notin> set ps \<Longrightarrow> length r < length s"
proof (induction ps)
  case (Cons p ps)
  then show ?case using strip_prefix_shorter [of p s r]
    by (auto split: option.splits simp del: strip_prefix_iff)
qed simp

lemma strip_all_done: "[] \<notin> set ps \<Longrightarrow> find_prefix ps (strip_all ps s) = None"
proof (induction ps s rule: strip_all.induct)
  case (1 ps s)
  show ?case
  proof (cases "find_prefix ps s")
    case None
    then show ?thesis by (simp add: strip_all.simps [of ps s])
  next
    case (Some r)
    with find_prefix_shorter [OF Some "1.prems"] "1.IH" "1.prems" show ?thesis
      by (simp add: strip_all.simps [of ps s])
  qed
qed

lemma strip_all_id: "find_prefix ps s = None \<Longrightarrow> strip_all ps s = s"
  by (simp add: strip_all.simps [of ps s])

lemma white_space_not_Nil [simp]: "[] \<notin> set white_space"
  using white_space_ends by blast

lemma white_space_rev_not_Nil [simp]: "[] \<notin> set (map rev white_space)"
  by auto

lemma trim_idem [simp]: "trim (trim s) = trim s"
proof -
  let ?t = "trim_start s"
  have pre: "\<exists>b. ?t = trim s @ b"
  proof -
    obtain c where "rev ?t = c @ strip_all (map rev white_space) (rev ?t)" using strip_all_suffix by blast
    then have "?t = trim s @ rev c" unfolding trim_def trim_end_def by (metis rev_append rev_rev_ident)
    then show ?thesis by blast
  qed
  then obtain b where b: "?t = trim s @ b" ..
  have "find_prefix white_space ?t = None" unfolding trim_start_def by (rule strip_all_done) simp
  then have "\<forall>p \<in> set white_space. strip_prefix p ?t = None" by (simp add: find_prefix_None)
  moreover have "strip_prefix p ?t = Some (r @ b)" if "strip_prefix p (trim s) = Some r" for p r
    using that b by simp
  ultimately have "\<forall>p \<in> set white_space. strip_prefix p (trim s) = None"
    by (metis not_None_eq)
  then have start: "trim_start (trim s) = trim s"
    unfolding trim_start_def by (intro strip_all_id) (simp add: find_prefix_None)
  have rt: "rev (trim s) = strip_all (map rev white_space) (rev ?t)"
    by (simp only: trim_def trim_end_def rev_rev_ident)
  have "find_prefix (map rev white_space) (rev (trim s)) = None"
    unfolding rt by (rule strip_all_done [OF white_space_rev_not_Nil])
  then have "strip_all (map rev white_space) (rev (trim s)) = rev (trim s)" by (rule strip_all_id)
  then have "trim_end (trim s) = trim s" by (simp only: trim_end_def rev_rev_ident)
  with start show ?thesis by (simp add: trim_def)
qed

end
