(* ===== verification/Client_Error.thy ===== *)
theory Client_Error imports Rust_Str begin

text \<open>
  The error type of the feed client, \<open>adsb-pulsar-client/src/error.rs\<close>, and the two predicates
  that decide whether a loop goes on after an error. The payload of an I/O error is its kind;
  texts that only a log reads keep their type but not always their wording.
\<close>

datatype io_kind = TimedOut | ConnectionAborted | ConnectionRefused | OtherIo

datatype client_error =
    Socket io_kind
  | PulsarErr string
  | ForwarderErr string
  | ConfigErr string
  | BufferOverflow nat nat \<comment> \<open>\<open>current\<close>, \<open>limit\<close>\<close>
  | RetryQueueFull nat
  | Shutdown
  | OtherErr string

fun is_recoverable :: "client_error \<Rightarrow> bool" where
  "is_recoverable (Socket _) = True"
| "is_recoverable (ForwarderErr _) = True"
| "is_recoverable (BufferOverflow _ _) = True"
| "is_recoverable (PulsarErr _) = True"
| "is_recoverable _ = False"

fun should_retry :: "client_error \<Rightarrow> bool" where
  "should_retry (Socket _) = True"
| "should_retry (ForwarderErr _) = True"
| "should_retry (RetryQueueFull _) = True"
| "should_retry (BufferOverflow _ _) = True"
| "should_retry (PulsarErr _) = True"
| "should_retry _ = False"

lemma recoverable_retries: "is_recoverable e \<Longrightarrow> should_retry e"
  by (cases e) auto

lemma retry_not_recoverable:
  "should_retry e \<and> \<not> is_recoverable e \<longleftrightarrow> (\<exists>n. e = RetryQueueFull n)"
  by (cases e) auto

end
