(* ===== verification/Net_Addr.thy ===== *)
theory Net_Addr imports Rust_Str begin

text \<open>
  \<open>std::net::IpAddr::from_str\<close>, used by every configuration that binds an HTTP endpoint
  (\<open>metrics_bind\<close>, \<open>http_bind\<close>). The functions follow the standard library's parser: a reader
  returns the value and the unread rest, or \<open>None\<close>.
\<close>

datatype ip_addr = V4 "nat list" | V6 "nat list"

definition hex_val :: "char \<Rightarrow> nat option" where
  "hex_val c = (let n = (of_char c :: nat)
     in if 48 \<le> n \<and> n \<le> 57 then Some (n - 48)
        else if 97 \<le> n \<and> n \<le> 102 then Some (n - 87)
        else if 65 \<le> n \<and> n \<le> 70 then Some (n - 55) else None)"

definition radix_val :: "nat \<Rightarrow> char \<Rightarrow> nat option" where
  "radix_val radix c = (case hex_val c of Some d \<Rightarrow> if d < radix then Some d else None | None \<Rightarrow> None)"

fun read_digits :: "nat \<Rightarrow> string \<Rightarrow> nat list \<times> string" where
  "read_digits radix [] = ([], [])"
| "read_digits radix (c # cs) = (case radix_val radix c of
      None \<Rightarrow> ([], c # cs)
    | Some d \<Rightarrow> (let (ds, r) = read_digits radix cs in (d # ds, r)))"

definition read_number :: "nat \<Rightarrow> nat \<Rightarrow> bool \<Rightarrow> nat \<Rightarrow> string \<Rightarrow> (nat \<times> string) option" where
  "read_number radix max_digits allow_zero_prefix bound s =
     (let (ds, rest) = read_digits radix s; v = foldl (\<lambda>n d. radix * n + d) 0 ds
      in if ds = [] \<or> max_digits < length ds \<or> bound < v
            \<or> (\<not> allow_zero_prefix \<and> hd ds = 0 \<and> 1 < length ds)
         then None else Some (v, rest))"

definition read_char :: "char \<Rightarrow> string \<Rightarrow> string option" where
  "read_char c s = (case s of [] \<Rightarrow> None | x # xs \<Rightarrow> if x = c then Some xs else None)"

text \<open>\<open>n\<close> decimal octets, separated by points.\<close>

fun read_octets :: "nat \<Rightarrow> string \<Rightarrow> (nat list \<times> string) option" where
  "read_octets 0 s = Some ([], s)"
| "read_octets (Suc n) s = (case read_number 10 3 False 255 s of
      None \<Rightarrow> None
    | Some (v, rest) \<Rightarrow>
        if n = 0 then Some ([v], rest)
        else (case read_char (CHR ''.'') rest of
            None \<Rightarrow> None
          | Some rest' \<Rightarrow> map_option (\<lambda>(vs, r). (v # vs, r)) (read_octets n rest')))"

definition read_ipv4 :: "string \<Rightarrow> (nat list \<times> string) option" where
  "read_ipv4 s = read_octets 4 s"

text \<open>
  Up to \<open>limit\<close> groups of at most four hexadecimal digits; a dotted IPv4 address may stand for
  the last two. Every group but the first is preceded by a colon. The result says whether the
  groups ended in an IPv4 address.
\<close>

fun read_groups :: "nat \<Rightarrow> bool \<Rightarrow> string \<Rightarrow> nat list \<times> bool \<times> string" where
  "read_groups 0 first s = ([], False, s)"
| "read_groups (Suc limit) first s =
     (case (if first then Some s else read_char (CHR '':'') s) of
        None \<Rightarrow> ([], False, s)
      | Some body \<Rightarrow>
          (case (if limit = 0 then None else read_ipv4 body) of
             Some (vs, rest) \<Rightarrow> ([vs ! 0 * 256 + vs ! 1, vs ! 2 * 256 + vs ! 3], True, rest)
           | None \<Rightarrow>
               (case read_number 16 4 True 65535 body of
                  None \<Rightarrow> ([], False, s)
                | Some (v, rest) \<Rightarrow>
                    (let (gs, v4, r) = read_groups limit False rest in (v # gs, v4, r)))))"

definition read_ipv6 :: "string \<Rightarrow> (nat list \<times> string) option" where
  "read_ipv6 s =
     (let (head, head_v4, rest) = read_groups 8 True s
      in if length head = 8 then Some (head, rest)
         else if head_v4 then None
         else (case Option.bind (read_char (CHR '':'') rest) (read_char (CHR '':'')) of
             None \<Rightarrow> None
           | Some rest' \<Rightarrow>
               (let (tail, _, r) = read_groups (8 - (length head + 1)) True rest'
                in Some (head @ replicate (8 - length head - length tail) 0 @ tail, r))))"

definition parse_ip :: "string \<Rightarrow> ip_addr option" where
  "parse_ip s = (case read_ipv4 s of
      Some (vs, rest) \<Rightarrow> if rest = [] then Some (V4 vs) else None
    | None \<Rightarrow> (case read_ipv6 s of
        Some (gs, rest) \<Rightarrow> if rest = [] then Some (V6 gs) else None
      | None \<Rightarrow> None))"

lemmas ip_eval = parse_ip_def read_ipv4_def read_number_def radix_val_def hex_val_def read_char_def
  numeral_eq_Suc

lemma parse_ip_loopback: "parse_ip ''127.0.0.1'' = Some (V4 [127, 0, 0, 1])"
proof -
  have "read_ipv4 ''127.0.0.1'' = Some ([127, 0, 0, 1], [])"
    by (simp add: ip_eval)
  then show ?thesis by (simp add: parse_ip_def)
qed

end
