(* ===== verification/F64.thy ===== *)
theory F64 imports Complex_Main "HOL-Library.Log_Nat" Rust_Str begin

text \<open>
  Rust's \<open>f64\<close>: IEEE binary64 values, with rounding to nearest, ties to even.

  A finite value is the rational it denotes, so the two zeros are one (nothing in the modelled
  code tells them apart). \<open>round64\<close> is the rounding function: every arithmetic operation and
  every conversion is the exact result rounded by it. The two orders the program meets are
  both here: Rust's comparisons, false on NaN (\<open>f64_le\<close>, \<open>f64_lt\<close>), and the total order
  of the database's \<open>LEAST\<close>/\<open>GREATEST\<close>, which puts NaN above everything (the \<open>linorder\<close> instance).
\<close>

datatype f64 = F_fin rat | F_inf bool \<comment> \<open>\<open>True\<close> is negative\<close> | F_nan

subsection \<open>Powers of two and the binary exponent\<close>

definition pow2 :: "int \<Rightarrow> rat" where
  "pow2 k = (if 0 \<le> k then 2 ^ nat k else 1 / 2 ^ nat (- k))"

lemma pow2_powi: "pow2 k = 2 powi k"
  by (simp add: pow2_def power_int_def inverse_eq_divide power_one_over)

lemma pow2_pos [simp]: "0 < pow2 k"
  by (simp add: pow2_def)

lemma pow2_nonzero [simp]: "pow2 k \<noteq> 0"
  using pow2_pos [of k] by linarith

lemma pow2_add: "pow2 (a + b) = pow2 a * pow2 b"
  by (simp add: pow2_powi power_int_add)

lemma pow2_diff: "pow2 (a - b) = pow2 a / pow2 b"
  by (simp add: pow2_powi power_int_diff)

lemma pow2_nat [simp]: "pow2 (int n) = 2 ^ n"
  by (simp add: pow2_def)

lemma pow2_less_mono: "a < b \<Longrightarrow> pow2 a < pow2 b"
  by (simp add: pow2_powi power_int_strict_increasing)

lemma pow2_less_iff: "pow2 a < pow2 b \<longleftrightarrow> a < b"
  using pow2_less_mono [of a b] pow2_less_mono [of b a] by (cases a b rule: linorder_cases) auto

lemma pow2_le_iff: "pow2 a \<le> pow2 b \<longleftrightarrow> a \<le> b"
  by (simp add: pow2_less_iff not_less [symmetric])

definition ilog2 :: "rat \<Rightarrow> int" where
  "ilog2 q = (let (a, b) = quotient_of q; k = bitlen a - bitlen b
              in if q < pow2 k then k - 1 else k)"

lemma ilog2_bounds:
  assumes "0 < q"
  shows "pow2 (ilog2 q) \<le> q" and "q < pow2 (ilog2 q + 1)"
proof -
  obtain a b where ab: "quotient_of q = (a, b)" by (cases "quotient_of q")
  have b: "0 < b" using quotient_of_denom_pos [OF ab] .
  have q: "q = of_int a / of_int b" using quotient_of_div [OF ab] .
  with assms b have a: "0 < a" by (simp add: zero_less_divide_iff)
  have bounds: "pow2 (bitlen x - 1) \<le> of_int x \<and> of_int x < pow2 (bitlen x)" if x: "0 < x" for x
  proof -
    have pn: "pow2 k = of_int (2 ^ nat k)" if "0 \<le> k" for k
      using that by (simp add: pow2_def)
    have le: "2 ^ nat (bitlen x - 1) \<le> x" and less: "x < 2 ^ nat (bitlen x)"
      using bitlen_bounds [OF x] by simp_all
    have nn: "0 \<le> bitlen x - 1" using x by (simp add: bitlen_def floorlog_def)
    have "of_int (2 ^ nat (bitlen x - 1)) \<le> (of_int x :: rat)" using le by (simp only: of_int_le_iff)
    moreover have "(of_int x :: rat) < of_int (2 ^ nat (bitlen x))" using less by (simp only: of_int_less_iff)
    ultimately show ?thesis using pn [OF nn] pn [of "bitlen x"] nn by (simp only:)
  qed
  let ?k = "bitlen a - bitlen b"
  have lo: "pow2 (?k - 1) < q"
  proof -
    have "pow2 (?k - 1) = pow2 (bitlen a - 1) / pow2 (bitlen b)"
      by (simp add: pow2_diff)
    also have "\<dots> < of_int a / of_int b"
      using bounds [OF a] bounds [OF b] b by (intro frac_less2) auto
    finally show ?thesis using q by simp
  qed
  have hi: "q < pow2 (?k + 1)"
  proof -
    have "pow2 (?k + 1) = pow2 (bitlen a) / pow2 (bitlen b - 1)"
      by (simp add: pow2_diff pow2_add)
    moreover have "of_int a / of_int b < pow2 (bitlen a) / pow2 (bitlen b - 1)"
      using bounds [OF a] bounds [OF b] a by (intro frac_less) auto
    ultimately show ?thesis using q by simp
  qed
  show "pow2 (ilog2 q) \<le> q" and "q < pow2 (ilog2 q + 1)"
    using lo hi by (auto simp: ilog2_def ab Let_def)
qed

lemma ilog2_le:
  assumes "0 < q" and "q < pow2 (k + 1)"
  shows "ilog2 q \<le> k"
proof -
  have "pow2 (ilog2 q) < pow2 (k + 1)" using ilog2_bounds(1) [of q] assms by linarith
  then show ?thesis by (simp add: pow2_less_iff)
qed

lemma ilog2_mono: "0 < p \<Longrightarrow> p \<le> q \<Longrightarrow> ilog2 p \<le> ilog2 q"
  using ilog2_bounds(2) [of q] by (intro ilog2_le) auto

subsection \<open>Rounding\<close>

definition round_half_even :: "rat \<Rightarrow> int" where
  "round_half_even q =
     (let f = \<lfloor>q\<rfloor>; r = q - of_int f
      in if r < 1 / 2 then f else if r > 1 / 2 then f + 1 else if even f then f else f + 1)"

lemma round_half_even_int [simp]: "round_half_even (of_int n) = n"
  by (simp add: round_half_even_def)

lemma round_half_even_mono: "x \<le> y \<Longrightarrow> round_half_even x \<le> round_half_even y"
proof -
  assume xy: "x \<le> y"
  then have f: "\<lfloor>x\<rfloor> \<le> \<lfloor>y\<rfloor>" by (rule floor_mono)
  have up: "round_half_even x \<le> \<lfloor>x\<rfloor> + 1" "\<lfloor>y\<rfloor> \<le> round_half_even y"
    by (auto simp: round_half_even_def Let_def)
  show ?thesis
  proof (cases "\<lfloor>x\<rfloor> = \<lfloor>y\<rfloor>")
    case True
    with xy show ?thesis by (auto simp: round_half_even_def Let_def)
  next
    case False
    with f up show ?thesis by linarith
  qed
qed

lemma round_half_even_near: "\<bar>of_int (round_half_even q) - q\<bar> \<le> 1 / 2"
proof -
  have "of_int \<lfloor>q\<rfloor> \<le> q" "q < of_int \<lfloor>q\<rfloor> + 1" by linarith+
  then show ?thesis by (auto simp: round_half_even_def Let_def)
qed

text \<open>The exponent of the last bit kept: 53 significant bits, subnormals below \<open>2^-1022\<close>.\<close>

definition ulp_exp :: "rat \<Rightarrow> int" where
  "ulp_exp q = max (- 1074) (ilog2 \<bar>q\<bar> - 52)"

definition round_fin :: "rat \<Rightarrow> rat" where
  "round_fin q = (if q = 0 then 0
     else of_int (round_half_even (q / pow2 (ulp_exp q))) * pow2 (ulp_exp q))"

definition round64 :: "rat \<Rightarrow> f64" where
  "round64 q = (let r = round_fin q
                in if pow2 1024 \<le> \<bar>r\<bar> then F_inf (q < 0) else F_fin r)"

text \<open>Multiples of a power of two that the last bit divides are kept exactly.\<close>

lemma round_fin_grid:
  assumes "ulp_exp q \<le> e" and "q = of_int m * pow2 e"
  shows "round_fin q = q"
proof (cases "q = 0")
  case False
  obtain n where n: "e - ulp_exp q = int n" using zero_le_imp_eq_int [of "e - ulp_exp q"] assms(1) by auto
  have "q / pow2 (ulp_exp q) = of_int m * pow2 (e - ulp_exp q)"
    using assms(2) by (simp add: pow2_diff)
  also have "\<dots> = of_int (m * 2 ^ n)" by (simp add: n)
  finally have "round_half_even (q / pow2 (ulp_exp q)) = m * 2 ^ n"
    by (metis round_half_even_int)
  moreover have "of_int (m * 2 ^ n) * pow2 (ulp_exp q) = q"
  proof -
    have "e = int n + ulp_exp q" using n by simp
    then have "pow2 e = 2 ^ n * pow2 (ulp_exp q)" by (simp only: pow2_add pow2_nat)
    with assms(2) show ?thesis by simp
  qed
  ultimately show ?thesis using False by (simp add: round_fin_def)
qed (simp add: round_fin_def)

lemma round_fin_small_int:
  assumes "\<bar>m\<bar> < 2 ^ 53"
  shows "round_fin (of_int m) = of_int m"
proof (cases "m = 0")
  case False
  have "ilog2 \<bar>of_int m\<bar> \<le> 52"
  proof (rule ilog2_le)
    show "0 < \<bar>of_int m :: rat\<bar>" using False by simp
    have "(of_int \<bar>m\<bar> :: rat) < of_int (2 ^ 53)" using assms by (simp only: of_int_less_iff)
    then show "\<bar>of_int m :: rat\<bar> < pow2 (52 + 1)" by (simp add: pow2_def)
  qed
  then have "ulp_exp (of_int m) \<le> 0" by (simp add: ulp_exp_def)
  then show ?thesis by (rule round_fin_grid [where m = m]) (simp add: pow2_def)
qed (simp add: round_fin_def)

lemma round_half_even_minus: "round_half_even (- q) = - round_half_even q"
proof (cases "q = of_int \<lfloor>q\<rfloor>")
  case True
  then show ?thesis by (metis of_int_minus round_half_even_int)
next
  case False
  then have "\<lfloor>- q\<rfloor> = - \<lfloor>q\<rfloor> - 1" by linarith
  then show ?thesis by (auto simp: round_half_even_def Let_def)
qed

lemma round_fin_minus: "round_fin (- q) = - round_fin q"
  by (simp add: round_fin_def ulp_exp_def round_half_even_minus)

lemma round_fin_mono_pos:
  assumes "0 < p" and "p \<le> q"
  shows "round_fin p \<le> round_fin q"
proof (cases "ulp_exp p = ulp_exp q")
  case True
  have "p / pow2 (ulp_exp q) \<le> q / pow2 (ulp_exp q)" using assms by (intro divide_right_mono) (auto simp: less_imp_le)
  then show ?thesis
    using assms True by (simp add: round_fin_def round_half_even_mono mult_right_mono)
next
  case False
  \<comment> \<open>A power of two lies between the two arguments and on both grids.\<close>
  let ?k = "ilog2 q"
  have mono: "ilog2 p \<le> ?k" using assms by (rule ilog2_mono)
  with False assms have lt: "ilog2 p < ?k" and k: "- 1074 < ?k - 52"
    by (auto simp: ulp_exp_def max_def split: if_splits)
  have up: "ulp_exp p \<le> ?k" using lt k assms by (auto simp: ulp_exp_def)
  have uq: "ulp_exp q \<le> ?k" using k assms by (auto simp: ulp_exp_def)
  have ple: "p \<le> pow2 ?k"
    using ilog2_bounds(2) [of p] assms lt pow2_le_iff [of "ilog2 p + 1" ?k] by linarith
  have qge: "pow2 ?k \<le> q" using ilog2_bounds(1) [of q] assms by linarith
  have on_grid: "of_int (round_half_even (pow2 ?k / pow2 e)) * pow2 e = pow2 ?k" if le: "e \<le> ?k" for e
  proof -
    obtain n where n: "?k - e = int n" using zero_le_imp_eq_int [of "?k - e"] le by auto
    have "pow2 ?k / pow2 e = pow2 (int n)" unfolding n [symmetric] by (rule pow2_diff [symmetric])
    then have eq: "pow2 ?k / pow2 e = of_int (2 ^ n)" by (simp only: pow2_nat of_int_power of_int_numeral)
    have "round_half_even (pow2 ?k / pow2 e) = 2 ^ n" unfolding eq by (rule round_half_even_int)
    moreover have "pow2 ?k = of_int (2 ^ n) * pow2 e"
      using eq by (simp only: nonzero_divide_eq_eq [OF pow2_nonzero])
    ultimately show ?thesis by (simp only:)
  qed
  have "round_fin p \<le> pow2 ?k"
  proof -
    have "of_int (round_half_even (p / pow2 (ulp_exp p))) * pow2 (ulp_exp p)
        \<le> of_int (round_half_even (pow2 ?k / pow2 (ulp_exp p))) * pow2 (ulp_exp p)"
      using ple by (intro mult_right_mono) (auto intro!: round_half_even_mono divide_right_mono simp: less_imp_le)
    with on_grid [OF up] assms show ?thesis by (simp add: round_fin_def)
  qed
  also have "pow2 ?k \<le> round_fin q"
  proof -
    have "of_int (round_half_even (pow2 ?k / pow2 (ulp_exp q))) * pow2 (ulp_exp q)
        \<le> of_int (round_half_even (q / pow2 (ulp_exp q))) * pow2 (ulp_exp q)"
      using qge by (intro mult_right_mono) (auto intro!: round_half_even_mono divide_right_mono simp: less_imp_le)
    with on_grid [OF uq] assms show ?thesis by (simp add: round_fin_def)
  qed
  finally show ?thesis .
qed

lemma round_fin_nonneg: "0 \<le> q \<Longrightarrow> 0 \<le> round_fin q"
proof -
  assume "0 \<le> q"
  then have "round_half_even 0 \<le> round_half_even (q / pow2 (ulp_exp q))"
    by (intro round_half_even_mono) (simp add: less_imp_le)
  then have "0 \<le> round_half_even (q / pow2 (ulp_exp q))" by (simp add: round_half_even_def)
  then show ?thesis by (simp add: round_fin_def less_imp_le)
qed

lemma round_fin_mono: "p \<le> q \<Longrightarrow> round_fin p \<le> round_fin q"
proof -
  assume pq: "p \<le> q"
  consider "0 < p" | "q < 0" | "p \<le> 0" "0 \<le> q" by linarith
  then show ?thesis
  proof cases
    case 1
    then show ?thesis using pq by (rule round_fin_mono_pos)
  next
    case 2
    then have "round_fin (- q) \<le> round_fin (- p)" using pq by (intro round_fin_mono_pos) auto
    then show ?thesis by (simp add: round_fin_minus)
  next
    case 3
    then have "0 \<le> round_fin (- p)" and "0 \<le> round_fin q" by (auto intro: round_fin_nonneg)
    then show ?thesis by (simp add: round_fin_minus)
  qed
qed

subsection \<open>Operations\<close>

fun f64_lt :: "f64 \<Rightarrow> f64 \<Rightarrow> bool" where
  "f64_lt (F_fin a) (F_fin b) = (a < b)"
| "f64_lt (F_fin a) (F_inf n) = (\<not> n)"
| "f64_lt (F_inf n) (F_fin b) = n"
| "f64_lt (F_inf m) (F_inf n) = (m \<and> \<not> n)"
| "f64_lt _ _ = False"

fun f64_le :: "f64 \<Rightarrow> f64 \<Rightarrow> bool" where
  "f64_le (F_fin a) (F_fin b) = (a \<le> b)"
| "f64_le (F_fin a) (F_inf n) = (\<not> n)"
| "f64_le (F_inf n) (F_fin b) = n"
| "f64_le (F_inf m) (F_inf n) = (m \<or> \<not> n)"
| "f64_le _ _ = False"

lemma f64_le_trans: "f64_le x y \<Longrightarrow> f64_le y z \<Longrightarrow> f64_le x z"
  by (cases x; cases y; cases z) auto

lemma f64_not_le: "x \<noteq> F_nan \<Longrightarrow> y \<noteq> F_nan \<Longrightarrow> \<not> f64_le x y \<longleftrightarrow> f64_lt y x"
  by (cases x; cases y) auto

text \<open>\<open>f64::min\<close> and \<open>f64::max\<close>: a NaN operand is ignored.\<close>

definition f64_min :: "f64 \<Rightarrow> f64 \<Rightarrow> f64" where
  "f64_min x y = (if x = F_nan then y else if y = F_nan then x else if f64_le x y then x else y)"

definition f64_max :: "f64 \<Rightarrow> f64 \<Rightarrow> f64" where
  "f64_max x y = (if x = F_nan then y else if y = F_nan then x else if f64_le x y then y else x)"

definition is_finite64 :: "f64 \<Rightarrow> bool" where
  "is_finite64 x = (case x of F_fin _ \<Rightarrow> True | _ \<Rightarrow> False)"

fun f64_add :: "f64 \<Rightarrow> f64 \<Rightarrow> f64" where
  "f64_add (F_fin a) (F_fin b) = round64 (a + b)"
| "f64_add (F_inf m) (F_inf n) = (if m = n then F_inf m else F_nan)"
| "f64_add (F_inf m) (F_fin b) = F_inf m"
| "f64_add (F_fin a) (F_inf n) = F_inf n"
| "f64_add _ _ = F_nan"

fun f64_neg :: "f64 \<Rightarrow> f64" where
  "f64_neg (F_fin a) = F_fin (- a)"
| "f64_neg (F_inf n) = F_inf (\<not> n)"
| "f64_neg F_nan = F_nan"

definition f64_sub :: "f64 \<Rightarrow> f64 \<Rightarrow> f64" where
  "f64_sub x y = f64_add x (f64_neg y)"

text \<open>An infinity times a finite factor keeps its sign rule; times zero it is NaN.\<close>

fun f64_mul :: "f64 \<Rightarrow> f64 \<Rightarrow> f64" where
  "f64_mul (F_fin a) (F_fin b) = round64 (a * b)"
| "f64_mul (F_inf m) (F_inf n) = F_inf (m \<noteq> n)"
| "f64_mul (F_inf m) (F_fin b) = (if b = 0 then F_nan else F_inf (m \<noteq> (b < 0)))"
| "f64_mul (F_fin a) (F_inf n) = (if a = 0 then F_nan else F_inf (n \<noteq> (a < 0)))"
| "f64_mul _ _ = F_nan"

definition f64_of_nat :: "nat \<Rightarrow> f64" where
  "f64_of_nat n = round64 (of_nat n)"

definition f64_of_int :: "int \<Rightarrow> f64" where
  "f64_of_int n = round64 (of_int n)"

lemma round_fin_sign: "0 \<le> q \<longrightarrow> 0 \<le> round_fin q" "q \<le> 0 \<longrightarrow> round_fin q \<le> 0"
  using round_fin_nonneg [of q] round_fin_nonneg [of "- q"] by (auto simp: round_fin_minus)

lemma round64_mono: "p \<le> q \<Longrightarrow> f64_le (round64 p) (round64 q)"
proof -
  assume "p \<le> q"
  then have "round_fin p \<le> round_fin q" by (rule round_fin_mono)
  moreover have "0 < pow2 1024" by (rule pow2_pos)
  ultimately show ?thesis
    using round_fin_sign [of p] round_fin_sign [of q]
    by (auto simp: round64_def Let_def abs_if not_le simp del: pow2_pos split: if_splits)
qed

lemma round64_not_nan [simp]: "round64 q \<noteq> F_nan"
  by (simp add: round64_def Let_def)

lemma round64_small_int: "\<bar>m\<bar> < 2 ^ 53 \<Longrightarrow> round64 (of_int m) = F_fin (of_int m)"
proof -
  assume m: "\<bar>m\<bar> < 2 ^ 53"
  have "\<bar>of_int m :: rat\<bar> = of_int \<bar>m\<bar>" by simp
  also have "\<dots> < of_int (2 ^ 53)" using m by (simp only: of_int_less_iff)
  also have "\<dots> = pow2 53" by (simp add: pow2_def)
  also have "\<dots> < pow2 1024" by (simp add: pow2_less_iff)
  finally show ?thesis using round_fin_small_int [OF m] by (simp add: round64_def)
qed

subsection \<open>The database's order\<close>

text \<open>
  DuckDB compares \<open>DOUBLE\<close> values by a total order in which NaN is the greatest value; its
  \<open>LEAST\<close> and \<open>GREATEST\<close> are the minimum and the maximum of that order.
\<close>

instantiation f64 :: linorder
begin

definition less_eq_f64 :: "f64 \<Rightarrow> f64 \<Rightarrow> bool" where
  "less_eq_f64 x y = (y = F_nan \<or> (x \<noteq> F_nan \<and> f64_le x y))"

definition less_f64 :: "f64 \<Rightarrow> f64 \<Rightarrow> bool" where
  "less_f64 x y = (x \<noteq> F_nan \<and> (y = F_nan \<or> f64_lt x y))"

instance
proof
  fix x y z :: f64
  show "x < y \<longleftrightarrow> x \<le> y \<and> \<not> y \<le> x"
    by (cases x; cases y) (auto simp: less_eq_f64_def less_f64_def)
  show "x \<le> x" by (cases x) (auto simp: less_eq_f64_def)
  show "x \<le> y \<Longrightarrow> y \<le> z \<Longrightarrow> x \<le> z"
    by (auto simp: less_eq_f64_def intro: f64_le_trans)
  show "x \<le> y \<Longrightarrow> y \<le> x \<Longrightarrow> x = y"
    by (cases x; cases y) (auto simp: less_eq_f64_def)
  show "x \<le> y \<or> y \<le> x"
    by (cases x; cases y) (auto simp: less_eq_f64_def)
qed

end

text \<open>Away from NaN the two orders, and the two notions of minimum and maximum, agree.\<close>

lemma f64_min_eq: "x \<noteq> F_nan \<Longrightarrow> y \<noteq> F_nan \<Longrightarrow> f64_min x y = min x y"
  by (simp add: f64_min_def min_def less_eq_f64_def)

lemma f64_max_eq: "x \<noteq> F_nan \<Longrightarrow> y \<noteq> F_nan \<Longrightarrow> f64_max x y = max x y"
  by (simp add: f64_max_def max_def less_eq_f64_def)

subsection \<open>Parsing\<close>

text \<open>
  \<open>str::parse::<f64>\<close>: an optional sign, then \<open>inf\<close>, \<open>infinity\<close> or \<open>nan\<close> in any case, or a
  decimal numeral with at least one digit, an optional point and an optional exponent. The
  value is the exact decimal rounded once.
\<close>

fun span :: "('a \<Rightarrow> bool) \<Rightarrow> 'a list \<Rightarrow> 'a list \<times> 'a list" where
  "span p [] = ([], [])"
| "span p (x # xs) = (if p x then (let (a, b) = span p xs in (x # a, b)) else ([], x # xs))"

definition take_sign :: "string \<Rightarrow> bool \<times> string" where
  "take_sign s = (case s of
      [] \<Rightarrow> (False, [])
    | c # cs \<Rightarrow> if c = CHR ''-'' then (True, cs) else if c = CHR ''+'' then (False, cs) else (False, s))"

definition parse_exponent :: "string \<Rightarrow> int option" where
  "parse_exponent s = (case s of
      [] \<Rightarrow> Some 0
    | c # cs \<Rightarrow>
        if c = CHR ''e'' \<or> c = CHR ''E''
        then (let (neg, ds) = take_sign cs
              in if ds \<noteq> [] \<and> list_all is_digit ds
                 then Some (if neg then - int (digits_val ds) else int (digits_val ds)) else None)
        else None)"

definition pow10 :: "int \<Rightarrow> rat" where
  "pow10 k = (if 0 \<le> k then 10 ^ nat k else 1 / 10 ^ nat (- k))"

definition parse_decimal :: "string \<Rightarrow> rat option" where
  "parse_decimal s =
     (let (ip, rest) = span is_digit s;
          (fp, rest') = (case rest of
              [] \<Rightarrow> ([], [])
            | c # cs \<Rightarrow> if c = CHR ''.'' then span is_digit cs else ([], rest))
      in if ip = [] \<and> fp = [] then None
         else map_option (\<lambda>e. of_nat (digits_val (ip @ fp)) * pow10 (e - int (length fp)))
                (parse_exponent rest'))"

definition parse_f64_str :: "string \<Rightarrow> f64 option" where
  "parse_f64_str s =
     (let (neg, body) = take_sign s; low = to_ascii_lowercase body
      in if low = ''inf'' \<or> low = ''infinity'' then Some (F_inf neg)
         else if low = ''nan'' then Some F_nan
         else map_option (\<lambda>q. round64 (if neg then - q else q)) (parse_decimal body))"

lemma parse_f64_str_Nil [simp]: "parse_f64_str [] = None"
  by (simp add: parse_f64_str_def take_sign_def parse_decimal_def to_ascii_lowercase_def)

end
