(* ===== verification/Feed_Config.thy ===== *)
theory Feed_Config imports Client_Error Net_Addr F64 begin

text \<open>
  \<open>adsb-pulsar-client/src/config.rs\<close>: the feed client's configuration, its validation, the
  derived settings, and the overlay of a TOML file on values that came from a default.
\<close>

datatype connection_mode_kind = ClientMode | ServerMode
datatype source_kind = SocketKind | MqttKind
datatype forwarder_kind = PulsarFwd | FileFwd | MqttFwd | NoopFwd

fun show_source_kind :: "source_kind \<Rightarrow> string" where
  "show_source_kind SocketKind = ''socket''"
| "show_source_kind MqttKind = ''mqtt''"

fun show_forwarder_kind :: "forwarder_kind \<Rightarrow> string" where
  "show_forwarder_kind PulsarFwd = ''pulsar''"
| "show_forwarder_kind FileFwd = ''file''"
| "show_forwarder_kind MqttFwd = ''mqtt''"
| "show_forwarder_kind NoopFwd = ''noop''"

text \<open>
  \<open>s.to_lowercase() == lit\<close> for an ASCII literal in lower case. Besides the ASCII capitals
  exactly one character has an ASCII lower case: the Kelvin sign \<open>U+212A\<close>, whose lower case is
  \<open>k\<close>.
\<close>

definition kelvin_sign :: string where
  "kelvin_sign = utf8_of [226, 132, 170]"

fun lowers_to :: "string \<Rightarrow> string \<Rightarrow> bool" where
  "lowers_to s [] = (s = [])"
| "lowers_to s (l # ls) =
     ((case s of [] \<Rightarrow> False | c # cs \<Rightarrow> ascii_lower c = l \<and> lowers_to cs ls)
      \<or> (l = CHR ''k'' \<and> (case strip_prefix kelvin_sign s of None \<Rightarrow> False | Some r \<Rightarrow> lowers_to r ls)))"

text \<open>\<open>FromStr\<close>: \<open>None\<close> is the error, whose text is not modelled.\<close>

definition parse_source_kind :: "string \<Rightarrow> source_kind option" where
  "parse_source_kind s =
     (if lowers_to s ''socket'' then Some SocketKind
      else if lowers_to s ''mqtt'' then Some MqttKind else None)"

definition parse_forwarder_kind :: "string \<Rightarrow> forwarder_kind option" where
  "parse_forwarder_kind s =
     (if lowers_to s ''pulsar'' then Some PulsarFwd
      else if lowers_to s ''file'' then Some FileFwd
      else if lowers_to s ''mqtt'' then Some MqttFwd
      else if lowers_to s ''noop'' then Some NoopFwd else None)"

record config =
  config_path :: string
  print_config :: bool
  source_kind :: source_kind
  source_id :: string
  socket_host :: string
  socket_port :: nat
  metrics_port :: nat
  metrics_bind :: string
  pulsar_broker :: string
  pulsar_topic :: string
  recv_buffer_size :: nat
  socket_timeout_secs :: nat
  socket_read_timeout_secs :: nat
  initial_retry_delay_secs :: nat
  max_retry_delay_secs :: nat
  log_sample_rate :: nat
  max_retry_queue_size :: nat
  max_line_buffer_size :: nat
  pulsar_batch_delay_ms :: nat
  pulsar_batch_max_messages :: nat
  test_mode :: bool
  log_level :: string
  connection_mode :: string
  dump1090_tz :: string
  forwarders :: "forwarder_kind list"
  file_path :: string
  heartbeat_timeout_secs :: nat
  heartbeat_pattern :: string
  mqtt_broker :: string
  mqtt_port :: nat
  mqtt_topic :: string
  mqtt_weather_topic :: string
  weather_api_url :: string
  mqtt_client_id :: string
  mqtt_qos :: nat
  receiver_latitude :: "f64 option"
  receiver_longitude :: "f64 option"
  receiver_altitude :: "f64 option"

text \<open>\<open>Config::default\<close>. The default \<open>file_path\<close> carries the local time, so it is an argument.\<close>

definition default_config :: "string \<Rightarrow> config" where
  "default_config now_path = \<lparr>
     config_path = ''/etc/adsb/feed.toml'', print_config = False, source_kind = SocketKind,
     source_id = ''kraspberryPi'', socket_host = ''10.0.0.200'', socket_port = 30003,
     metrics_port = 0, metrics_bind = ''127.0.0.1'',
     pulsar_broker = ''pulsar://localhost:6650'', pulsar_topic = ''persistent://kradsb/adsb/sbs-topic'',
     recv_buffer_size = 65536, socket_timeout_secs = 90, socket_read_timeout_secs = 75,
     initial_retry_delay_secs = 1, max_retry_delay_secs = 60, log_sample_rate = 100,
     max_retry_queue_size = 100000, max_line_buffer_size = 10000000,
     pulsar_batch_delay_ms = 100, pulsar_batch_max_messages = 100, test_mode = False,
     log_level = ''info'', connection_mode = ''client'', dump1090_tz = ''Local'',
     forwarders = [PulsarFwd], file_path = now_path,
     heartbeat_timeout_secs = 90, heartbeat_pattern = '',000000,'',
     mqtt_broker = ''localhost'', mqtt_port = 1883, mqtt_topic = ''adsb/sbs/raw'',
     mqtt_weather_topic = [], weather_api_url = [], mqtt_client_id = [], mqtt_qos = 0,
     receiver_latitude = None, receiver_longitude = None, receiver_altitude = None\<rparr>"

subsection \<open>Validation\<close>

definition metrics_bind_addr :: "config \<Rightarrow> ip_addr option" where
  "metrics_bind_addr c = parse_ip (metrics_bind c)"

definition validate :: "config \<Rightarrow> client_error + unit" where
  "validate c =
     (if trim (source_id c) = [] then Inl (ConfigErr ''source_id cannot be empty'')
      else if metrics_port c > 0 \<and> metrics_bind_addr c = None
      then Inl (ConfigErr (''metrics_bind '' @ metrics_bind c @ '' must be an IP address''))
      else if PulsarFwd \<in> set (forwarders c)
              \<and> \<not> starts_with ''pulsar://'' (pulsar_broker c)
              \<and> \<not> starts_with ''pulsar+ssl://'' (pulsar_broker c)
      then Inl (ConfigErr ''Pulsar broker URL must start with pulsar:// or pulsar+ssl://'')
      else if MqttFwd \<in> set (forwarders c) \<and> trim (mqtt_broker c) = []
      then Inl (ConfigErr ''mqtt_broker cannot be empty'')
      else if MqttFwd \<in> set (forwarders c) \<and> trim (mqtt_topic c) = []
      then Inl (ConfigErr ''mqtt_topic cannot be empty'')
      else if MqttFwd \<in> set (forwarders c) \<and> mqtt_qos c > 2
      then Inl (ConfigErr ''mqtt_qos must be 0, 1 or 2'')
      else if connection_mode c \<noteq> ''client'' \<and> connection_mode c \<noteq> ''server''
      then Inl (ConfigErr ''connection_mode must be client or server'')
      else if recv_buffer_size c = 0
      then Inl (ConfigErr ''recv_buffer_size must be greater than 0'')
      else if max_line_buffer_size c = 0
      then Inl (ConfigErr ''max_line_buffer_size must be greater than 0'')
      else Inr ())"

subsection \<open>Derived settings\<close>

definition cfg_mqtt_client_id :: "config \<Rightarrow> string" where
  "cfg_mqtt_client_id c = (if trim (mqtt_client_id c) = [] then source_id c else mqtt_client_id c)"

definition weather_topic :: "config \<Rightarrow> string" where
  "weather_topic c =
     (let explicit = trim (mqtt_weather_topic c)
      in if explicit \<noteq> [] then explicit
         else (case strip_suffix ''/sbs/raw'' (mqtt_topic c) of
             Some prefix \<Rightarrow> prefix @ ''/weather/grid''
           | None \<Rightarrow> mqtt_topic c @ ''/weather''))"

definition get_connection_mode :: "config \<Rightarrow> connection_mode_kind" where
  "get_connection_mode c = (if connection_mode c = ''server'' then ServerMode else ClientMode)"

definition socket_timeout :: "config \<Rightarrow> duration" where
  "socket_timeout c = from_secs (socket_timeout_secs c)"

definition socket_read_timeout :: "config \<Rightarrow> duration option" where
  "socket_read_timeout c =
     (if socket_read_timeout_secs c = 0 then None else Some (from_secs (socket_read_timeout_secs c)))"

definition initial_retry_delay :: "config \<Rightarrow> duration" where
  "initial_retry_delay c = from_secs (initial_retry_delay_secs c)"

definition max_retry_delay :: "config \<Rightarrow> duration" where
  "max_retry_delay c = from_secs (max_retry_delay_secs c)"

definition pulsar_batch_delay :: "config \<Rightarrow> duration" where
  "pulsar_batch_delay c = from_millis (pulsar_batch_delay_ms c)"

definition heartbeat_timeout :: "config \<Rightarrow> duration option" where
  "heartbeat_timeout c =
     (if heartbeat_timeout_secs c = 0 then None else Some (from_secs (heartbeat_timeout_secs c)))"

subsection \<open>The TOML overlay\<close>

datatype toml =
    TString string | TInteger int | TFloat f64 | TBool bool | TDatetime string
  | TArray "toml list" | TTable "(string \<times> toml) list"

fun as_str :: "toml \<Rightarrow> string option" where
  "as_str (TString s) = Some s"
| "as_str _ = None"

fun as_integer :: "toml \<Rightarrow> int option" where
  "as_integer (TInteger i) = Some i"
| "as_integer _ = None"

fun as_float :: "toml \<Rightarrow> f64 option" where
  "as_float (TFloat x) = Some x"
| "as_float _ = None"

fun as_bool :: "toml \<Rightarrow> bool option" where
  "as_bool (TBool b) = Some b"
| "as_bool _ = None"

fun as_array :: "toml \<Rightarrow> toml list option" where
  "as_array (TArray xs) = Some xs"
| "as_array _ = None"

text \<open>\<open>i as u16\<close> and its kin keep the low bits; \<open>u16::try_from\<close> refuses what does not fit.\<close>

definition as_unsigned :: "nat \<Rightarrow> toml \<Rightarrow> nat option" where
  "as_unsigned bits v = map_option (\<lambda>i. nat (i mod 2 ^ bits)) (as_integer v)"

definition try_u16 :: "toml \<Rightarrow> nat option" where
  "try_u16 v = Option.bind (as_integer v) (\<lambda>i. if 0 \<le> i \<and> i < 2 ^ 16 then Some (nat i) else None)"

definition as_f64 :: "toml \<Rightarrow> f64 option" where
  "as_f64 v = (case as_float v of Some x \<Rightarrow> Some x | None \<Rightarrow> map_option f64_of_int (as_integer v))"

text \<open>The macro: a defaulted field takes the file's value when it is there and converts.\<close>

definition file_value :: "(string \<Rightarrow> bool) \<Rightarrow> (string \<rightharpoonup> toml) \<Rightarrow> string \<Rightarrow> (toml \<Rightarrow> 'v option) \<Rightarrow> 'v option" where
  "file_value is_defaulted file key conv =
     (if is_defaulted key then Option.bind (file key) conv else None)"

definition ovl :: "'v option \<Rightarrow> ('v \<Rightarrow> 'c \<Rightarrow> 'c) \<Rightarrow> 'c \<Rightarrow> 'c" where
  "ovl v upd c = (case v of None \<Rightarrow> c | Some x \<Rightarrow> upd x c)"

definition parsed_forwarders :: "toml list \<Rightarrow> forwarder_kind list" where
  "parsed_forwarders xs = List.map_filter parse_forwarder_kind (List.map_filter as_str xs)"

definition file_forwarders :: "(string \<Rightarrow> bool) \<Rightarrow> (string \<rightharpoonup> toml) \<Rightarrow> forwarder_kind list option" where
  "file_forwarders is_defaulted file =
     Option.bind (file_value is_defaulted file ''forwarders'' as_array)
       (\<lambda>xs. if parsed_forwarders xs = [] then None else Some (parsed_forwarders xs))"

definition overlay_file :: "(string \<rightharpoonup> toml) \<Rightarrow> (string \<Rightarrow> bool) \<Rightarrow> config \<Rightarrow> config" where
  "overlay_file file is_defaulted =
     (let str = (\<lambda>key. file_value is_defaulted file key as_str);
          int = (\<lambda>bits key. file_value is_defaulted file key (as_unsigned bits))
      in ovl (file_forwarders is_defaulted file) (\<lambda>v c. c\<lparr>forwarders := v\<rparr>)
       \<circ> ovl (Option.bind (file ''receiver_altitude'') as_f64) (\<lambda>v c. c\<lparr>receiver_altitude := Some v\<rparr>)
       \<circ> ovl (Option.bind (file ''receiver_longitude'') as_f64) (\<lambda>v c. c\<lparr>receiver_longitude := Some v\<rparr>)
       \<circ> ovl (Option.bind (file ''receiver_latitude'') as_f64) (\<lambda>v c. c\<lparr>receiver_latitude := Some v\<rparr>)
       \<circ> ovl (str ''metrics_bind'') (\<lambda>v c. c\<lparr>metrics_bind := v\<rparr>)
       \<circ> ovl (file_value is_defaulted file ''metrics_port'' try_u16) (\<lambda>v c. c\<lparr>metrics_port := v\<rparr>)
       \<circ> ovl (int 64 ''heartbeat_timeout_secs'') (\<lambda>v c. c\<lparr>heartbeat_timeout_secs := v\<rparr>)
       \<circ> ovl (int 64 ''socket_read_timeout_secs'') (\<lambda>v c. c\<lparr>socket_read_timeout_secs := v\<rparr>)
       \<circ> ovl (int 64 ''log_sample_rate'') (\<lambda>v c. c\<lparr>log_sample_rate := v\<rparr>)
       \<circ> ovl (str ''log_level'') (\<lambda>v c. c\<lparr>log_level := v\<rparr>)
       \<circ> ovl (str ''dump1090_tz'') (\<lambda>v c. c\<lparr>dump1090_tz := v\<rparr>)
       \<circ> ovl (str ''file_path'') (\<lambda>v c. c\<lparr>file_path := v\<rparr>)
       \<circ> ovl (int 8 ''mqtt_qos'') (\<lambda>v c. c\<lparr>mqtt_qos := v\<rparr>)
       \<circ> ovl (str ''mqtt_client_id'') (\<lambda>v c. c\<lparr>mqtt_client_id := v\<rparr>)
       \<circ> ovl (str ''weather_api_url'') (\<lambda>v c. c\<lparr>weather_api_url := v\<rparr>)
       \<circ> ovl (str ''mqtt_weather_topic'') (\<lambda>v c. c\<lparr>mqtt_weather_topic := v\<rparr>)
       \<circ> ovl (str ''mqtt_topic'') (\<lambda>v c. c\<lparr>mqtt_topic := v\<rparr>)
       \<circ> ovl (int 16 ''mqtt_port'') (\<lambda>v c. c\<lparr>mqtt_port := v\<rparr>)
       \<circ> ovl (str ''mqtt_broker'') (\<lambda>v c. c\<lparr>mqtt_broker := v\<rparr>)
       \<circ> ovl (str ''pulsar_topic'') (\<lambda>v c. c\<lparr>pulsar_topic := v\<rparr>)
       \<circ> ovl (str ''pulsar_broker'') (\<lambda>v c. c\<lparr>pulsar_broker := v\<rparr>)
       \<circ> ovl (str ''connection_mode'') (\<lambda>v c. c\<lparr>connection_mode := v\<rparr>)
       \<circ> ovl (int 16 ''socket_port'') (\<lambda>v c. c\<lparr>socket_port := v\<rparr>)
       \<circ> ovl (str ''socket_host'') (\<lambda>v c. c\<lparr>socket_host := v\<rparr>)
       \<circ> ovl (str ''source_id'') (\<lambda>v c. c\<lparr>source_id := v\<rparr>))"

subsection \<open>Lemmas\<close>

lemma ovl_simps [simp]: "ovl None f c = c" "ovl (Some v) f c = f v c"
  by (simp_all add: ovl_def)

lemma file_value_not_defaulted: "\<not> is_defaulted key \<Longrightarrow> file_value is_defaulted file key conv = None"
  by (simp add: file_value_def)

lemma as_unsigned_bound: "as_unsigned bits v = Some n \<Longrightarrow> n < 2 ^ bits"
  by (cases v) (auto simp: as_unsigned_def nat_less_iff)

text \<open>A second pass over the same file changes nothing: every step writes a value that does not
  depend on the configuration. Two steps that write different fields commute.\<close>

lemma ovl_idem: "(\<And>v w c. f v (f w c) = f v c) \<Longrightarrow> ovl x f (ovl x f c) = ovl x f c"
  by (cases x) auto

lemma validate_source_id: "validate c = Inr () \<Longrightarrow> trim (source_id c) \<noteq> []"
  by (auto simp: validate_def split: if_splits)

text \<open>A setting of a backend that is not selected never blocks startup: with no Pulsar
  forwarder the broker URL, with no MQTT forwarder the MQTT broker, topic and QoS, and with the
  metrics endpoint off its bind address can be anything without changing the verdict.\<close>

theorem validate_ignores_unused:
  assumes "PulsarFwd \<notin> set (forwarders c)" and "MqttFwd \<notin> set (forwarders c)"
    and "metrics_port c = 0"
  shows "validate (c\<lparr>pulsar_broker := pb, mqtt_broker := mb, mqtt_topic := mt, mqtt_qos := q,
                      metrics_bind := bind\<rparr>) = validate c"
  using assms by (simp add: validate_def)

definition file_only_config :: config where
  "file_only_config = (default_config ''out.sbs'')\<lparr>forwarders := [FileFwd]\<rparr>"

theorem validate_ignores_unused_witness:
  "validate (file_only_config\<lparr>pulsar_broker := ''nowhere'', mqtt_broker := [], mqtt_topic := [],
       mqtt_qos := 9, metrics_bind := ''localhost''\<rparr>) = validate file_only_config"
  by (rule validate_ignores_unused) (simp_all add: file_only_config_def default_config_def)

text \<open>A validated configuration always has a usable MQTT client id: it is the explicit id, or
  the source id when the explicit one is blank, and it is never blank itself.\<close>

theorem mqtt_client_id_usable:
  "validate c = Inr () \<Longrightarrow> trim (cfg_mqtt_client_id c) \<noteq> []"
  using validate_source_id by (simp add: cfg_mqtt_client_id_def)

theorem mqtt_client_id_usable_witness:
  "trim (cfg_mqtt_client_id file_only_config) \<noteq> []"
proof (rule mqtt_client_id_usable)
  show "validate file_only_config = Inr ()"
    by (simp add: validate_def file_only_config_def default_config_def trim_eval)
qed

text \<open>Without an explicit weather topic the derived one is never the SBS topic (a publish on it
  would be parsed as SBS-1), and the staged topic \<open><prefix>/sbs/raw\<close> gives \<open><prefix>/weather/grid\<close>.\<close>

theorem weather_topic_separate:
  assumes "trim (mqtt_weather_topic c) = []"
  shows "weather_topic c \<noteq> mqtt_topic c
    \<and> (\<forall>prefix. mqtt_topic c = prefix @ ''/sbs/raw'' \<longrightarrow> weather_topic c = prefix @ ''/weather/grid'')"
proof (cases "strip_suffix ''/sbs/raw'' (mqtt_topic c)")
  case None
  then have "\<nexists>p. mqtt_topic c = p @ ''/sbs/raw''" by (metis option.distinct(1) strip_suffix_append)
  with None assms show ?thesis by (simp add: weather_topic_def)
next
  case (Some p)
  then have topic: "mqtt_topic c = p @ ''/sbs/raw''" by simp
  moreover have "weather_topic c = p @ ''/weather/grid''"
    using assms Some by (simp add: weather_topic_def del: strip_suffix_iff)
  ultimately show ?thesis by simp
qed

theorem weather_topic_separate_witness:
  "weather_topic (file_only_config\<lparr>mqtt_topic := ''adsb/prod/sbs/raw''\<rparr>) = ''adsb/prod/weather/grid''"
proof -
  let ?c = "file_only_config\<lparr>mqtt_topic := ''adsb/prod/sbs/raw''\<rparr>"
  have "trim (mqtt_weather_topic ?c) = []"
    by (simp add: file_only_config_def default_config_def)
  from weather_topic_separate [OF this] have
    "mqtt_topic ?c = ''adsb/prod'' @ ''/sbs/raw'' \<longrightarrow> weather_topic ?c = ''adsb/prod'' @ ''/weather/grid''"
    by blast
  then show ?thesis by simp
qed

text \<open>Precedence of the overlay. A key that did not come from a default keeps its value whatever
  the file says: with no key defaulted only the file-only receiver location can change, and it
  takes the file's value when that is a number and stays as it is otherwise.\<close>

theorem overlay_respects_explicit:
  assumes "\<forall>key. \<not> is_defaulted key"
  shows "overlay_file file is_defaulted c =
    c\<lparr>receiver_latitude := opt_or (Option.bind (file ''receiver_latitude'') as_f64) (receiver_latitude c),
      receiver_longitude := opt_or (Option.bind (file ''receiver_longitude'') as_f64) (receiver_longitude c),
      receiver_altitude := opt_or (Option.bind (file ''receiver_altitude'') as_f64) (receiver_altitude c)\<rparr>"
proof -
  have none: "file_value is_defaulted file key conv = None" for key and conv :: "toml \<Rightarrow> 'v option"
    using assms by (simp add: file_value_def)
  have real: "ovl x (\<lambda>v c. c\<lparr>receiver_latitude := Some v\<rparr>) d
      = d\<lparr>receiver_latitude := opt_or x (receiver_latitude d)\<rparr>"
    "ovl x (\<lambda>v c. c\<lparr>receiver_longitude := Some v\<rparr>) d
      = d\<lparr>receiver_longitude := opt_or x (receiver_longitude d)\<rparr>"
    "ovl x (\<lambda>v c. c\<lparr>receiver_altitude := Some v\<rparr>) d
      = d\<lparr>receiver_altitude := opt_or x (receiver_altitude d)\<rparr>" for x and d :: config
    by (cases x; simp)+
  show ?thesis
    by (simp add: overlay_file_def Let_def none file_forwarders_def real)
qed

theorem overlay_respects_explicit_witness:
  "overlay_file [''socket_port'' \<mapsto> TInteger 70000, ''receiver_latitude'' \<mapsto> TInteger 20] (\<lambda>_. False)
     file_only_config
   = file_only_config\<lparr>receiver_latitude := Some (F_fin 20)\<rparr>"
proof -
  have "f64_of_int 20 = F_fin 20"
    using round64_small_int [of 20] by (simp add: f64_of_int_def)
  then show ?thesis
    using overlay_respects_explicit [of "\<lambda>_. False"
        "[''socket_port'' \<mapsto> TInteger 70000, ''receiver_latitude'' \<mapsto> TInteger 20]" file_only_config]
    by (simp add: as_f64_def file_only_config_def default_config_def)
qed

text \<open>A port in the file is reduced modulo \<open>2^16\<close> (\<open>as u16\<close>), while \<open>metrics_port\<close> refuses what
  does not fit: a file with both set to 70000 silently connects to port 4464 and leaves the
  metrics port alone.\<close>

theorem overlay_port_truncates:
  "socket_port (overlay_file [''socket_port'' \<mapsto> TInteger n, ''metrics_port'' \<mapsto> TInteger n] (\<lambda>_. True) c)
     = nat (n mod 65536)
   \<and> metrics_port (overlay_file [''socket_port'' \<mapsto> TInteger n, ''metrics_port'' \<mapsto> TInteger n] (\<lambda>_. True) c)
     = (if 0 \<le> n \<and> n < 65536 then nat n else metrics_port c)"
  by (simp add: overlay_file_def Let_def file_forwarders_def file_value_def as_unsigned_def try_u16_def)

end
