(* ===== verification/Backoff.thy ===== *)
theory Backoff imports Prelude begin

text \<open>
  Reconnect pacing, \<open>adsb-pulsar-client/src/backoff.rs\<close>: the exponential \<open>Backoff\<close>, the log
  throttle and the rules that tell a recovered connection from a flapping one.

  Three event loops use it (the MQTT forwarder, the MQTT source and the weather publisher).
  What they share is stated once, as the locale \<open>paced_reconnect\<close>: how a connect and an error
  change the pacing state and how long the error makes the loop sleep. Each loop's own theory
  interprets it on that loop's handlers.
\<close>

record backoff =
  bo_base :: duration
  bo_max :: duration

definition default_backoff :: backoff where
  "default_backoff = \<lparr>bo_base = from_millis 100, bo_max = from_secs 30\<rparr>"

text \<open>\<open>u64::checked_shl\<close>\<close>

definition checked_shl64 :: "nat \<Rightarrow> nat \<Rightarrow> nat option" where
  [rust_defs]: "checked_shl64 x n = (if n < 64 then Some ((x * 2 ^ n) mod 2 ^ 64) else None)"

definition delay :: "backoff \<Rightarrow> nat \<Rightarrow> duration" where
  "delay b attempt =
     (let factor = (case checked_shl64 1 (min attempt 32) of Some f \<Rightarrow> f | None \<Rightarrow> U64_MAX);
          millis = sat_mul U64_MAX (as_millis (bo_base b) mod 2 ^ 64) factor
      in min (from_millis millis) (bo_max b))"

definition should_log :: "nat \<Rightarrow> bool" where
  "should_log attempt = (attempt < 3 \<or> attempt mod 10 = 0)"

definition should_reset :: "duration \<Rightarrow> bool" where
  "should_reset connection_lasted = (connection_lasted \<ge> from_secs 30)"

definition SHORT_LIVED :: duration where
  "SHORT_LIVED = from_secs 5"

definition was_short_lived :: "duration \<Rightarrow> bool" where
  "was_short_lived connection_lasted = (connection_lasted < SHORT_LIVED)"

definition looks_like_id_collision :: "nat \<Rightarrow> bool" where
  "looks_like_id_collision short_lived_connections = (short_lived_connections \<ge> 3)"

subsection \<open>The delay\<close>

lemma delay_factor: "checked_shl64 1 (min attempt 32) = Some (2 ^ min attempt 32)"
proof -
  have "(2::nat) ^ min attempt 32 < 2 ^ 64"
    by (rule power_strict_increasing) auto
  then show ?thesis by (simp add: checked_shl64_def min_less_iff_disj)
qed

lemma delay_eq:
  "delay b attempt =
     min (from_millis (sat_mul U64_MAX (as_millis (bo_base b) mod 2 ^ 64) (2 ^ min attempt 32)))
         (bo_max b)"
  by (simp only: delay_def delay_factor option.case Let_def)

lemma delay_le_max: "delay b n \<le> bo_max b"
  by (simp add: delay_eq)

lemma delay_mono: "m \<le> n \<Longrightarrow> delay b m \<le> delay b n"
  unfolding delay_eq
  by (intro min.mono from_millis_mono sat_mul_mono power_increasing) auto

lemma delay_default_small:
  "n \<le> 8 \<Longrightarrow> delay default_backoff n = from_millis (100 * 2 ^ n)"
proof -
  assume n: "n \<le> 8"
  then have "(2::nat) ^ n \<le> 2 ^ 8" by (rule power_increasing) simp
  moreover have "min n 32 = n" using n by simp
  ultimately show ?thesis
    by (simp add: delay_eq default_backoff_def sat_mul_def from_millis_def from_secs_def as_millis_def
        min_absorb2)
qed

lemma delay_saturates: "32 \<le> m \<Longrightarrow> 32 \<le> n \<Longrightarrow> delay b m = delay b n"
  by (simp add: delay_eq min_absorb2)

lemma delay_default_ceiling: "9 \<le> n \<Longrightarrow> delay default_backoff n = from_secs 30"
proof -
  assume "9 \<le> n"
  then have "delay default_backoff 9 \<le> delay default_backoff n" by (rule delay_mono)
  moreover have "delay default_backoff 9 = from_secs 30"
    by (simp add: delay_eq default_backoff_def sat_mul_def from_millis_def from_secs_def as_millis_def)
  moreover have "delay default_backoff n \<le> from_secs 30"
    using delay_le_max [of default_backoff n] by (simp add: default_backoff_def)
  ultimately show ?thesis by simp
qed

subsection \<open>The log throttle\<close>

text \<open>The number of logged attempts among the first \<open>n\<close>.\<close>

fun logged :: "nat \<Rightarrow> nat" where
  "logged 0 = 0"
| "logged (Suc n) = logged n + (if should_log n then 1 else 0)"

lemma logged_bound: "3 \<le> n \<Longrightarrow> logged n \<le> 2 + (n + 9) div 10"
proof (induction n rule: dec_induct)
  case base
  then show ?case by (simp add: numeral_3_eq_3 should_log_def)
next
  case (step m)
  show ?case
  proof (cases "m mod 10 = 0")
    case True
    then obtain q where "m = 10 * q" by auto
    with step.IH show ?thesis by simp
  next
    case False
    with step.hyps have "\<not> should_log m" by (simp add: should_log_def)
    with step.IH show ?thesis by (simp add: div_le_mono order_trans)
  qed
qed

subsection \<open>The pacing state of an event loop\<close>

text \<open>
  The local variables of the three loops: the retry number, when the current connection was
  established (if it was), and how many connections did not hold. \<open>paced_error\<close> is what every
  loop does with them when \<open>poll\<close> returns an error at time \<open>now\<close>; its second component is the
  sleep. (The code reads the clock twice in a row; the model reads it once.)
\<close>

record pacer =
  attempt :: nat
  connected_at :: "instant option"
  short_lived :: nat

definition fresh_pacer :: pacer where
  "fresh_pacer = \<lparr>attempt = 0, connected_at = None, short_lived = 0\<rparr>"

definition settle :: "instant \<Rightarrow> pacer \<Rightarrow> pacer" where
  "settle now p =
     (case connected_at p of
        None \<Rightarrow> p
      | Some t \<Rightarrow>
          if should_reset (elapsed_since t now) then p\<lparr>attempt := 0, short_lived := 0\<rparr>
          else if was_short_lived (elapsed_since t now)
          then p\<lparr>short_lived := sat_add U32_MAX (short_lived p) 1\<rparr>
          else p)\<lparr>connected_at := None\<rparr>"

definition paced_error :: "backoff \<Rightarrow> instant \<Rightarrow> pacer \<Rightarrow> pacer \<times> duration" where
  "paced_error b now p =
     (let q = settle now p
      in (q\<lparr>attempt := sat_add U32_MAX (attempt q) 1\<rparr>, delay b (attempt q)))"

lemma delay_sat_add: "delay b (sat_add U32_MAX a 1 + k) = delay b (a + Suc k)"
proof (cases "Suc a \<le> U32_MAX")
  case False
  then show ?thesis by (intro delay_saturates) (simp_all add: sat_add_def)
qed (simp add: sat_add_def)

text \<open>A connection history: the broker accepts, or the connection fails.\<close>

datatype conn_event = Connect instant | Fail instant

fun run_conn ::
  "(instant \<Rightarrow> 's \<Rightarrow> 's) \<Rightarrow> (instant \<Rightarrow> 's \<Rightarrow> 's \<times> duration) \<Rightarrow> conn_event list \<Rightarrow> 's \<Rightarrow> 's \<times> duration list"
where
  "run_conn con err [] s = (s, [])"
| "run_conn con err (Connect t # es) s = run_conn con err es (con t s)"
| "run_conn con err (Fail t # es) s =
     (let (s', d) = err t s; (s'', ds) = run_conn con err es s' in (s'', d # ds))"

text \<open>
  \<open>flapping\<close>: no connection of the history holds for the thirty seconds that count as
  recovery; \<open>evicted\<close>: every failure ends a connection younger than five seconds.
\<close>

fun flapping :: "instant option \<Rightarrow> conn_event list \<Rightarrow> bool" where
  "flapping c [] = True"
| "flapping c (Connect t # es) = flapping (Some t) es"
| "flapping c (Fail t # es) =
     ((case c of None \<Rightarrow> True | Some t0 \<Rightarrow> \<not> should_reset (elapsed_since t0 t)) \<and> flapping None es)"

fun evicted :: "instant option \<Rightarrow> conn_event list \<Rightarrow> bool" where
  "evicted c [] = True"
| "evicted c (Connect t # es) = evicted (Some t) es"
| "evicted c (Fail t # es) =
     ((case c of None \<Rightarrow> False | Some t0 \<Rightarrow> was_short_lived (elapsed_since t0 t)) \<and> evicted None es)"

fun failures :: "conn_event list \<Rightarrow> nat" where
  "failures [] = 0"
| "failures (Connect t # es) = failures es"
| "failures (Fail t # es) = Suc (failures es)"

lemma short_not_reset: "was_short_lived d \<Longrightarrow> \<not> should_reset d"
  by (simp add: was_short_lived_def should_reset_def SHORT_LIVED_def from_secs_def)

lemma evicted_flapping: "evicted c es \<Longrightarrow> flapping c es"
  by (induction c es rule: evicted.induct) (auto split: option.splits dest: short_not_reset)

locale paced_reconnect =
  fixes con :: "instant \<Rightarrow> 's \<Rightarrow> 's"
    and err :: "instant \<Rightarrow> 's \<Rightarrow> 's \<times> duration"
    and view :: "'s \<Rightarrow> pacer"
    and b :: backoff
  assumes view_con: "view (con t s) = (view s)\<lparr>connected_at := Some t\<rparr>"
    and view_err: "view (fst (err t s)) = fst (paced_error b t (view s))"
    and sleep_err: "snd (err t s) = snd (paced_error b t (view s))"
begin

lemma view_after_fail:
  assumes "\<not> should_reset (case connected_at (view s) of None \<Rightarrow> 0 | Some t0 \<Rightarrow> elapsed_since t0 t)"
  shows "attempt (view (fst (err t s))) = sat_add U32_MAX (attempt (view s)) 1"
    and "connected_at (view (fst (err t s))) = None"
    and "snd (err t s) = delay b (attempt (view s))"
  using assms
  by (auto simp: view_err sleep_err paced_error_def Let_def settle_def split: option.splits)

lemma flapping_sleeps:
  "flapping (connected_at (view s)) es \<Longrightarrow>
   snd (run_conn con err es s) = map (\<lambda>k. delay b (attempt (view s) + k)) [0..<failures es]"
proof (induction es arbitrary: s)
  case (Cons e es)
  show ?case
  proof (cases e)
    case (Connect t)
    with Cons.IH [of "con t s"] Cons.prems show ?thesis by (simp add: view_con)
  next
    case (Fail t)
    let ?s' = "fst (err t s)" and ?a = "attempt (view s)"
    have "\<not> should_reset (case connected_at (view s) of None \<Rightarrow> 0 | Some t0 \<Rightarrow> elapsed_since t0 t)"
      using Cons.prems Fail by (auto simp: should_reset_def from_secs_def split: option.splits)
    note after = view_after_fail [OF this]
    have "snd (run_conn con err es ?s')
        = map (\<lambda>k. delay b (sat_add U32_MAX ?a 1 + k)) [0..<failures es]"
      using Cons.IH [of ?s'] Cons.prems Fail by (simp add: after)
    also have "\<dots> = map (\<lambda>k. delay b (?a + Suc k)) [0..<failures es]"
      by (simp only: delay_sat_add)
    finally show ?thesis
      using Fail after(3) by (simp add: case_prod_beta Let_def map_upt_Suc del: upt_Suc)
  qed
qed simp

lemma evicted_short_lived:
  "evicted (connected_at (view s)) es \<Longrightarrow>
   short_lived (view (fst (run_conn con err es s)))
     = (if failures es = 0 then short_lived (view s)
        else min U32_MAX (short_lived (view s) + failures es))"
proof (induction es arbitrary: s)
  case Nil
  then show ?case by simp
next
  case (Cons e es)
  show ?case
  proof (cases e)
    case (Connect t)
    with Cons.IH [of "con t s"] Cons.prems show ?thesis by (simp add: view_con)
  next
    case (Fail t)
    let ?s' = "fst (err t s)"
    have "short_lived (view ?s') = min U32_MAX (short_lived (view s) + 1)"
      and "connected_at (view ?s') = None"
      using Cons.prems Fail
      by (auto simp: view_err paced_error_def Let_def settle_def sat_add_def
          dest: short_not_reset split: option.splits)
    with Cons.IH [of ?s'] Cons.prems Fail show ?thesis
      by (auto simp: case_prod_beta Let_def)
  qed
qed

end

subsection \<open>How much time a storm must take\<close>

lemma default_sleeps_total:
  "from_secs 30 * (n - 9) \<le> sum_list (map (delay default_backoff) [0..<n])"
proof (induction n)
  case (Suc n)
  show ?case
  proof (cases "9 \<le> n")
    case True
    then have "Suc n - 9 = Suc (n - 9)" by simp
    with Suc.IH delay_default_ceiling [OF True] show ?thesis by simp
  qed simp
qed simp

end
