(* ===== verification/Forwarders.thy ===== *)
theory Forwarders imports Feed_Config Backoff begin

text \<open>
  The output side of the feed client, \<open>adsb-pulsar-client/src/forwarder/\<close>: the
  \<open>MessageForwarder\<close> trait as a record of its methods, and its four implementations.

  What a file system, an MQTT client or a Pulsar producer answers is not in the repository. Each
  forwarder state carries the answers its environment will give (\<open>True\<close> is success); a call
  consumes one. \<open>accepted\<close> and \<open>sent\<close> are what the external client took from the forwarder.
\<close>

record 'f forwarder_ops =
  fw_connect :: "'f \<Rightarrow> (client_error + unit) \<times> 'f"
  fw_send :: "bytes \<Rightarrow> 'f \<Rightarrow> (client_error + unit) \<times> 'f"
  fw_flush :: "'f \<Rightarrow> (client_error + unit) \<times> 'f"
  fw_disconnect :: "'f \<Rightarrow> (client_error + unit) \<times> 'f"
  fw_is_connected :: "'f \<Rightarrow> bool"
  fw_name :: "'f \<Rightarrow> string"

fun next_answer :: "bool list \<Rightarrow> bool \<times> bool list" where
  "next_answer [] = (True, [])"
| "next_answer (a # as) = (a, as)"

abbreviation NL :: char where "NL \<equiv> CHR 0x0A"
abbreviation CR :: char where "CR \<equiv> CHR 0x0D"

subsection \<open>No-op\<close>

definition noop_ops :: "'f forwarder_ops" where
  "noop_ops = \<lparr>fw_connect = (\<lambda>f. (Inr (), f)), fw_send = (\<lambda>_ f. (Inr (), f)),
     fw_flush = (\<lambda>f. (Inr (), f)), fw_disconnect = (\<lambda>f. (Inr (), f)),
     fw_is_connected = (\<lambda>_. True), fw_name = (\<lambda>_. ''noop'')\<rparr>"

subsection \<open>File\<close>

record file_forwarder =
  ff_path :: string
  ff_writer :: "bytes option" \<comment> \<open>what the \<open>BufWriter\<close> still holds\<close>
  ff_file :: bytes \<comment> \<open>what has reached the file\<close>
  ff_env :: "bool list"

definition file_connect :: "file_forwarder \<Rightarrow> (client_error + unit) \<times> file_forwarder" where
  "file_connect f = (let (ok, env) = next_answer (ff_env f); f = f\<lparr>ff_env := env\<rparr>
     in if ok then (Inr (), f\<lparr>ff_writer := Some []\<rparr>)
        else (Inl (ForwarderErr (''Failed to open '' @ ff_path f)), f))"

definition file_write :: "bytes \<Rightarrow> file_forwarder \<Rightarrow> bool \<times> file_forwarder" where
  "file_write bs f = (let (ok, env) = next_answer (ff_env f)
     in (ok, f\<lparr>ff_env := env,
               ff_writer := (if ok then map_option (\<lambda>w. w @ bs) (ff_writer f) else ff_writer f)\<rparr>))"

definition file_send :: "bytes \<Rightarrow> file_forwarder \<Rightarrow> (client_error + unit) \<times> file_forwarder" where
  "file_send message f =
     (if ff_writer f = None then (Inl (ForwarderErr ''FileForwarder not connected''), f)
      else (let (ok, f) = file_write message f
            in if \<not> ok then (Inl (ForwarderErr ''Write failed''), f)
               else (let (ok, f) = file_write [NL] f
                     in if \<not> ok then (Inl (ForwarderErr ''Write newline failed''), f)
                        else (Inr (), f))))"

definition file_sync :: "file_forwarder \<Rightarrow> bool \<times> file_forwarder" where
  "file_sync f = (let (ok, env) = next_answer (ff_env f); f = f\<lparr>ff_env := env\<rparr>
     in if ok then (True, f\<lparr>ff_file := ff_file f @ (case ff_writer f of Some w \<Rightarrow> w | None \<Rightarrow> []),
                             ff_writer := map_option (\<lambda>_. []) (ff_writer f)\<rparr>)
        else (False, f))"

definition file_flush :: "file_forwarder \<Rightarrow> (client_error + unit) \<times> file_forwarder" where
  "file_flush f =
     (if ff_writer f = None then (Inr (), f)
      else (let (ok, f) = file_sync f
            in (if ok then Inr () else Inl (ForwarderErr ''Flush failed''), f)))"

definition file_disconnect :: "file_forwarder \<Rightarrow> (client_error + unit) \<times> file_forwarder" where
  "file_disconnect f =
     (if ff_writer f = None then (Inr (), f)
      else (let (ok, f) = file_sync f
            in (if ok then Inr () else Inl (ForwarderErr ''Flush on disconnect failed''),
                f\<lparr>ff_writer := None\<rparr>)))"

definition file_ops :: "file_forwarder forwarder_ops" where
  "file_ops = \<lparr>fw_connect = file_connect, fw_send = file_send, fw_flush = file_flush,
     fw_disconnect = file_disconnect, fw_is_connected = (\<lambda>f. ff_writer f \<noteq> None),
     fw_name = (\<lambda>_. ''file'')\<rparr>"

subsection \<open>MQTT\<close>

text \<open>
  \<open>connected\<close> is written by the task that polls the event loop; the task's own variables are
  the \<open>mf_pacer\<close>. The two handlers below are the arms of its loop.
\<close>

record mqtt_forwarder =
  mf_topic :: string
  mf_client_id :: string
  mf_qos :: nat
  mf_client :: bool \<comment> \<open>\<open>client.is_some()\<close>\<close>
  mf_connected :: bool
  mf_accepted :: "bytes list"
  mf_env :: "bool list"
  mf_pacer :: pacer

datatype qos = AtMostOnce | AtLeastOnce | ExactlyOnce

definition qos_from_u8 :: "nat \<Rightarrow> qos" where
  "qos_from_u8 q = (if q = 1 then AtLeastOnce else if q = 2 then ExactlyOnce else AtMostOnce)"

definition mqtt_fw_new :: "config \<Rightarrow> bool list \<Rightarrow> mqtt_forwarder" where
  "mqtt_fw_new c env = \<lparr>mf_topic = mqtt_topic c, mf_client_id = cfg_mqtt_client_id c,
     mf_qos = mqtt_qos c, mf_client = False, mf_connected = False, mf_accepted = [], mf_env = env,
     mf_pacer = fresh_pacer\<rparr>"

definition mqtt_fw_connect :: "mqtt_forwarder \<Rightarrow> (client_error + unit) \<times> mqtt_forwarder" where
  "mqtt_fw_connect f = (Inr (), f\<lparr>mf_client := True, mf_pacer := fresh_pacer\<rparr>)"

definition mqtt_fw_connack :: "instant \<Rightarrow> mqtt_forwarder \<Rightarrow> mqtt_forwarder" where
  "mqtt_fw_connack now f =
     f\<lparr>mf_pacer := (mf_pacer f)\<lparr>connected_at := Some now\<rparr>, mf_connected := True\<rparr>"

definition mqtt_fw_poll_error :: "instant \<Rightarrow> mqtt_forwarder \<Rightarrow> mqtt_forwarder \<times> duration" where
  "mqtt_fw_poll_error now f =
     (let f = f\<lparr>mf_connected := False\<rparr>;
          p = mf_pacer f;
          p = (case connected_at p of
                 Some t \<Rightarrow>
                   if should_reset (elapsed_since t now) then p\<lparr>attempt := 0, short_lived := 0\<rparr>
                   else if was_short_lived (elapsed_since t now)
                   then p\<lparr>short_lived := sat_add U32_MAX (short_lived p) 1\<rparr> else p
               | None \<Rightarrow> p);
          p = p\<lparr>connected_at := None\<rparr>;
          sleep = delay default_backoff (attempt p);
          p = p\<lparr>attempt := sat_add U32_MAX (attempt p) 1\<rparr>
      in (f\<lparr>mf_pacer := p\<rparr>, sleep))"

definition mqtt_fw_send :: "bytes \<Rightarrow> mqtt_forwarder \<Rightarrow> (client_error + unit) \<times> mqtt_forwarder" where
  "mqtt_fw_send message f =
     (if \<not> mf_client f then (Inl (ForwarderErr ''MQTT client not connected''), f)
      else (let (ok, env) = next_answer (mf_env f)
            in if ok then (Inr (), f\<lparr>mf_env := env, mf_accepted := mf_accepted f @ [message]\<rparr>)
               else (Inl (ForwarderErr ''MQTT publish failed''), f\<lparr>mf_env := env\<rparr>)))"

definition mqtt_fw_disconnect :: "mqtt_forwarder \<Rightarrow> (client_error + unit) \<times> mqtt_forwarder" where
  "mqtt_fw_disconnect f = (Inr (), f\<lparr>mf_client := False, mf_connected := False\<rparr>)"

definition mqtt_fw_ops :: "mqtt_forwarder forwarder_ops" where
  "mqtt_fw_ops = \<lparr>fw_connect = mqtt_fw_connect, fw_send = mqtt_fw_send, fw_flush = (\<lambda>f. (Inr (), f)),
     fw_disconnect = mqtt_fw_disconnect, fw_is_connected = mf_connected, fw_name = (\<lambda>_. ''mqtt'')\<rparr>"

interpretation mqtt_fw: paced_reconnect mqtt_fw_connack mqtt_fw_poll_error mf_pacer default_backoff
  by unfold_locales
     (auto simp: mqtt_fw_connack_def mqtt_fw_poll_error_def paced_error_def settle_def Let_def
       split: option.splits)

subsection \<open>Pulsar\<close>

text \<open>
  A background task builds the producer and hands it over through a channel; \<open>pf_channel\<close> counts
  the producers waiting in it. \<open>pulsar_task_finishes\<close> is the task's successful end.
\<close>

record pulsar_forwarder =
  pf_producer :: bool \<comment> \<open>\<open>producer.is_some()\<close>\<close>
  pf_task_running :: bool
  pf_channel :: nat
  pf_sent :: "bytes list"
  pf_env :: "bool list"

definition pulsar_new :: "bool list \<Rightarrow> pulsar_forwarder" where
  "pulsar_new env = \<lparr>pf_producer = False, pf_task_running = False, pf_channel = 0, pf_sent = [],
     pf_env = env\<rparr>"

definition poll_reconnect :: "pulsar_forwarder \<Rightarrow> pulsar_forwarder" where
  "poll_reconnect f =
     (if pf_channel f > 0
      then f\<lparr>pf_channel := pf_channel f - 1, pf_producer := True, pf_task_running := False\<rparr> else f)"

definition start_reconnect_task :: "pulsar_forwarder \<Rightarrow> pulsar_forwarder" where
  "start_reconnect_task f =
     (if pf_producer f \<or> pf_task_running f then f else f\<lparr>pf_task_running := True\<rparr>)"

definition pulsar_task_finishes :: "pulsar_forwarder \<Rightarrow> pulsar_forwarder" where
  "pulsar_task_finishes f =
     (if pf_task_running f \<and> pf_channel f = 0 then f\<lparr>pf_channel := Suc (pf_channel f)\<rparr> else f)"

definition pulsar_connect :: "pulsar_forwarder \<Rightarrow> (client_error + unit) \<times> pulsar_forwarder" where
  "pulsar_connect f = (Inr (), start_reconnect_task f)"

definition pulsar_send :: "bytes \<Rightarrow> pulsar_forwarder \<Rightarrow> (client_error + unit) \<times> pulsar_forwarder" where
  "pulsar_send message f =
     (let f = poll_reconnect f
      in if pf_producer f
         then (let (ok, env) = next_answer (pf_env f); f = f\<lparr>pf_env := env\<rparr>
               in if ok then (Inr (), f\<lparr>pf_sent := pf_sent f @ [message]\<rparr>)
                  else (Inl (PulsarErr ''send failed''), f))
         else (Inl (ForwarderErr ''Pulsar producer not connected''), f))"

definition pulsar_flush :: "pulsar_forwarder \<Rightarrow> (client_error + unit) \<times> pulsar_forwarder" where
  "pulsar_flush f = (Inr (), poll_reconnect f)"

definition pulsar_disconnect :: "pulsar_forwarder \<Rightarrow> (client_error + unit) \<times> pulsar_forwarder" where
  "pulsar_disconnect f = (Inr (), start_reconnect_task (f\<lparr>pf_producer := False\<rparr>))"

definition pulsar_ops :: "pulsar_forwarder forwarder_ops" where
  "pulsar_ops = \<lparr>fw_connect = pulsar_connect, fw_send = pulsar_send, fw_flush = pulsar_flush,
     fw_disconnect = pulsar_disconnect, fw_is_connected = pf_producer, fw_name = (\<lambda>_. ''pulsar'')\<rparr>"

subsection \<open>The contract the client relies on\<close>

text \<open>
  \<open>log\<close> is the list of messages a forwarder has acknowledged with \<open>Ok\<close>. A send that succeeds adds
  its message, and nothing else changes the list.
\<close>

locale acknowledging =
  fixes ops :: "'f forwarder_ops" and log :: "'f \<Rightarrow> bytes list"
  assumes send_ok: "fw_send ops m f = (Inr (), f') \<Longrightarrow> log f' = log f @ [m]"
    and send_err: "fw_send ops m f = (Inl e, f') \<Longrightarrow> log f' = log f"
    and flush_log: "log (snd (fw_flush ops f)) = log f"
    and disconnect_log: "log (snd (fw_disconnect ops f)) = log f"
begin

lemma send_log: "log (snd (fw_send ops m f)) = log f @ (if is_ok (fst (fw_send ops m f)) then [m] else [])"
proof (cases "fw_send ops m f")
  case (Pair r f')
  then show ?thesis by (cases r) (simp_all add: send_ok send_err)
qed

end

interpretation mqtt_ack: acknowledging mqtt_fw_ops mf_accepted
  by unfold_locales
     (auto simp: mqtt_fw_ops_def mqtt_fw_send_def mqtt_fw_disconnect_def Let_def
       split: if_splits prod.splits)

interpretation pulsar_ack: acknowledging pulsar_ops pf_sent
  by unfold_locales
     (auto simp: pulsar_ops_def pulsar_send_def pulsar_flush_def pulsar_disconnect_def poll_reconnect_def
       start_reconnect_task_def Let_def split: if_splits prod.splits)

text \<open>
  Any forwarder can be observed: \<open>logged\<close> pairs its state with the acknowledged messages and
  changes nothing the client can see.
\<close>

definition logged :: "'f forwarder_ops \<Rightarrow> ('f \<times> bytes list) forwarder_ops" where
  "logged ops = \<lparr>
     fw_connect = (\<lambda>(f, l). let (r, f') = fw_connect ops f in (r, (f', l))),
     fw_send = (\<lambda>m (f, l). let (r, f') = fw_send ops m f
                in (r, (f', l @ (case r of Inr _ \<Rightarrow> [m] | Inl _ \<Rightarrow> [])))),
     fw_flush = (\<lambda>(f, l). let (r, f') = fw_flush ops f in (r, (f', l))),
     fw_disconnect = (\<lambda>(f, l). let (r, f') = fw_disconnect ops f in (r, (f', l))),
     fw_is_connected = (\<lambda>(f, l). fw_is_connected ops f),
     fw_name = (\<lambda>(f, l). fw_name ops f)\<rparr>"

interpretation logged_ack: acknowledging "logged ops" snd
  by unfold_locales (auto simp: logged_def Let_def split: prod.splits)

text \<open>A reconnect storm is paced. Take the forwarder's event loop from its start through any
  history of connects and failures in which no connection held for thirty seconds: the sleeps
  after the failures are the backoff delays of attempts 0, 1, 2, \<dots>, so \<open>n\<close> failures take at
  least \<open>30 s * (n - 9)\<close>. Connecting successfully does not reset the pace.\<close>

theorem mqtt_forwarder_storm_paced:
  assumes "mf_pacer f = fresh_pacer" and "flapping None es"
  shows "snd (run_conn mqtt_fw_connack mqtt_fw_poll_error es f)
           = map (delay default_backoff) [0..<failures es]
       \<and> from_secs 30 * (failures es - 9)
           \<le> sum_list (snd (run_conn mqtt_fw_connack mqtt_fw_poll_error es f))"
proof -
  have "flapping (connected_at (mf_pacer f)) es"
    using assms by (simp add: fresh_pacer_def)
  then have "snd (run_conn mqtt_fw_connack mqtt_fw_poll_error es f)
      = map (delay default_backoff) [0..<failures es]"
    using mqtt_fw.flapping_sleeps [of f es] assms(1) by (simp add: fresh_pacer_def)
  then show ?thesis by (simp add: default_sleeps_total)
qed

text \<open>A session stolen every two seconds, twelve times.\<close>

fun eviction_storm :: "nat \<Rightarrow> conn_event list" where
  "eviction_storm 0 = []"
| "eviction_storm (Suc n) = Connect (from_secs (10 * n)) # Fail (from_secs (10 * n + 2)) # eviction_storm n"

theorem mqtt_forwarder_storm_paced_witness:
  "from_secs 90 \<le> sum_list (snd (run_conn mqtt_fw_connack mqtt_fw_poll_error (eviction_storm 12)
      (mqtt_fw_new (default_config ''out.sbs'') [])))"
proof -
  have "flapping None (eviction_storm n)" for n
    by (induction n) (simp_all add: elapsed_since_def should_reset_def from_secs_def)
  moreover have fails: "failures (eviction_storm n) = n" for n
    by (induction n) simp_all
  moreover have "mf_pacer (mqtt_fw_new (default_config ''out.sbs'') []) = fresh_pacer"
    by (simp add: mqtt_fw_new_def)
  ultimately show ?thesis
    using mqtt_forwarder_storm_paced [of "mqtt_fw_new (default_config ''out.sbs'') []" "eviction_storm 12",
        THEN conjunct2]
    by (simp only: fails) (simp add: from_secs_def)
qed

fun file_send_all :: "bytes list \<Rightarrow> file_forwarder \<Rightarrow> file_forwarder" where
  "file_send_all [] f = f"
| "file_send_all (m # ms) f = file_send_all ms (snd (file_send m f))"

lemma file_send_ok:
  "ff_writer f = Some w \<Longrightarrow> False \<notin> set (ff_env f) \<Longrightarrow>
   \<exists>env. file_send m f = (Inr (), f\<lparr>ff_env := env, ff_writer := Some (w @ m @ [NL])\<rparr>) \<and> False \<notin> set env"
proof -
  assume w: "ff_writer f = Some w" and env: "False \<notin> set (ff_env f)"
  have ans: "\<exists>e'. next_answer e = (True, e') \<and> False \<notin> set e'" if "False \<notin> set e" for e
    using that by (cases e) auto
  obtain e1 where e1: "next_answer (ff_env f) = (True, e1)" "False \<notin> set e1" using ans env by blast
  obtain e2 where e2: "next_answer e1 = (True, e2)" "False \<notin> set e2" using ans e1(2) by blast
  show ?thesis using w e1 e2 by (auto simp: file_send_def file_write_def Let_def)
qed

lemma file_send_all_writer:
  "ff_writer f = Some w \<Longrightarrow> False \<notin> set (ff_env f) \<Longrightarrow>
   ff_writer (file_send_all ms f) = Some (w @ concat (map (\<lambda>m. m @ [NL]) ms))
   \<and> ff_file (file_send_all ms f) = ff_file f \<and> False \<notin> set (ff_env (file_send_all ms f))"
proof (induction ms arbitrary: f w)
  case (Cons m ms)
  from file_send_ok [OF Cons.prems, of m] obtain env where
    s: "file_send m f = (Inr (), f\<lparr>ff_env := env, ff_writer := Some (w @ m @ [NL])\<rparr>)" "False \<notin> set env"
    by blast
  with Cons.IH [of "snd (file_send m f)" "w @ m @ [NL]"] show ?case by simp
qed simp

text \<open>A file forwarder that is connected and whose writes and flushes succeed keeps the file
  exact: after sending messages and one flush the file holds its old content followed by each
  message and a newline, in order.\<close>
theorem file_forwarder_exact:
  assumes "ff_writer f = Some []" and "False \<notin> set (ff_env f)"
  shows "ff_file (snd (file_flush (file_send_all ms f))) = ff_file f @ concat (map (\<lambda>m. m @ [NL]) ms)"
proof -
  note all = file_send_all_writer [OF assms, of ms]
  then obtain env where "next_answer (ff_env (file_send_all ms f)) = (True, env)"
    by (cases "ff_env (file_send_all ms f)") auto
  with all show ?thesis by (simp add: file_flush_def file_sync_def Let_def)
qed

theorem file_forwarder_exact_witness:
  "ff_file (snd (file_flush (file_send_all [''MSG,1'', ''MSG,3'']
     \<lparr>ff_path = ''out'', ff_writer = Some [], ff_file = ''old'', ff_env = [True]\<rparr>)))
   = ''old'' @ ''MSG,1'' @ [NL] @ ''MSG,3'' @ [NL]"
  by (subst file_forwarder_exact) simp_all

end
