(* ===== verification/Conn_Monitor.thy ===== *)
theory Conn_Monitor imports Feed_Config begin

text \<open>
  \<open>adsb-pulsar-client/src/connection_monitor.rs\<close>: heartbeat-aware idle detection. Every method
  that reads the clock takes the current instant as an argument.
\<close>

datatype line_kind = Heartbeat | DataLine

datatype stale_reason = HeartbeatTimeout duration

record connection_monitor =
  last_tcp_activity :: instant
  last_heartbeat :: instant
  last_data_message :: instant
  hb_pattern :: "bytes option"
  hb_timeout :: "duration option"

definition monitor_new :: "config \<Rightarrow> instant \<Rightarrow> connection_monitor" where
  "monitor_new c now = \<lparr>
     last_tcp_activity = now, last_heartbeat = now, last_data_message = now,
     hb_pattern = (if heartbeat_pattern c = [] then None else Some (heartbeat_pattern c)),
     hb_timeout = heartbeat_timeout c\<rparr>"

definition record_tcp_activity :: "instant \<Rightarrow> connection_monitor \<Rightarrow> connection_monitor" where
  "record_tcp_activity now m = m\<lparr>last_tcp_activity := now\<rparr>"

definition is_heartbeat :: "connection_monitor \<Rightarrow> bytes \<Rightarrow> bool" where
  "is_heartbeat m line = (case hb_pattern m of Some pattern \<Rightarrow> contains pattern line | None \<Rightarrow> False)"

definition classify_line :: "instant \<Rightarrow> bytes \<Rightarrow> connection_monitor \<Rightarrow> line_kind \<times> connection_monitor" where
  "classify_line now line m =
     (if is_heartbeat m line then (Heartbeat, m\<lparr>last_heartbeat := now\<rparr>)
      else (DataLine, m\<lparr>last_data_message := now\<rparr>))"

definition last_meaningful :: "connection_monitor \<Rightarrow> instant" where
  "last_meaningful m = max (last_heartbeat m) (last_data_message m)"

definition is_stale :: "instant \<Rightarrow> connection_monitor \<Rightarrow> stale_reason option" where
  "is_stale now m = (case hb_timeout m of
      None \<Rightarrow> None
    | Some timeout \<Rightarrow>
        let elapsed = elapsed_since (last_meaningful m) now
        in if elapsed \<ge> timeout then Some (HeartbeatTimeout elapsed) else None)"

definition monitor_reset :: "instant \<Rightarrow> connection_monitor \<Rightarrow> connection_monitor" where
  "monitor_reset now m = m\<lparr>last_tcp_activity := now, last_heartbeat := now, last_data_message := now\<rparr>"

definition since_last_meaningful_message :: "instant \<Rightarrow> connection_monitor \<Rightarrow> duration" where
  "since_last_meaningful_message now m = elapsed_since (last_meaningful m) now"

definition since_last_tcp_activity :: "instant \<Rightarrow> connection_monitor \<Rightarrow> duration" where
  "since_last_tcp_activity now m = elapsed_since (last_tcp_activity m) now"

subsection \<open>The activity of a connection\<close>

text \<open>What happens to a monitor between two checks, with the time of each event.\<close>

datatype activity = Bytes_In | Line_In bytes | Reconnect

fun monitor_step :: "connection_monitor \<Rightarrow> instant \<times> activity \<Rightarrow> connection_monitor" where
  "monitor_step m (now, Bytes_In) = record_tcp_activity now m"
| "monitor_step m (now, Line_In l) = snd (classify_line now l m)"
| "monitor_step m (now, Reconnect) = monitor_reset now m"

definition monitor_run :: "connection_monitor \<Rightarrow> (instant \<times> activity) list \<Rightarrow> connection_monitor" where
  "monitor_run = foldl monitor_step"

definition meaningful_times :: "(instant \<times> activity) list \<Rightarrow> instant list" where
  "meaningful_times es = map fst (filter (\<lambda>(_, a). a \<noteq> Bytes_In) es)"

fun timed_from :: "instant \<Rightarrow> (instant \<times> activity) list \<Rightarrow> bool" where
  "timed_from t [] = True"
| "timed_from t ((now, _) # es) = (t \<le> now \<and> timed_from now es)"

lemma monitor_step_frame [simp]:
  "hb_timeout (monitor_step m e) = hb_timeout m" "hb_pattern (monitor_step m e) = hb_pattern m"
  by (cases e; cases "snd e";
      simp add: record_tcp_activity_def classify_line_def monitor_reset_def split: if_splits)+

lemma monitor_step_meaningful:
  "last_meaningful m \<le> fst e \<Longrightarrow>
   last_meaningful (monitor_step m e) = (if snd e = Bytes_In then last_meaningful m else fst e)"
  by (cases e; cases "snd e")
     (auto simp: record_tcp_activity_def classify_line_def monitor_reset_def last_meaningful_def)

lemma timed_from_mono: "t \<le> u \<Longrightarrow> timed_from u es \<Longrightarrow> timed_from t es"
  by (cases es) auto

lemma monitor_run_meaningful:
  "timed_from (last_meaningful m) es \<Longrightarrow>
   last_meaningful (monitor_run m es) = last (last_meaningful m # meaningful_times es)
   \<and> hb_timeout (monitor_run m es) = hb_timeout m"
proof (induction es arbitrary: m)
  case Nil
  then show ?case by (simp add: monitor_run_def meaningful_times_def)
next
  case (Cons e es)
  have le: "last_meaningful m \<le> fst e" and rest: "timed_from (fst e) es"
    using Cons.prems by (cases e; simp)+
  have step: "last_meaningful (monitor_step m e) = (if snd e = Bytes_In then last_meaningful m else fst e)"
    using le by (rule monitor_step_meaningful)
  with le rest have "timed_from (last_meaningful (monitor_step m e)) es"
    by (auto intro: timed_from_mono)
  from Cons.IH [OF this] step show ?case
    by (cases e) (auto simp: monitor_run_def meaningful_times_def)
qed

text \<open>Staleness means silence. After any timed history of a connection the monitor reports a
  stale connection exactly when the timeout is enabled and that long has passed since the last
  line (of either kind) or reconnect; raw TCP bytes without a line never count as life.\<close>

theorem stale_iff_silent:
  assumes "timed_from (last_meaningful m) es"
  shows "is_stale now (monitor_run m es) =
    (case hb_timeout m of
       None \<Rightarrow> None
     | Some timeout \<Rightarrow>
         let silence = now - last (last_meaningful m # meaningful_times es)
         in if timeout \<le> silence then Some (HeartbeatTimeout silence) else None)"
  by (simp only: is_stale_def elapsed_since_def monitor_run_meaningful [OF assms])

definition sample_monitor :: connection_monitor where
  "sample_monitor = monitor_new (default_config ''out.sbs'') 0"

theorem stale_iff_silent_witness:
  "is_stale (from_secs 95)
     (monitor_run sample_monitor
        [(from_secs 4, Line_In ''MSG,8,,,000000,''), (from_secs 60, Bytes_In)]) =
   Some (HeartbeatTimeout (from_secs 91))"
proof -
  let ?es = "[(from_secs 4, Line_In ''MSG,8,,,000000,''), (from_secs 60, Bytes_In)]"
  have m: "last_meaningful sample_monitor = 0" "hb_timeout sample_monitor = Some (from_secs 90)"
    by (simp_all add: sample_monitor_def monitor_new_def last_meaningful_def default_config_def
        heartbeat_timeout_def)
  have "timed_from (last_meaningful sample_monitor) ?es"
    by (simp add: m from_secs_def)
  from stale_iff_silent [OF this, of "from_secs 95"] show ?thesis
    by (simp add: m meaningful_times_def from_secs_def)
qed

text \<open>Heartbeats are found by a plain substring search.\<close>

lemma classify_line_kind:
  "fst (classify_line now line m) = Heartbeat \<longleftrightarrow>
   (\<exists>p. hb_pattern m = Some p \<and> (\<exists>a b. line = a @ p @ b))"
  by (auto simp: classify_line_def is_heartbeat_def contains_iff split: option.splits)

end
