(* ===== verification/Feed_Metrics.thy ===== *)
theory Feed_Metrics imports Prelude begin

text \<open>
  \<open>adsb-pulsar-client/src/metrics.rs\<close>: the counters, as the 64-bit words of the \<open>AtomicU64\<close>s
  (\<open>fetch_add\<close> wraps). The handle is shared by cloning an \<open>Arc\<close>; a model state holds the one
  \<open>MetricsInner\<close> all clones point to. \<open>elapsed\<close> is measured by the caller's instant.
\<close>

record metrics =
  m_messages_sent :: u64
  m_errors :: u64
  m_bytes_received :: u64
  m_bytes_sent :: u64
  m_retry_queue_size :: u64
  m_reconnection_attempts :: u64
  m_messages_received :: u64
  m_last_meaningful_ms :: u64
  m_start_time :: instant

definition metrics_new :: "instant \<Rightarrow> metrics" where
  "metrics_new now = \<lparr>m_messages_sent = 0, m_errors = 0, m_bytes_received = 0, m_bytes_sent = 0,
     m_retry_queue_size = 0, m_reconnection_attempts = 0, m_messages_received = 0,
     m_last_meaningful_ms = 0, m_start_time = now\<rparr>"

definition inc_messages_sent :: "metrics \<Rightarrow> metrics" where
  [handler_defs]: "inc_messages_sent m = m\<lparr>m_messages_sent := m_messages_sent m + 1\<rparr>"

definition inc_errors :: "metrics \<Rightarrow> metrics" where
  [handler_defs]: "inc_errors m = m\<lparr>m_errors := m_errors m + 1\<rparr>"

definition add_bytes_received :: "nat \<Rightarrow> metrics \<Rightarrow> metrics" where
  [handler_defs]: "add_bytes_received n m = m\<lparr>m_bytes_received := m_bytes_received m + of_nat n\<rparr>"

definition add_bytes_sent :: "nat \<Rightarrow> metrics \<Rightarrow> metrics" where
  [handler_defs]: "add_bytes_sent n m = m\<lparr>m_bytes_sent := m_bytes_sent m + of_nat n\<rparr>"

definition set_retry_queue_size :: "nat \<Rightarrow> metrics \<Rightarrow> metrics" where
  [handler_defs]: "set_retry_queue_size n m = m\<lparr>m_retry_queue_size := of_nat n\<rparr>"

definition inc_reconnection_attempts :: "metrics \<Rightarrow> metrics" where
  [handler_defs]: "inc_reconnection_attempts m =
     m\<lparr>m_reconnection_attempts := m_reconnection_attempts m + 1\<rparr>"

definition inc_messages_received :: "metrics \<Rightarrow> metrics" where
  [handler_defs]: "inc_messages_received m = m\<lparr>m_messages_received := m_messages_received m + 1\<rparr>"

definition mark_meaningful_message :: "instant \<Rightarrow> metrics \<Rightarrow> metrics" where
  [handler_defs]: "mark_meaningful_message now m =
     m\<lparr>m_last_meaningful_ms := of_nat (as_millis (elapsed_since (m_start_time m) now))\<rparr>"

definition metrics_since_meaningful :: "instant \<Rightarrow> metrics \<Rightarrow> duration" where
  "metrics_since_meaningful now m =
     (let now_ms = of_nat (as_millis (elapsed_since (m_start_time m) now)) :: u64;
          last_ms = m_last_meaningful_ms m
      in from_millis (unat now_ms - unat last_ms))"

lemma mark_then_since:
  "metrics_since_meaningful now (mark_meaningful_message now m) = 0"
  by (simp add: metrics_since_meaningful_def mark_meaningful_message_def from_millis_def Let_def)

end
