(* ===== verification/Feed_Client.thy ===== *)
theory Feed_Client imports Forwarders Conn_Monitor Feed_Metrics begin

text \<open>
  \<open>adsb-pulsar-client/src/client.rs\<close>: line buffering, fan-out with per-forwarder retry queues,
  housekeeping, the receive loop and the two connection modes.

  The client is generic in its forwarders: \<open>ops\<close> is the method table of the trait and
  \<open>cl_forwarders\<close> are the states. \<open>tokio::select!\<close> is an explicit sequence of events, one per
  arm. A panic of the code is \<open>None\<close>. Clock readings are arguments or part of the event.
\<close>

record 'f client =
  cl_config :: config
  cl_metrics :: metrics
  cl_forwarders :: "'f list"
  cl_retry_queues :: "bytes list list"
  cl_line_buffer :: bytes
  cl_last_timestamp_ms :: int
  cl_timestamp_counter :: nat
  cl_message_tap :: "bytes list option" \<comment> \<open>everything sent on the broadcast channel\<close>
  cl_shutdown :: bool
  cl_monitor :: connection_monitor

definition TIMESTAMP_UPDATE_INTERVAL :: nat where "TIMESTAMP_UPDATE_INTERVAL = 10"
definition MAX_RETRY_DRAIN_PER_TICK :: nat where "MAX_RETRY_DRAIN_PER_TICK = 500"

definition client_new :: "config \<Rightarrow> 'f list \<Rightarrow> instant \<Rightarrow> int \<Rightarrow> client_error + 'f client" where
  "client_new c fs now wall_ms =
     (case validate c of
        Inl e \<Rightarrow> Inl e
      | Inr _ \<Rightarrow> Inr \<lparr>cl_config = c, cl_metrics = metrics_new now, cl_forwarders = fs,
           cl_retry_queues = map (\<lambda>_. []) fs, cl_line_buffer = [],
           cl_last_timestamp_ms = wall_ms, cl_timestamp_counter = 0, cl_message_tap = None,
           cl_shutdown = False, cl_monitor = monitor_new c now\<rparr>)"

definition with_message_tap :: "'f client \<Rightarrow> 'f client" where
  "with_message_tap c = (case cl_message_tap c of
      Some _ \<Rightarrow> c
    | None \<Rightarrow> c\<lparr>cl_message_tap := Some []\<rparr>)"

definition upd_metrics :: "(metrics \<Rightarrow> metrics) \<Rightarrow> 'f client \<Rightarrow> 'f client" where
  "upd_metrics f c = c\<lparr>cl_metrics := f (cl_metrics c)\<rparr>"

subsection \<open>Line buffering\<close>

definition keep_line :: "bytes \<Rightarrow> bool" where
  "keep_line line = (line \<noteq> [] \<and> list_ex (\<lambda>b. \<not> ascii_whitespace b) line)"

text \<open>The \<open>while let\<close> loop: split off complete lines, keep those that are not blank.\<close>

function drain_lines :: "bytes \<Rightarrow> bytes list \<times> bytes" where
  "drain_lines buf = (case position (\<lambda>b. b = NL) buf of
      None \<Rightarrow> ([], buf)
    | Some i \<Rightarrow>
        let line = take i buf; (messages, rest) = drain_lines (drop (Suc i) buf)
        in (if keep_line line then line # messages else messages, rest))"
  by pat_completeness auto
termination
  by (relation "measure length") (auto dest: position_Some)

declare drain_lines.simps [simp del]

definition process_buffer :: "bytes \<Rightarrow> 'f client \<Rightarrow> (client_error + bytes list) \<times> 'f client" where
  "process_buffer data c =
     (let c = c\<lparr>cl_line_buffer := cl_line_buffer c @ data\<rparr>;
          limit = max_line_buffer_size (cl_config c)
      in if length (cl_line_buffer c) > limit
         then (let c = upd_metrics inc_errors (c\<lparr>cl_line_buffer := []\<rparr>)
               in (Inl (BufferOverflow (length (cl_line_buffer c)) limit), c))
         else (let (messages, rest) = drain_lines (cl_line_buffer c)
               in (Inr messages, c\<lparr>cl_line_buffer := rest\<rparr>)))"

subsection \<open>Retry queues\<close>

definition push_bounded :: "nat \<Rightarrow> 'a \<Rightarrow> 'a list \<Rightarrow> 'a list" where
  "push_bounded max_size m q = (if length q < max_size then q @ [m] else tl q @ [m])"

definition total_queued :: "'f client \<Rightarrow> nat" where
  "total_queued c = sum_list (map length (cl_retry_queues c))"

definition enqueue_retry :: "nat \<Rightarrow> bytes \<Rightarrow> 'f client \<Rightarrow> 'f client" where
  "enqueue_retry i message c =
     (let c = c\<lparr>cl_retry_queues := (cl_retry_queues c)
            [i := push_bounded (max_retry_queue_size (cl_config c)) message (cl_retry_queues c ! i)]\<rparr>
      in upd_metrics (set_retry_queue_size (total_queued c)) c)"

text \<open>
  The draining loop works on one forwarder and its queue: at most \<open>max_messages\<close> sends, stopping
  at the first failure, whose message goes back to the front. The third result counts the bytes
  of the messages sent.
\<close>

fun drain_queue :: "'f forwarder_ops \<Rightarrow> nat \<Rightarrow> 'f \<Rightarrow> bytes list \<Rightarrow> 'f \<times> bytes list \<times> nat" where
  "drain_queue ops 0 f q = (f, q, 0)"
| "drain_queue ops (Suc n) f [] = (f, [], 0)"
| "drain_queue ops (Suc n) f (m # q) =
     (case fw_send ops m f of
        (Inr _, f') \<Rightarrow> (let (f'', q', sent) = drain_queue ops n f' q in (f'', q', length m + sent))
      | (Inl _, f') \<Rightarrow> (f', m # q, 0))"

definition drain_retry_queue :: "'f forwarder_ops \<Rightarrow> nat \<Rightarrow> nat \<Rightarrow> 'f client \<Rightarrow> 'f client" where
  "drain_retry_queue ops max_messages i c =
     (if cl_retry_queues c ! i = [] \<or> \<not> fw_is_connected ops (cl_forwarders c ! i) then c
      else (let (f, q, sent_bytes) =
                drain_queue ops max_messages (cl_forwarders c ! i) (cl_retry_queues c ! i);
                c = c\<lparr>cl_forwarders := (cl_forwarders c)[i := f],
                      cl_retry_queues := (cl_retry_queues c)[i := q]\<rparr>;
                c = upd_metrics (add_bytes_sent sent_bytes) c
            in upd_metrics (set_retry_queue_size (total_queued c)) c))"

subsection \<open>Forwarding\<close>

definition set_forwarder :: "nat \<Rightarrow> 'f \<Rightarrow> 'f client \<Rightarrow> 'f client" where
  "set_forwarder i f c = c\<lparr>cl_forwarders := (cl_forwarders c)[i := f]\<rparr>"

definition forward_one :: "'f forwarder_ops \<Rightarrow> bytes \<Rightarrow> nat \<Rightarrow> 'f client \<Rightarrow> 'f client" where
  "forward_one ops message i c =
     (if \<not> fw_is_connected ops (cl_forwarders c ! i) then enqueue_retry i message c
      else (case fw_send ops message (cl_forwarders c ! i) of
          (Inr _, f) \<Rightarrow> set_forwarder i f c
        | (Inl _, f) \<Rightarrow>
            let c = enqueue_retry i message (upd_metrics inc_errors (set_forwarder i f c))
            in set_forwarder i (snd (fw_disconnect ops (cl_forwarders c ! i))) c))"

definition fan_out :: "'f forwarder_ops \<Rightarrow> bytes \<Rightarrow> 'f client \<Rightarrow> 'f client" where
  "fan_out ops message c = fold (forward_one ops message) [0..<length (cl_forwarders c)] c"

text \<open>
  \<open>forward_message\<close> always returns \<open>Ok\<close>; the one way it can fail is the remainder by a zero
  \<open>log_sample_rate\<close> in test mode, which panics.
\<close>

definition forward_message ::
  "'f forwarder_ops \<Rightarrow> int \<Rightarrow> bytes \<Rightarrow> 'f client \<Rightarrow> 'f client option" where
  "forward_message ops wall_ms message c =
     (let c = c\<lparr>cl_message_tap := map_option (\<lambda>t. t @ [message]) (cl_message_tap c)\<rparr>
      in if test_mode (cl_config c)
         then (if log_sample_rate (cl_config c) = 0 then None
               else Some (upd_metrics inc_messages_sent c))
         else (let c = (if cl_timestamp_counter c mod TIMESTAMP_UPDATE_INTERVAL = 0
                        then c\<lparr>cl_last_timestamp_ms := wall_ms\<rparr> else c);
                   c = c\<lparr>cl_timestamp_counter := cl_timestamp_counter c + 1\<rparr>;
                   c = fan_out ops message c
               in Some (upd_metrics (add_bytes_sent (length message) \<circ> inc_messages_sent) c)))"

fun forward_messages ::
  "'f forwarder_ops \<Rightarrow> int \<Rightarrow> bytes list \<Rightarrow> 'f client \<Rightarrow> 'f client option" where
  "forward_messages ops wall_ms [] c = Some c"
| "forward_messages ops wall_ms (m # ms) c =
     Option.bind (forward_message ops wall_ms m c) (forward_messages ops wall_ms ms)"

subsection \<open>The receive loop\<close>

definition housekeep_one :: "'f forwarder_ops \<Rightarrow> nat \<Rightarrow> 'f client \<Rightarrow> 'f client" where
  "housekeep_one ops i c =
     (if fw_is_connected ops (cl_forwarders c ! i)
      then (let c = drain_retry_queue ops MAX_RETRY_DRAIN_PER_TICK i c
            in set_forwarder i (snd (fw_flush ops (cl_forwarders c ! i))) c)
      else c)"

definition housekeep_all :: "'f forwarder_ops \<Rightarrow> 'f client \<Rightarrow> 'f client" where
  "housekeep_all ops c =
     (if test_mode (cl_config c) then c
      else fold (housekeep_one ops) [0..<length (cl_forwarders c)] c)"

definition count_message :: "instant \<Rightarrow> bytes \<Rightarrow> 'f client \<Rightarrow> 'f client" where
  "count_message now message c =
     upd_metrics (mark_meaningful_message now \<circ> inc_messages_received)
       (c\<lparr>cl_monitor := snd (classify_line now message (cl_monitor c))\<rparr>)"

datatype rf_event =
    ShutdownChanged bool
  | Read instant int "client_error + bytes" \<comment> \<open>read result, with the two clocks\<close>
  | StatsTick
  | HousekeepingTick instant

datatype rf_result = Running | Exited client_error | Panicked

definition on_read ::
  "'f forwarder_ops \<Rightarrow> instant \<Rightarrow> int \<Rightarrow> client_error + bytes \<Rightarrow> 'f client \<Rightarrow> rf_result \<times> 'f client" where
  "on_read ops now wall_ms result c =
     (case result of
        Inl e \<Rightarrow> (Exited e, c)
      | Inr data \<Rightarrow>
          if data = [] then (Exited (Socket ConnectionAborted), c)
          else (let c = upd_metrics (add_bytes_received (length data)) c;
                    c = c\<lparr>cl_monitor := record_tcp_activity now (cl_monitor c)\<rparr>
                in case process_buffer data c of
                     (Inl e, c) \<Rightarrow> (Exited e, c)
                   | (Inr messages, c) \<Rightarrow>
                       (case forward_messages ops wall_ms messages (fold (count_message now) messages c) of
                          None \<Rightarrow> (Panicked, c)
                        | Some c \<Rightarrow> (Running, c))))"

definition on_housekeeping :: "'f forwarder_ops \<Rightarrow> instant \<Rightarrow> 'f client \<Rightarrow> rf_result \<times> 'f client" where
  "on_housekeeping ops now c =
     (let c = housekeep_all ops c
      in case is_stale now (cl_monitor c) of
           Some _ \<Rightarrow> (Exited (Socket TimedOut), c)
         | None \<Rightarrow> (Running, c))"

fun rf_step :: "'f forwarder_ops \<Rightarrow> rf_event \<Rightarrow> 'f client \<Rightarrow> rf_result \<times> 'f client" where
  "rf_step ops (ShutdownChanged b) c =
     (let c = c\<lparr>cl_shutdown := b\<rparr> in (if b then Exited Shutdown else Running, c))"
| "rf_step ops (Read now wall_ms r) c = on_read ops now wall_ms r c"
| "rf_step ops StatsTick c = (Running, c)"
| "rf_step ops (HousekeepingTick now) c = on_housekeeping ops now c"

fun receive_and_forward ::
  "'f forwarder_ops \<Rightarrow> rf_event list \<Rightarrow> 'f client \<Rightarrow> rf_result \<times> 'f client" where
  "receive_and_forward ops [] c = (Running, c)"
| "receive_and_forward ops (e # es) c = (case rf_step ops e c of
      (Running, c') \<Rightarrow> receive_and_forward ops es c'
    | (r, c') \<Rightarrow> (r, c'))"

subsection \<open>Connecting and the two modes\<close>

text \<open>
  \<open>connect_socket\<close> never fails: it tries until an attempt succeeds. Given the outcomes of its
  attempts (\<open>True\<close> is connected) it returns the sleeps it made and whether it is done.
\<close>

fun connect_attempts :: "duration \<Rightarrow> duration \<Rightarrow> bool list \<Rightarrow> duration list \<times> bool" where
  "connect_attempts max_delay retry_delay [] = ([], False)"
| "connect_attempts max_delay retry_delay (ok # oks) =
     (if ok then ([], True)
      else (let (ds, don) = connect_attempts max_delay (min (retry_delay * 2) max_delay) oks
            in (retry_delay # ds, don)))"

definition connect_socket :: "config \<Rightarrow> bool list \<Rightarrow> duration list \<times> bool" where
  "connect_socket c oks = connect_attempts (max_retry_delay c) (initial_retry_delay c) oks"

datatype mode_result = Goes_On duration \<comment> \<open>sleep this long, then the next iteration\<close>
  | Returns "client_error + unit" | In_Session \<comment> \<open>the receive loop is still running\<close>
  | Mode_Panicked

text \<open>
  One iteration of \<open>run_client_mode\<close> once the socket is connected: \<open>retry_delay\<close> was just reset,
  the receive loop ran and ended with \<open>r\<close>. \<open>Goes_On\<close> carries the sleep before the next
  iteration; the variable \<open>retry_delay\<close> it leaves behind is the second component.
\<close>

definition after_session :: "rf_result \<Rightarrow> 'f client \<Rightarrow> mode_result \<times> duration \<times> 'f client" where
  "after_session r c =
     (let retry_delay = initial_retry_delay (cl_config c);
          next_delay = min (retry_delay * 2) (max_retry_delay (cl_config c))
      in case r of
           Exited e \<Rightarrow>
             if e = Shutdown then (Returns (Inr ()), retry_delay, c)
             else (let c = c\<lparr>cl_line_buffer := []\<rparr>
                   in if \<not> is_recoverable e then (Returns (Inl e), retry_delay, c)
                      else (Goes_On retry_delay, next_delay, c))
         | Panicked \<Rightarrow> (Mode_Panicked, retry_delay, c)
         | Running \<Rightarrow> (In_Session, retry_delay, c))"

definition client_mode_iteration ::
  "'f forwarder_ops \<Rightarrow> instant \<Rightarrow> rf_event list \<Rightarrow> 'f client \<Rightarrow> mode_result \<times> duration \<times> 'f client" where
  "client_mode_iteration ops now es c =
     (if cl_shutdown c then (Returns (Inr ()), initial_retry_delay (cl_config c), c)
      else (let c = upd_metrics inc_reconnection_attempts c;
                c = c\<lparr>cl_monitor := monitor_reset now (cl_monitor c)\<rparr>;
                (r, c) = receive_and_forward ops es c
            in after_session r c))"

text \<open>
  Server mode: one accepted connection. Every error but \<open>Shutdown\<close> keeps the server listening;
  there is no sleep between two connections.
\<close>

definition server_mode_session ::
  "'f forwarder_ops \<Rightarrow> rf_event list \<Rightarrow> 'f client \<Rightarrow> mode_result \<times> 'f client" where
  "server_mode_session ops es c =
     (case receive_and_forward ops es c of
        (Exited e, c) \<Rightarrow>
          if e = Shutdown then (Returns (Inr ()), c) else (Goes_On 0, c\<lparr>cl_line_buffer := []\<rparr>)
      | (Running, c) \<Rightarrow> (In_Session, c)
      | (Panicked, c) \<Rightarrow> (Mode_Panicked, c))"

fun connect_all :: "'f forwarder_ops \<Rightarrow> 'f list \<Rightarrow> (client_error + unit) \<times> 'f list" where
  "connect_all ops [] = (Inr (), [])"
| "connect_all ops (f # fs) = (case fw_connect ops f of
      (Inl e, f') \<Rightarrow> (Inl e, f' # fs)
    | (Inr _, f') \<Rightarrow> (let (r, fs') = connect_all ops fs in (r, f' # fs')))"

text \<open>The start of \<open>run\<close>: forwarders are connected unless the client is in test mode.\<close>

definition run_start :: "'f forwarder_ops \<Rightarrow> 'f client \<Rightarrow> (client_error + connection_mode_kind) \<times> 'f client" where
  "run_start ops c =
     (if test_mode (cl_config c) then (Inr (get_connection_mode (cl_config c)), c)
      else (let (r, fs) = connect_all ops (cl_forwarders c); c = c\<lparr>cl_forwarders := fs\<rparr>
            in case r of Inl e \<Rightarrow> (Inl e, c) | Inr _ \<Rightarrow> (Inr (get_connection_mode (cl_config c)), c)))"

end
