(* ===== verification/Feed_Client_Props.thy ===== *)
theory Feed_Client_Props imports Feed_Client begin

text \<open>
  What the feed client guarantees: lines survive any chunking of the stream, retry queues are
  bounded FIFOs, the forwarders do not influence each other, no message is lost while there is
  room in the queue, and how the client reconnects.
\<close>

subsection \<open>Line framing\<close>

lemma position_split:
  "split_on x buf = (case position (\<lambda>b. b = x) buf of
     None \<Rightarrow> [buf] | Some i \<Rightarrow> take i buf # split_on x (drop (Suc i) buf))"
proof (cases "position (\<lambda>b. b = x) buf")
  case None
  then have "x \<notin> set buf" by (auto simp: position_None)
  with None show ?thesis by (simp add: split_on_single)
next
  case (Some i)
  from position_Some [OF Some] have i: "i < length buf" "buf ! i = x" and "x \<notin> set (take i buf)"
    by (auto simp: in_set_conv_nth)
  moreover from i have "buf = take i buf @ x # drop (Suc i) buf"
    by (metis id_take_nth_drop)
  ultimately have "split_on x buf = take i buf # split_on x (drop (Suc i) buf)"
    by (metis split_on_append)
  with Some show ?thesis by simp
qed

lemma drain_lines_split:
  "drain_lines buf = (filter keep_line (butlast (split_on NL buf)), last (split_on NL buf))"
proof (induction buf rule: drain_lines.induct)
  case (1 buf)
  show ?case
  proof (cases "position (\<lambda>b. b = NL) buf")
    case None
    then show ?thesis by (simp add: drain_lines.simps [of buf] position_split [of NL buf])
  next
    case (Some i)
    with 1 show ?thesis
      by (simp add: drain_lines.simps [of buf] position_split [of NL buf] Let_def)
  qed
qed

lemma split_on_app:
  "split_on x (a @ b) = butlast (split_on x a) @ split_on x (last (split_on x a) @ b)"
proof (induction a)
  case (Cons y a)
  show ?case
  proof (cases "split_on x a" rule: rev_cases)
    case (snoc fs f)
    with Cons.IH show ?thesis
      by (cases fs) (auto split: list.splits)
  qed simp
qed simp

text \<open>Reading a stream in chunks, up to the first error.\<close>

fun feed_chunks :: "bytes list \<Rightarrow> 'f client \<Rightarrow> (client_error + bytes list) \<times> 'f client" where
  "feed_chunks [] c = (Inr [], c)"
| "feed_chunks (d # ds) c =
     (case process_buffer d c of
        (Inl e, c') \<Rightarrow> (Inl e, c')
      | (Inr ms, c') \<Rightarrow>
          (case feed_chunks ds c' of
             (Inl e, c'') \<Rightarrow> (Inl e, c'')
           | (Inr ms', c'') \<Rightarrow> (Inr (ms @ ms'), c'')))"

lemma process_buffer_ok:
  "process_buffer d c = (Inr ms, c') \<longleftrightarrow>
     length (cl_line_buffer c @ d) \<le> max_line_buffer_size (cl_config c)
     \<and> ms = filter keep_line (butlast (split_on NL (cl_line_buffer c @ d)))
     \<and> c' = c\<lparr>cl_line_buffer := last (split_on NL (cl_line_buffer c @ d))\<rparr>"
  by (auto simp: process_buffer_def Let_def drain_lines_split split: if_splits)

lemma process_buffer_err:
  "process_buffer d c = (Inl e, c') \<longleftrightarrow>
     max_line_buffer_size (cl_config c) < length (cl_line_buffer c @ d)
     \<and> e = BufferOverflow 0 (max_line_buffer_size (cl_config c))
     \<and> c' = upd_metrics inc_errors (c\<lparr>cl_line_buffer := []\<rparr>)"
  by (auto simp: process_buffer_def Let_def drain_lines_split upd_metrics_def split: if_splits)

lemma unfinished_app:
  "last (split_on x (a @ b)) = last (split_on x (last (split_on x a) @ b))"
  "butlast (split_on x (a @ b)) = butlast (split_on x a) @ butlast (split_on x (last (split_on x a) @ b))"
  by (simp_all add: split_on_app [of x a b] last_append butlast_append)

text \<open>C3: Framing does not depend on how TCP cuts the stream, as long as no read overflows the line buffer.
  Then the messages handed on are exactly the non-blank lines that are complete in the buffered bytes
  followed by the stream, in order, and the incomplete last line stays in the buffer. What does depend
  on the cut is the overflow: it happens exactly when the line that is unfinished before a read and the
  whole read together exceed the limit, also when that read ends lines; the buffer is then emptied.\<close>

theorem framing_chunk_invariant:
  assumes "NL \<notin> set (cl_line_buffer c)"
  shows "let lines = (\<lambda>n. split_on NL (cl_line_buffer c @ concat (take n ds)));
             limit = max_line_buffer_size (cl_config c);
             overflows = (\<lambda>n. limit < length (last (lines n)) + length (ds ! n))
         in case feed_chunks ds c of
              (Inr ms, c') \<Rightarrow> (\<forall>n<length ds. \<not> overflows n)
                \<and> ms = filter keep_line (butlast (lines (length ds))) \<and> cl_line_buffer c' = last (lines (length ds))
            | (Inl e, c') \<Rightarrow> (\<exists>n<length ds. overflows n) \<and> e = BufferOverflow 0 limit \<and> cl_line_buffer c' = []"
  using assms
proof (induction ds arbitrary: c)
  case Nil
  then show ?case by (simp add: split_on_single)
next
  case (Cons d ds)
  let ?b = "cl_line_buffer c @ d"
  have start: "last (split_on NL (cl_line_buffer c)) = cl_line_buffer c" using Cons.prems by (simp add: split_on_single)
  show ?case
  proof (cases "process_buffer d c")
    case (Pair r c1)
    show ?thesis
    proof (cases r)
      case (Inl e)
      with Pair have "max_line_buffer_size (cl_config c) < length ?b" "e = BufferOverflow 0 (max_line_buffer_size (cl_config c))"
        "cl_line_buffer c1 = []" by (simp_all add: process_buffer_err upd_metrics_def)
      with Inl Pair start show ?thesis by (auto intro!: exI [of _ 0])
    next
      case (Inr ms)
      with Pair have c1: "cl_line_buffer c1 = last (split_on NL ?b)" "cl_config c1 = cl_config c"
        and fits: "length ?b \<le> max_line_buffer_size (cl_config c)" and ms: "ms = filter keep_line (butlast (split_on NL ?b))"
        by (simp_all add: process_buffer_ok)
      have "NL \<notin> set (cl_line_buffer c1)"
        unfolding c1 by (rule split_on_no_sep [OF last_in_set [OF split_on_not_Nil]])
      note IH = Cons.IH [OF this]
      have "last (split_on NL (cl_line_buffer c @ concat (take (Suc n) (d # ds))))
          = last (split_on NL (cl_line_buffer c1 @ concat (take n ds)))"
        "butlast (split_on NL (cl_line_buffer c @ concat (take (Suc n) (d # ds))))
          = butlast (split_on NL ?b) @ butlast (split_on NL (cl_line_buffer c1 @ concat (take n ds)))" for n
        using unfinished_app [of NL ?b "concat (take n ds)"] by (simp_all add: c1)
      note later = this and whole = this [of "length ds", simplified]
      show ?thesis using IH fits start
        by (cases "feed_chunks ds c1"; cases "fst (feed_chunks ds c1)")
           (auto simp: Let_def Pair Inr ms c1(2) later whole All_less_Suc2 Ex_less_Suc2 simp del: take_Suc_Cons)
    qed
  qed
qed

definition small_client :: "unit client" where
  "small_client = \<lparr>cl_config = (default_config ''out.sbs'')\<lparr>max_line_buffer_size := 64\<rparr>,
     cl_metrics = metrics_new 0, cl_forwarders = [()], cl_retry_queues = [[]], cl_line_buffer = [],
     cl_last_timestamp_ms = 0, cl_timestamp_counter = 0, cl_message_tap = None, cl_shutdown = False,
     cl_monitor = monitor_new (default_config ''out.sbs'') 0\<rparr>"

text \<open>Lines cut across reads; and two lines of 40 bytes that overflow a buffer of 64 in one read and not in two.\<close>

theorem framing_chunk_invariant_witness:
  "fst (feed_chunks [''MSG,'', ''1'' @ [NL] @ ''  '' @ [NL] @ ''MS'', ''G,3'' @ [NL]] small_client) = Inr [''MSG,1'', ''MSG,3'']
   \<and> fst (feed_chunks [replicate 40 CHR ''M'' @ [NL] @ replicate 40 CHR ''M'' @ [NL]] small_client) = Inl (BufferOverflow 0 64)
   \<and> fst (feed_chunks [replicate 40 CHR ''M'' @ [NL], replicate 40 CHR ''M'' @ [NL]] small_client)
     = Inr [replicate 40 CHR ''M'', replicate 40 CHR ''M'']"
proof -
  have "NL \<notin> set (cl_line_buffer small_client)" by (simp add: small_client_def)
  note framing = framing_chunk_invariant [OF this]
  have small: "cl_line_buffer small_client = []" "max_line_buffer_size (cl_config small_client) = 64"
    by (simp_all add: small_client_def)
  note small = small Let_def All_less_Suc2 Ex_less_Suc2
  note eval = small_client_def keep_line_def ascii_whitespace_def default_config_def Let_def All_less_Suc2 Ex_less_Suc2
  let ?ds1 = "[''MSG,'', ''1'' @ [NL] @ ''  '' @ [NL] @ ''MS'', ''G,3'' @ [NL]]"
  let ?l = "replicate 40 CHR ''M''"
  have 1: "fst (feed_chunks ?ds1 small_client) = Inr [''MSG,1'', ''MSG,3'']"
    using framing [of ?ds1] by (cases "feed_chunks ?ds1 small_client"; cases "fst (feed_chunks ?ds1 small_client)") (auto simp: eval)
  have sp: "split_on NL (?l @ NL # y) = ?l # split_on NL y" for y by (rule split_on_append) simp
  have kept: "keep_line ?l" by (simp add: keep_line_def ascii_whitespace_def list_ex_iff)
  have 2: "fst (feed_chunks [?l @ [NL] @ ?l @ [NL]] small_client) = Inl (BufferOverflow 0 64)"
    using framing [of "[?l @ [NL] @ ?l @ [NL]]"]
    by (cases "feed_chunks [?l @ [NL] @ ?l @ [NL]] small_client"; cases "fst (feed_chunks [?l @ [NL] @ ?l @ [NL]] small_client)")
       (auto simp: small sp kept simp del: feed_chunks.simps)
  have 3: "fst (feed_chunks [?l @ [NL], ?l @ [NL]] small_client) = Inr [?l, ?l]"
    using framing [of "[?l @ [NL], ?l @ [NL]]"]
    by (cases "feed_chunks [?l @ [NL], ?l @ [NL]] small_client"; cases "fst (feed_chunks [?l @ [NL], ?l @ [NL]] small_client)")
       (auto simp: small sp kept simp del: feed_chunks.simps)
  show ?thesis using 1 2 3 by blast
qed

text \<open>A buffer overflow is reported with a size of zero. The buffer is cleared before its length
  is read for the error, so \<open>current\<close> is 0 whatever was received; the bytes buffered so far and
  the ones just read are gone, and the error counter goes up by one.\<close>

theorem overflow_reports_zero:
  "(\<exists>e. fst (process_buffer d c) = Inl e) =
     (max_line_buffer_size (cl_config c) < length (cl_line_buffer c) + length d)
   \<and> (\<forall>current limit. fst (process_buffer d c) = Inl (BufferOverflow current limit) \<longrightarrow>
        current = 0 \<and> limit = max_line_buffer_size (cl_config c)
        \<and> cl_line_buffer (snd (process_buffer d c)) = []
        \<and> m_errors (cl_metrics (snd (process_buffer d c))) = m_errors (cl_metrics c) + 1)"
  by (auto simp: process_buffer_def Let_def upd_metrics_def inc_errors_def split: prod.splits if_splits)

theorem overflow_reports_zero_witness:
  "fst (process_buffer (replicate 65 (CHR ''x'')) small_client) = Inl (BufferOverflow 0 64)"
proof -
  let ?r = "process_buffer (replicate 65 (CHR ''x'')) small_client"
  have cap: "max_line_buffer_size (cl_config small_client) = 64" and buf: "cl_line_buffer small_client = []"
    by (simp_all add: small_client_def)
  obtain e where e: "fst ?r = Inl e"
    using overflow_reports_zero [of "replicate 65 (CHR ''x'')" small_client] by (auto simp: cap buf)
  then have "e = BufferOverflow 0 64"
    by (auto simp: process_buffer_def Let_def upd_metrics_def cap buf split: prod.splits if_splits)
  with e show ?thesis by simp
qed

subsection \<open>Retry queues\<close>

lemma push_bounded_lastn:
  "0 < n \<Longrightarrow> length q \<le> n \<Longrightarrow> push_bounded n m q = lastn n (q @ [m])"
  by (auto simp: push_bounded_def lastn_snoc_full)

lemma lastn_push: "lastn n (lastn n xs @ ys) = lastn n (xs @ ys)"
  by (cases "length xs \<le> n") (auto simp: lastn_def add.commute)

text \<open>A retry queue is a bounded FIFO that drops the oldest message: however many messages are
  enqueued while a backend is down, the queue holds exactly the last
  \<open>max_retry_queue_size\<close> of them, in order.\<close>

theorem retry_queue_keeps_newest:
  assumes "0 < n" and "length q \<le> n"
  shows "fold (push_bounded n) ms q = lastn n (q @ ms)"
  using assms(2)
proof (induction ms arbitrary: q)
  case (Cons m ms)
  have "length (push_bounded n m q) \<le> n"
    using Cons.prems assms(1) by (simp add: push_bounded_lastn)
  with Cons.IH have "fold (push_bounded n) (m # ms) q = lastn n (push_bounded n m q @ ms)" by simp
  also have "\<dots> = lastn n (q @ m # ms)"
    using Cons.prems assms(1) by (simp add: push_bounded_lastn lastn_push)
  finally show ?case .
qed simp

theorem retry_queue_keeps_newest_witness:
  "fold (push_bounded 2) [''a'', ''b'', ''c''] [] = [''b'', ''c'']"
  using retry_queue_keeps_newest [of 2 "[]" "[''a'', ''b'', ''c'']"] by (simp add: lastn_def)

text \<open>A queue size of zero does not disable retries: validation accepts it and the queue then
  holds one message, the newest.\<close>

theorem zero_retry_queue_holds_one:
  "ms \<noteq> [] \<Longrightarrow> fold (push_bounded 0) ms [] = [last ms]"
proof (induction ms rule: rev_induct)
  case (snoc m ms)
  then show ?case by (cases "ms = []") (simp_all add: push_bounded_def)
qed simp

theorem zero_retry_queue_holds_one_witness:
  "validate ((default_config ''out.sbs'')\<lparr>max_retry_queue_size := 0\<rparr>) = Inr ()
   \<and> fold (push_bounded 0) [''a'', ''b''] [] = [''b'']"
  using zero_retry_queue_holds_one [of "[''a'', ''b'']"]
  by (simp add: validate_def default_config_def trim_eval starts_with_def)

subsection \<open>Reconnecting\<close>

text \<open>The waits of \<open>connect_socket\<close>: however often the connect fails before it succeeds, the
  sleeps are the initial delay first, then twice as long each time up to the configured maximum,
  one for each failure, and then it is connected.\<close>

theorem connect_socket_backoff:
  "connect_socket cfg (replicate n False @ [True])
   = (map (\<lambda>i. if i = 0 then initial_retry_delay cfg
               else min (initial_retry_delay cfg * 2 ^ i) (max_retry_delay cfg)) [0..<n], True)"
proof -
  have step: "connect_attempts m r (replicate (Suc n) False @ [True])
      = (r # fst (connect_attempts m (min (r * 2) m) (replicate n False @ [True])),
         snd (connect_attempts m (min (r * 2) m) (replicate n False @ [True])))" for m r n
    by (simp add: Let_def split: prod.split)
  have tail: "connect_attempts m (min r m) (replicate n False @ [True])
      = (map (\<lambda>i. min (r * 2 ^ i) m) [0..<n], True)" for m r n :: nat
  proof (induction n arbitrary: r)
    case (Suc n)
    have "min (min r m * 2) m = min (r * 2) m" by (simp add: min_def)
    then have "connect_attempts m (min r m) (replicate (Suc n) False @ [True])
        = (min r m # map (\<lambda>i. min (r * 2 * 2 ^ i) m) [0..<n], True)"
      by (simp only: step Suc.IH fst_conv snd_conv)
    then show ?case by (simp only: map_upt_Suc power_Suc power_0 mult.assoc mult_1_right)
  qed simp
  show ?thesis
  proof (cases n)
    case (Suc k)
    have "connect_socket cfg (replicate (Suc k) False @ [True])
        = (initial_retry_delay cfg
           # map (\<lambda>i. min (initial_retry_delay cfg * 2 * 2 ^ i) (max_retry_delay cfg)) [0..<k], True)"
      by (simp only: connect_socket_def step tail fst_conv snd_conv)
    then show ?thesis
      by (simp only: Suc map_upt_Suc power_Suc mult.assoc nat.distinct if_False if_True refl)
  qed (simp add: connect_socket_def)
qed

lemma fold_config: "(\<And>i c. cl_config (f i c) = cl_config c) \<Longrightarrow> cl_config (fold f xs c) = cl_config c"
  by (induction xs arbitrary: c) simp_all

lemma forward_config [simp]: "cl_config (fan_out ops m c) = cl_config c"
  unfolding fan_out_def
  by (rule fold_config)
     (simp add: forward_one_def enqueue_retry_def set_forwarder_def upd_metrics_def Let_def
       split: prod.splits sum.splits)

lemma housekeep_config [simp]: "cl_config (housekeep_all ops c) = cl_config c"
proof -
  have "cl_config (housekeep_one ops i c) = cl_config c" for i and c :: "'a client"
    by (simp add: housekeep_one_def drain_retry_queue_def set_forwarder_def upd_metrics_def Let_def
        split: prod.splits)
  then show ?thesis by (simp add: housekeep_all_def fold_config)
qed

lemma forward_message_config: "forward_message ops w m c = Some d \<Longrightarrow> cl_config d = cl_config c"
  by (auto simp: forward_message_def Let_def upd_metrics_def split: if_splits)

lemma forward_messages_config:
  "forward_messages ops w ms c = Some c' \<Longrightarrow> cl_config c' = cl_config c"
proof (induction ms arbitrary: c)
  case (Cons m ms)
  then obtain d where "forward_message ops w m c = Some d" "forward_messages ops w ms d = Some c'"
    by (auto simp: bind_eq_Some_conv)
  from Cons.IH [OF this(2)] forward_message_config [OF this(1)] show ?case by (rule trans)
qed simp

lemma rf_step_config: "cl_config (snd (rf_step ops e c)) = cl_config c"
proof (cases e)
  case (Read now w r)
  have count: "cl_config (fold (count_message now) ms d) = cl_config d" for ms and d :: "'a client"
    by (rule fold_config) (simp add: count_message_def upd_metrics_def)
  have buffer: "process_buffer data d = (q, d') \<Longrightarrow> cl_config d' = cl_config d"
    for data q and d d' :: "'a client"
    by (auto simp: process_buffer_def Let_def upd_metrics_def split: if_splits prod.splits)
  show ?thesis
    by (auto simp: Read on_read_def Let_def upd_metrics_def count
        split: sum.splits prod.splits option.splits dest!: forward_messages_config buffer)
qed (auto simp: on_housekeeping_def Let_def split: option.splits)

lemma receive_config: "receive_and_forward ops es c = (r, c') \<Longrightarrow> cl_config c' = cl_config c"
proof (induction es arbitrary: c)
  case (Cons e es)
  obtain q d where d: "rf_step ops e c = (q, d)" by fastforce
  then have "cl_config d = cl_config c" using rf_step_config [of ops e c] by simp
  with Cons d show ?case by (auto split: rf_result.splits)
qed simp

text \<open>Between two sessions the client waits the initial delay, always: a session that ends in an
  error it can recover from is followed by a sleep of \<open>initial_retry_delay\<close>, never longer, however
  many sessions failed before, and the next session starts with an empty line buffer. The doubled
  delay that the loop computes is overwritten before it is used.\<close>

theorem client_session_restart:
  assumes "client_mode_iteration ops now es c = (Goes_On d, next_delay, c')"
  shows "d = initial_retry_delay (cl_config c) \<and> cl_line_buffer c' = []"
proof -
  from assms obtain c0 r c1 where "receive_and_forward ops es c0 = (r, c1)" "cl_config c0 = cl_config c"
    and "after_session r c1 = (Goes_On d, next_delay, c')"
    by (auto simp: client_mode_iteration_def Let_def upd_metrics_def split: if_splits prod.splits)
  then show ?thesis
    using receive_config [of ops es c0 r c1]
    by (auto simp: after_session_def Let_def split: rf_result.splits if_splits)
qed

theorem client_session_restart_witness:
  "\<exists>nd c'. client_mode_iteration noop_ops 0 [Read 0 0 (Inr [])] small_client = (Goes_On 1000000000, nd, c')
     \<and> cl_line_buffer c' = []"
proof -
  have "initial_retry_delay (cl_config small_client) = 1000000000"
    by (simp add: small_client_def initial_retry_delay_def default_config_def from_secs_def from_millis_def)
  moreover obtain d nd c' where
    run: "client_mode_iteration noop_ops 0 [Read 0 0 (Inr [])] small_client = (Goes_On d, nd, c')"
    by (simp add: client_mode_iteration_def small_client_def upd_metrics_def on_read_def
        after_session_def Let_def)
  ultimately show ?thesis using client_session_restart [OF run] run by auto
qed

end
