(* ===== verification/Fan_Out.thy ===== *)
theory Fan_Out imports Feed_Client_Props begin

text \<open>
  The fan-out of \<open>client.rs\<close>, seen one forwarder at a time. A lane is a forwarder with its retry
  queue. The client's loops over forwarder indices act on each lane alone, so what holds of one
  lane under any history holds of every forwarder of the client: no message is lost while the
  queue has room, none is acknowledged twice, and queued messages go out in order.
\<close>

subsection \<open>Histories of a client\<close>

datatype client_op = Message int bytes | Housekeeping

fun run_client_op :: "'f forwarder_ops \<Rightarrow> client_op \<Rightarrow> 'f client \<Rightarrow> 'f client option" where
  "run_client_op ops (Message wall_ms m) c = forward_message ops wall_ms m c"
| "run_client_op ops Housekeeping c = Some (housekeep_all ops c)"

fun run_client_ops :: "'f forwarder_ops \<Rightarrow> client_op list \<Rightarrow> 'f client \<Rightarrow> 'f client option" where
  "run_client_ops ops [] c = Some c"
| "run_client_ops ops (x # xs) c = Option.bind (run_client_op ops x c) (run_client_ops ops xs)"

fun op_messages :: "client_op list \<Rightarrow> bytes list" where
  "op_messages [] = []"
| "op_messages (Message _ m # xs) = m # op_messages xs"
| "op_messages (Housekeeping # xs) = op_messages xs"

subsection \<open>One lane\<close>

type_synonym 'f lane = "'f \<times> bytes list"

fun lane_forward :: "'f forwarder_ops \<Rightarrow> nat \<Rightarrow> bytes \<Rightarrow> 'f lane \<Rightarrow> 'f lane" where
  "lane_forward ops n m (f, q) =
     (if fw_is_connected ops f
      then (case fw_send ops m f of
              (Inr _, f') \<Rightarrow> (f', q)
            | (Inl _, f') \<Rightarrow> (snd (fw_disconnect ops f'), push_bounded n m q))
      else (f, push_bounded n m q))"

fun lane_housekeep :: "'f forwarder_ops \<Rightarrow> 'f lane \<Rightarrow> 'f lane" where
  "lane_housekeep ops (f, q) =
     (if fw_is_connected ops f
      then (let (f', q', _) = drain_queue ops MAX_RETRY_DRAIN_PER_TICK f q
            in (snd (fw_flush ops f'), q'))
      else (f, q))"

fun lane_op :: "'f forwarder_ops \<Rightarrow> nat \<Rightarrow> client_op \<Rightarrow> 'f lane \<Rightarrow> 'f lane" where
  "lane_op ops n (Message _ m) l = lane_forward ops n m l"
| "lane_op ops n Housekeeping l = lane_housekeep ops l"

definition lanes :: "'f client \<Rightarrow> 'f lane list" where
  "lanes c = zip (cl_forwarders c) (cl_retry_queues c)"

definition sized :: "nat \<Rightarrow> config \<Rightarrow> 'f client \<Rightarrow> bool" where
  "sized k cfg c = (length (cl_forwarders c) = k \<and> length (cl_retry_queues c) = k \<and> cl_config c = cfg)"

lemma drain_queue_Nil [simp]: "drain_queue ops n f [] = (f, [], 0)"
  by (cases n) simp_all

lemma update_same: "xs ! i = y \<Longrightarrow> xs[i := y] = xs"
  by (metis list_update_id)

lemma lanes_forward_one:
  assumes "i < k" and "sized k cfg c"
  shows "lanes (forward_one ops m i c)
       = (lanes c)[i := lane_forward ops (max_retry_queue_size cfg) m (lanes c ! i)]
       \<and> sized k cfg (forward_one ops m i c)"
  using assms
  by (auto simp: lanes_def sized_def forward_one_def enqueue_retry_def set_forwarder_def upd_metrics_def
      update_zip list_update_overwrite Let_def split: prod.splits sum.splits)

lemma lanes_housekeep_one:
  assumes "i < k" and "sized k cfg c"
  shows "lanes (housekeep_one ops i c) = (lanes c)[i := lane_housekeep ops (lanes c ! i)]
       \<and> sized k cfg (housekeep_one ops i c)"
  using assms
  by (auto simp: lanes_def sized_def housekeep_one_def drain_retry_queue_def set_forwarder_def
      upd_metrics_def update_zip list_update_overwrite update_same Let_def split: prod.splits)

lemma length_lanes: "sized k cfg c \<Longrightarrow> length (lanes c) = k"
  by (simp add: lanes_def sized_def)

lemma lanes_fan_out:
  "sized k cfg c \<Longrightarrow>
     lanes (fan_out ops m c) = map (lane_forward ops (max_retry_queue_size cfg) m) (lanes c)
     \<and> sized k cfg (fan_out ops m c)"
proof -
  assume s: "sized k cfg c"
  then have k: "length (cl_forwarders c) = k" by (simp add: sized_def)
  show ?thesis
    unfolding fan_out_def k
    by (rule fold_entrywise [where P = "sized k cfg"]) (simp_all add: s lanes_forward_one length_lanes [OF s])
qed

lemma lanes_housekeep_all:
  "sized k cfg c \<Longrightarrow> \<not> test_mode cfg \<Longrightarrow>
     lanes (housekeep_all ops c) = map (lane_housekeep ops) (lanes c)
     \<and> sized k cfg (housekeep_all ops c)"
proof -
  assume s: "sized k cfg c" and t: "\<not> test_mode cfg"
  then have k: "length (cl_forwarders c) = k" and t': "\<not> test_mode (cl_config c)"
    by (simp_all add: sized_def)
  show ?thesis
    unfolding housekeep_all_def k if_not_P [OF t']
    by (rule fold_entrywise [where P = "sized k cfg"]) (simp_all add: s lanes_housekeep_one length_lanes [OF s])
qed

lemma lanes_client_op:
  assumes s: "sized k cfg c" and t: "\<not> test_mode cfg"
  shows "\<exists>c'. run_client_op ops x c = Some c' \<and> sized k cfg c'
       \<and> lanes c' = map (lane_op ops (max_retry_queue_size cfg) x) (lanes c)"
proof (cases x)
  case (Message w m)
  let ?tap = "c\<lparr>cl_message_tap := map_option (\<lambda>t. t @ [m]) (cl_message_tap c)\<rparr>"
  let ?time = "if cl_timestamp_counter ?tap mod TIMESTAMP_UPDATE_INTERVAL = 0
     then ?tap\<lparr>cl_last_timestamp_ms := w\<rparr> else ?tap"
  let ?d = "?time\<lparr>cl_timestamp_counter := cl_timestamp_counter ?time + 1\<rparr>"
  have d: "sized k cfg ?d" "lanes ?d = lanes c" using s by (auto simp: sized_def lanes_def)
  have "run_client_op ops x c
      = Some (upd_metrics (add_bytes_sent (length m) \<circ> inc_messages_sent) (fan_out ops m ?d))"
    using s t Message by (simp add: forward_message_def Let_def sized_def)
  moreover have "lanes (fan_out ops m ?d) = map (lane_forward ops (max_retry_queue_size cfg) m) (lanes c)
      \<and> sized k cfg (fan_out ops m ?d)"
    using lanes_fan_out [OF d(1)] d(2) by simp
  ultimately show ?thesis using Message by (simp add: sized_def lanes_def upd_metrics_def)
next
  case Housekeeping
  then show ?thesis using lanes_housekeep_all [OF s t] by simp
qed

lemma lanes_client_ops:
  assumes s: "sized k cfg c" and t: "\<not> test_mode cfg"
  shows "\<exists>c'. run_client_ops ops xs c = Some c' \<and> sized k cfg c'
       \<and> lanes c' = map (fold (lane_op ops (max_retry_queue_size cfg)) xs) (lanes c)"
  using s
proof (induction xs arbitrary: c)
  case (Cons x xs)
  from lanes_client_op [OF Cons.prems t] obtain d where
    d: "run_client_op ops x c = Some d" "sized k cfg d"
      "lanes d = map (lane_op ops (max_retry_queue_size cfg) x) (lanes c)" by blast
  from Cons.IH [OF d(2)] d(1,3) show ?case by auto
qed simp

lemma nth_lanes:
  "sized k cfg c \<Longrightarrow> i < k \<Longrightarrow> lanes c ! i = (cl_forwarders c ! i, cl_retry_queues c ! i)"
  by (simp add: sized_def lanes_def)

text \<open>C8: The forwarders are isolated from each other. Outside test mode, any history of messages and
  housekeeping ticks runs to its end, and takes each forwarder and its retry queue to exactly the
  state that the same history gives a client whose only forwarder it is. One backend that is down,
  or that fails each send, changes nothing for the others.\<close>

theorem forwarder_isolation:
  assumes "length (cl_retry_queues c) = length (cl_forwarders c)" and "\<not> test_mode (cl_config c)"
    and "i < length (cl_forwarders c)"
  shows "\<exists>c' s'. run_client_ops ops xs c = Some c'
     \<and> run_client_ops ops xs (c\<lparr>cl_forwarders := [cl_forwarders c ! i],
                           cl_retry_queues := [cl_retry_queues c ! i]\<rparr>) = Some s'
     \<and> cl_forwarders s' = [cl_forwarders c' ! i] \<and> cl_retry_queues s' = [cl_retry_queues c' ! i]"
proof -
  let ?k = "length (cl_forwarders c)" and ?cfg = "cl_config c"
  let ?s = "c\<lparr>cl_forwarders := [cl_forwarders c ! i], cl_retry_queues := [cl_retry_queues c ! i]\<rparr>"
  let ?run = "fold (lane_op ops (max_retry_queue_size ?cfg)) xs"
  have s: "sized ?k ?cfg c" "sized 1 ?cfg ?s" using assms by (simp_all add: sized_def)
  obtain c' where c': "run_client_ops ops xs c = Some c'" "sized ?k ?cfg c'" "lanes c' = map ?run (lanes c)"
    using lanes_client_ops [OF s(1) assms(2)] by blast
  obtain s' where s': "run_client_ops ops xs ?s = Some s'" "sized 1 ?cfg s'" "lanes s' = map ?run (lanes ?s)"
    using lanes_client_ops [OF s(2) assms(2)] by blast
  have "lanes s' = [lanes c' ! i]"
    using s'(3) c'(3) assms by (simp add: lanes_def)
  then have "lanes s' = [(cl_forwarders c' ! i, cl_retry_queues c' ! i)]"
    using nth_lanes [OF c'(2) assms(3)] by simp
  then have "cl_forwarders s' = [cl_forwarders c' ! i]" "cl_retry_queues s' = [cl_retry_queues c' ! i]"
    using s'(2) by (auto simp: lanes_def sized_def length_Suc_conv)
  with c'(1) s'(1) show ?thesis by blast
qed

text \<open>Two file forwarders, the second of which cannot write.\<close>

definition two_files :: "file_forwarder client" where
  "two_files = \<lparr>cl_config = default_config ''out.sbs'', cl_metrics = metrics_new 0,
     cl_forwarders = [\<lparr>ff_path = ''a'', ff_writer = Some [], ff_file = [], ff_env = []\<rparr>,
                      \<lparr>ff_path = ''b'', ff_writer = Some [], ff_file = [], ff_env = [False, True]\<rparr>],
     cl_retry_queues = [[], []], cl_line_buffer = [], cl_last_timestamp_ms = 0,
     cl_timestamp_counter = 0, cl_message_tap = None, cl_shutdown = False,
     cl_monitor = monitor_new (default_config ''out.sbs'') 0\<rparr>"

theorem forwarder_isolation_witness:
  "\<exists>c' s'. run_client_ops file_ops [Message 0 ''MSG,1'', Message 0 ''MSG,3''] two_files = Some c'
     \<and> run_client_ops file_ops [Message 0 ''MSG,1'', Message 0 ''MSG,3'']
         (two_files\<lparr>cl_forwarders := [cl_forwarders two_files ! 1], cl_retry_queues := [[]]\<rparr>) = Some s'
     \<and> cl_forwarders s' = [cl_forwarders c' ! 1] \<and> cl_retry_queues s' = [cl_retry_queues c' ! 1]"
  using forwarder_isolation [of two_files 1 file_ops "[Message 0 ''MSG,1'', Message 0 ''MSG,3'']"]
  by (simp add: two_files_def default_config_def)

subsection \<open>No message is lost\<close>

context acknowledging
begin

lemma drain_fifo: "drain_queue ops n f q = (f', q', b) \<Longrightarrow> log f' @ q' = log f @ q"
proof (induction n arbitrary: f q f' q' b)
  case (Suc n)
  show ?case
  proof (cases q)
    case (Cons m ms)
    obtain r g where send: "fw_send ops m f = (r, g)" by fastforce
    show ?thesis
    proof (cases r)
      case (Inl e)
      with Suc.prems Cons send show ?thesis using send_err [of m f e g] by simp
    next
      case (Inr u)
      then obtain b' where "drain_queue ops n g ms = (f', q', b')"
        using Suc.prems Cons send by (auto simp: Let_def split: prod.splits)
      from Suc.IH [OF this] Inr send Cons show ?thesis using send_ok [of m f g] by simp
    qed
  qed (use Suc.prems in simp)
qed simp

definition account :: "'f lane \<Rightarrow> bytes multiset" where
  "account l = mset (log (fst l)) + mset (snd l)"

lemma drain_bytes:
  "drain_queue ops n f q = (f', q', b) \<Longrightarrow> length q' \<le> length q"
proof (induction n arbitrary: f q f' q' b)
  case (Suc n)
  show ?case
  proof (cases q)
    case (Cons m ms)
    with Suc.prems show ?thesis
      by (auto simp: Let_def split: prod.splits sum.splits dest: Suc.IH)
  qed (use Suc.prems in simp)
qed simp

lemma account_housekeep:
  "account (lane_housekeep ops l) = account l \<and> length (snd (lane_housekeep ops l)) \<le> length (snd l)"
proof (cases l)
  case (Pair f q)
  obtain f' q' b where d: "drain_queue ops MAX_RETRY_DRAIN_PER_TICK f q = (f', q', b)"
    using prod_cases3 by blast
  from arg_cong [OF drain_fifo [OF d], of mset] drain_bytes [OF d] show ?thesis
    by (auto simp: Pair d account_def flush_log)
qed

lemma account_forward:
  shows "account (lane_forward ops n m l) \<subseteq># account l + {#m#}"
    and "length (snd (lane_forward ops n m l)) \<le> Suc (length (snd l))"
    and "length (snd l) < n \<Longrightarrow> account (lane_forward ops n m l) = account l + {#m#}"
proof -
  obtain f q where l: "l = (f, q)" by fastforce
  obtain r f' where s: "fw_send ops m f = (r, f')" by fastforce
  have drop_oldest: "mset (tl q) \<subseteq># mset q" by (cases q) simp_all
  have send: "log f' = log f @ (if is_ok r then [m] else [])" using send_log [of m f] s by simp
  show "account (lane_forward ops n m l) \<subseteq># account l + {#m#}"
    using send drop_oldest
    by (auto simp: l s account_def push_bounded_def disconnect_log split: sum.splits)
  show "length (snd (lane_forward ops n m l)) \<le> Suc (length (snd l))"
    by (auto simp: l s push_bounded_def split: sum.splits)
  show "length (snd l) < n \<Longrightarrow> account (lane_forward ops n m l) = account l + {#m#}"
    using send by (auto simp: l s account_def push_bounded_def disconnect_log split: sum.splits)
qed

lemma account_history:
  "account (fold (lane_op ops n) xs l) \<subseteq># account l + mset (op_messages xs)"
proof (induction xs arbitrary: l rule: op_messages.induct)
  case (2 w m xs)
  have "account (fold (lane_op ops n) xs (lane_forward ops n m l))
      \<subseteq># account (lane_forward ops n m l) + mset (op_messages xs)" by (rule 2)
  also have "\<dots> \<subseteq># account l + {#m#} + mset (op_messages xs)"
    using account_forward(1) by (simp only: subset_mset.add_mono)
  finally show ?case by simp
next
  case (3 xs)
  then show ?case using account_housekeep by (metis fold_simps(2) lane_op.simps(2) op_messages.simps(3))
qed simp

lemma account_history_room:
  "length (snd l) + length (op_messages xs) \<le> n \<Longrightarrow>
     account (fold (lane_op ops n) xs l) = account l + mset (op_messages xs)"
proof (induction xs arbitrary: l rule: op_messages.induct)
  case (2 w m xs)
  have "length (snd (lane_forward ops n m l)) + length (op_messages xs) \<le> n"
    using account_forward(2) [of n m l] "2.prems" by simp
  from "2.IH" [OF this] "2.prems" show ?case using account_forward(3) [of l n m] by simp
next
  case (3 xs)
  have "length (snd (lane_housekeep ops l)) + length (op_messages xs) \<le> n"
    using account_housekeep [of l] "3.prems" by simp
  from "3.IH" [OF this] show ?case using account_housekeep [of l] by simp
qed simp

end

lemma lanes_logged_history:
  assumes "length (cl_retry_queues c) = length (cl_forwarders c)" and "\<not> test_mode (cl_config c)"
    and "i < length (cl_forwarders c)"
  shows "\<exists>c'. run_client_ops ops xs c = Some c'
     \<and> (cl_forwarders c' ! i, cl_retry_queues c' ! i)
       = fold (lane_op ops (max_retry_queue_size (cl_config c))) xs
           (cl_forwarders c ! i, cl_retry_queues c ! i)"
proof -
  have s: "sized (length (cl_forwarders c)) (cl_config c) c" using assms by (simp add: sized_def)
  from lanes_client_ops [OF s assms(2)] obtain c' where
    c': "run_client_ops ops xs c = Some c'" "sized (length (cl_forwarders c)) (cl_config c) c'"
      "lanes c' = map (fold (lane_op ops (max_retry_queue_size (cl_config c))) xs) (lanes c)" by blast
  then show ?thesis
    using nth_lanes [OF s assms(3)] nth_lanes [OF c'(2) assms(3)] assms(3)
    by (metis length_lanes nth_map s)
qed

text \<open>C1: No message is lost while there is room. Whatever the forwarders answer, after any history
  of messages and housekeeping ticks every message given to the client was acknowledged by each
  forwarder exactly once or waits in that forwarder's retry queue, provided the messages fit the
  queue.\<close>

theorem no_message_lost:
  assumes "length (cl_retry_queues c) = length (cl_forwarders c)" and "\<not> test_mode (cl_config c)"
    and "i < length (cl_forwarders c)"
    and "length (cl_retry_queues c ! i) + length (op_messages xs) \<le> max_retry_queue_size (cl_config c)"
  shows "\<exists>c'. run_client_ops (logged ops) xs c = Some c'
     \<and> mset (snd (cl_forwarders c' ! i)) + mset (cl_retry_queues c' ! i)
       = mset (snd (cl_forwarders c ! i)) + mset (cl_retry_queues c ! i) + mset (op_messages xs)"
proof -
  let ?l = "(cl_forwarders c ! i, cl_retry_queues c ! i)"
  from lanes_logged_history [OF assms(1-3)] obtain c' where
    c': "run_client_ops (logged ops) xs c = Some c'"
      "(cl_forwarders c' ! i, cl_retry_queues c' ! i)
        = fold (lane_op (logged ops) (max_retry_queue_size (cl_config c))) xs ?l" by blast
  have "logged_ack.account (cl_forwarders c' ! i, cl_retry_queues c' ! i)
      = logged_ack.account ?l + mset (op_messages xs)"
    unfolding c'(2) using assms(4) by (intro logged_ack.account_history_room) simp
  with c'(1) show ?thesis by (auto simp: logged_ack.account_def)
qed

text \<open>The same two files under observation.\<close>

definition two_logged :: "(file_forwarder \<times> bytes list) client" where
  "two_logged = \<lparr>cl_config = (default_config ''out.sbs''), cl_metrics = metrics_new 0,
     cl_forwarders = map (\<lambda>f. (f, [])) (cl_forwarders two_files),
     cl_retry_queues = [[], []], cl_line_buffer = [], cl_last_timestamp_ms = 0,
     cl_timestamp_counter = 0, cl_message_tap = None, cl_shutdown = False,
     cl_monitor = monitor_new (default_config ''out.sbs'') 0\<rparr>"

theorem no_message_lost_witness:
  "\<exists>c'. run_client_ops (logged file_ops) [Message 0 ''MSG,1'', Housekeeping] two_logged = Some c'
     \<and> mset (snd (cl_forwarders c' ! 1)) + mset (cl_retry_queues c' ! 1) = {#''MSG,1''#}"
  using no_message_lost [of two_logged 1 "[Message 0 ''MSG,1'', Housekeeping]" file_ops]
  by (simp add: two_logged_def two_files_def default_config_def)

text \<open>No message is acknowledged twice, and none is invented: whatever the size of the retry
  queues, what a forwarder has acknowledged and what its queue holds are together at most what was
  there before and the messages given to the client.\<close>

theorem no_message_twice:
  assumes "length (cl_retry_queues c) = length (cl_forwarders c)" and "\<not> test_mode (cl_config c)"
    and "i < length (cl_forwarders c)"
  shows "\<exists>c'. run_client_ops (logged ops) xs c = Some c'
     \<and> mset (snd (cl_forwarders c' ! i)) + mset (cl_retry_queues c' ! i)
       \<subseteq># mset (snd (cl_forwarders c ! i)) + mset (cl_retry_queues c ! i) + mset (op_messages xs)"
proof -
  let ?l = "(cl_forwarders c ! i, cl_retry_queues c ! i)"
  from lanes_logged_history [OF assms] obtain c' where
    c': "run_client_ops (logged ops) xs c = Some c'"
      "(cl_forwarders c' ! i, cl_retry_queues c' ! i)
        = fold (lane_op (logged ops) (max_retry_queue_size (cl_config c))) xs ?l" by blast
  have "logged_ack.account (cl_forwarders c' ! i, cl_retry_queues c' ! i)
      \<subseteq># logged_ack.account ?l + mset (op_messages xs)"
    unfolding c'(2) by (rule logged_ack.account_history)
  with c'(1) show ?thesis by (auto simp: logged_ack.account_def)
qed

theorem no_message_twice_witness:
  "\<exists>c'. run_client_ops (logged file_ops) [Message 0 ''MSG,1'', Housekeeping] two_logged = Some c'
     \<and> mset (snd (cl_forwarders c' ! 0)) + mset (cl_retry_queues c' ! 0) \<subseteq># {#''MSG,1''#}"
  using no_message_twice [of two_logged 0 file_ops "[Message 0 ''MSG,1'', Housekeeping]"]
  by (simp add: two_logged_def two_files_def default_config_def)

text \<open>Queued messages go out in order. Draining the retry queue of a forwarder moves messages from
  the front of its queue to its acknowledged messages and nowhere else, so a failure in the middle
  leaves the rest queued as it was.\<close>

theorem retry_drain_in_order:
  assumes "drain_queue (logged ops) n (f, l) q = (f', q', b)"
  shows "snd f' @ q' = l @ q"
  using logged_ack.drain_fifo [OF assms] by simp

theorem retry_drain_in_order_witness:
  "\<exists>f' q' b. drain_queue (logged file_ops) 500 (\<lparr>ff_path = ''b'', ff_writer = Some [], ff_file = [],
        ff_env = [True, True, False]\<rparr>, []) [''x'', ''y''] = (f', q', b) \<and> snd f' @ q' = [''x'', ''y'']"
proof -
  obtain f' q' b where "drain_queue (logged file_ops) 500 (\<lparr>ff_path = ''b'', ff_writer = Some [],
      ff_file = [], ff_env = [True, True, False]\<rparr>, []) [''x'', ''y''] = (f', q', b)"
    using prod_cases3 by blast
  from retry_drain_in_order [OF this] this show ?thesis by simp
qed

subsection \<open>The retry queue gauge\<close>

definition gauge_ok :: "'f client \<Rightarrow> bool" where
  "gauge_ok c = (m_retry_queue_size (cl_metrics c) = of_nat (total_queued c))"

lemma gauge_forward_one: "gauge_ok c \<Longrightarrow> gauge_ok (forward_one ops m i c)"
  by (auto simp: gauge_ok_def forward_one_def enqueue_retry_def set_forwarder_def upd_metrics_def
      total_queued_def inc_errors_def set_retry_queue_size_def Let_def split: prod.splits sum.splits)

lemma gauge_housekeep_one: "gauge_ok c \<Longrightarrow> gauge_ok (housekeep_one ops i c)"
  by (auto simp: gauge_ok_def housekeep_one_def drain_retry_queue_def set_forwarder_def upd_metrics_def
      total_queued_def add_bytes_sent_def set_retry_queue_size_def Let_def split: prod.splits)

lemma fold_invariant: "(\<And>i c. P c \<Longrightarrow> P (f i c)) \<Longrightarrow> P c \<Longrightarrow> P (fold f xs c)"
  by (induction xs arbitrary: c) simp_all

lemma gauge_sent:
  "gauge_ok c \<Longrightarrow> gauge_ok (upd_metrics (add_bytes_sent n \<circ> inc_messages_sent) c)"
  by (simp add: gauge_ok_def upd_metrics_def total_queued_def inc_messages_sent_def add_bytes_sent_def)

lemma gauge_fan_out: "gauge_ok c \<Longrightarrow> gauge_ok (fan_out ops m c)"
  unfolding fan_out_def by (rule fold_invariant [where P = gauge_ok]) (simp_all add: gauge_forward_one)

lemma gauge_client_op: "gauge_ok c \<Longrightarrow> run_client_op ops x c = Some c' \<Longrightarrow> gauge_ok c'"
proof (cases x)
  case (Message w m)
  assume g: "gauge_ok c" and r: "run_client_op ops x c = Some c'"
  show ?thesis
  proof (cases "test_mode (cl_config c)")
    case True
    with r g Message show ?thesis
      by (auto simp: forward_message_def Let_def gauge_ok_def upd_metrics_def total_queued_def
          inc_messages_sent_def split: if_splits)
  next
    case False
    with r Message obtain d where "c' = upd_metrics (add_bytes_sent (length m) \<circ> inc_messages_sent) (fan_out ops m d)"
      and "cl_metrics d = cl_metrics c" "cl_retry_queues d = cl_retry_queues c"
      by (auto simp: forward_message_def Let_def)
    moreover from this(2,3) g have "gauge_ok d" by (simp add: gauge_ok_def total_queued_def)
    ultimately show ?thesis using gauge_fan_out gauge_sent by blast
  qed
next
  case Housekeeping
  assume "gauge_ok c" and "run_client_op ops x c = Some c'"
  then show ?thesis
    using fold_invariant [where P = gauge_ok and f = "housekeep_one ops" and c = c]
    by (auto simp: Housekeeping housekeep_all_def gauge_housekeep_one)
qed

lemma gauge_client_ops: "gauge_ok c \<Longrightarrow> run_client_ops ops xs c = Some c' \<Longrightarrow> gauge_ok c'"
  by (induction xs arbitrary: c) (auto simp: bind_eq_Some_conv dest: gauge_client_op)

text \<open>The retry-queue gauge tells the truth: from a new client on, after any history, the metric
  is the number of messages waiting in all the queues together.\<close>

theorem retry_gauge_exact:
  assumes "client_new cfg fs now wall_ms = Inr c" and "run_client_ops ops xs c = Some c'"
  shows "m_retry_queue_size (cl_metrics c') = of_nat (sum_list (map length (cl_retry_queues c')))"
proof -
  have "gauge_ok c"
    using assms(1) by (auto simp: client_new_def gauge_ok_def total_queued_def metrics_new_def
        comp_def sum_list_triv split: sum.splits)
  from gauge_client_ops [OF this assms(2)] show ?thesis by (simp add: gauge_ok_def total_queued_def)
qed

theorem retry_gauge_exact_witness:
  "\<exists>c c'. client_new (default_config ''out.sbs'') (cl_forwarders two_files) 0 0 = Inr c
     \<and> run_client_ops file_ops [Message 0 ''MSG,1''] c = Some c'
     \<and> m_retry_queue_size (cl_metrics c') = of_nat (sum_list (map length (cl_retry_queues c')))"
proof -
  have "validate (default_config ''out.sbs'') = Inr ()"
    by (simp add: validate_def default_config_def trim_eval starts_with_def)
  then obtain c where c: "client_new (default_config ''out.sbs'') (cl_forwarders two_files) 0 0 = Inr c"
    by (simp add: client_new_def)
  then have "\<not> test_mode (cl_config c)"
    by (auto simp: client_new_def default_config_def split: sum.splits)
  then obtain c' where c': "run_client_ops file_ops [Message 0 ''MSG,1''] c = Some c'"
    by (simp add: forward_message_def Let_def)
  from retry_gauge_exact [OF c c'] c c' show ?thesis by blast
qed

subsection \<open>When forwarding panics\<close>

text \<open>Forwarding a message succeeds in every state but one: in test mode with a log sample rate of
  zero, which validation accepts, the first message panics.\<close>

theorem forward_message_panics:
  "(forward_message ops wall_ms m c = None \<longleftrightarrow> test_mode (cl_config c) \<and> log_sample_rate (cl_config c) = 0)
   \<and> validate ((default_config ''out.sbs'')\<lparr>test_mode := True, log_sample_rate := 0\<rparr>) = Inr ()"
  by (simp add: forward_message_def Let_def validate_def default_config_def trim_eval starts_with_def)

subsection \<open>The Pulsar leg\<close>

text \<open>
  The histories of a client whose forwarder is a Pulsar forwarder, from \<open>run\<close> on: messages and
  housekeeping in any order, with the reconnect task finishing at any moment.
\<close>

inductive pulsar_history :: "config \<Rightarrow> pulsar_forwarder client \<Rightarrow> bool" where
  start: "client_new cfg [pulsar_new env] now wall_ms = Inr c \<Longrightarrow>
    run_start pulsar_ops c = (Inr mode, c') \<Longrightarrow> pulsar_history cfg c'"
| task: "pulsar_history cfg c \<Longrightarrow>
    pulsar_history cfg (set_forwarder 0 (pulsar_task_finishes (cl_forwarders c ! 0)) c)"
| step: "pulsar_history cfg c \<Longrightarrow> run_client_op pulsar_ops x c = Some c' \<Longrightarrow> pulsar_history cfg c'"

definition pulsar_idle :: "pulsar_forwarder client \<Rightarrow> bool" where
  "pulsar_idle c = (\<forall>f \<in> set (cl_forwarders c). \<not> pf_producer f \<and> pf_sent f = [])"

lemma pulsar_idle_one:
  assumes "pulsar_idle c" and "length (cl_forwarders c) = k" and "i < k"
  shows "cl_forwarders (forward_one pulsar_ops m i c) = cl_forwarders c"
    and "housekeep_one pulsar_ops i c = c"
  using assms by (simp_all add: pulsar_idle_def forward_one_def housekeep_one_def pulsar_ops_def
      enqueue_retry_def upd_metrics_def Let_def)

lemma pulsar_idle_fold:
  assumes "\<And>i d. i < k \<Longrightarrow> cl_forwarders d = fs \<Longrightarrow> cl_forwarders (f i d) = fs"
    and "cl_forwarders c = fs"
  shows "cl_forwarders (fold f [0..<k] c) = fs"
proof -
  have "j \<le> k \<Longrightarrow> cl_forwarders (fold f [0..<j] c) = fs" for j
    by (induction j) (simp_all add: assms)
  then show ?thesis by simp
qed

lemma pulsar_idle_op:
  assumes "pulsar_idle c" and "run_client_op pulsar_ops x c = Some c'"
  shows "cl_forwarders c' = cl_forwarders c"
proof (cases x)
  case (Message w m)
  have fan: "cl_forwarders (fan_out pulsar_ops m d) = cl_forwarders c"
    if d: "cl_forwarders d = cl_forwarders c" for d
    unfolding fan_out_def d
  proof (rule pulsar_idle_fold [OF _ d])
    fix i and e :: "pulsar_forwarder client"
    assume "i < length (cl_forwarders c)" and e: "cl_forwarders e = cl_forwarders c"
    then show "cl_forwarders (forward_one pulsar_ops m i e) = cl_forwarders c"
      using assms(1) pulsar_idle_one(1) [of e "length (cl_forwarders c)" i m] by (simp add: pulsar_idle_def)
  qed
  show ?thesis
    using assms(2) by (auto simp: Message forward_message_def Let_def upd_metrics_def fan split: if_splits)
next
  case Housekeeping
  have "cl_forwarders (fold (housekeep_one pulsar_ops) [0..<length (cl_forwarders c)] c) = cl_forwarders c"
  proof (rule pulsar_idle_fold)
    fix i and e :: "pulsar_forwarder client"
    assume "i < length (cl_forwarders c)" and e: "cl_forwarders e = cl_forwarders c"
    then show "cl_forwarders (housekeep_one pulsar_ops i e) = cl_forwarders c"
      using assms(1) pulsar_idle_one(2) [of e "length (cl_forwarders c)" i] by (simp add: pulsar_idle_def)
  qed simp
  then show ?thesis using assms(2) by (auto simp: Housekeeping housekeep_all_def)
qed

text \<open>The Pulsar forwarder never sends. The client asks \<open>is_connected\<close> before it calls \<open>send\<close> or
  \<open>flush\<close>, and only those two pick up the producer that the reconnect task delivers; so in every
  history the forwarder has no producer and has sent nothing, even with the producer waiting in
  the channel.\<close>

theorem pulsar_never_sends:
  assumes "pulsar_history cfg c"
  shows "length (cl_forwarders c) = 1 \<and> \<not> pf_producer (cl_forwarders c ! 0)
       \<and> pf_sent (cl_forwarders c ! 0) = []"
  using assms
proof (induction rule: pulsar_history.induct)
  case (start cfg env now wall_ms c mode c')
  then show ?case
    by (auto simp: client_new_def run_start_def pulsar_new_def pulsar_ops_def pulsar_connect_def
        start_reconnect_task_def Let_def split: sum.splits prod.splits if_splits)
next
  case (task cfg c)
  then show ?case by (auto simp: set_forwarder_def pulsar_task_finishes_def)
next
  case (step cfg c x c')
  then have "pulsar_idle c" by (auto simp: pulsar_idle_def length_Suc_conv)
  from pulsar_idle_op [OF this step.hyps(2)] step.IH show ?case by simp
qed

theorem pulsar_never_sends_witness:
  "\<exists>c. pulsar_history (default_config ''out.sbs'') c \<and> pf_channel (cl_forwarders c ! 0) = 1
     \<and> cl_retry_queues c = [[''MSG,1'']] \<and> pf_sent (cl_forwarders c ! 0) = []"
proof -
  let ?cfg = "default_config ''out.sbs''"
  let ?waiting = "(pulsar_new [])\<lparr>pf_task_running := True, pf_channel := 1\<rparr>"
  have cfg: "\<not> test_mode ?cfg" "0 < max_retry_queue_size ?cfg" by (simp_all add: default_config_def)
  have "validate ?cfg = Inr ()"
    by (simp add: validate_def default_config_def trim_eval starts_with_def)
  then obtain c0 where c0: "client_new ?cfg [pulsar_new []] 0 0 = Inr c0"
    and c0': "cl_config c0 = ?cfg" "cl_forwarders c0 = [pulsar_new []]" "cl_retry_queues c0 = [[]]"
    by (simp add: client_new_def)
  obtain mode c1 where "run_start pulsar_ops c0 = (Inr mode, c1)" and c1: "cl_config c1 = ?cfg"
    "cl_forwarders c1 = [(pulsar_new [])\<lparr>pf_task_running := True\<rparr>]" "cl_retry_queues c1 = [[]]"
    using c0' cfg by (simp add: run_start_def pulsar_ops_def pulsar_connect_def start_reconnect_task_def
        pulsar_new_def)
  from pulsar_history.task [OF pulsar_history.start [OF c0 this(1)]]
  obtain c2 where h2: "pulsar_history ?cfg c2" and c2: "cl_config c2 = ?cfg"
    "cl_forwarders c2 = [?waiting]" "cl_retry_queues c2 = [[]]"
    using c1 by (simp add: set_forwarder_def pulsar_task_finishes_def pulsar_new_def)
  obtain c3 where s3: "run_client_op pulsar_ops (Message 0 ''MSG,1'') c2 = Some c3"
    and c3: "cl_forwarders c3 = [?waiting]" "cl_retry_queues c3 = [[''MSG,1'']]"
    using c2 cfg
    by (simp add: forward_message_def fan_out_def forward_one_def enqueue_retry_def upd_metrics_def
        pulsar_ops_def pulsar_new_def push_bounded_def Let_def)
  from pulsar_history.step [OF h2 s3] have h3: "pulsar_history ?cfg c3" .
  from pulsar_never_sends [OF h3] h3 c3 show ?thesis by auto
qed

end
