(* ===== verification/Feed_Source.thy ===== *)
theory Feed_Source imports Feed_Client begin

text \<open>
  The input side of the feed client crate, \<open>adsb-pulsar-client/src/source/\<close>: splitting a payload
  into lines, the liveness policy, the socket source around the client, and the MQTT source with
  its auxiliary topics. The event loop of the MQTT source is the function of its events; the
  result of each subscribe request is an argument of the event that makes them.
\<close>

datatype source_status = Disconnected | Connecting | Connected

subsection \<open>Lines of a payload\<close>

definition split_lines :: "bytes \<Rightarrow> bytes list" where
  "split_lines payload =
     filter (\<lambda>line. line \<noteq> [])
       (map (\<lambda>line. case strip_suffix [CR] line of Some l \<Rightarrow> l | None \<Rightarrow> line)
         (split_on NL payload))"

subsection \<open>Liveness\<close>

datatype liveness = L_Connecting | L_Healthy | L_Degraded | L_Lost

record liveness_policy =
  degraded_after :: duration
  lost_after :: duration

definition for_socket :: "nat \<Rightarrow> liveness_policy" where
  "for_socket read_timeout_secs =
     \<lparr>degraded_after = from_secs (read_timeout_secs + 10), lost_after = from_secs (read_timeout_secs + 30)\<rparr>"

definition for_mqtt :: "nat \<Rightarrow> liveness_policy" where
  "for_mqtt heartbeat_secs =
     \<lparr>degraded_after = from_secs (heartbeat_secs + heartbeat_secs div 2),
      lost_after = from_secs (heartbeat_secs * 3)\<rparr>"

fun resolve :: "liveness_policy \<Rightarrow> source_status \<Rightarrow> duration \<Rightarrow> liveness" where
  "resolve p Disconnected quiet_for = L_Lost"
| "resolve p Connecting quiet_for = L_Connecting"
| "resolve p Connected quiet_for =
     (if quiet_for \<ge> lost_after p then L_Lost
      else if quiet_for \<ge> degraded_after p then L_Degraded else L_Healthy)"

fun severity :: "liveness \<Rightarrow> nat" where
  "severity L_Healthy = 0" | "severity L_Degraded = 1" | "severity L_Lost = 2" | "severity L_Connecting = 3"

lemma resolve_mono: "q \<le> q' \<Longrightarrow> severity (resolve p s q) \<le> severity (resolve p s q')"
  by (cases s) auto

lemma degraded_before_lost:
  "degraded_after (for_socket n) < lost_after (for_socket n)"
  "0 < n \<Longrightarrow> degraded_after (for_mqtt n) < lost_after (for_mqtt n)"
  by (simp_all add: for_socket_def for_mqtt_def from_secs_def)

text \<open>\<open>Config::liveness_policy\<close>\<close>

definition cfg_liveness_policy :: "config \<Rightarrow> liveness_policy" where
  "cfg_liveness_policy c = (case source_kind c of
      SocketKind \<Rightarrow> for_socket (socket_read_timeout_secs c)
    | MqttKind \<Rightarrow> for_mqtt (heartbeat_timeout_secs c))"

text \<open>A configuration that switches the heartbeat timeout off (a value of zero, which validation
  accepts and the monitor reads as never stale) makes an MQTT feed look dead: with the transport
  connected the verdict is Lost however recently a message arrived. With a heartbeat timeout of at
  least one second the verdict is Healthy right after a message.\<close>

theorem mqtt_liveness_without_heartbeat:
  assumes "source_kind c = MqttKind"
  shows "(resolve (cfg_liveness_policy c) Connected 0 = L_Lost \<longleftrightarrow> heartbeat_timeout c = None)
       \<and> (resolve (cfg_liveness_policy c) Connected 0 = L_Healthy \<longleftrightarrow> heartbeat_timeout c \<noteq> None)
       \<and> (heartbeat_timeout c = None \<longrightarrow> resolve (cfg_liveness_policy c) Connected quiet_for = L_Lost)"
  using assms by (simp add: cfg_liveness_policy_def for_mqtt_def heartbeat_timeout_def from_secs_def)

theorem mqtt_liveness_without_heartbeat_witness:
  "resolve (cfg_liveness_policy ((default_config ''out.sbs'')\<lparr>source_kind := MqttKind,
     heartbeat_timeout_secs := 0\<rparr>)) Connected 1 = L_Lost"
  using mqtt_liveness_without_heartbeat [of "(default_config ''out.sbs'')\<lparr>source_kind := MqttKind,
     heartbeat_timeout_secs := 0\<rparr>" 1] by (simp add: heartbeat_timeout_def)

subsection \<open>The socket source\<close>

record 'f socket_source =
  ss_client :: "'f client"
  ss_status :: source_status

definition socket_source_new :: "config \<Rightarrow> 'f list \<Rightarrow> instant \<Rightarrow> int \<Rightarrow> client_error + 'f socket_source" where
  "socket_source_new c fs now wall_ms =
     (case client_new c fs now wall_ms of
        Inl e \<Rightarrow> Inl e
      | Inr cl \<Rightarrow> Inr \<lparr>ss_client = cl, ss_status = Disconnected\<rparr>)"

definition socket_source_subscribe :: "'f socket_source \<Rightarrow> 'f socket_source" where
  "socket_source_subscribe s = s\<lparr>ss_client := with_message_tap (ss_client s)\<rparr>"

text \<open>\<open>run\<close>: the states the status passes through, around a run of the client.\<close>

definition socket_source_run ::
  "('f client \<Rightarrow> (client_error + unit) \<times> 'f client) \<Rightarrow> 'f socket_source
    \<Rightarrow> (client_error + unit) \<times> 'f socket_source \<times> source_status list" where
  "socket_source_run run s =
     (let (r, cl) = run (ss_client s)
      in (r, s\<lparr>ss_client := cl, ss_status := Disconnected\<rparr>, [Connecting, Disconnected]))"

subsection \<open>The MQTT source\<close>

datatype route = R_Sbs | R_Aux nat | R_Ignore

definition route_publish :: "bytes \<Rightarrow> bytes \<Rightarrow> bytes list \<Rightarrow> route" where
  "route_publish topic sbs_topic aux_topics =
     (if topic = sbs_topic then R_Sbs
      else case position (\<lambda>aux. aux = topic) aux_topics of Some index \<Rightarrow> R_Aux index | None \<Rightarrow> R_Ignore)"

record aux_topic =
  aux_name :: bytes
  aux_value :: "bytes option" \<comment> \<open>what the watch channel holds\<close>

record mqtt_source =
  ms_broker :: string
  ms_port :: nat
  ms_topic :: bytes
  ms_client_id :: bytes
  ms_qos :: qos
  ms_keep_alive :: duration
  ms_tap :: "bytes list option" \<comment> \<open>everything sent on the broadcast channel\<close>
  ms_aux :: "aux_topic list"
  ms_status :: source_status
  ms_shutdown :: bool
  ms_pacer :: pacer

definition MAX_INCOMING_PACKET_BYTES :: nat where "MAX_INCOMING_PACKET_BYTES = 1024 * 1024"

definition mqtt_source_new :: "config \<Rightarrow> mqtt_source" where
  "mqtt_source_new c =
     \<lparr>ms_broker = mqtt_broker c, ms_port = mqtt_port c, ms_topic = mqtt_topic c,
      ms_client_id = cfg_mqtt_client_id c @ ''-sub'', ms_qos = qos_from_u8 (mqtt_qos c),
      ms_keep_alive = socket_timeout c, ms_tap = None, ms_aux = [], ms_status = Disconnected,
      ms_shutdown = False, ms_pacer = fresh_pacer\<rparr>"

definition with_aux_topic :: "bytes \<Rightarrow> mqtt_source \<Rightarrow> mqtt_source" where
  "with_aux_topic topic s =
     (if list_ex (\<lambda>aux. aux_name aux = topic) (ms_aux s) then s
      else s\<lparr>ms_aux := ms_aux s @ [\<lparr>aux_name = topic, aux_value = None\<rparr>]\<rparr>)"

definition source_topics :: "mqtt_source \<Rightarrow> bytes list" where
  "source_topics s = ms_topic s # filter (\<lambda>aux. aux \<noteq> ms_topic s) (map aux_name (ms_aux s))"

definition source_subscribe :: "mqtt_source \<Rightarrow> mqtt_source" where
  "source_subscribe s = (case ms_tap s of Some _ \<Rightarrow> s | None \<Rightarrow> s\<lparr>ms_tap := Some []\<rparr>)"

definition source_run_start :: "mqtt_source \<Rightarrow> client_error + mqtt_source" where
  "source_run_start s = (case ms_tap s of
      None \<Rightarrow> Inl (ConfigErr ''MqttSource::run called before subscribe'')
    | Some _ \<Rightarrow> Inr (s\<lparr>ms_status := Connecting, ms_pacer := fresh_pacer\<rparr>))"

text \<open>A \<open>ConnAck\<close>: subscribe to every topic; \<open>ok t\<close> is whether the request for \<open>t\<close> was taken.\<close>

definition source_connack :: "(bytes \<Rightarrow> bool) \<Rightarrow> instant \<Rightarrow> mqtt_source \<Rightarrow> mqtt_source" where
  "source_connack ok now s =
     (let sbs_subscribed =
        fold (\<lambda>topic subscribed. if ok topic then subscribed \<or> topic = ms_topic s else subscribed)
          (source_topics s) False
      in if sbs_subscribed
         then s\<lparr>ms_pacer := (ms_pacer s)\<lparr>connected_at := Some now\<rparr>, ms_status := Connected\<rparr>
         else s)"

definition source_publish :: "bytes \<Rightarrow> bytes \<Rightarrow> mqtt_source \<Rightarrow> mqtt_source" where
  "source_publish topic payload s =
     (case route_publish topic (ms_topic s) (map aux_name (ms_aux s)) of
        R_Sbs \<Rightarrow> s\<lparr>ms_tap := map_option (\<lambda>t. t @ split_lines payload) (ms_tap s)\<rparr>
      | R_Aux index \<Rightarrow> s\<lparr>ms_aux := (ms_aux s)[index := (ms_aux s ! index)\<lparr>aux_value := Some payload\<rparr>]\<rparr>
      | R_Ignore \<Rightarrow> s)"

definition source_poll_error :: "instant \<Rightarrow> mqtt_source \<Rightarrow> mqtt_source \<times> duration" where
  "source_poll_error now s =
     (let p = ms_pacer s;
          p = (case connected_at p of
                 Some t \<Rightarrow>
                   if should_reset (elapsed_since t now) then p\<lparr>attempt := 0, short_lived := 0\<rparr>
                   else if was_short_lived (elapsed_since t now)
                   then p\<lparr>short_lived := sat_add U32_MAX (short_lived p) 1\<rparr> else p
               | None \<Rightarrow> p);
          p = p\<lparr>connected_at := None\<rparr>;
          sleep = delay default_backoff (attempt p);
          p = p\<lparr>attempt := sat_add U32_MAX (attempt p) 1\<rparr>
      in (s\<lparr>ms_pacer := p, ms_status := Connecting\<rparr>, sleep))"

datatype source_event =
    Shutdown_Changed bool
  | Conn_Ack "bytes \<Rightarrow> bool" instant
  | Publish bytes bytes
  | Other_Event
  | Poll_Error instant

text \<open>One round of the loop: the state after it and whether the loop goes on.\<close>

fun source_step :: "source_event \<Rightarrow> mqtt_source \<Rightarrow> bool \<times> mqtt_source" where
  "source_step (Shutdown_Changed b) s =
     (if b then (False, s\<lparr>ms_shutdown := b, ms_status := Disconnected\<rparr>) else (True, s\<lparr>ms_shutdown := b\<rparr>))"
| "source_step (Conn_Ack ok now) s = (True, source_connack ok now s)"
| "source_step (Publish topic payload) s = (True, source_publish topic payload s)"
| "source_step Other_Event s = (True, s)"
| "source_step (Poll_Error now) s = (True, fst (source_poll_error now s))"

fun source_run :: "source_event list \<Rightarrow> mqtt_source \<Rightarrow> mqtt_source" where
  "source_run [] s = s"
| "source_run (e # es) s = (case source_step e s of
      (True, s') \<Rightarrow> source_run es s' | (False, s') \<Rightarrow> s')"

subsection \<open>Lines survive the round trip through MQTT\<close>

lemma split_on_lines:
  "\<forall>l \<in> set ls. x \<notin> set l \<Longrightarrow> split_on x (concat (map (\<lambda>l. l @ [x]) ls)) = ls @ [[]]"
proof (induction ls)
  case (Cons l ls)
  then show ?case using split_on_append [of x l "concat (map (\<lambda>l. l @ [x]) ls)"] by simp
qed simp

text \<open>One broadcast message is exactly one line. Lines that are not empty, hold no newline and
  end in no carriage return come out of a payload as they went in, in order, however many of them a
  producer batches; and whatever the payload, no message holds a newline or is empty.\<close>

theorem split_lines_batch:
  assumes "\<forall>l \<in> set ls. l \<noteq> [] \<and> NL \<notin> set l \<and> last l \<noteq> CR"
  shows "split_lines (concat (map (\<lambda>l. l @ [NL]) ls)) = ls
       \<and> (\<forall>m \<in> set (split_lines payload). m \<noteq> [] \<and> NL \<notin> set m)"
proof -
  have strip: "(case strip_suffix [CR] l of Some l' \<Rightarrow> l' | None \<Rightarrow> l) = l" if "l \<in> set ls" for l
    using assms that by (auto split: option.splits)
  have "split_on NL (concat (map (\<lambda>l. l @ [NL]) ls)) = ls @ [[]]"
    using assms by (intro split_on_lines) auto
  moreover have "map (\<lambda>line. case strip_suffix [CR] line of Some l \<Rightarrow> l | None \<Rightarrow> line) ls = ls"
    using strip by (simp add: map_idI)
  moreover have "filter (\<lambda>line. line \<noteq> []) ls = ls" using assms by (simp add: filter_id_conv)
  moreover have "(case strip_suffix [CR] ([]::bytes) of Some l \<Rightarrow> l | None \<Rightarrow> []) = ([]::bytes)"
    by (simp split: option.split)
  moreover have "NL \<notin> set (case strip_suffix [CR] f of Some l \<Rightarrow> l | None \<Rightarrow> f)"
    if "f \<in> set (split_on NL payload)" for f
    using split_on_no_sep [OF that] by (auto split: option.split)
  ultimately show ?thesis by (auto simp: split_lines_def)
qed

theorem split_lines_batch_witness:
  "split_lines (concat (map (\<lambda>l. l @ [NL]) [''MSG,3'', ''MSG,4''])) = [''MSG,3'', ''MSG,4'']"
  using split_lines_batch [of "[''MSG,3'', ''MSG,4'']" "[]"] by simp

subsection \<open>The event loop demultiplexes\<close>

fun published :: "bytes \<Rightarrow> source_event list \<Rightarrow> bytes list" where
  "published t [] = []"
| "published t (Publish topic payload # es) =
     (if topic = t then payload # published t es else published t es)"
| "published t (_ # es) = published t es"

fun shuts_down :: "source_event \<Rightarrow> bool" where
  "shuts_down (Shutdown_Changed b) = b"
| "shuts_down _ = False"

fun aux_latest :: "bytes \<Rightarrow> aux_topic list \<Rightarrow> bytes option" where
  "aux_latest t [] = None"
| "aux_latest t (a # as) = (if aux_name a = t then aux_value a else aux_latest t as)"

lemma aux_latest_update:
  "position (\<lambda>a. a = topic) (map aux_name as) = Some j \<Longrightarrow>
   aux_latest t (as[j := (as ! j)\<lparr>aux_value := v\<rparr>]) = (if topic = t then v else aux_latest t as)"
proof (induction as arbitrary: j)
  case (Cons a as)
  show ?case
  proof (cases "aux_name a = topic")
    case False
    with Cons.prems obtain k where "j = Suc k" "position (\<lambda>a. a = topic) (map aux_name as) = Some k"
      by auto
    with False Cons.IH [OF this(2)] show ?thesis by auto
  qed (use Cons.prems in auto)
qed simp

text \<open>What an event leaves alone: the topic, the names of the auxiliary topics.\<close>

lemma publish_names:
  "map aux_name (ms_aux (source_publish t p s)) = map aux_name (ms_aux s)"
  "ms_topic (source_publish t p s) = ms_topic s"
proof -
  have "(map aux_name (ms_aux s))[i := aux_name (ms_aux s ! i)] = map aux_name (ms_aux s)" for i
    by (cases "i < length (ms_aux s)") (simp_all add: list_update_beyond flip: map_update)
  then show "map aux_name (ms_aux (source_publish t p s)) = map aux_name (ms_aux s)"
    by (simp add: source_publish_def map_update split: route.split)
qed (simp add: source_publish_def split: route.split)

lemma publish_aux:
  assumes "t \<noteq> ms_topic s" and "t \<in> aux_name ` set (ms_aux s)"
  shows "aux_latest t (ms_aux (source_publish topic payload s))
       = (if topic = t then Some payload else aux_latest t (ms_aux s))"
proof (cases "topic = ms_topic s")
  case True
  with assms(1) show ?thesis by (simp add: source_publish_def route_publish_def)
next
  case False
  show ?thesis
  proof (cases "position (\<lambda>a. a = topic) (map aux_name (ms_aux s))")
    case None
    then have "topic \<noteq> t" using assms(2) by (auto simp: position_None)
    with None False show ?thesis by (simp add: source_publish_def route_publish_def)
  next
    case (Some j)
    with False aux_latest_update [OF Some] show ?thesis
      by (simp add: source_publish_def route_publish_def)
  qed
qed

lemma step_frame:
  "ms_topic (snd (source_step e s)) = ms_topic s"
  "map aux_name (ms_aux (snd (source_step e s))) = map aux_name (ms_aux s)"
  by (cases e; simp add: publish_names source_connack_def source_poll_error_def Let_def)+

lemma step_tap:
  "ms_tap s = Some l \<Longrightarrow>
   ms_tap (snd (source_step e s)) = Some (l @ concat (map split_lines (published (ms_topic s) [e])))"
  by (cases e)
     (auto simp: source_connack_def source_poll_error_def source_publish_def route_publish_def Let_def
       split: option.splits)

lemma step_aux:
  "t \<noteq> ms_topic s \<Longrightarrow> t \<in> aux_name ` set (ms_aux s) \<Longrightarrow>
   aux_latest t (ms_aux (snd (source_step e s))) = (case published t [e] of [] \<Rightarrow> aux_latest t (ms_aux s) | p # _ \<Rightarrow> Some p)"
  by (cases e)
     (simp_all add: publish_aux source_connack_def source_poll_error_def Let_def)

lemma run_goes_on:
  "\<not> shuts_down e \<Longrightarrow> source_run (e # es) s = source_run es (snd (source_step e s))"
  by (cases e) simp_all

lemma published_Cons: "published t (e # es) = published t [e] @ published t es"
  by (cases e) auto

lemma published_one: "published t [e] = [] \<or> (\<exists>p. published t [e] = [p])"
  by (cases e) auto

lemma source_run_step:
  assumes "list_all (\<lambda>e. \<not> shuts_down e) (e # es)"
  shows "source_run (e # es) s = source_run es (snd (source_step e s))"
  using assms by (intro run_goes_on) simp

lemma source_run_tap:
  "ms_tap s = Some l \<Longrightarrow> list_all (\<lambda>e. \<not> shuts_down e) es \<Longrightarrow>
   ms_tap (source_run es s) = Some (l @ concat (map split_lines (published (ms_topic s) es)))"
proof (induction es arbitrary: s l)
  case (Cons e es)
  have "list_all (\<lambda>e. \<not> shuts_down e) es" using Cons.prems(2) by simp
  from Cons.IH [OF step_tap [OF Cons.prems(1), of e] this] show ?case
    unfolding source_run_step [OF Cons.prems(2)] published_Cons [of _ e es] by (simp add: step_frame)
qed simp

lemma source_run_aux:
  "t \<noteq> ms_topic s \<Longrightarrow> t \<in> aux_name ` set (ms_aux s) \<Longrightarrow> list_all (\<lambda>e. \<not> shuts_down e) es \<Longrightarrow>
   aux_latest t (ms_aux (source_run es s))
     = (if published t es = [] then aux_latest t (ms_aux s) else Some (last (published t es)))"
proof (induction es arbitrary: s)
  case (Cons e es)
  let ?s = "snd (source_step e s)"
  have "t \<noteq> ms_topic ?s" "t \<in> aux_name ` set (ms_aux ?s)"
    using step_frame [of e s] Cons.prems(1,2) by (simp_all flip: set_map)
  moreover have "list_all (\<lambda>e. \<not> shuts_down e) es" using Cons.prems(3) by simp
  ultimately have "aux_latest t (ms_aux (source_run es ?s))
      = (if published t es = [] then aux_latest t (ms_aux ?s) else Some (last (published t es)))" by (rule Cons.IH)
  then show ?case
    using published_one [of t e] step_aux [OF Cons.prems(1,2), of e]
    unfolding source_run_step [OF Cons.prems(3)] published_Cons [of _ e es] by auto
qed simp

text \<open>C21: The MQTT source demultiplexes. Over any run that has not been shut down, through any
  reconnects, the broadcast channel carries exactly the lines of the payloads published on the SBS
  topic, in order, and the channel of each auxiliary topic other than that holds the newest payload
  published on it, whole.\<close>

theorem mqtt_source_demultiplexes:
  assumes "ms_tap s = Some l" and "list_all (\<lambda>e. \<not> shuts_down e) es"
    and "t \<noteq> ms_topic s" and "t \<in> aux_name ` set (ms_aux s)"
  shows "ms_tap (source_run es s) = Some (l @ concat (map split_lines (published (ms_topic s) es)))
       \<and> aux_latest t (ms_aux (source_run es s))
         = (if published t es = [] then aux_latest t (ms_aux s) else Some (last (published t es)))"
  using source_run_tap [OF assms(1,2)] source_run_aux [OF assms(3,4,2)] by simp

text \<open>A source as the desktop application sets it up: the weather grid and the service status ride on
  the same connection.\<close>

definition weather_source :: mqtt_source where
  "weather_source = source_subscribe (with_aux_topic ''wx/status'' (with_aux_topic ''wx/grid''
     (mqtt_source_new ((default_config ''out.sbs'')\<lparr>mqtt_topic := ''sbs''\<rparr>))))"

theorem mqtt_source_demultiplexes_witness:
  "aux_latest ''wx/grid'' (ms_aux (source_run [Conn_Ack (\<lambda>_. True) 0, Publish ''wx/grid'' ''A'',
     Publish ''sbs'' (''MSG,3'' @ [NL]), Poll_Error 7, Conn_Ack (\<lambda>_. True) 9, Publish ''wx/grid'' ''B'']
     weather_source)) = Some ''B''"
  by (rule mqtt_source_demultiplexes [where l = "[]" and t = "''wx/grid''", THEN conjunct2, THEN trans])
     (simp_all add: weather_source_def source_subscribe_def with_aux_topic_def mqtt_source_new_def)

lemma subscribed_fold:
  "fold (\<lambda>topic subscribed. if ok topic then subscribed \<or> topic = t else subscribed) ts b
   = (b \<or> (t \<in> set ts \<and> ok t))"
  by (induction ts arbitrary: b) auto

lemma source_connack_alt:
  "source_connack ok now s =
     (if ok (ms_topic s)
      then s\<lparr>ms_pacer := (ms_pacer s)\<lparr>connected_at := Some now\<rparr>, ms_status := Connected\<rparr> else s)"
  by (simp add: source_connack_def subscribed_fold source_topics_def)

lemma poll_error_pacer:
  "connected_at (ms_pacer (fst (source_poll_error now s))) = None"
  "ms_status (fst (source_poll_error now s)) = Connecting"
  by (simp_all add: source_poll_error_def Let_def)

fun subscribed_since :: "bytes \<Rightarrow> bool \<Rightarrow> source_event list \<Rightarrow> bool" where
  "subscribed_since t b [] = b"
| "subscribed_since t b (Conn_Ack ok now # es) = subscribed_since t (b \<or> ok t) es"
| "subscribed_since t b (Poll_Error now # es) = subscribed_since t False es"
| "subscribed_since t b (_ # es) = subscribed_since t b es"

lemma status_from:
  "list_all (\<lambda>e. \<not> shuts_down e) es \<Longrightarrow> ms_status s = (if b then Connected else Connecting) \<Longrightarrow>
   ms_status (source_run es s)
     = (if subscribed_since (ms_topic s) b es then Connected else Connecting)"
proof (induction es arbitrary: s b)
  case (Cons e es)
  let ?s = "snd (source_step e s)"
  have run: "source_run (e # es) s = source_run es ?s"
    using Cons.prems(1) by (intro run_goes_on) simp
  have topic: "ms_topic ?s = ms_topic s" by (rule step_frame)
  have rest: "list_all (\<lambda>e. \<not> shuts_down e) es" using Cons.prems(1) by simp
  have status: "ms_status ?s = (if subscribed_since (ms_topic s) b [e] then Connected else Connecting)"
    using Cons.prems
    by (cases e) (auto simp: source_connack_alt poll_error_pacer source_publish_def split: route.split)
  have "subscribed_since (ms_topic s) b (e # es)
      = subscribed_since (ms_topic s) (subscribed_since (ms_topic s) b [e]) es"
    by (cases e) simp_all
  with Cons.IH [OF rest status] show ?case unfolding run topic by simp
qed simp

text \<open>The status a subscriber sees is right: from the start of \<open>run\<close>, through any events that do
  not shut it down, the source says Connected exactly when it took up the SBS subscription at some
  \<open>ConnAck\<close> and no poll error came since, and otherwise Connecting. A failed auxiliary subscription
  does not matter.\<close>
theorem mqtt_source_status_right:
  assumes "source_run_start s0 = Inr s" and "list_all (\<lambda>e. \<not> shuts_down e) es"
  shows "ms_status (source_run es s)
       = (if subscribed_since (ms_topic s) False es then Connected else Connecting)"
proof -
  have "ms_status s = Connecting"
    using assms(1) by (auto simp: source_run_start_def split: option.splits)
  with status_from [OF assms(2), of s False] show ?thesis by simp
qed

theorem mqtt_source_status_right_witness:
  "\<exists>s. source_run_start weather_source = Inr s
     \<and> ms_status (source_run [Conn_Ack (\<lambda>t. t \<noteq> ''wx/grid'') 0, Publish ''sbs'' ''x''] s) = Connected"
proof -
  obtain s where s: "source_run_start weather_source = Inr s" and t: "ms_topic s = ''sbs''"
    by (simp add: source_run_start_def weather_source_def source_subscribe_def with_aux_topic_def mqtt_source_new_def)
  from mqtt_source_status_right [OF s, of "[Conn_Ack (\<lambda>t. t \<noteq> ''wx/grid'') 0, Publish ''sbs'' ''x'']"] s t
  show ?thesis by auto
qed

subsection \<open>Reconnecting\<close>

interpretation mqtt_src: paced_reconnect "source_connack (\<lambda>_. True)" source_poll_error ms_pacer default_backoff
  by unfold_locales
     (auto simp: source_connack_alt source_poll_error_def paced_error_def settle_def Let_def
       split: option.splits)

text \<open>A subscriber that another client keeps evicting with the same client id recognises it: when
  every connection since the start of \<open>run\<close> died within five seconds, the collision warning fires
  from the third eviction on and not before, and the sleeps meanwhile grow as the backoff says.\<close>

theorem mqtt_source_recognises_eviction:
  assumes "source_run_start s0 = Inr s" and "evicted None es" and "failures es \<le> U32_MAX"
  shows "looks_like_id_collision
           (short_lived (ms_pacer (fst (run_conn (source_connack (\<lambda>_. True)) source_poll_error es s))))
         = (3 \<le> failures es)
       \<and> snd (run_conn (source_connack (\<lambda>_. True)) source_poll_error es s)
         = map (delay default_backoff) [0..<failures es]"
proof -
  have p: "ms_pacer s = fresh_pacer"
    using assms(1) by (auto simp: source_run_start_def split: option.splits)
  then have e: "evicted (connected_at (ms_pacer s)) es" using assms(2) by (simp add: fresh_pacer_def)
  note f = evicted_flapping [OF e]
  show ?thesis
    using mqtt_src.evicted_short_lived [OF e] mqtt_src.flapping_sleeps [OF f] assms(3)
    by (simp add: p fresh_pacer_def looks_like_id_collision_def)
qed

theorem mqtt_source_recognises_eviction_witness:
  "\<exists>s. source_run_start weather_source = Inr s
     \<and> looks_like_id_collision (short_lived (ms_pacer (fst (run_conn (source_connack (\<lambda>_. True))
           source_poll_error (eviction_storm 4) s))))"
proof -
  obtain s where s: "source_run_start weather_source = Inr s"
    by (simp add: source_run_start_def weather_source_def source_subscribe_def with_aux_topic_def
        mqtt_source_new_def)
  have "evicted None (eviction_storm n)" for n
    by (induction n) (simp_all add: elapsed_since_def was_short_lived_def SHORT_LIVED_def from_secs_def)
  moreover have "failures (eviction_storm n) = n" for n
    by (induction n) simp_all
  ultimately show ?thesis
    using mqtt_source_recognises_eviction [OF s, of "eviction_storm 4"] s by auto
qed

end
