(* ===== verification/Sbs_Parser.thy ===== *)
theory Sbs_Parser imports F64 begin

text \<open>
  \<open>adsb-data-engine/src/sbs_parser.rs\<close>: the comma-separated SBS-1 line as an aircraft position,
  as the raw record's key fields, and as a timestamp. A \<open>&str\<close> is its UTF-8 bytes.
\<close>

record aircraft_position =
  hex_ident :: string
  callsign :: "string option"
  altitude :: "f64 option"
  ground_speed :: "f64 option"
  track :: "f64 option"
  latitude :: "f64 option"
  longitude :: "f64 option"
  vertical_rate :: "f64 option"
  squawk :: "string option"
  is_on_ground :: "bool option"
  timestamp :: string
  message_count :: nat

definition non_empty :: "string \<Rightarrow> string option" where
  "non_empty s = (let trimmed = trim s in if trimmed = [] then None else Some trimmed)"

definition parse_f64 :: "string \<Rightarrow> f64 option" where
  "parse_f64 s = parse_f64_str (trim s)"

definition parse_bool :: "string \<Rightarrow> bool option" where
  "parse_bool s = (let t = trim s
     in if t = ''0'' \<or> t = ''-1'' then Some False else if t = ''1'' then Some True else None)"

definition fields_of :: "string \<Rightarrow> string list" where
  "fields_of line = split_on (CHR '','') line"

definition parse_sbs_message :: "string \<Rightarrow> aircraft_position option" where
  "parse_sbs_message line =
     (let fields = fields_of line
      in if length fields < 22 then None
         else if trim (fields ! 0) \<noteq> ''MSG'' then None
         else (let hex = trim (fields ! 4)
               in if hex = [] \<or> hex = ''000000'' then None
                  else Some \<lparr>hex_ident = hex,
                    callsign = non_empty (fields ! 10),
                    altitude = parse_f64 (fields ! 11),
                    ground_speed = parse_f64 (fields ! 12),
                    track = parse_f64 (fields ! 13),
                    latitude = parse_f64 (fields ! 14),
                    longitude = parse_f64 (fields ! 15),
                    vertical_rate = parse_f64 (fields ! 16),
                    squawk = non_empty (fields ! 17),
                    is_on_ground = parse_bool (fields ! 21),
                    timestamp = trim (fields ! 6) @ '' '' @ trim (fields ! 7),
                    message_count = 0\<rparr>))"

definition parse_sbs_raw_fields :: "string \<Rightarrow> (string \<times> string \<times> nat option) option" where
  "parse_sbs_raw_fields line =
     (let fields = fields_of line
      in if length fields < 22 then None
         else if trim (fields ! 0) \<noteq> ''MSG'' then None
         else (let hex = trim (fields ! 4)
               in if hex = [] \<or> hex = ''000000'' then None
                  else Some (hex, ''MSG,'' @ trim (fields ! 1), parse_unsigned 255 (trim (fields ! 1)))))"

definition extract_sbs_timestamp :: "string \<Rightarrow> string option" where
  "extract_sbs_timestamp line =
     (let fields = fields_of line
      in if length fields < 8 then None
         else (let date = trim (fields ! 6); time = trim (fields ! 7)
               in if date = [] \<and> time = [] then None else Some (date @ '' '' @ time)))"

text \<open>The two parsers accept the same lines, and agree on the aircraft.\<close>

lemma raw_fields_iff_message:
  "(parse_sbs_raw_fields line = None) = (parse_sbs_message line = None)"
  by (simp add: parse_sbs_raw_fields_def parse_sbs_message_def Let_def)

lemma raw_fields_hex:
  "parse_sbs_raw_fields line = Some (hex, m, t) \<Longrightarrow> parse_sbs_message line = Some p \<Longrightarrow> hex_ident p = hex"
  by (auto simp: parse_sbs_raw_fields_def parse_sbs_message_def Let_def split: if_splits)

lemma timestamp_agrees:
  "extract_sbs_timestamp line = Some ts \<Longrightarrow> parse_sbs_message line = Some p \<Longrightarrow> timestamp p = ts"
  by (auto simp: extract_sbs_timestamp_def parse_sbs_message_def Let_def split: if_splits)

lemma message_hex:
  "parse_sbs_message line = Some p \<Longrightarrow> hex_ident p \<noteq> [] \<and> hex_ident p \<noteq> ''000000'' \<and> message_count p = 0"
  by (auto simp: parse_sbs_message_def Let_def split: if_splits)

subsection \<open>Printing an SBS line\<close>

text \<open>
  The line a receiver writes for a position, given the texts of its numeric fields. Printing then
  parsing gives the fields back.
\<close>

definition clean_field :: "string \<Rightarrow> bool" where
  "clean_field f \<longleftrightarrow> CHR '','' \<notin> set f \<and> trim f = f"

text \<open>C32: Parsing reads back what a receiver writes. A line of at least 22 fields, none with a comma or
  surrounding space, whose first is MSG and whose address is neither empty nor the heartbeat
  address, parses to a position with exactly those fields; empty fields become absent ones.\<close>

theorem parse_sbs_printed:
  assumes "22 \<le> length fs" and "\<forall>f \<in> set fs. clean_field f"
    and "fs ! 0 = ''MSG''" and "fs ! 4 \<noteq> []" and "fs ! 4 \<noteq> ''000000''"
  shows "\<exists>p. parse_sbs_message (join_with '','' fs) = Some p
     \<and> hex_ident p = fs ! 4
     \<and> timestamp p = fs ! 6 @ '' '' @ fs ! 7
     \<and> callsign p = (if fs ! 10 = [] then None else Some (fs ! 10))
     \<and> squawk p = (if fs ! 17 = [] then None else Some (fs ! 17))
     \<and> map (\<lambda>f. f p) [altitude, ground_speed, track, latitude, longitude, vertical_rate]
       = map parse_f64_str [fs ! 11, fs ! 12, fs ! 13, fs ! 14, fs ! 15, fs ! 16]
     \<and> is_on_ground p = (if fs ! 21 = ''0'' \<or> fs ! 21 = ''-1'' then Some False
                         else if fs ! 21 = ''1'' then Some True else None)"
proof -
  have "fs \<noteq> []" using assms(1) by auto
  moreover have "\<forall>f \<in> set fs. CHR '','' \<notin> set f" using assms(2) by (simp add: clean_field_def)
  ultimately have split: "fields_of (join_with '','' fs) = fs"
    by (simp add: fields_of_def split_on_join)
  have "trim (fs ! i) = fs ! i" if "i < 22" for i
    using assms(1,2) that by (simp add: clean_field_def)
  moreover from this [of 0] assms(3) have "trim ''MSG'' = ''MSG''" by simp
  ultimately show ?thesis
    using assms by (simp add: parse_sbs_message_def split Let_def non_empty_def parse_f64_def parse_bool_def)
qed

definition position_fields :: "string list" where
  "position_fields = [''MSG'', ''3'', ''1'', ''1'', ''A1B2C3'', ''1'', ''2024/01/15'', ''10:30:00.000'',
     ''2024/01/15'', ''10:30:00.000'', [], ''35000'', [], ''120.5'', ''45.5017'', ''-73.5673'', [],
     ''1234'', [], [], [], ''0'']"

lemma position_fields_clean: "\<forall>f \<in> set position_fields. clean_field f"
  by (simp add: position_fields_def clean_field_def trim_eval)

lemma position_line_fields: "fields_of (join_with '','' position_fields) = position_fields"
  unfolding fields_of_def by (rule split_on_join) (simp_all add: position_fields_def)

lemma position_line_parses:
  "\<exists>p. parse_sbs_message (join_with '','' position_fields) = Some p \<and> hex_ident p = ''A1B2C3''"
  unfolding parse_sbs_message_def position_line_fields
  by (simp add: position_fields_def Let_def trim_eval)

theorem parse_sbs_printed_witness:
  "\<exists>p. parse_sbs_message (join_with '','' position_fields) = Some p \<and> hex_ident p = ''A1B2C3''
     \<and> timestamp p = ''2024/01/15 10:30:00.000'' \<and> is_on_ground p = Some False \<and> callsign p = None"
  using parse_sbs_printed [OF _ position_fields_clean] by (force simp: position_fields_def)

end
