(* ===== verification/Ingest.thy ===== *)
theory Ingest imports Sbs_Parser "HOL-Library.List_Lexorder" "HOL-Library.Char_ord" begin

text \<open>
  \<open>adsb-data-engine/src/ingest.rs\<close>: the pipeline that parses SBS-1 lines, merges them per aircraft
  and flushes a batch every interval.

  The \<open>HashMap\<close>s are maps. The order in which draining one yields its entries is unspecified in
  Rust, so it is a parameter, \<open>order\<close>, of everything that flushes. What the pipeline does to its
  surroundings is a list of effects: the calls of the storage handle and of the sink.
\<close>

record raw_sbs_record =
  raw_hex_ident :: string
  raw_msg_type :: string
  raw_transmission_type :: "nat option"
  raw_timestamp :: string
  raw_timestamp_ms :: int
  raw_message :: string
  raw_source_id :: string

record ingest_config =
  ig_source_id :: string
  dump1090_tz :: string
  flush_interval :: duration

definition default_ingest_config :: ingest_config where
  "default_ingest_config = \<lparr>ig_source_id = [], dump1090_tz = ''Local'', flush_interval = from_millis 500\<rparr>"

record ingest =
  ig_config :: ingest_config
  ig_storage :: bool \<comment> \<open>a storage handle is attached\<close>
  record_positions :: bool
  record_raw :: bool
  messages_parsed :: u64
  last_message_time :: instant
  ig_buffer :: "string \<rightharpoonup> aircraft_position"
  ig_counts :: "string \<rightharpoonup> nat"
  ig_raw :: "raw_sbs_record list"

datatype ingest_effect =
    Insert_Batch "aircraft_position list" string
  | On_Positions "aircraft_position list"
  | Insert_Raw_Batch "raw_sbs_record list" string

definition ingest_new :: "bool \<Rightarrow> ingest_config \<Rightarrow> instant \<Rightarrow> ingest" where
  "ingest_new storage cfg now = \<lparr>ig_config = cfg, ig_storage = storage, record_positions = True,
     record_raw = True, messages_parsed = 0, last_message_time = now, ig_buffer = Map.empty,
     ig_counts = Map.empty, ig_raw = []\<rparr>"

definition merge_position :: "aircraft_position \<Rightarrow> aircraft_position \<Rightarrow> aircraft_position" where
  "merge_position new existing = existing\<lparr>
     callsign := opt_or (callsign new) (callsign existing),
     altitude := opt_or (altitude new) (altitude existing),
     ground_speed := opt_or (ground_speed new) (ground_speed existing),
     track := opt_or (track new) (track existing),
     latitude := opt_or (latitude new) (latitude existing),
     longitude := opt_or (longitude new) (longitude existing),
     vertical_rate := opt_or (vertical_rate new) (vertical_rate existing),
     squawk := opt_or (squawk new) (squawk existing),
     is_on_ground := opt_or (is_on_ground new) (is_on_ground existing),
     timestamp := timestamp new\<rparr>"

definition merge_into_buffer ::
  "aircraft_position \<Rightarrow> (string \<rightharpoonup> aircraft_position) \<Rightarrow> (string \<rightharpoonup> aircraft_position)" where
  "merge_into_buffer new buffer = (case buffer (hex_ident new) of
      Some existing \<Rightarrow> buffer(hex_ident new \<mapsto> merge_position new existing)
    | None \<Rightarrow> buffer(hex_ident new \<mapsto> new))"

definition bump :: "string \<Rightarrow> (string \<rightharpoonup> nat) \<Rightarrow> (string \<rightharpoonup> nat)" where
  "bump h counts = counts(h \<mapsto> (case counts h of Some n \<Rightarrow> n | None \<Rightarrow> 0) + 1)"

definition raw_record :: "ingest_config \<Rightarrow> string \<Rightarrow> raw_sbs_record option" where
  "raw_record cfg line = (case parse_sbs_raw_fields line of
      Some (hex, msg_type, trans_type) \<Rightarrow>
        (case extract_sbs_timestamp line of
           Some ts \<Rightarrow> Some \<lparr>raw_hex_ident = hex, raw_msg_type = msg_type,
             raw_transmission_type = trans_type, raw_timestamp = ts, raw_timestamp_ms = 0,
             raw_message = line, raw_source_id = ig_source_id cfg\<rparr>
         | None \<Rightarrow> None)
    | None \<Rightarrow> None)"

definition absorb :: "bytes \<Rightarrow> ingest \<Rightarrow> ingest" where
  "absorb data st = (case from_utf8 data of
      None \<Rightarrow> st
    | Some line \<Rightarrow>
        let st = (case raw_record (ig_config st) line of
                    Some r \<Rightarrow> st\<lparr>ig_raw := ig_raw st @ [r]\<rparr> | None \<Rightarrow> st)
        in case parse_sbs_message line of
             Some pos \<Rightarrow> st\<lparr>messages_parsed := messages_parsed st + 1,
                             ig_counts := bump (hex_ident pos) (ig_counts st),
                             ig_buffer := merge_into_buffer pos (ig_buffer st)\<rparr>
           | None \<Rightarrow> st)"

definition persist_batch :: "aircraft_position list \<Rightarrow> ingest \<Rightarrow> ingest_effect list" where
  "persist_batch batch st =
     (if ig_storage st then [Insert_Batch batch (dump1090_tz (ig_config st))] else [])"

definition persist_raw_batch :: "raw_sbs_record list \<Rightarrow> ingest \<Rightarrow> ingest_effect list" where
  "persist_raw_batch batch st =
     (if batch = [] then []
      else if ig_storage st then [Insert_Raw_Batch batch (dump1090_tz (ig_config st))] else [])"

definition flush ::
  "((string \<rightharpoonup> aircraft_position) \<Rightarrow> string list) \<Rightarrow> ingest \<Rightarrow> ingest_effect list \<times> ingest" where
  "flush order st =
     (let (effects, st) =
        (if ig_buffer st \<noteq> Map.empty
         then (let batch = List.map_filter (\<lambda>k. map_option
                   (\<lambda>p. case ig_counts st k of Some c \<Rightarrow> p\<lparr>message_count := c\<rparr> | None \<Rightarrow> p)
                   (ig_buffer st k)) (order (ig_buffer st));
                   st = st\<lparr>ig_buffer := Map.empty, ig_counts := ig_counts st |` (- dom (ig_buffer st))\<rparr>
               in ((if record_positions st then persist_batch batch st else []) @ [On_Positions batch], st))
         else ([], st))
      in (effects @ (if record_raw st then persist_raw_batch (ig_raw st) st else []), st\<lparr>ig_raw := []\<rparr>))"

datatype ingest_event =
    Received bytes instant
  | Lagged nat
  | Flush_Tick
  | Channel_Closed

fun ingest_run ::
  "((string \<rightharpoonup> aircraft_position) \<Rightarrow> string list) \<Rightarrow> ingest_event list \<Rightarrow> ingest
    \<Rightarrow> ingest_effect list \<times> ingest" where
  "ingest_run order [] st = ([], st)"
| "ingest_run order (Received data now # es) st =
     ingest_run order es (absorb data (st\<lparr>last_message_time := now\<rparr>))"
| "ingest_run order (Lagged n # es) st = ingest_run order es st"
| "ingest_run order (Flush_Tick # es) st =
     (let (out, st) = flush order st; (outs, st) = ingest_run order es st in (out @ outs, st))"
| "ingest_run order (Channel_Closed # es) st = flush order st"

subsection \<open>What merging computes\<close>

text \<open>The newest value that some message of a list carries, and the best-known state of an aircraft.\<close>

definition newest :: "('p \<Rightarrow> 'v option) \<Rightarrow> 'p list \<Rightarrow> 'v option" where
  "newest f ps = (case filter (\<lambda>p. f p \<noteq> None) ps of [] \<Rightarrow> None | qs \<Rightarrow> f (last qs))"

lemma newest_single [simp]: "newest f [p] = f p"
  by (simp add: newest_def)

lemma newest_snoc [simp]: "newest f (ps @ [p]) = opt_or (f p) (newest f ps)"
  by (auto simp: newest_def split: list.splits)

definition best_known :: "aircraft_position list \<Rightarrow> aircraft_position" where
  "best_known ps = \<lparr>hex_ident = hex_ident (hd ps),
     callsign = newest callsign ps, altitude = newest altitude ps,
     ground_speed = newest ground_speed ps, track = newest track ps,
     latitude = newest latitude ps, longitude = newest longitude ps,
     vertical_rate = newest vertical_rate ps, squawk = newest squawk ps,
     is_on_ground = newest is_on_ground ps, timestamp = timestamp (last ps),
     message_count = message_count (hd ps)\<rparr>"

definition of_hex :: "string \<Rightarrow> aircraft_position list \<Rightarrow> aircraft_position list" where
  "of_hex h ps = filter (\<lambda>p. hex_ident p = h) ps"

lemma best_known_single: "best_known [p] = p"
  by (simp add: best_known_def)

lemma best_known_snoc: "ps \<noteq> [] \<Longrightarrow> best_known (ps @ [p]) = merge_position p (best_known ps)"
  by (simp add: best_known_def merge_position_def)

lemma merged_buffer:
  "fold merge_into_buffer ps Map.empty h
   = (if of_hex h ps = [] then None else Some (best_known (of_hex h ps)))"
proof (induction ps rule: rev_induct)
  case (snoc p ps)
  then show ?case
    by (auto simp: merge_into_buffer_def of_hex_def best_known_single best_known_snoc split: option.splits)
qed (simp add: of_hex_def)

lemma bump_apply:
  "bump h c k = (if k = h then Some (Suc (case c h of Some n \<Rightarrow> n | None \<Rightarrow> 0)) else c k)"
  by (simp add: bump_def)

lemma bumped_counts:
  "fold (\<lambda>p. bump (hex_ident p)) ps Map.empty h
   = (if of_hex h ps = [] then None else Some (length (of_hex h ps)))"
proof (induction ps rule: rev_induct)
  case (snoc p ps)
  show ?case
  proof (cases "hex_ident p = h")
    case True
    have "of_hex h (ps @ [p]) = of_hex h ps @ [p]" using True by (simp add: of_hex_def)
    with snoc True show ?thesis by (simp add: bump_apply)
  next
    case False
    then have "of_hex h (ps @ [p]) = of_hex h ps" by (simp add: of_hex_def)
    with snoc False show ?thesis by (simp add: bump_apply)
  qed
qed (simp add: of_hex_def)

subsection \<open>What the pipeline reports\<close>

definition positions_of :: "bytes list \<Rightarrow> aircraft_position list" where
  "positions_of lines = List.map_filter (\<lambda>d. Option.bind (from_utf8 d) parse_sbs_message) lines"

definition window_map :: "aircraft_position list \<Rightarrow> (string \<rightharpoonup> aircraft_position)" where
  "window_map ps = (\<lambda>h. if of_hex h ps = [] then None else Some (best_known (of_hex h ps)))"

definition window_batch ::
  "((string \<rightharpoonup> aircraft_position) \<Rightarrow> string list) \<Rightarrow> aircraft_position list \<Rightarrow> aircraft_position list" where
  "window_batch order ps = List.map_filter
     (\<lambda>h. map_option (\<lambda>p. p\<lparr>message_count := length (of_hex h ps)\<rparr>) (window_map ps h))
     (order (window_map ps))"

fun flush_windows :: "bytes list \<Rightarrow> ingest_event list \<Rightarrow> bytes list list" where
  "flush_windows cur [] = []"
| "flush_windows cur (Received d now # es) = flush_windows (cur @ [d]) es"
| "flush_windows cur (Lagged n # es) = flush_windows cur es"
| "flush_windows cur (Flush_Tick # es) = cur # flush_windows [] es"
| "flush_windows cur (Channel_Closed # es) = [cur]"

fun sunk :: "ingest_effect list \<Rightarrow> aircraft_position list list" where
  "sunk [] = []"
| "sunk (On_Positions b # es) = b # sunk es"
| "sunk (_ # es) = sunk es"

fun inserted :: "ingest_effect list \<Rightarrow> aircraft_position list list" where
  "inserted [] = []"
| "inserted (Insert_Batch b tz # es) = b # inserted es"
| "inserted (_ # es) = inserted es"

lemma sunk_append [simp]: "sunk (xs @ ys) = sunk xs @ sunk ys"
  by (induction xs rule: sunk.induct) simp_all

lemma inserted_append [simp]: "inserted (xs @ ys) = inserted xs @ inserted ys"
  by (induction xs rule: inserted.induct) simp_all

definition buffering :: "aircraft_position list \<Rightarrow> ingest \<Rightarrow> bool" where
  "buffering ps st \<longleftrightarrow> ig_buffer st = fold merge_into_buffer ps Map.empty
     \<and> ig_counts st = fold (\<lambda>p. bump (hex_ident p)) ps Map.empty"

definition switches :: "ingest \<Rightarrow> bool \<times> bool \<times> bool \<times> ingest_config" where
  "switches st = (ig_storage st, record_positions st, record_raw st, ig_config st)"

lemma buffer_of: "buffering ps st \<Longrightarrow> ig_buffer st = window_map ps"
  by (auto simp: buffering_def window_map_def fun_eq_iff merged_buffer)

lemma window_map_empty: "window_map ps = Map.empty \<longleftrightarrow> ps = []"
proof
  show "window_map ps = Map.empty \<Longrightarrow> ps = []"
    by (cases ps) (auto simp: window_map_def of_hex_def fun_eq_iff split: if_splits)
qed (simp add: window_map_def of_hex_def fun_eq_iff)

lemma map_filter_snoc:
  "List.map_filter f (xs @ [x]) = List.map_filter f xs @ (case f x of None \<Rightarrow> [] | Some y \<Rightarrow> [y])"
  by (auto simp: List.map_filter_def split: option.split)

lemma absorb_buffering:
  assumes "buffering (positions_of cur) st"
  shows "buffering (positions_of (cur @ [d])) (absorb d (st\<lparr>last_message_time := now\<rparr>))"
    and "switches (absorb d (st\<lparr>last_message_time := now\<rparr>)) = switches st"
  using assms
  by (auto simp: buffering_def positions_of_def absorb_def map_filter_snoc switches_def
      Let_def split: option.splits bind_splits)

lemma flush_reports:
  assumes "buffering ps st"
  shows "sunk (fst (flush order st)) = (if ps = [] then [] else [window_batch order ps])"
    and "inserted (fst (flush order st))
       = (if ps \<noteq> [] \<and> record_positions st \<and> ig_storage st then [window_batch order ps] else [])"
    and "buffering [] (snd (flush order st))"
    and "switches (snd (flush order st)) = switches st"
proof -
  let ?raw = "if record_raw st then persist_raw_batch (ig_raw st) st else []"
  have raw: "sunk (persist_raw_batch r s) = []" "inserted (persist_raw_batch r s) = []" for r s
    by (simp_all add: persist_raw_batch_def)
  have map: "ig_buffer st = window_map ps" by (rule buffer_of [OF assms])
  have counts: "ig_counts st = (\<lambda>h. if of_hex h ps = [] then None else Some (length (of_hex h ps)))"
    using assms by (simp add: buffering_def fun_eq_iff bumped_counts)
  have batch: "List.map_filter (\<lambda>k. map_option
        (\<lambda>p. case ig_counts st k of Some c \<Rightarrow> p\<lparr>message_count := c\<rparr> | None \<Rightarrow> p)
        (ig_buffer st k)) (order (ig_buffer st)) = window_batch order ps"
    unfolding window_batch_def map
    by (rule arg_cong2 [where f = List.map_filter]) (auto simp: fun_eq_iff counts window_map_def)
  have rest: "ig_counts st |` (- dom (ig_buffer st)) = Map.empty"
    by (auto simp: map counts window_map_def restrict_map_def fun_eq_iff dom_def)
  show "sunk (fst (flush order st)) = (if ps = [] then [] else [window_batch order ps])"
    by (simp add: flush_def batch [unfolded map] Let_def persist_batch_def raw map window_map_empty)
  show "inserted (fst (flush order st))
       = (if ps \<noteq> [] \<and> record_positions st \<and> ig_storage st then [window_batch order ps] else [])"
    by (simp add: flush_def batch [unfolded map] Let_def persist_batch_def raw map window_map_empty)
  show "buffering [] (snd (flush order st))"
    using assms rest by (auto simp: flush_def Let_def buffering_def map window_map_empty)
  show "switches (snd (flush order st)) = switches st"
    by (simp add: flush_def Let_def switches_def)
qed

lemma run_reports:
  "buffering (positions_of cur) st \<Longrightarrow>
   sunk (fst (ingest_run order es st))
     = map (window_batch order) (filter (\<lambda>ps. ps \<noteq> []) (map positions_of (flush_windows cur es)))
   \<and> inserted (fst (ingest_run order es st))
     = (if record_positions st \<and> ig_storage st then sunk (fst (ingest_run order es st)) else [])"
proof (induction cur es arbitrary: st rule: flush_windows.induct)
  case (2 cur d now es)
  note step = absorb_buffering [OF "2.prems", of d now]
  from "2.IH" [OF step(1)] step(2) show ?case by (simp add: switches_def)
next
  case (4 cur es)
  note step = flush_reports [OF "4.prems", of order]
  have "buffering (positions_of []) (snd (flush order st))"
    using step(3) by (simp add: positions_of_def map_filter_simps)
  from "4.IH" [OF this] step show ?case
    by (simp add: case_prod_beta Let_def switches_def)
next
  case (5 cur es)
  from flush_reports [OF "5.prems", of order] show ?case by simp
qed simp_all

text \<open>C4: Every flush reports the best-known state. Whatever the lines and ticks, the batches handed to
  the sink are, window by window, one entry per aircraft heard in that window, each field the newest
  value any of its messages carried, with the time of its last message and the number of its
  messages; windows with no aircraft are skipped. The batches stored are the same ones, when
  positions are recorded and storage is attached.\<close>

theorem ingest_windows:
  "sunk (fst (ingest_run order es (ingest_new storage cfg now)))
     = map (window_batch order) (filter (\<lambda>ps. ps \<noteq> []) (map positions_of (flush_windows [] es)))
   \<and> inserted (fst (ingest_run order es (ingest_new storage cfg now)))
     = (if storage then sunk (fst (ingest_run order es (ingest_new storage cfg now))) else [])"
proof -
  have "buffering (positions_of []) (ingest_new storage cfg now)"
    by (simp add: buffering_def positions_of_def map_filter_simps ingest_new_def)
  from run_reports [OF this, of order es] show ?thesis by (simp add: ingest_new_def)
qed

subsection \<open>No message goes uncounted\<close>

definition enumerates :: "((string \<rightharpoonup> 'v) \<Rightarrow> string list) \<Rightarrow> bool" where
  "enumerates order \<longleftrightarrow> (\<forall>m. finite (dom m) \<longrightarrow> distinct (order m) \<and> set (order m) = dom m)"

lemma sum_of_hex:
  "finite H \<Longrightarrow> hex_ident ` set ps \<subseteq> H \<Longrightarrow> (\<Sum>h \<in> H. length (of_hex h ps)) = length ps"
proof (induction ps)
  case (Cons p ps)
  have "length (of_hex h (p # ps)) = (if h = hex_ident p then 1 else 0) + length (of_hex h ps)" for h
    by (simp add: of_hex_def)
  with Cons show ?case by (simp add: sum.distrib)
qed (simp add: of_hex_def)

lemma window_map_dom: "dom (window_map ps) = hex_ident ` set ps"
  by (auto simp: window_map_def of_hex_def dom_def filter_empty_conv split: if_splits)

lemma window_batch_counts:
  assumes "enumerates order"
  shows "sum_list (map message_count (window_batch order ps)) = length ps"
proof -
  let ?m = "window_map ps"
  have order: "distinct (order ?m)" "set (order ?m) = hex_ident ` set ps"
    using assms by (simp_all add: enumerates_def window_map_dom)
  have "map message_count (window_batch order ps) = map (\<lambda>h. length (of_hex h ps)) hs"
    if "set hs \<subseteq> hex_ident ` set ps" "hs = order ?m \<or> True"
      "window_batch order ps = List.map_filter
         (\<lambda>h. map_option (\<lambda>p. p\<lparr>message_count := length (of_hex h ps)\<rparr>) (?m h)) hs" for hs
    using that(1) unfolding that(3)
    by (induction hs) (auto simp: List.map_filter_def window_map_def of_hex_def filter_empty_conv)
  then have "map message_count (window_batch order ps) = map (\<lambda>h. length (of_hex h ps)) (order ?m)"
    using order by (simp add: window_batch_def)
  then show ?thesis
    using order sum_of_hex [of "hex_ident ` set ps" ps] by (simp add: sum_list_distinct_conv_sum_set)
qed

lemma absorb_parsed:
  "messages_parsed (absorb d st) = messages_parsed st + of_nat (length (positions_of [d]))"
  by (auto simp: absorb_def positions_of_def List.map_filter_def Let_def split: option.splits bind_splits)

lemma flush_parsed: "messages_parsed (snd (flush order st)) = messages_parsed st"
  by (simp add: flush_def Let_def)

lemma positions_of_snoc: "positions_of (cur @ [d]) = positions_of cur @ positions_of [d]"
  by (simp add: positions_of_def List.map_filter_def)

lemma run_parsed:
  "messages_parsed (snd (ingest_run order (es @ [Channel_Closed]) st)) + of_nat (length (positions_of cur))
   = messages_parsed st + of_nat (length (concat (map positions_of (flush_windows cur (es @ [Channel_Closed])))))"
proof (induction cur es arbitrary: st rule: flush_windows.induct)
  case (2 cur d now es)
  from "2.IH" [of "absorb d (st\<lparr>last_message_time := now\<rparr>)"] show ?case
    by (simp add: absorb_parsed positions_of_snoc algebra_simps)
next
  case (4 cur es)
  from "4.IH" [of "snd (flush order st)"] show ?case
    by (simp add: flush_parsed case_prod_beta Let_def positions_of_def List.map_filter_def algebra_simps)
qed (simp_all add: flush_parsed)

text \<open>No parsed message goes uncounted: when the channel closes, the counter of parsed messages is
  the sum of the message counts over all the entries of all the batches handed to the sink,
  whatever the order in which the hash map is drained.\<close>

theorem ingest_counts_add_up:
  assumes "enumerates order"
  shows "messages_parsed (snd (ingest_run order (es @ [Channel_Closed]) (ingest_new storage cfg now)))
       = of_nat (sum_list (map message_count (concat
           (sunk (fst (ingest_run order (es @ [Channel_Closed]) (ingest_new storage cfg now)))))))"
proof -
  let ?pss = "map positions_of (flush_windows [] (es @ [Channel_Closed]))"
  have "sum_list (map message_count (concat (map (window_batch order) (filter (\<lambda>ps. ps \<noteq> []) pss))))
      = length (concat pss)" for pss
    by (induction pss) (simp_all add: window_batch_counts [OF assms])
  then have "sum_list (map message_count (concat (sunk (fst (ingest_run order (es @ [Channel_Closed])
      (ingest_new storage cfg now)))))) = length (concat ?pss)"
    by (simp only: ingest_windows)
  with run_parsed [of order es "ingest_new storage cfg now" "[]"] show ?thesis
    by (simp add: ingest_new_def positions_of_def List.map_filter_def)
qed

lemma sorted_enumerates: "enumerates (\<lambda>m. sorted_list_of_set (dom m))"
  by (simp add: enumerates_def)

lemma position_line_utf8:
  "from_utf8 (join_with '','' position_fields) = Some (join_with '','' position_fields)"
  by (simp add: from_utf8_def position_fields_def)

theorem ingest_counts_add_up_witness:
  "of_nat (sum_list (map message_count (concat (sunk (fst (ingest_run (\<lambda>m. sorted_list_of_set (dom m))
     ([Received (join_with '','' position_fields) 5, Flush_Tick, Received ''STA'' 6] @ [Channel_Closed])
     (ingest_new True default_ingest_config 0))))))) = (1 :: u64)"
proof -
  obtain p where "parse_sbs_message (join_with '','' position_fields) = Some p"
    using position_line_parses by blast
  then have "length (positions_of [join_with '','' position_fields]) = 1"
    by (simp add: positions_of_def List.map_filter_def position_line_utf8)
  moreover have "length (positions_of [''STA'']) = 0"
    by (simp add: positions_of_def List.map_filter_def from_utf8_def parse_sbs_message_def fields_of_def)
  ultimately show ?thesis
    by (subst ingest_counts_add_up [OF sorted_enumerates, symmetric])
       (simp add: absorb_parsed flush_parsed case_prod_beta Let_def ingest_new_def)
qed

subsection \<open>The raw archive\<close>

fun archived :: "ingest_effect list \<Rightarrow> raw_sbs_record list" where
  "archived [] = []"
| "archived (Insert_Raw_Batch b tz # es) = b @ archived es"
| "archived (_ # es) = archived es"

lemma archived_append [simp]: "archived (xs @ ys) = archived xs @ archived ys"
  by (induction xs rule: archived.induct) simp_all

definition raws_of :: "ingest_config \<Rightarrow> bytes list \<Rightarrow> raw_sbs_record list" where
  "raws_of cfg lines = List.map_filter (\<lambda>d. Option.bind (from_utf8 d) (raw_record cfg)) lines"

lemma raws_of_snoc: "raws_of cfg (cur @ [d]) = raws_of cfg cur @ raws_of cfg [d]"
  by (simp add: raws_of_def List.map_filter_def)

lemma absorb_raw:
  "ig_raw (absorb d st) = ig_raw st @ raws_of (ig_config st) [d]"
  "switches (absorb d st) = switches st"
  by (auto simp: absorb_def raws_of_def List.map_filter_def Let_def switches_def
      split: option.splits bind_splits)

lemma flush_archives:
  "archived (fst (flush order st)) = (if record_raw st \<and> ig_storage st then ig_raw st else [])"
  "ig_raw (snd (flush order st)) = []"
  by (auto simp: flush_def Let_def persist_raw_batch_def persist_batch_def)

lemma run_archives:
  "ig_raw st = raws_of (ig_config st) cur \<Longrightarrow> record_raw st \<Longrightarrow> ig_storage st \<Longrightarrow>
   archived (fst (ingest_run order es st)) = raws_of (ig_config st) (concat (flush_windows cur es))"
proof (induction cur es arbitrary: st rule: flush_windows.induct)
  case (2 cur d now es)
  let ?st = "absorb d (st\<lparr>last_message_time := now\<rparr>)"
  have keep: "ig_config ?st = ig_config st" "record_raw ?st" "ig_storage ?st"
    using absorb_raw(2) [of d "st\<lparr>last_message_time := now\<rparr>"] "2.prems" by (simp_all add: switches_def)
  have "ig_raw ?st = raws_of (ig_config ?st) (cur @ [d])"
    unfolding keep(1) by (subst raws_of_snoc) (simp add: absorb_raw(1) "2.prems"(1))
  from "2.IH" [OF this keep(2,3)] keep(1) show ?case by simp
next
  case (4 cur es)
  let ?st = "snd (flush order st)"
  have keep: "ig_config ?st = ig_config st" "record_raw ?st" "ig_storage ?st"
    using "4.prems" by (simp_all add: flush_def Let_def)
  have nil: "ig_raw ?st = raws_of (ig_config ?st) []"
    by (simp add: flush_archives(2) raws_of_def List.map_filter_def)
  have app: "raws_of cfg (xs @ ys) = raws_of cfg xs @ raws_of cfg ys" for cfg xs ys
    by (simp add: raws_of_def List.map_filter_def)
  from "4.IH" [OF nil keep(2,3)] keep(1) "4.prems" show ?case
    by (simp add: case_prod_beta Let_def flush_archives(1) app)
qed (simp_all add: flush_archives(1), simp add: raws_of_def List.map_filter_def)

lemma raw_record_parses:
  "raw_record cfg line = Some r \<Longrightarrow>
   raw_message r = line \<and> (\<exists>p. parse_sbs_message line = Some p \<and> hex_ident p = raw_hex_ident r
     \<and> timestamp p = raw_timestamp r)"
proof -
  assume r: "raw_record cfg line = Some r"
  then obtain hex m t ts where raw: "parse_sbs_raw_fields line = Some (hex, m, t)"
    and ts: "extract_sbs_timestamp line = Some ts"
    and rec: "raw_hex_ident r = hex" "raw_timestamp r = ts" "raw_message r = line"
    by (auto simp: raw_record_def split: option.splits)
  from raw obtain p where p: "parse_sbs_message line = Some p"
    using raw_fields_iff_message [of line] by auto
  from raw_fields_hex [OF raw p] timestamp_agrees [OF ts p] rec p show ?thesis by auto
qed

text \<open>What the raw archive holds. With raw recording on and storage attached, the archive gets the
  raw record of every line received, in order. But a line that does not parse as a position has no
  raw record: every archived line parses as a position, of the same aircraft and time, so the
  archive recovers nothing that position parsing rejected.\<close>

theorem raw_archive_content:
  "archived (fst (ingest_run order es (ingest_new True cfg now))) = raws_of cfg (concat (flush_windows [] es))
   \<and> filter (\<lambda>r. parse_sbs_message (raw_message r) = None)
       (archived (fst (ingest_run order es (ingest_new True cfg now)))) = []"
proof -
  have all: "archived (fst (ingest_run order es (ingest_new True cfg now))) = raws_of cfg (concat (flush_windows [] es))"
    using run_archives [of "ingest_new True cfg now" "[]" order es]
    by (simp add: ingest_new_def raws_of_def List.map_filter_def)
  have "parse_sbs_message (raw_message r) \<noteq> None" if "r \<in> set (raws_of cfg lines)" for r lines
    using that raw_record_parses [of cfg]
    by (fastforce simp: raws_of_def List.map_filter_def bind_eq_Some_conv)
  with all show ?thesis by (simp add: filter_empty_conv)
qed

end
