(* ===== verification/Flights.thy ===== *)
theory Flights imports Ingest begin

text \<open>
  The write path of \<open>adsb-data-engine/src/storage.rs\<close>: positions and raw messages are appended, and
  each position either extends the active flight of its aircraft or starts a new one. The tables
  are lists of rows; the effect of an SQL statement is written out as the function it computes on
  them. The instant that \<open>parse_timestamp_to_ms\<close> gives a row comes with the row; \<open>Timestamps\<close> says
  which instant that is.
\<close>

datatype storage_error = DuckDb string | Query_Error string | Io_Error string

record position_row =
  pr_hex :: string
  pr_callsign :: "string option"
  pr_latitude :: "f64 option"
  pr_longitude :: "f64 option"
  pr_altitude :: "f64 option"
  pr_ground_speed :: "f64 option"
  pr_track :: "f64 option"
  pr_vertical_rate :: "f64 option"
  pr_squawk :: "string option"
  pr_on_ground :: "bool option"
  pr_ts :: int
  pr_source :: string

record raw_row =
  rr_hex :: string
  rr_msg_type :: string
  rr_transmission_type :: "nat option"
  rr_ts :: int
  rr_message :: string
  rr_source :: string

record flight =
  fl_id :: string
  fl_hex :: string
  fl_num :: nat
  fl_callsign :: "string option"
  fl_count :: nat
  fl_first :: int
  fl_last :: int
  fl_min :: "f64 option"
  fl_max :: "f64 option"

record active_flight =
  af_id :: string
  af_num :: nat
  af_last :: int

record storage =
  st_positions :: "position_row list"
  st_raw :: "raw_row list"
  st_flights :: "flight list"
  st_source_id :: string
  st_gap :: int
  st_tracker :: "string \<rightharpoonup> active_flight"

definition storage_empty :: "string \<Rightarrow> int \<Rightarrow> storage" where
  "storage_empty source_id gap = \<lparr>st_positions = [], st_raw = [], st_flights = [],
     st_source_id = source_id, st_gap = gap, st_tracker = Map.empty\<rparr>"

subsection \<open>Inserting a batch\<close>

definition position_row_of :: "string \<Rightarrow> aircraft_position \<times> int \<Rightarrow> position_row" where
  "position_row_of source = (\<lambda>(p, ts).
     \<lparr>pr_hex = hex_ident p, pr_callsign = callsign p, pr_latitude = latitude p,
      pr_longitude = longitude p, pr_altitude = altitude p, pr_ground_speed = ground_speed p,
      pr_track = track p, pr_vertical_rate = vertical_rate p, pr_squawk = squawk p,
      pr_on_ground = is_on_ground p, pr_ts = ts, pr_source = source\<rparr>)"

record flight_update =
  fu_count :: nat
  fu_callsign :: "string option"
  fu_max_ts :: int
  fu_min :: "f64 option"
  fu_max :: "f64 option"

definition flight_key :: "string \<Rightarrow> nat \<Rightarrow> string" where
  "flight_key hex num = hex @ ''_'' @ nat_str num"

definition fresh_update :: "aircraft_position \<Rightarrow> int \<Rightarrow> flight_update" where
  "fresh_update p ts = \<lparr>fu_count = 1, fu_callsign = callsign p, fu_max_ts = ts,
     fu_min = altitude p, fu_max = altitude p\<rparr>"

definition merge_update :: "aircraft_position \<Rightarrow> int \<Rightarrow> flight_update \<Rightarrow> flight_update" where
  "merge_update p ts agg = agg\<lparr>
     fu_count := fu_count agg + 1,
     fu_max_ts := max (fu_max_ts agg) ts,
     fu_min := (case altitude p of None \<Rightarrow> fu_min agg
                | Some alt \<Rightarrow> Some (case fu_min agg of None \<Rightarrow> alt | Some m \<Rightarrow> f64_min m alt)),
     fu_max := (case altitude p of None \<Rightarrow> fu_max agg
                | Some alt \<Rightarrow> Some (case fu_max agg of None \<Rightarrow> alt | Some m \<Rightarrow> f64_max m alt)),
     fu_callsign := (if callsign p \<noteq> None then callsign p else fu_callsign agg)\<rparr>"

type_synonym assignment = "(string \<rightharpoonup> active_flight) \<times> flight list \<times> (string \<rightharpoonup> flight_update)"

definition new_flight :: "string \<Rightarrow> nat \<Rightarrow> aircraft_position \<Rightarrow> int \<Rightarrow> flight" where
  "new_flight hex num p ts = \<lparr>fl_id = flight_key hex num, fl_hex = hex, fl_num = num,
     fl_callsign = callsign p, fl_count = 1, fl_first = ts, fl_last = ts,
     fl_min = altitude p, fl_max = altitude p\<rparr>"

text \<open>One round of the loop that sorts positions into new flights and updates of known ones.\<close>

definition assign_flight :: "int \<Rightarrow> aircraft_position \<times> int \<Rightarrow> assignment \<Rightarrow> assignment" where
  "assign_flight gap = (\<lambda>(p, ts) (tracker, inserts, updates).
     let hex = hex_ident p;
         start = (\<lambda>num. (tracker(hex \<mapsto> \<lparr>af_id = flight_key hex num, af_num = num, af_last = ts\<rparr>),
                         inserts @ [new_flight hex num p ts], updates))
     in case tracker hex of
          Some active \<Rightarrow>
            if ts - af_last active \<le> gap
            then (tracker(hex \<mapsto> active\<lparr>af_last := ts\<rparr>), inserts,
                  updates(af_id active \<mapsto> (case updates (af_id active) of
                      Some agg \<Rightarrow> merge_update p ts agg | None \<Rightarrow> fresh_update p ts)))
            else start (af_num active + 1)
        | None \<Rightarrow> start 0)"

text \<open>
  \<open>INSERT\<close>, one row at a time: the primary key refuses a flight id that is already there, and the
  rows before it stay.
\<close>

fun insert_flights :: "flight list \<Rightarrow> flight list \<Rightarrow> bool \<times> flight list" where
  "insert_flights [] rows = (True, rows)"
| "insert_flights (f # fs) rows =
     (if list_ex (\<lambda>r. fl_id r = fl_id f) rows then (False, rows) else insert_flights fs (rows @ [f]))"

text \<open>\<open>LEAST\<close> and \<open>GREATEST\<close> skip NULLs; on doubles they order NaN above everything.\<close>

definition sql_least :: "f64 option \<Rightarrow> f64 option \<Rightarrow> f64 option" where
  "sql_least x y = (case (x, y) of (Some a, Some b) \<Rightarrow> Some (min a b) | _ \<Rightarrow> opt_or x y)"

definition sql_greatest :: "f64 option \<Rightarrow> f64 option \<Rightarrow> f64 option" where
  "sql_greatest x y = (case (x, y) of (Some a, Some b) \<Rightarrow> Some (max a b) | _ \<Rightarrow> opt_or x y)"

definition update_flight :: "(string \<rightharpoonup> flight_update) \<Rightarrow> flight \<Rightarrow> flight" where
  "update_flight updates r = (case updates (fl_id r) of
      None \<Rightarrow> r
    | Some u \<Rightarrow> r\<lparr>fl_last := max (fl_last r) (fu_max_ts u),
        fl_count := fl_count r + fu_count u,
        fl_callsign := opt_or (fu_callsign u) (fl_callsign r),
        fl_min := sql_least (opt_or (fl_min r) (fu_min u)) (opt_or (fu_min u) (fl_min r)),
        fl_max := sql_greatest (opt_or (fl_max r) (fu_max u)) (opt_or (fu_max u) (fl_max r))\<rparr>)"

definition insert_batch ::
  "(aircraft_position \<times> int) list \<Rightarrow> storage \<Rightarrow> (storage_error + unit) \<times> storage" where
  "insert_batch batch st =
     (if batch = [] then (Inr (), st)
      else (let st = st\<lparr>st_positions := st_positions st @ map (position_row_of (st_source_id st)) batch\<rparr>;
                (tracker, inserts, updates) =
                  fold (assign_flight (st_gap st)) batch (st_tracker st, [], Map.empty);
                st = st\<lparr>st_tracker := tracker\<rparr>;
                (ok, flights) = insert_flights inserts (st_flights st);
                st = st\<lparr>st_flights := flights\<rparr>
            in if \<not> ok then (Inl (DuckDb ''Constraint Error''), st)
               else (Inr (), st\<lparr>st_flights := map (update_flight updates) (st_flights st)\<rparr>)))"

subsection \<open>The tracker after a restart\<close>

text \<open>The flights whose number is the highest of their aircraft, one entry each.\<close>

definition latest_flight :: "flight list \<Rightarrow> flight \<Rightarrow> bool" where
  "latest_flight rows f = list_all (\<lambda>r. fl_hex r = fl_hex f \<longrightarrow> fl_num r \<le> fl_num f) rows"

definition rebuild_flight_tracker :: "storage \<Rightarrow> storage" where
  "rebuild_flight_tracker st = st\<lparr>st_tracker :=
     fold (\<lambda>f t. t(fl_hex f \<mapsto> \<lparr>af_id = fl_id f, af_num = fl_num f, af_last = fl_last f\<rparr>))
       (filter (latest_flight (st_flights st)) (st_flights st)) Map.empty\<rparr>"

subsection \<open>Flight keys\<close>

lemma flight_key_inject [simp]: "flight_key h m = flight_key h' n \<longleftrightarrow> h = h' \<and> m = n"
proof
  assume eq: "flight_key h m = flight_key h' n"
  have no_sep: "CHR ''_'' \<notin> set (nat_str k)" for k
    using list_all_digit_nat_str [of k] by (auto simp: list_all_iff is_digit_def)
  from eq have "rev (nat_str m) @ CHR ''_'' # rev h = rev (nat_str n) @ CHR ''_'' # rev h'"
    by (metis append.assoc append_Cons append_Nil flight_key_def rev.simps(2) rev_append)
  moreover have "takeWhile (\<lambda>c. c \<noteq> CHR ''_'') (rev (nat_str k) @ CHR ''_'' # x) = rev (nat_str k)" for k x
    using no_sep [of k] by (subst takeWhile_append2) auto
  ultimately have "rev (nat_str m) = rev (nat_str n)" by metis
  then have mn: "m = n" by simp
  with eq show "h = h' \<and> m = n" by (simp add: flight_key_def)
qed simp

subsection \<open>Positions one at a time\<close>

text \<open>
  What a batch should mean: each position in turn either extends the active flight of its
  aircraft, updating that row, or starts the next one.
\<close>

definition touch :: "aircraft_position \<Rightarrow> int \<Rightarrow> flight \<Rightarrow> flight" where
  "touch p ts = update_flight (\<lambda>_. Some (fresh_update p ts))"

definition ingest_one ::
  "int \<Rightarrow> aircraft_position \<times> int \<Rightarrow> (string \<rightharpoonup> active_flight) \<times> flight list
    \<Rightarrow> (string \<rightharpoonup> active_flight) \<times> flight list" where
  "ingest_one gap = (\<lambda>(p, ts) (tracker, rows).
     let hex = hex_ident p;
         start = (\<lambda>num. (tracker(hex \<mapsto> \<lparr>af_id = flight_key hex num, af_num = num, af_last = ts\<rparr>),
                         rows @ [new_flight hex num p ts]))
     in case tracker hex of
          Some active \<Rightarrow>
            if ts - af_last active \<le> gap
            then (tracker(hex \<mapsto> active\<lparr>af_last := ts\<rparr>),
                  map (\<lambda>r. if fl_id r = af_id active then touch p ts r else r) rows)
            else start (af_num active + 1)
        | None \<Rightarrow> start 0)"

text \<open>The tracker and the table agree: the tracker knows the highest flight of each aircraft.\<close>

definition tracks :: "(string \<rightharpoonup> active_flight) \<Rightarrow> flight list \<Rightarrow> bool" where
  "tracks t rows \<longleftrightarrow> distinct (map fl_id rows)
     \<and> (\<forall>r \<in> set rows. fl_id r = flight_key (fl_hex r) (fl_num r)
          \<and> (\<exists>a. t (fl_hex r) = Some a \<and> fl_num r \<le> af_num a))
     \<and> (\<forall>h a. t h = Some a \<longrightarrow> af_id a = flight_key h (af_num a) \<and> (\<exists>r \<in> set rows. fl_id r = af_id a))"

lemma update_flight_key [simp]:
  "fl_id (update_flight u r) = fl_id r" "fl_hex (update_flight u r) = fl_hex r"
  "fl_num (update_flight u r) = fl_num r" "fl_first (update_flight u r) = fl_first r"
  by (simp_all add: update_flight_def split: option.split)

lemma touch_key [simp]:
  "fl_id (touch p ts r) = fl_id r" "fl_hex (touch p ts r) = fl_hex r" "fl_num (touch p ts r) = fl_num r"
  "fl_first (touch p ts r) = fl_first r"
  by (simp_all add: touch_def)

lemma tracks_same_keys':
  assumes keys: "map (\<lambda>r. (fl_id r, fl_hex r, fl_num r)) rows' = map (\<lambda>r. (fl_id r, fl_hex r, fl_num r)) rows"
    and "tracks t rows"
  shows "tracks t rows'"
proof -
  let ?key = "\<lambda>r. (fl_id r, fl_hex r, fl_num r)"
  have ids: "map fl_id rows' = map fl_id rows"
    using arg_cong [OF keys, of "map fst"] by (simp add: comp_def)
  have sets: "?key ` set rows' = ?key ` set rows"
    using arg_cong [OF keys, of set] by simp
  have there: "\<exists>r \<in> set rows. fl_id r = fl_id r' \<and> fl_hex r = fl_hex r' \<and> fl_num r = fl_num r'"
    if "r' \<in> set rows'" for r'
  proof -
    have "?key r' \<in> ?key ` set rows" using that sets by blast
    then show ?thesis by force
  qed
  have forth: "\<exists>r' \<in> set rows'. fl_id r' = fl_id r" if "r \<in> set rows" for r
  proof -
    have "fl_id r \<in> set (map fl_id rows')" using that by (simp add: ids)
    then show ?thesis by force
  qed
  show ?thesis
    unfolding tracks_def
  proof (intro conjI)
    show "distinct (map fl_id rows')" using assms(2) by (simp add: ids tracks_def)
    show "\<forall>r \<in> set rows'. fl_id r = flight_key (fl_hex r) (fl_num r)
        \<and> (\<exists>a. t (fl_hex r) = Some a \<and> fl_num r \<le> af_num a)"
      using assms(2) there by (metis tracks_def)
    show "\<forall>h a. t h = Some a \<longrightarrow> af_id a = flight_key h (af_num a) \<and> (\<exists>r \<in> set rows'. fl_id r = af_id a)"
      using assms(2) forth by (metis tracks_def)
  qed
qed

lemma tracks_same_keys:
  "map (\<lambda>r. (fl_id r, fl_hex r, fl_num r)) rows' = map (\<lambda>r. (fl_id r, fl_hex r, fl_num r)) rows \<Longrightarrow>
   tracks t rows' = tracks t rows"
  using tracks_same_keys' [of rows' rows t] tracks_same_keys' [of rows rows' t] by auto

lemma fresh_key:
  assumes "tracks t rows" and "\<And>a. t h = Some a \<Longrightarrow> af_num a < n"
  shows "flight_key h n \<notin> fl_id ` set rows"
proof
  assume "flight_key h n \<in> fl_id ` set rows"
  then obtain r where r: "r \<in> set rows" "fl_id r = flight_key h n" by auto
  with assms(1) obtain a where "fl_hex r = h" "fl_num r = n" "t h = Some a" "n \<le> af_num a"
    by (auto simp: tracks_def)
  with assms(2) [of a] show False by simp
qed

lemma tracks_start:
  assumes "tracks t rows" and "\<And>a. t h = Some a \<Longrightarrow> af_num a < n"
  shows "tracks (t(h \<mapsto> \<lparr>af_id = flight_key h n, af_num = n, af_last = ts\<rparr>)) (rows @ [new_flight h n p ts])"
  using assms(1) fresh_key [OF assms] assms(2)
  by (fastforce simp: tracks_def new_flight_def)

lemma tracks_extend:
  assumes "tracks t rows" and "t h = Some a"
  shows "tracks (t(h \<mapsto> a\<lparr>af_last := ts\<rparr>)) rows"
  using assms by (fastforce simp: tracks_def)

lemma tracks_ingest_one:
  assumes "tracks t rows" and "ingest_one gap pt (t, rows) = (t', rows')"
  shows "tracks t' rows'"
proof -
  obtain p ts where pt: "pt = (p, ts)" by fastforce
  let ?h = "hex_ident p"
  have map_keys: "tracks u (map (\<lambda>r. if fl_id r = i then touch p ts r else r) rows) = tracks u rows" for u i
    by (rule tracks_same_keys) (simp add: comp_def)
  show ?thesis
  proof (cases "t ?h")
    case None
    with assms tracks_start [OF assms(1), of ?h 0 ts p] show ?thesis by (auto simp: ingest_one_def pt Let_def)
  next
    case (Some a)
    with assms tracks_start [OF assms(1), of ?h "Suc (af_num a)" ts p] tracks_extend [OF assms(1) Some, of ts]
    show ?thesis by (auto simp: ingest_one_def pt Let_def map_keys split: if_splits)
  qed
qed

lemma tracks_ingest_all: "tracks t rows \<Longrightarrow> fold (ingest_one gap) pts (t, rows) = (t', rows') \<Longrightarrow> tracks t' rows'"
proof (induction pts arbitrary: t rows)
  case (Cons pt pts)
  obtain t1 rows1 where "ingest_one gap pt (t, rows) = (t1, rows1)" by fastforce
  with Cons tracks_ingest_one [OF Cons.prems(1) this] show ?case by simp
qed simp

subsection \<open>A batch is its positions one at a time\<close>

definition no_nan_alt :: "aircraft_position \<times> int \<Rightarrow> bool" where
  "no_nan_alt pt \<longleftrightarrow> altitude (fst pt) \<noteq> Some F_nan"

definition no_nan_updates :: "(string \<rightharpoonup> flight_update) \<Rightarrow> bool" where
  "no_nan_updates u \<longleftrightarrow> (\<forall>i a. u i = Some a \<longrightarrow> fu_min a \<noteq> Some F_nan \<and> fu_max a \<noteq> Some F_nan)"

definition col_min :: "f64 option \<Rightarrow> f64 option \<Rightarrow> f64 option" where
  "col_min x y = (case x of None \<Rightarrow> y | Some a \<Rightarrow> (case y of None \<Rightarrow> Some a | Some b \<Rightarrow> Some (min a b)))"

definition col_max :: "f64 option \<Rightarrow> f64 option \<Rightarrow> f64 option" where
  "col_max x y = (case x of None \<Rightarrow> y | Some a \<Rightarrow> (case y of None \<Rightarrow> Some a | Some b \<Rightarrow> Some (max a b)))"

lemma sql_least_coalesced: "sql_least (opt_or x y) (opt_or y x) = col_min x y"
  by (cases x; cases y) (simp_all add: sql_least_def col_min_def)

lemma sql_greatest_coalesced: "sql_greatest (opt_or x y) (opt_or y x) = col_max x y"
  by (cases x; cases y) (simp_all add: sql_greatest_def col_max_def)

lemma col_min_merged:
  "x \<noteq> Some F_nan \<Longrightarrow> m \<noteq> Some F_nan \<Longrightarrow>
   col_min a (case x of None \<Rightarrow> m | Some alt \<Rightarrow> Some (case m of None \<Rightarrow> alt | Some b \<Rightarrow> f64_min b alt))
   = col_min (col_min a m) x"
  by (cases x; cases m; cases a) (simp_all add: col_min_def f64_min_eq min.assoc)

lemma col_max_merged:
  "x \<noteq> Some F_nan \<Longrightarrow> m \<noteq> Some F_nan \<Longrightarrow>
   col_max a (case x of None \<Rightarrow> m | Some alt \<Rightarrow> Some (case m of None \<Rightarrow> alt | Some b \<Rightarrow> f64_max b alt))
   = col_max (col_max a m) x"
  by (cases x; cases m; cases a) (simp_all add: col_max_def f64_max_eq max.assoc)

lemma touch_merged:
  assumes "altitude p \<noteq> Some F_nan" and "fu_min g \<noteq> Some F_nan" and "fu_max g \<noteq> Some F_nan"
  shows "update_flight (\<lambda>_. Some (merge_update p ts g)) r = touch p ts (update_flight (\<lambda>_. Some g) r)"
proof -
  show ?thesis
    unfolding touch_def update_flight_def option.case sql_least_coalesced sql_greatest_coalesced
    by (cases "callsign p")
       (simp_all add: fresh_update_def merge_update_def col_min_merged [OF assms(1,2)]
         col_max_merged [OF assms(1,3)] max.assoc)
qed

lemma merged_no_nan:
  assumes "altitude p \<noteq> Some F_nan" and "fu_min g \<noteq> Some F_nan" and "fu_max g \<noteq> Some F_nan"
  shows "fu_min (merge_update p ts g) \<noteq> Some F_nan" and "fu_max (merge_update p ts g) \<noteq> Some F_nan"
  using assms
  by (auto simp: merge_update_def f64_min_def f64_max_def split: option.splits)

definition plan :: "aircraft_position \<Rightarrow> int \<Rightarrow> flight_update option \<Rightarrow> flight_update" where
  "plan p ts u = (case u of Some g \<Rightarrow> merge_update p ts g | None \<Rightarrow> fresh_update p ts)"

lemma update_planned:
  assumes "altitude p \<noteq> Some F_nan" and "no_nan_updates u"
  shows "update_flight (u(i \<mapsto> plan p ts (u i))) r
       = (if fl_id r = i then touch p ts (update_flight u r) else update_flight u r)"
proof (cases "fl_id r = i")
  case True
  show ?thesis
  proof (cases "u i")
    case None
    with True show ?thesis by (simp add: update_flight_def touch_def plan_def)
  next
    case (Some g)
    with assms(2) have "fu_min g \<noteq> Some F_nan" "fu_max g \<noteq> Some F_nan"
      by (auto simp: no_nan_updates_def)
    from touch_merged [OF assms(1) this, of ts r] Some True show ?thesis
      by (simp add: update_flight_def plan_def)
  qed
qed (simp add: update_flight_def)

lemma no_nan_planned:
  assumes "altitude p \<noteq> Some F_nan" and "no_nan_updates u"
  shows "no_nan_updates (u(i \<mapsto> plan p ts (u i)))"
proof -
  have "fu_min (plan p ts (u i)) \<noteq> Some F_nan \<and> fu_max (plan p ts (u i)) \<noteq> Some F_nan"
  proof (cases "u i")
    case None
    with assms(1) show ?thesis by (simp add: plan_def fresh_update_def)
  next
    case (Some g)
    with assms(2) have "fu_min g \<noteq> Some F_nan" "fu_max g \<noteq> Some F_nan"
      by (auto simp: no_nan_updates_def)
    from merged_no_nan [OF assms(1) this] Some show ?thesis by (simp add: plan_def)
  qed
  with assms(2) show ?thesis by (auto simp: no_nan_updates_def)
qed

lemma update_unknown: "u (fl_id r) = None \<Longrightarrow> update_flight u r = r"
  by (simp add: update_flight_def)

lemma tracks_updated: "tracks t (map (update_flight u) rows) = tracks t rows"
  by (rule tracks_same_keys) (simp add: comp_def)

definition in_step :: "flight list \<Rightarrow> assignment \<Rightarrow> bool" where
  "in_step rows = (\<lambda>(t, ins, u). tracks t (rows @ ins) \<and> no_nan_updates u
     \<and> dom u \<subseteq> fl_id ` set (rows @ ins))"

definition committed :: "flight list \<Rightarrow> assignment \<Rightarrow> (string \<rightharpoonup> active_flight) \<times> flight list" where
  "committed rows = (\<lambda>(t, ins, u). (t, map (update_flight u) (rows @ ins)))"

lemma start_in_step:
  assumes "in_step rows (t, ins, u)" and "\<And>a. t h = Some a \<Longrightarrow> af_num a < n"
  shows "in_step rows (t(h \<mapsto> \<lparr>af_id = flight_key h n, af_num = n, af_last = ts\<rparr>), ins @ [new_flight h n p ts], u)"
    and "map (update_flight u) (rows @ ins @ [new_flight h n p ts])
       = map (update_flight u) (rows @ ins) @ [new_flight h n p ts]"
proof -
  from assms(1) have tr: "tracks t (rows @ ins)" and dom: "dom u \<subseteq> fl_id ` set (rows @ ins)"
    and nan: "no_nan_updates u" by (simp_all add: in_step_def)
  have fresh: "flight_key h n \<notin> fl_id ` set (rows @ ins)" by (rule fresh_key [OF tr assms(2)])
  have "tracks (t(h \<mapsto> \<lparr>af_id = flight_key h n, af_num = n, af_last = ts\<rparr>)) ((rows @ ins) @ [new_flight h n p ts])"
    by (rule tracks_start [OF tr assms(2)])
  with dom nan show "in_step rows
      (t(h \<mapsto> \<lparr>af_id = flight_key h n, af_num = n, af_last = ts\<rparr>), ins @ [new_flight h n p ts], u)"
    by (auto simp: in_step_def)
  have "u (fl_id (new_flight h n p ts)) = None"
    using fresh dom by (auto simp: new_flight_def dom_def)
  then show "map (update_flight u) (rows @ ins @ [new_flight h n p ts])
       = map (update_flight u) (rows @ ins) @ [new_flight h n p ts]"
    by (simp add: update_unknown)
qed

lemma assign_is_ingest:
  assumes s: "in_step rows a" and nan: "no_nan_alt pt"
  shows "committed rows (assign_flight gap pt a) = ingest_one gap pt (committed rows a)
       \<and> in_step rows (assign_flight gap pt a)"
proof -
  obtain p ts where pt: "pt = (p, ts)" by fastforce
  obtain t ins u where a: "a = (t, ins, u)" by (cases a)
  let ?h = "hex_ident p"
  from s a have step: "in_step rows (t, ins, u)" by simp
  have alt: "altitude p \<noteq> Some F_nan" using nan by (simp add: no_nan_alt_def pt)
  show ?thesis
  proof (cases "t ?h")
    case None
    from start_in_step [OF step, where h = ?h and n = 0 and ts = ts and p = p] None show ?thesis
      by (simp add: assign_flight_def ingest_one_def committed_def pt a Let_def)
  next
    case (Some f)
    show ?thesis
    proof (cases "ts - af_last f \<le> gap")
      case False
      from start_in_step [OF step, where h = ?h and n = "Suc (af_num f)" and ts = ts and p = p] Some False show ?thesis
        by (simp add: assign_flight_def ingest_one_def committed_def pt a Let_def)
    next
      case True
      let ?u = "u(af_id f \<mapsto> plan p ts (u (af_id f)))" and ?t = "t(?h \<mapsto> f\<lparr>af_last := ts\<rparr>)"
      let ?touch = "\<lambda>r. if fl_id r = af_id f then touch p ts r else r"
      have eq: "assign_flight gap pt a = (?t, ins, ?u)"
        using Some True by (simp add: assign_flight_def pt a Let_def plan_def)
      from step have no: "no_nan_updates u" and tr: "tracks t (rows @ ins)"
        and dom: "dom u \<subseteq> fl_id ` set (rows @ ins)" by (simp_all only: in_step_def prod.case)
      have "update_flight ?u = ?touch \<circ> update_flight u"
        by (rule ext) (simp only: update_planned [OF alt no] update_flight_key comp_apply)
      then have "map (update_flight ?u) (rows @ ins) = map ?touch (map (update_flight u) (rows @ ins))"
        by (simp only: map_map)
      moreover have "ingest_one gap pt (t, rs) = (?t, map ?touch rs)" for rs
        using Some True by (simp only: ingest_one_def pt Let_def prod.case option.case if_True)
      ultimately have com: "committed rows (?t, ins, ?u) = ingest_one gap pt (committed rows a)"
        by (simp only: committed_def a prod.case)
      have "tracks ?t (rows @ ins)" by (rule tracks_extend [OF tr Some])
      moreover have "af_id f \<in> fl_id ` set (rows @ ins)"
        using tr Some unfolding tracks_def by (metis image_eqI)
      then have "dom ?u \<subseteq> fl_id ` set (rows @ ins)" using dom by (simp add: dom_def) blast
      ultimately have "in_step rows (?t, ins, ?u)"
        using no_nan_planned [OF alt no] by (simp only: in_step_def prod.case)
      with com eq show ?thesis by (simp only:)
    qed
  qed
qed

lemma assign_all:
  "in_step rows a \<Longrightarrow> list_all no_nan_alt pts \<Longrightarrow>
   committed rows (fold (assign_flight gap) pts a) = fold (ingest_one gap) pts (committed rows a)
   \<and> in_step rows (fold (assign_flight gap) pts a)"
proof (induction pts arbitrary: a)
  case (Cons pt pts)
  then have pt: "no_nan_alt pt" and rest: "list_all no_nan_alt pts" by simp_all
  from assign_is_ingest [OF Cons.prems(1) pt, of gap] have
    c: "committed rows (assign_flight gap pt a) = ingest_one gap pt (committed rows a)"
    and s: "in_step rows (assign_flight gap pt a)" by simp_all
  from Cons.IH [OF s rest] c show ?case by simp
qed simp

lemma insert_flights_fresh:
  "distinct (map fl_id (rows @ ins)) \<Longrightarrow> insert_flights ins rows = (True, rows @ ins)"
proof (induction ins arbitrary: rows)
  case (Cons f ins)
  then have "fl_id f \<notin> fl_id ` set rows" by auto
  then have "\<not> list_ex (\<lambda>r. fl_id r = fl_id f) rows"
    unfolding list_ex_iff by (metis image_eqI)
  with Cons.IH [of "rows @ [f]"] Cons.prems show ?case by simp
qed simp

lemma insert_batch_is_fold:
  assumes tr: "tracks (st_tracker st) (st_flights st)" and nan: "list_all no_nan_alt batch"
    and run: "fold (ingest_one (st_gap st)) batch (st_tracker st, st_flights st) = (t', rows')"
  shows "insert_batch batch st = (Inr (), st\<lparr>
     st_positions := st_positions st @ map (position_row_of (st_source_id st)) batch,
     st_tracker := t', st_flights := rows'\<rparr>)"
proof (cases "batch = []")
  case True
  with run show ?thesis by (simp add: insert_batch_def)
next
  case False
  obtain t ins u where asg: "fold (assign_flight (st_gap st)) batch (st_tracker st, [], Map.empty) = (t, ins, u)"
    using prod_cases3 by blast
  have start: "in_step (st_flights st) (st_tracker st, [], Map.empty)"
    using tr by (simp add: in_step_def no_nan_updates_def)
  have base: "committed (st_flights st) (st_tracker st, [], Map.empty) = (st_tracker st, st_flights st)"
    by (simp add: committed_def update_unknown map_idI)
  from assign_all [OF start nan, of "st_gap st"] run asg base
  have com: "committed (st_flights st) (t, ins, u) = (t', rows')" and "in_step (st_flights st) (t, ins, u)"
    by simp_all
  then have "distinct (map fl_id (st_flights st @ ins))"
    by (simp only: in_step_def tracks_def prod.case)
  from insert_flights_fresh [OF this] False asg com show ?thesis
    by (simp add: insert_batch_def Let_def committed_def)
qed

text \<open>C2: A batch means its positions one at a time. Whatever the batch mixes, several aircraft, several
  flights of one aircraft, positions of a flight the same batch starts: the aggregated update of each
  flight leaves the tables and the tracker exactly as inserting the positions one by one would,
  and the insert succeeds. (Altitudes that are not NaN: the aggregation skips a NaN that the
  database's GREATEST would keep.)\<close>

theorem batch_insert_equals_singles:
  assumes "tracks (st_tracker st) (st_flights st)" and "list_all no_nan_alt batch"
  shows "insert_batch batch st = (Inr (), fold (\<lambda>pt s. snd (insert_batch [pt] s)) batch st)"
proof -
  have "insert_batch batch st = (Inr (), fold (\<lambda>pt s. snd (insert_batch [pt] s)) batch st)"
    if "tracks (st_tracker st) (st_flights st)" "list_all no_nan_alt batch" for st
    using that
  proof (induction batch arbitrary: st)
    case Nil
    then show ?case by (simp add: insert_batch_def)
  next
    case (Cons pt pts)
    let ?g = "st_gap st"
    obtain t1 rows1 where one: "ingest_one ?g pt (st_tracker st, st_flights st) = (t1, rows1)" by fastforce
    obtain t2 rows2 where rest: "fold (ingest_one ?g) pts (t1, rows1) = (t2, rows2)" by fastforce
    let ?st1 = "st\<lparr>st_positions := st_positions st @ [position_row_of (st_source_id st) pt],
      st_tracker := t1, st_flights := rows1\<rparr>"
    from insert_batch_is_fold [OF Cons.prems(1), of "[pt]"] one Cons.prems(2)
    have single: "insert_batch [pt] st = (Inr (), ?st1)" by simp
    have "tracks (st_tracker ?st1) (st_flights ?st1)"
      using tracks_ingest_one [OF Cons.prems(1) one] by simp
    from Cons.IH [OF this] Cons.prems(2)
    have "insert_batch pts ?st1 = (Inr (), fold (\<lambda>pt s. snd (insert_batch [pt] s)) pts ?st1)" by simp
    moreover have "insert_batch pts ?st1 = (Inr (), st\<lparr>st_positions := st_positions st
        @ map (position_row_of (st_source_id st)) (pt # pts), st_tracker := t2, st_flights := rows2\<rparr>)"
      using insert_batch_is_fold [of ?st1 pts t2 rows2] rest Cons.prems(2)
        tracks_ingest_one [OF Cons.prems(1) one] by simp
    moreover have "insert_batch (pt # pts) st = (Inr (), st\<lparr>st_positions := st_positions st
        @ map (position_row_of (st_source_id st)) (pt # pts), st_tracker := t2, st_flights := rows2\<rparr>)"
      using one rest by (intro insert_batch_is_fold Cons.prems) simp
    ultimately show ?case by (simp add: single)
  qed
  with assms show ?thesis by blast
qed

definition sample_position :: "string \<Rightarrow> f64 option \<Rightarrow> aircraft_position" where
  "sample_position hex alt = \<lparr>hex_ident = hex, callsign = None, altitude = alt, ground_speed = None,
     track = None, latitude = None, longitude = None, vertical_rate = None, squawk = None,
     is_on_ground = None, timestamp = [], message_count = 1\<rparr>"

lemma tracks_empty: "tracks Map.empty []"
  by (simp add: tracks_def)

theorem batch_insert_equals_singles_witness:
  "\<exists>st. insert_batch [(sample_position ''A1'' (Some (F_fin 300)), 0), (sample_position ''B2'' None, 5),
       (sample_position ''A1'' (Some (F_fin 100)), 7000000)] (storage_empty ''pi'' 3600000) = (Inr (), st)"
  by (subst batch_insert_equals_singles)
     (simp_all add: tracks_empty storage_empty_def no_nan_alt_def sample_position_def)

definition insert_batches :: "(aircraft_position \<times> int) list list \<Rightarrow> storage \<Rightarrow> (storage_error + unit) list \<times> storage" where
  "insert_batches bs st = foldl (\<lambda>(rs, s) b. let (r, s) = insert_batch b s in (rs @ [r], s)) ([], st) bs"

lemma insert_batches_snoc:
  "insert_batches (bs @ [b]) st
   = (let (rs, s) = insert_batches bs st; (r, s) = insert_batch b s in (rs @ [r], s))"
  by (simp add: insert_batches_def Let_def split: prod.split)

lemma insert_batch_tracks:
  assumes "tracks (st_tracker st) (st_flights st)" and "list_all no_nan_alt batch"
  shows "\<exists>st'. insert_batch batch st = (Inr (), st') \<and> tracks (st_tracker st') (st_flights st')
     \<and> st_gap st' = st_gap st \<and> (st_tracker st', st_flights st')
         = fold (ingest_one (st_gap st)) batch (st_tracker st, st_flights st)"
proof -
  obtain t' rows' where run: "fold (ingest_one (st_gap st)) batch (st_tracker st, st_flights st) = (t', rows')"
    by fastforce
  from insert_batch_is_fold [OF assms run] tracks_ingest_all [OF assms(1) run] run show ?thesis by simp
qed

lemma insert_batches_fold:
  "list_all (list_all no_nan_alt) bs \<Longrightarrow>
   \<exists>st'. insert_batches bs (storage_empty src gap) = (replicate (length bs) (Inr ()), st')
     \<and> tracks (st_tracker st') (st_flights st') \<and> st_gap st' = gap
     \<and> (st_tracker st', st_flights st') = fold (ingest_one gap) (concat bs) (Map.empty, [])"
proof (induction bs rule: rev_induct)
  case Nil
  then show ?case by (simp add: insert_batches_def storage_empty_def tracks_empty)
next
  case (snoc b bs)
  then obtain st where st: "insert_batches bs (storage_empty src gap) = (replicate (length bs) (Inr ()), st)"
    "tracks (st_tracker st) (st_flights st)" "st_gap st = gap"
    "(st_tracker st, st_flights st) = fold (ingest_one gap) (concat bs) (Map.empty, [])" by auto
  from insert_batch_tracks [OF st(2), of b] snoc.prems obtain st' where
    "insert_batch b st = (Inr (), st')" "tracks (st_tracker st') (st_flights st')" "st_gap st' = gap"
    "(st_tracker st', st_flights st') = fold (ingest_one gap) b (st_tracker st, st_flights st)"
    using st(3) by auto
  with st(1,4) show ?case by (simp add: insert_batches_snoc replicate_append_same)
qed

lemma insert_batches_positions:
  "list_all (list_all no_nan_alt) bs \<Longrightarrow>
   st_positions (snd (insert_batches bs (storage_empty src gap))) = map (position_row_of src) (concat bs)
   \<and> st_source_id (snd (insert_batches bs (storage_empty src gap))) = src"
proof (induction bs rule: rev_induct)
  case Nil
  then show ?case by (simp add: insert_batches_def storage_empty_def)
next
  case (snoc b bs)
  then obtain st where st: "insert_batches bs (storage_empty src gap) = (replicate (length bs) (Inr ()), st)"
    "tracks (st_tracker st) (st_flights st)"
    using insert_batches_fold [of bs src gap] by auto
  obtain t' rows' where "fold (ingest_one (st_gap st)) b (st_tracker st, st_flights st) = (t', rows')"
    by fastforce
  from insert_batch_is_fold [OF st(2) _ this] snoc st(1) show ?case by (simp add: insert_batches_snoc)
qed

text \<open>C17: From a new store on, whatever batches come, every insert succeeds and the tracker and the
  flight table stay in agreement: flight ids are unique, each row's id is made of its aircraft and
  number, and the tracker holds the highest flight of each aircraft and nothing else.\<close>
theorem inserts_keep_tracker_agreement:
  assumes "list_all (list_all no_nan_alt) bs"
  shows "\<exists>st. insert_batches bs (storage_empty src gap) = (replicate (length bs) (Inr ()), st)
     \<and> tracks (st_tracker st) (st_flights st)"
  using insert_batches_fold [OF assms, of src gap] by blast

theorem inserts_keep_tracker_agreement_witness:
  "\<exists>st. insert_batches [[(sample_position ''A1'' None, 0)], [], [(sample_position ''A1'' None, 9)]]
          (storage_empty ''pi'' 3600000) = ([Inr (), Inr (), Inr ()], st)
     \<and> tracks (st_tracker st) (st_flights st)"
  using inserts_keep_tracker_agreement
    [of "[[(sample_position ''A1'' None, 0)], [], [(sample_position ''A1'' None, 9)]]" "''pi''" 3600000]
  by (simp add: no_nan_alt_def sample_position_def numeral_3_eq_3)

definition counted :: "flight list \<Rightarrow> nat" where
  "counted rows = sum_list (map fl_count rows)"

lemma touch_count: "fl_count (touch p ts r) = Suc (fl_count r)"
  by (simp add: touch_def update_flight_def fresh_update_def)

lemma counted_touch:
  "distinct (map fl_id rows) \<Longrightarrow> i \<in> fl_id ` set rows \<Longrightarrow>
   counted (map (\<lambda>r. if fl_id r = i then touch p ts r else r) rows) = Suc (counted rows)"
proof (induction rows)
  case (Cons r rows)
  show ?case
  proof (cases "fl_id r = i")
    case True
    with Cons.prems have "i \<notin> fl_id ` set rows" by auto
    then have "map (\<lambda>r. if fl_id r = i then touch p ts r else r) rows = rows"
      by (intro map_idI) auto
    with True show ?thesis by (simp add: counted_def touch_count)
  next
    case False
    with Cons show ?thesis by (simp add: counted_def image_iff)
  qed
qed simp

lemma counted_ingest_one:
  assumes "tracks t rows" and "ingest_one gap pt (t, rows) = (t', rows')"
  shows "counted rows' = Suc (counted rows)"
proof -
  obtain p ts where pt: "pt = (p, ts)" by fastforce
  show ?thesis
  proof (cases "t (hex_ident p)")
    case None
    with assms show ?thesis by (auto simp: ingest_one_def pt Let_def counted_def new_flight_def)
  next
    case (Some a)
    then have "distinct (map fl_id rows)" "af_id a \<in> fl_id ` set rows"
      using assms(1) unfolding tracks_def by (blast, metis image_eqI)
    from counted_touch [OF this] Some assms(2) show ?thesis
      by (auto simp: ingest_one_def pt Let_def counted_def new_flight_def split: if_splits)
  qed
qed

lemma counted_ingest_all:
  "tracks t rows \<Longrightarrow> counted (snd (fold (ingest_one gap) pts (t, rows))) = counted rows + length pts"
proof (induction pts arbitrary: t rows)
  case (Cons pt pts)
  obtain t1 rows1 where one: "ingest_one gap pt (t, rows) = (t1, rows1)" by fastforce
  from Cons.IH [OF tracks_ingest_one [OF Cons.prems one]] counted_ingest_one [OF Cons.prems one] one
  show ?case by simp
qed simp

text \<open>C25: Every position is counted in exactly one flight: the position counts of all flights add up to
  the number of positions inserted.\<close>
theorem every_position_in_one_flight:
  assumes "list_all (list_all no_nan_alt) bs"
  shows "sum_list (map fl_count (st_flights (snd (insert_batches bs (storage_empty src gap)))))
       = length (concat bs)"
proof -
  from insert_batches_fold [OF assms, of src gap] obtain st where
    st: "insert_batches bs (storage_empty src gap) = (replicate (length bs) (Inr ()), st)"
    "(st_tracker st, st_flights st) = fold (ingest_one gap) (concat bs) (Map.empty, [])" by blast
  have "st_flights st = snd (fold (ingest_one gap) (concat bs) (Map.empty, []))"
    by (simp flip: st(2))
  with st(1) counted_ingest_all [OF tracks_empty, of gap "concat bs"] show ?thesis
    by (simp add: counted_def)
qed

theorem every_position_in_one_flight_witness:
  "sum_list (map fl_count (st_flights (snd (insert_batches
     [[(sample_position ''A1'' None, 0), (sample_position ''B2'' None, 3)], [(sample_position ''A1'' None, 9)]]
     (storage_empty ''pi'' 3600000))))) = 3"
  by (subst every_position_in_one_flight) (simp_all add: no_nan_alt_def sample_position_def)

subsection \<open>Feeds in time order\<close>

text \<open>The positions of each aircraft come in time order, none before what the tracker has seen.\<close>

fun in_time_order :: "(string \<rightharpoonup> int) \<Rightarrow> (aircraft_position \<times> int) list \<Rightarrow> bool" where
  "in_time_order seen [] = True"
| "in_time_order seen ((p, ts) # pts) =
     ((case seen (hex_ident p) of None \<Rightarrow> True | Some u \<Rightarrow> u \<le> ts)
      \<and> in_time_order (seen(hex_ident p \<mapsto> ts)) pts)"

definition last_seen :: "(string \<rightharpoonup> active_flight) \<Rightarrow> (string \<rightharpoonup> int)" where
  "last_seen t = map_option af_last \<circ> t"

lemma last_seen_upd [simp]: "last_seen (t(h \<mapsto> a)) = (last_seen t)(h \<mapsto> af_last a)"
  by (simp add: last_seen_def fun_eq_iff)

text \<open>
  What holds of the table when positions came in order: the row of each active flight carries the
  tracker's time, no flight ends before it starts, and the flights of an aircraft are separated by
  more than the gap.
\<close>

definition settled :: "int \<Rightarrow> (string \<rightharpoonup> active_flight) \<Rightarrow> flight list \<Rightarrow> bool" where
  "settled gap t rows \<longleftrightarrow> tracks t rows
     \<and> (\<forall>r \<in> set rows. \<forall>a. t (fl_hex r) = Some a \<and> fl_num r = af_num a \<longrightarrow> fl_last r = af_last a)
     \<and> (\<forall>r \<in> set rows. fl_first r \<le> fl_last r)
     \<and> (\<forall>r \<in> set rows. \<forall>s \<in> set rows. fl_hex r = fl_hex s \<and> fl_num r < fl_num s \<longrightarrow> fl_last r + gap < fl_first s)"

lemma touch_last: "fl_last (touch p ts r) = max (fl_last r) ts"
  by (simp add: touch_def update_flight_def fresh_update_def)

lemma new_flight_fields [simp]:
  "fl_hex (new_flight h n p ts) = h" "fl_num (new_flight h n p ts) = n" "fl_last (new_flight h n p ts) = ts"
  "fl_first (new_flight h n p ts) = ts" "fl_id (new_flight h n p ts) = flight_key h n"
  by (simp_all add: new_flight_def)

lemma tracks_row:
  "tracks t rows \<Longrightarrow> r \<in> set rows \<Longrightarrow>
   fl_id r = flight_key (fl_hex r) (fl_num r) \<and> (\<exists>a. t (fl_hex r) = Some a \<and> fl_num r \<le> af_num a)"
  by (simp add: tracks_def)

lemma tracks_active:
  "tracks t rows \<Longrightarrow> t h = Some a \<Longrightarrow>
   \<exists>r \<in> set rows. fl_id r = af_id a \<and> fl_hex r = h \<and> fl_num r = af_num a"
proof -
  assume tr: "tracks t rows" and a: "t h = Some a"
  then obtain r where r: "r \<in> set rows" "fl_id r = af_id a" and "af_id a = flight_key h (af_num a)"
    unfolding tracks_def by metis
  with tracks_row [OF tr r(1)] show ?thesis by auto
qed

lemma settled_start:
  assumes "settled gap t rows" and "0 \<le> gap" and "t h = None \<and> n = 0 \<or> (\<exists>a. t h = Some a \<and> n = Suc (af_num a) \<and> gap < ts - af_last a)"
  shows "settled gap (t(h \<mapsto> \<lparr>af_id = flight_key h n, af_num = n, af_last = ts\<rparr>)) (rows @ [new_flight h n p ts])"
proof -
  from assms(1) have tr: "tracks t rows" by (simp add: settled_def)
  have below: "\<And>a. t h = Some a \<Longrightarrow> af_num a < n" using assms(3) by auto
  have before: "fl_last r + gap < ts \<and> fl_num r < n" if r: "r \<in> set rows" "fl_hex r = h" for r
  proof -
    from tracks_row [OF tr r(1)] r(2) obtain a where a: "t h = Some a" "fl_num r \<le> af_num a" by auto
    with assms(3) have n: "n = Suc (af_num a)" "gap < ts - af_last a" by auto
    from tracks_active [OF tr a(1)] obtain s where
      s: "s \<in> set rows" "fl_hex s = h" "fl_num s = af_num a" by auto
    with assms(1) a have last: "fl_last s = af_last a" and "fl_first s \<le> fl_last s"
      by (auto simp: settled_def)
    show ?thesis
    proof (cases "fl_num r = af_num a")
      case True
      with assms(1) r a(1) have "fl_last r = af_last a" by (auto simp: settled_def)
      with n True show ?thesis by simp
    next
      case False
      with a have "fl_num r < fl_num s" using s by simp
      with assms(1) r s have "fl_last r + gap < fl_first s" by (auto simp: settled_def)
      with \<open>fl_first s \<le> fl_last s\<close> last n a(2) assms(2) show ?thesis by simp
    qed
  qed
  have "tracks (t(h \<mapsto> \<lparr>af_id = flight_key h n, af_num = n, af_last = ts\<rparr>)) (rows @ [new_flight h n p ts])"
    by (rule tracks_start [OF tr below])
  with assms(1) before show ?thesis by (fastforce simp: settled_def)
qed

lemma settled_extend:
  assumes "settled gap t rows" and a: "t h = Some a" and "af_last a \<le> ts"
  shows "settled gap (t(h \<mapsto> a\<lparr>af_last := ts\<rparr>))
    (map (\<lambda>r. if fl_id r = af_id a then touch p ts r else r) rows)"
proof -
  let ?touch = "\<lambda>r. if fl_id r = af_id a then touch p ts r else r"
  from assms(1) have tr: "tracks t rows" by (simp add: settled_def)
  have keys: "fl_id (?touch r) = fl_id r" "fl_hex (?touch r) = fl_hex r" "fl_num (?touch r) = fl_num r"
    "fl_first (?touch r) = fl_first r" for r by simp_all
  have "tracks (t(h \<mapsto> a\<lparr>af_last := ts\<rparr>)) (map ?touch rows)
      = tracks (t(h \<mapsto> a\<lparr>af_last := ts\<rparr>)) rows"
    by (rule tracks_same_keys) (simp add: comp_def)
  then have tr': "tracks (t(h \<mapsto> a\<lparr>af_last := ts\<rparr>)) (map ?touch rows)"
    using tracks_extend [of t rows h a ts] tr a by simp
  have id: "fl_id r = af_id a \<longleftrightarrow> fl_hex r = h \<and> fl_num r = af_num a" if "r \<in> set rows" for r
  proof -
    have "af_id a = flight_key h (af_num a)" using tr a by (simp add: tracks_def)
    with tracks_row [OF tr that] show ?thesis by auto
  qed
  have last: "fl_last (?touch r) = (if fl_hex r = h \<and> fl_num r = af_num a then ts else fl_last r)"
    if "r \<in> set rows" for r
    using id [OF that] assms that by (auto simp: touch_last settled_def)
  have top: "fl_num r \<le> af_num a" if "r \<in> set rows" "fl_hex r = h" for r
    using tracks_row [OF tr that(1)] that(2) a by auto
  show ?thesis
    unfolding settled_def
  proof (intro conjI)
    show "\<forall>r \<in> set (map ?touch rows). \<forall>b. (t(h \<mapsto> a\<lparr>af_last := ts\<rparr>)) (fl_hex r) = Some b
        \<and> fl_num r = af_num b \<longrightarrow> fl_last r = af_last b"
    proof (intro ballI allI impI)
      fix r' b
      assume "r' \<in> set (map ?touch rows)"
        and hyp: "(t(h \<mapsto> a\<lparr>af_last := ts\<rparr>)) (fl_hex r') = Some b \<and> fl_num r' = af_num b"
      then obtain r where r: "r \<in> set rows" "r' = ?touch r" by auto
      from hyp have "(t(h \<mapsto> a\<lparr>af_last := ts\<rparr>)) (fl_hex r) = Some b" "fl_num r = af_num b"
        unfolding r(2) keys by simp_all
      moreover have "t (fl_hex r) = Some b \<Longrightarrow> fl_num r = af_num b \<Longrightarrow> fl_last r = af_last b"
        using assms(1) r(1) by (simp add: settled_def)
      ultimately show "fl_last r' = af_last b"
        unfolding r(2) last [OF r(1)] by (cases "fl_hex r = h") auto
    qed
    show "\<forall>r \<in> set (map ?touch rows). fl_first r \<le> fl_last r"
    proof
      fix r'
      assume "r' \<in> set (map ?touch rows)"
      then obtain r where r: "r \<in> set rows" "r' = ?touch r" by auto
      with assms(1) have "fl_first r \<le> fl_last r" by (simp add: settled_def)
      then show "fl_first r' \<le> fl_last r'" using r(2) by (auto simp: touch_last)
    qed
    show "\<forall>r \<in> set (map ?touch rows). \<forall>s \<in> set (map ?touch rows).
        fl_hex r = fl_hex s \<and> fl_num r < fl_num s \<longrightarrow> fl_last r + gap < fl_first s"
    proof (intro ballI impI)
      fix r' s'
      assume "r' \<in> set (map ?touch rows)" "s' \<in> set (map ?touch rows)"
        and hyp: "fl_hex r' = fl_hex s' \<and> fl_num r' < fl_num s'"
      then obtain r s where r: "r \<in> set rows" "r' = ?touch r" and s: "s \<in> set rows" "s' = ?touch s" by auto
      with hyp have rs: "fl_hex r = fl_hex s" "fl_num r < fl_num s" by (simp_all add: keys)
      with top [OF s(1)] have "fl_last r' = fl_last r" unfolding r(2) last [OF r(1)] by auto
      moreover have "fl_last r + gap < fl_first s" using assms(1) r s rs by (simp add: settled_def)
      ultimately show "fl_last r' + gap < fl_first s'" using s(2) by (simp add: keys)
    qed
  qed (rule tr')
qed

lemma settled_ingest_one:
  assumes "settled gap t rows" and "0 \<le> gap"
    and "case t (hex_ident p) of None \<Rightarrow> True | Some a \<Rightarrow> af_last a \<le> ts"
    and "ingest_one gap (p, ts) (t, rows) = (t', rows')"
  shows "settled gap t' rows' \<and> last_seen t' = (last_seen t)(hex_ident p \<mapsto> ts)"
proof (cases "t (hex_ident p)")
  case None
  with assms(4) settled_start [OF assms(1,2), of "hex_ident p" 0 ts p] show ?thesis
    by (auto simp: ingest_one_def Let_def)
next
  case (Some a)
  show ?thesis
  proof (cases "ts - af_last a \<le> gap")
    case True
    with Some assms(3,4) settled_extend [OF assms(1) Some, of ts p] show ?thesis
      by (auto simp: ingest_one_def Let_def)
  next
    case False
    with Some assms(4) settled_start [OF assms(1,2), of "hex_ident p" "Suc (af_num a)" ts p] show ?thesis
      by (auto simp: ingest_one_def Let_def)
  qed
qed

lemma settled_ingest_all:
  "settled gap t rows \<Longrightarrow> 0 \<le> gap \<Longrightarrow> in_time_order (last_seen t) pts \<Longrightarrow>
   fold (ingest_one gap) pts (t, rows) = (t', rows') \<Longrightarrow> settled gap t' rows'"
proof (induction pts arbitrary: t rows)
  case (Cons pt pts)
  obtain p ts where pt: "pt = (p, ts)" by fastforce
  obtain t1 rows1 where one: "ingest_one gap (p, ts) (t, rows) = (t1, rows1)" by fastforce
  have "case t (hex_ident p) of None \<Rightarrow> True | Some a \<Rightarrow> af_last a \<le> ts"
    using Cons.prems(3) by (auto simp: pt last_seen_def split: option.splits)
  from settled_ingest_one [OF Cons.prems(1,2) this one] have
    s1: "settled gap t1 rows1" and seen: "last_seen t1 = (last_seen t)(hex_ident p \<mapsto> ts)" by simp_all
  have order: "in_time_order (last_seen t1) pts" unfolding seen using Cons.prems(3) pt by simp
  have "fold (ingest_one gap) pts (t1, rows1) = (t', rows')" using Cons.prems(4) pt one by simp
  from Cons.IH [OF s1 Cons.prems(2) order this] show ?case .
qed simp

lemma settled_batches:
  assumes "list_all (list_all no_nan_alt) bs" and "0 \<le> gap" and "in_time_order Map.empty (concat bs)"
  shows "\<exists>st. insert_batches bs (storage_empty src gap) = (replicate (length bs) (Inr ()), st)
     \<and> settled gap (st_tracker st) (st_flights st)"
proof -
  from insert_batches_fold [OF assms(1), of src gap] obtain st where
    st: "insert_batches bs (storage_empty src gap) = (replicate (length bs) (Inr ()), st)"
    "(st_tracker st, st_flights st) = fold (ingest_one gap) (concat bs) (Map.empty, [])" by blast
  have "settled gap Map.empty []" by (simp add: settled_def tracks_empty)
  moreover have "last_seen Map.empty = Map.empty" by (simp add: last_seen_def)
  ultimately have "settled gap (st_tracker st) (st_flights st)"
    using settled_ingest_all [of gap Map.empty "[]" "concat bs"] assms(2,3) st(2) [symmetric] by simp
  with st(1) show ?thesis by blast
qed

text \<open>Flights are separated by the gap. When the positions of each aircraft arrive in time order,
  then of two flights of an aircraft the one with the smaller number ended more than the gap before
  the other began.\<close>

theorem flights_separated_by_gap:
  assumes "list_all (list_all no_nan_alt) bs" and "0 \<le> gap" and "in_time_order Map.empty (concat bs)"
    and "r \<in> set (st_flights (snd (insert_batches bs (storage_empty src gap))))"
    and "s \<in> set (st_flights (snd (insert_batches bs (storage_empty src gap))))"
    and "fl_hex r = fl_hex s" and "fl_num r < fl_num s"
  shows "fl_last r + gap < fl_first s"
  using settled_batches [OF assms(1-3), of src] assms(4-7) by (auto simp: settled_def)

theorem flights_separated_by_gap_witness:
  "fl_last (new_flight ''A1'' 0 (sample_position ''A1'' None) 0) + 100
     < fl_first (new_flight ''A1'' 1 (sample_position ''A1'' None) 500)"
proof (rule flights_separated_by_gap [where src = "''pi''"
    and bs = "[[(sample_position ''A1'' None, 0)], [(sample_position ''A1'' None, 500)]]"])
  have "st_flights (snd (insert_batches [[(sample_position ''A1'' None, 0)], [(sample_position ''A1'' None, 500)]]
      (storage_empty ''pi'' 100)))
    = [new_flight ''A1'' 0 (sample_position ''A1'' None) 0, new_flight ''A1'' 1 (sample_position ''A1'' None) 500]"
    by (simp add: insert_batches_def insert_batch_def assign_flight_def storage_empty_def Let_def
        sample_position_def new_flight_def update_flight_def)
  then show "new_flight ''A1'' 0 (sample_position ''A1'' None) 0 \<in> set (st_flights (snd (insert_batches
      [[(sample_position ''A1'' None, 0)], [(sample_position ''A1'' None, 500)]] (storage_empty ''pi'' 100))))"
    and "new_flight ''A1'' 1 (sample_position ''A1'' None) 500 \<in> set (st_flights (snd (insert_batches
      [[(sample_position ''A1'' None, 0)], [(sample_position ''A1'' None, 500)]] (storage_empty ''pi'' 100))))"
    by simp_all
qed (simp_all add: no_nan_alt_def sample_position_def)

subsection \<open>Restarting\<close>

lemma fold_upd_lookup:
  assumes "\<forall>f \<in> set xs. k f = h \<longrightarrow> v f = w"
  shows "fold (\<lambda>f t. t(k f \<mapsto> v f)) xs m h = (if h \<in> k ` set xs then Some w else m h)"
  using assms by (induction xs arbitrary: m) auto

lemma rebuild_settled:
  assumes "settled gap t rows" and "t = st_tracker st" and "rows = st_flights st"
  shows "st_tracker (rebuild_flight_tracker st) = t"
proof
  fix h
  let ?entry = "\<lambda>f. \<lparr>af_id = fl_id f, af_num = fl_num f, af_last = fl_last f\<rparr>"
  let ?latest = "filter (latest_flight rows) rows"
  have tr: "tracks t rows" using assms(1) by (simp add: settled_def)
  have at: "st_tracker (rebuild_flight_tracker st) h
      = fold (\<lambda>f t. t(fl_hex f \<mapsto> ?entry f)) ?latest Map.empty h"
    using assms(3) by (simp add: rebuild_flight_tracker_def)
  show "st_tracker (rebuild_flight_tracker st) h = t h"
  proof (cases "t h")
    case None
    then have "h \<notin> fl_hex ` set ?latest" using tracks_row [OF tr] by fastforce
    then have "fold (\<lambda>f t. t(fl_hex f \<mapsto> ?entry f)) ?latest Map.empty h = None"
      using fold_upd_lookup [of ?latest fl_hex h ?entry undefined Map.empty] by force
    with at None show ?thesis by simp
  next
    case (Some a)
    from tracks_active [OF tr Some] obtain r where
      r: "r \<in> set rows" "fl_id r = af_id a" "fl_hex r = h" "fl_num r = af_num a" by blast
    have "latest_flight rows r"
      using tracks_row [OF tr] Some r(3,4) by (force simp: latest_flight_def list_all_iff)
    with r have mem: "h \<in> fl_hex ` set ?latest" by force
    have "?entry f = a" if f: "f \<in> set ?latest" "fl_hex f = h" for f
    proof -
      from f have "f \<in> set rows" "latest_flight rows f" by auto
      with r f(2) have "fl_num r \<le> fl_num f" by (auto simp: latest_flight_def list_all_iff)
      moreover from tracks_row [OF tr \<open>f \<in> set rows\<close>] f(2) Some have
        "fl_num f \<le> af_num a" "fl_id f = flight_key h (fl_num f)" by auto
      moreover have "af_id a = flight_key h (af_num a)" using tr Some by (simp add: tracks_def)
      ultimately have "fl_num f = af_num a" "fl_id f = af_id a" using r(4) by simp_all
      moreover from this(1) have "fl_last f = af_last a"
        using assms(1) \<open>f \<in> set rows\<close> f(2) Some by (auto simp: settled_def)
      ultimately show ?thesis by simp
    qed
    then have "fold (\<lambda>f t. t(fl_hex f \<mapsto> ?entry f)) ?latest Map.empty h = Some a"
      using fold_upd_lookup [of ?latest fl_hex h ?entry a Map.empty] mem by simp
    with at Some show ?thesis by simp
  qed
qed

text \<open>A restart is transparent. When the positions of each aircraft arrived in time order, rebuilding
  the tracker from the flight table gives the tracker the process had, so later positions are
  assigned to flights as if it had never stopped.\<close>

theorem restart_rebuilds_tracker:
  assumes "list_all (list_all no_nan_alt) bs" and "0 \<le> gap" and "in_time_order Map.empty (concat bs)"
  shows "rebuild_flight_tracker (snd (insert_batches bs (storage_empty src gap)))
       = snd (insert_batches bs (storage_empty src gap))"
proof -
  from settled_batches [OF assms, of src] obtain st where
    st: "snd (insert_batches bs (storage_empty src gap)) = st"
    "settled gap (st_tracker st) (st_flights st)" by force
  from rebuild_settled [OF st(2) refl refl] st(1) show ?thesis
    by (simp add: rebuild_flight_tracker_def)
qed

theorem restart_rebuilds_tracker_witness:
  "rebuild_flight_tracker (snd (insert_batches [[(sample_position ''A1'' None, 0), (sample_position ''B2'' None, 3)],
      [(sample_position ''A1'' None, 9)]] (storage_empty ''pi'' 3600000)))
   = snd (insert_batches [[(sample_position ''A1'' None, 0), (sample_position ''B2'' None, 3)],
      [(sample_position ''A1'' None, 9)]] (storage_empty ''pi'' 3600000))"
  by (rule restart_rebuilds_tracker) (simp_all add: no_nan_alt_def sample_position_def)

text \<open>Out of time order a restart is not transparent: a late position moves the tracker's clock back
  while the row keeps its newest time, so the running process starts a second flight where the
  restarted one continues the first.\<close>

theorem late_position_splits_flight:
  "let st = snd (insert_batches [[(sample_position h None, 5000)], [(sample_position h None, 0)]]
                 (storage_empty src 3000))
   in map fl_num (st_flights (snd (insert_batch [(sample_position h None, 5001)] st))) = [0, 1]
    \<and> map fl_num (st_flights (snd (insert_batch [(sample_position h None, 5001)]
          (rebuild_flight_tracker st)))) = [0]"
  by (simp add: insert_batches_def insert_batch_def assign_flight_def storage_empty_def Let_def
      sample_position_def new_flight_def update_flight_def rebuild_flight_tracker_def latest_flight_def
      fresh_update_def)

end
