(* ===== verification/Flight_Queries.thy ===== *)
theory Flight_Queries imports Flights "HOL-Library.Product_Lexorder" begin

text \<open>
  The read path of \<open>storage.rs\<close> over positions and flights, raw messages and pruning. An
  SQL query is the list of rows it selects; where \<open>ORDER BY\<close> leaves ties open, the model keeps the
  order of insertion. The answers as Arrow streams are in \<open>Arrow_Queries\<close>, the one-time migration of
  the flight table in \<open>Flight_Bootstrap\<close>.
\<close>

definition in_window :: "int option \<Rightarrow> int option \<Rightarrow> int \<Rightarrow> bool" where
  "in_window start_ms end_ms ts \<longleftrightarrow>
     (case start_ms of None \<Rightarrow> True | Some s \<Rightarrow> s \<le> ts) \<and> (case end_ms of None \<Rightarrow> True | Some e \<Rightarrow> ts \<le> e)"

record bbox_query =
  bq_north :: f64
  bq_south :: f64
  bq_east :: f64
  bq_west :: f64
  bq_start_ms :: "int option"
  bq_end_ms :: "int option"
  bq_limit :: nat

fun between :: "f64 option \<Rightarrow> f64 \<Rightarrow> f64 \<Rightarrow> bool" where
  "between None lo hi = False"
| "between (Some x) lo hi = (lo \<le> x \<and> x \<le> hi)"

definition query_bbox :: "bbox_query \<Rightarrow> storage \<Rightarrow> position_row list" where
  "query_bbox q st = take (bq_limit q) (sort_key (\<lambda>r. (pr_hex r, pr_ts r))
     (filter (\<lambda>r. between (pr_latitude r) (bq_south q) (bq_north q)
                 \<and> between (pr_longitude r) (bq_west q) (bq_east q)
                 \<and> pr_latitude r \<noteq> None \<and> pr_longitude r \<noteq> None
                 \<and> in_window (bq_start_ms q) (bq_end_ms q) (pr_ts r)) (st_positions st)))"

definition located :: "position_row \<Rightarrow> bool" where
  "located r \<longleftrightarrow> pr_latitude r \<noteq> None \<and> pr_longitude r \<noteq> None"

definition get_trajectory :: "string \<Rightarrow> int option \<Rightarrow> int option \<Rightarrow> storage \<Rightarrow> position_row list" where
  "get_trajectory hex start_ms end_ms st = sort_key pr_ts
     (filter (\<lambda>r. pr_hex r = hex \<and> located r \<and> in_window start_ms end_ms (pr_ts r)) (st_positions st))"

definition of_flight :: "position_row \<Rightarrow> flight \<Rightarrow> bool" where
  "of_flight r f \<longleftrightarrow> pr_hex r = fl_hex f \<and> fl_first f \<le> pr_ts r \<and> pr_ts r \<le> fl_last f"

definition get_all_trajectories :: "int option \<Rightarrow> int option \<Rightarrow> storage \<Rightarrow> (position_row \<times> string) list" where
  "get_all_trajectories start_ms end_ms st = sort_key (\<lambda>(r, i). (i, pr_ts r))
     (concat (map (\<lambda>r. map (\<lambda>f. (r, fl_id f)) (filter (of_flight r) (st_flights st)))
       (filter (\<lambda>r. located r \<and> in_window start_ms end_ms (pr_ts r)) (st_positions st))))"

definition get_flight_summary :: "int option \<Rightarrow> int option \<Rightarrow> storage \<Rightarrow> flight list" where
  "get_flight_summary start_ms end_ms st = sort_key (\<lambda>f. - fl_last f)
     (filter (\<lambda>f. (case start_ms of None \<Rightarrow> True | Some s \<Rightarrow> s \<le> fl_last f)
                \<and> (case end_ms of None \<Rightarrow> True | Some e \<Rightarrow> fl_first f \<le> e)) (st_flights st))"

definition insert_raw_batch :: "(raw_sbs_record \<times> int) list \<Rightarrow> storage \<Rightarrow> storage" where
  "insert_raw_batch records st =
     (if records = [] then st
      else st\<lparr>st_raw := st_raw st @ map (\<lambda>(rec, ts).
         \<lparr>rr_hex = raw_hex_ident rec, rr_msg_type = raw_msg_type rec,
          rr_transmission_type = raw_transmission_type rec, rr_ts = ts,
          rr_message = raw_message rec, rr_source = st_source_id st\<rparr>) records\<rparr>)"

definition prune :: "int \<Rightarrow> storage \<Rightarrow> nat \<times> storage" where
  "prune older_than_ms st =
     (length (filter (\<lambda>r. pr_ts r < older_than_ms) (st_positions st)),
      st\<lparr>st_positions := filter (\<lambda>r. \<not> pr_ts r < older_than_ms) (st_positions st),
         st_raw := filter (\<lambda>r. \<not> rr_ts r < older_than_ms) (st_raw st)\<rparr>)"

subsection \<open>Each position belongs to one flight\<close>

definition covers :: "flight list \<Rightarrow> aircraft_position \<times> int \<Rightarrow> bool" where
  "covers rows pt \<longleftrightarrow>
     (\<exists>f \<in> set rows. fl_hex f = hex_ident (fst pt) \<and> fl_first f \<le> snd pt \<and> snd pt \<le> fl_last f)"

lemma covers_ingest_one:
  assumes s: "settled gap t rows" and time: "case t (hex_ident p) of None \<Rightarrow> True | Some a \<Rightarrow> af_last a \<le> ts"
    and one: "ingest_one gap (p, ts) (t, rows) = (t', rows')"
  shows "covers rows' (p, ts) \<and> (covers rows qt \<longrightarrow> covers rows' qt)"
proof -
  let ?h = "hex_ident p"
  let ?ext = "\<lambda>a. map (\<lambda>r. if fl_id r = af_id a then touch p ts r else r) rows"
  have new: "covers (rows @ [new_flight ?h n p ts]) (p, ts)"
    "covers rows qt \<longrightarrow> covers (rows @ [new_flight ?h n p ts]) qt" for n
    by (auto simp: covers_def)
  have keep: "covers rows qt \<longrightarrow> covers (?ext a) qt" for a
  proof
    assume "covers rows qt"
    then obtain f where f: "f \<in> set rows" "fl_hex f = hex_ident (fst qt)" "fl_first f \<le> snd qt" "snd qt \<le> fl_last f"
      by (auto simp: covers_def)
    let ?f = "if fl_id f = af_id a then touch p ts f else f"
    have "?f \<in> set (?ext a)" using f(1) by auto
    moreover have "fl_hex ?f = hex_ident (fst qt)" "fl_first ?f \<le> snd qt" "snd qt \<le> fl_last ?f"
      using f by (auto simp: touch_last)
    ultimately show "covers (?ext a) qt" unfolding covers_def by blast
  qed
  have grow: "covers (?ext a) (p, ts)" if a: "t ?h = Some a" "af_last a \<le> ts" for a
  proof -
    have tr: "tracks t rows" using s by (simp add: settled_def)
    from tracks_active [OF tr a(1)] obtain r where
      r: "r \<in> set rows" "fl_id r = af_id a" "fl_hex r = ?h" "fl_num r = af_num a" by blast
    with s a(1) have "fl_first r \<le> fl_last r" "fl_last r = af_last a" by (auto simp: settled_def)
    with a(2) r have "touch p ts r \<in> set (?ext a)" "fl_first (touch p ts r) \<le> ts"
      "ts \<le> fl_last (touch p ts r)" "fl_hex (touch p ts r) = ?h"
      by (force, simp_all add: touch_last)
    then show ?thesis unfolding covers_def fst_conv snd_conv by blast
  qed
  show ?thesis
  proof (cases "t ?h")
    case None
    with one new [of 0] show ?thesis by (auto simp: ingest_one_def Let_def)
  next
    case (Some a)
    with time have "af_last a \<le> ts" by simp
    with Some one new [of "Suc (af_num a)"] keep [of a] grow [OF Some] show ?thesis
      by (auto simp: ingest_one_def Let_def split: if_splits)
  qed
qed

lemma covers_ingest_all:
  "settled gap t rows \<Longrightarrow> 0 \<le> gap \<Longrightarrow> in_time_order (last_seen t) pts \<Longrightarrow>
   fold (ingest_one gap) pts (t, rows) = (t', rows') \<Longrightarrow>
   \<forall>qt. qt \<in> set pts \<or> covers rows qt \<longrightarrow> covers rows' qt"
proof (induction pts arbitrary: t rows)
  case (Cons pt pts)
  obtain p ts where pt: "pt = (p, ts)" by fastforce
  obtain t1 rows1 where one: "ingest_one gap (p, ts) (t, rows) = (t1, rows1)" by fastforce
  have time: "case t (hex_ident p) of None \<Rightarrow> True | Some a \<Rightarrow> af_last a \<le> ts"
    using Cons.prems(3) by (auto simp: pt last_seen_def split: option.splits)
  from settled_ingest_one [OF Cons.prems(1,2) time one] have
    s1: "settled gap t1 rows1" and seen: "last_seen t1 = (last_seen t)(hex_ident p \<mapsto> ts)" by simp_all
  have order: "in_time_order (last_seen t1) pts" unfolding seen using Cons.prems(3) pt by simp
  have "fold (ingest_one gap) pts (t1, rows1) = (t', rows')" using Cons.prems(4) pt one by simp
  from Cons.IH [OF s1 Cons.prems(2) order this] covers_ingest_one [OF Cons.prems(1) time one]
  show ?case by (auto simp: pt)
qed simp

lemma one_flight:
  assumes s: "settled gap t rows" and gap: "0 \<le> gap" and c: "covers rows (p, ts)"
    and r: "pr_hex r = hex_ident p" "pr_ts r = ts"
  shows "length (filter (of_flight r) rows) = 1"
proof -
  from c obtain f where f: "f \<in> set rows" "of_flight r f" by (auto simp: covers_def of_flight_def r)
  have tr: "tracks t rows" using s by (simp add: settled_def)
  have unique: "g = f" if g: "g \<in> set rows" "of_flight r g" for g
  proof -
    from f g have hex: "fl_hex f = fl_hex g" by (simp add: of_flight_def)
    have "\<not> fl_num f < fl_num g" "\<not> fl_num g < fl_num f"
      using s f g hex gap by (fastforce simp: settled_def of_flight_def)+
    then have "fl_num f = fl_num g" by simp
    with hex tracks_row [OF tr f(1)] tracks_row [OF tr g(1)] have "fl_id f = fl_id g" by simp
    moreover have "inj_on fl_id (set rows)" using tr by (simp add: tracks_def distinct_map)
    ultimately show ?thesis using f(1) g(1) by (simp add: inj_on_def)
  qed
  have "distinct rows" using tr by (simp add: tracks_def distinct_map)
  then have "length (filter (of_flight r) rows) = card (set (filter (of_flight r) rows))"
    by (simp only: distinct_card distinct_filter)
  also have "set (filter (of_flight r) rows) = {f}" using f unique unfolding set_filter by blast
  finally show ?thesis by simp
qed

text \<open>C26: The trajectory query loses and duplicates nothing, and names the right flight. When the positions of
  each aircraft arrived in time order, joining positions with flights by aircraft and time window
  returns every located position of the requested window exactly once, with the id of the one flight
  of its aircraft whose time span holds it (ids are those of one flight each), in the order of flight
  and time. Positions without coordinates are not returned.\<close>

theorem all_trajectories_exact:
  assumes "list_all (list_all no_nan_alt) bs" and "0 \<le> gap" and "in_time_order Map.empty (concat bs)"
  shows "let st = snd (insert_batches bs (storage_empty src gap)); ts = get_all_trajectories start_ms end_ms st in
      mset (map fst ts) = mset (filter (\<lambda>r. located r \<and> in_window start_ms end_ms (pr_ts r))
           (map (position_row_of src) (concat bs)))
    \<and> (\<forall>(r, i) \<in> set ts. \<exists>f. {f \<in> set (st_flights st). fl_hex f = pr_hex r \<and> fl_first f \<le> pr_ts r \<and> pr_ts r \<le> fl_last f} = {f}
        \<and> i = fl_id f)
    \<and> distinct (map fl_id (st_flights st))
    \<and> sorted (map (\<lambda>(r, i). (i, pr_ts r)) ts)"
proof -
  let ?st = "snd (insert_batches bs (storage_empty src gap))"
  let ?ts = "get_all_trajectories start_ms end_ms ?st"
  from insert_batches_fold [OF assms(1), of src gap] obtain st where
    st: "snd (insert_batches bs (storage_empty src gap)) = st"
    "(st_tracker st, st_flights st) = fold (ingest_one gap) (concat bs) (Map.empty, [])" by force
  have pos: "st_positions st = map (position_row_of src) (concat bs)"
    using insert_batches_positions [OF assms(1), of src gap] st(1) by simp
  have empty: "settled gap Map.empty []" "last_seen Map.empty = Map.empty"
    by (simp_all add: settled_def tracks_empty last_seen_def)
  have run: "fold (ingest_one gap) (concat bs) (Map.empty, []) = (st_tracker st, st_flights st)"
    using st(2) by simp
  have settled: "settled gap (st_tracker st) (st_flights st)"
    using settled_ingest_all [OF empty(1) assms(2) _ run] assms(3) empty(2) by simp
  have cover: "covers (st_flights st) pt" if "pt \<in> set (concat bs)" for pt
    using covers_ingest_all [OF empty(1) assms(2) _ run] assms(3) empty(2) that by (cases pt) simp
  have one: "length (filter (of_flight r) (st_flights st)) = 1" if r: "r \<in> set (st_positions st)" for r
  proof -
    from r pos obtain p ts where pt: "(p, ts) \<in> set (concat bs)" "r = position_row_of src (p, ts)" by auto
    show ?thesis
      by (rule one_flight [OF settled assms(2) cover [OF pt(1)]]) (simp_all add: pt(2) position_row_of_def)
  qed
  have "mset (concat (map (\<lambda>r. map (\<lambda>f. r) (filter (of_flight r) (st_flights st))) rs)) = mset rs"
    if "set rs \<subseteq> set (st_positions st)" for rs
    using that by (induction rs) (auto simp: one map_replicate_const)
  then have all: "mset (concat (map (\<lambda>r. map (\<lambda>f. r) (filter (of_flight r) (st_flights st)))
      (filter (\<lambda>r. located r \<and> in_window start_ms end_ms (pr_ts r)) (st_positions st))))
    = mset (filter (\<lambda>r. located r \<and> in_window start_ms end_ms (pr_ts r)) (st_positions st))"
    by (rule meta_mp) auto
  have sorted: "mset (map fst (sort_key k xs)) = mset (map fst xs)" for k :: "position_row \<times> string \<Rightarrow> string \<times> int" and xs
    by (simp only: mset_map mset_sort)
  have rows: "mset (map fst ?ts) = mset (filter (\<lambda>r. located r \<and> in_window start_ms end_ms (pr_ts r)) (map (position_row_of src) (concat bs)))"
    unfolding st(1) pos [symmetric] all [symmetric] get_all_trajectories_def sorted
    by (simp only: map_concat map_map comp_def fst_conv)
  have flights: "\<exists>f. set (filter (of_flight r) (st_flights st)) = {f} \<and> i = fl_id f" if "(r, i) \<in> set ?ts" for r i
  proof -
    from that obtain f where r: "r \<in> set (st_positions st)" and f: "f \<in> set (st_flights st)" "of_flight r f" "i = fl_id f"
      by (auto simp: get_all_trajectories_def st(1))
    from one [OF r] obtain g where g: "filter (of_flight r) (st_flights st) = [g]" by (auto simp: length_Suc_conv)
    have "f \<in> set (filter (of_flight r) (st_flights st))" using f by simp
    with f(3) show ?thesis unfolding g by (intro exI [of _ g]) simp
  qed
  have ids: "distinct (map fl_id (st_flights st))" using settled by (simp add: settled_def tracks_def)
  have order: "sorted (map (\<lambda>(r, i). (i, pr_ts r)) ?ts)" by (simp add: get_all_trajectories_def)
  have "\<forall>(r, i) \<in> set ?ts. \<exists>f. {f \<in> set (st_flights ?st). fl_hex f = pr_hex r \<and> fl_first f \<le> pr_ts r \<and> pr_ts r \<le> fl_last f} = {f}
        \<and> i = fl_id f"
  proof (clarify)
    fix r i assume "(r, i) \<in> set ?ts"
    moreover have "set (filter (of_flight r) (st_flights st))
        = {f \<in> set (st_flights ?st). fl_hex f = pr_hex r \<and> fl_first f \<le> pr_ts r \<and> pr_ts r \<le> fl_last f}"
      by (auto simp: of_flight_def st(1))
    ultimately show "\<exists>f. {f \<in> set (st_flights ?st). fl_hex f = pr_hex r \<and> fl_first f \<le> pr_ts r \<and> pr_ts r \<le> fl_last f} = {f}
        \<and> i = fl_id f" using flights by metis
  qed
  with rows ids order show ?thesis unfolding Let_def st(1) by blast
qed

definition located_position :: "string \<Rightarrow> aircraft_position" where
  "located_position hex = (sample_position hex None)\<lparr>latitude := Some (F_fin 45), longitude := Some (F_fin 73)\<rparr>"

theorem all_trajectories_exact_witness:
  "map (\<lambda>(r, i). (pr_ts r, i)) (get_all_trajectories (Some 1) None (snd (insert_batches
     [[(located_position ''A1'', 0), (sample_position ''B2'' None, 3)], [(located_position ''A1'', 900)]]
     (storage_empty ''pi'' 100)))) = [(900, flight_key ''A1'' 1)]"
proof -
  let ?bs = "[[(located_position ''A1'', 0), (sample_position ''B2'' None, 3)], [(located_position ''A1'', 900)]]"
  let ?st = "snd (insert_batches ?bs (storage_empty ''pi'' 100))"
  let ?ts = "get_all_trajectories (Some 1) None ?st"
  let ?r = "position_row_of ''pi'' (located_position ''A1'', 900)"
  have "list_all (list_all no_nan_alt) ?bs" "in_time_order Map.empty (concat ?bs)"
    by (simp_all add: no_nan_alt_def sample_position_def located_position_def)
  note exact = all_trajectories_exact [OF this(1) _ this(2), of 100 "''pi''" "Some 1" None, unfolded Let_def, simplified zero_le_numeral simp_thms]
  have "mset (map fst ?ts) = {#?r#}"
    using exact [THEN conjunct1]
    by (simp add: sample_position_def located_position_def position_row_of_def located_def in_window_def)
  then have "map fst ?ts = [?r]" by (simp only: mset_single_iff)
  then obtain i where ts: "?ts = [(?r, i)]" by auto
  then have "(?r, i) \<in> set ?ts" by simp
  with exact [THEN conjunct2, THEN conjunct1] obtain f where
    f: "{g \<in> set (st_flights ?st). fl_hex g = pr_hex ?r \<and> fl_first g \<le> pr_ts ?r \<and> pr_ts ?r \<le> fl_last g} = {f}" "i = fl_id f"
    by (force simp only: split: prod.splits)
  have "new_flight ''A1'' 1 (located_position ''A1'') 900 \<in> set (st_flights ?st)"
    by (simp add: insert_batches_def insert_batch_def assign_flight_def storage_empty_def Let_def
      sample_position_def located_position_def new_flight_def update_flight_def)
  then have "new_flight ''A1'' 1 (located_position ''A1'') 900 \<in> {f}"
    unfolding f(1) [symmetric] by (simp add: new_flight_def position_row_of_def located_position_def sample_position_def)
  then have "i = flight_key ''A1'' 1" using f(2) by (auto simp: new_flight_def)
  with ts show ?thesis by (simp add: position_row_of_def)
qed

text \<open>A late position is counted but not shown: one that arrives out of order before the first
  position of its flight raises the flight's count without moving its start, and the trajectory
  query returns it under no flight.\<close>

theorem late_position_not_in_trajectories:
  "let st = snd (insert_batches [[(located_position h, 5000)], [(located_position h, 0)]]
                 (storage_empty src gap))
   in 0 \<le> gap \<longrightarrow> map fl_count (st_flights st) = [2]
      \<and> map (pr_ts \<circ> fst) (get_all_trajectories None None st) = [5000]"
  by (simp add: insert_batches_def insert_batch_def assign_flight_def storage_empty_def Let_def
      sample_position_def new_flight_def update_flight_def fresh_update_def located_position_def
      get_all_trajectories_def of_flight_def position_row_of_def located_def in_window_def)

theorem late_position_not_in_trajectories_witness:
  "map (pr_ts \<circ> fst) (get_all_trajectories None None
     (snd (insert_batches [[(located_position ''A1'', 5000)], [(located_position ''A1'', 0)]]
        (storage_empty ''pi'' 3600000)))) = [5000]"
  using late_position_not_in_trajectories [of "''A1''" "''pi''" 3600000] by (simp add: Let_def)

lemma trajectory_sound:
  "r \<in> set (get_trajectory hex s e st) \<longleftrightarrow>
   r \<in> set (st_positions st) \<and> pr_hex r = hex \<and> located r \<and> in_window s e (pr_ts r)"
  "sorted (map pr_ts (get_trajectory hex s e st))"
  by (auto simp: get_trajectory_def)

lemma query_bbox_sound:
  "set (query_bbox q st) \<subseteq> set (st_positions st)" "length (query_bbox q st) \<le> bq_limit q"
  by (auto simp: query_bbox_def dest!: in_set_takeD)

lemma prune_keeps_recent:
  "r \<in> set (st_positions (snd (prune t st))) \<longleftrightarrow> r \<in> set (st_positions st) \<and> t \<le> pr_ts r"
  "fst (prune t st) + length (st_positions (snd (prune t st))) = length (st_positions st)"
  by (auto simp: prune_def sum_length_filter_compl)

end
