(* ===== verification/Weather_Types.thy ===== *)
theory Weather_Types imports Feed_Config begin

text \<open>
  The vocabulary of \<open>adsb-weather-server\<close>: statuses and topics (\<open>status.rs\<close>), the sampling grid's
  addressing (\<open>grid.rs\<close>), snapshots and their validation (\<open>snapshot.rs\<close>), and the pure half of the
  Open-Meteo client (\<open>open_meteo.rs\<close>). The field values (\<open>f32\<close>) are only moved around, so they are
  a type parameter.
\<close>

subsection \<open>Status\<close>

datatype rate_limit_scope = Minutely | Hourly | Daily | Unknown_Scope

datatype service_state = S_Idle | S_Fetching | S_Retrying | S_RateLimited | S_Rejected | S_Disabled

record weather_status =
  ws_version :: nat
  ws_enabled :: bool
  ws_state :: service_state
  ws_consecutive_failures :: nat
  ws_rate_limit :: "rate_limit_scope option"
  ws_last_success_ms :: "int option"
  ws_last_error :: "string option"
  ws_next_fetch_ms :: "int option"
  ws_snapshot_valid_time_ms :: "int option"
  ws_updated_at_ms :: int

definition STATUS_VERSION :: nat where "STATUS_VERSION = 1"

datatype availability = Online | Offline

fun availability_as_str :: "availability \<Rightarrow> string" where
  "availability_as_str Online = ''online''"
| "availability_as_str Offline = ''offline''"

definition availability_parse :: "bytes \<Rightarrow> availability option" where
  "availability_parse payload = (case from_utf8 payload of
      None \<Rightarrow> None
    | Some s \<Rightarrow> let t = trim s
        in if t = ''online'' then Some Online else if t = ''offline'' then Some Offline else None)"

record weather_topics =
  wt_grid :: string
  wt_status :: string
  wt_availability :: string

definition from_grid_topic :: "string \<Rightarrow> weather_topics" where
  "from_grid_topic grid =
     (let base = (case strip_suffix ''/grid'' grid of Some b \<Rightarrow> b | None \<Rightarrow> grid)
      in \<lparr>wt_grid = grid, wt_status = base @ ''/status'', wt_availability = base @ ''/availability''\<rparr>)"

subsection \<open>Grid\<close>

record grid_spec =
  g_lat0 :: f64
  g_lon0 :: f64
  g_dlat :: f64
  g_dlon :: f64
  g_nlat :: nat
  g_nlon :: nat

definition grid_len :: "grid_spec \<Rightarrow> nat" where
  "grid_len g = g_nlat g * g_nlon g"

definition grid_index :: "grid_spec \<Rightarrow> nat \<Rightarrow> nat \<Rightarrow> nat" where
  "grid_index g row col = row * g_nlon g + col"

text \<open>The cells in the order in which \<open>points\<close> lists them.\<close>

definition grid_cells :: "grid_spec \<Rightarrow> (nat \<times> nat) list" where
  "grid_cells g = concat (map (\<lambda>row. map (\<lambda>col. (row, col)) [0..<g_nlon g]) [0..<g_nlat g])"

subsection \<open>Snapshots\<close>

record 'v surface_fields =
  sf_mslp :: "'v option list"
  sf_wind_speed :: "'v option list"
  sf_wind_dir :: "'v option list"

record 'v level_fields =
  lf_wind_speed :: "'v option list"
  lf_wind_dir :: "'v option list"

record 'v snapshot =
  sn_version :: nat
  sn_source :: string
  sn_attribution :: string
  sn_model :: string
  sn_fetched_at_ms :: int
  sn_valid_time_ms :: int
  sn_grid :: grid_spec
  sn_surface :: "'v surface_fields"
  sn_levels :: "(nat \<times> 'v level_fields) list" \<comment> \<open>a \<open>BTreeMap\<close>: keys ascending\<close>

definition SNAPSHOT_VERSION :: nat where "SNAPSHOT_VERSION = 1"

datatype snapshot_error =
    Snapshot_Json string
  | Snapshot_Version nat nat \<comment> \<open>found, expected\<close>
  | Snapshot_Length string nat nat \<comment> \<open>field, length, expected\<close>

definition ensure_len :: "string \<Rightarrow> 'v option list \<Rightarrow> nat \<Rightarrow> snapshot_error + unit" where
  "ensure_len field vs expected =
     (if length vs = expected then Inr () else Inl (Snapshot_Length field (length vs) expected))"

text \<open>\<open>?\<close> on a sequence of checks: the first error wins.\<close>

fun first_error :: "('e + unit) list \<Rightarrow> 'e + unit" where
  "first_error [] = Inr ()"
| "first_error (Inl e # rs) = Inl e"
| "first_error (Inr _ # rs) = first_error rs"

lemma first_error_ok: "first_error rs = Inr () \<longleftrightarrow> (\<forall>r \<in> set rs. r = Inr ())"
  by (induction rs rule: first_error.induct) auto

definition validate_snapshot :: "'v snapshot \<Rightarrow> snapshot_error + unit" where
  "validate_snapshot s =
     (if sn_version s \<noteq> SNAPSHOT_VERSION then Inl (Snapshot_Version (sn_version s) SNAPSHOT_VERSION)
      else (let expected = grid_len (sn_grid s)
            in first_error
                 ([ensure_len ''surface.mslp_hpa'' (sf_mslp (sn_surface s)) expected,
                   ensure_len ''surface.wind_speed_kt'' (sf_wind_speed (sn_surface s)) expected,
                   ensure_len ''surface.wind_dir_deg'' (sf_wind_dir (sn_surface s)) expected]
                  @ concat (map (\<lambda>(level, fields).
                      [ensure_len (''levels.'' @ nat_str level @ ''.wind_speed_kt'') (lf_wind_speed fields) expected,
                       ensure_len (''levels.'' @ nat_str level @ ''.wind_dir_deg'') (lf_wind_dir fields) expected])
                      (sn_levels s)))))"

subsection \<open>Open-Meteo\<close>

record 'v location_response =
  lr_time :: "int list"
  lr_series :: "string \<rightharpoonup> 'v option list"

datatype open_meteo_error =
    OM_Api string | OM_Json string | OM_LocationCount nat nat | OM_NoTimes

definition hourly_variables :: "nat list \<Rightarrow> string list" where
  "hourly_variables levels =
     [''pressure_msl'', ''wind_speed_10m'', ''wind_direction_10m'']
     @ concat (map (\<lambda>level. [''wind_speed_'' @ nat_str level @ ''hPa'',
                             ''wind_direction_'' @ nat_str level @ ''hPa'']) levels)"

text \<open>\<open>slice::chunks\<close>\<close>

function chunks :: "nat \<Rightarrow> 'a list \<Rightarrow> 'a list list" where
  "chunks n xs = (if xs = [] \<or> n = 0 then [] else take n xs # chunks n (drop n xs))"
  by pat_completeness auto
termination by (relation "measure (length \<circ> snd)") auto

declare chunks.simps [simp del]

lemma concat_chunks: "0 < n \<Longrightarrow> concat (chunks n xs) = xs"
  by (induction n xs rule: chunks.induct) (simp add: chunks.simps [of _ "_ :: 'a list"])

text \<open>One URL for each chunk; \<open>show_f64\<close> is \<open>f64::to_string\<close>.\<close>

definition build_urls ::
  "(f64 \<Rightarrow> string) \<Rightarrow> string \<Rightarrow> string \<Rightarrow> nat list \<Rightarrow> (f64 \<times> f64) list \<Rightarrow> nat \<Rightarrow> string list" where
  "build_urls show_f64 base_url model levels points chunk =
     map (\<lambda>c. base_url @ ''?latitude='' @ join_with '','' (map (show_f64 \<circ> fst) c)
              @ ''&longitude='' @ join_with '','' (map (show_f64 \<circ> snd) c)
              @ ''&hourly='' @ join_with '','' (hourly_variables levels)
              @ ''&past_hours=1&forecast_hours=2&wind_speed_unit=kn&timezone=GMT''
              @ ''&timeformat=unixtime&cell_selection=nearest&models='' @ model)
       (chunks (max chunk 1) points)"

definition parse_rate_limit_scope :: "string \<Rightarrow> rate_limit_scope" where
  "parse_rate_limit_scope reason0 =
     (let reason = to_ascii_lowercase reason0
      in if contains ''daily'' reason then Daily
         else if contains ''hourly'' reason then Hourly
         else if contains ''minutely'' reason then Minutely else Unknown_Scope)"

text \<open>\<open>min_by_key\<close> over the indices: the first minimum.\<close>

fun select_from :: "nat \<Rightarrow> int list \<Rightarrow> int \<Rightarrow> (nat \<times> int) option" where
  "select_from i [] now_ms = None"
| "select_from i (t # ts) now_ms =
     (let d = \<bar>i64_sat (t * 1000) - now_ms\<bar>
      in case select_from (Suc i) ts now_ms of
           Some (j, e) \<Rightarrow> if d \<le> e then Some (i, d) else Some (j, e)
         | None \<Rightarrow> Some (i, d))"

definition select_hour :: "int list \<Rightarrow> int \<Rightarrow> nat option" where
  "select_hour ts now_ms = map_option fst (select_from 0 ts now_ms)"

definition value_at :: "'v location_response \<Rightarrow> string \<Rightarrow> int \<Rightarrow> 'v option" where
  "value_at location variable valid_time_s =
     (case position (\<lambda>t. t = valid_time_s) (lr_time location) of
        None \<Rightarrow> None
      | Some idx \<Rightarrow>
          (case lr_series location variable of
             None \<Rightarrow> None
           | Some vs \<Rightarrow> if idx < length vs then vs ! idx else None))"

fun btree_insert :: "nat \<Rightarrow> 'b \<Rightarrow> (nat \<times> 'b) list \<Rightarrow> (nat \<times> 'b) list" where
  "btree_insert k v [] = [(k, v)]"
| "btree_insert k v ((k', v') # m) =
     (if k < k' then (k, v) # (k', v') # m
      else if k = k' then (k, v) # m else (k', v') # btree_insert k v m)"

definition assemble_snapshot ::
  "grid_spec \<Rightarrow> nat list \<Rightarrow> string \<Rightarrow> 'v location_response list \<Rightarrow> int \<Rightarrow> int
    \<Rightarrow> open_meteo_error + 'v snapshot" where
  "assemble_snapshot grid levels model locations now_ms fetched_at_ms =
     (if length locations \<noteq> grid_len grid then Inl (OM_LocationCount (length locations) (grid_len grid))
      else (case locations of
         [] \<Rightarrow> Inl OM_NoTimes
       | first # _ \<Rightarrow>
          (case select_hour (lr_time first) now_ms of
             None \<Rightarrow> Inl OM_NoTimes
           | Some hour \<Rightarrow>
               let valid_time_s = lr_time first ! hour;
                   column = (\<lambda>variable. map (\<lambda>l. value_at l variable valid_time_s) locations)
               in Inr \<lparr>sn_version = SNAPSHOT_VERSION, sn_source = ''open-meteo'',
                    sn_attribution = ''Weather data by Open-Meteo.com (CC BY 4.0)'', sn_model = model,
                    sn_fetched_at_ms = fetched_at_ms, sn_valid_time_ms = valid_time_s * 1000,
                    sn_grid = grid,
                    sn_surface = \<lparr>sf_mslp = column ''pressure_msl'', sf_wind_speed = column ''wind_speed_10m'',
                                  sf_wind_dir = column ''wind_direction_10m''\<rparr>,
                    sn_levels = fold (\<lambda>level. btree_insert level
                        \<lparr>lf_wind_speed = column (''wind_speed_'' @ nat_str level @ ''hPa''),
                         lf_wind_dir = column (''wind_direction_'' @ nat_str level @ ''hPa'')\<rparr>) levels []\<rparr>)))"

subsection \<open>Topics\<close>

lemma from_grid_topic_distinct:
  "wt_grid (from_grid_topic g) = g" "wt_status (from_grid_topic g) \<noteq> g" "wt_availability (from_grid_topic g) \<noteq> g"
  "wt_status (from_grid_topic g) \<noteq> wt_availability (from_grid_topic g)"
proof -
  have "wt_status (from_grid_topic g) \<noteq> g \<and> wt_availability (from_grid_topic g) \<noteq> g
      \<and> wt_status (from_grid_topic g) \<noteq> wt_availability (from_grid_topic g)"
  proof (cases "strip_suffix ''/grid'' g")
    case None
    then show ?thesis by (simp add: from_grid_topic_def Let_def)
  next
    case (Some b)
    then have "g = b @ ''/grid''" by simp
    with Some show ?thesis by (simp add: from_grid_topic_def Let_def)
  qed
  then show "wt_grid (from_grid_topic g) = g" "wt_status (from_grid_topic g) \<noteq> g"
    "wt_availability (from_grid_topic g) \<noteq> g" "wt_status (from_grid_topic g) \<noteq> wt_availability (from_grid_topic g)"
    by (simp_all add: from_grid_topic_def Let_def)
qed

text \<open>The weather topics never collide: the grid, status and availability topics derived from any
  grid topic are three different topics, and when the grid topic is itself derived from a feed
  configuration, none of the three is the topic of the SBS feed.\<close>

theorem weather_topics_separate:
  "(let t = from_grid_topic grid
    in wt_grid t = grid \<and> wt_status t \<noteq> grid \<and> wt_availability t \<noteq> grid \<and> wt_status t \<noteq> wt_availability t)
   \<and> (trim (mqtt_weather_topic c) = [] \<longrightarrow>
      (let t = from_grid_topic (weather_topic c)
       in mqtt_topic c \<notin> {wt_grid t, wt_status t, wt_availability t}))"
proof
  show "let t = from_grid_topic grid
      in wt_grid t = grid \<and> wt_status t \<noteq> grid \<and> wt_availability t \<noteq> grid \<and> wt_status t \<noteq> wt_availability t"
    using from_grid_topic_distinct [of grid] by (simp add: Let_def)
  show "trim (mqtt_weather_topic c) = [] \<longrightarrow>
      (let t = from_grid_topic (weather_topic c)
       in mqtt_topic c \<notin> {wt_grid t, wt_status t, wt_availability t})"
  proof
    assume blank: "trim (mqtt_weather_topic c) = []"
    show "let t = from_grid_topic (weather_topic c)
        in mqtt_topic c \<notin> {wt_grid t, wt_status t, wt_availability t}"
    proof (cases "strip_suffix ''/sbs/raw'' (mqtt_topic c)")
      case None
      then have grid: "weather_topic c = mqtt_topic c @ ''/weather''"
        using blank by (simp add: weather_topic_def)
      have "strip_suffix ''/grid'' (mqtt_topic c @ ''/weather'') = None"
        by (rule ccontr) (auto simp: append_eq_append_conv2 Cons_eq_append_conv)
      then show ?thesis by (simp add: from_grid_topic_def grid Let_def)
    next
      case (Some p)
      then have topic: "mqtt_topic c = p @ ''/sbs/raw''" by simp
      have grid: "weather_topic c = (p @ ''/weather'') @ ''/grid''"
        using blank Some by (simp add: weather_topic_def del: strip_suffix_iff)
      have "strip_suffix ''/grid'' ((p @ ''/weather'') @ ''/grid'') = Some (p @ ''/weather'')"
        by (rule strip_suffix_append)
      then show ?thesis by (simp add: from_grid_topic_def grid topic Let_def del: append_assoc)
    qed
  qed
qed

theorem weather_topics_separate_witness:
  "let t = from_grid_topic (weather_topic ((default_config ''out.sbs'')\<lparr>mqtt_topic := ''adsb/dev/sbs/raw''\<rparr>))
   in ''adsb/dev/sbs/raw'' \<notin> {wt_grid t, wt_status t, wt_availability t}"
  using weather_topics_separate [of _ "(default_config ''out.sbs'')\<lparr>mqtt_topic := ''adsb/dev/sbs/raw''\<rparr>"]
  by (simp add: default_config_def)

lemma availability_round_trip: "availability_parse (availability_as_str a) = Some a"
  by (cases a) (simp_all add: availability_parse_def from_utf8_def trim_eval)

subsection \<open>Row-major addressing\<close>

lemma grid_cells_nth:
  assumes "row < g_nlat g" and "col < g_nlon g"
  shows "grid_index g row col < grid_len g \<and> grid_cells g ! grid_index g row col = (row, col)
       \<and> length (grid_cells g) = grid_len g"
proof -
  have block: "length (concat (map (\<lambda>row. map (\<lambda>col. (row, col)) [0..<m]) [0..<n])) = n * m"
    and cell: "r < n \<Longrightarrow> c < m \<Longrightarrow> concat (map (\<lambda>row. map (\<lambda>col. (row, col)) [0..<m]) [0..<n]) ! (r * m + c) = (r, c)"
    for r c n m
  proof (induction n)
    case (Suc n)
    let ?cells = "concat (map (\<lambda>row. map (\<lambda>col. (row, col)) [0..<m]) [0..<n])"
    show "length (concat (map (\<lambda>row. map (\<lambda>col. (row, col)) [0..<m]) [0..<Suc n])) = Suc n * m"
      using Suc.IH(1) by (simp add: mult.commute)
    assume r: "r < Suc n" and c: "c < m"
    show "concat (map (\<lambda>row. map (\<lambda>col. (row, col)) [0..<m]) [0..<Suc n]) ! (r * m + c) = (r, c)"
    proof (cases "r < n")
      case True
      then have "Suc r * m \<le> n * m" by (simp only: mult_le_mono1 Suc_leI)
      then have "r * m + c < n * m" using c by simp
      with Suc.IH True c show ?thesis by (simp add: nth_append)
    next
      case False
      then have "r = n" using r by simp
      with Suc.IH(1) c show ?thesis by (simp add: nth_append)
    qed
  qed simp_all
  have "Suc row * g_nlon g \<le> g_nlat g * g_nlon g" using assms(1) by (simp only: mult_le_mono1 Suc_leI)
  then show ?thesis
    using block [where n = "g_nlat g" and m = "g_nlon g"] cell [OF assms] assms(2)
    by (simp add: grid_index_def grid_cells_def grid_len_def)
qed

subsection \<open>Choosing the hour\<close>

definition hour_distance :: "int \<Rightarrow> int \<Rightarrow> int" where
  "hour_distance now_ms t = \<bar>i64_sat (t * 1000) - now_ms\<bar>"

lemma select_from_spec:
  "case select_from k ts now_ms of
     None \<Rightarrow> ts = []
   | Some (i, d) \<Rightarrow> k \<le> i \<and> i - k < length ts \<and> d = hour_distance now_ms (ts ! (i - k))
       \<and> (\<forall>j < length ts. d \<le> hour_distance now_ms (ts ! j))
       \<and> (\<forall>j < i - k. d < hour_distance now_ms (ts ! j))"
proof (induction ts arbitrary: k)
  case (Cons t ts)
  show ?case
  proof (cases "select_from (Suc k) ts now_ms")
    case None
    with Cons.IH [of "Suc k"] show ?thesis by (simp add: hour_distance_def)
  next
    case (Some r)
    obtain i d where r: "r = (i, d)" by fastforce
    have "case Some (i, d) of None \<Rightarrow> ts = []
      | Some (i, d) \<Rightarrow> Suc k \<le> i \<and> i - Suc k < length ts \<and> d = hour_distance now_ms (ts ! (i - Suc k))
         \<and> (\<forall>j < length ts. d \<le> hour_distance now_ms (ts ! j))
         \<and> (\<forall>j < i - Suc k. d < hour_distance now_ms (ts ! j))"
      using Cons.IH [of "Suc k"] unfolding Some r .
    then have
      IH: "Suc k \<le> i" "i - Suc k < length ts" "d = hour_distance now_ms (ts ! (i - Suc k))"
        "\<forall>j < length ts. d \<le> hour_distance now_ms (ts ! j)"
        "\<forall>j < i - Suc k. d < hour_distance now_ms (ts ! j)"
      unfolding option.case prod.case by blast+
    let ?d = "hour_distance now_ms t"
    show ?thesis
    proof (cases "?d \<le> d")
      case True
      have "\<forall>j < Suc (length ts). ?d \<le> hour_distance now_ms ((t # ts) ! j)"
        using True IH(4) by (auto simp: less_Suc_eq_0_disj)
      with True Some r show ?thesis by (simp add: Let_def hour_distance_def)
    next
      case False
      have at: "(t # ts) ! (i - k) = ts ! (i - Suc k)" using IH(1) by (simp add: nth_Cons' Suc_diff_Suc)
      have "\<forall>j < Suc (length ts). d \<le> hour_distance now_ms ((t # ts) ! j)"
        using False IH(4) by (auto simp: less_Suc_eq_0_disj)
      moreover have "\<forall>j < i - k. d < hour_distance now_ms ((t # ts) ! j)"
      proof (intro allI impI)
        fix j
        assume "j < i - k"
        then show "d < hour_distance now_ms ((t # ts) ! j)"
          using False IH(1,5) by (cases j) auto
      qed
      moreover have "i - k < Suc (length ts)" "k \<le> i" using IH(1,2) by simp_all
      ultimately show ?thesis using False Some r IH(3) at by (simp add: Let_def hour_distance_def)
    qed
  qed
qed simp

lemma select_hour_spec:
  assumes "select_hour ts now_ms = Some i"
  shows "i < length ts" and "\<forall>j < length ts. hour_distance now_ms (ts ! i) \<le> hour_distance now_ms (ts ! j)"
    and "\<forall>j < i. hour_distance now_ms (ts ! i) < hour_distance now_ms (ts ! j)"
  using assms select_from_spec [where k = 0 and ts = ts and now_ms = now_ms] by (auto simp: select_hour_def)

subsection \<open>Assembling a snapshot\<close>

lemma btree_insert_set: "(l, f) \<in> set (btree_insert k v m) \<Longrightarrow> (l, f) = (k, v) \<or> (l, f) \<in> set m"
  by (induction m) (auto split: if_splits)

lemma btree_fold_set:
  "(l, f) \<in> set (fold (\<lambda>k. btree_insert k (v k)) ks m) \<Longrightarrow> (l \<in> set ks \<and> f = v l) \<or> (l, f) \<in> set m"
  by (induction ks arbitrary: m) (auto dest: btree_insert_set)

lemma btree_insert_keys: "fst ` set (btree_insert k v m) = insert k (fst ` set m)"
proof (induction m)
  case (Cons kv m)
  then show ?case by (cases kv) (simp add: insert_commute)
qed simp

lemma btree_fold_keys: "fst ` set (fold (\<lambda>k. btree_insert k (v k)) ks m) = set ks \<union> fst ` set m"
  by (induction ks arbitrary: m) (auto simp: btree_insert_keys)

text \<open>A snapshot that the service assembles is one that every consumer accepts: it passes
  validation, has exactly the requested levels, and carries, for the model hour nearest to now (the
  earlier one on a tie), each location's own value for that hour, or none.\<close>

theorem assembled_snapshot_valid:
  assumes "assemble_snapshot grid levels model locations now_ms fetched_at_ms = Inr s"
  shows "validate_snapshot s = Inr () \<and> fst ` set (sn_levels s) = set levels
     \<and> (\<exists>hour. hour < length (lr_time (hd locations)) \<and> sn_valid_time_ms s = lr_time (hd locations) ! hour * 1000
          \<and> (\<forall>j < length (lr_time (hd locations)).
               hour_distance now_ms (lr_time (hd locations) ! hour) \<le> hour_distance now_ms (lr_time (hd locations) ! j))
          \<and> sf_mslp (sn_surface s)
            = map (\<lambda>l. value_at l ''pressure_msl'' (lr_time (hd locations) ! hour)) locations)"
proof -
  from assms obtain l0 ls hour where
    len: "length locations = grid_len grid" and locs: "locations = l0 # ls"
    and hour: "select_hour (lr_time l0) now_ms = Some hour"
    by (auto simp: assemble_snapshot_def split: if_splits list.splits option.splits)
  let ?column = "\<lambda>variable. map (\<lambda>l. value_at l variable (lr_time l0 ! hour)) locations"
  let ?fields = "\<lambda>level. \<lparr>lf_wind_speed = ?column (''wind_speed_'' @ nat_str level @ ''hPa''),
    lf_wind_dir = ?column (''wind_direction_'' @ nat_str level @ ''hPa'')\<rparr>"
  have s: "sn_version s = SNAPSHOT_VERSION" "sn_grid s = grid" "sn_valid_time_ms s = lr_time l0 ! hour * 1000"
    "sn_surface s = \<lparr>sf_mslp = ?column ''pressure_msl'', sf_wind_speed = ?column ''wind_speed_10m'',
       sf_wind_dir = ?column ''wind_direction_10m''\<rparr>"
    "sn_levels s = fold (\<lambda>level. btree_insert level (?fields level)) levels []"
    using assms len locs hour by (auto simp: assemble_snapshot_def Let_def)
  have "lf_wind_speed f = ?column (''wind_speed_'' @ nat_str l @ ''hPa'')
      \<and> lf_wind_dir f = ?column (''wind_direction_'' @ nat_str l @ ''hPa'')"
    if "(l, f) \<in> set (sn_levels s)" for l f
    using btree_fold_set [OF that [unfolded s(5)]] by auto
  then have "validate_snapshot s = Inr ()"
    by (auto simp: validate_snapshot_def s Let_def first_error_ok ensure_len_def len)
  moreover have "fst ` set (sn_levels s) = set levels"
    unfolding s(5) btree_fold_keys by simp
  ultimately show ?thesis
    using select_hour_spec [OF hour] s(3,4) locs by auto
qed

definition one_location :: "nat location_response" where
  "one_location = \<lparr>lr_time = [0, 3600, 7200], lr_series = [''pressure_msl'' \<mapsto> [Some 1010, Some 1011, None]]\<rparr>"

theorem assembled_snapshot_valid_witness:
  "\<exists>s. assemble_snapshot \<lparr>g_lat0 = F_fin 45, g_lon0 = F_fin 5, g_dlat = F_fin 1, g_dlon = F_fin 1,
        g_nlat = 1, g_nlon = 1\<rparr> [850, 250] ''best_match'' [one_location] 5400000 0 = Inr s
     \<and> validate_snapshot s = Inr () \<and> sn_valid_time_ms s = 3600000"
proof -
  let ?g = "\<lparr>g_lat0 = F_fin 45, g_lon0 = F_fin 5, g_dlat = F_fin 1, g_dlon = F_fin 1, g_nlat = 1, g_nlon = 1\<rparr>"
  obtain s where s: "assemble_snapshot ?g [850, 250] ''best_match'' [one_location] 5400000 0 = Inr s"
    and v: "sn_valid_time_ms s = 3600000"
    by (simp add: assemble_snapshot_def grid_len_def one_location_def select_hour_def i64_sat_def Let_def)
  from assembled_snapshot_valid [OF s] s v show ?thesis by blast
qed

end
