(* ===== verification/Weather_State.thy ===== *)
theory Weather_State imports Weather_Types Forwarders begin

text \<open>
  \<open>adsb-weather-server/src/state_file.rs\<close> and \<open>control.rs\<close>: the durable state, its single owner, and
  the command side. What the disk answers to each write is a list carried by the store; the JSON of
  a \<open>PersistedState\<close> is the state itself, since \<open>serde_json\<close> reads back what it wrote.
\<close>

record persisted_state =
  ps_enabled :: bool
  ps_not_before_ms :: "int option"

definition default_persisted :: persisted_state where
  "default_persisted = \<lparr>ps_enabled = True, ps_not_before_ms = None\<rparr>"

datatype state_file = No_File | Unreadable_File | Stored persisted_state

datatype state_file_error = State_Io | State_Json

record state_store =
  ss_persistent :: bool \<comment> \<open>\<open>path.is_some()\<close>\<close>
  ss_state :: persisted_state
  ss_file :: state_file
  ss_disk :: "bool list" \<comment> \<open>what the next writes will answer\<close>

definition store_load :: "state_file \<Rightarrow> state_file_error + persisted_state option" where
  "store_load f = (case f of No_File \<Rightarrow> Inr None | Unreadable_File \<Rightarrow> Inl State_Json | Stored s \<Rightarrow> Inr (Some s))"

definition store_open :: "bool \<Rightarrow> state_file \<Rightarrow> bool list \<Rightarrow> state_store \<times> state_file_error option" where
  "store_open has_path f disk =
     (let (state, err) =
        (if \<not> has_path then (default_persisted, None)
         else (case store_load f of
             Inr None \<Rightarrow> (default_persisted, None)
           | Inr (Some s) \<Rightarrow> (s, None)
           | Inl e \<Rightarrow> (default_persisted, Some e)))
      in (\<lparr>ss_persistent = has_path, ss_state = state, ss_file = f, ss_disk = disk\<rparr>, err))"

text \<open>\<open>save\<close>: a write that fails leaves the old file (temporary file, then rename).\<close>

definition store_save :: "persisted_state \<Rightarrow> state_store \<Rightarrow> (state_file_error + unit) \<times> state_store" where
  "store_save state s = (let (ok, disk) = next_answer (ss_disk s); s = s\<lparr>ss_disk := disk\<rparr>
     in if ok then (Inr (), s\<lparr>ss_file := Stored state\<rparr>) else (Inl State_Io, s))"

definition store_update ::
  "(persisted_state \<Rightarrow> persisted_state) \<Rightarrow> state_store \<Rightarrow> (state_file_error + persisted_state) \<times> state_store" where
  "store_update change s =
     (let nxt = change (ss_state s)
      in if nxt = ss_state s then (Inr nxt, s)
         else if ss_persistent s
         then (case store_save nxt s of
                 (Inl e, s) \<Rightarrow> (Inl e, s)
               | (Inr _, s) \<Rightarrow> (Inr nxt, s\<lparr>ss_state := nxt\<rparr>))
         else (Inr nxt, s\<lparr>ss_state := nxt\<rparr>))"

record control =
  ct_store :: state_store
  ct_desired :: bool \<comment> \<open>the value of the watch channel\<close>
  ct_wakes :: nat \<comment> \<open>how often its subscribers were woken\<close>

definition control_new :: "state_store \<Rightarrow> control" where
  "control_new s = \<lparr>ct_store = s, ct_desired = ps_enabled (ss_state s), ct_wakes = 0\<rparr>"

definition set_enabled :: "bool \<Rightarrow> control \<Rightarrow> (state_file_error + unit) \<times> control" where
  "set_enabled enabled c =
     (case store_update (\<lambda>s. s\<lparr>ps_enabled := enabled\<rparr>) (ct_store c) of
        (Inl e, s) \<Rightarrow> (Inl e, c\<lparr>ct_store := s\<rparr>)
      | (Inr _, s) \<Rightarrow>
          (Inr (), c\<lparr>ct_store := s, ct_desired := enabled,
                    ct_wakes := ct_wakes c + (if ct_desired c \<noteq> enabled then 1 else 0)\<rparr>))"

text \<open>The two writers of the store: operator commands and the refresh loop's not-before time.\<close>

datatype state_op = Command bool | Not_Before "int option"

fun run_state_op :: "state_op \<Rightarrow> control \<Rightarrow> control" where
  "run_state_op (Command b) c = snd (set_enabled b c)"
| "run_state_op (Not_Before t) c =
     c\<lparr>ct_store := snd (store_update (\<lambda>s. s\<lparr>ps_not_before_ms := t\<rparr>) (ct_store c))\<rparr>"

subsection \<open>What a restart comes back with\<close>

definition durable :: "state_store \<Rightarrow> bool" where
  "durable s \<longleftrightarrow> ss_persistent s \<and>
     (case ss_file s of Stored p \<Rightarrow> p = ss_state s | _ \<Rightarrow> ss_state s = default_persisted)"

lemma set_enabled_same [simp]: "s\<lparr>ps_enabled := b\<rparr> = s \<longleftrightarrow> ps_enabled s = b"
  by (cases s) auto

lemma open_durable: "durable (fst (store_open True f disk))"
  by (auto simp: durable_def store_open_def store_load_def split: state_file.splits)

lemma update_durable: "durable s \<Longrightarrow> durable (snd (store_update change s))"
  by (auto simp: durable_def store_update_def store_save_def Let_def split: prod.splits state_file.splits)

lemma durable_reopens: "durable s \<Longrightarrow> ss_state (fst (store_open True (ss_file s) disk)) = ss_state s"
  by (auto simp: durable_def store_open_def store_load_def split: state_file.splits)

text \<open>What the service does is what a restart comes back with. Through any commands and any
  not-before times, with writes failing at any point, the setting the service acts on is the stored
  one, and opening the file again gives the same state; a failed write changes neither.\<close>

theorem state_survives_restart:
  "let c = fold run_state_op ops (control_new (fst (store_open True f disk)))
   in ct_desired c = ps_enabled (ss_state (ct_store c))
    \<and> ss_state (fst (store_open True (ss_file (ct_store c)) disk')) = ss_state (ct_store c)"
proof -
  have "durable (ct_store c') \<and> ct_desired c' = ps_enabled (ss_state (ct_store c'))"
    if "durable (ct_store c)" "ct_desired c = ps_enabled (ss_state (ct_store c))" "c' = fold run_state_op ops c"
    for c c'
    using that
  proof (induction ops arbitrary: c)
    case (Cons x ops)
    let ?d = "run_state_op x c"
    have "durable (ct_store ?d)"
      using Cons.prems(1) update_durable
      by (cases x) (auto simp: set_enabled_def split: prod.splits sum.splits, (metis snd_conv)+)
    moreover have "ct_desired ?d = ps_enabled (ss_state (ct_store ?d))"
      using Cons.prems(2)
      by (cases x) (auto simp: set_enabled_def store_update_def store_save_def Let_def
          split: prod.splits sum.splits if_splits)
    ultimately show ?case using Cons.IH [of ?d] Cons.prems(3) by simp
  qed simp
  from this [of "control_new (fst (store_open True f disk))"] open_durable [of f disk]
  show ?thesis by (simp add: control_new_def durable_reopens Let_def)
qed

lemma failed_write_changes_nothing:
  "fst (set_enabled b c) = Inl e \<Longrightarrow>
   ct_desired (snd (set_enabled b c)) = ct_desired c \<and> ct_wakes (snd (set_enabled b c)) = ct_wakes c
   \<and> ss_state (ct_store (snd (set_enabled b c))) = ss_state (ct_store c)
   \<and> ss_file (ct_store (snd (set_enabled b c))) = ss_file (ct_store c)"
  by (auto simp: set_enabled_def store_update_def store_save_def Let_def
      split: prod.splits sum.splits if_splits)

lemma repeated_command_wakes_nobody:
  "ct_desired c = b \<Longrightarrow> ct_wakes (snd (set_enabled b c)) = ct_wakes c"
  by (auto simp: set_enabled_def split: prod.splits sum.splits)

end
