(* ===== verification/F64_Time.thy ===== *)
theory F64_Time imports F64 begin

text \<open>
  Rust's \<open>Duration\<close> against \<open>f64\<close>: \<open>as_secs_f64\<close>, \<open>from_secs_f64\<close> (which panics on a negative, NaN or
  too large argument: \<open>None\<close>), \<open>mul_f64\<close>, and \<open>f64\<close> division and clamping. The lemmas bound what the
  rounding can do: up to \<open>2^22\<close> seconds (48 days) a duration survives the way to seconds and back,
  so that scaling it by a factor on one side of one moves it to that side.
\<close>

fun f64_div :: "f64 \<Rightarrow> f64 \<Rightarrow> f64" where
  "f64_div (F_fin a) (F_fin b) =
     (if b = 0 then (if a = 0 then F_nan else F_inf (a < 0)) else round64 (a / b))"
| "f64_div (F_inf m) (F_fin b) = F_inf (m \<noteq> (b < 0))"
| "f64_div (F_fin a) (F_inf n) = F_fin 0"
| "f64_div _ _ = F_nan"

definition f64_clamp :: "f64 \<Rightarrow> f64 \<Rightarrow> f64 \<Rightarrow> f64" where
  "f64_clamp x lo hi = (if f64_lt x lo then lo else if f64_lt hi x then hi else x)"

definition as_secs_f64 :: "duration \<Rightarrow> f64" where
  "as_secs_f64 d = f64_add (f64_of_nat (d div NS_PER_SEC))
                           (f64_div (f64_of_nat (d mod NS_PER_SEC)) (f64_of_nat NS_PER_SEC))"

definition from_secs_f64 :: "f64 \<Rightarrow> duration option" where
  "from_secs_f64 x = (case x of
      F_fin q \<Rightarrow> if q < 0 \<or> 2 ^ 64 \<le> q then None else Some (nat (round_half_even (q * of_nat NS_PER_SEC)))
    | _ \<Rightarrow> None)"

definition mul_f64 :: "duration \<Rightarrow> f64 \<Rightarrow> duration option" where
  "mul_f64 d k = from_secs_f64 (f64_mul k (as_secs_f64 d))"

subsection \<open>The rounding error\<close>

lemma round_fin_near: "\<bar>round_fin q - q\<bar> \<le> pow2 (ulp_exp q) / 2"
proof (cases "q = 0")
  case False
  let ?u = "pow2 (ulp_exp q)"
  have "\<bar>of_int (round_half_even (q / ?u)) - q / ?u\<bar> * ?u \<le> 1 / 2 * ?u"
    using round_half_even_near [of "q / ?u"] by (intro mult_right_mono) (auto simp: less_imp_le)
  also have "\<bar>of_int (round_half_even (q / ?u)) - q / ?u\<bar> * ?u
      = \<bar>(of_int (round_half_even (q / ?u)) - q / ?u) * ?u\<bar>"
    using pow2_pos [of "ulp_exp q"] by (simp add: abs_mult del: pow2_pos)
  also have "(of_int (round_half_even (q / ?u)) - q / ?u) * ?u = round_fin q - q"
    using False by (simp add: round_fin_def left_diff_distrib)
  finally show ?thesis by simp
qed (simp add: round_fin_def less_imp_le)

lemma round_fin_near_below:
  assumes "0 \<le> q" and "q < pow2 (k + 1)" and "- 1022 \<le> k"
  shows "\<bar>round_fin q - q\<bar> \<le> pow2 (k - 53)"
proof (cases "q = 0")
  case False
  with assms have "ilog2 \<bar>q\<bar> \<le> k" by (intro ilog2_le) auto
  with assms(3) have "ulp_exp q \<le> k - 52" by (simp add: ulp_exp_def)
  then have "pow2 (ulp_exp q) \<le> pow2 (k - 52)" by (simp add: pow2_le_iff)
  also have "pow2 (k - 52) = 2 * pow2 (k - 53)"
    using pow2_add [of 1 "k - 53"] by (simp add: pow2_def [of 1])
  finally show ?thesis using round_fin_near [of q] by linarith
qed (simp add: round_fin_def less_imp_le)

lemma ilog2_pow2 [simp]: "ilog2 (pow2 k) = k"
proof (rule antisym)
  show "ilog2 (pow2 k) \<le> k" by (rule ilog2_le) (auto simp: pow2_less_iff)
  show "k \<le> ilog2 (pow2 k)"
    using ilog2_bounds(2) [of "pow2 k"] by (simp add: pow2_less_iff)
qed

text \<open>A rounded value is not rounded again.\<close>

lemma round_fin_idem: 
  assumes "0 \<le> q"
  shows "round_fin (round_fin q) = round_fin q"
proof (cases "q = 0")
  case False
  let ?e = "ulp_exp q" and ?m = "round_half_even (q / pow2 (ulp_exp q))"
  have r: "round_fin q = of_int ?m * pow2 ?e" using False by (simp add: round_fin_def)
  have m0: "0 \<le> ?m"
    using round_fin_nonneg [OF assms] r pow2_pos [of ?e] by (simp add: zero_le_mult_iff)
  have "q < pow2 (?e + 53)"
  proof -
    have "q < pow2 (ilog2 q + 1)" using assms False by (intro ilog2_bounds) auto
    also have "\<dots> \<le> pow2 (?e + 53)" using assms by (auto simp: pow2_le_iff ulp_exp_def)
    finally show ?thesis .
  qed
  then have "q / pow2 ?e \<le> of_int (2 ^ 53)"
    by (simp add: pow2_add pos_divide_le_eq pow2_def [of 53])
  then have "?m \<le> round_half_even (of_int (2 ^ 53))" by (rule round_half_even_mono)
  then have m53: "?m \<le> 2 ^ 53" by (simp only: round_half_even_int)
  show ?thesis
  proof (cases "?m = 2 ^ 53")
    case True
    have "round_fin q = pow2 (?e + 53)" unfolding r True by (simp add: pow2_add pow2_def [of 53])
    moreover have "round_fin (pow2 k) = pow2 k" if "- 1074 \<le> k" for k
    proof (rule round_fin_grid [where m = 1 and e = k])
      show "ulp_exp (pow2 k) \<le> k" using that by (simp add: ulp_exp_def less_imp_le)
    qed simp
    moreover have "- 1074 \<le> ?e + 53" by (simp add: ulp_exp_def)
    ultimately show ?thesis by simp
  next
    case False
    with m53 have "?m < 2 ^ 53" by simp
    then have "(of_int ?m :: rat) < of_int (2 ^ 53)" by (simp only: of_int_less_iff)
    then have lt: "round_fin q < pow2 (?e + 53)"
      by (simp add: r pow2_add pow2_def [of 53])
    show ?thesis
    proof (cases "?m = 0")
      case True
      then show ?thesis by (simp add: r round_fin_def)
    next
      case False
      with m0 have "0 < round_fin q" by (simp add: r zero_less_mult_iff)
      with lt have "ilog2 \<bar>round_fin q\<bar> \<le> ?e + 52" by (intro ilog2_le) (simp_all add: add.commute)
      then have "ulp_exp (round_fin q) \<le> ?e" by (simp add: ulp_exp_def)
      then show ?thesis using r by (rule round_fin_grid)
    qed
  qed
qed (simp add: round_fin_def)

lemma round64_fin:
  assumes "0 \<le> q" and "q \<le> 2 ^ 100"
  shows "round64 q = F_fin (round_fin q)"
proof -
  have "round_fin q \<le> round_fin (pow2 100)"
    using assms by (intro round_fin_mono) (simp add: pow2_def)
  also have "\<dots> = pow2 100"
    by (rule round_fin_grid [where m = 1 and e = 100]) (simp_all add: ulp_exp_def less_imp_le)
  also have "\<dots> < pow2 1024" by (simp add: pow2_less_iff)
  finally have "\<not> pow2 1024 \<le> \<bar>round_fin q\<bar>" using round_fin_nonneg [OF assms(1)] by simp
  then show ?thesis by (simp add: round64_def)
qed

text \<open>Short binary fractions are exact.\<close>

lemma round64_dyadic:
  assumes "\<bar>m\<bar> < 2 ^ 53" and "k \<le> 1074"
  shows "round64 (of_int m / 2 ^ k) = F_fin (of_int m / 2 ^ k)"
proof (cases "m = 0")
  case False
  have p: "(of_int m / 2 ^ k :: rat) = of_int m * pow2 (- int k)"
    by (simp add: pow2_def)
  have "(of_int \<bar>m\<bar> :: rat) < of_int (2 ^ 53)" using assms(1) by (simp only: of_int_less_iff)
  then have lt: "\<bar>of_int m :: rat\<bar> < pow2 53" by (simp add: pow2_def)
  have small: "\<bar>of_int m / 2 ^ k :: rat\<bar> < pow2 (53 - int k)"
    using lt by (simp add: abs_divide pow2_diff divide_strict_right_mono)
  then have "ilog2 \<bar>of_int m / 2 ^ k\<bar> \<le> 52 - int k" using False by (intro ilog2_le) auto
  then have "ulp_exp (of_int m / 2 ^ k) \<le> - int k" using assms(2) by (simp add: ulp_exp_def)
  then have "round_fin (of_int m / 2 ^ k) = of_int m / 2 ^ k" using p by (rule round_fin_grid)
  moreover have "pow2 (53 - int k) < pow2 1024" by (simp add: pow2_less_iff)
  ultimately show ?thesis using small by (simp add: round64_def)
next
  case True
  then show ?thesis using pow2_pos [of 1024] by (simp add: round64_def round_fin_def not_le del: pow2_pos)
qed

subsection \<open>Seconds and back\<close>

definition secs_of :: "duration \<Rightarrow> rat" where
  "secs_of d = round_fin (of_nat (d div NS_PER_SEC) + round_fin (of_nat (d mod NS_PER_SEC) / of_nat NS_PER_SEC))"

abbreviation DAYS48 :: duration where "DAYS48 \<equiv> 2 ^ 22 * NS_PER_SEC"

lemma f64_of_small_nat:
  assumes "n < 2 ^ 53"
  shows "f64_of_nat n = F_fin (of_nat n)"
proof -
  have "(int n) < int (2 ^ 53)" using assms by (simp only: of_nat_less_iff)
  then have "round64 (of_int (int n)) = F_fin (of_int (int n))"
    by (intro round64_small_int) simp
  then show ?thesis by (simp add: f64_of_nat_def)
qed

lemma nanos_part:
  assumes "n < NS_PER_SEC"
  shows "round_fin (of_nat n / of_nat NS_PER_SEC) \<le> 1"
    and "0 \<le> round_fin (of_nat n / of_nat NS_PER_SEC)"
    and "\<bar>round_fin (of_nat n / of_nat NS_PER_SEC) - of_nat n / of_nat NS_PER_SEC\<bar> \<le> pow2 (- 54)"
proof -
  have q: "0 \<le> (of_nat n / of_nat NS_PER_SEC :: rat)" "(of_nat n / of_nat NS_PER_SEC :: rat) < 1"
    using assms by (simp_all add: divide_less_eq)
  have "round_fin (of_nat n / of_nat NS_PER_SEC) \<le> round_fin (of_int 1)"
    using q by (intro round_fin_mono) auto
  then show "round_fin (of_nat n / of_nat NS_PER_SEC) \<le> 1"
    using round_fin_small_int [of 1] by simp
  show "0 \<le> round_fin (of_nat n / of_nat NS_PER_SEC)" using q(1) by (rule round_fin_nonneg)
  have "\<bar>round_fin (of_nat n / of_nat NS_PER_SEC) - of_nat n / of_nat NS_PER_SEC\<bar> \<le> pow2 (- 1 - 53)"
    using q by (intro round_fin_near_below) (simp_all add: pow2_def)
  then show "\<bar>round_fin (of_nat n / of_nat NS_PER_SEC) - of_nat n / of_nat NS_PER_SEC\<bar> \<le> pow2 (- 54)"
    by simp
qed

lemma as_secs_f64_eq:
  assumes "d < DAYS48"
  shows "as_secs_f64 d = F_fin (secs_of d)"
proof -
  have s: "d div NS_PER_SEC < 2 ^ 22" using assms by (simp add: div_less_iff_less_mult)
  have n: "d mod NS_PER_SEC < NS_PER_SEC" by simp
  let ?y = "round_fin (of_nat (d mod NS_PER_SEC) / of_nat NS_PER_SEC)"
  have div: "f64_div (f64_of_nat (d mod NS_PER_SEC)) (f64_of_nat NS_PER_SEC) = F_fin ?y"
  proof -
    have "0 \<le> (of_nat (d mod NS_PER_SEC) / of_nat NS_PER_SEC :: rat)"
      and "(of_nat (d mod NS_PER_SEC) / of_nat NS_PER_SEC :: rat) \<le> 2 ^ 100"
      using n by (simp_all add: divide_le_eq)
    then have "round64 (of_nat (d mod NS_PER_SEC) / of_nat NS_PER_SEC) = F_fin ?y" by (rule round64_fin)
    moreover have "f64_of_nat (d mod NS_PER_SEC) = F_fin (of_nat (d mod NS_PER_SEC))"
      using n by (intro f64_of_small_nat) simp
    moreover have "f64_of_nat NS_PER_SEC = F_fin (of_nat NS_PER_SEC)" by (rule f64_of_small_nat) simp
    ultimately show ?thesis by simp
  qed
  have "(of_nat (d div NS_PER_SEC) :: rat) \<le> of_nat (2 ^ 22)" using s by (simp only: of_nat_le_iff)
  then have "of_nat (d div NS_PER_SEC) + ?y \<le> 2 ^ 100" using nanos_part(1) [OF n] by simp
  moreover have "0 \<le> of_nat (d div NS_PER_SEC) + ?y" using nanos_part(2) [OF n] by simp
  ultimately have "round64 (of_nat (d div NS_PER_SEC) + ?y) = F_fin (secs_of d)"
    unfolding secs_of_def by (intro round64_fin)
  moreover have "f64_of_nat (d div NS_PER_SEC) = F_fin (of_nat (d div NS_PER_SEC))"
    using s by (intro f64_of_small_nat) simp
  ultimately show ?thesis unfolding as_secs_f64_def div by simp
qed

lemma secs_of_near:
  assumes "d < DAYS48"
  shows "\<bar>secs_of d * of_nat NS_PER_SEC - of_nat d\<bar> < 1 / 2" and "0 \<le> secs_of d" and "secs_of d \<le> 2 ^ 23"
    and "round_fin (secs_of d) = secs_of d"
proof -
  have s: "d div NS_PER_SEC < 2 ^ 22" using assms by (simp add: div_less_iff_less_mult)
  have n: "d mod NS_PER_SEC < NS_PER_SEC" by simp
  let ?x = "of_nat (d div NS_PER_SEC) :: rat" and ?n = "of_nat (d mod NS_PER_SEC) / of_nat NS_PER_SEC :: rat"
  have x: "?x \<le> of_nat (2 ^ 22)" "0 \<le> ?x" using s by (simp only: of_nat_le_iff) simp
  have lt: "?x + round_fin ?n < pow2 (22 + 1)" and nn: "0 \<le> ?x + round_fin ?n"
    using x nanos_part(1,2) [OF n] by (simp_all add: pow2_def)
  have e1: "\<bar>secs_of d - (?x + round_fin ?n)\<bar> \<le> pow2 (22 - 53)"
    unfolding secs_of_def using nn lt by (rule round_fin_near_below) simp
  have e2: "\<bar>round_fin ?n - ?n\<bar> \<le> pow2 (- 54)" by (rule nanos_part(3) [OF n])
  have exact: "?x + ?n = of_nat d / of_nat NS_PER_SEC"
  proof -
    have "of_nat d = (of_nat (d div NS_PER_SEC * NS_PER_SEC + d mod NS_PER_SEC) :: rat)"
      by (simp only: div_mult_mod_eq)
    then have "of_nat d = (?x * of_nat NS_PER_SEC + of_nat (d mod NS_PER_SEC) :: rat)"
      by (simp only: of_nat_add of_nat_mult)
    then show ?thesis by (simp add: add_divide_distrib)
  qed
  have "\<bar>secs_of d - of_nat d / of_nat NS_PER_SEC\<bar> \<le> pow2 (22 - 53) + pow2 (- 54)"
    using e1 e2 exact by linarith
  then have "\<bar>secs_of d - of_nat d / of_nat NS_PER_SEC\<bar> * of_nat NS_PER_SEC
      \<le> (pow2 (22 - 53) + pow2 (- 54)) * of_nat NS_PER_SEC"
    by (intro mult_right_mono) auto
  also have "\<dots> < 1 / 2" by (simp add: pow2_def)
  also have "\<bar>secs_of d - of_nat d / of_nat NS_PER_SEC\<bar> * of_nat NS_PER_SEC
      = \<bar>(secs_of d - of_nat d / of_nat NS_PER_SEC) * of_nat NS_PER_SEC\<bar>"
    by (simp only: abs_mult abs_of_nat)
  finally show "\<bar>secs_of d * of_nat NS_PER_SEC - of_nat d\<bar> < 1 / 2" by (simp add: left_diff_distrib)
  show "0 \<le> secs_of d" unfolding secs_of_def using nn by (rule round_fin_nonneg)
  show "round_fin (secs_of d) = secs_of d" unfolding secs_of_def using nn by (rule round_fin_idem)
  have "secs_of d \<le> round_fin (of_int (2 ^ 23))"
    unfolding secs_of_def using lt by (intro round_fin_mono) (simp add: pow2_def)
  then show "secs_of d \<le> 2 ^ 23" using round_fin_small_int [of "2 ^ 23"] by simp
qed

lemma round_half_even_near_int:
  assumes "\<bar>q - of_int n\<bar> < 1 / 2"
  shows "round_half_even q = n"
proof -
  have "\<bar>of_int (round_half_even q) - q\<bar> \<le> (1 / 2 :: rat)" by (rule round_half_even_near)
  with assms have "of_int (round_half_even q) < (of_int (n + 1) :: rat)"
    and "of_int n < (of_int (round_half_even q + 1) :: rat)" unfolding of_int_add of_int_1 by linarith+
  then have "round_half_even q < n + 1" and "n < round_half_even q + 1" by (simp_all only: of_int_less_iff)
  then show ?thesis by simp
qed

lemma duration_round_trip: "d < DAYS48 \<Longrightarrow> from_secs_f64 (as_secs_f64 d) = Some d"
proof -
  assume d: "d < DAYS48"
  have "\<bar>secs_of d * of_nat NS_PER_SEC - of_int (int d)\<bar> < 1 / 2" using secs_of_near(1) [OF d] by simp
  then have "round_half_even (secs_of d * of_nat NS_PER_SEC) = int d" by (rule round_half_even_near_int)
  moreover have "\<not> 2 ^ 64 \<le> secs_of d" "\<not> secs_of d < 0" using secs_of_near(2,3) [OF d] by simp_all
  ultimately show ?thesis by (simp add: as_secs_f64_eq [OF d] from_secs_f64_def)
qed

subsection \<open>Scaling\<close>

text \<open>Scaling by a finite factor up to two always gives a duration.\<close>

lemma mul_f64_defined:
  assumes "d < DAYS48" and "0 \<le> k" and "k \<le> 2"
  shows "mul_f64 d (F_fin k) =
    Some (nat (round_half_even (round_fin (k * secs_of d) * of_nat NS_PER_SEC)))"
    and "0 \<le> round_fin (k * secs_of d)"
proof -
  note s = secs_of_near(2,3) [OF assms(1)]
  have nn: "0 \<le> k * secs_of d" using assms(2) s(1) by simp
  have "k * secs_of d \<le> 2 * 2 ^ 23" using assms s by (intro mult_mono) auto
  then have small: "k * secs_of d \<le> 2 ^ 24" by simp
  then have "round_fin (k * secs_of d) \<le> round_fin (of_int (2 ^ 24))" by (intro round_fin_mono) simp
  then have "round_fin (k * secs_of d) \<le> 2 ^ 24" using round_fin_small_int [of "2 ^ 24"] by simp
  moreover show "0 \<le> round_fin (k * secs_of d)" using nn by (rule round_fin_nonneg)
  moreover have "round64 (k * secs_of d) = F_fin (round_fin (k * secs_of d))"
    using nn small by (intro round64_fin) auto
  ultimately show "mul_f64 d (F_fin k) =
    Some (nat (round_half_even (round_fin (k * secs_of d) * of_nat NS_PER_SEC)))"
    by (simp add: mul_f64_def as_secs_f64_eq [OF assms(1)] from_secs_f64_def)
qed

lemma mul_f64_mono:
  assumes "d < DAYS48" and "0 \<le> j" and "j \<le> k" and "k \<le> 2"
    and "mul_f64 d (F_fin j) = Some x" and "mul_f64 d (F_fin k) = Some y"
  shows "x \<le> y"
proof -
  have "j * secs_of d \<le> k * secs_of d" by (rule mult_right_mono [OF assms(3) secs_of_near(2) [OF assms(1)]])
  then have "round_fin (j * secs_of d) * of_nat NS_PER_SEC \<le> round_fin (k * secs_of d) * of_nat NS_PER_SEC"
    by (rule mult_right_mono [OF round_fin_mono]) simp
  then have "round_half_even (round_fin (j * secs_of d) * of_nat NS_PER_SEC)
      \<le> round_half_even (round_fin (k * secs_of d) * of_nat NS_PER_SEC)" by (rule round_half_even_mono)
  then show ?thesis
    using mul_f64_defined(1) [OF assms(1), of j] mul_f64_defined(1) [OF assms(1), of k] assms by auto
qed

lemma mul_f64_one: "d < DAYS48 \<Longrightarrow> mul_f64 d (F_fin 1) = Some d"
proof -
  assume d: "d < DAYS48"
  have "round64 (secs_of d) = F_fin (secs_of d)"
    using round64_fin [of "secs_of d"] secs_of_near(2-4) [OF d] by simp
  then show ?thesis using duration_round_trip [OF d] by (simp add: mul_f64_def as_secs_f64_eq [OF d])
qed

lemma mul_f64_ge:
  "d < DAYS48 \<Longrightarrow> 1 \<le> k \<Longrightarrow> k \<le> 2 \<Longrightarrow> mul_f64 d (F_fin k) = Some e \<Longrightarrow> d \<le> e"
  using mul_f64_mono [where j = 1 and k = k and x = d and y = e] mul_f64_one by auto

lemma mul_f64_le:
  "d < DAYS48 \<Longrightarrow> 0 \<le> k \<Longrightarrow> k \<le> 1 \<Longrightarrow> mul_f64 d (F_fin k) = Some e \<Longrightarrow> e \<le> d"
  using mul_f64_mono [where j = k and k = 1 and x = e and y = d] mul_f64_one by auto

text \<open>Halving keeps whole seconds up to the rounding of the half.\<close>

lemma mul_f64_at_least_secs:
  assumes "d < DAYS48" and "k \<le> 2" and "1 / 2 \<le> k" and "2 * n * NS_PER_SEC \<le> d"
    and "mul_f64 d (F_fin k) = Some e"
  shows "n * NS_PER_SEC \<le> e"
proof -
  have n: "n < 2 ^ 22" using assms(1,4) by simp
  have "2 * n \<le> d div NS_PER_SEC" using div_le_mono [OF assms(4), of NS_PER_SEC] by simp
  then have "(of_nat (2 * n) :: rat) \<le> of_nat (d div NS_PER_SEC)" by (simp only: of_nat_le_iff)
  moreover have "0 \<le> round_fin (of_nat (d mod NS_PER_SEC) / of_nat NS_PER_SEC)"
    by (rule nanos_part) simp
  ultimately have "of_int (int (2 * n)) \<le> of_nat (d div NS_PER_SEC)
      + round_fin (of_nat (d mod NS_PER_SEC) / of_nat NS_PER_SEC)" by simp
  then have "round_fin (of_int (int (2 * n))) \<le> secs_of d"
    unfolding secs_of_def by (rule round_fin_mono)
  moreover have "round_fin (of_int (int (2 * n))) = of_int (int (2 * n))"
    using n by (intro round_fin_small_int) simp
  ultimately have "2 * of_nat n \<le> secs_of d" by simp
  then have "1 / 2 * (2 * of_nat n) \<le> k * secs_of d" using assms(3) by (intro mult_mono) auto
  then have "round_fin (of_int (int n)) \<le> round_fin (k * secs_of d)" by (intro round_fin_mono) simp
  moreover have "round_fin (of_int (int n)) = of_int (int n)"
    using n by (intro round_fin_small_int) simp
  ultimately have "of_int (int n * int NS_PER_SEC) \<le> round_fin (k * secs_of d) * of_nat NS_PER_SEC" by simp
  then have "round_half_even (of_int (int n * int NS_PER_SEC))
      \<le> round_half_even (round_fin (k * secs_of d) * of_nat NS_PER_SEC)" by (rule round_half_even_mono)
  then have "int n * int NS_PER_SEC \<le> round_half_even (round_fin (k * secs_of d) * of_nat NS_PER_SEC)"
    by (simp only: round_half_even_int)
  then show ?thesis using mul_f64_defined(1) [OF assms(1), of k] assms by (auto simp: nat_le_iff le_nat_iff)
qed

end
