(* ===== verification/Weather_Grid.thy ===== *)
theory Weather_Grid imports Weather_Types F64_Time "HOL-Library.Word" begin

text \<open>
  The geometry of \<open>adsb-weather-server/src/grid.rs\<close>: coordinates of the cells and the grid around
  a receiver, in \<open>f64\<close> arithmetic with Rust's saturating casts and the wrap-around of its integers
  in a release build. The cosine is a parameter: the standard library leaves its precision open.
\<close>

subsection \<open>Rounding and casts\<close>

text \<open>\<open>f64::round\<close> rounds half-way cases away from zero; it, \<open>ceil\<close> and \<open>floor\<close> are exact.\<close>

definition round_away :: "rat \<Rightarrow> int" where
  "round_away q = (if 0 \<le> q then \<lfloor>q + 1 / 2\<rfloor> else - \<lfloor>- q + 1 / 2\<rfloor>)"

definition f64_integral :: "(rat \<Rightarrow> int) \<Rightarrow> f64 \<Rightarrow> f64" where
  "f64_integral rounding x = (case x of F_fin q \<Rightarrow> F_fin (of_int (rounding q)) | _ \<Rightarrow> x)"

definition f64_round :: "f64 \<Rightarrow> f64" where
  "f64_round = f64_integral round_away"

definition f64_ceil :: "f64 \<Rightarrow> f64" where
  "f64_ceil = f64_integral ceiling"

definition f64_floor :: "f64 \<Rightarrow> f64" where
  "f64_floor = f64_integral floor"

text \<open>\<open>x as i64\<close> and \<open>x as usize\<close>: towards zero, saturating, NaN to zero.\<close>

definition f64_to_int :: "int \<Rightarrow> int \<Rightarrow> f64 \<Rightarrow> int" where
  "f64_to_int lo hi x = (case x of
      F_fin q \<Rightarrow> max lo (min hi (if 0 \<le> q then \<lfloor>q\<rfloor> else \<lceil>q\<rceil>))
    | F_inf neg \<Rightarrow> if neg then lo else hi
    | F_nan \<Rightarrow> 0)"

definition as_i64 :: "f64 \<Rightarrow> int" where
  "as_i64 = f64_to_int I64_MIN I64_MAX"

definition as_usize :: "f64 \<Rightarrow> nat" where
  "as_usize x = nat (f64_to_int 0 (int U64_MAX) x)"

definition i64_wrap :: "int \<Rightarrow> int" where
  "i64_wrap x = sint (word_of_int x :: 64 word)"

definition usize_wrap :: "int \<Rightarrow> nat" where
  "usize_wrap x = unat (word_of_int x :: 64 word)"

text \<open>\<open>%\<close> and \<open>rem_euclid\<close>; the remainder of two doubles is exact.\<close>

fun f64_rem :: "f64 \<Rightarrow> f64 \<Rightarrow> f64" where
  "f64_rem (F_fin a) (F_fin b) =
     (if b = 0 then F_nan else F_fin (a - of_int (if 0 \<le> a / b then \<lfloor>a / b\<rfloor> else \<lceil>a / b\<rceil>) * b))"
| "f64_rem (F_fin a) (F_inf _) = F_fin a"
| "f64_rem _ _ = F_nan"

definition f64_abs :: "f64 \<Rightarrow> f64" where
  "f64_abs x = (case x of F_fin q \<Rightarrow> F_fin \<bar>q\<bar> | F_inf _ \<Rightarrow> F_inf False | F_nan \<Rightarrow> F_nan)"

definition f64_rem_euclid :: "f64 \<Rightarrow> f64 \<Rightarrow> f64" where
  "f64_rem_euclid x b =
     (let r = f64_rem x b in if f64_lt r (F_fin 0) then f64_add r (f64_abs b) else r)"

subsection \<open>Coordinates\<close>

definition round6 :: "f64 \<Rightarrow> f64" where
  "round6 v = f64_div (f64_round (f64_mul v (F_fin (10 ^ 6)))) (F_fin (10 ^ 6))"

definition round9 :: "f64 \<Rightarrow> f64" where
  "round9 v = f64_div (f64_round (f64_mul v (F_fin (10 ^ 9)))) (F_fin (10 ^ 9))"

definition wrap_lon :: "f64 \<Rightarrow> f64" where
  "wrap_lon lon = round6 (f64_sub (f64_rem_euclid (f64_add lon (F_fin 180)) (F_fin 360)) (F_fin 180))"

definition grid_point :: "grid_spec \<Rightarrow> nat \<Rightarrow> nat \<Rightarrow> f64 \<times> f64" where
  "grid_point g row col =
     (round6 (f64_add (g_lat0 g) (f64_mul (f64_of_nat row) (g_dlat g))),
      wrap_lon (f64_add (g_lon0 g) (f64_mul (f64_of_nat col) (g_dlon g))))"

definition grid_points :: "grid_spec \<Rightarrow> (f64 \<times> f64) list" where
  "grid_points g = map (\<lambda>(row, col). grid_point g row col) (grid_cells g)"

subsection \<open>The grid around a receiver\<close>

datatype grid_error = Bad_Spacing f64 | Bad_Radius f64 | Bad_Latitude f64

definition MIN_COS_LAT :: f64 where "MIN_COS_LAT = round64 (1 / 10)"

text \<open>\<open>f64::to_radians\<close> multiplies with the double \<open>PI / 180\<close>.\<close>

definition to_radians :: "f64 \<Rightarrow> f64" where
  "to_radians x = f64_mul x (f64_div (F_fin (884279719003555 / 281474976710656)) (F_fin 180))"

definition centered :: "(f64 \<Rightarrow> f64) \<Rightarrow> f64 \<Rightarrow> f64 \<Rightarrow> f64 \<Rightarrow> f64 \<Rightarrow> grid_error + grid_spec" where
  "centered cos_f lat lon radius_nm spacing_deg =
     (if \<not> (is_finite64 spacing_deg \<and> f64_lt (F_fin 0) spacing_deg) then Inl (Bad_Spacing spacing_deg)
      else if \<not> (is_finite64 radius_nm \<and> f64_lt (F_fin 0) radius_nm) then Inl (Bad_Radius radius_nm)
      else if \<not> (is_finite64 lat \<and> f64_le (F_fin (- 90)) lat \<and> f64_le lat (F_fin 90)) then Inl (Bad_Latitude lat)
      else
        let s = spacing_deg;
            clat = f64_mul (f64_round (f64_div lat s)) s;
            clon = f64_mul (f64_round (f64_div lon s)) s;
            half_rows = as_i64 (f64_ceil (f64_div (f64_div radius_nm (F_fin 60)) s));
            k_min = max (- half_rows) (as_i64 (f64_ceil (round9 (f64_div (f64_sub (F_fin (- 90)) clat) s))));
            k_max = min half_rows (as_i64 (f64_floor (round9 (f64_div (f64_sub (F_fin 90) clat) s))));
            nlat = usize_wrap (i64_wrap (k_max - k_min + 1));
            cos_lat = f64_max (cos_f (to_radians clat)) MIN_COS_LAT;
            half_cols = as_usize (f64_ceil (f64_div (f64_div radius_nm (f64_mul (F_fin 60) cos_lat)) s));
            max_cols = as_usize (f64_floor (round9 (f64_div (F_fin 360) s)));
            nlon = min (usize_wrap (2 * int half_cols + 1)) max_cols
        in Inr \<lparr>g_lat0 = round6 (f64_add clat (f64_mul (f64_of_int k_min) s)),
                g_lon0 = wrap_lon (f64_sub clon (f64_mul (f64_of_nat (usize_wrap (int nlon - 1) div 2)) s)),
                g_dlat = s, g_dlon = s, g_nlat = nlat, g_nlon = nlon\<rparr>)"

lemma length_grid_points [simp]: "length (grid_points g) = grid_len g"
  by (simp add: grid_points_def grid_cells_def grid_len_def length_concat sum_list_triv comp_def)

subsection \<open>Longitudes stay in range\<close>

lemma round_away_mono: "x \<le> y \<Longrightarrow> round_away x \<le> round_away y"
proof -
  assume xy: "x \<le> y"
  consider "0 \<le> x" | "x < 0" "0 \<le> y" | "y < 0" by linarith
  then show ?thesis
  proof cases
    case 1
    then show ?thesis using xy by (simp add: round_away_def floor_mono)
  next
    case 2
    then have "0 \<le> \<lfloor>- x + 1 / 2\<rfloor>" "0 \<le> \<lfloor>y + 1 / 2\<rfloor>" by simp_all
    then show ?thesis using 2 unfolding round_away_def by (simp only: not_le [symmetric] if_False if_True)
  next
    case 3
    then have "\<lfloor>- y + 1 / 2\<rfloor> \<le> \<lfloor>- x + 1 / 2\<rfloor>" using xy by (intro floor_mono) simp
    then show ?thesis using 3 xy by (simp add: round_away_def)
  qed
qed

lemma round_away_int [simp]: "round_away (of_int n) = n"
proof -
  have "\<lfloor>of_int m + 1 / 2 :: rat\<rfloor> = m" for m by (rule floor_unique) auto
  from this [of n] this [of "- n"] show ?thesis by (simp add: round_away_def)
qed

text \<open>Rounding to a whole number stays within whole bounds.\<close>

lemma round64_between:
  assumes "of_int lo \<le> q" and "q \<le> of_int hi" and "\<bar>lo\<bar> < 2 ^ 53" and "\<bar>hi\<bar> < 2 ^ 53"
  shows "\<exists>r. round64 q = F_fin r \<and> of_int lo \<le> r \<and> r \<le> of_int hi"
proof -
  have "f64_le (F_fin (of_int lo)) (round64 q)" "f64_le (round64 q) (F_fin (of_int hi))"
    using round64_mono [OF assms(1)] round64_mono [OF assms(2)] round64_small_int [OF assms(3)]
      round64_small_int [OF assms(4)] by simp_all
  then show ?thesis by (cases "round64 q") (auto split: if_splits)
qed

lemma round6_between:
  assumes "of_int lo \<le> q" and "q \<le> of_int hi" and "\<bar>lo\<bar> < 10 ^ 9" and "\<bar>hi\<bar> < 10 ^ 9"
  shows "\<exists>r. round6 (F_fin q) = F_fin r \<and> of_int lo \<le> r \<and> r \<le> of_int hi"
proof -
  have scaled: "\<bar>n * 10 ^ 6\<bar> < 2 ^ 53" if "\<bar>n\<bar> < 10 ^ 9" for n :: int using that by simp
  have "of_int (lo * 10 ^ 6) \<le> q * 10 ^ 6" "q * 10 ^ 6 \<le> of_int (hi * 10 ^ 6)" using assms(1,2) by simp_all
  then obtain p where p: "round64 (q * 10 ^ 6) = F_fin p" "of_int (lo * 10 ^ 6) \<le> p" "p \<le> of_int (hi * 10 ^ 6)"
    using round64_between [of "lo * 10 ^ 6" "q * 10 ^ 6" "hi * 10 ^ 6"] scaled [OF assms(3)] scaled [OF assms(4)]
    by blast
  from round_away_mono [OF p(2)] round_away_mono [OF p(3)]
  have "lo * 10 ^ 6 \<le> round_away p" "round_away p \<le> hi * 10 ^ 6" by (simp_all only: round_away_int)
  then have "of_int (lo * 10 ^ 6) \<le> (of_int (round_away p) :: rat)"
    and "(of_int (round_away p) :: rat) \<le> of_int (hi * 10 ^ 6)" by (simp_all only: of_int_le_iff)
  then have "of_int lo \<le> (of_int (round_away p) / 10 ^ 6 :: rat)" "(of_int (round_away p) / 10 ^ 6 :: rat) \<le> of_int hi"
    by (simp_all add: le_divide_eq divide_le_eq)
  then obtain r where "round64 (of_int (round_away p) / 10 ^ 6) = F_fin r" "of_int lo \<le> r" "r \<le> of_int hi"
    using round64_between [of lo _ hi] assms(3,4) by fastforce
  with p(1) show ?thesis by (simp add: round6_def f64_round_def f64_integral_def)
qed

text \<open>
  Every finite longitude wraps to a finite one between -180 and 180. The lower bound is attained,
  and so is the upper one, by values just below it and by values just below -180.
\<close>

lemma rem_euclid_360:
  "\<exists>r. f64_rem_euclid (F_fin x) (F_fin 360) = F_fin r \<and> 0 \<le> r \<and> r \<le> 360"
proof -
  let ?m = "x - of_int (if 0 \<le> x / 360 then \<lfloor>x / 360\<rfloor> else \<lceil>x / 360\<rceil>) * 360"
  have m: "- 360 < ?m" "?m < 360" "0 \<le> x \<longrightarrow> 0 \<le> ?m" by (auto split: if_splits) linarith+
  show ?thesis
  proof (cases "?m < 0")
    case True
    then have "of_int 0 \<le> ?m + 360" "?m + 360 \<le> of_int 360" using m by simp_all
    then obtain r where "round64 (?m + 360) = F_fin r" "of_int 0 \<le> r" "r \<le> of_int 360"
      using round64_between [of 0 "?m + 360" 360] by fastforce
    with True show ?thesis by (simp add: f64_rem_euclid_def f64_abs_def Let_def)
  next
    case False
    with m show ?thesis by (simp add: f64_rem_euclid_def Let_def)
  qed
qed

theorem wrap_lon_in_range:
  assumes "is_finite64 (f64_add lon (F_fin 180))"
  shows "\<exists>r. wrap_lon lon = F_fin r \<and> - 180 \<le> r \<and> r \<le> 180"
proof -
  obtain x where x: "f64_add lon (F_fin 180) = F_fin x"
    using assms by (auto simp: is_finite64_def split: f64.splits)
  obtain m where m: "f64_rem_euclid (F_fin x) (F_fin 360) = F_fin m" "0 \<le> m" "m \<le> 360"
    using rem_euclid_360 by blast
  then have "of_int (- 180) \<le> m - 180" "m - 180 \<le> of_int 180" by simp_all
  then obtain q where q: "round64 (m - 180) = F_fin q" "of_int (- 180) \<le> q" "q \<le> of_int 180"
    using round64_between [of "- 180" "m - 180" 180] by fastforce
  obtain r where r: "round6 (F_fin q) = F_fin r" "of_int (- 180) \<le> r" "r \<le> of_int 180"
    using round6_between [OF q(2,3)] by fastforce
  have "wrap_lon lon = F_fin r"
    using m(1) q(1) r(1) by (simp add: wrap_lon_def x f64_sub_def)
  with r(2,3) show ?thesis by simp
qed

lemma wrap_lon_reaches_180: "wrap_lon (F_fin (180 - 1 / 2 ^ 24)) = F_fin 180"
proof -
  have "round64 (360 - 1 / 2 ^ 24) = F_fin (360 - 1 / 2 ^ 24)"
    using round64_dyadic [of "360 * 2 ^ 24 - 1" 24] by (simp add: diff_divide_distrib)
  moreover have "f64_rem_euclid (F_fin (360 - 1 / 2 ^ 24)) (F_fin 360) = F_fin (360 - 1 / 2 ^ 24)"
  proof -
    have "\<lfloor>6039797759 / 6039797760 :: rat\<rfloor> = 0" by (simp add: floor_eq_iff)
    then show ?thesis by (simp add: f64_rem_euclid_def)
  qed
  moreover have "round64 (180 - 1 / 2 ^ 24) = F_fin (180 - 1 / 2 ^ 24)"
    using round64_dyadic [of "180 * 2 ^ 24 - 1" 24] by (simp add: diff_divide_distrib)
  moreover have "round64 ((180 - 1 / 2 ^ 24) * 10 ^ 6) = F_fin ((180 - 1 / 2 ^ 24) * 10 ^ 6)"
    using round64_dyadic [of "(180 * 2 ^ 24 - 1) * 5 ^ 6" 18] by simp
  moreover have "round_away ((180 - 1 / 2 ^ 24) * 10 ^ 6) = 180 * 10 ^ 6"
    by (simp add: round_away_def floor_eq_iff)
  moreover have "round64 180 = F_fin 180" using round64_small_int [of 180] by simp
  ultimately show ?thesis
    by (simp add: wrap_lon_def f64_sub_def round6_def f64_round_def f64_integral_def)
qed

end
