(* ===== verification/Weather_Provider.thy ===== *)
theory Weather_Provider imports Weather_Grid "HOL-Library.Sublist" begin

text \<open>
  \<open>adsb-weather-server/src/budget.rs\<close> and \<open>provider.rs\<close>: the call budget with its token bucket, the
  classification of failures, and a fetch that resumes after a partial failure. The HTTP exchange
  is an argument: each request meets one \<open>request_event\<close>, the server's answer or the loss of the
  future that waits for it.
\<close>

subsection \<open>The call budget\<close>

definition FREE_DAILY_LIMIT :: f64 where "FREE_DAILY_LIMIT = F_fin 10000"
definition WARN_DAILY_CALLS :: f64 where "WARN_DAILY_CALLS = F_fin 8000"
definition MINUTELY_LIMIT :: f64 where "MINUTELY_LIMIT = F_fin 600"
definition PACE_FRACTION :: f64 where "PACE_FRACTION = round64 (8 / 10)"

datatype budget_verdict = Budget_Ok | Budget_Warn | Budget_OverLimit

definition variables_per_location :: "nat \<Rightarrow> nat" where
  "variables_per_location levels = 3 + 2 * levels"

definition call_weight :: "nat \<Rightarrow> f64" where
  "call_weight variables = f64_max (f64_div (f64_of_nat variables) (F_fin 10)) (F_fin 1)"

definition estimated_daily_calls :: "nat \<Rightarrow> nat \<Rightarrow> nat \<Rightarrow> f64" where
  "estimated_daily_calls points variables refresh_minutes =
     (let refreshes_per_day = f64_div (F_fin 1440) (f64_of_nat (max refresh_minutes 1))
      in f64_mul (f64_mul (f64_of_nat points) (call_weight variables)) refreshes_per_day)"

definition calls_per_refresh :: "nat \<Rightarrow> nat \<Rightarrow> f64" where
  "calls_per_refresh points variables = f64_mul (f64_of_nat points) (call_weight variables)"

definition verdict :: "f64 \<Rightarrow> budget_verdict" where
  "verdict daily_calls =
     (if f64_lt FREE_DAILY_LIMIT daily_calls then Budget_OverLimit
      else if f64_lt WARN_DAILY_CALLS daily_calls then Budget_Warn else Budget_Ok)"

record token_bucket =
  tb_capacity :: f64
  tb_per_second :: f64
  tb_tokens :: f64
  tb_updated :: duration

definition bucket_new :: "f64 \<Rightarrow> f64 \<Rightarrow> token_bucket" where
  "bucket_new capacity per_second =
     \<lparr>tb_capacity = capacity, tb_per_second = per_second, tb_tokens = capacity, tb_updated = 0\<rparr>"

definition open_meteo_minutely :: token_bucket where
  "open_meteo_minutely =
     (let capacity = f64_mul MINUTELY_LIMIT PACE_FRACTION
      in bucket_new capacity (f64_div capacity (F_fin 60)))"

definition estimated_pacing :: "f64 \<Rightarrow> duration option" where
  "estimated_pacing calls =
     (let bucket = open_meteo_minutely;
          excess = f64_max (f64_sub calls (tb_capacity bucket)) (F_fin 0)
      in from_secs_f64 (f64_div excess (tb_per_second bucket)))"

text \<open>\<open>None\<close> is a panic, in \<open>from_secs_f64\<close> or in the addition of durations.\<close>

definition bucket_refill :: "duration \<Rightarrow> token_bucket \<Rightarrow> token_bucket" where
  "bucket_refill now b =
     (if tb_updated b < now
      then let elapsed = as_secs_f64 (now - tb_updated b)
           in b\<lparr>tb_tokens := f64_min (f64_add (tb_tokens b) (f64_mul elapsed (tb_per_second b))) (tb_capacity b),
                tb_updated := now\<rparr>
      else b)"

definition reserve :: "f64 \<Rightarrow> duration \<Rightarrow> token_bucket \<Rightarrow> (duration \<times> token_bucket) option" where
  "reserve cost now b0 =
     (let b = bucket_refill now b0;
          needed = f64_min cost (tb_capacity b)
      in case (if f64_le needed (tb_tokens b) then Some 0
               else from_secs_f64 (f64_div (f64_sub needed (tb_tokens b)) (tb_per_second b))) of
           None \<Rightarrow> None
         | Some refill \<Rightarrow>
             let ready_at = tb_updated b + refill
             in if 2 ^ 64 * NS_PER_SEC \<le> ready_at then None
                else Some (ready_at - now,
                  b\<lparr>tb_tokens := f64_add (tb_tokens b)
                      (f64_sub (f64_mul (as_secs_f64 refill) (tb_per_second b)) cost),
                    tb_updated := ready_at\<rparr>))"

subsection \<open>Failures\<close>

datatype provider_error =
    Http_Error string string \<comment> \<open>base URL, message\<close>
  | Status_Error string nat "string option" "duration option" \<comment> \<open>base URL, status, reason, \<open>Retry-After\<close>\<close>
  | Decode_Error open_meteo_error

datatype error_class = Transient | Rate_Limited rate_limit_scope "duration option" | Rejected

definition error_class_of :: "provider_error \<Rightarrow> error_class" where
  "error_class_of e = (case e of
      Http_Error _ _ \<Rightarrow> Transient
    | Status_Error _ status reason retry_after \<Rightarrow>
        if status = 429
        then Rate_Limited (case reason of None \<Rightarrow> Unknown_Scope | Some r \<Rightarrow> parse_rate_limit_scope r) retry_after
        else if status = 408 then Transient
        else if 400 \<le> status \<and> status < 500 then Rejected else Transient
    | Decode_Error (OM_Api _) \<Rightarrow> Rejected
    | Decode_Error _ \<Rightarrow> Transient)"

definition MAX_RETRY_AFTER :: duration where "MAX_RETRY_AFTER = from_secs (24 * 3600)"

definition parse_retry_after :: "string \<Rightarrow> duration option" where
  "parse_retry_after value =
     map_option (\<lambda>seconds. min (from_secs seconds) MAX_RETRY_AFTER) (parse_unsigned U64_MAX (trim value))"

subsection \<open>One request\<close>

datatype 'v http_answer =
    Send_Failed string
  | Body_Failed nat "string option" string
  | Response nat "string option" "open_meteo_error + 'v location_response list"
      \<comment> \<open>status, \<open>Retry-After\<close> header, the decoded body\<close>

definition get_answer :: "string \<Rightarrow> 'v http_answer \<Rightarrow> provider_error + 'v location_response list" where
  "get_answer base_url a = (case a of
      Send_Failed msg \<Rightarrow> Inl (Http_Error base_url msg)
    | Body_Failed _ _ msg \<Rightarrow> Inl (Http_Error base_url msg)
    | Response status header body \<Rightarrow>
        let retry_after = Option.bind header parse_retry_after
        in if \<not> (200 \<le> status \<and> status < 300)
           then let reason = (case body of Inl (OM_Api r) \<Rightarrow> Some r | _ \<Rightarrow> None)
                in Inl (Status_Error base_url status reason retry_after)
           else (case body of Inl e \<Rightarrow> Inl (Decode_Error e) | Inr locations \<Rightarrow> Inr locations))"

subsection \<open>A fetch that resumes\<close>

definition nearest_hour :: "int \<Rightarrow> int" where
  "nearest_hour now_ms = (now_ms + 1800000) div 3600000"

record 'v partial_fetch =
  pf_hour :: int
  pf_chunks :: "string \<rightharpoonup> 'v location_response list"

definition partial_default :: "'v partial_fetch" where
  "partial_default = \<lparr>pf_hour = 0, pf_chunks = Map.empty\<rparr>"

definition partial_get :: "int \<Rightarrow> string \<Rightarrow> 'v partial_fetch \<Rightarrow> 'v location_response list option" where
  "partial_get hour url p = (if pf_hour p = hour then pf_chunks p url else None)"

definition partial_insert ::
  "int \<Rightarrow> string \<Rightarrow> 'v location_response list \<Rightarrow> 'v partial_fetch \<Rightarrow> 'v partial_fetch" where
  "partial_insert hour url locations p0 =
     (let p = (if pf_hour p0 \<noteq> hour then p0\<lparr>pf_chunks := Map.empty, pf_hour := hour\<rparr> else p0)
      in p\<lparr>pf_chunks := (pf_chunks p)(url \<mapsto> locations)\<rparr>)"

definition partial_clear :: "'v partial_fetch \<Rightarrow> 'v partial_fetch" where
  "partial_clear p = p\<lparr>pf_chunks := Map.empty\<rparr>"

record 'v provider =
  pv_base_url :: string
  pv_model :: string
  pv_chunk :: nat
  pv_pacer :: token_bucket
  pv_partial :: "'v partial_fetch"

definition provider_new :: "string \<Rightarrow> string \<Rightarrow> 'v provider" where
  "provider_new base_url model =
     \<lparr>pv_base_url = base_url, pv_model = model, pv_chunk = 50, pv_pacer = open_meteo_minutely,
      pv_partial = partial_default\<rparr>"

definition with_chunk :: "nat \<Rightarrow> 'v provider \<Rightarrow> 'v provider" where
  "with_chunk chunk p = p\<lparr>pv_chunk := max chunk 1\<rparr>"

text \<open>
  What a request meets: the time since the provider started when it asks the pacer, and then an
  answer; or the future is dropped while it waits.
\<close>

datatype 'v request_event = Answered duration "'v http_answer" | Dropped_At duration

datatype 'r fetch_result = Fetch_Ok 'r | Fetch_Err provider_error | Fetch_Dropped | Fetch_Panic

text \<open>
  The chunks of a grid are pairs of their size and their URL. The third component of a result lists
  what the attempt has bought: the URLs that were answered with locations, and the locations.
\<close>

fun fetch_chunks ::
  "f64 \<Rightarrow> int \<Rightarrow> (nat \<times> string) list \<Rightarrow> 'v request_event list \<Rightarrow> 'v location_response list \<Rightarrow> 'v provider
    \<Rightarrow> 'v location_response list fetch_result \<times> 'v provider \<times> (string \<times> 'v location_response list) list" where
  "fetch_chunks weight hour [] es locations p = (Fetch_Ok locations, p, [])"
| "fetch_chunks weight hour ((n, url) # todo) es locations p =
     (case partial_get hour url (pv_partial p) of
        Some held \<Rightarrow> fetch_chunks weight hour todo es (locations @ held) p
      | None \<Rightarrow>
          (case es of
             [] \<Rightarrow> (Fetch_Dropped, p, [])
           | e # es \<Rightarrow>
               let calls = f64_mul (f64_of_nat n) weight;
                   t = (case e of Answered t _ \<Rightarrow> t | Dropped_At t \<Rightarrow> t)
               in case reserve calls t (pv_pacer p) of
                    None \<Rightarrow> (Fetch_Panic, p, [])
                  | Some (_, pacer) \<Rightarrow>
                      let p = p\<lparr>pv_pacer := pacer\<rparr>
                      in case e of
                           Dropped_At _ \<Rightarrow> (Fetch_Dropped, p, [])
                         | Answered _ a \<Rightarrow>
                             (case get_answer (pv_base_url p) a of
                                Inl err \<Rightarrow> (Fetch_Err err, p, [])
                              | Inr fetched \<Rightarrow>
                                  let p = p\<lparr>pv_partial := partial_insert hour url fetched (pv_partial p)\<rparr>;
                                      (r, p, bought) = fetch_chunks weight hour todo es (locations @ fetched) p
                                  in (r, p, (url, fetched) # bought))))"

definition fetch_pieces :: "(f64 \<Rightarrow> string) \<Rightarrow> grid_spec \<Rightarrow> nat list \<Rightarrow> 'v provider \<Rightarrow> (nat \<times> string) list" where
  "fetch_pieces show_f64 grid levels p =
     zip (map length (chunks (pv_chunk p) (grid_points grid)))
         (build_urls show_f64 (pv_base_url p) (pv_model p) levels (grid_points grid) (pv_chunk p))"

definition fetch ::
  "(f64 \<Rightarrow> string) \<Rightarrow> grid_spec \<Rightarrow> nat list \<Rightarrow> int \<Rightarrow> 'v request_event list \<Rightarrow> 'v provider
    \<Rightarrow> 'v snapshot fetch_result \<times> 'v provider \<times> (string \<times> 'v location_response list) list" where
  "fetch show_f64 grid levels now_ms es p =
     (let weight = call_weight (variables_per_location (length levels));
          (r, p, bought) = fetch_chunks weight (nearest_hour now_ms) (fetch_pieces show_f64 grid levels p) es [] p
      in case r of
           Fetch_Ok locations \<Rightarrow>
             ((case assemble_snapshot grid levels (pv_model p) locations now_ms now_ms of
                 Inl e \<Rightarrow> Fetch_Err (Decode_Error e)
               | Inr s \<Rightarrow> Fetch_Ok s),
              p\<lparr>pv_partial := partial_clear (pv_partial p)\<rparr>, bought)
         | Fetch_Err e \<Rightarrow> (Fetch_Err e, p, bought)
         | Fetch_Dropped \<Rightarrow> (Fetch_Dropped, p, bought)
         | Fetch_Panic \<Rightarrow> (Fetch_Panic, p, bought))"


subsection \<open>Buying every chunk once\<close>

text \<open>What the provider holds for a model hour.\<close>

definition held_for :: "int \<Rightarrow> 'v partial_fetch \<Rightarrow> string \<rightharpoonup> 'v location_response list" where
  "held_for hour p = (if pf_hour p = hour then pf_chunks p else Map.empty)"

lemma partial_get_held: "partial_get hour url p = held_for hour p url"
  by (simp add: partial_get_def held_for_def)

lemma held_insert [simp]: "held_for hour (partial_insert hour url l p) = (held_for hour p)(url \<mapsto> l)"
  by (simp add: held_for_def partial_insert_def Let_def)

lemma fetch_chunks_held:
  assumes "\<forall>(url, l) \<in> set held. held_for hour (pv_partial p) url = Some l" and "map snd done = map fst held"
  shows "fetch_chunks weight hour (done @ todo) es locations p
    = fetch_chunks weight hour todo es (locations @ concat (map snd held)) p"
  using assms
proof (induction "done" arbitrary: held locations)
  case (Cons piece "done")
  then obtain n url l held' where "piece = (n, url)" "held = (url, l) # held'"
    by (cases piece; cases held) auto
  with Cons.prems Cons.IH [of held' "locations @ l"] show ?case by (simp add: partial_get_held)
qed simp

lemma fetch_chunks_buys:
  assumes "fetch_chunks weight hour todo es locations p = (r, p', bought)"
    and "distinct (map snd todo)" and "\<forall>url \<in> set (map snd todo). held_for hour (pv_partial p) url = None"
  shows "prefix (map fst bought) (map snd todo)"
    and "held_for hour (pv_partial p') = held_for hour (pv_partial p) ++ map_of bought"
    and "pv_base_url p' = pv_base_url p" and "pv_model p' = pv_model p" and "pv_chunk p' = pv_chunk p"
    and "r = Fetch_Ok ls \<Longrightarrow> map fst bought = map snd todo \<and> ls = locations @ concat (map snd bought)"
proof -
  have "prefix (map fst bought) (map snd todo)
    \<and> held_for hour (pv_partial p') = held_for hour (pv_partial p) ++ map_of bought
    \<and> pv_base_url p' = pv_base_url p \<and> pv_model p' = pv_model p \<and> pv_chunk p' = pv_chunk p
    \<and> (r = Fetch_Ok ls \<longrightarrow> map fst bought = map snd todo \<and> ls = locations @ concat (map snd bought))"
    using assms
  proof (induction todo arbitrary: es locations p r p' bought)
    case (Cons piece todo)
    obtain n url where piece: "piece = (n, url)" by fastforce
    have miss: "partial_get hour url (pv_partial p) = None"
      using Cons.prems(3) by (simp add: piece partial_get_held)
    show ?case
    proof (cases es)
      case Nil
      with Cons.prems(1) miss show ?thesis by (auto simp: piece)
    next
      case (Cons e es')
      let ?t = "case e of Answered t _ \<Rightarrow> t | Dropped_At t \<Rightarrow> t"
      show ?thesis
      proof (cases "reserve (f64_mul (f64_of_nat n) weight) ?t (pv_pacer p)")
        case None
        with Cons Cons.prems(1) miss show ?thesis by (auto simp: piece)
      next
        case (Some w)
        obtain wait pacer where w: "w = (wait, pacer)" by fastforce
        show ?thesis
        proof (cases "\<exists>t a l. e = Answered t a \<and> get_answer (pv_base_url p) a = Inr l")
          case False
          with Cons Cons.prems(1) miss Some w show ?thesis
            by (auto simp: piece Let_def split: request_event.splits sum.splits)
        next
          case True
          then obtain t a l where e: "e = Answered t a" "get_answer (pv_base_url p) a = Inr l" by blast
          let ?p = "p\<lparr>pv_pacer := pacer, pv_partial := partial_insert hour url l (pv_partial p)\<rparr>"
          obtain r0 p0 b0 where rec: "fetch_chunks weight hour todo es' (locations @ l) ?p = (r0, p0, b0)"
            using prod_cases3 by blast
          have eq: "r = r0" "p' = p0" "bought = (url, l) # b0"
            using Cons.prems(1) miss Some w e rec \<open>es = e # es'\<close> by (simp_all add: piece Let_def)
          have notin: "url \<notin> set (map snd todo)" and dist: "distinct (map snd todo)"
            using Cons.prems(2) piece by auto
          have "\<forall>u \<in> set (map snd todo). held_for hour (pv_partial ?p) u = None"
            using Cons.prems(3) notin by auto
          note IH = Cons.IH [OF rec dist this]
          have "u \<noteq> url" if "u \<in> set (map fst b0)" for u
            using IH notin that set_mono_prefix by blast
          then have "url \<notin> dom (map_of b0)" by (auto simp: dom_map_of_conv_image_fst)
          then have "held_for hour (pv_partial ?p) ++ map_of b0
              = held_for hour (pv_partial p) ++ map_of ((url, l) # b0)"
            by (auto simp: map_add_def fun_eq_iff split: option.splits)
          with IH have "held_for hour (pv_partial p0) = held_for hour (pv_partial p) ++ map_of ((url, l) # b0)"
            by (elim conjE) (erule trans)
          with IH show ?thesis unfolding eq by (simp add: piece del: map_of.simps)
        qed
      qed
    qed
  qed auto
  then show "prefix (map fst bought) (map snd todo)"
    and "held_for hour (pv_partial p') = held_for hour (pv_partial p) ++ map_of bought"
    and "pv_base_url p' = pv_base_url p" and "pv_model p' = pv_model p" and "pv_chunk p' = pv_chunk p"
    and "r = Fetch_Ok ls \<Longrightarrow> map fst bought = map snd todo \<and> ls = locations @ concat (map snd bought)"
    by blast+
qed

text \<open>Attempts in a row; an attempt is interrupted when some chunk did not arrive.\<close>

fun fetch_attempts ::
  "(f64 \<Rightarrow> string) \<Rightarrow> grid_spec \<Rightarrow> nat list \<Rightarrow> (int \<times> 'v request_event list) list \<Rightarrow> 'v provider
    \<Rightarrow> 'v snapshot fetch_result list \<times> 'v provider \<times> (string \<times> 'v location_response list) list" where
  "fetch_attempts show_f64 grid levels [] p = ([], p, [])"
| "fetch_attempts show_f64 grid levels ((now_ms, es) # attempts) p =
     (let (r, p, b) = fetch show_f64 grid levels now_ms es p;
          (rs, p, bs) = fetch_attempts show_f64 grid levels attempts p
      in (r # rs, p, b @ bs))"

fun interrupted :: "'r fetch_result \<Rightarrow> bool" where
  "interrupted (Fetch_Ok _) = False"
| "interrupted (Fetch_Err (Decode_Error (OM_LocationCount _ _))) = False"
| "interrupted (Fetch_Err (Decode_Error OM_NoTimes)) = False"
| "interrupted _ = True"

lemma assemble_not_interrupted:
  "assemble_snapshot grid levels model locations now_ms t = Inl e \<Longrightarrow> \<not> interrupted (Fetch_Err (Decode_Error e))"
  by (auto simp: assemble_snapshot_def Let_def split: if_splits list.splits option.splits)

text \<open>An attempt picks up where the ones before it in the same hour left off.\<close>

lemma fetch_continues:
  assumes f: "fetch show_f64 grid levels now_ms es p = (r, p', b)"
    and dist: "distinct (map snd (fetch_pieces show_f64 grid levels p))"
    and held: "held_for (nearest_hour now_ms) (pv_partial p) = map_of pre"
    and pre: "prefix (map fst pre) (map snd (fetch_pieces show_f64 grid levels p))"
  shows "prefix (map fst (pre @ b)) (map snd (fetch_pieces show_f64 grid levels p))"
    and "fetch_pieces show_f64 grid levels p' = fetch_pieces show_f64 grid levels p" and "pv_model p' = pv_model p"
    and "interrupted r \<Longrightarrow> held_for (nearest_hour now_ms) (pv_partial p') = map_of (pre @ b)"
    and "r = Fetch_Ok s \<Longrightarrow> map fst (pre @ b) = map snd (fetch_pieces show_f64 grid levels p)
      \<and> assemble_snapshot grid levels (pv_model p) (concat (map snd (pre @ b))) now_ms now_ms = Inr s"
proof -
  let ?h = "nearest_hour now_ms" and ?w = "call_weight (variables_per_location (length levels))"
  let ?pieces = "fetch_pieces show_f64 grid levels p"
  define n where "n = length pre"
  have urls: "map snd (take n ?pieces) = map fst pre"
    using pre by (auto simp: prefix_def n_def take_map [symmetric])
  have dpre: "distinct (map fst pre)"
    using dist unfolding urls [symmetric] by (metis distinct_take take_map)
  have split: "map snd ?pieces = map fst pre @ map snd (drop n ?pieces)"
    unfolding urls [symmetric] by (simp flip: map_append)
  obtain r0 p0 where run: "fetch_chunks ?w ?h (drop n ?pieces) es (concat (map snd pre)) p = (r0, p0, b)"
    and whole: "fetch_chunks ?w ?h ?pieces es [] p = (r0, p0, b)"
  proof -
    have "\<forall>(url, l) \<in> set pre. held_for ?h (pv_partial p) url = Some l" using held dpre by auto
    from fetch_chunks_held [OF this urls, of ?w "drop n ?pieces" es "[]"]
    have "fetch_chunks ?w ?h ?pieces es [] p
        = fetch_chunks ?w ?h (drop n ?pieces) es (concat (map snd pre)) p" by simp
    with that f show ?thesis by (auto simp: fetch_def split: prod.splits fetch_result.splits)
  qed
  have dtodo: "distinct (map snd (drop n ?pieces))" and disj: "set (map fst pre) \<inter> set (map snd (drop n ?pieces)) = {}"
    using dist unfolding split by simp_all
  have "\<forall>url \<in> set (map snd (drop n ?pieces)). held_for ?h (pv_partial p) url = None"
    using disj by (auto simp: held map_of_eq_None_iff)
  note buys = fetch_chunks_buys [OF run dtodo this]
  show "prefix (map fst (pre @ b)) (map snd ?pieces)" unfolding split using buys(1) by simp
  have keep: "pv_base_url p' = pv_base_url p" "pv_model p' = pv_model p" "pv_chunk p' = pv_chunk p"
    using f whole buys(3-5) by (auto simp: fetch_def split: fetch_result.splits)
  show "pv_model p' = pv_model p" by (rule keep)
  show "fetch_pieces show_f64 grid levels p' = ?pieces" by (simp add: fetch_pieces_def keep)
  show "held_for ?h (pv_partial p') = map_of (pre @ b)" if "interrupted r"
  proof -
    have "p' = p0"
    proof (cases r0)
      case (Fetch_Ok ls)
      show ?thesis
      proof (cases "assemble_snapshot grid levels (pv_model p0) ls now_ms now_ms")
        case (Inl e)
        then have "r = Fetch_Err (Decode_Error e)" using f whole Fetch_Ok by (simp add: fetch_def)
        with that have "interrupted (Fetch_Err (Decode_Error e) :: 'a snapshot fetch_result)" by simp
        then show ?thesis by (rule notE [OF assemble_not_interrupted [OF Inl]])
      next
        case (Inr s)
        then have "r = Fetch_Ok s" using f whole Fetch_Ok by (simp add: fetch_def)
        with that show ?thesis by simp
      qed
    qed (use f whole in \<open>simp_all add: fetch_def\<close>)
    moreover have "dom (map_of pre) \<inter> dom (map_of b) = {}"
    proof -
      have "set (map fst b) \<subseteq> set (map snd (drop n ?pieces))" by (rule set_mono_prefix [OF buys(1)])
      with disj have "set (map fst pre) \<inter> set (map fst b) = {}" by blast
      then show ?thesis by (simp add: dom_map_of_conv_image_fst)
    qed
    ultimately show ?thesis using buys(2) by (simp add: held map_add_comm)
  qed
  show "map fst (pre @ b) = map snd ?pieces
      \<and> assemble_snapshot grid levels (pv_model p) (concat (map snd (pre @ b))) now_ms now_ms = Inr s"
    if ok: "r = Fetch_Ok s"
  proof -
    obtain ls where "r0 = Fetch_Ok ls" and asm: "assemble_snapshot grid levels (pv_model p0) ls now_ms now_ms = Inr s"
      using f whole ok by (auto simp: fetch_def split: fetch_result.splits sum.splits)
    with buys(6) [of ls] buys(4) split show ?thesis by simp
  qed
qed

text \<open>C19: No chunk is bought twice. Within one model hour, after any number of attempts that were
  cut off by a failure or a cancellation, what has been bought is the chunks of the grid from the
  first on, each once; and when a further attempt succeeds, it has bought just the ones that were
  missing, and the snapshot is assembled from all of them in grid order.\<close>

theorem fetch_resumes:
  assumes dist: "distinct (map snd (fetch_pieces show_f64 grid levels p))"
    and fresh: "held_for hour (pv_partial p) = Map.empty"
    and same_hour: "\<forall>(now_ms, es) \<in> set attempts. nearest_hour now_ms = hour" "nearest_hour now_ms = hour"
    and before: "fetch_attempts show_f64 grid levels attempts p = (rs, q, bought)" "\<forall>r \<in> set rs. interrupted r"
    and last: "fetch show_f64 grid levels now_ms es q = (r, q', b)"
  shows "prefix (map fst (bought @ b)) (map snd (fetch_pieces show_f64 grid levels p))
    \<and> (r = Fetch_Ok s \<longrightarrow>
      map fst (bought @ b) = map snd (fetch_pieces show_f64 grid levels p)
      \<and> assemble_snapshot grid levels (pv_model p) (concat (map snd (bought @ b))) now_ms now_ms = Inr s)"
proof -
  have "prefix (map fst (pre @ bought)) (map snd (fetch_pieces show_f64 grid levels p))
    \<and> fetch_pieces show_f64 grid levels q = fetch_pieces show_f64 grid levels p
    \<and> pv_model q = pv_model p \<and> held_for hour (pv_partial q) = map_of (pre @ bought)"
    if "held_for hour (pv_partial p) = map_of pre"
      "prefix (map fst pre) (map snd (fetch_pieces show_f64 grid levels p))" for pre
    using that dist same_hour(1) before
  proof (induction attempts arbitrary: p rs bought pre)
    case (Cons a attempts)
    obtain now es where a: "a = (now, es)" by fastforce
    obtain r1 p1 b1 where f: "fetch show_f64 grid levels now es p = (r1, p1, b1)" using prod_cases3 by blast
    obtain rs2 b2 where rec: "fetch_attempts show_f64 grid levels attempts p1 = (rs2, q, b2)"
      and eq: "rs = r1 # rs2" "bought = b1 @ b2"
      using Cons.prems(5) by (auto simp: a f split: prod.splits)
    have now: "nearest_hour now = hour" using Cons.prems(4) a by simp
    note step = fetch_continues [OF f Cons.prems(3) Cons.prems(1) [folded now] Cons.prems(2)]
    have "held_for hour (pv_partial p1) = map_of (pre @ b1)"
      using step(4) Cons.prems(6) eq now by simp
    from Cons.IH [OF this _ _ _ rec] step Cons.prems(3,4,6) eq show ?case by simp
  qed simp
  from this [of "[]"] fresh have inv: "prefix (map fst bought) (map snd (fetch_pieces show_f64 grid levels p))"
    "fetch_pieces show_f64 grid levels q = fetch_pieces show_f64 grid levels p"
    "pv_model q = pv_model p" "held_for hour (pv_partial q) = map_of bought"
    by simp_all
  note finish = fetch_continues [OF last, of bought]
  show ?thesis using finish(1) finish(5) [of s] inv dist same_hour(2) by simp
qed


text \<open>A grid of two cells on the equator, one request each; whole numbers stay exact.\<close>

lemma round64_whole [simp]:
  "round64 0 = F_fin 0" "round64 1 = F_fin 1"
  "(numeral k :: int) < 2 ^ 53 \<Longrightarrow> round64 (numeral k) = F_fin (numeral k)"
  using round64_small_int [of 0] round64_small_int [of 1] round64_small_int [of "numeral k"] by simp_all

definition two_cells :: grid_spec where
  "two_cells = \<lparr>g_lat0 = F_fin 0, g_lon0 = F_fin 0, g_dlat = F_fin 1, g_dlon = F_fin 1, g_nlat = 1, g_nlon = 2\<rparr>"

definition two_names :: "f64 \<Rightarrow> string" where
  "two_names x = (if x = F_fin 0 then ''0'' else ''1'')"

definition slow_provider :: "nat provider" where
  "slow_provider = (with_chunk 1 (provider_new ''http'' ''gfs''))\<lparr>pv_pacer := bucket_new (F_fin 10) (F_fin 1)\<rparr>"

definition url_of :: "string \<Rightarrow> string" where
  "url_of lon = ''http?latitude=0&longitude='' @ lon @ ''&hourly='' @ join_with '','' (hourly_variables [])
     @ ''&past_hours=1&forecast_hours=2&wind_speed_unit=kn&timezone=GMT''
     @ ''&timeformat=unixtime&cell_selection=nearest&models=gfs''"

lemma floors: "\<lfloor>1 / 2 :: rat\<rfloor> = 0" "\<lfloor>180 / 360 :: rat\<rfloor> = 0" "\<lfloor>181 / 360 :: rat\<rfloor> = 0"
  "\<lfloor>2000001 / 2 :: rat\<rfloor> = 1000000"
  by (simp_all add: floor_eq_iff)

lemma round6_01: "round6 (F_fin 0) = F_fin 0" "round6 (F_fin 1) = F_fin 1"
  by (simp_all add: round6_def f64_round_def f64_integral_def round_away_def floors)

lemma wrap_lon_01: "wrap_lon (F_fin 0) = F_fin 0" "wrap_lon (F_fin 1) = F_fin 1"
  by (simp_all add: wrap_lon_def f64_rem_euclid_def f64_sub_def floors round6_01)

lemma two_cells_points: "grid_points two_cells = [(F_fin 0, F_fin 0), (F_fin 0, F_fin 1)]"
proof -
  have "f64_of_nat 0 = F_fin 0" "f64_of_nat (Suc 0) = F_fin 1"
    using round64_small_int [of 1] by (simp_all add: f64_of_nat_def)
  then show ?thesis
    by (simp add: two_cells_def grid_points_def grid_cells_def grid_point_def round6_01 wrap_lon_01 upt_rec)
qed

lemma two_cells_pieces: "fetch_pieces two_names two_cells [] slow_provider = [(1, url_of ''0''), (1, url_of ''1'')]"
proof -
  have "chunks 1 [x, y] = [[x], [y]]" for x y :: "f64 \<times> f64"
    by (simp add: chunks.simps [of _ "[x, y]"] chunks.simps [of _ "[y]"] chunks.simps [of _ "[]"])
  then show ?thesis
    by (simp add: fetch_pieces_def two_cells_points slow_provider_def with_chunk_def provider_new_def
        build_urls_def two_names_def url_of_def)
qed

definition cell_at_0 :: "nat location_response" where
  "cell_at_0 = \<lparr>lr_time = [0], lr_series = Map.empty\<rparr>"

definition bucket_of :: "rat \<Rightarrow> token_bucket" where
  "bucket_of tokens = \<lparr>tb_capacity = F_fin 10, tb_per_second = F_fin 1, tb_tokens = F_fin tokens, tb_updated = 0\<rparr>"

lemma reserve_one:
  assumes "1 \<le> n" and "n \<le> 10"
  shows "reserve (F_fin 1) 0 (bucket_of (of_int n)) = Some (0, bucket_of (of_int (n - 1)))"
proof -
  have secs: "as_secs_f64 0 = F_fin 0" by (simp add: as_secs_f64_def f64_of_nat_def)
  have "round64 (- 1) = F_fin (- 1)" using round64_small_int [of "- 1"] by simp
  moreover have "round64 (of_int n - 1) = F_fin (of_int n - 1)"
    using round64_small_int [of "n - 1"] assms by simp
  moreover have "f64_min (F_fin 1) (F_fin 10) = F_fin 1" by (simp add: f64_min_def)
  ultimately show ?thesis using assms
    by (simp add: reserve_def bucket_refill_def bucket_of_def secs f64_sub_def)
qed

lemma surface_weight: "call_weight (variables_per_location 0) = F_fin 1" "f64_mul (f64_of_nat 1) (F_fin 1) = F_fin 1"
proof -
  have "f64_of_nat 3 = F_fin 3" "f64_of_nat 1 = F_fin 1"
    using round64_small_int [of 3] round64_small_int [of 1] by (simp_all add: f64_of_nat_def)
  moreover have "f64_le (round64 (3 / 10)) (F_fin 1)" using round64_mono [of "3 / 10" 1] by simp
  ultimately show "call_weight (variables_per_location 0) = F_fin 1" "f64_mul (f64_of_nat 1) (F_fin 1) = F_fin 1"
    by (simp_all add: call_weight_def variables_per_location_def f64_max_def)
qed

definition first_half :: "nat provider" where
  "first_half = slow_provider\<lparr>pv_pacer := bucket_of 8, pv_partial := \<lparr>pf_hour = 0, pf_chunks = [url_of ''0'' \<mapsto> [cell_at_0]]\<rparr>\<rparr>"

abbreviation answer_ok :: "nat request_event" where
  "answer_ok \<equiv> Answered 0 (Response 200 None (Inr [cell_at_0]))"

abbreviation answer_503 :: "nat request_event" where
  "answer_503 \<equiv> Answered 0 (Response 503 None (Inl (OM_Json [])))"

lemma urls_differ: "url_of ''0'' \<noteq> url_of ''1''"
  by (simp add: url_of_def)

lemma slow_pacer: "pv_pacer slow_provider = bucket_of 10" "pv_partial slow_provider = partial_default"
  "pv_base_url slow_provider = ''http''"
  by (simp_all add: slow_provider_def with_chunk_def provider_new_def bucket_new_def bucket_of_def)

lemma first_attempt:
  "fetch two_names two_cells [] 0 [answer_ok, answer_503] slow_provider
    = (Fetch_Err (Status_Error ''http'' 503 None None), first_half, [(url_of ''0'', [cell_at_0])])"
  using reserve_one [of 10] reserve_one [of 9] urls_differ
  by (simp add: fetch_def two_cells_pieces surface_weight [unfolded One_nat_def] slow_pacer partial_default_def partial_get_def
      partial_insert_def nearest_hour_def get_answer_def first_half_def)

lemma two_cells_assembled: "\<exists>s. assemble_snapshot two_cells [] model [cell_at_0, cell_at_0] 0 0 = Inr s"
  by (simp add: assemble_snapshot_def select_hour_def cell_at_0_def two_cells_def grid_len_def)

lemma second_attempt:
  "\<exists>s q'. fetch two_names two_cells [] 0 [answer_ok] first_half = (Fetch_Ok s, q', [(url_of ''1'', [cell_at_0])])"
proof -
  have "fetch_pieces two_names two_cells [] first_half = fetch_pieces two_names two_cells [] slow_provider"
    by (simp add: fetch_pieces_def first_half_def)
  with two_cells_assembled [of "pv_model slow_provider"] show ?thesis
    using reserve_one [of 8] urls_differ
    by (auto simp add: fetch_def two_cells_pieces surface_weight [unfolded One_nat_def] first_half_def partial_get_def
        partial_insert_def nearest_hour_def get_answer_def slow_pacer)
qed

theorem fetch_resumes_witness:
  "\<exists>s. fst (fetch two_names two_cells [] 0 [answer_ok] first_half) = Fetch_Ok s
    \<and> assemble_snapshot two_cells [] (pv_model slow_provider) [cell_at_0, cell_at_0] 0 0 = Inr s"
proof -
  obtain s q' where second: "fetch two_names two_cells [] 0 [answer_ok] first_half = (Fetch_Ok s, q', [(url_of ''1'', [cell_at_0])])"
    using second_attempt by blast
  have "fetch_attempts two_names two_cells [] [(0, [answer_ok, answer_503])] slow_provider
      = ([Fetch_Err (Status_Error ''http'' 503 None None)], first_half, [(url_of ''0'', [cell_at_0])])"
    by (simp add: first_attempt)
  from fetch_resumes [OF _ _ _ _ this _ second, where hour = 0 and s = s] second urls_differ
  show ?thesis by (simp add: two_cells_pieces slow_pacer partial_default_def held_for_def nearest_hour_def)
qed

subsection \<open>The hour asked for and the hour chosen\<close>

lemma nearest_hour_eq:
  "nearest_hour now_ms = now_ms div 3600000 + (if now_ms mod 3600000 < 1800000 then 0 else 1)"
proof -
  have s: "now_ms = 3600000 * (now_ms div 3600000) + now_ms mod 3600000"
    "0 \<le> now_ms mod 3600000" "now_ms mod 3600000 < 3600000" by simp_all
  show ?thesis
  proof (cases "now_ms mod 3600000 < 1800000")
    case True
    then show ?thesis unfolding nearest_hour_def
      using s by (intro int_div_pos_eq [where r = "now_ms mod 3600000 + 1800000"]) auto
  next
    case False
    then show ?thesis unfolding nearest_hour_def
      using s by (intro int_div_pos_eq [where r = "now_ms mod 3600000 - 1800000"]) auto
  qed
qed

text \<open>The hour a fetch is keyed by and the hour the snapshot is taken from agree: in a response of
  whole hours in time order that holds both hours around the clock reading, \<open>select_hour\<close> picks
  \<open>nearest_hour\<close>, except exactly at half past, where it picks the hour before.\<close>

theorem hour_chosen_is_hour_asked:
  fixes now_ms :: int
  defines "q \<equiv> now_ms div 3600000"
  assumes whole: "\<forall>t \<in> set ts. t mod 3600 = 0 \<and> \<bar>t * 1000\<bar> < 2 ^ 63" and sorted: "sorted_wrt (<) ts"
    and both: "q * 3600 \<in> set ts" "(q + 1) * 3600 \<in> set ts"
  shows "\<exists>i. select_hour ts now_ms = Some i \<and>
    ts ! i = (if now_ms mod 3600000 = 1800000 then nearest_hour now_ms - 1 else nearest_hour now_ms) * 3600"
proof -
  obtain i where i: "select_hour ts now_ms = Some i"
    using both(1) select_from_spec [where k = 0 and ts = ts and now_ms = now_ms]
    by (cases "select_from 0 ts now_ms") (auto simp: select_hour_def)
  note spec = select_hour_spec [OF i]
  define m where "m = now_ms mod 3600000"
  have now: "now_ms = 3600000 * q + m" "0 \<le> m" "m < 3600000" by (simp_all add: m_def q_def)
  have dist: "hour_distance now_ms t = \<bar>t * 1000 - now_ms\<bar>" if "t \<in> set ts" for t
    using whole that by (force simp: hour_distance_def i64_sat_def)
  have le: "hour_distance now_ms (ts ! i) \<le> hour_distance now_ms t" if "t \<in> set ts" for t
    using spec(2) that by (auto simp: in_set_conv_nth)
  have ti: "ts ! i \<in> set ts" using spec(1) by simp
  define k where "k = ts ! i div 3600"
  have k: "ts ! i = 3600 * k" using whole ti by (auto simp: k_def)
  have d: "\<bar>3600000 * (k - q) - m\<bar> \<le> m" "\<bar>3600000 * (k - q) - m\<bar> \<le> 3600000 - m"
    using le [OF both(1)] le [OF both(2)] dist [OF ti] dist [OF both(1)] dist [OF both(2)] now k
    by (simp_all add: algebra_simps)
  have kq: "k = q \<or> k = q + 1"
  proof -
    have "3600000 * (k - q) < 3600000 * 2" "3600000 * - 1 < 3600000 * (k - q)"
      using d now(2,3) by (simp_all add: abs_le_iff)
    then have "k - q < 2" "- 1 < k - q" by (simp_all only: mult_less_cancel_left_pos zero_less_numeral)
    then show ?thesis by linarith
  qed
  have near: "k = q" if "m < 1800000" using that kq d(1) by auto
  have far: "k = q + 1" if "1800000 < m" using that kq d(2) by auto
  have tie: "k = q" if "m = 1800000"
  proof (rule ccontr)
    assume "k \<noteq> q"
    with kq have k1: "ts ! i = (q + 1) * 3600" using k by simp
    obtain j where j: "j < length ts" "ts ! j = q * 3600" using both(1) by (auto simp: in_set_conv_nth)
    have "j < i"
    proof (rule ccontr)
      assume "\<not> j < i"
      then have "i = j \<or> ts ! i < ts ! j" using sorted j(1) by (cases i j rule: linorder_cases) (auto simp: sorted_wrt_iff_nth_less)
      then show False using k1 j(2) by auto
    qed
    then have "hour_distance now_ms (ts ! i) < hour_distance now_ms (q * 3600)" using spec(3) j(2) by auto
    then show False using dist [OF ti] dist [OF both(1)] k1 now that by (simp add: algebra_simps)
  qed
  have "nearest_hour now_ms = q + (if m < 1800000 then 0 else 1)" by (simp add: nearest_hour_eq q_def m_def)
  with near far tie i k show ?thesis
    by (intro exI [of _ i]) (auto simp: m_def [symmetric] algebra_simps not_less)
qed

theorem hour_chosen_is_hour_asked_witness:
  "\<exists>i. select_hour [0, 3600, 7200] 5400000 = Some i \<and> [0, 3600, 7200] ! i = (3600 :: int)"
  using hour_chosen_is_hour_asked [of "[0, 3600, 7200]" 5400000] by (simp add: nearest_hour_def)

subsection \<open>Reservations\<close>

text \<open>Reservations are served in the order they are made, however long they have to wait.\<close>

fun reserve_all :: "(f64 \<times> duration) list \<Rightarrow> token_bucket \<Rightarrow> duration list option" where
  "reserve_all [] b = Some []"
| "reserve_all ((cost, now) # rs) b =
     (case reserve cost now b of
        None \<Rightarrow> None
      | Some (wait, b) \<Rightarrow> map_option ((#) (now + wait)) (reserve_all rs b))"

lemma reserve_ready:
  assumes "reserve cost now b = Some (wait, b')"
  shows "now + wait = max now (tb_updated b')" and "tb_updated b \<le> tb_updated b'" and "now \<le> tb_updated b'"
proof -
  obtain refill where b': "tb_updated b' = tb_updated (bucket_refill now b) + refill"
    "wait = tb_updated (bucket_refill now b) + refill - now"
    using assms by (auto simp: reserve_def Let_def split: option.splits if_splits)
  moreover have "tb_updated b \<le> tb_updated (bucket_refill now b)" "now \<le> tb_updated (bucket_refill now b)"
    by (auto simp: bucket_refill_def Let_def)
  ultimately show "now + wait = max now (tb_updated b')" "tb_updated b \<le> tb_updated b'" "now \<le> tb_updated b'"
    by simp_all
qed

lemma reservations_in_order:
  "reserve_all rs b = Some ready \<Longrightarrow> sorted ready \<and> (\<forall>t \<in> set ready. tb_updated b \<le> t)"
proof (induction rs arbitrary: b ready)
  case (Cons r rs)
  obtain cost now where r: "r = (cost, now)" by fastforce
  with Cons.prems obtain wait b' ready' where s: "reserve cost now b = Some (wait, b')"
    "reserve_all rs b' = Some ready'" "ready = (now + wait) # ready'"
    by (auto split: option.splits)
  from Cons.IH [OF s(2)] reserve_ready [OF s(1)] s(3) show ?case by fastforce
qed simp

end
