(* ===== verification/Weather_Config.thy ===== *)
theory Weather_Config imports Weather_Provider Net_Addr begin

text \<open>
  \<open>adsb-weather-server/src/config.rs\<close>: the configuration of the weather service, the overlay of the
  configuration file and the validation. Clap's command-line parsing and reading the file are not
  modelled; the overlay works on a parsed TOML table, as that of the feed client.
\<close>

definition OPEN_METEO_LEVELS :: "nat list" where
  "OPEN_METEO_LEVELS = [1000, 975, 950, 925, 900, 850, 800, 700, 600, 500, 400, 300, 250, 200, 150, 100,
     70, 50, 30]"

record weather_config =
  wc_config :: string
  wc_print_config :: bool
  wc_source_id :: string
  wc_mqtt_broker :: string
  wc_mqtt_port :: nat
  wc_mqtt_topic :: string
  wc_latitude :: "f64 option"
  wc_longitude :: "f64 option"
  wc_radius_nm :: f64
  wc_spacing_deg :: f64
  wc_levels :: "nat list"
  wc_refresh_minutes :: nat
  wc_model :: string
  wc_base_url :: string
  wc_cache_path :: "string option"
  wc_http_port :: nat
  wc_http_bind :: string
  wc_state_path :: "string option"
  wc_log_level :: string

definition default_weather_config :: weather_config where
  "default_weather_config = \<lparr>
     wc_config = ''/etc/adsb/weather.toml'', wc_print_config = False, wc_source_id = ''adsb-edge'',
     wc_mqtt_broker = ''localhost'', wc_mqtt_port = 1883, wc_mqtt_topic = ''adsb/weather/grid'',
     wc_latitude = None, wc_longitude = None, wc_radius_nm = F_fin 300, wc_spacing_deg = F_fin 1,
     wc_levels = [850, 700, 500, 300, 250, 200], wc_refresh_minutes = 60, wc_model = ''best_match'',
     wc_base_url = ''https://api.open-meteo.com/v1/forecast'', wc_cache_path = None,
     wc_http_port = 8789, wc_http_bind = ''127.0.0.1'', wc_state_path = None, wc_log_level = ''info''\<rparr>"

subsection \<open>The file\<close>

definition try_unsigned :: "nat \<Rightarrow> toml \<Rightarrow> nat option" where
  "try_unsigned bits v = Option.bind (as_integer v) (\<lambda>i. if 0 \<le> i \<and> i < 2 ^ bits then Some (nat i) else None)"

text \<open>All or nothing.\<close>

fun all_some :: "'a option list \<Rightarrow> 'a list option" where
  "all_some [] = Some []"
| "all_some (x # xs) = Option.bind x (\<lambda>y. map_option ((#) y) (all_some xs))"

definition overlay_weather_file ::
  "(string \<rightharpoonup> toml) \<Rightarrow> (string \<Rightarrow> bool) \<Rightarrow> weather_config \<Rightarrow> weather_config" where
  "overlay_weather_file file is_defaulted =
     (let str = (\<lambda>key. file_value is_defaulted file key as_str);
          float = (\<lambda>key. file_value is_defaulted file key as_f64)
      in ovl (str ''log_level'') (\<lambda>v c. c\<lparr>wc_log_level := v\<rparr>)
       \<circ> ovl (str ''state_path'') (\<lambda>v c. c\<lparr>wc_state_path := Some v\<rparr>)
       \<circ> ovl (str ''http_bind'') (\<lambda>v c. c\<lparr>wc_http_bind := v\<rparr>)
       \<circ> ovl (file_value is_defaulted file ''http_port'' (try_unsigned 16)) (\<lambda>v c. c\<lparr>wc_http_port := v\<rparr>)
       \<circ> ovl (str ''cache_path'') (\<lambda>v c. c\<lparr>wc_cache_path := Some v\<rparr>)
       \<circ> ovl (str ''base_url'') (\<lambda>v c. c\<lparr>wc_base_url := v\<rparr>)
       \<circ> ovl (str ''model'') (\<lambda>v c. c\<lparr>wc_model := v\<rparr>)
       \<circ> ovl (file_value is_defaulted file ''refresh_minutes'' (try_unsigned 32))
            (\<lambda>v c. c\<lparr>wc_refresh_minutes := v\<rparr>)
       \<circ> ovl (file_value is_defaulted file ''levels''
              (\<lambda>v. Option.bind (as_array v) (\<lambda>a. all_some (map (try_unsigned 16) a))))
            (\<lambda>v c. c\<lparr>wc_levels := v\<rparr>)
       \<circ> ovl (float ''spacing_deg'') (\<lambda>v c. c\<lparr>wc_spacing_deg := v\<rparr>)
       \<circ> ovl (float ''radius_nm'') (\<lambda>v c. c\<lparr>wc_radius_nm := v\<rparr>)
       \<circ> ovl (float ''receiver_longitude'') (\<lambda>v c. c\<lparr>wc_longitude := Some v\<rparr>)
       \<circ> ovl (float ''receiver_latitude'') (\<lambda>v c. c\<lparr>wc_latitude := Some v\<rparr>)
       \<circ> ovl (str ''mqtt_topic'') (\<lambda>v c. c\<lparr>wc_mqtt_topic := v\<rparr>)
       \<circ> ovl (file_value is_defaulted file ''mqtt_port'' (try_unsigned 16)) (\<lambda>v c. c\<lparr>wc_mqtt_port := v\<rparr>)
       \<circ> ovl (str ''mqtt_broker'') (\<lambda>v c. c\<lparr>wc_mqtt_broker := v\<rparr>)
       \<circ> ovl (str ''source_id'') (\<lambda>v c. c\<lparr>wc_source_id := v\<rparr>))"

subsection \<open>Validation\<close>

datatype weather_config_error =
    No_Latitude | No_Longitude | No_Refresh | No_Levels | Unserved_Level nat | Bad_Model string
  | No_Position | Bad_Grid grid_error | Bad_Bind string

definition plain_identifier :: "string \<Rightarrow> bool" where
  "plain_identifier s \<longleftrightarrow> s \<noteq> [] \<and> list_all (\<lambda>c.
     (97 \<le> (of_char c :: nat) \<and> (of_char c :: nat) \<le> 122) \<or> is_digit c \<or> c = CHR ''_'') s"

definition weather_grid :: "(f64 \<Rightarrow> f64) \<Rightarrow> weather_config \<Rightarrow> weather_config_error + grid_spec" where
  "weather_grid cos_f c = (case (wc_latitude c, wc_longitude c) of
      (Some lat, Some lon) \<Rightarrow>
        (case centered cos_f lat lon (wc_radius_nm c) (wc_spacing_deg c) of
           Inl e \<Rightarrow> Inl (Bad_Grid e) | Inr g \<Rightarrow> Inr g)
    | _ \<Rightarrow> Inl No_Position)"

definition http_bind_addr :: "weather_config \<Rightarrow> weather_config_error + ip_addr" where
  "http_bind_addr c = (case parse_ip (wc_http_bind c) of
      None \<Rightarrow> Inl (Bad_Bind (wc_http_bind c)) | Some a \<Rightarrow> Inr a)"

definition validate_weather :: "(f64 \<Rightarrow> f64) \<Rightarrow> weather_config \<Rightarrow> weather_config_error + unit" where
  "validate_weather cos_f c =
     (if wc_latitude c = None then Inl No_Latitude
      else if wc_longitude c = None then Inl No_Longitude
      else if wc_refresh_minutes c = 0 then Inl No_Refresh
      else if wc_levels c = [] then Inl No_Levels
      else case find (\<lambda>l. l \<notin> set OPEN_METEO_LEVELS) (wc_levels c) of
        Some bad \<Rightarrow> Inl (Unserved_Level bad)
      | None \<Rightarrow>
          if \<not> plain_identifier (wc_model c) then Inl (Bad_Model (wc_model c))
          else (case weather_grid cos_f c of
              Inl e \<Rightarrow> Inl e
            | Inr _ \<Rightarrow> (case http_bind_addr c of Inl e \<Rightarrow> Inl e | Inr _ \<Rightarrow> Inr ())))"

subsection \<open>The numbers of the file\<close>

text \<open>The integer the file gives for a key that the command line left alone.\<close>

definition given_integer :: "(string \<Rightarrow> bool) \<Rightarrow> (string \<rightharpoonup> toml) \<Rightarrow> string \<Rightarrow> int option" where
  "given_integer is_defaulted file key =
     (case file key of Some (TInteger i) \<Rightarrow> if is_defaulted key then Some i else None | _ \<Rightarrow> None)"

text \<open>Two ways to put it into an unsigned field: only when it fits, or its low bits.\<close>

definition fits :: "nat \<Rightarrow> int \<Rightarrow> bool" where
  "fits bits i \<longleftrightarrow> 0 \<le> i \<and> i < 2 ^ bits"

definition taken_if_fits :: "nat \<Rightarrow> int option \<Rightarrow> nat \<Rightarrow> nat" where
  "taken_if_fits bits given old = (case given of Some i \<Rightarrow> if fits bits i then nat i else old | None \<Rightarrow> old)"

definition taken_wrapped :: "nat \<Rightarrow> int option \<Rightarrow> nat \<Rightarrow> nat" where
  "taken_wrapped bits given old = (case given of Some i \<Rightarrow> nat (i mod 2 ^ bits) | None \<Rightarrow> old)"

text \<open>One step of an overlay sets its own field and leaves the others.\<close>

definition or_keep :: "'v option \<Rightarrow> 'v \<Rightarrow> 'v" where
  "or_keep v old = (case v of None \<Rightarrow> old | Some x \<Rightarrow> x)"

lemma ovl_own: "(\<And>x d. field (upd x d) = x) \<Longrightarrow> field (ovl v upd c) = or_keep v (field c)"
  by (cases v) (auto simp: or_keep_def)

lemma ovl_other: "(\<And>x d. field (upd x d) = field d) \<Longrightarrow> field (ovl v upd c) = field c"
  by (cases v) auto

lemma file_value_try_unsigned:
  "file_value is_defaulted file key (try_unsigned bits)
     = Option.bind (given_integer is_defaulted file key) (\<lambda>i. if fits bits i then Some (nat i) else None)"
  by (cases "file key") (auto simp: file_value_def given_integer_def try_unsigned_def fits_def split: toml.split)

lemma try_u16_unsigned: "try_u16 = try_unsigned 16"
  by (rule ext) (simp add: try_u16_def try_unsigned_def)

lemma file_value_as_unsigned:
  "file_value is_defaulted file key (as_unsigned bits) = map_option (\<lambda>i. nat (i mod 2 ^ bits)) (given_integer is_defaulted file key)"
  by (cases "file key") (auto simp: file_value_def given_integer_def as_unsigned_def split: toml.split)

lemma case_taken:
  "or_keep (Option.bind given (\<lambda>i. if fits bits i then Some (nat i) else None)) old = taken_if_fits bits given old"
  "or_keep (map_option (\<lambda>i. nat (i mod 2 ^ bits)) given) old = taken_wrapped bits given old"
  by (simp_all add: or_keep_def taken_if_fits_def taken_wrapped_def split: option.split)

lemma all_some_levels:
  "all_some (map (try_unsigned bits) xs)
     = (if list_all (\<lambda>x. case x of TInteger i \<Rightarrow> fits bits i | _ \<Rightarrow> False) xs
        then Some (map (\<lambda>x. case x of TInteger i \<Rightarrow> nat i | _ \<Rightarrow> 0) xs) else None)"
  by (induction xs) (auto simp: try_unsigned_def fits_def split: toml.split)



subsection \<open>What validation promises\<close>

lemma find_None_all: "find P xs = None \<longleftrightarrow> (\<forall>x \<in> set xs. \<not> P x)"
  by (induction xs) auto

lemma plain_no_separator: "plain_identifier s \<Longrightarrow> c \<in> set s \<Longrightarrow> c \<notin> {CHR ''&'', CHR ''?'', CHR ''='', CHR ''#'', CHR '' '', CHR ''%''}"
  by (auto simp: plain_identifier_def list_all_iff is_digit_def)

text \<open>A configuration that passes validation describes a service that can ask for data: the
  receiver's position is given and a grid exists around it, a refresh takes at least a minute, there
  is a pressure level and all of them are served, and the model name cannot add or cut parameters
  of the request it is pasted into.\<close>

theorem validated_weather_config:
  assumes "validate_weather cos_f c = Inr ()"
  shows "\<exists>lat lon g. wc_latitude c = Some lat \<and> wc_longitude c = Some lon
      \<and> f64_le (F_fin (- 90)) lat \<and> f64_le lat (F_fin 90)
      \<and> weather_grid cos_f c = Inr g \<and> g_dlat g = wc_spacing_deg c \<and> f64_lt (F_fin 0) (g_dlat g)
    \<and> 0 < wc_refresh_minutes c \<and> wc_levels c \<noteq> [] \<and> set (wc_levels c) \<subseteq> set OPEN_METEO_LEVELS
    \<and> wc_model c \<noteq> [] \<and> set (wc_model c) \<inter> {CHR ''&'', CHR ''?'', CHR ''='', CHR ''#'', CHR '' '', CHR ''%''} = {}"
proof -
  obtain lat lon where pos: "wc_latitude c = Some lat" "wc_longitude c = Some lon"
    using assms by (auto simp: validate_weather_def split: if_splits)
  have rest: "0 < wc_refresh_minutes c" "wc_levels c \<noteq> []" "set (wc_levels c) \<subseteq> set OPEN_METEO_LEVELS"
    "plain_identifier (wc_model c)"
    using assms by (auto simp: validate_weather_def find_None_all split: if_splits option.splits)
  obtain g where g: "weather_grid cos_f c = Inr g"
    using assms by (auto simp: validate_weather_def split: if_splits option.splits sum.splits)
  then have ctr: "centered cos_f lat lon (wc_radius_nm c) (wc_spacing_deg c) = Inr g"
    by (auto simp: weather_grid_def pos split: sum.splits)
  have "f64_le (F_fin (- 90)) lat" "f64_le lat (F_fin 90)" "g_dlat g = wc_spacing_deg c" "f64_lt (F_fin 0) (g_dlat g)"
    using ctr by (auto simp: centered_def Let_def split: if_splits)
  moreover have "wc_model c \<noteq> []" using rest(4) by (simp add: plain_identifier_def)
  moreover have "set (wc_model c) \<inter> {CHR ''&'', CHR ''?'', CHR ''='', CHR ''#'', CHR '' '', CHR ''%''} = {}"
    using plain_no_separator [OF rest(4)] by blast
  ultimately show ?thesis using pos g rest(1-3) by blast
qed

definition located_config :: "f64 \<Rightarrow> f64 \<Rightarrow> weather_config" where
  "located_config lon spacing = default_weather_config\<lparr>wc_latitude := Some (F_fin 0), wc_longitude := Some lon,
     wc_spacing_deg := spacing\<rparr>"

lemma located_grid:
  assumes "0 < q"
  shows "\<exists>g. weather_grid cos_f (located_config lon (F_fin q)) = Inr g"
  using assms
  by (simp add: weather_grid_def located_config_def default_weather_config_def centered_def is_finite64_def Let_def)

lemma located_fields:
  "wc_latitude (located_config lon s) = Some (F_fin 0)" "wc_longitude (located_config lon s) = Some lon"
  "wc_refresh_minutes (located_config lon s) = 60" "wc_levels (located_config lon s) = [850, 700, 500, 300, 250, 200]"
  "wc_model (located_config lon s) = ''best_match''" "wc_http_bind (located_config lon s) = ''127.0.0.1''"
  by (simp_all add: located_config_def default_weather_config_def)

lemma located_valid:
  assumes "0 < q"
  shows "validate_weather cos_f (located_config lon (F_fin q)) = Inr ()"
proof -
  obtain g where g: "weather_grid cos_f (located_config lon (F_fin q)) = Inr g" using located_grid [OF assms] by blast
  have "plain_identifier ''best_match''" by (simp add: plain_identifier_def is_digit_def)
  with g parse_ip_loopback show ?thesis
    by (simp add: validate_weather_def http_bind_addr_def located_fields OPEN_METEO_LEVELS_def)
qed

theorem validated_weather_config_witness:
  "\<exists>g. weather_grid (\<lambda>_. F_fin 1) (located_config (F_fin 2) (F_fin 1)) = Inr g \<and> f64_lt (F_fin 0) (g_dlat g)"
  using validated_weather_config [OF located_valid [of 1 "\<lambda>_. F_fin 1" "F_fin 2"]] by auto

lemma round9_half: "round9 (F_fin (1 / 2)) = F_fin (1 / 2)"
proof -
  have "round64 500000000 = F_fin 500000000" "round64 (1 / 2) = F_fin (1 / 2)"
    using round64_small_int [of 500000000] round64_dyadic [of 1 1] by simp_all
  moreover have "round_away 500000000 = 500000000" using round_away_int [of 500000000] by simp
  ultimately show ?thesis by (simp add: round9_def f64_round_def f64_integral_def)
qed

lemma empty_grid_fetch:
  assumes "grid_len g = 0" "grid_points g = []"
  shows "fst (fetch show_f64 g levels now_ms es p) = Fetch_Err (Decode_Error OM_NoTimes)
    \<and> snd (snd (fetch show_f64 g levels now_ms es p)) = []"
  by (simp add: fetch_def fetch_pieces_def assms chunks.simps [of _ "[]"] assemble_snapshot_def)

text \<open>Validation lets through what cannot work. It does not look at the longitude, so that a NaN
  becomes the west edge of the grid; and a spacing beyond 360 degrees gives a grid without columns,
  for which no request is ever made and every fetch fails.\<close>
theorem validation_lets_through:
  "(\<exists>g. validate_weather cos_f (located_config F_nan (F_fin 1)) = Inr ()
      \<and> weather_grid cos_f (located_config F_nan (F_fin 1)) = Inr g \<and> g_lon0 g = F_nan)
   \<and> (\<exists>g. validate_weather cos_f (located_config (F_fin 0) (F_fin 720)) = Inr ()
      \<and> weather_grid cos_f (located_config (F_fin 0) (F_fin 720)) = Inr g
      \<and> (\<forall>show_f64 levels now_ms es p. fst (fetch show_f64 g levels now_ms es p) = Fetch_Err (Decode_Error OM_NoTimes)
           \<and> snd (snd (fetch show_f64 g levels now_ms es p)) = []))" (is "_ \<and> ?empty_grid")
proof
  show "\<exists>g. validate_weather cos_f (located_config F_nan (F_fin 1)) = Inr ()
      \<and> weather_grid cos_f (located_config F_nan (F_fin 1)) = Inr g \<and> g_lon0 g = F_nan"
    using located_valid [of 1 cos_f F_nan]
    by (simp add: located_config_def default_weather_config_def weather_grid_def centered_def is_finite64_def Let_def
        f64_round_def f64_integral_def wrap_lon_def f64_sub_def f64_rem_euclid_def round6_def f64_abs_def)
next
  have half: "round64 (1 / 2) = F_fin (1 / 2)" using round64_dyadic [of 1 1] by simp
  have "as_usize (f64_floor (F_fin (1 / 2))) = 0"
    by (simp add: f64_floor_def f64_integral_def as_usize_def f64_to_int_def floors)
  then have "\<exists>g. weather_grid cos_f (located_config (F_fin 0) (F_fin 720)) = Inr g \<and> g_nlon g = 0"
    by (simp add: located_config_def default_weather_config_def weather_grid_def centered_def is_finite64_def Let_def
        half round9_half)
  then obtain g where g: "weather_grid cos_f (located_config (F_fin 0) (F_fin 720)) = Inr g" "g_nlon g = 0" by blast
  then have empty: "grid_len g = 0" "grid_points g = []" by (simp_all add: grid_len_def grid_points_def grid_cells_def)
  show ?empty_grid
    by (rule exI [of _ g]) (simp add: g located_valid empty_grid_fetch [OF empty])
qed

end
