(* ===== verification/Weather_Refresh.thy ===== *)
theory Weather_Refresh imports Weather_Provider Weather_State Backoff begin

text \<open>
  \<open>adsb-weather-server/src/refresh.rs\<close>: when to fetch next, and the loop that fetches on that schedule
  under the operator's switch. The loop is a task that waits at three places; it is a step
  function over the events that can happen there: the environment writes or closes a channel, an
  arm of the current \<open>select!\<close> becomes ready and runs. A step that is not possible is \<open>None\<close>. Every
  step of the task carries the clock readings it makes.
\<close>

subsection \<open>The next delay\<close>

datatype outcome = Fetched | Fetch_Failed nat error_class

definition default_retry :: backoff where
  "default_retry = \<lparr>bo_base = from_secs 60, bo_max = from_secs (30 * 60)\<rparr>"

definition MINUTE_WINDOW :: duration where "MINUTE_WINDOW = from_secs 60"
definition DAILY_RECHECK :: duration where "DAILY_RECHECK = from_secs (6 * 3600)"
definition HOUR_MS :: int where "HOUR_MS = 3600000"
definition DAY_MS :: int where "DAY_MS = 24 * HOUR_MS"

definition until_next :: "int \<Rightarrow> int \<Rightarrow> duration" where
  "until_next now_ms period_ms = from_millis (nat (period_ms - now_ms mod period_ms))"

text \<open>The wait before jitter.\<close>

definition rate_limit_window :: "rate_limit_scope \<Rightarrow> duration \<Rightarrow> backoff \<Rightarrow> int \<Rightarrow> duration" where
  "rate_limit_window scope refresh retry now_ms = (case scope of
      Minutely \<Rightarrow> MINUTE_WINDOW
    | Hourly \<Rightarrow> max (until_next now_ms HOUR_MS) refresh
    | Daily \<Rightarrow> max (min (until_next now_ms DAY_MS) DAILY_RECHECK) refresh
    | Unknown_Scope \<Rightarrow> max refresh (bo_max retry))"

text \<open>\<open>None\<close> is the panic of \<open>mul_f64\<close>.\<close>

definition next_delay :: "outcome \<Rightarrow> duration \<Rightarrow> backoff \<Rightarrow> int \<Rightarrow> f64 \<Rightarrow> duration option" where
  "next_delay outcome refresh retry now_ms jitter =
     (let u = f64_clamp jitter (F_fin 0) (F_fin 1)
      in case outcome of
           Fetched \<Rightarrow> Some refresh
         | Fetch_Failed n Transient \<Rightarrow>
             let nominal = min (delay retry (n - 1)) refresh
             in mul_f64 nominal (f64_add (F_fin (1 / 2)) (f64_mul (F_fin (1 / 2)) u))
         | Fetch_Failed _ Rejected \<Rightarrow> Some refresh
         | Fetch_Failed _ (Rate_Limited scope retry_after) \<Rightarrow>
             let nominal = max (rate_limit_window scope refresh retry now_ms)
                               (case retry_after of None \<Rightarrow> 0 | Some d \<Rightarrow> d)
             in mul_f64 nominal (f64_add (F_fin 1) (f64_mul (round64 (1 / 10)) (f64_sub (F_fin 1) u))))"

subsection \<open>What the loop reports\<close>

record reported_state =
  rp_state :: service_state
  rp_consecutive_failures :: nat
  rp_rate_limit :: "rate_limit_scope option"
  rp_last_success_ms :: "int option"
  rp_last_error :: "string option"
  rp_next_fetch_ms :: "int option"
  rp_snapshot_valid_time_ms :: "int option"

definition default_reported :: reported_state where
  "default_reported = \<lparr>rp_state = S_Idle, rp_consecutive_failures = 0, rp_rate_limit = None,
     rp_last_success_ms = None, rp_last_error = None, rp_next_fetch_ms = None,
     rp_snapshot_valid_time_ms = None\<rparr>"

fun waiting_state :: "outcome \<Rightarrow> service_state" where
  "waiting_state Fetched = S_Idle"
| "waiting_state (Fetch_Failed _ Transient) = S_Retrying"
| "waiting_state (Fetch_Failed _ (Rate_Limited _ _)) = S_RateLimited"
| "waiting_state (Fetch_Failed _ Rejected) = S_Rejected"

definition show_open_meteo_error :: "open_meteo_error \<Rightarrow> string" where
  "show_open_meteo_error e = (case e of
      OM_Api r \<Rightarrow> ''Open-Meteo rejected the request: '' @ r
    | OM_Json m \<Rightarrow> ''malformed Open-Meteo response: '' @ m
    | OM_LocationCount got expected \<Rightarrow>
        ''expected '' @ nat_str expected @ '' locations in the response, got '' @ nat_str got
    | OM_NoTimes \<Rightarrow> ''Open-Meteo response carries no hourly timestamps'')"

definition show_provider_error :: "provider_error \<Rightarrow> string" where
  "show_provider_error e = (case e of
      Http_Error base_url message \<Rightarrow> ''request to '' @ base_url @ '' failed: '' @ message
    | Status_Error base_url status reason _ \<Rightarrow>
        base_url @ '' answered HTTP '' @ nat_str status @ (case reason of None \<Rightarrow> [] | Some r \<Rightarrow> '': '' @ r)
    | Decode_Error e \<Rightarrow> show_open_meteo_error e)"

subsection \<open>The state of the loop\<close>

record pending =
  pd_at :: instant
  pd_epoch_ms :: int

record clock_reading =
  ck_mono :: instant \<comment> \<open>\<open>tokio::time::Instant::now\<close>\<close>
  ck_wall :: int \<comment> \<open>the injected \<open>Clock\<close>, epoch milliseconds\<close>

definition pending_after :: "duration \<Rightarrow> clock_reading \<Rightarrow> pending" where
  "pending_after d ck =
     \<lparr>pd_at = ck_mono ck + d, pd_epoch_ms = i64_sat (ck_wall ck + i64_wrap (int (as_millis d)))\<rparr>"

definition pending_at_epoch_ms :: "int \<Rightarrow> clock_reading \<Rightarrow> pending" where
  "pending_at_epoch_ms epoch_ms ck =
     \<lparr>pd_at = ck_mono ck + from_millis (nat (max (i64_sat (epoch_ms - ck_wall ck)) 0)), pd_epoch_ms = epoch_ms\<rparr>"

datatype phase = Disabled_Wait | Waiting pending | Fetching int | Stopped | Crashed

datatype 'v cache_file = No_Cache | Unreadable_Cache | Cached "'v snapshot"

datatype trace_entry = Started clock_reading | Completed clock_reading duration

record 'v refresher =
  rf_grid :: grid_spec
  rf_levels :: "nat list"
  rf_refresh :: duration
  rf_retry :: backoff
  rf_cache_path :: bool
  rf_cache :: "'v cache_file"
  rf_control :: control \<comment> \<open>the store and the desired channel, shared with the API\<close>
  rf_desired_seen :: nat \<comment> \<open>how many changes of the desired channel this task has seen\<close>
  rf_desired_open :: bool
  rf_shutdown :: bool
  rf_shutdown_seen :: bool
  rf_shutdown_open :: bool
  rf_snapshots :: "'v snapshot option" \<comment> \<open>the value of the snapshot channel\<close>
  rf_reported :: reported_state \<comment> \<open>the value of the reported channel\<close>
  rf_report :: reported_state \<comment> \<open>the local copy\<close>
  rf_failures :: nat
  rf_last_outcome :: "outcome option"
  rf_pending :: "pending option"
  rf_commands_open :: bool
  rf_phase :: phase
  rf_now :: instant \<comment> \<open>the latest clock reading\<close>
  rf_trace :: "trace_entry list" \<comment> \<open>the fetches started and completed\<close>

text \<open>A watch channel only stores what differs, so publishing is storing.\<close>

definition publish_report :: "'v refresher \<Rightarrow> 'v refresher" where
  "publish_report s = s\<lparr>rf_reported := rf_report s\<rparr>"

definition set_report :: "(reported_state \<Rightarrow> reported_state) \<Rightarrow> 'v refresher \<Rightarrow> 'v refresher" where
  "set_report f s = s\<lparr>rf_report := f (rf_report s)\<rparr>"

definition snapshot_matches :: "'v refresher \<Rightarrow> 'v snapshot \<Rightarrow> bool" where
  "snapshot_matches s sn \<longleftrightarrow> sn_grid sn = rf_grid s \<and> map fst (sn_levels sn) = remdups (sort (rf_levels s))"

definition cached :: "'v refresher \<Rightarrow> 'v snapshot option" where
  "cached s = (if \<not> rf_cache_path s then None
     else case rf_cache s of
       Cached sn \<Rightarrow> if snapshot_matches s sn then Some sn else None
     | _ \<Rightarrow> None)"

subsection \<open>The loop\<close>

definition start_fetch :: "clock_reading \<Rightarrow> 'v refresher \<Rightarrow> 'v refresher" where
  "start_fetch ck s =
     (let s = publish_report (set_report (\<lambda>r. r\<lparr>rp_state := S_Fetching, rp_next_fetch_ms := None\<rparr>) s)
      in s\<lparr>rf_phase := Fetching (ck_wall ck), rf_trace := rf_trace s @ [Started ck]\<rparr>)"

definition waiting_report :: "'v refresher \<Rightarrow> pending \<Rightarrow> reported_state \<Rightarrow> reported_state" where
  "waiting_report s due r =
     (let state = (case rf_last_outcome s of
          Some outcome \<Rightarrow> waiting_state outcome
        | None \<Rightarrow> if rp_state r = S_Disabled then S_RateLimited else rp_state r)
      in r\<lparr>rp_state := state, rp_next_fetch_ms := Some (pd_epoch_ms due)\<rparr>)"

definition loop_top :: "clock_reading \<Rightarrow> 'v refresher \<Rightarrow> 'v refresher" where
  "loop_top ck s =
     (if rf_shutdown s then s\<lparr>rf_phase := Stopped\<rparr>
      else if \<not> ct_desired (rf_control s)
      then (publish_report (set_report (\<lambda>r. r\<lparr>rp_state := S_Disabled, rp_next_fetch_ms := None\<rparr>) s))
             \<lparr>rf_phase := Disabled_Wait\<rparr>
      else (case rf_pending s of
          Some due \<Rightarrow> (publish_report (set_report (waiting_report s due) s))\<lparr>rf_phase := Waiting due\<rparr>
        | None \<Rightarrow> start_fetch ck s))"

definition persist_not_before :: "outcome \<Rightarrow> int \<Rightarrow> 'v refresher \<Rightarrow> 'v refresher" where
  "persist_not_before outcome next_fetch_ms s =
     (let not_before = (case outcome of Fetch_Failed _ (Rate_Limited _ _) \<Rightarrow> Some next_fetch_ms | _ \<Rightarrow> None)
      in s\<lparr>rf_control := run_state_op (Not_Before not_before) (rf_control s)\<rparr>)"

text \<open>What a finished fetch does to the state, up to the choice of the next deadline.\<close>

definition take_result ::
  "bool \<Rightarrow> int \<Rightarrow> provider_error + 'v snapshot \<Rightarrow> 'v refresher \<Rightarrow> outcome \<times> 'v refresher" where
  "take_result cache_ok now_ms result s = (case result of
      Inr sn \<Rightarrow>
        let s = s\<lparr>rf_failures := 0\<rparr>;
            s = set_report (\<lambda>r. r\<lparr>rp_consecutive_failures := 0, rp_rate_limit := None, rp_last_error := None,
                  rp_last_success_ms := Some now_ms, rp_snapshot_valid_time_ms := Some (sn_valid_time_ms sn)\<rparr>) s;
            s = (if rf_cache_path s \<and> cache_ok then s\<lparr>rf_cache := Cached sn\<rparr> else s)
        in (Fetched, s\<lparr>rf_snapshots := Some sn\<rparr>)
    | Inl e \<Rightarrow>
        let failures = sat_add U32_MAX (rf_failures s) 1;
            class = error_class_of e;
            s = s\<lparr>rf_failures := failures\<rparr>;
            s = set_report (\<lambda>r. r\<lparr>rp_consecutive_failures := failures,
                  rp_last_error := Some (show_provider_error e),
                  rp_rate_limit := (case class of Rate_Limited scope _ \<Rightarrow> Some scope | _ \<Rightarrow> None)\<rparr>) s
        in (Fetch_Failed failures class, s))"

definition fetch_done ::
  "clock_reading \<Rightarrow> f64 \<Rightarrow> bool \<Rightarrow> int \<Rightarrow> provider_error + 'v snapshot \<Rightarrow> 'v refresher \<Rightarrow> 'v refresher" where
  "fetch_done ck jitter cache_ok now_ms result s =
     (let (outcome, s) = take_result cache_ok now_ms result s
      in case next_delay outcome (rf_refresh s) (rf_retry s) (ck_wall ck) jitter of
           None \<Rightarrow> s\<lparr>rf_phase := Crashed\<rparr>
         | Some d \<Rightarrow>
             let due = pending_after d ck;
                 s = persist_not_before outcome (pd_epoch_ms due) s
             in loop_top ck (s\<lparr>rf_last_outcome := Some outcome, rf_pending := Some due,
                               rf_trace := rf_trace s @ [Completed ck d]\<rparr>))"

definition refresher_start :: "clock_reading \<Rightarrow> 'v refresher \<Rightarrow> 'v refresher" where
  "refresher_start ck s0 =
     (let s = s0\<lparr>rf_report := default_reported, rf_now := ck_mono ck, rf_failures := 0,
                 rf_last_outcome := None, rf_pending := None, rf_commands_open := True\<rparr>;
          s = (case cached s of
              None \<Rightarrow> s
            | Some sn \<Rightarrow> (set_report (\<lambda>r. r\<lparr>rp_snapshot_valid_time_ms := Some (sn_valid_time_ms sn)\<rparr>) s)
                           \<lparr>rf_snapshots := Some sn\<rparr>);
          s = (case ps_not_before_ms (ss_state (ct_store (rf_control s))) of
              None \<Rightarrow> s
            | Some t \<Rightarrow>
                let s = (if ck_wall ck < t then set_report (\<lambda>r. r\<lparr>rp_state := S_RateLimited\<rparr>) s else s)
                in s\<lparr>rf_pending := Some (pending_at_epoch_ms t ck)\<rparr>)
      in loop_top ck s)"

subsection \<open>Events\<close>

datatype 'v refresh_event =
    Operator bool \<comment> \<open>the API sets the switch\<close>
  | Commands_Closed \<comment> \<open>the sender of the desired channel is dropped\<close>
  | Shutdown_Sent bool
  | Shutdown_Closed
  | Wake_Shutdown clock_reading \<comment> \<open>\<open>shutdown.changed()\<close> is ready\<close>
  | Wake_Desired clock_reading \<comment> \<open>\<open>desired.changed()\<close> is ready\<close>
  | Deadline clock_reading \<comment> \<open>\<open>sleep_until(due.at)\<close> is ready\<close>
  | Fetch_Done clock_reading f64 bool "provider_error + 'v snapshot"
      \<comment> \<open>the fetch is ready; the jitter drawn, whether the cache can be written\<close>

definition awaiting :: "'v refresher \<Rightarrow> bool" where
  "awaiting s \<longleftrightarrow> rf_phase s \<notin> {Stopped, Crashed}"

definition tick :: "clock_reading \<Rightarrow> 'v refresher \<Rightarrow> 'v refresher option" where
  "tick ck s = (if awaiting s \<and> rf_now s \<le> ck_mono ck then Some (s\<lparr>rf_now := ck_mono ck\<rparr>) else None)"

text \<open>\<open>desired.changed()\<close>: a change not seen yet, then the end of the channel.\<close>

definition on_desired :: "clock_reading \<Rightarrow> 'v refresher \<Rightarrow> 'v refresher option" where
  "on_desired ck s =
     (if \<not> rf_commands_open s then None
      else if rf_desired_seen s \<noteq> ct_wakes (rf_control s)
      then (let s = s\<lparr>rf_desired_seen := ct_wakes (rf_control s)\<rparr>; on = ct_desired (rf_control s)
            in Some (case rf_phase s of
                Disabled_Wait \<Rightarrow> if on then loop_top ck s else s
              | Waiting _ \<Rightarrow> if \<not> on then loop_top ck s else s
              | Fetching _ \<Rightarrow> if \<not> on then loop_top ck s else s
              | _ \<Rightarrow> s))
      else if \<not> rf_desired_open s then Some (s\<lparr>rf_commands_open := False\<rparr>) else None)"

fun refresh_step :: "'v refresh_event \<Rightarrow> 'v refresher \<Rightarrow> 'v refresher option" where
  "refresh_step (Operator on) s =
     (if rf_desired_open s then Some (s\<lparr>rf_control := snd (set_enabled on (rf_control s))\<rparr>) else None)"
| "refresh_step Commands_Closed s = Some (s\<lparr>rf_desired_open := False\<rparr>)"
| "refresh_step (Shutdown_Sent b) s =
     (if rf_shutdown_open s then Some (s\<lparr>rf_shutdown := b, rf_shutdown_seen := False\<rparr>) else None)"
| "refresh_step Shutdown_Closed s = Some (s\<lparr>rf_shutdown_open := False\<rparr>)"
| "refresh_step (Wake_Shutdown ck) s = Option.bind (tick ck s) (\<lambda>s.
     if \<not> rf_shutdown_seen s
     then (if rf_shutdown s then Some (s\<lparr>rf_phase := Stopped\<rparr>) else Some (s\<lparr>rf_shutdown_seen := True\<rparr>))
     else if \<not> rf_shutdown_open s then Some (s\<lparr>rf_phase := Stopped\<rparr>) else None)"
| "refresh_step (Wake_Desired ck) s = Option.bind (tick ck s) (on_desired ck)"
| "refresh_step (Deadline ck) s = Option.bind (tick ck s) (\<lambda>s. case rf_phase s of
       Waiting due \<Rightarrow> if pd_at due \<le> ck_mono ck then Some (start_fetch ck (s\<lparr>rf_pending := None\<rparr>)) else None
     | _ \<Rightarrow> None)"
| "refresh_step (Fetch_Done ck jitter cache_ok result) s = Option.bind (tick ck s) (\<lambda>s. case rf_phase s of
       Fetching now_ms \<Rightarrow> Some (fetch_done ck jitter cache_ok now_ms result s)
     | _ \<Rightarrow> None)"

fun refresh_run :: "'v refresh_event list \<Rightarrow> 'v refresher \<Rightarrow> 'v refresher option" where
  "refresh_run [] s = Some s"
| "refresh_run (e # es) s = Option.bind (refresh_step e s) (refresh_run es)"

end
