(* ===== verification/Weather_Schedule.thy ===== *)
theory Weather_Schedule imports Weather_Refresh begin

text \<open>
  What the refresh loop guarantees, over every sequence of events: it keeps its schedule, it tells
  the truth about itself, it never loses the last good snapshot, and a rate limit outlives a
  restart.
\<close>

lemmas loop_defs = loop_top_def start_fetch_def publish_report_def set_report_def waiting_report_def Let_def

lemmas done_defs = fetch_done_def take_result_def persist_not_before_def Let_def

lemma refresh_run_append: "refresh_run (xs @ ys) s = Option.bind (refresh_run xs s) (refresh_run ys)"
  by (induction xs arbitrary: s) (auto simp: bind_eq_Some_conv split: Option.bind_split)

lemma refresh_run_invariant:
  assumes "\<And>e s s'. refresh_step e s = Some s' \<Longrightarrow> P s \<Longrightarrow> P s'"
    and "refresh_run es s = Some s'" and "P s"
  shows "P s'"
  using assms(2,3)
proof (induction es arbitrary: s)
  case (Cons e es)
  then obtain t where "refresh_step e s = Some t" "refresh_run es t = Some s'"
    by (auto simp: bind_eq_Some_conv)
  with Cons.IH [of t] assms(1) [of e s t] Cons.prems(2) show ?case by blast
qed simp

text \<open>The steps that matter: everything else only touches the channels.\<close>

lemma tick_Some: "tick ck s = Some t \<longleftrightarrow> awaiting s \<and> rf_now s \<le> ck_mono ck \<and> t = s\<lparr>rf_now := ck_mono ck\<rparr>"
  by (auto simp: tick_def)

lemma step_DeadlineE:
  assumes "refresh_step (Deadline ck) s = Some s'"
  obtains t due where "tick ck s = Some t" "rf_phase t = Waiting due" "pd_at due \<le> ck_mono ck"
    "s' = start_fetch ck (t\<lparr>rf_pending := None\<rparr>)"
proof -
  from assms obtain t where "tick ck s = Some t"
    "(case rf_phase t of Waiting due \<Rightarrow>
       if pd_at due \<le> ck_mono ck then Some (start_fetch ck (t\<lparr>rf_pending := None\<rparr>)) else None | _ \<Rightarrow> None) = Some s'"
    by (auto simp: bind_eq_Some_conv)
  with that show ?thesis by (cases "rf_phase t") (auto split: if_splits)
qed

lemma step_Fetch_DoneE:
  assumes "refresh_step (Fetch_Done ck jitter ok r) s = Some s'"
  obtains t n where "tick ck s = Some t" "rf_phase t = Fetching n" "s' = fetch_done ck jitter ok n r t"
proof -
  from assms obtain t where "tick ck s = Some t"
    "(case rf_phase t of Fetching n \<Rightarrow> Some (fetch_done ck jitter ok n r t) | _ \<Rightarrow> None) = Some s'"
    by (auto simp: bind_eq_Some_conv)
  with that show ?thesis by (cases "rf_phase t") auto
qed

lemma step_Wake_DesiredE:
  assumes "refresh_step (Wake_Desired ck) s = Some s'"
  obtains t where "tick ck s = Some t" "on_desired ck t = Some s'"
  using assms by (auto simp: bind_eq_Some_conv)

lemma step_Wake_ShutdownE:
  assumes "refresh_step (Wake_Shutdown ck) s = Some s'"
  obtains t where "tick ck s = Some t" "s' = t\<lparr>rf_phase := Stopped\<rparr> \<or> s' = t\<lparr>rf_shutdown_seen := True\<rparr>"
  using assms by (auto simp: bind_eq_Some_conv split: if_splits)

lemmas step_elims = step_DeadlineE step_Fetch_DoneE step_Wake_DesiredE step_Wake_ShutdownE

subsection \<open>Keeping the schedule\<close>

fun keeps_schedule :: "instant \<Rightarrow> trace_entry list \<Rightarrow> bool" where
  "keeps_schedule f [] = True"
| "keeps_schedule f (Started ck # t) = (f \<le> ck_mono ck \<and> keeps_schedule f t)"
| "keeps_schedule f (Completed ck d # t) = keeps_schedule (max f (ck_mono ck + d)) t"

fun floor_after :: "instant \<Rightarrow> trace_entry list \<Rightarrow> instant" where
  "floor_after f [] = f"
| "floor_after f (Started ck # t) = floor_after f t"
| "floor_after f (Completed ck d # t) = floor_after (max f (ck_mono ck + d)) t"

lemma keeps_schedule_append [simp]:
  "keeps_schedule f (xs @ ys) \<longleftrightarrow> keeps_schedule f xs \<and> keeps_schedule (floor_after f xs) ys"
  by (induction xs arbitrary: f rule: keeps_schedule.induct) auto

lemma floor_after_append [simp]: "floor_after f (xs @ ys) = floor_after (floor_after f xs) ys"
  by (induction xs arbitrary: f rule: keeps_schedule.induct) auto

lemma floor_after_ge: "f \<le> floor_after f xs"
  by (induction f xs rule: floor_after.induct) auto

lemma keeps_schedule_started: "keeps_schedule f xs \<Longrightarrow> Started ck \<in> set xs \<Longrightarrow> f \<le> ck_mono ck"
  by (induction f xs rule: keeps_schedule.induct) auto

lemma keeps_schedule_spaced:
  assumes "keeps_schedule f (xs @ Completed ck d # ys @ Started ck' # zs)"
  shows "ck_mono ck + d \<le> ck_mono ck'"
proof -
  have "floor_after (max (floor_after f xs) (ck_mono ck + d)) ys \<le> ck_mono ck'" using assms by simp
  moreover have "max (floor_after f xs) (ck_mono ck + d) \<le> floor_after (max (floor_after f xs) (ck_mono ck + d)) ys"
    by (rule floor_after_ge)
  ultimately show ?thesis by simp
qed

definition on_schedule :: "instant \<Rightarrow> 'v refresher \<Rightarrow> bool" where
  "on_schedule f s \<longleftrightarrow> keeps_schedule f (rf_trace s) \<and>
     (awaiting s \<longrightarrow>
       (case rf_pending s of
          Some due \<Rightarrow> floor_after f (rf_trace s) \<le> pd_at due \<and> (\<forall>n. rf_phase s \<noteq> Fetching n)
        | None \<Rightarrow> floor_after f (rf_trace s) \<le> rf_now s) \<and>
       (case rf_phase s of Waiting due \<Rightarrow> rf_pending s = Some due | _ \<Rightarrow> True))"

lemma loop_top_on_schedule:
  assumes "keeps_schedule f (rf_trace s)" and "rf_now s = ck_mono ck"
    and "case rf_pending s of Some due \<Rightarrow> floor_after f (rf_trace s) \<le> pd_at due
         | None \<Rightarrow> floor_after f (rf_trace s) \<le> rf_now s"
  shows "on_schedule f (loop_top ck s)"
  using assms by (auto simp: on_schedule_def awaiting_def loop_defs split: option.splits)

lemma take_result_frame:
  assumes "take_result ok now_ms r s = (outcome, t)"
  shows "rf_trace t = rf_trace s" "rf_now t = rf_now s" "rf_pending t = rf_pending s" "rf_phase t = rf_phase s"
    "rf_control t = rf_control s" "rf_shutdown t = rf_shutdown s" "rf_refresh t = rf_refresh s" "rf_retry t = rf_retry s"
    "rf_desired_seen t = rf_desired_seen s"
  using assms by (auto simp: take_result_def set_report_def Let_def split: sum.splits if_splits)

lemma fetch_done_on_schedule:
  assumes "on_schedule f s" and "awaiting s" and "rf_phase s = Fetching n" and "rf_now s = ck_mono ck"
  shows "on_schedule f (fetch_done ck jitter ok n r s)"
proof -
  obtain outcome t where t: "take_result ok n r s = (outcome, t)" by fastforce
  note fr = take_result_frame [OF t]
  have inv: "keeps_schedule f (rf_trace s)" "floor_after f (rf_trace s) \<le> ck_mono ck"
    using assms by (auto simp: on_schedule_def split: option.splits)
  show ?thesis
  proof (cases "next_delay outcome (rf_refresh t) (rf_retry t) (ck_wall ck) jitter")
    case None
    with inv fr t show ?thesis by (simp add: fetch_done_def on_schedule_def awaiting_def)
  next
    case (Some d)
    show ?thesis unfolding fetch_done_def t Let_def prod.case Some option.case
      using inv fr assms(4)
      by (intro loop_top_on_schedule) (simp_all add: persist_not_before_def pending_after_def Let_def)
  qed
qed

lemma on_schedule_frame [simp]:
  "on_schedule f (s\<lparr>rf_desired_seen := a\<rparr>) = on_schedule f s" "on_schedule f (s\<lparr>rf_commands_open := b\<rparr>) = on_schedule f s"
  "on_schedule f (s\<lparr>rf_control := c\<rparr>) = on_schedule f s" "on_schedule f (s\<lparr>rf_desired_open := b\<rparr>) = on_schedule f s"
  "on_schedule f (s\<lparr>rf_shutdown_seen := b\<rparr>) = on_schedule f s" "on_schedule f (s\<lparr>rf_shutdown_open := b\<rparr>) = on_schedule f s"
  "on_schedule f (s\<lparr>rf_shutdown := d\<rparr>) = on_schedule f s"
  by (simp_all add: on_schedule_def awaiting_def split: option.splits phase.splits)

lemma tick_on_schedule:
  "tick ck s = Some t \<Longrightarrow> on_schedule f s \<Longrightarrow> on_schedule f t \<and> awaiting t \<and> rf_now t = ck_mono ck"
  by (auto simp: tick_Some on_schedule_def awaiting_def split: option.splits phase.splits)

lemma step_on_schedule:
  assumes "refresh_step e s = Some s'" and "on_schedule f s"
  shows "on_schedule f s'"
proof (cases e)
  case (Wake_Desired ck)
  with assms(1) obtain t where t: "tick ck s = Some t" "on_desired ck t = Some s'"
    by (auto elim: step_Wake_DesiredE simp del: refresh_step.simps)
  then have s: "on_schedule f t" "awaiting t" "rf_now t = ck_mono ck"
    using tick_on_schedule assms(2) by blast+
  let ?t = "t\<lparr>rf_desired_seen := ct_wakes (rf_control t)\<rparr>"
  have "on_schedule f (loop_top ck ?t)"
    using s by (intro loop_top_on_schedule) (auto simp: on_schedule_def split: option.splits)
  then show ?thesis using t(2) s(1)
    by (auto simp: on_desired_def Let_def split: if_splits phase.splits)
next
  case (Deadline ck)
  with assms show ?thesis
    by (auto simp: tick_Some bind_eq_Some_conv on_schedule_def awaiting_def loop_defs
        split: phase.splits if_splits option.splits)
next
  case (Fetch_Done ck jitter ok r)
  with assms(1) obtain t n where t: "tick ck s = Some t" "rf_phase t = Fetching n" "s' = fetch_done ck jitter ok n r t"
    by (auto elim: step_Fetch_DoneE simp del: refresh_step.simps)
  moreover have "on_schedule f t" "awaiting t" "rf_now t = ck_mono ck"
    using tick_on_schedule [OF t(1) assms(2)] by auto
  ultimately show ?thesis using fetch_done_on_schedule by metis
next
  case (Wake_Shutdown ck)
  with assms(1) obtain t where "tick ck s = Some t"
    "s' = t\<lparr>rf_phase := Stopped\<rparr> \<or> s' = t\<lparr>rf_shutdown_seen := True\<rparr>"
    by (auto elim: step_Wake_ShutdownE simp del: refresh_step.simps)
  moreover have "on_schedule f (t\<lparr>rf_phase := Stopped\<rparr>)" if "on_schedule f t" for t :: "'a refresher"
    using that by (simp add: on_schedule_def awaiting_def)
  ultimately show ?thesis using tick_on_schedule [OF _ assms(2)] by auto
qed (use assms in \<open>auto split: if_splits\<close>)

text \<open>The earliest instant at which a process started at \<open>ck\<close> may fetch.\<close>

definition first_fetch_floor :: "clock_reading \<Rightarrow> state_store \<Rightarrow> instant" where
  "first_fetch_floor ck store = (case ps_not_before_ms (ss_state store) of
      None \<Rightarrow> ck_mono ck | Some t \<Rightarrow> pd_at (pending_at_epoch_ms t ck))"

lemma start_on_schedule:
  assumes "rf_trace s0 = []"
  shows "on_schedule (first_fetch_floor ck (ct_store (rf_control s0))) (refresher_start ck s0)"
  unfolding refresher_start_def Let_def
  by (rule loop_top_on_schedule) (auto simp: assms first_fetch_floor_def set_report_def split: option.splits)

lemma fetches_after_floor:
  assumes "refresh_run es (refresher_start ck0 s0) = Some s" and "rf_trace s0 = []"
  shows "keeps_schedule (first_fetch_floor ck0 (ct_store (rf_control s0))) (rf_trace s)"
proof -
  have "on_schedule (first_fetch_floor ck0 (ct_store (rf_control s0))) s"
    using refresh_run_invariant [OF _ assms(1), of "on_schedule (first_fetch_floor ck0 (ct_store (rf_control s0)))"]
      step_on_schedule start_on_schedule [OF assms(2)] by blast
  then show ?thesis by (simp add: on_schedule_def)
qed

text \<open>C5: The loop keeps its schedule. Whatever the operator switches and however often a fetch is
  cancelled, a fetch that starts after another one completed starts no earlier than the delay
  computed then; and a process that finds a not-before time in the state file starts its first
  fetch no earlier than that time.\<close>

theorem fetches_keep_schedule:
  assumes "refresh_run es (refresher_start ck0 s0) = Some s" and "rf_trace s0 = []"
  shows "(\<forall>xs ck d ys ck' zs. rf_trace s = xs @ Completed ck d # ys @ Started ck' # zs
           \<longrightarrow> ck_mono ck + d \<le> ck_mono ck')
    \<and> (\<forall>ck'. Started ck' \<in> set (rf_trace s) \<longrightarrow>
           first_fetch_floor ck0 (ct_store (rf_control s0)) \<le> ck_mono ck')"
  using fetches_after_floor [OF assms] keeps_schedule_spaced keeps_schedule_started by metis

subsection \<open>A sample run\<close>

definition sample_refresher :: "nat refresher" where
  "sample_refresher = \<lparr>
     rf_grid = two_cells, rf_levels = [], rf_refresh = from_secs 3600, rf_retry = default_retry,
     rf_cache_path = False, rf_cache = No_Cache,
     rf_control = control_new (fst (store_open False No_File [])), rf_desired_seen = 0, rf_desired_open = True,
     rf_shutdown = False, rf_shutdown_seen = True, rf_shutdown_open = True, rf_snapshots = None,
     rf_reported = default_reported, rf_report = default_reported, rf_failures = 0, rf_last_outcome = None,
     rf_pending = None, rf_commands_open = True, rf_phase = Stopped, rf_now = 0, rf_trace = []\<rparr>"

definition at_ms :: "nat \<Rightarrow> clock_reading" where
  "at_ms t = \<lparr>ck_mono = from_millis t, ck_wall = int t\<rparr>"

definition refused :: provider_error where
  "refused = Status_Error ''http'' 400 None None"

lemmas sample_eval = sample_refresher_def refresher_start_def cached_def control_new_def store_open_def
  default_persisted_def default_reported_def tick_def awaiting_def at_ms_def refused_def error_class_of_def
  next_delay_def pending_after_def pending_at_epoch_ms_def on_desired_def from_millis_def from_secs_def

lemma sample_run:
  "\<exists>s. refresh_run [Fetch_Done (at_ms 1000) (F_fin 1) True (Inl refused), Operator False, Wake_Desired (at_ms 2000),
         Operator True, Wake_Desired (at_ms 3000), Deadline (at_ms 3601000)] (refresher_start (at_ms 0) sample_refresher)
       = Some s
     \<and> rf_trace s = [Started (at_ms 0), Completed (at_ms 1000) (from_secs 3600), Started (at_ms 3601000)]"
  by (simp add: sample_eval loop_defs done_defs set_enabled_def store_update_def)

theorem fetches_keep_schedule_witness:
  "\<exists>s. refresh_run [Fetch_Done (at_ms 1000) (F_fin 1) True (Inl refused), Operator False, Wake_Desired (at_ms 2000),
         Operator True, Wake_Desired (at_ms 3000), Deadline (at_ms 3601000)] (refresher_start (at_ms 0) sample_refresher)
       = Some s
     \<and> ck_mono (at_ms 1000) + from_secs 3600 \<le> ck_mono (at_ms 3601000)"
proof -
  obtain s where s: "refresh_run [Fetch_Done (at_ms 1000) (F_fin 1) True (Inl refused), Operator False,
      Wake_Desired (at_ms 2000), Operator True, Wake_Desired (at_ms 3000), Deadline (at_ms 3601000)]
      (refresher_start (at_ms 0) sample_refresher) = Some s"
    "rf_trace s = [Started (at_ms 0)] @ Completed (at_ms 1000) (from_secs 3600) # [] @ Started (at_ms 3601000) # []"
    using sample_run by auto
  have "rf_trace sample_refresher = []" by (simp add: sample_refresher_def)
  from conjunct1 [OF fetches_keep_schedule [OF s(1) this], rule_format, OF s(2)]
  have "ck_mono (at_ms 1000) + from_secs 3600 \<le> ck_mono (at_ms 3601000)" .
  with s(1) show ?thesis by blast
qed

subsection \<open>Telling the truth\<close>

fun limit_of :: "outcome option \<Rightarrow> rate_limit_scope option" where
  "limit_of (Some (Fetch_Failed _ (Rate_Limited scope _))) = Some scope"
| "limit_of _ = None"

fun failures_of :: "outcome option \<Rightarrow> nat" where
  "failures_of (Some (Fetch_Failed n _)) = n"
| "failures_of _ = 0"

text \<open>What the report says about the past: the books the loop keeps.\<close>

definition books :: "'v refresher \<Rightarrow> bool" where
  "books s \<longleftrightarrow> (let r = rf_report s in
     rp_consecutive_failures r = rf_failures s \<and> rf_failures s = failures_of (rf_last_outcome s)
     \<and> (rp_last_error r = None \<longleftrightarrow> rf_failures s = 0)
     \<and> rp_rate_limit r = limit_of (rf_last_outcome s)
     \<and> rp_snapshot_valid_time_ms r = map_option sn_valid_time_ms (rf_snapshots s)
     \<and> (rf_last_outcome s = None \<and> rf_pending s \<noteq> None \<longrightarrow> rp_state r \<in> {S_Idle, S_RateLimited, S_Disabled}))"

text \<open>What it says about the present, and that it is published.\<close>

definition expected_state :: "'v refresher \<Rightarrow> service_state set" where
  "expected_state s = (case rf_phase s of
      Disabled_Wait \<Rightarrow> {S_Disabled}
    | Fetching _ \<Rightarrow> {S_Fetching}
    | Waiting _ \<Rightarrow> (case rf_last_outcome s of Some out \<Rightarrow> {waiting_state out} | None \<Rightarrow> {S_Idle, S_RateLimited})
    | _ \<Rightarrow> UNIV)"

definition next_shown :: "'v refresher \<Rightarrow> int option" where
  "next_shown s = (case rf_phase s of Waiting due \<Rightarrow> Some (pd_epoch_ms due) | _ \<Rightarrow> None)"

definition shown :: "'v refresher \<Rightarrow> bool" where
  "shown s \<longleftrightarrow> rf_reported s = rf_report s \<and> rp_state (rf_report s) \<in> expected_state s
     \<and> rp_next_fetch_ms (rf_report s) = next_shown s"

text \<open>The switch: once the task has seen every command, it is off exactly while it is off.\<close>

definition caught_up :: "'v refresher \<Rightarrow> bool" where
  "caught_up s \<longleftrightarrow> rf_desired_seen s \<le> ct_wakes (rf_control s)
     \<and> (rf_desired_seen s = ct_wakes (rf_control s) \<longrightarrow> (rf_phase s = Disabled_Wait \<longleftrightarrow> \<not> ct_desired (rf_control s)))"

definition truthful :: "'v refresher \<Rightarrow> bool" where
  "truthful s \<longleftrightarrow> (awaiting s \<longrightarrow> books s \<and> shown s \<and> caught_up s)"

lemmas truth_defs = truthful_def books_def shown_def caught_up_def expected_state_def next_shown_def

lemma truthful_frame [simp]:
  "truthful (s\<lparr>rf_commands_open := b\<rparr>) = truthful s" "truthful (s\<lparr>rf_desired_open := b\<rparr>) = truthful s"
  "truthful (s\<lparr>rf_shutdown_seen := b\<rparr>) = truthful s" "truthful (s\<lparr>rf_shutdown_open := b\<rparr>) = truthful s"
  "truthful (s\<lparr>rf_shutdown := d\<rparr>) = truthful s" "truthful (s\<lparr>rf_now := n\<rparr>) = truthful s"
  "\<not> awaiting s' \<Longrightarrow> truthful s'"
  by (simp_all add: truth_defs awaiting_def Let_def cong: phase.case_cong)

lemma tick_truthful: "tick ck s = Some t \<Longrightarrow> truthful s \<Longrightarrow> truthful t \<and> awaiting t"
  by (auto simp: tick_Some) (simp add: awaiting_def)

lemma loop_top_truthful:
  assumes "books s" and "rf_desired_seen s \<le> ct_wakes (rf_control s)"
  shows "truthful (loop_top ck s)"
  using assms by (auto simp: truth_defs awaiting_def loop_defs split: option.splits outcome.splits)

lemma start_fetch_truthful:
  assumes "truthful s" and "awaiting s" and "rf_phase s = Waiting due"
  shows "truthful (start_fetch ck (s\<lparr>rf_pending := None\<rparr>))"
  using assms by (auto simp: truth_defs awaiting_def loop_defs)

lemma error_class_scope: "(case c of Rate_Limited scope _ \<Rightarrow> Some scope | _ \<Rightarrow> None) = limit_of (Some (Fetch_Failed n c))"
  by (cases c) auto

lemma take_result_books:
  assumes "take_result ok now_ms r s = (out, t)" and "books s"
  shows "books (t\<lparr>rf_control := c, rf_last_outcome := Some out, rf_pending := p, rf_trace := tr\<rparr>)"
  using assms
  by (auto simp: take_result_def books_def set_report_def Let_def error_class_scope sat_add_def split: sum.splits if_splits)

lemma fetch_done_truthful:
  assumes "truthful s" and "awaiting s"
  shows "truthful (fetch_done ck jitter ok n r s)"
proof -
  obtain out t where t: "take_result ok n r s = (out, t)" by fastforce
  note fr = take_result_frame [OF t]
  have s: "books s" "rf_desired_seen s \<le> ct_wakes (rf_control s)"
    using assms by (simp_all add: truthful_def caught_up_def)
  show ?thesis
  proof (cases "next_delay out (rf_refresh t) (rf_retry t) (ck_wall ck) jitter")
    case None
    with t show ?thesis by (simp add: fetch_done_def awaiting_def)
  next
    case (Some d)
    show ?thesis unfolding fetch_done_def t Let_def prod.case Some option.case
      using s fr take_result_books [OF t s(1)]
      by (intro loop_top_truthful) (simp_all add: persist_not_before_def Let_def)
  qed
qed

lemma set_enabled_wakes:
  "(ct_desired (snd (set_enabled on c)) = ct_desired c \<and> ct_wakes (snd (set_enabled on c)) = ct_wakes c)
   \<or> ct_wakes (snd (set_enabled on c)) = Suc (ct_wakes c)"
  by (auto simp: set_enabled_def split: prod.splits sum.splits)

lemma truthful_control:
  assumes "truthful s" and "(ct_desired c = ct_desired (rf_control s) \<and> ct_wakes c = ct_wakes (rf_control s))
    \<or> ct_wakes c = Suc (ct_wakes (rf_control s))"
  shows "truthful (s\<lparr>rf_control := c\<rparr>)"
proof -
  have "books (s\<lparr>rf_control := c\<rparr>) = books s" "shown (s\<lparr>rf_control := c\<rparr>) = shown s"
    "awaiting (s\<lparr>rf_control := c\<rparr>) = awaiting s"
    by (simp_all add: truth_defs awaiting_def Let_def cong: phase.case_cong)
  moreover have "caught_up s \<Longrightarrow> caught_up (s\<lparr>rf_control := c\<rparr>)" using assms(2) by (auto simp: caught_up_def)
  ultimately show ?thesis using assms(1) by (simp add: truthful_def)
qed

lemma step_truthful:
  assumes "refresh_step e s = Some s'" and "truthful s"
  shows "truthful s'"
proof (cases e)
  case (Operator on)
  with assms show ?thesis using truthful_control [OF assms(2) set_enabled_wakes] by (auto split: if_splits)
next
  case (Wake_Desired ck)
  with assms(1) obtain t where t: "tick ck s = Some t" "on_desired ck t = Some s'"
    by (auto elim: step_Wake_DesiredE simp del: refresh_step.simps)
  note tt = tick_truthful [OF t(1) assms(2)]
  let ?t = "t\<lparr>rf_desired_seen := ct_wakes (rf_control t)\<rparr>"
  have "truthful (loop_top ck ?t)"
    using tt by (intro loop_top_truthful) (auto simp: truthful_def books_def Let_def)
  moreover have "truthful ?t" if "rf_phase t = Disabled_Wait \<longleftrightarrow> \<not> ct_desired (rf_control t)"
  proof -
    have "books ?t = books t" "shown ?t = shown t"
      by (simp_all add: truth_defs Let_def cong: phase.case_cong)
    moreover have "caught_up ?t" using that by (simp add: caught_up_def)
    ultimately show ?thesis using tt by (simp add: truthful_def)
  qed
  ultimately show ?thesis using t(2) tt
    by (auto simp: on_desired_def Let_def awaiting_def split: if_splits phase.splits)
next
  case (Deadline ck)
  with assms(1) obtain t due where t: "tick ck s = Some t" "rf_phase t = Waiting due"
    "s' = start_fetch ck (t\<lparr>rf_pending := None\<rparr>)"
    by (auto elim: step_DeadlineE simp del: refresh_step.simps)
  with tick_truthful [OF t(1) assms(2)] show ?thesis by (auto intro: start_fetch_truthful)
next
  case (Fetch_Done ck jitter ok r)
  with assms(1) obtain t n where "tick ck s = Some t" "s' = fetch_done ck jitter ok n r t"
    by (auto elim: step_Fetch_DoneE simp del: refresh_step.simps)
  with tick_truthful [OF _ assms(2)] fetch_done_truthful show ?thesis by blast
next
  case (Wake_Shutdown ck)
  with assms(1) obtain t where "tick ck s = Some t"
    "s' = t\<lparr>rf_phase := Stopped\<rparr> \<or> s' = t\<lparr>rf_shutdown_seen := True\<rparr>"
    by (auto elim: step_Wake_ShutdownE simp del: refresh_step.simps)
  with tick_truthful [OF _ assms(2)] show ?thesis by (auto simp: awaiting_def)
qed (use assms in \<open>auto split: if_splits\<close>)

lemma start_truthful:
  assumes "rf_snapshots s0 = None" and "rf_desired_seen s0 \<le> ct_wakes (rf_control s0)"
  shows "truthful (refresher_start ck s0)"
  unfolding refresher_start_def Let_def
  by (rule loop_top_truthful)
    (use assms in \<open>auto simp: books_def set_report_def default_reported_def split: option.splits\<close>)

text \<open>C20: The status tells the truth. While the loop runs, the report that subscribers see says what the
  loop is doing (disabled, fetching, or waiting with the state of the last outcome and the time of
  the next fetch), counts the failures in a row, holds the last error exactly while the last fetch
  failed, and dates the snapshot that is published; and once the loop has seen every command, it
  says disabled exactly when the operator's switch is off.\<close>

theorem status_tells_truth:
  assumes "refresh_run es (refresher_start ck0 s0) = Some s" and "awaiting s"
    and "rf_snapshots s0 = None" and "rf_desired_seen s0 \<le> ct_wakes (rf_control s0)"
  shows "let r = rf_reported s in
      rp_state r \<in> expected_state s \<and> rp_next_fetch_ms r = next_shown s
    \<and> rp_consecutive_failures r = failures_of (rf_last_outcome s)
    \<and> (rp_last_error r = None \<longleftrightarrow> rp_consecutive_failures r = 0)
    \<and> rp_rate_limit r = limit_of (rf_last_outcome s)
    \<and> rp_snapshot_valid_time_ms r = map_option sn_valid_time_ms (rf_snapshots s)
    \<and> (rf_desired_seen s = ct_wakes (rf_control s) \<longrightarrow> (rp_state r = S_Disabled \<longleftrightarrow> \<not> ct_desired (rf_control s)))"
proof -
  have "truthful s"
    using refresh_run_invariant [OF _ assms(1), of truthful] step_truthful start_truthful [OF assms(3,4)] by blast
  then have t: "books s" "shown s" "caught_up s" using assms(2) by (simp_all add: truthful_def)
  have "rp_state (rf_report s) = S_Disabled \<longleftrightarrow> rf_phase s = Disabled_Wait"
  proof -
    have "waiting_state out \<noteq> S_Disabled" for out by (induction out rule: waiting_state.induct) auto
    with t(2) assms(2) show ?thesis
      by (auto simp: shown_def expected_state_def awaiting_def split: phase.splits option.splits)
  qed
  with t show ?thesis by (auto simp: books_def shown_def caught_up_def Let_def)
qed

theorem status_tells_truth_witness:
  "\<exists>s. refresh_run [Fetch_Done (at_ms 1000) (F_fin 1) True (Inl refused)] (refresher_start (at_ms 0) sample_refresher)
       = Some s
     \<and> rp_state (rf_reported s) = S_Rejected \<and> rp_consecutive_failures (rf_reported s) = 1"
proof -
  obtain s where s: "refresh_run [Fetch_Done (at_ms 1000) (F_fin 1) True (Inl refused)]
      (refresher_start (at_ms 0) sample_refresher) = Some s" "awaiting s"
    "rf_last_outcome s = Some (Fetch_Failed 1 Rejected)" "\<exists>due. rf_phase s = Waiting due"
    by (simp add: sample_eval loop_defs done_defs set_enabled_def store_update_def sat_add_def)
  have "rf_snapshots sample_refresher = None" "rf_desired_seen sample_refresher \<le> ct_wakes (rf_control sample_refresher)"
    by (simp_all add: sample_refresher_def)
  from status_tells_truth [OF s(1,2) this] s show ?thesis by (auto simp: Let_def expected_state_def)
qed

subsection \<open>The last good snapshot\<close>

fun last_good :: "'v snapshot option \<Rightarrow> 'v refresh_event list \<Rightarrow> 'v snapshot option" where
  "last_good sn [] = sn"
| "last_good sn (Fetch_Done _ _ _ (Inr new) # es) = last_good (Some new) es"
| "last_good sn (_ # es) = last_good sn es"

lemma loop_top_snapshots [simp]: "rf_snapshots (loop_top ck s) = rf_snapshots s" "rf_cache (loop_top ck s) = rf_cache s"
  by (simp_all add: loop_defs split: option.splits)

lemma fetch_done_snapshots:
  "rf_snapshots (fetch_done ck jitter ok n r s) = (case r of Inr sn \<Rightarrow> Some sn | Inl _ \<Rightarrow> rf_snapshots s)"
  by (simp add: done_defs set_report_def split: sum.splits option.splits)

lemma step_snapshots:
  assumes "refresh_step e s = Some s'"
  shows "rf_snapshots s' = last_good (rf_snapshots s) [e]"
proof (cases e)
  case (Wake_Desired ck)
  with assms obtain t where "tick ck s = Some t" "on_desired ck t = Some s'" by (auto elim: step_Wake_DesiredE simp del: refresh_step.simps)
  with Wake_Desired show ?thesis by (auto simp: tick_Some on_desired_def Let_def split: if_splits phase.splits)
next
  case (Deadline ck)
  with assms obtain t where "tick ck s = Some t" "s' = start_fetch ck (t\<lparr>rf_pending := None\<rparr>)"
    by (auto elim: step_DeadlineE simp del: refresh_step.simps)
  with Deadline show ?thesis by (simp add: tick_Some loop_defs)
next
  case (Fetch_Done ck jitter ok r)
  with assms obtain t n where "tick ck s = Some t" "s' = fetch_done ck jitter ok n r t"
    by (auto elim: step_Fetch_DoneE simp del: refresh_step.simps)
  with Fetch_Done show ?thesis by (cases r) (simp_all add: tick_Some fetch_done_snapshots)
next
  case (Wake_Shutdown ck)
  with assms obtain t where "tick ck s = Some t" "s' = t\<lparr>rf_phase := Stopped\<rparr> \<or> s' = t\<lparr>rf_shutdown_seen := True\<rparr>"
    by (auto elim: step_Wake_ShutdownE simp del: refresh_step.simps)
  with Wake_Shutdown show ?thesis by (auto simp: tick_Some)
qed (use assms in \<open>auto split: if_splits\<close>)

lemma last_good_Cons: "last_good (last_good sn [e]) es = last_good sn (e # es)"
  by (induction sn "[e]" rule: last_good.induct) auto

lemma refresher_start_snapshots: "rf_snapshots (refresher_start ck s) = (case cached s of Some sn \<Rightarrow> Some sn | None \<Rightarrow> rf_snapshots s)"
  by (simp add: refresher_start_def Let_def set_report_def cached_def snapshot_matches_def split: option.splits cache_file.splits)

text \<open>The last good snapshot is never lost: at any point of any run the snapshot offered to the
  publisher is the one of the last fetch that succeeded, and before any has, the cached one if it
  covers this grid and these levels; no failure, rate limit, command or shutdown withdraws it.\<close>

theorem last_good_snapshot_kept:
  assumes "refresh_run es (refresher_start ck0 s0) = Some s" and "rf_snapshots s0 = None"
  shows "rf_snapshots s = last_good (cached s0) es"
proof -
  have "refresh_run es t = Some s \<Longrightarrow> rf_snapshots s = last_good (rf_snapshots t) es" for t
  proof (induction es arbitrary: t)
    case (Cons e es)
    then obtain u where u: "refresh_step e t = Some u" "refresh_run es u = Some s" by (auto simp: bind_eq_Some_conv)
    show ?case using Cons.IH [OF u(2)] unfolding step_snapshots [OF u(1)] last_good_Cons .
  qed simp
  from this [OF assms(1)] assms(2) show ?thesis by (simp add: refresher_start_snapshots split: option.splits)
qed

theorem last_good_snapshot_kept_witness:
  "\<exists>s sn. refresh_run [Fetch_Done (at_ms 1000) (F_fin 1) True (Inr sn), Deadline (at_ms 3601000),
       Fetch_Done (at_ms 3602000) (F_fin 1) True (Inl refused)] (refresher_start (at_ms 0) sample_refresher) = Some s
     \<and> rf_snapshots s = Some sn"
proof -
  obtain sn :: "nat snapshot" where "sn_valid_time_ms sn = 0" using two_cells_assembled
    by (metis snapshot.select_convs(6))
  obtain s where s: "refresh_run [Fetch_Done (at_ms 1000) (F_fin 1) True (Inr sn), Deadline (at_ms 3601000),
       Fetch_Done (at_ms 3602000) (F_fin 1) True (Inl refused)] (refresher_start (at_ms 0) sample_refresher) = Some s"
    by (simp add: sample_eval loop_defs done_defs set_enabled_def store_update_def)
  have "rf_snapshots sample_refresher = None" by (simp add: sample_refresher_def)
  from last_good_snapshot_kept [OF s this] s show ?thesis by auto
qed

subsection \<open>The delays\<close>

lemma round64_range:
  assumes "lo \<le> q" and "q \<le> hi" and "round64 lo = F_fin lo" and "round64 hi = F_fin hi"
  shows "\<exists>r. round64 q = F_fin r \<and> lo \<le> r \<and> r \<le> hi"
proof -
  have "f64_le (F_fin lo) (round64 q)" "f64_le (round64 q) (F_fin hi)"
    using round64_mono [OF assms(1)] round64_mono [OF assms(2)] assms(3,4) by simp_all
  then show ?thesis by (cases "round64 q") (auto split: if_splits)
qed

lemma round64_halves: "round64 (1 / 2) = F_fin (1 / 2)" "round64 (3 / 2) = F_fin (3 / 2)"
  using round64_dyadic [of 1 1] round64_dyadic [of 3 1] by simp_all

lemma clamp_unit: "jitter \<noteq> F_nan \<Longrightarrow> \<exists>u. f64_clamp jitter (F_fin 0) (F_fin 1) = F_fin u \<and> 0 \<le> u \<and> u \<le> 1"
  by (cases jitter) (auto simp: f64_clamp_def)

lemma shortening_factor:
  assumes "0 \<le> u" and "u \<le> 1"
  shows "\<exists>k. f64_add (F_fin (1 / 2)) (f64_mul (F_fin (1 / 2)) (F_fin u)) = F_fin k \<and> 1 / 2 \<le> k \<and> k \<le> 1"
proof -
  obtain v where v: "round64 (1 / 2 * u) = F_fin v" "0 \<le> v" "v \<le> 1 / 2"
    using round64_range [of 0 "1 / 2 * u" "1 / 2"] assms round64_halves by auto
  then obtain k where "round64 (1 / 2 + v) = F_fin k" "1 / 2 \<le> k" "k \<le> 1"
    using round64_range [of "1 / 2" "1 / 2 + v" 1] round64_halves by auto
  with v(1) show ?thesis by simp
qed

lemma lengthening_factor:
  assumes "0 \<le> u" and "u \<le> 1"
  shows "\<exists>k. f64_add (F_fin 1) (f64_mul (round64 (1 / 10)) (f64_sub (F_fin 1) (F_fin u))) = F_fin k \<and> 1 \<le> k \<and> k \<le> 2"
proof -
  obtain c where c: "round64 (1 / 10) = F_fin c" "0 \<le> c" "c \<le> 1 / 2"
    using round64_range [of 0 "1 / 10" "1 / 2"] round64_halves by auto
  obtain w where w: "round64 (1 - u) = F_fin w" "0 \<le> w" "w \<le> 1"
    using round64_range [of 0 "1 - u" 1] assms by auto
  have "0 \<le> c * w" "c * w \<le> 1 / 2 * 1" using c w by (simp, intro mult_mono) auto
  then obtain v where v: "round64 (c * w) = F_fin v" "0 \<le> v" "v \<le> 1 / 2"
    using round64_range [of 0 "c * w" "1 / 2"] round64_halves by auto
  then obtain k where "round64 (1 + v) = F_fin k" "1 \<le> k" "k \<le> 3 / 2"
    using round64_range [of 1 "1 + v" "3 / 2"] round64_halves by auto
  with c(1) w(1) v(1) show ?thesis by (auto simp: f64_sub_def)
qed

text \<open>The next boundary is in the future and at most a period away.\<close>

lemma until_next_ms:
  assumes "0 < p"
  shows "int (as_millis (until_next now_ms p)) = p - now_ms mod p" and "until_next now_ms p \<le> from_millis (nat p)"
proof -
  have "0 \<le> p - now_ms mod p" "p - now_ms mod p \<le> p" using assms by (simp_all add: less_imp_le)
  then show "int (as_millis (until_next now_ms p)) = p - now_ms mod p" "until_next now_ms p \<le> from_millis (nat p)"
    by (simp_all add: until_next_def from_millis_mono nat_mono)
qed

lemma past_boundary:
  fixes now_ms :: int
  assumes "0 < p" and "until_next now_ms p \<le> d"
  shows "now_ms div p < (now_ms + int (as_millis d)) div p"
proof -
  have "p - now_ms mod p \<le> int (as_millis d)"
    using until_next_ms(1) [OF assms(1), of now_ms] assms(2) by (simp add: as_millis_def div_le_mono flip: of_nat_le_iff)
  moreover have "now_ms = now_ms div p * p + now_ms mod p" by simp
  ultimately have "(now_ms div p + 1) * p \<le> now_ms + int (as_millis d)"
    unfolding distrib_right mult_1 by linarith
  then have "now_ms div p + 1 \<le> (now_ms + int (as_millis d)) div p"
    using assms(1) by (simp add: zdiv_mono1 [of "(now_ms div p + 1) * p" "now_ms + int (as_millis d)" p, simplified])
  then show ?thesis by simp
qed

definition bounded_limit :: "outcome \<Rightarrow> bool" where
  "bounded_limit out = (case out of Fetch_Failed _ (Rate_Limited _ (Some w)) \<Rightarrow> w \<le> MAX_RETRY_AFTER | _ \<Rightarrow> True)"

lemma window_small:
  assumes "refresh < DAYS48" and "bo_max retry < DAYS48"
  shows "rate_limit_window scope refresh retry now_ms < DAYS48"
proof -
  have "until_next now_ms HOUR_MS \<le> from_millis (nat HOUR_MS)" by (rule until_next_ms) (simp add: HOUR_MS_def)
  then have "until_next now_ms HOUR_MS < DAYS48" by (simp add: HOUR_MS_def from_millis_def)
  with assms show ?thesis
    by (cases scope) (auto simp: rate_limit_window_def MINUTE_WINDOW_def DAILY_RECHECK_def from_secs_def)
qed

text \<open>When the loop asks again. After a success or a rejection it waits one refresh interval. After a
  transient failure it waits at most that, at most the backoff delay, and at least half of it in
  whole seconds. After a rate limit it never asks sooner than the server's \<open>Retry-After\<close> nor before
  the window has passed: a minute, the next full hour and a refresh interval, for a daily limit
  the next midnight or six hours and a refresh interval, and otherwise a refresh interval and the
  longest retry delay. The jitter never breaks these bounds, and no delay panics.\<close>

theorem next_delay_bounds:
  assumes "jitter \<noteq> F_nan" and "refresh < DAYS48" and "bo_max retry < DAYS48" and "bounded_limit out"
  shows "\<exists>d. next_delay out refresh retry now_ms jitter = Some d \<and>
    (case out of
       Fetched \<Rightarrow> d = refresh
     | Fetch_Failed n Rejected \<Rightarrow> d = refresh
     | Fetch_Failed n Transient \<Rightarrow> d \<le> refresh \<and> d \<le> delay retry (n - 1)
         \<and> (\<forall>k. from_secs (2 * k) \<le> min (delay retry (n - 1)) refresh \<longrightarrow> from_secs k \<le> d)
     | Fetch_Failed n (Rate_Limited scope retry_after) \<Rightarrow>
         (case retry_after of None \<Rightarrow> True | Some w \<Rightarrow> w \<le> d)
         \<and> (case scope of
              Minutely \<Rightarrow> from_secs 60 \<le> d
            | Hourly \<Rightarrow> now_ms div HOUR_MS < (now_ms + int (as_millis d)) div HOUR_MS \<and> refresh \<le> d
            | Daily \<Rightarrow> (now_ms div DAY_MS < (now_ms + int (as_millis d)) div DAY_MS \<or> from_secs 21600 \<le> d) \<and> refresh \<le> d
            | Unknown_Scope \<Rightarrow> refresh \<le> d \<and> bo_max retry \<le> d))"
proof -
  obtain u where u: "f64_clamp jitter (F_fin 0) (F_fin 1) = F_fin u" "0 \<le> u" "u \<le> 1"
    using clamp_unit [OF assms(1)] by blast
  show ?thesis
  proof (cases out)
    case Fetched
    then show ?thesis by (simp add: next_delay_def)
  next
    case (Fetch_Failed n cls)
    show ?thesis
    proof (cases cls)
      case Transient
      obtain k where k: "f64_add (F_fin (1 / 2)) (f64_mul (F_fin (1 / 2)) (F_fin u)) = F_fin k" "1 / 2 \<le> k" "k \<le> 1"
        using shortening_factor [OF u(2,3)] by blast
      let ?nominal = "min (delay retry (n - 1)) refresh"
      have small: "?nominal < DAYS48" using assms(2) by simp
      obtain d where d: "mul_f64 ?nominal (F_fin k) = Some d" using mul_f64_defined(1) [OF small, of k] k by auto
      have "d \<le> ?nominal" using mul_f64_le [OF small _ _ d] k by simp
      moreover have "from_secs j \<le> d" if "from_secs (2 * j) \<le> ?nominal" for j
        using mul_f64_at_least_secs [OF small _ _ _ d, of j] k that by (simp add: from_secs_def)
      moreover have "next_delay out refresh retry now_ms jitter = Some d"
        using d by (simp only: next_delay_def Fetch_Failed Transient u(1) k(1) Let_def outcome.case error_class.case)
      ultimately show ?thesis by (simp add: Fetch_Failed Transient)
    next
      case Rejected
      with Fetch_Failed show ?thesis by (simp add: next_delay_def)
    next
      case (Rate_Limited scope retry_after)
      obtain k where k: "f64_add (F_fin 1) (f64_mul (round64 (1 / 10)) (f64_sub (F_fin 1) (F_fin u))) = F_fin k"
        "1 \<le> k" "k \<le> 2"
        using lengthening_factor [OF u(2,3)] by blast
      let ?window = "rate_limit_window scope refresh retry now_ms"
      let ?nominal = "max ?window (case retry_after of None \<Rightarrow> 0 | Some d \<Rightarrow> d)"
      have small: "?nominal < DAYS48"
        using window_small [OF assms(2,3)] assms(4)
        by (auto simp: bounded_limit_def Fetch_Failed Rate_Limited MAX_RETRY_AFTER_def from_secs_def split: option.splits)
      obtain d where d: "mul_f64 ?nominal (F_fin k) = Some d" using mul_f64_defined(1) [OF small, of k] k by auto
      have ge: "?nominal \<le> d" using mul_f64_ge [OF small _ _ d] k by simp
      have "next_delay out refresh retry now_ms jitter = Some d"
        using d by (simp only: next_delay_def Fetch_Failed Rate_Limited u(1) k(1) Let_def outcome.case error_class.case)
      moreover have "now_ms div HOUR_MS < (now_ms + int (as_millis d)) div HOUR_MS" if "scope = Hourly"
        using ge that by (intro past_boundary) (auto simp: HOUR_MS_def rate_limit_window_def)
      moreover have "now_ms div DAY_MS < (now_ms + int (as_millis d)) div DAY_MS \<or> from_secs 21600 \<le> d" if "scope = Daily"
      proof (cases "until_next now_ms DAY_MS \<le> d")
        case True
        then show ?thesis by (intro disjI1 past_boundary) (simp add: DAY_MS_def HOUR_MS_def)
      next
        case False
        with ge that show ?thesis by (auto simp: rate_limit_window_def DAILY_RECHECK_def)
      qed
      ultimately show ?thesis using ge
        by (cases scope) (auto simp: Fetch_Failed Rate_Limited rate_limit_window_def MINUTE_WINDOW_def split: option.splits)
    qed
  qed
qed

theorem next_delay_bounds_witness:
  "\<exists>d. next_delay (Fetch_Failed 1 Transient) (from_secs 3600) default_retry 0 (F_fin 0) = Some d
     \<and> from_secs 30 \<le> d \<and> d \<le> from_secs 60"
proof -
  have "delay default_retry 0 = from_secs 60"
    by (simp add: delay_eq default_retry_def sat_mul_def from_millis_def from_secs_def as_millis_def)
  moreover have "bo_max default_retry < DAYS48" "from_secs 3600 < DAYS48" "bounded_limit (Fetch_Failed 1 Transient)"
    by (simp_all add: default_retry_def from_secs_def bounded_limit_def)
  ultimately show ?thesis
    using next_delay_bounds [of "F_fin 0" "from_secs 3600" default_retry "Fetch_Failed 1 Transient" 0]
    by (auto simp: from_secs_def)
qed

subsection \<open>A rate limit outlives a restart\<close>

definition limits_until :: "int \<Rightarrow> 'v refresher \<Rightarrow> bool" where
  "limits_until epoch_ms s \<longleftrightarrow> durable (ct_store (rf_control s))
     \<and> ps_not_before_ms (ss_state (ct_store (rf_control s))) = Some epoch_ms"

fun is_fetch_done :: "'v refresh_event \<Rightarrow> bool" where
  "is_fetch_done (Fetch_Done _ _ _ _) = True"
| "is_fetch_done _ = False"

lemma set_enabled_store: "ct_store (snd (set_enabled on c)) = snd (store_update (\<lambda>s. s\<lparr>ps_enabled := on\<rparr>) (ct_store c))"
  by (simp add: set_enabled_def split: prod.splits sum.splits)

lemma store_update_keeps:
  assumes "f (g (ss_state s)) = f (ss_state s)"
  shows "f (ss_state (snd (store_update g s))) = f (ss_state s)"
  using assms by (auto simp: store_update_def store_save_def Let_def split: prod.splits sum.splits if_splits)

lemma store_update_writes:
  "fst (next_answer (ss_disk s)) \<Longrightarrow> ss_state (snd (store_update g s)) = g (ss_state s)"
  by (auto simp: store_update_def store_save_def Let_def split: prod.splits)

lemma loop_top_control [simp]: "rf_control (loop_top ck s) = rf_control s"
  by (simp add: loop_defs split: option.splits)

lemma step_limits:
  assumes "refresh_step e s = Some s'" and "\<not> is_fetch_done e" and "limits_until t s"
  shows "limits_until t s'"
proof (cases e)
  case (Operator on)
  with assms show ?thesis
    by (auto simp: limits_until_def set_enabled_store update_durable store_update_keeps split: if_splits)
next
  case (Wake_Desired ck)
  with assms(1) obtain u where "tick ck s = Some u" "on_desired ck u = Some s'"
    by (auto elim: step_Wake_DesiredE simp del: refresh_step.simps)
  with assms(3) show ?thesis
    by (auto simp: tick_Some limits_until_def on_desired_def Let_def split: if_splits phase.splits)
next
  case (Deadline ck)
  with assms(1) obtain u where "tick ck s = Some u" "s' = start_fetch ck (u\<lparr>rf_pending := None\<rparr>)"
    by (auto elim: step_DeadlineE simp del: refresh_step.simps)
  with assms(3) show ?thesis by (simp add: tick_Some limits_until_def loop_defs)
next
  case (Wake_Shutdown ck)
  with assms(1) obtain u where "tick ck s = Some u" "s' = u\<lparr>rf_phase := Stopped\<rparr> \<or> s' = u\<lparr>rf_shutdown_seen := True\<rparr>"
    by (auto elim: step_Wake_ShutdownE simp del: refresh_step.simps)
  with assms(3) show ?thesis by (auto simp: tick_Some limits_until_def)
qed (use assms in \<open>auto simp: limits_until_def split: if_splits\<close>)

lemma fetch_done_limits:
  assumes "error_class_of e = Rate_Limited scope w" and "rf_phase (fetch_done ck jitter ok n (Inl e) s) \<noteq> Crashed"
    and "durable (ct_store (rf_control s))" and "fst (next_answer (ss_disk (ct_store (rf_control s))))"
  shows "\<exists>d failures. next_delay (Fetch_Failed failures (Rate_Limited scope w)) (rf_refresh s) (rf_retry s) (ck_wall ck) jitter = Some d
    \<and> limits_until (pd_epoch_ms (pending_after d ck)) (fetch_done ck jitter ok n (Inl e) s)"
proof -
  obtain t where t: "take_result ok n (Inl e) s = (Fetch_Failed (sat_add U32_MAX (rf_failures s) 1) (Rate_Limited scope w), t)"
    using assms(1) by (simp add: take_result_def Let_def)
  note fr = take_result_frame [OF t]
  obtain d where d: "next_delay (Fetch_Failed (sat_add U32_MAX (rf_failures s) 1) (Rate_Limited scope w))
      (rf_refresh s) (rf_retry s) (ck_wall ck) jitter = Some d"
    using assms(2) fr by (auto simp: fetch_done_def t split: option.splits)
  have "limits_until (pd_epoch_ms (pending_after d ck)) (fetch_done ck jitter ok n (Inl e) s)"
    using d fr assms(3) store_update_writes [OF assms(4)]
    by (simp add: fetch_done_def t limits_until_def persist_not_before_def Let_def update_durable)
  with d show ?thesis by blast
qed

text \<open>C24: A rate limit outlives a restart. When a fetch ends in a rate limit and the state file can be
  written, then whatever the operator does until the process ends, a new process on the same file
  starts no fetch before the not-before time of that rate limit, counted on its own clocks.\<close>

theorem rate_limit_outlives_restart:
  assumes limit: "refresh_step (Fetch_Done ck jitter ok (Inl e)) s = Some s'" "rf_phase s' \<noteq> Crashed"
      "error_class_of e = Rate_Limited scope w"
    and disk: "durable (ct_store (rf_control s))" "fst (next_answer (ss_disk (ct_store (rf_control s))))"
    and before: "refresh_run es s' = Some s''" "list_all (\<lambda>x. \<not> is_fetch_done x) es"
    and restart: "refresh_run es' (refresher_start ck1
        (s1\<lparr>rf_control := control_new (fst (store_open True (ss_file (ct_store (rf_control s''))) answers))\<rparr>)) = Some t"
      "rf_trace s1 = []"
  shows "\<exists>d failures. next_delay (Fetch_Failed failures (Rate_Limited scope w)) (rf_refresh s) (rf_retry s) (ck_wall ck) jitter = Some d
    \<and> (\<forall>ck2. Started ck2 \<in> set (rf_trace t) \<longrightarrow>
         pd_at (pending_at_epoch_ms (pd_epoch_ms (pending_after d ck)) ck1) \<le> ck_mono ck2)"
proof -
  obtain u n where u: "tick ck s = Some u" "s' = fetch_done ck jitter ok n (Inl e) u"
    using limit(1) by (auto elim: step_Fetch_DoneE simp del: refresh_step.simps)
  then have same: "rf_control u = rf_control s" "rf_refresh u = rf_refresh s" "rf_retry u = rf_retry s"
    by (simp_all add: tick_Some)
  obtain d k where d: "next_delay (Fetch_Failed k (Rate_Limited scope w)) (rf_refresh s) (rf_retry s) (ck_wall ck) jitter = Some d"
    and lim: "limits_until (pd_epoch_ms (pending_after d ck)) s'"
    using fetch_done_limits [OF limit(3), of ck jitter ok n u] limit(2) disk u(2) same by auto
  have "limits_until (pd_epoch_ms (pending_after d ck)) s''"
    using before lim
  proof (induction es arbitrary: s')
    case (Cons x es)
    then obtain v where "refresh_step x s' = Some v" "refresh_run es v = Some s''" by (auto simp: bind_eq_Some_conv)
    with Cons.IH [of v] step_limits [of x s' v] Cons.prems(2,3) show ?case by simp
  qed simp
  then have "ps_not_before_ms (ss_state (fst (store_open True (ss_file (ct_store (rf_control s''))) answers)))
      = Some (pd_epoch_ms (pending_after d ck))"
    by (simp add: limits_until_def durable_reopens)
  then have "keeps_schedule (pd_at (pending_at_epoch_ms (pd_epoch_ms (pending_after d ck)) ck1)) (rf_trace t)"
    using fetches_after_floor [OF restart(1)] restart(2) by (simp add: first_fetch_floor_def control_new_def)
  with d keeps_schedule_started show ?thesis by blast
qed

text \<open>Without jitter the wait after a rate limit is its nominal value.\<close>

lemma next_delay_no_jitter:
  assumes "max (rate_limit_window scope refresh retry now_ms) (case w of None \<Rightarrow> 0 | Some d \<Rightarrow> d) = d" and "d < DAYS48"
  shows "next_delay (Fetch_Failed n (Rate_Limited scope w)) refresh retry now_ms (F_fin 1) = Some d"
proof -
  obtain c where c: "round64 (1 / 10) = F_fin c" using round64_not_nan by (cases "round64 (1 / 10)")
      (use round64_range [of 0 "1 / 10" 1] in auto)
  have "f64_add (F_fin 1) (f64_mul (F_fin c) (f64_sub (F_fin 1) (F_fin 1))) = F_fin 1"
    by (simp add: f64_sub_def)
  with assms mul_f64_one show ?thesis by (simp add: next_delay_def f64_clamp_def c)
qed

definition limited :: provider_error where
  "limited = Status_Error ''http'' 429 None None"

definition stored_control :: "state_file \<Rightarrow> control" where
  "stored_control f = control_new (fst (store_open True f []))"

lemma limited_class [simp]: "error_class_of limited = Rate_Limited Unknown_Scope None"
  by (simp add: limited_def error_class_of_def)

lemma limited_delay [simp]:
  "next_delay (Fetch_Failed n (Rate_Limited Unknown_Scope None)) (from_secs 3600) default_retry t (F_fin 1) = Some (from_secs 3600)"
  by (rule next_delay_no_jitter) (simp_all add: rate_limit_window_def default_retry_def from_secs_def)

lemma limited_run:
  assumes "s = refresher_start (at_ms 0) (sample_refresher\<lparr>rf_control := stored_control No_File\<rparr>)"
  shows "\<exists>s'. refresh_step (Fetch_Done (at_ms 1000) (F_fin 1) True (Inl limited)) s = Some s'
    \<and> rf_phase s' = Waiting \<lparr>pd_at = from_millis 3601000, pd_epoch_ms = 3601000\<rparr>
    \<and> rp_rate_limit (rf_reported s') = Some Unknown_Scope \<and> rf_commands_open s' \<and> rf_desired_seen s' = 0
    \<and> rf_control s' = (stored_control (Stored \<lparr>ps_enabled = True, ps_not_before_ms = Some 3601000\<rparr>))
    \<and> rf_desired_open s' \<and> rf_now s' = from_millis 1000 \<and> \<not> rf_shutdown s' \<and> rf_report s' = rf_reported s'"
proof -
  note eval = sample_refresher_def refresher_start_def cached_def control_new_def store_open_def store_load_def
    default_persisted_def default_reported_def tick_def awaiting_def at_ms_def pending_after_def i64_sat_def i64_wrap_def
    stored_control_def
  have "sint (word_of_int 3600000 :: 64 word) = 3600000" by simp
  then show ?thesis unfolding assms
    by (simp add: eval loop_defs done_defs store_update_def store_save_def from_millis_def from_secs_def as_millis_def
        limited_delay [unfolded from_secs_def, simplified])
qed

lemma restarted_run:
  "\<exists>t. refresh_run [Deadline (at_ms 3601000)] (refresher_start (at_ms 5000)
      (sample_refresher\<lparr>rf_control := stored_control (Stored \<lparr>ps_enabled = True, ps_not_before_ms = Some 3601000\<rparr>)\<rparr>)) = Some t
    \<and> rf_trace t = [Started (at_ms 3601000)]"
  by (simp add: sample_refresher_def refresher_start_def cached_def control_new_def store_open_def store_load_def
      default_reported_def tick_def awaiting_def at_ms_def pending_at_epoch_ms_def i64_sat_def stored_control_def
      loop_defs from_millis_def)

theorem rate_limit_outlives_restart_witness:
  "\<exists>(s :: nat refresher) s' t. refresh_step (Fetch_Done (at_ms 1000) (F_fin 1) True (Inl limited)) s = Some s'
    \<and> refresh_run [Deadline (at_ms 3601000)] (refresher_start (at_ms 5000)
        (sample_refresher\<lparr>rf_control := control_new (fst (store_open True (ss_file (ct_store (rf_control s'))) []))\<rparr>)) = Some t
    \<and> Started (at_ms 3601000) \<in> set (rf_trace t)
    \<and> pd_at (pending_at_epoch_ms 3601000 (at_ms 5000)) \<le> ck_mono (at_ms 3601000)"
proof -
  define s where "s = refresher_start (at_ms 0) (sample_refresher\<lparr>rf_control := stored_control No_File\<rparr>)"
  obtain s' where s': "refresh_step (Fetch_Done (at_ms 1000) (F_fin 1) True (Inl limited)) s = Some s'"
    "rf_phase s' \<noteq> Crashed"
    "rf_control s' = stored_control (Stored \<lparr>ps_enabled = True, ps_not_before_ms = Some 3601000\<rparr>)"
    using limited_run [OF s_def] by auto
  have reopened: "control_new (fst (store_open True (ss_file (ct_store (rf_control s'))) []))
      = stored_control (Stored \<lparr>ps_enabled = True, ps_not_before_ms = Some 3601000\<rparr>)"
    by (simp add: s'(3) stored_control_def control_new_def store_open_def store_load_def)
  from restarted_run obtain t where t: "refresh_run [Deadline (at_ms 3601000)] (refresher_start (at_ms 5000)
      (sample_refresher\<lparr>rf_control := control_new (fst (store_open True (ss_file (ct_store (rf_control s'))) []))\<rparr>)) = Some t"
    "rf_trace t = [Started (at_ms 3601000)]"
    unfolding reopened by blast
  have store: "ct_store (rf_control s) = fst (store_open True No_File [])" "rf_refresh s = from_secs 3600" "rf_retry s = default_retry"
    by (simp_all add: s_def sample_refresher_def refresher_start_def cached_def stored_control_def control_new_def
        store_open_def store_load_def default_persisted_def loop_defs)
  have d0: "durable (ct_store (rf_control s))" "fst (next_answer (ss_disk (ct_store (rf_control s))))" "rf_trace sample_refresher = []"
    unfolding store by (rule open_durable) (simp_all add: store_open_def store_load_def sample_refresher_def)
  have "refresh_run [] s' = Some s'" "list_all (\<lambda>x. \<not> is_fetch_done x) ([] :: nat refresh_event list)" by simp_all
  from rate_limit_outlives_restart [OF s'(1,2) limited_class d0(1,2) this t(1) d0(3)] store
  obtain d where "pd_at (pending_at_epoch_ms (pd_epoch_ms (pending_after d (at_ms 1000))) (at_ms 5000)) \<le> ck_mono (at_ms 3601000)"
    and "d = from_secs 3600"
    using t(2) by auto
  moreover have "pd_epoch_ms (pending_after (from_secs 3600) (at_ms 1000)) = 3601000"
    by (simp add: pending_after_def at_ms_def i64_sat_def i64_wrap_def as_millis_def from_secs_def)
  ultimately have "pd_at (pending_at_epoch_ms 3601000 (at_ms 5000)) \<le> ck_mono (at_ms 3601000)" by simp
  moreover have "Started (at_ms 3601000) \<in> set (rf_trace t)" by (simp only: t(2) list.set insert_iff simp_thms)
  ultimately show ?thesis using s'(1) t(1) by blast
qed

text \<open>The status field \<open>rate_limit\<close> is not what its documentation says, set while the state is
  rate_limited: a process that finds a not-before time at its start reports rate_limited without a
  scope, and one that is switched off during a rate limit reports disabled with the scope still set.\<close>

theorem rate_limit_field_diverges:
  "(let r = rf_reported (refresher_start (at_ms 0)
        (sample_refresher\<lparr>rf_control := stored_control (Stored \<lparr>ps_enabled = True, ps_not_before_ms = Some 3601000\<rparr>)\<rparr>))
    in rp_state r = S_RateLimited \<and> rp_rate_limit r = None)
   \<and> (\<exists>s. refresh_run [Fetch_Done (at_ms 1000) (F_fin 1) True (Inl limited), Operator False, Wake_Desired (at_ms 2000)]
            (refresher_start (at_ms 0) (sample_refresher\<lparr>rf_control := stored_control No_File\<rparr>)) = Some s
          \<and> rp_state (rf_reported s) = S_Disabled \<and> rp_rate_limit (rf_reported s) = Some Unknown_Scope)"
proof
  show "let r = rf_reported (refresher_start (at_ms 0)
        (sample_refresher\<lparr>rf_control := stored_control (Stored \<lparr>ps_enabled = True, ps_not_before_ms = Some 3601000\<rparr>)\<rparr>))
    in rp_state r = S_RateLimited \<and> rp_rate_limit r = None"
    by (simp add: sample_refresher_def refresher_start_def cached_def control_new_def store_open_def store_load_def
      default_reported_def at_ms_def pending_at_epoch_ms_def stored_control_def loop_defs)
next
  define s where "s = refresher_start (at_ms 0) (sample_refresher\<lparr>rf_control := stored_control No_File\<rparr>)"
  from limited_run [OF this] obtain s' where s': "refresh_step (Fetch_Done (at_ms 1000) (F_fin 1) True (Inl limited)) s = Some s'"
    "rf_phase s' = Waiting \<lparr>pd_at = from_millis 3601000, pd_epoch_ms = 3601000\<rparr>" "\<not> rf_shutdown s'"
    "rp_rate_limit (rf_report s') = Some Unknown_Scope" "rf_commands_open s'" "rf_desired_seen s' = 0" "rf_desired_open s'"
    "rf_control s' = stored_control (Stored \<lparr>ps_enabled = True, ps_not_before_ms = Some 3601000\<rparr>)" "rf_now s' = from_millis 1000"
    by auto
  have "\<exists>s. refresh_run [Operator False, Wake_Desired (at_ms 2000)] s' = Some s
      \<and> rp_state (rf_reported s) = S_Disabled \<and> rp_rate_limit (rf_reported s) = Some Unknown_Scope"
    using s'(2-) by (simp add: tick_def awaiting_def on_desired_def loop_defs at_ms_def from_millis_def set_enabled_def
        store_update_def store_save_def stored_control_def control_new_def store_open_def store_load_def)
  with s'(1) show "\<exists>s. refresh_run [Fetch_Done (at_ms 1000) (F_fin 1) True (Inl limited), Operator False, Wake_Desired (at_ms 2000)]
            (refresher_start (at_ms 0) (sample_refresher\<lparr>rf_control := stored_control No_File\<rparr>)) = Some s
          \<and> rp_state (rf_reported s) = S_Disabled \<and> rp_rate_limit (rf_reported s) = Some Unknown_Scope"
    unfolding s_def refresh_run.simps by simp
qed

end
