(* ===== verification/Weather_Publisher.thy ===== *)
theory Weather_Publisher imports Weather_Schedule begin

text \<open>
  \<open>adsb-weather-server/src/projection.rs\<close> and \<open>publisher.rs\<close>: the one status that everything reads, and
  the task that keeps the broker's retained messages current. A \<open>tokio::sync::watch\<close> receiver is the
  value of the channel, whether it has changed unseen and whether a sender is left. The payload of
  a message stands for its JSON (\<open>serde_json\<close> writes every snapshot and status).
\<close>

record 'a watch =
  wv_value :: 'a
  wv_unseen :: bool
  wv_open :: bool

definition watch_send :: "'a \<Rightarrow> 'a watch \<Rightarrow> 'a watch" where
  "watch_send v w = (if wv_open w then w\<lparr>wv_value := v, wv_unseen := True\<rparr> else w)"

definition watch_close :: "'a watch \<Rightarrow> 'a watch" where
  "watch_close w = w\<lparr>wv_open := False\<rparr>"

text \<open>\<open>changed()\<close>: ready with \<open>Ok\<close> (\<open>True\<close>) after a change, with \<open>Err\<close> once the channel is closed.\<close>

definition watch_changed :: "'a watch \<Rightarrow> (bool \<times> 'a watch) option" where
  "watch_changed w =
     (if wv_unseen w then Some (True, w\<lparr>wv_unseen := False\<rparr>)
      else if \<not> wv_open w then Some (False, w) else None)"

subsection \<open>The projection\<close>

definition project :: "bool \<Rightarrow> reported_state \<Rightarrow> int \<Rightarrow> weather_status" where
  "project enabled r now_ms =
     \<lparr>ws_version = STATUS_VERSION, ws_enabled = enabled, ws_state = rp_state r,
      ws_consecutive_failures = rp_consecutive_failures r, ws_rate_limit = rp_rate_limit r,
      ws_last_success_ms = rp_last_success_ms r, ws_last_error = rp_last_error r,
      ws_next_fetch_ms = rp_next_fetch_ms r, ws_snapshot_valid_time_ms = rp_snapshot_valid_time_ms r,
      ws_updated_at_ms = now_ms\<rparr>"

definition same_content :: "weather_status \<Rightarrow> weather_status \<Rightarrow> bool" where
  "same_content a b \<longleftrightarrow> a = b\<lparr>ws_updated_at_ms := ws_updated_at_ms a\<rparr>"

record projection =
  pj_desired :: "bool watch"
  pj_reported :: "reported_state watch"
  pj_shutdown :: "bool watch"
  pj_status :: weather_status
  pj_sent :: nat \<comment> \<open>how often the status channel was written\<close>
  pj_desired_open :: bool
  pj_reported_open :: bool
  pj_running :: bool

text \<open>The top of the loop: project, and write the status if its content changed.\<close>

definition projection_top :: "int \<Rightarrow> projection \<Rightarrow> projection" where
  "projection_top now_ms p =
     (let p = p\<lparr>pj_desired := (pj_desired p)\<lparr>wv_unseen := False\<rparr>, pj_reported := (pj_reported p)\<lparr>wv_unseen := False\<rparr>\<rparr>;
          nxt = project (wv_value (pj_desired p)) (wv_value (pj_reported p)) now_ms
      in if same_content (pj_status p) nxt then p else p\<lparr>pj_status := nxt, pj_sent := Suc (pj_sent p)\<rparr>)"

datatype projection_event =
    Pj_Desired bool | Pj_Reported reported_state | Pj_Shutdown bool
  | Pj_Desired_Closed | Pj_Reported_Closed | Pj_Shutdown_Closed
  | Pj_Wake_Desired int | Pj_Wake_Reported int | Pj_Wake_Shutdown int

fun projection_step :: "projection_event \<Rightarrow> projection \<Rightarrow> projection option" where
  "projection_step (Pj_Desired b) p = Some (p\<lparr>pj_desired := watch_send b (pj_desired p)\<rparr>)"
| "projection_step (Pj_Reported r) p = Some (p\<lparr>pj_reported := watch_send r (pj_reported p)\<rparr>)"
| "projection_step (Pj_Shutdown b) p = Some (p\<lparr>pj_shutdown := watch_send b (pj_shutdown p)\<rparr>)"
| "projection_step Pj_Desired_Closed p = Some (p\<lparr>pj_desired := watch_close (pj_desired p)\<rparr>)"
| "projection_step Pj_Reported_Closed p = Some (p\<lparr>pj_reported := watch_close (pj_reported p)\<rparr>)"
| "projection_step Pj_Shutdown_Closed p = Some (p\<lparr>pj_shutdown := watch_close (pj_shutdown p)\<rparr>)"
| "projection_step (Pj_Wake_Desired now) p =
     (if pj_running p \<and> pj_desired_open p
      then map_option (\<lambda>(ok, w). projection_top now (p\<lparr>pj_desired := w, pj_desired_open := ok\<rparr>))
             (watch_changed (pj_desired p))
      else None)"
| "projection_step (Pj_Wake_Reported now) p =
     (if pj_running p \<and> pj_reported_open p
      then map_option (\<lambda>(ok, w). projection_top now (p\<lparr>pj_reported := w, pj_reported_open := ok\<rparr>))
             (watch_changed (pj_reported p))
      else None)"
| "projection_step (Pj_Wake_Shutdown now) p =
     (if pj_running p
      then map_option (\<lambda>(ok, w). let p = p\<lparr>pj_shutdown := w\<rparr>
             in if \<not> ok \<or> wv_value w then p\<lparr>pj_running := False\<rparr> else projection_top now p)
             (watch_changed (pj_shutdown p))
      else None)"

fun projection_run :: "projection_event list \<Rightarrow> projection \<Rightarrow> projection option" where
  "projection_run [] p = Some p"
| "projection_run (e # es) p = Option.bind (projection_step e p) (projection_run es)"

text \<open>What \<open>main\<close> starts it with: the status of the initial report.\<close>

definition projection_start :: "bool \<Rightarrow> int \<Rightarrow> int \<Rightarrow> projection" where
  "projection_start enabled now0 now1 =
     projection_top now1 \<lparr>pj_desired = \<lparr>wv_value = enabled, wv_unseen = False, wv_open = True\<rparr>,
       pj_reported = \<lparr>wv_value = default_reported, wv_unseen = False, wv_open = True\<rparr>,
       pj_shutdown = \<lparr>wv_value = False, wv_unseen = False, wv_open = True\<rparr>,
       pj_status = project enabled default_reported now0, pj_sent = 0,
       pj_desired_open = True, pj_reported_open = True, pj_running = True\<rparr>"

subsection \<open>The publisher\<close>

datatype trigger = On_ConnAck | On_Snapshot | On_Status

definition should_publish :: "trigger \<Rightarrow> bool \<Rightarrow> bool \<Rightarrow> bool" where
  "should_publish t online have_snapshot \<longleftrightarrow>
     have_snapshot \<and> (case t of On_ConnAck \<Rightarrow> True | On_Snapshot \<Rightarrow> online | On_Status \<Rightarrow> False)"

definition should_publish_status :: "trigger \<Rightarrow> bool \<Rightarrow> bool" where
  "should_publish_status t online \<longleftrightarrow>
     (case t of On_ConnAck \<Rightarrow> True | On_Status \<Rightarrow> online | On_Snapshot \<Rightarrow> False)"

definition publisher_client_id :: "string \<Rightarrow> string" where
  "publisher_client_id source = source @ ''-weather''"

datatype 'v payload = P_Grid "'v snapshot" | P_Status weather_status | P_Availability availability

datatype 'v pub_effect =
    Connected \<comment> \<open>the broker accepted a connection, possibly with an empty memory\<close>
  | Retain string "'v payload"
  | Disconnect

record 'v publisher =
  pb_topics :: weather_topics
  pb_snapshots :: "'v snapshot option watch"
  pb_status :: "weather_status watch"
  pb_shutdown :: "bool watch"
  pb_status_open :: bool
  pb_pacer :: pacer
  pb_connected :: bool
  pb_running :: bool
  pb_out :: "'v pub_effect list"

definition pub_emit :: "'v pub_effect list \<Rightarrow> 'v publisher \<Rightarrow> 'v publisher" where
  "pub_emit es s = s\<lparr>pb_out := pb_out s @ es\<rparr>"

definition publish_status :: "'v publisher \<Rightarrow> 'v publisher" where
  "publish_status s = pub_emit [Retain (wt_status (pb_topics s)) (P_Status (wv_value (pb_status s)))] s"

definition publish_latest :: "'v publisher \<Rightarrow> 'v publisher" where
  "publish_latest s = (case wv_value (pb_snapshots s) of
      None \<Rightarrow> s | Some sn \<Rightarrow> pub_emit [Retain (wt_grid (pb_topics s)) (P_Grid sn)] s)"

definition go_offline :: "'v publisher \<Rightarrow> 'v publisher" where
  "go_offline s =
     (let s = (if pb_connected s then pub_emit [Retain (wt_availability (pb_topics s)) (P_Availability Offline)] s else s)
      in (pub_emit [Disconnect] s)\<lparr>pb_running := False\<rparr>)"

definition publisher_connack :: "instant \<Rightarrow> 'v publisher \<Rightarrow> 'v publisher" where
  "publisher_connack t s =
     (let s = s\<lparr>pb_connected := True, pb_pacer := (pb_pacer s)\<lparr>connected_at := Some t\<rparr>\<rparr>;
          s = pub_emit [Connected, Retain (wt_availability (pb_topics s)) (P_Availability Online)] s;
          s = (if should_publish_status On_ConnAck (pb_connected s) then publish_status s else s);
          have = (wv_value (pb_snapshots s) \<noteq> None)
      in if should_publish On_ConnAck (pb_connected s) have then publish_latest s else s)"

definition publisher_poll_error :: "instant \<Rightarrow> 'v publisher \<Rightarrow> 'v publisher \<times> duration" where
  "publisher_poll_error now s =
     (let s = s\<lparr>pb_connected := False\<rparr>;
          s = (case connected_at (pb_pacer s) of
                 None \<Rightarrow> s
               | Some t \<Rightarrow>
                   let s = s\<lparr>pb_pacer := (pb_pacer s)\<lparr>connected_at := None\<rparr>\<rparr>
                   in if should_reset (elapsed_since t now)
                      then s\<lparr>pb_pacer := (pb_pacer s)\<lparr>attempt := 0, short_lived := 0\<rparr>\<rparr>
                      else if was_short_lived (elapsed_since t now)
                      then s\<lparr>pb_pacer := (pb_pacer s)\<lparr>short_lived := sat_add U32_MAX (short_lived (pb_pacer s)) 1\<rparr>\<rparr>
                      else s);
          d = delay default_backoff (attempt (pb_pacer s))
      in (s\<lparr>pb_pacer := (pb_pacer s)\<lparr>attempt := sat_add U32_MAX (attempt (pb_pacer s)) 1\<rparr>\<rparr>, d))"

datatype 'v publisher_event =
    Pb_Snapshot "'v snapshot option" | Pb_Snapshots_Closed | Pb_Status weather_status | Pb_Status_Closed
  | Pb_Shutdown bool | Pb_Shutdown_Closed
  | Pb_Wake_Snapshot | Pb_Wake_Status | Pb_Wake_Shutdown
  | Pb_ConnAck instant | Pb_Other | Pb_Error instant

fun publisher_step :: "'v publisher_event \<Rightarrow> 'v publisher \<Rightarrow> 'v publisher option" where
  "publisher_step (Pb_Snapshot v) s = Some (s\<lparr>pb_snapshots := watch_send v (pb_snapshots s)\<rparr>)"
| "publisher_step Pb_Snapshots_Closed s = Some (s\<lparr>pb_snapshots := watch_close (pb_snapshots s)\<rparr>)"
| "publisher_step (Pb_Status v) s = Some (s\<lparr>pb_status := watch_send v (pb_status s)\<rparr>)"
| "publisher_step Pb_Status_Closed s = Some (s\<lparr>pb_status := watch_close (pb_status s)\<rparr>)"
| "publisher_step (Pb_Shutdown b) s = Some (s\<lparr>pb_shutdown := watch_send b (pb_shutdown s)\<rparr>)"
| "publisher_step Pb_Shutdown_Closed s = Some (s\<lparr>pb_shutdown := watch_close (pb_shutdown s)\<rparr>)"
| "publisher_step Pb_Wake_Snapshot s =
     (if pb_running s
      then map_option (\<lambda>(ok, w). let s = s\<lparr>pb_snapshots := w\<rparr>
             in if \<not> ok then go_offline s
                else if should_publish On_Snapshot (pb_connected s) (wv_value w \<noteq> None) then publish_latest s else s)
             (watch_changed (pb_snapshots s))
      else None)"
| "publisher_step Pb_Wake_Status s =
     (if pb_running s \<and> pb_status_open s
      then map_option (\<lambda>(ok, w). let s = s\<lparr>pb_status := w\<rparr>
             in if \<not> ok then s\<lparr>pb_status_open := False\<rparr>
                else if should_publish_status On_Status (pb_connected s) then publish_status s else s)
             (watch_changed (pb_status s))
      else None)"
| "publisher_step Pb_Wake_Shutdown s =
     (if pb_running s
      then map_option (\<lambda>(ok, w). let s = s\<lparr>pb_shutdown := w\<rparr> in if \<not> ok \<or> wv_value w then go_offline s else s)
             (watch_changed (pb_shutdown s))
      else None)"
| "publisher_step (Pb_ConnAck t) s = (if pb_running s then Some (publisher_connack t s) else None)"
| "publisher_step Pb_Other s = (if pb_running s then Some s else None)"
| "publisher_step (Pb_Error t) s = (if pb_running s then Some (fst (publisher_poll_error t s)) else None)"

fun publisher_run :: "'v publisher_event list \<Rightarrow> 'v publisher \<Rightarrow> 'v publisher option" where
  "publisher_run [] s = Some s"
| "publisher_run (e # es) s = Option.bind (publisher_step e s) (publisher_run es)"

definition publisher_start :: "string \<Rightarrow> weather_status \<Rightarrow> 'v publisher" where
  "publisher_start grid_topic status =
     \<lparr>pb_topics = from_grid_topic grid_topic, pb_snapshots = \<lparr>wv_value = None, wv_unseen = False, wv_open = True\<rparr>,
      pb_status = \<lparr>wv_value = status, wv_unseen = False, wv_open = True\<rparr>,
      pb_shutdown = \<lparr>wv_value = False, wv_unseen = False, wv_open = True\<rparr>, pb_status_open = True,
      pb_pacer = fresh_pacer, pb_connected = False, pb_running = True, pb_out = []\<rparr>"

subsection \<open>The status is the projection\<close>

definition settled_projection :: "projection \<Rightarrow> bool" where
  "settled_projection p \<longleftrightarrow> (\<not> wv_unseen (pj_desired p) \<and> \<not> wv_unseen (pj_reported p) \<longrightarrow>
     same_content (pj_status p) (project (wv_value (pj_desired p)) (wv_value (pj_reported p)) 0))"

lemma same_content_project: "same_content a (project d r t) \<longleftrightarrow> same_content a (project d r t')"
  by (simp add: same_content_def project_def)

lemma same_content_refl: "same_content (project d r t) (project d r t')"
  by (simp add: same_content_def project_def)

lemma projection_top_settled: "settled_projection (projection_top now p)"
  using same_content_project [of _ _ _ now 0]
  by (auto simp: settled_projection_def projection_top_def Let_def same_content_refl)

lemma settled_frame [simp]:
  "settled_projection (p\<lparr>pj_shutdown := w\<rparr>) = settled_projection p"
  "settled_projection (p\<lparr>pj_running := b\<rparr>) = settled_projection p"
  by (simp_all add: settled_projection_def)

lemma projection_step_settled:
  assumes "projection_step e p = Some p'" and "settled_projection p"
  shows "settled_projection p'"
proof (cases e)
  case (Pj_Wake_Shutdown now)
  with assms show ?thesis
    by (auto simp: watch_changed_def Let_def projection_top_settled split: if_splits)
next
  case (Pj_Wake_Desired now)
  with assms(1) show ?thesis by (auto simp: projection_top_settled split: if_splits)
next
  case (Pj_Wake_Reported now)
  with assms(1) show ?thesis by (auto simp: projection_top_settled split: if_splits)
qed (use assms in \<open>auto simp: settled_projection_def watch_send_def watch_close_def split: if_splits\<close>)

lemma projection_run_settled:
  "projection_run es p = Some q \<Longrightarrow> settled_projection p \<Longrightarrow> settled_projection q"
proof (induction es arbitrary: p)
  case (Cons e es)
  then obtain r where "projection_step e p = Some r" "projection_run es r = Some q" by (auto simp: bind_eq_Some_conv)
  with Cons.IH [of r] projection_step_settled [of e p r] Cons.prems(2) show ?case by blast
qed simp

text \<open>C23: There is one status, and it is the projection of the operator's switch and the loop's report:
  whenever the task has seen every change of the two, the status holds exactly their content.\<close>

theorem status_is_projection:
  assumes "projection_run es (projection_start enabled now0 now1) = Some p"
    and "\<not> wv_unseen (pj_desired p)" and "\<not> wv_unseen (pj_reported p)"
  shows "same_content (pj_status p) (project (wv_value (pj_desired p)) (wv_value (pj_reported p)) t)"
proof -
  have "settled_projection (projection_start enabled now0 now1)"
    unfolding projection_start_def by (rule projection_top_settled)
  with projection_run_settled [OF assms(1)] have "settled_projection p" .
  with assms(2,3) show ?thesis using same_content_project [of _ _ _ 0 t] by (simp add: settled_projection_def)
qed

theorem status_is_projection_witness:
  "\<exists>p. projection_run [Pj_Desired False, Pj_Wake_Desired 5] (projection_start True 0 1) = Some p
     \<and> same_content (pj_status p) (project False default_reported 9)"
proof -
  obtain p where p: "projection_run [Pj_Desired False, Pj_Wake_Desired 5] (projection_start True 0 1) = Some p"
    "\<not> wv_unseen (pj_desired p)" "\<not> wv_unseen (pj_reported p)" "\<not> wv_value (pj_desired p)"
    "wv_value (pj_reported p) = default_reported"
    by (simp add: projection_start_def projection_top_def Let_def same_content_refl watch_send_def watch_changed_def)
  from status_is_projection [OF p(1-3), of 9] p show ?thesis by auto
qed

subsection \<open>The retained messages are current\<close>

text \<open>
  What the broker retains: it may come back from a restart with anything (\<open>memory\<close>) at each
  connection, and then takes the messages of the connection in order.
\<close>

fun retained :: "(string \<Rightarrow> 'v payload option) \<Rightarrow> 'v pub_effect list \<Rightarrow> (string \<Rightarrow> 'v payload option) \<Rightarrow> (string \<Rightarrow> 'v payload option)" where
  "retained memory [] r = r"
| "retained memory (Connected # es) r = retained memory es memory"
| "retained memory (Retain t p # es) r = retained memory es (r(t := Some p))"
| "retained memory (Disconnect # es) r = retained memory es r"

lemma retained_append [simp]: "retained memory (xs @ ys) r = retained memory ys (retained memory xs r)"
proof (induction xs arbitrary: r)
  case (Cons e xs)
  then show ?case by (cases e) (simp_all del: fun_upd_apply)
qed simp

lemmas topics_differ = from_grid_topic_distinct from_grid_topic_distinct(2-4) [THEN not_sym]

definition up_to_date :: "(string \<Rightarrow> 'v payload option) \<Rightarrow> 'v publisher \<Rightarrow> bool" where
  "up_to_date memory s \<longleftrightarrow> (let t = pb_topics s; r = retained memory (pb_out s) memory in
     (\<exists>g. t = from_grid_topic g)
   \<and> (pb_connected s \<and> pb_running s \<longrightarrow>
        r (wt_availability t) = Some (P_Availability Online)
      \<and> (\<not> wv_unseen (pb_status s) \<longrightarrow> r (wt_status t) = Some (P_Status (wv_value (pb_status s))))
      \<and> (\<not> wv_unseen (pb_snapshots s) \<longrightarrow>
           (case wv_value (pb_snapshots s) of None \<Rightarrow> True | Some sn \<Rightarrow> r (wt_grid t) = Some (P_Grid sn)))))"

lemmas pub_defs = pub_emit_def publish_status_def publish_latest_def should_publish_def should_publish_status_def Let_def

lemma connack_up_to_date: "up_to_date memory s \<Longrightarrow> up_to_date memory (publisher_connack t s)"
  by (auto simp: up_to_date_def publisher_connack_def pub_defs topics_differ split: option.splits)

lemma offline_up_to_date: "up_to_date memory s \<Longrightarrow> up_to_date memory (go_offline s)"
  by (auto simp: up_to_date_def go_offline_def pub_defs)

lemma watch_send_unseen: "\<not> wv_unseen (watch_send v w) \<Longrightarrow> watch_send v w = w"
  by (auto simp: watch_send_def split: if_splits)

lemma watch_changed_Some:
  "watch_changed w = Some (ok, w') \<longleftrightarrow>
     (if wv_unseen w then ok \<and> w' = w\<lparr>wv_unseen := False\<rparr> else \<not> wv_open w \<and> \<not> ok \<and> w' = w)"
  by (auto simp: watch_changed_def)

text \<open>What the claim reads of the state.\<close>

lemma up_to_date_frame [simp]:
  "up_to_date memory (s\<lparr>pb_shutdown := w\<rparr>) = up_to_date memory s"
  "up_to_date memory (s\<lparr>pb_status_open := b\<rparr>) = up_to_date memory s"
  "up_to_date memory (s\<lparr>pb_pacer := p\<rparr>) = up_to_date memory s"
  "up_to_date memory (s\<lparr>pb_snapshots := watch_close (pb_snapshots s)\<rparr>) = up_to_date memory s"
  "up_to_date memory (s\<lparr>pb_status := watch_close (pb_status s)\<rparr>) = up_to_date memory s"
  by (simp_all add: up_to_date_def watch_close_def Let_def)

lemma up_to_date_send:
  "up_to_date memory s \<Longrightarrow> up_to_date memory (s\<lparr>pb_snapshots := watch_send v (pb_snapshots s)\<rparr>)"
  "up_to_date memory s \<Longrightarrow> up_to_date memory (s\<lparr>pb_status := watch_send st (pb_status s)\<rparr>)"
  by (auto simp: up_to_date_def watch_send_def Let_def)

lemma up_to_date_wake_snapshot:
  assumes "up_to_date memory s" and "wv_unseen (pb_snapshots s)"
  shows "up_to_date memory (let s = s\<lparr>pb_snapshots := (pb_snapshots s)\<lparr>wv_unseen := False\<rparr>\<rparr>
    in if should_publish On_Snapshot (pb_connected s) (wv_value (pb_snapshots s) \<noteq> None) then publish_latest s else s)"
  using assms by (auto simp: up_to_date_def pub_defs topics_differ split: option.splits)

lemma up_to_date_wake_status:
  assumes "up_to_date memory s" and "wv_unseen (pb_status s)"
  shows "up_to_date memory (let s = s\<lparr>pb_status := (pb_status s)\<lparr>wv_unseen := False\<rparr>\<rparr>
    in if should_publish_status On_Status (pb_connected s) then publish_status s else s)"
  using assms by (auto simp: up_to_date_def pub_defs topics_differ split: option.splits)

lemma poll_error_up_to_date: "up_to_date memory s \<Longrightarrow> up_to_date memory (fst (publisher_poll_error t s))"
  by (auto simp: up_to_date_def publisher_poll_error_def Let_def split: option.splits)

lemma publisher_step_up_to_date:
  assumes "publisher_step e s = Some s'" and "up_to_date memory s"
  shows "up_to_date memory s'"
proof (cases e)
  case Pb_Wake_Snapshot
  with assms(1) obtain ok w where "watch_changed (pb_snapshots s) = Some (ok, w)"
    "s' = (let s = s\<lparr>pb_snapshots := w\<rparr> in if \<not> ok then go_offline s
       else if should_publish On_Snapshot (pb_connected s) (wv_value w \<noteq> None) then publish_latest s else s)"
    by (auto split: if_splits)
  then show ?thesis using up_to_date_wake_snapshot [OF assms(2)] offline_up_to_date [OF assms(2)]
    by (auto simp: watch_changed_Some Let_def split: if_splits)
next
  case Pb_Wake_Status
  with assms(1) obtain ok w where "watch_changed (pb_status s) = Some (ok, w)"
    "s' = (let s = s\<lparr>pb_status := w\<rparr> in if \<not> ok then s\<lparr>pb_status_open := False\<rparr>
       else if should_publish_status On_Status (pb_connected s) then publish_status s else s)"
    by (auto split: if_splits)
  then show ?thesis using up_to_date_wake_status [OF assms(2)] assms(2)
    by (auto simp: watch_changed_Some Let_def split: if_splits)
next
  case Pb_Wake_Shutdown
  with assms(1) obtain w where "s' = go_offline (s\<lparr>pb_shutdown := w\<rparr>) \<or> s' = s\<lparr>pb_shutdown := w\<rparr>"
    by (auto simp: Let_def split: if_splits)
  moreover have "up_to_date memory (go_offline (s\<lparr>pb_shutdown := w\<rparr>))" for w
    by (rule offline_up_to_date) (simp add: assms(2))
  ultimately show ?thesis using assms(2) by auto
qed (use assms connack_up_to_date poll_error_up_to_date up_to_date_send in \<open>auto split: if_splits\<close>)

lemma publisher_run_up_to_date:
  "publisher_run es s = Some s' \<Longrightarrow> up_to_date memory s \<Longrightarrow> up_to_date memory s'"
proof (induction es arbitrary: s)
  case (Cons e es)
  then obtain t where "publisher_step e s = Some t" "publisher_run es t = Some s'" by (auto simp: bind_eq_Some_conv)
  with Cons.IH [of t] publisher_step_up_to_date [of e s t memory] Cons.prems(2) show ?case by blast
qed simp

lemma publisher_topics: "publisher_run es s = Some s' \<Longrightarrow> pb_topics s' = pb_topics s"
proof (induction es arbitrary: s)
  case (Cons e es)
  then obtain t where t: "publisher_step e s = Some t" "publisher_run es t = Some s'" by (auto simp: bind_eq_Some_conv)
  then have "pb_topics t = pb_topics s"
    by (cases e) (auto simp: publisher_connack_def publisher_poll_error_def go_offline_def pub_defs
        split: if_splits option.splits)
  with Cons.IH t(2) show ?case by simp
qed simp

text \<open>C22: While the publisher is connected, what the broker retains is current, whatever the broker
  remembered when it accepted the connection: availability says online, the status topic holds the
  present status and the grid topic the present snapshot, as soon as the task has seen the last
  change of each.\<close>

theorem retained_messages_current:
  assumes "publisher_run es (publisher_start grid status0) = Some s" and "pb_connected s" and "pb_running s"
  shows "let t = from_grid_topic grid; r = retained memory (pb_out s) memory in
     r (wt_availability t) = Some (P_Availability Online)
   \<and> (\<not> wv_unseen (pb_status s) \<longrightarrow> r (wt_status t) = Some (P_Status (wv_value (pb_status s))))
   \<and> (\<not> wv_unseen (pb_snapshots s) \<longrightarrow>
        (case wv_value (pb_snapshots s) of None \<Rightarrow> True | Some sn \<Rightarrow> r grid = Some (P_Grid sn)))"
proof -
  have "up_to_date memory s"
    by (rule publisher_run_up_to_date [OF assms(1)]) (auto simp: up_to_date_def publisher_start_def Let_def)
  moreover have "pb_topics s = from_grid_topic grid"
    using publisher_topics [OF assms(1)] by (simp add: publisher_start_def)
  ultimately show ?thesis using assms(2,3) by (simp add: up_to_date_def Let_def from_grid_topic_distinct split: option.splits)
qed

theorem retained_messages_current_witness:
  "\<exists>s :: nat publisher. publisher_run [Pb_ConnAck 0, Pb_Status (project False default_reported 7), Pb_Wake_Status, Pb_Error 1, Pb_ConnAck 9]
       (publisher_start ''adsb/weather/grid'' (project True default_reported 0)) = Some s
     \<and> retained (\<lambda>_. None) (pb_out s) (\<lambda>_. None) (wt_status (from_grid_topic ''adsb/weather/grid''))
       = Some (P_Status (project False default_reported 7))"
proof -
  obtain s :: "nat publisher" where s: "publisher_run [Pb_ConnAck 0, Pb_Status (project False default_reported 7), Pb_Wake_Status,
        Pb_Error 1, Pb_ConnAck 9] (publisher_start ''adsb/weather/grid'' (project True default_reported 0)) = Some s"
      "pb_connected s" "pb_running s" "wv_value (pb_status s) = project False default_reported 7" "\<not> wv_unseen (pb_status s)"
    by (auto simp: publisher_start_def publisher_connack_def publisher_poll_error_def pub_defs watch_send_def
        watch_changed_def fresh_pacer_def should_reset_def was_short_lived_def SHORT_LIVED_def from_secs_def
        elapsed_since_def)
  from retained_messages_current [OF s(1-3), of "\<lambda>_. None"] s show ?thesis by (auto simp: Let_def)
qed

subsection \<open>Coming and going\<close>

text \<open>A subscriber that reads in order never sees a status or grid of a session before its \<open>online\<close>.\<close>

lemma connack_birth_first:
  "\<exists>rest. pb_out (publisher_connack t s)
     = pb_out s @ Connected # Retain (wt_availability (pb_topics s)) (P_Availability Online) # rest"
  by (auto simp: publisher_connack_def pub_defs split: option.splits)

lemma offline_last: "pb_connected s \<Longrightarrow>
  pb_out (go_offline s) = pb_out s @ [Retain (wt_availability (pb_topics s)) (P_Availability Offline), Disconnect]"
  by (simp add: go_offline_def pub_defs)

text \<open>The pacing contract of the feed's event loops holds for this one too.\<close>

interpretation weather_pub: paced_reconnect publisher_connack publisher_poll_error pb_pacer default_backoff
proof
  show "pb_pacer (publisher_connack t s) = (pb_pacer s)\<lparr>connected_at := Some t\<rparr>" for t s
    by (simp add: publisher_connack_def pub_defs split: option.split)
  show "pb_pacer (fst (publisher_poll_error t s)) = fst (paced_error default_backoff t (pb_pacer s))" for t s
    by (simp add: publisher_poll_error_def paced_error_def settle_def Let_def split: option.split)
  show "snd (publisher_poll_error t s) = snd (paced_error default_backoff t (pb_pacer s))" for t s
    by (simp add: publisher_poll_error_def paced_error_def settle_def Let_def split: option.split)
qed

text \<open>A broker that keeps dropping the publisher cannot make it spin: as long as no connection holds
  for thirty seconds, the n-th failure is followed by the n-th delay of the backoff curve, however
  many connections succeed in between, and a client that is always evicted recognises it.\<close>

theorem publisher_storm_paced:
  assumes "flapping None es" and "pb_pacer s = fresh_pacer"
  shows "snd (run_conn publisher_connack publisher_poll_error es s) = map (delay default_backoff) [0..<failures es]
    \<and> from_secs 30 * (failures es - 9) \<le> sum_list (snd (run_conn publisher_connack publisher_poll_error es s))
    \<and> (evicted None es \<and> 3 \<le> failures es \<and> failures es \<le> U32_MAX \<longrightarrow>
         looks_like_id_collision (short_lived (pb_pacer (fst (run_conn publisher_connack publisher_poll_error es s)))))"
proof -
  have "snd (run_conn publisher_connack publisher_poll_error es s) = map (delay default_backoff) [0..<failures es]"
    using weather_pub.flapping_sleeps [of s es] assms by (simp add: fresh_pacer_def)
  moreover have "looks_like_id_collision (short_lived (pb_pacer (fst (run_conn publisher_connack publisher_poll_error es s))))"
    if "evicted None es" "3 \<le> failures es" "failures es \<le> U32_MAX"
    using weather_pub.evicted_short_lived [of s es] that assms(2)
    by (simp add: fresh_pacer_def looks_like_id_collision_def)
  ultimately show ?thesis by (simp add: default_sleeps_total)
qed

theorem publisher_storm_paced_witness:
  "from_secs 30 * (12 - 9) \<le> sum_list (snd (run_conn publisher_connack publisher_poll_error (eviction_storm 12)
     (publisher_start ''adsb/weather/grid'' (project True default_reported 0) :: nat publisher)))"
proof -
  have "flapping None (eviction_storm n)" for n
    by (induction n) (simp_all add: elapsed_since_def should_reset_def from_secs_def)
  moreover have "failures (eviction_storm n) = n" for n by (induction n) simp_all
  moreover have "pb_pacer (publisher_start g st :: nat publisher) = fresh_pacer" for g st by (simp add: publisher_start_def)
  ultimately show ?thesis
    using publisher_storm_paced [of "eviction_storm 12" "publisher_start ''adsb/weather/grid'' (project True default_reported 0)"]
    by metis
qed

end
