(* ===== verification/Flight_Bootstrap.thy ===== *)
theory Flight_Bootstrap imports Flights "HOL-Library.Char_ord" "HOL-Library.List_Lexorder" begin

text \<open>
  \<open>bootstrap_flights_sync\<close> of \<open>adsb-data-engine/src/storage.rs\<close>: the one-time migration that computes the
  flight table from the stored positions with window functions, as a function on the rows. It is the
  reference the incremental assignment of flights is compared with: positions are put in time order
  per aircraft, a flight starts where there is no earlier row or the earlier one is more than the gap
  ago, a row's flight number counts the starts up to its time (the default frame of a window with
  \<open>ORDER BY\<close> includes rows of equal time), and each flight is the aggregate of its rows.
\<close>

subsection \<open>The window functions\<close>

fun lag_from :: "int option \<Rightarrow> position_row list \<Rightarrow> (position_row \<times> int option) list" where
  "lag_from prev [] = []"
| "lag_from prev (r # rs) = (r, prev) # lag_from (Some (pr_ts r)) rs"

definition partition_of :: "string \<Rightarrow> position_row list \<Rightarrow> position_row list" where
  "partition_of hex rows = sort_key pr_ts (filter (\<lambda>r. pr_hex r = hex) rows)"

definition starts_flight :: "int \<Rightarrow> position_row \<times> int option \<Rightarrow> bool" where
  "starts_flight gap = (\<lambda>(r, prev). case prev of None \<Rightarrow> True | Some u \<Rightarrow> pr_ts r - u > gap)"

definition segment_num :: "int \<Rightarrow> (position_row \<times> int option) list \<Rightarrow> int \<Rightarrow> nat" where
  "segment_num gap lagged ts = length (filter (\<lambda>l. pr_ts (fst l) \<le> ts \<and> starts_flight gap l) lagged) - 1"

definition segmented :: "int \<Rightarrow> position_row list \<Rightarrow> (position_row \<times> nat) list" where
  "segmented gap part = map (\<lambda>r. (r, segment_num gap (lag_from None part) (pr_ts r))) part"

subsection \<open>The aggregates\<close>

text \<open>\<open>MIN\<close> and \<open>MAX\<close> skip NULLs.\<close>

definition sql_min :: "f64 option list \<Rightarrow> f64 option" where
  "sql_min xs = fold (\<lambda>x m. col_min m x) xs None"

definition sql_max :: "f64 option list \<Rightarrow> f64 option" where
  "sql_max xs = fold (\<lambda>x m. col_max m x) xs None"

definition sql_max_text :: "string option list \<Rightarrow> string option" where
  "sql_max_text xs = fold (\<lambda>x m. case (m, x) of (Some a, Some b) \<Rightarrow> Some (max a b) | _ \<Rightarrow> opt_or m x) xs None"

definition flight_of_rows :: "string \<Rightarrow> nat \<Rightarrow> position_row list \<Rightarrow> flight" where
  "flight_of_rows hex num ps = \<lparr>fl_id = flight_key hex num, fl_hex = hex, fl_num = num,
     fl_callsign = sql_max_text (map pr_callsign ps), fl_count = length ps,
     fl_first = Min (pr_ts ` set ps), fl_last = Max (pr_ts ` set ps),
     fl_min = sql_min (map pr_altitude ps), fl_max = sql_max (map pr_altitude ps)\<rparr>"

definition group_of :: "nat \<Rightarrow> (position_row \<times> nat) list \<Rightarrow> position_row list" where
  "group_of num seg = map fst (filter (\<lambda>s. snd s = num) seg)"

definition flights_of_rows :: "int \<Rightarrow> position_row list \<Rightarrow> flight list" where
  "flights_of_rows gap rows = concat (map (\<lambda>hex.
     let seg = segmented gap (partition_of hex rows)
     in map (\<lambda>num. flight_of_rows hex num (group_of num seg)) (remdups (map snd seg)))
     (remdups (map pr_hex rows)))"

definition bootstrap_flights :: "storage \<Rightarrow> storage" where
  "bootstrap_flights st =
     (if st_flights st \<noteq> [] \<or> st_positions st = [] then st
      else st\<lparr>st_flights := flights_of_rows (st_gap st) (st_positions st)\<rparr>)"

subsection \<open>One more position at the end\<close>

lemma lag_from_snoc:
  "lag_from prev (rs @ [r]) = lag_from prev rs @ [(r, if rs = [] then prev else Some (pr_ts (last rs)))]"
  by (induction rs arbitrary: prev) auto

lemma map_fst_lag_from [simp]: "map fst (lag_from prev rs) = rs"
  by (induction rs arbitrary: prev) auto

definition flight_starts :: "int \<Rightarrow> position_row list \<Rightarrow> nat" where
  "flight_starts gap part = length (filter (starts_flight gap) (lag_from None part))"

lemma flight_starts_pos: "part \<noteq> [] \<Longrightarrow> 0 < flight_starts gap part"
  by (cases part) (simp_all add: flight_starts_def starts_flight_def)

lemma segment_num_last:
  assumes "\<forall>r \<in> set part. pr_ts r \<le> ts"
  shows "segment_num gap (lag_from None part) ts = flight_starts gap part - 1"
proof -
  have "fst l \<in> set part" if "l \<in> set (lag_from None part)" for l
    using that map_fst_lag_from [of None part] by (metis image_eqI list.set_map)
  with assms have "filter (\<lambda>l. pr_ts (fst l) \<le> ts \<and> starts_flight gap l) (lag_from None part)
      = filter (starts_flight gap) (lag_from None part)" by (intro filter_cong) auto
  then show ?thesis by (simp add: segment_num_def flight_starts_def)
qed

lemma segmented_snoc:
  assumes "0 \<le> gap" and "\<forall>q \<in> set part. pr_ts q \<le> pr_ts r" and "sorted (map pr_ts part)"
  shows "segmented gap (part @ [r]) = segmented gap part @ [(r, flight_starts gap (part @ [r]) - 1)]"
proof -
  have "segment_num gap (lag_from None (part @ [r])) (pr_ts q) = segment_num gap (lag_from None part) (pr_ts q)"
    if q: "q \<in> set part" for q
  proof -
    have "part \<noteq> []" using q by auto
    moreover have "pr_ts q \<le> pr_ts (last part)"
      using q assms(3) by (cases part rule: rev_cases) (auto simp: sorted_append)
    ultimately show ?thesis
      using assms(1) by (auto simp: lag_from_snoc segment_num_def starts_flight_def)
  qed
  then show ?thesis using assms(2) by (simp add: segmented_def segment_num_last)
qed

lemma flight_starts_snoc:
  "flight_starts gap (part @ [r]) = flight_starts gap part
     + (if part = [] \<or> pr_ts r - pr_ts (last part) > gap then 1 else 0)"
  by (simp add: flight_starts_def lag_from_snoc starts_flight_def)

lemma partition_sorted: "sorted (map pr_ts (partition_of hex rows))"
  by (simp add: partition_of_def)

lemma set_partition: "set (partition_of hex rows) = {r \<in> set rows. pr_hex r = hex}"
  by (simp add: partition_of_def)

lemma partition_snoc:
  assumes "\<forall>q \<in> set (partition_of (pr_hex r) rows). pr_ts q \<le> pr_ts r"
  shows "partition_of h (rows @ [r]) = partition_of h rows @ (if pr_hex r = h then [r] else [])"
  using assms by (auto simp: partition_of_def sort_key_snoc)

text \<open>The numbers in use are those up to that of the newest row, and every one of them is.\<close>

lemma segmented_numbers:
  assumes "0 \<le> gap" and "sorted (map pr_ts part)"
  shows "set (map snd (segmented gap part)) = {n. n < flight_starts gap part}"
  using assms(2)
proof (induction part rule: rev_induct)
  case Nil
  show ?case by (simp add: segmented_def flight_starts_def)
next
  case (snoc r part)
  then have le: "\<forall>q \<in> set part. pr_ts q \<le> pr_ts r" and sorted: "sorted (map pr_ts part)"
    by (auto simp: sorted_append)
  have "flight_starts gap (part @ [r]) \<le> Suc (flight_starts gap part)"
    "flight_starts gap part \<le> flight_starts gap (part @ [r])" "0 < flight_starts gap (part @ [r])"
    using flight_starts_pos [of "part @ [r]" gap] by (simp_all add: flight_starts_snoc)
  with snoc.IH [OF sorted] show ?case
    unfolding segmented_snoc [OF assms(1) le sorted] by auto
qed

lemma group_of_snoc: "group_of n (seg @ [(r, k)]) = group_of n seg @ (if k = n then [r] else [])"
  by (simp add: group_of_def)

lemma group_of_empty: "n \<notin> set (map snd seg) \<Longrightarrow> group_of n seg = []"
  by (auto simp: group_of_def filter_empty_conv)

lemma set_group_of: "set (map fst seg) = set part \<Longrightarrow> set (group_of n seg) \<subseteq> set part"
  by (auto simp: group_of_def)

lemma map_fst_segmented [simp]: "map fst (segmented gap part) = part"
  by (simp add: segmented_def comp_def)

subsection \<open>The live table is the aggregate of the segments\<close>

text \<open>What the incremental path makes of a segment: the aggregate, with the newest callsign.\<close>

definition live_flight :: "string \<Rightarrow> nat \<Rightarrow> position_row list \<Rightarrow> flight" where
  "live_flight hex num ps = (flight_of_rows hex num ps)\<lparr>fl_callsign := newest pr_callsign ps\<rparr>"

lemma live_flight_key [simp]: "fl_id (live_flight h n ps) = flight_key h n" "fl_hex (live_flight h n ps) = h"
  by (simp_all add: live_flight_def flight_of_rows_def)

lemma live_flight_single:
  "live_flight (hex_ident p) n [position_row_of src (p, ts)] = new_flight (hex_ident p) n p ts"
  by (cases "altitude p") (simp_all add: live_flight_def flight_of_rows_def new_flight_def position_row_of_def
      sql_min_def sql_max_def col_min_def col_max_def)

lemma live_flight_snoc:
  assumes "ps \<noteq> []" and "\<forall>q \<in> set ps. pr_ts q \<le> ts"
  shows "live_flight h n (ps @ [position_row_of src (p, ts)]) = touch p ts (live_flight h n ps)"
proof -
  obtain q where q: "q \<in> set ps" using assms(1) by (cases ps) auto
  then have "Min (pr_ts ` set ps) \<le> pr_ts q" "Max (pr_ts ` set ps) \<le> ts" using assms by auto
  with q assms(2) have "min ts (Min (pr_ts ` set ps)) = Min (pr_ts ` set ps)"
    by (meson min.absorb2 order_trans)
  with assms(1) show ?thesis
    by (simp add: live_flight_def flight_of_rows_def touch_def update_flight_def fresh_update_def position_row_of_def
        sql_min_def sql_max_def sql_least_coalesced sql_greatest_coalesced max.commute)
qed

definition flights_at :: "int \<Rightarrow> position_row list \<Rightarrow> string \<Rightarrow> flight set" where
  "flights_at gap pos h = (\<lambda>n. live_flight h n (group_of n (segmented gap (partition_of h pos))))
     ` {n. n < flight_starts gap (partition_of h pos)}"

definition mirrors :: "int \<Rightarrow> position_row list \<Rightarrow> (string \<rightharpoonup> active_flight) \<Rightarrow> flight list \<Rightarrow> bool" where
  "mirrors gap pos t rows \<longleftrightarrow> set rows = (\<Union>h. flights_at gap pos h)
     \<and> (\<forall>h. let part = partition_of h pos; num = flight_starts gap part - 1
         in t h = (if part = [] then None
                   else Some \<lparr>af_id = flight_key h num, af_num = num, af_last = pr_ts (last part)\<rparr>))"

lemma flights_at_new:
  assumes "0 \<le> gap" and le: "\<forall>q \<in> set (partition_of (hex_ident p) pos). pr_ts q \<le> ts"
    and new: "partition_of (hex_ident p) pos = [] \<or> ts - pr_ts (last (partition_of (hex_ident p) pos)) > gap"
  shows "flights_at gap (pos @ [position_row_of src (p, ts)]) (hex_ident p)
    = insert (new_flight (hex_ident p) (flight_starts gap (partition_of (hex_ident p) pos)) p ts)
        (flights_at gap pos (hex_ident p))"
proof -
  define row where "row = position_row_of src (p, ts)"
  define part where "part = partition_of (hex_ident p) pos"
  define k where "k = flight_starts gap part"
  have row: "pr_hex row = hex_ident p" "pr_ts row = ts" by (simp_all add: row_def position_row_of_def)
  have part': "partition_of (hex_ident p) (pos @ [row]) = part @ [row]"
    using partition_snoc [of row pos "hex_ident p"] le row by (simp add: part_def)
  have starts: "flight_starts gap (part @ [row]) = Suc k"
    using new row by (auto simp: flight_starts_snoc part_def k_def)
  have seg: "segmented gap (part @ [row]) = segmented gap part @ [(row, k)]"
    using segmented_snoc [of gap part row] assms(1) le row starts partition_sorted by (simp add: part_def)
  have "group_of k (segmented gap part) = []"
    using segmented_numbers [of gap part] assms(1) partition_sorted by (intro group_of_empty) (simp add: part_def k_def)
  then have "live_flight (hex_ident p) k (group_of k (segmented gap part @ [(row, k)])) = new_flight (hex_ident p) k p ts"
    by (simp add: group_of_snoc row_def live_flight_single)
  moreover have "{n. n < Suc k} = insert k {n. n < k}" by auto
  moreover have "live_flight (hex_ident p) n (group_of n (segmented gap part @ [(row, k)]))
      = live_flight (hex_ident p) n (group_of n (segmented gap part))" if "n < k" for n
    using that by (simp add: group_of_snoc)
  ultimately have "(\<lambda>n. live_flight (hex_ident p) n (group_of n (segmented gap part @ [(row, k)]))) ` {n. n < Suc k}
      = insert (new_flight (hex_ident p) k p ts) ((\<lambda>n. live_flight (hex_ident p) n (group_of n (segmented gap part))) ` {n. n < k})"
    by auto
  then show ?thesis
    by (simp only: flights_at_def part' seg starts flip: row_def part_def k_def)
qed

lemma flights_at_extend:
  assumes "0 \<le> gap" and le: "\<forall>q \<in> set (partition_of (hex_ident p) pos). pr_ts q \<le> ts"
    and old: "partition_of (hex_ident p) pos \<noteq> []" "ts - pr_ts (last (partition_of (hex_ident p) pos)) \<le> gap"
    and k: "k = flight_starts gap (partition_of (hex_ident p) pos) - 1"
  shows "flights_at gap (pos @ [position_row_of src (p, ts)]) (hex_ident p)
    = (\<lambda>r. if fl_id r = flight_key (hex_ident p) k then touch p ts r else r) ` flights_at gap pos (hex_ident p)"
proof -
  define row where "row = position_row_of src (p, ts)"
  define part where "part = partition_of (hex_ident p) pos"
  have row: "pr_hex row = hex_ident p" "pr_ts row = ts" by (simp_all add: row_def position_row_of_def)
  have part': "partition_of (hex_ident p) (pos @ [row]) = part @ [row]"
    using partition_snoc [of row pos "hex_ident p"] le row by (simp add: part_def)
  have starts: "flight_starts gap (part @ [row]) = flight_starts gap part"
    using old row by (auto simp: flight_starts_snoc part_def)
  have seg: "segmented gap (part @ [row]) = segmented gap part @ [(row, k)]"
    using segmented_snoc [of gap part row] assms(1) le row starts partition_sorted k by (simp add: part_def)
  have "k \<in> set (map snd (segmented gap part))"
    using segmented_numbers [of gap part] assms(1) partition_sorted flight_starts_pos [of part gap] old k
    by (simp add: part_def)
  then have "group_of k (segmented gap part) \<noteq> []" by (auto simp: group_of_def filter_empty_conv)
  moreover have "\<forall>q \<in> set (group_of k (segmented gap part)). pr_ts q \<le> ts"
    using le set_group_of [of "segmented gap part" part k] by (auto simp: part_def)
  ultimately have "live_flight (hex_ident p) n (group_of n (segmented gap part @ [(row, k)]))
      = (\<lambda>r. if fl_id r = flight_key (hex_ident p) k then touch p ts r else r)
          (live_flight (hex_ident p) n (group_of n (segmented gap part)))" for n
    by (simp add: group_of_snoc row_def live_flight_snoc)
  then have "(\<lambda>n. live_flight (hex_ident p) n (group_of n (segmented gap part @ [(row, k)]))) ` A
      = (\<lambda>r. if fl_id r = flight_key (hex_ident p) k then touch p ts r else r)
          ` (\<lambda>n. live_flight (hex_ident p) n (group_of n (segmented gap part))) ` A" for A
    by (auto simp: image_image)
  then show ?thesis
    by (simp only: flights_at_def part' seg starts flip: row_def part_def)
qed

lemma flights_at_other:
  "pr_hex r \<noteq> h \<Longrightarrow> flights_at gap (pos @ [r]) h = flights_at gap pos h"
  by (simp add: flights_at_def partition_of_def)

lemma flights_at_hex: "f \<in> flights_at gap pos h \<Longrightarrow> fl_hex f = h \<and> (\<exists>n. fl_id f = flight_key h n)"
  by (auto simp: flights_at_def)

lemma UN_pointwise:
  assumes "F' h = A \<union> f ` F h" and "\<And>g. g \<noteq> h \<Longrightarrow> F' g = f ` F g"
  shows "(\<Union>g. F' g) = A \<union> f ` (\<Union>g. F g)"
proof -
  have "F' g = (if g = h then A else {}) \<union> f ` F g" for g using assms by simp
  then have "(\<Union>g. F' g) = (\<Union>g. (if g = h then A else {}) \<union> f ` F g)" by simp
  also have "\<dots> = A \<union> f ` (\<Union>g. F g)" by (auto split: if_splits)
  finally show ?thesis .
qed

lemma mirrors_step:
  assumes "mirrors gap pos t rows" and "0 \<le> gap"
    and le: "case t (hex_ident p) of None \<Rightarrow> True | Some a \<Rightarrow> af_last a \<le> ts"
    and one: "ingest_one gap (p, ts) (t, rows) = (t', rows')"
  shows "mirrors gap (pos @ [position_row_of src (p, ts)]) t' rows'"
proof -
  define h where "h = hex_ident p"
  define row where "row = position_row_of src (p, ts)"
  define part where "part = partition_of h pos"
  define k where "k = flight_starts gap part"
  have row: "pr_hex row = h" "pr_ts row = ts" by (simp_all add: row_def position_row_of_def h_def)
  have rows: "set rows = (\<Union>h. flights_at gap pos h)" using assms(1) by (simp add: mirrors_def)
  have t: "t g = (if partition_of g pos = [] then None
      else Some \<lparr>af_id = flight_key g (flight_starts gap (partition_of g pos) - 1),
                 af_num = flight_starts gap (partition_of g pos) - 1, af_last = pr_ts (last (partition_of g pos))\<rparr>)" for g
    using assms(1) by (simp add: mirrors_def Let_def)
  have newest: "\<forall>q \<in> set part. pr_ts q \<le> ts"
  proof
    fix q
    assume q: "q \<in> set part"
    then have "pr_ts q \<le> pr_ts (last part)"
      using partition_sorted [of h pos] unfolding part_def by (cases "partition_of h pos" rule: rev_cases) (auto simp: sorted_append)
    also have "\<dots> \<le> ts" using le q t [of h] by (auto simp: part_def h_def split: if_splits)
    finally show "pr_ts q \<le> ts" .
  qed
  have parts: "partition_of g (pos @ [row]) = partition_of g pos @ (if h = g then [row] else [])" for g
    using partition_snoc [of row pos g] newest row by (simp add: part_def)
  have others: "flights_at gap (pos @ [row]) g = flights_at gap pos g" if "g \<noteq> h" for g
    using flights_at_other [of row g] that row by simp
  let ?entry = "\<lambda>num. \<lparr>af_id = flight_key h num, af_num = num, af_last = ts\<rparr>"
  have mirror: ?thesis if "set rows' = (\<Union>g. flights_at gap (pos @ [row]) g)"
    and "t' = t(h \<mapsto> ?entry (flight_starts gap (part @ [row]) - 1))"
    unfolding mirrors_def using that row t by (auto simp: Let_def parts part_def simp flip: row_def)
  show ?thesis
  proof (cases "part = [] \<or> ts - pr_ts (last part) > gap")
    case True
    have "k = 0" if "part = []" using that by (simp add: k_def flight_starts_def)
    moreover have "Suc (k - Suc 0) = k" if "part \<noteq> []" using flight_starts_pos [OF that, of gap] by (simp add: k_def)
    ultimately have "rows' = rows @ [new_flight h k p ts]" "t' = t(h \<mapsto> ?entry k)"
      using one True t [of h] by (auto simp: ingest_one_def Let_def h_def part_def k_def split: if_splits)
    moreover have "flight_starts gap (part @ [row]) - 1 = k" using True row by (auto simp: flight_starts_snoc k_def)
    moreover have at: "flights_at gap (pos @ [row]) h = insert (new_flight h k p ts) (flights_at gap pos h)"
      using flights_at_new [of gap p pos ts src] assms(2) newest True by (simp add: part_def h_def k_def row_def)
    moreover have "(\<Union>g. flights_at gap (pos @ [row]) g) = {new_flight h k p ts} \<union> id ` (\<Union>g. flights_at gap pos g)"
      by (rule UN_pointwise [where h = h]) (simp_all add: at others)
    ultimately show ?thesis using rows by (intro mirror) simp_all
  next
    case False
    then have k: "k - 1 = flight_starts gap (partition_of h pos) - 1" by (simp add: k_def part_def)
    let ?touch = "\<lambda>r. if fl_id r = flight_key h (k - 1) then touch p ts r else r"
    have "rows' = map ?touch rows" "t' = t(h \<mapsto> ?entry (k - 1))"
      using one False t [of h] by (auto simp: ingest_one_def Let_def h_def part_def k_def)
    moreover have "flight_starts gap (part @ [row]) = k" using False row by (simp add: flight_starts_snoc k_def)
    moreover have at: "flights_at gap (pos @ [row]) h = ?touch ` flights_at gap pos h"
      using flights_at_extend [of gap p pos ts "k - 1" src] assms(2) newest False k by (simp add: part_def h_def row_def)
    moreover have other: "?touch ` flights_at gap pos g = flights_at gap (pos @ [row]) g" if "g \<noteq> h" for g
      using flights_at_hex [of _ gap pos g] that others [OF that] by (force simp: image_iff)
    moreover have "(\<Union>g. flights_at gap (pos @ [row]) g) = {} \<union> ?touch ` (\<Union>g. flights_at gap pos g)"
      by (rule UN_pointwise [where h = h]) (simp only: at Un_empty_left, rule other [symmetric])
    ultimately show ?thesis using rows by (intro mirror) simp_all
  qed
qed

lemma mirrors_all:
  "mirrors gap pos t rows \<Longrightarrow> 0 \<le> gap \<Longrightarrow> in_time_order (last_seen t) pts \<Longrightarrow>
   fold (ingest_one gap) pts (t, rows) = (t', rows') \<Longrightarrow>
   mirrors gap (pos @ map (position_row_of src) pts) t' rows'"
proof (induction pts arbitrary: pos t rows)
  case (Cons pt pts)
  obtain p ts where pt: "pt = (p, ts)" by fastforce
  obtain t1 rows1 where one: "ingest_one gap (p, ts) (t, rows) = (t1, rows1)" by fastforce
  have le: "case t (hex_ident p) of None \<Rightarrow> True | Some a \<Rightarrow> af_last a \<le> ts"
    using Cons.prems(3) by (auto simp: pt last_seen_def split: option.splits)
  have "last_seen t1 = (last_seen t)(hex_ident p \<mapsto> ts)"
    using one by (auto simp: ingest_one_def Let_def split: option.splits if_splits)
  with Cons.prems(3) have order: "in_time_order (last_seen t1) pts" by (simp add: pt)
  have "fold (ingest_one gap) pts (t1, rows1) = (t', rows')" using Cons.prems(4) pt one by simp
  from Cons.IH [OF mirrors_step [OF Cons.prems(1,2) le one] Cons.prems(2) order this] pt show ?case by simp
qed simp

lemma mirrors_empty: "mirrors gap [] Map.empty []"
  by (simp add: mirrors_def flights_at_def partition_of_def flight_starts_def)

subsection \<open>The migration agrees with the live table\<close>

definition without_callsign :: "flight \<Rightarrow> flight" where
  "without_callsign r = r\<lparr>fl_callsign := None\<rparr>"

lemma without_callsign_live: "without_callsign (live_flight h n ps) = without_callsign (flight_of_rows h n ps)"
  by (simp add: without_callsign_def live_flight_def)

lemma set_flights_of_rows:
  assumes "0 \<le> gap"
  shows "without_callsign ` set (flights_of_rows gap rows) = without_callsign ` (\<Union>h. flights_at gap rows h)"
proof -
  have empty: "flights_at gap rows h = {}" if "h \<notin> pr_hex ` set rows" for h
  proof -
    have "partition_of h rows = []" using that set_partition [of h rows] by (auto simp flip: set_empty)
    then show ?thesis by (simp add: flights_at_def flight_starts_def)
  qed
  have "without_callsign ` set (flights_of_rows gap rows)
      = (\<Union>h \<in> pr_hex ` set rows. without_callsign ` flights_at gap rows h)"
    using segmented_numbers [OF assms partition_sorted]
    by (simp add: flights_of_rows_def Let_def flights_at_def image_UN image_image without_callsign_live)
  also have "\<dots> = without_callsign ` (\<Union>h. flights_at gap rows h)" using empty by fastforce
  finally show ?thesis .
qed

lemma distinct_flights_of_rows: "distinct (map fl_id (flights_of_rows gap rows))"
proof -
  have id: "fl_id (flight_of_rows h n ps) = flight_key h n" for h n ps by (simp add: flight_of_rows_def)
  have "distinct (map fl_id (map (\<lambda>num. flight_of_rows hex num (group_of num seg)) (remdups ns)))" for hex seg ns
    by (simp add: comp_def id distinct_map inj_on_def)
  moreover have "distinct hs \<Longrightarrow> distinct (map fl_id (concat (map (\<lambda>hex. map (\<lambda>num. flight_of_rows hex num (g hex num)) (ns hex)) hs)))"
    if "\<And>hex. distinct (ns hex)" for hs g and ns :: "string \<Rightarrow> nat list"
    using that by (induction hs) (auto simp: comp_def id distinct_map inj_on_def)
  ultimately show ?thesis unfolding flights_of_rows_def Let_def by simp
qed

text \<open>C29: The one-time migration gives the flights that live ingestion gave. When the positions of each
  aircraft arrived in time order, computing the flight table from the stored positions with window
  functions gives the rows the incremental assignment built, one by one, up to their callsign: the
  same flights with the same numbers, counts, times and altitude bounds.\<close>

theorem bootstrap_equals_live:
  fixes bs :: "(aircraft_position \<times> int) list list" and gap :: int and src :: string
  defines "st \<equiv> snd (insert_batches bs (storage_empty src gap))"
  assumes "list_all (list_all no_nan_alt) bs" and "0 \<le> gap" and "in_time_order Map.empty (concat bs)"
  shows "mset (map without_callsign (st_flights (bootstrap_flights (st\<lparr>st_flights := []\<rparr>))))
       = mset (map without_callsign (st_flights st))"
proof -
  from insert_batches_fold [OF assms(2), of src gap] insert_batches_positions [OF assms(2), of src gap]
  have tr: "tracks (st_tracker st) (st_flights st)" and gap: "st_gap st = gap"
    and run: "fold (ingest_one gap) (concat bs) (Map.empty, []) = (st_tracker st, st_flights st)"
    and pos: "st_positions st = map (position_row_of src) (concat bs)"
    by (auto simp: st_def)
  have "last_seen Map.empty = Map.empty" by (simp add: last_seen_def)
  with mirrors_all [OF mirrors_empty assms(3) _ run, of src] assms(4) pos
  have "set (st_flights st) = (\<Union>h. flights_at gap (st_positions st) h)" by (simp add: mirrors_def)
  with set_flights_of_rows [OF assms(3), of "st_positions st"]
  have sets: "set (map without_callsign (flights_of_rows gap (st_positions st))) = set (map without_callsign (st_flights st))"
    by simp
  have distinct: "distinct (map without_callsign rows)" if "distinct (map fl_id rows)" for rows
    using that by (induction rows) (auto simp: without_callsign_def, metis flight.select_convs(1) flight.surjective flight.update_convs(4) image_eqI)
  have "mset (map without_callsign (flights_of_rows gap (st_positions st))) = mset (map without_callsign (st_flights st))"
    using sets distinct [OF distinct_flights_of_rows] distinct [of "st_flights st"] tr
    by (subst set_eq_iff_mset_eq_distinct [symmetric]) (simp_all add: tracks_def)
  moreover have "flights_of_rows gap [] = []" by (simp add: flights_of_rows_def)
  ultimately show ?thesis using gap by (auto simp: bootstrap_flights_def)
qed

theorem bootstrap_equals_live_witness:
  "\<exists>st. snd (insert_batches [[(sample_position ''A1'' None, 0), (sample_position ''B2'' None, 3)], [(sample_position ''A1'' None, 900)]]
      (storage_empty ''pi'' 100)) = st
    \<and> mset (map without_callsign (st_flights (bootstrap_flights (st\<lparr>st_flights := []\<rparr>))))
       = mset (map without_callsign (st_flights st))"
  using bootstrap_equals_live [of "[[(sample_position ''A1'' None, 0), (sample_position ''B2'' None, 3)], [(sample_position ''A1'' None, 900)]]" 100 "''pi''"]
  by (simp add: no_nan_alt_def sample_position_def)

definition named_position :: "string \<Rightarrow> string \<Rightarrow> aircraft_position" where
  "named_position hex name = (sample_position hex None)\<lparr>callsign := Some name\<rparr>"

text \<open>The callsigns may differ: the migration takes the greatest callsign of a flight, live ingestion the
  newest.\<close>
theorem bootstrap_callsign_diverges:
  "let st = snd (insert_batches [[(named_position h ''B'', 0)], [(named_position h ''A'', 5)]] (storage_empty src 100))
   in map fl_callsign (st_flights st) = [Some ''A'']
    \<and> map fl_callsign (st_flights (bootstrap_flights (st\<lparr>st_flights := []\<rparr>))) = [Some ''B'']"
  by (simp add: insert_batches_def insert_batch_def assign_flight_def storage_empty_def Let_def
      named_position_def sample_position_def new_flight_def update_flight_def fresh_update_def
      bootstrap_flights_def flights_of_rows_def partition_of_def position_row_of_def segmented_def segment_num_def
      starts_flight_def group_of_def flight_of_rows_def sql_max_text_def max_def)

end
