(* ===== verification/Keyed_Table.thy ===== *)
theory Keyed_Table imports Flights begin

text \<open>
  What the authored tables of \<open>adsb-data-engine/src/storage.rs\<close> share: the statements on a table with a
  primary key as functions on its rows, and the contract of the create, update and delete operations
  built on them, as the locale \<open>crud\<close>. Its client lemma says that any sequence of operations behaves as
  on a finite map. The generated id and the clock reading are arguments of an operation.
\<close>

subsection \<open>Statements\<close>

text \<open>\<open>INSERT\<close> into a table with a primary key; \<open>None\<close> is the constraint error.\<close>

definition table_insert :: "('r \<Rightarrow> string) \<Rightarrow> 'r \<Rightarrow> 'r list \<Rightarrow> 'r list option" where
  "table_insert key r rows = (if list_ex (\<lambda>q. key q = key r) rows then None else Some (rows @ [r]))"

text \<open>\<open>UPDATE\<close> and \<open>DELETE\<close> give the number of rows affected.\<close>

definition table_update :: "('r \<Rightarrow> bool) \<Rightarrow> ('r \<Rightarrow> 'r) \<Rightarrow> 'r list \<Rightarrow> nat \<times> 'r list" where
  "table_update p f rows = (length (filter p rows), map (\<lambda>r. if p r then f r else r) rows)"

definition table_delete :: "('r \<Rightarrow> bool) \<Rightarrow> 'r list \<Rightarrow> nat \<times> 'r list" where
  "table_delete p rows = (length (filter p rows), filter (\<lambda>r. \<not> p r) rows)"

text \<open>\<open>ORDER BY k DESC\<close>; rows of equal key in table order.\<close>

definition order_desc :: "('r \<Rightarrow> int) \<Rightarrow> 'r list \<Rightarrow> 'r list" where
  "order_desc k rows = sort_key (\<lambda>r. - k r) rows"

lemma find_key_append:
  "List.find (\<lambda>r. key r = i) (rows @ [r]) = (case List.find (\<lambda>r. key r = i) rows of
     Some q \<Rightarrow> Some q | None \<Rightarrow> if key r = i then Some r else None)"
  by (induction rows) auto

lemma find_key_None: "List.find (\<lambda>r. key r = i) rows = None \<longleftrightarrow> i \<notin> key ` set rows"
  by (auto simp: find_None_iff)

lemma find_key_update:
  assumes "\<And>r. key (f r) = key r"
  shows "List.find (\<lambda>r. key r = i) (map (\<lambda>r. if key r = j then f r else r) rows)
    = map_option (\<lambda>r. if i = j then f r else r) (List.find (\<lambda>r. key r = i) rows)"
  using assms by (induction rows) auto

lemma find_key_delete:
  "List.find (\<lambda>r. key r = i) (filter (\<lambda>r. key r \<noteq> j) rows)
    = (if i = j then None else List.find (\<lambda>r. key r = i) rows)"
  by (induction rows) auto

lemma no_key_affected: "length (filter (\<lambda>r. key r = i) rows) = 0 \<longleftrightarrow> List.find (\<lambda>r. key r = i) rows = None"
  by (induction rows) auto

lemma update_nothing: "length (filter p rows) = 0 \<Longrightarrow> map (\<lambda>r. if p r then f r else r) rows = rows"
  by (induction rows) (auto split: if_splits)

lemma delete_nothing: "length (filter p rows) = 0 \<Longrightarrow> filter (\<lambda>r. \<not> p r) rows = rows"
  by (induction rows) (auto split: if_splits)

subsection \<open>Create, update, delete\<close>

datatype ('c, 'u) crud_op = Create string int 'c | Update int 'u | Delete string

datatype 'r crud_result = Row "storage_error + 'r" | Done "storage_error + unit"

fun run_ops :: "('o \<Rightarrow> 's \<Rightarrow> 'r \<times> 's) \<Rightarrow> 'o list \<Rightarrow> 's \<Rightarrow> 'r list \<times> 's" where
  "run_ops step [] s = ([], s)"
| "run_ops step (e # es) s = (let (r, s) = step e s; (rs, s) = run_ops step es s in (r # rs, s))"

fun crud_step ::
  "(string \<Rightarrow> int \<Rightarrow> 'c \<Rightarrow> 's \<Rightarrow> (storage_error + 'r) \<times> 's) \<Rightarrow> (int \<Rightarrow> 'u \<Rightarrow> 's \<Rightarrow> (storage_error + 'r) \<times> 's)
    \<Rightarrow> (string \<Rightarrow> 's \<Rightarrow> (storage_error + unit) \<times> 's) \<Rightarrow> ('c, 'u) crud_op \<Rightarrow> 's \<Rightarrow> 'r crud_result \<times> 's" where
  "crud_step create edit delete (Create i now c) s = map_prod Row id (create i now c s)"
| "crud_step create edit delete (Update now u) s = map_prod Row id (edit now u s)"
| "crud_step create edit delete (Delete i) s = map_prod Done id (delete i s)"

text \<open>The specification: the operations on a map from ids to rows.\<close>

fun map_step ::
  "(string \<Rightarrow> int \<Rightarrow> 'c \<Rightarrow> 'r) \<Rightarrow> ('u \<Rightarrow> string) \<Rightarrow> (int \<Rightarrow> 'u \<Rightarrow> 'r \<Rightarrow> 'r) \<Rightarrow> (string \<Rightarrow> storage_error) \<Rightarrow> storage_error
    \<Rightarrow> ('c, 'u) crud_op \<Rightarrow> (string \<rightharpoonup> 'r) \<Rightarrow> 'r crud_result \<times> (string \<rightharpoonup> 'r)" where
  "map_step created target edited missing duplicate (Create i now c) m =
     (if m i \<noteq> None then (Row (Inl duplicate), m) else (Row (Inr (created i now c)), m(i \<mapsto> created i now c)))"
| "map_step created target edited missing duplicate (Update now u) m = (case m (target u) of
      None \<Rightarrow> (Row (Inl (missing (target u))), m)
    | Some x \<Rightarrow> (Row (Inr (edited now u x)), m(target u \<mapsto> edited now u x)))"
| "map_step created target edited missing duplicate (Delete i) m =
     (if m i \<noteq> None then (Done (Inr ()), m(i := None)) else (Done (Inl (missing i)), m))"

locale crud =
  fixes view :: "'s \<Rightarrow> string \<Rightarrow> 'r option"
    and create :: "string \<Rightarrow> int \<Rightarrow> 'c \<Rightarrow> 's \<Rightarrow> (storage_error + 'r) \<times> 's"
    and edit :: "int \<Rightarrow> 'u \<Rightarrow> 's \<Rightarrow> (storage_error + 'r) \<times> 's"
    and delete :: "string \<Rightarrow> 's \<Rightarrow> (storage_error + unit) \<times> 's"
    and created :: "string \<Rightarrow> int \<Rightarrow> 'c \<Rightarrow> 'r"
    and target :: "'u \<Rightarrow> string"
    and edited :: "int \<Rightarrow> 'u \<Rightarrow> 'r \<Rightarrow> 'r"
    and missing :: "string \<Rightarrow> storage_error"
    and duplicate :: storage_error
    and well :: "'s \<Rightarrow> bool"
  assumes create_new: "well s \<Longrightarrow> view s i = None \<Longrightarrow> create i now c s = (r, s') \<Longrightarrow>
      r = Inr (created i now c) \<and> view s' = (view s)(i \<mapsto> created i now c) \<and> well s'"
    and create_dup: "well s \<Longrightarrow> view s i \<noteq> None \<Longrightarrow> create i now c s = (Inl duplicate, s)"
    and edit_there: "well s \<Longrightarrow> view s (target u) = Some x \<Longrightarrow> edit now u s = (r, s') \<Longrightarrow>
      r = Inr (edited now u x) \<and> view s' = (view s)(target u \<mapsto> edited now u x) \<and> well s'"
    and edit_missing: "well s \<Longrightarrow> view s (target u) = None \<Longrightarrow> edit now u s = (Inl (missing (target u)), s)"
    and delete_there: "well s \<Longrightarrow> view s i \<noteq> None \<Longrightarrow> delete i s = (r2, s') \<Longrightarrow>
      r2 = Inr () \<and> view s' = (view s)(i := None) \<and> well s'"
    and delete_missing: "well s \<Longrightarrow> view s i = None \<Longrightarrow> delete i s = (Inl (missing i), s)"
begin

lemma step_refines:
  assumes "well s" and "crud_step create edit delete e s = (r, s')"
  shows "map_step created target edited missing duplicate e (view s) = (r, view s') \<and> well s'"
proof (cases e)
  case (Create i now c)
  show ?thesis
  proof (cases "view s i")
    case None
    obtain q s1 where "create i now c s = (q, s1)" by fastforce
    with create_new [OF assms(1) None this] assms(2) Create None show ?thesis by auto
  next
    case Some
    with create_dup [OF assms(1), of i now c] assms Create show ?thesis by auto
  qed
next
  case (Update now u)
  show ?thesis
  proof (cases "view s (target u)")
    case None
    from edit_missing [OF assms(1) this, of now] assms Update None show ?thesis by auto
  next
    case (Some x)
    obtain q s1 where "edit now u s = (q, s1)" by fastforce
    with edit_there [OF assms(1) Some this] assms(2) Update Some show ?thesis by auto
  qed
next
  case (Delete i)
  show ?thesis
  proof (cases "view s i = None")
    case True
    from delete_missing [OF assms(1) this] assms Delete True show ?thesis by auto
  next
    case False
    obtain q s1 where "delete i s = (q, s1)" by fastforce
    with delete_there [OF assms(1) False this] assms(2) Delete False show ?thesis by auto
  qed
qed

lemma runs_refine:
  "well s \<Longrightarrow> run_ops (crud_step create edit delete) es s = (rs, s') \<Longrightarrow>
   run_ops (map_step created target edited missing duplicate) es (view s) = (rs, view s') \<and> well s'"
proof (induction es arbitrary: s rs s')
  case (Cons e es)
  obtain r s1 where one: "crud_step create edit delete e s = (r, s1)" by fastforce
  obtain rs1 s2 where rest: "run_ops (crud_step create edit delete) es s1 = (rs1, s2)" by fastforce
  from step_refines [OF Cons.prems(1) one] have
    "map_step created target edited missing duplicate e (view s) = (r, view s1)" "well s1" by auto
  with Cons.IH [OF _ rest] Cons.prems(2) one rest show ?case by simp
qed simp

end

end
