(* ===== verification/Stored_Events.thy ===== *)
theory Stored_Events imports Keyed_Table begin

text \<open>
  The event tables of \<open>adsb-data-engine/src/storage.rs\<close>: status events, an append-only audit trail whose
  category and status are stored as text, and events of interest, which a user creates, edits and
  deletes.
\<close>

subsection \<open>Status events\<close>

datatype status_event_type = ET_Feed | ET_Socket | ET_Pulsar | ET_Storage

datatype status_event_status =
    ES_AppStart | ES_Started | ES_Stopped | ES_Connecting | ES_Connected | ES_Degraded
  | ES_ConnectionLost | ES_Disconnected | ES_Released | ES_Reclaimed | ES_Error

fun show_event_type :: "status_event_type \<Rightarrow> string" where
  "show_event_type ET_Feed = ''feed''"
| "show_event_type ET_Socket = ''socket''"
| "show_event_type ET_Pulsar = ''pulsar''"
| "show_event_type ET_Storage = ''storage''"

fun show_event_status :: "status_event_status \<Rightarrow> string" where
  "show_event_status ES_AppStart = ''AppStart''"
| "show_event_status ES_Started = ''Started''"
| "show_event_status ES_Stopped = ''Stopped''"
| "show_event_status ES_Connecting = ''Connecting''"
| "show_event_status ES_Connected = ''Connected''"
| "show_event_status ES_Degraded = ''Degraded''"
| "show_event_status ES_ConnectionLost = ''ConnectionLost''"
| "show_event_status ES_Disconnected = ''Disconnected''"
| "show_event_status ES_Released = ''Released''"
| "show_event_status ES_Reclaimed = ''Reclaimed''"
| "show_event_status ES_Error = ''Error''"

definition parse_event_type :: "string \<Rightarrow> string + status_event_type" where
  "parse_event_type s =
     (if s = ''feed'' then Inr ET_Feed else if s = ''socket'' then Inr ET_Socket
      else if s = ''pulsar'' then Inr ET_Pulsar else if s = ''storage'' then Inr ET_Storage
      else Inl (''unknown StatusEventType: '' @ s))"

definition parse_event_status :: "string \<Rightarrow> string + status_event_status" where
  "parse_event_status s =
     (if s = ''AppStart'' then Inr ES_AppStart else if s = ''Started'' then Inr ES_Started
      else if s = ''Stopped'' then Inr ES_Stopped else if s = ''Connecting'' then Inr ES_Connecting
      else if s = ''Connected'' then Inr ES_Connected else if s = ''Degraded'' then Inr ES_Degraded
      else if s = ''ConnectionLost'' then Inr ES_ConnectionLost else if s = ''Disconnected'' then Inr ES_Disconnected
      else if s = ''Released'' then Inr ES_Released else if s = ''Reclaimed'' then Inr ES_Reclaimed
      else if s = ''Error'' then Inr ES_Error
      else Inl (''unknown StatusEventStatus: '' @ s))"

record status_event =
  se_timestamp_ms :: int
  se_event_type :: status_event_type
  se_status :: status_event_status
  se_detail :: "string option"
  se_source_id :: "string option"

record status_row =
  sr_timestamp_ms :: int
  sr_event_type :: string
  sr_status :: string
  sr_detail :: "string option"
  sr_source_id :: "string option"

definition event_now :: "int \<Rightarrow> status_event_type \<Rightarrow> status_event_status \<Rightarrow> status_event" where
  "event_now now ty st = \<lparr>se_timestamp_ms = now, se_event_type = ty, se_status = st, se_detail = None, se_source_id = None\<rparr>"

record status_event_query =
  sq_start_ms :: "int option"
  sq_end_ms :: "int option"
  sq_event_type :: "status_event_type option"
  sq_limit :: "nat option"

definition insert_status_event :: "string \<Rightarrow> status_event \<Rightarrow> status_row list \<Rightarrow> status_row list" where
  "insert_status_event source_id e rows = rows @
     [\<lparr>sr_timestamp_ms = se_timestamp_ms e, sr_event_type = show_event_type (se_event_type e),
       sr_status = show_event_status (se_status e), sr_detail = se_detail e,
       sr_source_id = Some (case se_source_id e of None \<Rightarrow> source_id | Some i \<Rightarrow> i)\<rparr>]"

definition status_of_row :: "status_row \<Rightarrow> storage_error + status_event" where
  "status_of_row r = (case parse_event_type (sr_event_type r) of
      Inl e \<Rightarrow> Inl (Query_Error e)
    | Inr ty \<Rightarrow> (case parse_event_status (sr_status r) of
        Inl e \<Rightarrow> Inl (Query_Error e)
      | Inr st \<Rightarrow> Inr \<lparr>se_timestamp_ms = sr_timestamp_ms r, se_event_type = ty, se_status = st,
                        se_detail = sr_detail r, se_source_id = sr_source_id r\<rparr>))"

text \<open>The first row that does not parse fails the query.\<close>

fun collect_rows :: "('q \<Rightarrow> 'e + 'a) \<Rightarrow> 'q list \<Rightarrow> 'e + 'a list" where
  "collect_rows f [] = Inr []"
| "collect_rows f (r # rs) = (case f r of
      Inl e \<Rightarrow> Inl e
    | Inr x \<Rightarrow> (case collect_rows f rs of Inl e \<Rightarrow> Inl e | Inr xs \<Rightarrow> Inr (x # xs)))"

definition status_matches :: "status_event_query \<Rightarrow> status_row \<Rightarrow> bool" where
  "status_matches q r \<longleftrightarrow>
     (case sq_start_ms q of None \<Rightarrow> True | Some s \<Rightarrow> s \<le> sr_timestamp_ms r)
   \<and> (case sq_end_ms q of None \<Rightarrow> True | Some e \<Rightarrow> sr_timestamp_ms r \<le> e)
   \<and> (case sq_event_type q of None \<Rightarrow> True | Some ty \<Rightarrow> sr_event_type r = show_event_type ty)"

definition query_status_events :: "status_event_query \<Rightarrow> status_row list \<Rightarrow> storage_error + status_event list" where
  "query_status_events q rows =
     collect_rows status_of_row
       (take (case sq_limit q of None \<Rightarrow> 500 | Some n \<Rightarrow> n)
         (order_desc sr_timestamp_ms (filter (status_matches q) rows)))"

lemma parse_show_event_type [simp]: "parse_event_type (show_event_type ty) = Inr ty"
  by (cases ty) (simp_all add: parse_event_type_def)

lemma parse_show_event_status [simp]: "parse_event_status (show_event_status st) = Inr st"
  by (cases st) (simp_all add: parse_event_status_def)

text \<open>The events of a trail that a query asks for, newest first, as they were inserted.\<close>

definition named_source :: "string \<Rightarrow> status_event \<Rightarrow> status_event" where
  "named_source source_id e =
     e\<lparr>se_source_id := Some (case se_source_id e of None \<Rightarrow> source_id | Some i \<Rightarrow> i)\<rparr>"

definition asked_for :: "status_event_query \<Rightarrow> status_event \<Rightarrow> bool" where
  "asked_for q e \<longleftrightarrow>
     (case sq_start_ms q of None \<Rightarrow> True | Some s \<Rightarrow> s \<le> se_timestamp_ms e)
   \<and> (case sq_end_ms q of None \<Rightarrow> True | Some t \<Rightarrow> se_timestamp_ms e \<le> t)
   \<and> (case sq_event_type q of None \<Rightarrow> True | Some ty \<Rightarrow> se_event_type e = ty)"

definition row_of_event :: "string \<Rightarrow> status_event \<Rightarrow> status_row" where
  "row_of_event source_id e = hd (insert_status_event source_id e [])"

lemma fold_insert_status:
  "fold (insert_status_event src) es rows = rows @ map (row_of_event src) es"
  by (induction es arbitrary: rows) (simp_all add: insert_status_event_def row_of_event_def)

lemma status_of_inserted: "status_of_row (row_of_event src e) = Inr (named_source src e)"
  by (simp add: row_of_event_def insert_status_event_def status_of_row_def named_source_def)

lemma collect_inserted:
  "collect_rows status_of_row (map (row_of_event src) es) = Inr (map (named_source src) es)"
  by (induction es) (simp_all add: status_of_inserted)

lemma show_event_type_inject [simp]: "show_event_type a = show_event_type b \<longleftrightarrow> a = b"
  by (metis parse_show_event_type sum.inject(2))

text \<open>The audit trail survives its textual encoding. Whatever events were inserted, a query
  succeeds and returns those it asks for, newest first and no more than its limit, each with the
  category and status it had, and with the receiver's own id where it named none.\<close>

theorem status_events_round_trip:
  "query_status_events q (fold (insert_status_event src) es [])
   = Inr (take (case sq_limit q of None \<Rightarrow> 500 | Some n \<Rightarrow> n)
       (order_desc se_timestamp_ms (map (named_source src) (filter (asked_for q) es))))"
proof -
  let ?n = "case sq_limit q of None \<Rightarrow> 500 | Some n \<Rightarrow> n"
  have "status_matches q (row_of_event src e) = asked_for q e" for e
    by (auto simp: status_matches_def asked_for_def row_of_event_def insert_status_event_def split: option.splits)
  then have "filter (status_matches q) (map (row_of_event src) es) = map (row_of_event src) (filter (asked_for q) es)"
    by (simp add: filter_map comp_def)
  moreover have "(\<lambda>r. - sr_timestamp_ms r) \<circ> row_of_event src = (\<lambda>r. - se_timestamp_ms r) \<circ> named_source src"
    by (simp add: fun_eq_iff row_of_event_def insert_status_event_def named_source_def)
  ultimately have "take ?n (order_desc sr_timestamp_ms (filter (status_matches q) (fold (insert_status_event src) es [])))
      = map (row_of_event src) (take ?n (sort_key ((\<lambda>r. - se_timestamp_ms r) \<circ> named_source src) (filter (asked_for q) es)))"
    by (simp add: fold_insert_status order_desc_def sort_key_map take_map)
  then show ?thesis
    unfolding query_status_events_def
    by (simp add: order_desc_def sort_key_map take_map collect_inserted)
qed

subsection \<open>Events of interest\<close>

record event_of_interest =
  eoi_id :: string
  eoi_title :: string
  eoi_description :: string
  eoi_timestamp_ms :: int
  eoi_end_timestamp_ms :: "int option"
  eoi_latitude :: "f64 option"
  eoi_longitude :: "f64 option"
  eoi_bbox_north :: "f64 option"
  eoi_bbox_south :: "f64 option"
  eoi_bbox_east :: "f64 option"
  eoi_bbox_west :: "f64 option"
  eoi_source :: string
  eoi_category :: "string option"
  eoi_metadata :: "string option"
  eoi_linked_hex_idents :: "string option"
  eoi_created_at_ms :: int
  eoi_updated_at_ms :: int

record create_event_of_interest =
  ce_title :: string
  ce_description :: string
  ce_timestamp_ms :: int
  ce_end_timestamp_ms :: "int option"
  ce_latitude :: "f64 option"
  ce_longitude :: "f64 option"
  ce_bbox_north :: "f64 option"
  ce_bbox_south :: "f64 option"
  ce_bbox_east :: "f64 option"
  ce_bbox_west :: "f64 option"
  ce_source :: "string option"
  ce_category :: "string option"
  ce_metadata :: "string option"
  ce_linked_hex_idents :: "string option"

text \<open>An update names a row and carries the fields of a creation.\<close>

record update_event_of_interest =
  ue_id :: string
  ue_fields :: create_event_of_interest

record event_of_interest_query =
  eq_start_ms :: "int option"
  eq_end_ms :: "int option"
  eq_source :: "string option"
  eq_category :: "string option"
  eq_limit :: "nat option"

definition or_user :: "string option \<Rightarrow> string" where
  "or_user s = (case s of None \<Rightarrow> ''user'' | Some x \<Rightarrow> x)"

definition new_event :: "string \<Rightarrow> int \<Rightarrow> create_event_of_interest \<Rightarrow> event_of_interest" where
  "new_event i now c = \<lparr>eoi_id = i, eoi_title = ce_title c, eoi_description = ce_description c,
     eoi_timestamp_ms = ce_timestamp_ms c, eoi_end_timestamp_ms = ce_end_timestamp_ms c,
     eoi_latitude = ce_latitude c, eoi_longitude = ce_longitude c,
     eoi_bbox_north = ce_bbox_north c, eoi_bbox_south = ce_bbox_south c,
     eoi_bbox_east = ce_bbox_east c, eoi_bbox_west = ce_bbox_west c,
     eoi_source = or_user (ce_source c), eoi_category = ce_category c, eoi_metadata = ce_metadata c,
     eoi_linked_hex_idents = ce_linked_hex_idents c, eoi_created_at_ms = now, eoi_updated_at_ms = now\<rparr>"

definition insert_event_of_interest ::
  "string \<Rightarrow> int \<Rightarrow> create_event_of_interest \<Rightarrow> event_of_interest list \<Rightarrow> (storage_error + event_of_interest) \<times> event_of_interest list" where
  "insert_event_of_interest i now c rows = (case table_insert eoi_id (new_event i now c) rows of
      None \<Rightarrow> (Inl (DuckDb ''Constraint Error''), rows)
    | Some rows \<Rightarrow> (Inr (new_event i now c), rows))"

definition event_matches :: "event_of_interest_query \<Rightarrow> event_of_interest \<Rightarrow> bool" where
  "event_matches q e \<longleftrightarrow>
     (case eq_start_ms q of None \<Rightarrow> True | Some s \<Rightarrow> s \<le> eoi_timestamp_ms e)
   \<and> (case eq_end_ms q of None \<Rightarrow> True | Some t \<Rightarrow> eoi_timestamp_ms e \<le> t)
   \<and> (case eq_source q of None \<Rightarrow> True | Some s \<Rightarrow> eoi_source e = s)
   \<and> (case eq_category q of None \<Rightarrow> True | Some c \<Rightarrow> eoi_category e = Some c)"

definition query_events_of_interest :: "event_of_interest_query \<Rightarrow> event_of_interest list \<Rightarrow> event_of_interest list" where
  "query_events_of_interest q rows =
     take (case eq_limit q of None \<Rightarrow> 500 | Some n \<Rightarrow> n) (order_desc eoi_created_at_ms (filter (event_matches q) rows))"

definition event_not_found :: "string \<Rightarrow> storage_error" where
  "event_not_found i = Query_Error (''Event not found: '' @ i)"

definition get_event_of_interest :: "string \<Rightarrow> event_of_interest list \<Rightarrow> storage_error + event_of_interest" where
  "get_event_of_interest i rows = (case List.find (\<lambda>e. eoi_id e = i) rows of
      None \<Rightarrow> Inl (event_not_found i) | Some e \<Rightarrow> Inr e)"

definition edit_event :: "int \<Rightarrow> update_event_of_interest \<Rightarrow> event_of_interest \<Rightarrow> event_of_interest" where
  "edit_event now u e = (let c = ue_fields u in e\<lparr>eoi_title := ce_title c, eoi_description := ce_description c,
     eoi_timestamp_ms := ce_timestamp_ms c, eoi_end_timestamp_ms := ce_end_timestamp_ms c,
     eoi_latitude := ce_latitude c, eoi_longitude := ce_longitude c,
     eoi_bbox_north := ce_bbox_north c, eoi_bbox_south := ce_bbox_south c,
     eoi_bbox_east := ce_bbox_east c, eoi_bbox_west := ce_bbox_west c,
     eoi_source := or_user (ce_source c), eoi_category := ce_category c, eoi_metadata := ce_metadata c,
     eoi_linked_hex_idents := ce_linked_hex_idents c, eoi_updated_at_ms := now\<rparr>)"

definition update_event_of_interest ::
  "int \<Rightarrow> update_event_of_interest \<Rightarrow> event_of_interest list \<Rightarrow> (storage_error + event_of_interest) \<times> event_of_interest list" where
  "update_event_of_interest now u rows =
     (let (affected, rows) = table_update (\<lambda>e. eoi_id e = ue_id u) (edit_event now u) rows
      in if affected = 0 then (Inl (event_not_found (ue_id u)), rows)
         else (get_event_of_interest (ue_id u) rows, rows))"

definition delete_event_of_interest :: "string \<Rightarrow> event_of_interest list \<Rightarrow> (storage_error + unit) \<times> event_of_interest list" where
  "delete_event_of_interest i rows =
     (let (affected, rows) = table_delete (\<lambda>e. eoi_id e = i) rows
      in if affected = 0 then (Inl (event_not_found i), rows) else (Inr (), rows))"

definition event_view :: "event_of_interest list \<Rightarrow> string \<Rightarrow> event_of_interest option" where
  "event_view rows i = List.find (\<lambda>e. eoi_id e = i) rows"

lemma new_event_id [simp]: "eoi_id (new_event i now c) = i"
  by (simp add: new_event_def)

lemma edit_event_id [simp]: "eoi_id (edit_event now u e) = eoi_id e"
  by (simp add: edit_event_def Let_def)

lemmas event_op_defs = insert_event_of_interest_def update_event_of_interest_def delete_event_of_interest_def
  table_insert_def table_update_def table_delete_def get_event_of_interest_def event_view_def Let_def

interpretation events: crud event_view insert_event_of_interest update_event_of_interest delete_event_of_interest
    new_event ue_id edit_event event_not_found "DuckDb ''Constraint Error''" "\<lambda>_. True"
proof
  fix s r s' i now and c :: create_event_of_interest
  assume "event_view s i = None" "insert_event_of_interest i now c s = (r, s')"
  then show "r = Inr (new_event i now c) \<and> event_view s' = (event_view s)(i \<mapsto> new_event i now c) \<and> True"
    using find_key_None [of eoi_id i s]
    by (auto simp: event_op_defs list_ex_iff fun_eq_iff find_key_append split: if_splits option.splits)
next
  fix s i now and c :: create_event_of_interest
  assume "event_view s i \<noteq> None"
  then show "insert_event_of_interest i now c s = (Inl (DuckDb ''Constraint Error''), s)"
    using find_key_None [of eoi_id i s] by (auto simp: event_op_defs list_ex_iff)
next
  fix s x now r s' and u :: update_event_of_interest
  assume there: "event_view s (ue_id u) = Some x" and "update_event_of_interest now u s = (r, s')"
  moreover have "length (filter (\<lambda>e. eoi_id e = ue_id u) s) \<noteq> 0"
    using there no_key_affected [of eoi_id "ue_id u" s] by (simp add: event_view_def)
  ultimately show "r = Inr (edit_event now u x) \<and> event_view s' = (event_view s)(ue_id u \<mapsto> edit_event now u x) \<and> True"
    by (auto simp: event_op_defs fun_eq_iff find_key_update [of eoi_id] option.map_ident)
next
  fix s now and u :: update_event_of_interest
  assume "event_view s (ue_id u) = None"
  then have none: "length (filter (\<lambda>e. eoi_id e = ue_id u) s) = 0"
    by (simp only: no_key_affected [of eoi_id] event_view_def)
  show "update_event_of_interest now u s = (Inl (event_not_found (ue_id u)), s)"
    using none update_nothing [OF none] by (simp add: update_event_of_interest_def table_update_def)
next
  fix s i r s'
  assume there: "event_view s i \<noteq> None" and "delete_event_of_interest i s = (r, s')"
  moreover have "length (filter (\<lambda>e. eoi_id e = i) s) \<noteq> 0"
    using there no_key_affected [of eoi_id i s] by (simp add: event_view_def)
  ultimately show "r = Inr () \<and> event_view s' = (event_view s)(i := None) \<and> True"
    by (auto simp: event_op_defs fun_eq_iff find_key_delete)
next
  fix s i
  assume "event_view s i = None"
  then have none: "length (filter (\<lambda>e. eoi_id e = i) s) = 0"
    by (simp only: no_key_affected [of eoi_id] event_view_def)
  show "delete_event_of_interest i s = (Inl (event_not_found i), s)"
    using none delete_nothing [OF none] by (simp add: delete_event_of_interest_def table_delete_def)
qed

text \<open>The events of interest are a map from ids to events: whatever is created, edited and deleted, in
  whatever order, every operation answers, errors included, as the same operation on a finite map,
  and looking up the table afterwards is looking up that map.\<close>

theorem events_of_interest_refine_map:
  assumes "run_ops (crud_step insert_event_of_interest update_event_of_interest delete_event_of_interest) ops rows = (rs, rows')"
  shows "run_ops (map_step new_event ue_id edit_event event_not_found (DuckDb ''Constraint Error'')) ops (event_view rows)
      = (rs, event_view rows')"
  using events.runs_refine [OF TrueI assms] by simp

definition sample_event :: create_event_of_interest where
  "sample_event = \<lparr>ce_title = ''go-around'', ce_description = [], ce_timestamp_ms = 5, ce_end_timestamp_ms = None,
     ce_latitude = None, ce_longitude = None, ce_bbox_north = None, ce_bbox_south = None, ce_bbox_east = None,
     ce_bbox_west = None, ce_source = None, ce_category = None, ce_metadata = None, ce_linked_hex_idents = None\<rparr>"

theorem events_of_interest_refine_map_witness:
  "fst (run_ops (map_step new_event ue_id edit_event event_not_found (DuckDb ''Constraint Error''))
     [Create ''a'' 1 sample_event, Create ''a'' 2 sample_event,
      Update 3 \<lparr>ue_id = ''b'', ue_fields = sample_event\<rparr>, Delete ''a''] (event_view []))
   = [Row (Inr (new_event ''a'' 1 sample_event)), Row (Inl (DuckDb ''Constraint Error'')),
      Row (Inl (event_not_found ''b'')), Done (Inr ())]"
  by (subst events_of_interest_refine_map
      [where rows' = "[]" and rs = "[Row (Inr (new_event ''a'' 1 sample_event)), Row (Inl (DuckDb ''Constraint Error'')),
         Row (Inl (event_not_found ''b'')), Done (Inr ())]"])
     (simp_all add: event_op_defs)

end
