(* ===== verification/Scenarios.thy ===== *)
theory Scenarios imports Keyed_Table "HOL-Library.Char_ord" "HOL-Library.List_Lexorder" begin

text \<open>
  The scenario tables of \<open>adsb-data-engine/src/storage.rs\<close>: a scenario is a named list of tracks, kept in
  order by an ordinal per track. The two tables are lists of rows; generated ids and clock readings
  are arguments. \<open>ordinal\<close> is a 32-bit column fed with 64-bit values, so that a statement that would
  leave its range is a database error.
\<close>

subsection \<open>The rows\<close>

record scenario =
  sc_id :: string
  sc_name :: string
  sc_description :: string
  sc_origin_lat :: "f64 option"
  sc_origin_lng :: "f64 option"
  sc_tags :: "string option"
  sc_created_at_ms :: int
  sc_updated_at_ms :: int
  sc_track_count :: nat \<comment> \<open>not a column: counted by the queries, 0 in the table\<close>

record scenario_track =
  tk_id :: string
  tk_scenario_id :: string
  tk_ordinal :: int
  tk_hex_ident :: string
  tk_callsign :: string
  tk_category :: string
  tk_start_offset_s :: f64
  tk_waypoints_json :: string
  tk_request_json :: "string option"
  tk_created_at_ms :: int
  tk_updated_at_ms :: int

record create_scenario =
  cs_name :: string
  cs_description :: "string option"
  cs_origin_lat :: "f64 option"
  cs_origin_lng :: "f64 option"
  cs_tags :: "string option"

record update_scenario =
  us_id :: string
  us_name :: string
  us_description :: "string option"
  us_origin_lat :: "f64 option"
  us_origin_lng :: "f64 option"
  us_tags :: "string option"

record create_scenario_track =
  ct_scenario_id :: string
  ct_hex_ident :: string
  ct_callsign :: string
  ct_category :: string
  ct_start_offset_s :: "f64 option"
  ct_waypoints_json :: string
  ct_request_json :: "string option"

record update_scenario_track =
  ut_id :: string
  ut_callsign :: "string option"
  ut_start_offset_s :: "f64 option"
  ut_ordinal :: "int option"

record scenario_store =
  ss_scenarios :: "scenario list"
  ss_tracks :: "scenario_track list"

abbreviation I32_MAX :: int where "I32_MAX \<equiv> 2 ^ 31 - 1"
abbreviation I32_MIN :: int where "I32_MIN \<equiv> - (2 ^ 31)"

definition fits_i32 :: "int \<Rightarrow> bool" where
  "fits_i32 n \<longleftrightarrow> I32_MIN \<le> n \<and> n \<le> I32_MAX"

definition coalesce :: "'a option \<Rightarrow> 'a \<Rightarrow> 'a" where
  "coalesce x y = (case x of None \<Rightarrow> y | Some v \<Rightarrow> v)"

subsection \<open>Queries\<close>

definition tracks_of :: "string \<Rightarrow> scenario_store \<Rightarrow> scenario_track list" where
  "tracks_of sid st = filter (\<lambda>t. tk_scenario_id t = sid) (ss_tracks st)"

definition list_scenarios :: "scenario_store \<Rightarrow> scenario list" where
  "list_scenarios st = map (\<lambda>s. s\<lparr>sc_track_count := length (tracks_of (sc_id s) st)\<rparr>)
     (order_desc sc_updated_at_ms (sort_key sc_name (ss_scenarios st)))"

definition scenario_not_found :: "string \<Rightarrow> storage_error" where
  "scenario_not_found i = Query_Error (''Scenario not found: '' @ i)"

definition track_not_found :: "string \<Rightarrow> storage_error" where
  "track_not_found i = Query_Error (''Track not found: '' @ i)"

definition get_scenario :: "string \<Rightarrow> scenario_store \<Rightarrow> storage_error + scenario \<times> scenario_track list" where
  "get_scenario i st = (case List.find (\<lambda>s. sc_id s = i) (ss_scenarios st) of
      None \<Rightarrow> Inl (scenario_not_found i)
    | Some s \<Rightarrow> Inr (s\<lparr>sc_track_count := length (tracks_of i st)\<rparr>, sort_key tk_ordinal (tracks_of i st)))"

subsection \<open>Scenarios\<close>

definition new_scenario :: "string \<Rightarrow> int \<Rightarrow> create_scenario \<Rightarrow> scenario" where
  "new_scenario i now c = \<lparr>sc_id = i, sc_name = cs_name c, sc_description = coalesce (cs_description c) [],
     sc_origin_lat = cs_origin_lat c, sc_origin_lng = cs_origin_lng c, sc_tags = cs_tags c,
     sc_created_at_ms = now, sc_updated_at_ms = now, sc_track_count = 0\<rparr>"

definition insert_scenario ::
  "string \<Rightarrow> int \<Rightarrow> create_scenario \<Rightarrow> scenario_store \<Rightarrow> (storage_error + scenario) \<times> scenario_store" where
  "insert_scenario i now c st = (case table_insert sc_id (new_scenario i now c) (ss_scenarios st) of
      None \<Rightarrow> (Inl (DuckDb ''Constraint Error''), st)
    | Some rows \<Rightarrow> (Inr (new_scenario i now c), st\<lparr>ss_scenarios := rows\<rparr>))"

definition edit_scenario :: "int \<Rightarrow> update_scenario \<Rightarrow> scenario \<Rightarrow> scenario" where
  "edit_scenario now u s = s\<lparr>sc_name := us_name u, sc_description := coalesce (us_description u) (sc_description s),
     sc_origin_lat := opt_or (us_origin_lat u) (sc_origin_lat s), sc_origin_lng := opt_or (us_origin_lng u) (sc_origin_lng s),
     sc_tags := opt_or (us_tags u) (sc_tags s), sc_updated_at_ms := now\<rparr>"

definition update_scenario :: "int \<Rightarrow> update_scenario \<Rightarrow> scenario_store \<Rightarrow> (storage_error + scenario) \<times> scenario_store" where
  "update_scenario now u st =
     (let (affected, rows) = table_update (\<lambda>s. sc_id s = us_id u) (edit_scenario now u) (ss_scenarios st);
          st = st\<lparr>ss_scenarios := rows\<rparr>
      in if affected = 0 then (Inl (scenario_not_found (us_id u)), st)
         else (map_sum id fst (get_scenario (us_id u) st), st))"

text \<open>One transaction: when no scenario is deleted, its statements are rolled back.\<close>

definition delete_scenario :: "string \<Rightarrow> scenario_store \<Rightarrow> (storage_error + unit) \<times> scenario_store" where
  "delete_scenario i st =
     (let tracks = snd (table_delete (\<lambda>t. tk_scenario_id t = i) (ss_tracks st));
          (affected, rows) = table_delete (\<lambda>s. sc_id s = i) (ss_scenarios st)
      in if affected = 0 then (Inl (scenario_not_found i), st)
         else (Inr (), st\<lparr>ss_scenarios := rows, ss_tracks := tracks\<rparr>))"

definition touch_scenario :: "string \<Rightarrow> int \<Rightarrow> scenario_store \<Rightarrow> scenario_store" where
  "touch_scenario i now st = st\<lparr>ss_scenarios :=
     snd (table_update (\<lambda>s. sc_id s = i) (\<lambda>s. s\<lparr>sc_updated_at_ms := now\<rparr>) (ss_scenarios st))\<rparr>"

subsection \<open>Tracks\<close>

text \<open>\<open>COALESCE(MAX(ordinal) + 1, 0)\<close>; the sum overflows the column type at its greatest value.\<close>

definition next_ordinal :: "string \<Rightarrow> scenario_store \<Rightarrow> storage_error + int" where
  "next_ordinal sid st = (case map tk_ordinal (tracks_of sid st) of
      [] \<Rightarrow> Inr 0
    | os \<Rightarrow> if fits_i32 (Max (set os) + 1) then Inr (Max (set os) + 1) else Inl (DuckDb ''Out of Range Error''))"

definition new_track :: "string \<Rightarrow> int \<Rightarrow> int \<Rightarrow> create_scenario_track \<Rightarrow> scenario_track" where
  "new_track i now ordinal c = \<lparr>tk_id = i, tk_scenario_id = ct_scenario_id c, tk_ordinal = ordinal,
     tk_hex_ident = ct_hex_ident c, tk_callsign = ct_callsign c, tk_category = ct_category c,
     tk_start_offset_s = coalesce (ct_start_offset_s c) (F_fin 0), tk_waypoints_json = ct_waypoints_json c,
     tk_request_json = ct_request_json c, tk_created_at_ms = now, tk_updated_at_ms = now\<rparr>"

definition insert_scenario_track ::
  "string \<Rightarrow> int \<Rightarrow> create_scenario_track \<Rightarrow> scenario_store \<Rightarrow> (storage_error + scenario_track) \<times> scenario_store" where
  "insert_scenario_track i now c st = (case next_ordinal (ct_scenario_id c) st of
      Inl e \<Rightarrow> (Inl e, st)
    | Inr ordinal \<Rightarrow>
       (case table_insert tk_id (new_track i now ordinal c) (ss_tracks st) of
          None \<Rightarrow> (Inl (DuckDb ''Constraint Error''), st)
        | Some rows \<Rightarrow> (Inr (new_track i now ordinal c), touch_scenario (ct_scenario_id c) now (st\<lparr>ss_tracks := rows\<rparr>))))"

definition edit_track :: "int \<Rightarrow> update_scenario_track \<Rightarrow> scenario_track \<Rightarrow> scenario_track" where
  "edit_track now u t = t\<lparr>tk_callsign := coalesce (ut_callsign u) (tk_callsign t),
     tk_start_offset_s := coalesce (ut_start_offset_s u) (tk_start_offset_s t),
     tk_ordinal := coalesce (ut_ordinal u) (tk_ordinal t), tk_updated_at_ms := now\<rparr>"

definition update_scenario_track ::
  "int \<Rightarrow> update_scenario_track \<Rightarrow> scenario_store \<Rightarrow> (storage_error + scenario_track) \<times> scenario_store" where
  "update_scenario_track now u st =
     (case List.find (\<lambda>t. tk_id t = ut_id u) (ss_tracks st) of
        None \<Rightarrow> (Inl (track_not_found (ut_id u)), st)
      | Some t \<Rightarrow>
          if \<not> fits_i32 (coalesce (ut_ordinal u) 0) then (Inl (DuckDb ''Conversion Error''), st)
          else (Inr (edit_track now u t),
                touch_scenario (tk_scenario_id t) now (st\<lparr>ss_tracks :=
                  snd (table_update (\<lambda>t. tk_id t = ut_id u) (edit_track now u) (ss_tracks st))\<rparr>)))"

definition delete_scenario_track :: "string \<Rightarrow> int \<Rightarrow> scenario_store \<Rightarrow> (storage_error + unit) \<times> scenario_store" where
  "delete_scenario_track i now st = (case List.find (\<lambda>t. tk_id t = i) (ss_tracks st) of
      None \<Rightarrow> (Inl (track_not_found i), st)
    | Some t \<Rightarrow> (Inr (), touch_scenario (tk_scenario_id t) now
        (st\<lparr>ss_tracks := snd (table_delete (\<lambda>t. tk_id t = i) (ss_tracks st))\<rparr>)))"

text \<open>One statement per id, not in a transaction: those before a failing one stay.\<close>

fun renumber :: "int \<Rightarrow> string \<Rightarrow> int \<Rightarrow> string list \<Rightarrow> scenario_track list \<Rightarrow> bool \<times> scenario_track list" where
  "renumber now sid n [] rows = (True, rows)"
| "renumber now sid n (i # is) rows =
     (let hit = (\<lambda>t. tk_id t = i \<and> tk_scenario_id t = sid)
      in if list_ex hit rows \<and> \<not> fits_i32 n then (False, rows)
         else renumber now sid (n + 1) is
           (snd (table_update hit (\<lambda>t. t\<lparr>tk_ordinal := n, tk_updated_at_ms := now\<rparr>) rows)))"

definition reorder_scenario_tracks ::
  "int \<Rightarrow> string \<Rightarrow> string list \<Rightarrow> scenario_store \<Rightarrow> (storage_error + unit) \<times> scenario_store" where
  "reorder_scenario_tracks now sid ids st =
     (let (ok, rows) = renumber now sid 0 ids (ss_tracks st); st = st\<lparr>ss_tracks := rows\<rparr>
      in if ok then (Inr (), touch_scenario sid now st) else (Inl (DuckDb ''Conversion Error''), st))"


subsection \<open>Scenarios are a map\<close>

text \<open>Every track belongs to a scenario.\<close>

definition no_orphans :: "scenario_store \<Rightarrow> bool" where
  "no_orphans st \<longleftrightarrow> tk_scenario_id ` set (ss_tracks st) \<subseteq> sc_id ` set (ss_scenarios st)"

definition scenario_view :: "scenario_store \<Rightarrow> string \<Rightarrow> scenario option" where
  "scenario_view st i = map_option (\<lambda>s. s\<lparr>sc_track_count := length (tracks_of i st)\<rparr>)
     (List.find (\<lambda>s. sc_id s = i) (ss_scenarios st))"

lemma scenario_ids [simp]: "sc_id (new_scenario i now c) = i" "sc_id (edit_scenario now u s) = sc_id s"
  by (simp_all add: new_scenario_def edit_scenario_def)

lemma edit_scenario_count: "edit_scenario now u (s\<lparr>sc_track_count := n\<rparr>) = (edit_scenario now u s)\<lparr>sc_track_count := n\<rparr>"
  by (simp add: edit_scenario_def)

lemma scenario_view_None: "scenario_view st i = None \<longleftrightarrow> i \<notin> sc_id ` set (ss_scenarios st)"
  using find_key_None [of sc_id i "ss_scenarios st"] by (simp add: scenario_view_def)

lemma orphan_free: "no_orphans st \<Longrightarrow> i \<notin> sc_id ` set (ss_scenarios st) \<Longrightarrow> tracks_of i st = []"
  by (auto simp: no_orphans_def tracks_of_def filter_empty_conv)

lemma affected_none: "length (filter (\<lambda>s. key s = i) rows) = 0 \<longleftrightarrow> i \<notin> key ` set rows"
  by (auto simp: filter_empty_conv)

interpretation scenarios: crud scenario_view insert_scenario update_scenario delete_scenario
    new_scenario us_id edit_scenario scenario_not_found "DuckDb ''Constraint Error''" no_orphans
proof
  fix s r s' i now and c :: create_scenario
  assume s: "no_orphans s" "scenario_view s i = None" "insert_scenario i now c s = (r, s')"
  then have new: "i \<notin> sc_id ` set (ss_scenarios s)" by (simp add: scenario_view_None)
  then have "table_insert sc_id (new_scenario i now c) (ss_scenarios s) = Some (ss_scenarios s @ [new_scenario i now c])"
    by (auto simp: table_insert_def list_ex_iff)
  with s(3) have r: "r = Inr (new_scenario i now c)" "s' = s\<lparr>ss_scenarios := ss_scenarios s @ [new_scenario i now c]\<rparr>"
    by (auto simp: insert_scenario_def)
  moreover have "(new_scenario i now c)\<lparr>sc_track_count := 0\<rparr> = new_scenario i now c" by (simp add: new_scenario_def)
  moreover have "tracks_of j s' = tracks_of j s" for j using r by (simp add: tracks_of_def)
  ultimately show "r = Inr (new_scenario i now c) \<and> scenario_view s' = (scenario_view s)(i \<mapsto> new_scenario i now c) \<and> no_orphans s'"
    using s(1) new orphan_free [OF s(1) new] find_key_None [of sc_id i "ss_scenarios s"]
    by (auto simp: fun_eq_iff scenario_view_def find_key_append no_orphans_def split: option.splits)
next
  fix s i now and c :: create_scenario
  assume "scenario_view s i \<noteq> None"
  then show "insert_scenario i now c s = (Inl (DuckDb ''Constraint Error''), s)"
    using scenario_view_None [of s i] by (auto simp: insert_scenario_def table_insert_def list_ex_iff)
next
  fix s x now r s' and u :: update_scenario
  assume s: "no_orphans s" "scenario_view s (us_id u) = Some x" "update_scenario now u s = (r, s')"
  then have "us_id u \<in> sc_id ` set (ss_scenarios s)" using scenario_view_None [of s "us_id u"] by auto
  with s(3) affected_none [of sc_id "us_id u" "ss_scenarios s"]
  have s': "s' = s\<lparr>ss_scenarios := map (\<lambda>q. if sc_id q = us_id u then edit_scenario now u q else q) (ss_scenarios s)\<rparr>"
    and r: "r = map_sum id fst (get_scenario (us_id u) s')"
    by (auto simp: update_scenario_def table_update_def Let_def split: if_splits)
  have "tracks_of j s' = tracks_of j s" for j by (simp add: s' tracks_of_def)
  then have view: "scenario_view s' = (scenario_view s)(us_id u \<mapsto> edit_scenario now u x)"
    using s(2) find_key_update [of sc_id "edit_scenario now u" _ "us_id u" "ss_scenarios s"]
    by (auto simp: fun_eq_iff s' scenario_view_def edit_scenario_count option.map_comp comp_def)
  then have "scenario_view s' (us_id u) = Some (edit_scenario now u x)" by simp
  then have "r = Inr (edit_scenario now u x)" by (auto simp: r get_scenario_def scenario_view_def)
  moreover have "sc_id ` set (ss_scenarios s') = sc_id ` set (ss_scenarios s)"
  proof -
    have "map sc_id (ss_scenarios s') = map sc_id (ss_scenarios s)" by (simp add: s')
    then show ?thesis by (metis list.set_map)
  qed
  moreover have "ss_tracks s' = ss_tracks s" by (simp add: s')
  ultimately show "r = Inr (edit_scenario now u x) \<and> scenario_view s' = (scenario_view s)(us_id u \<mapsto> edit_scenario now u x) \<and> no_orphans s'"
    using view s(1) by (simp add: no_orphans_def)
next
  fix s now and u :: update_scenario
  assume "scenario_view s (us_id u) = None"
  then have none: "length (filter (\<lambda>q. sc_id q = us_id u) (ss_scenarios s)) = 0"
    by (simp only: scenario_view_None affected_none not_False_eq_True)
  show "update_scenario now u s = (Inl (scenario_not_found (us_id u)), s)"
    using none update_nothing [OF none] by (simp add: update_scenario_def table_update_def)
next
  fix s i r s'
  assume s: "no_orphans s" "scenario_view s i \<noteq> None" "delete_scenario i s = (r, s')"
  then have "length (filter (\<lambda>q. sc_id q = i) (ss_scenarios s)) \<noteq> 0"
    using scenario_view_None [of s i] affected_none [of sc_id i "ss_scenarios s"] by auto
  with s(3) have s': "r = Inr ()" "ss_scenarios s' = filter (\<lambda>q. sc_id q \<noteq> i) (ss_scenarios s)"
    "ss_tracks s' = filter (\<lambda>t. tk_scenario_id t \<noteq> i) (ss_tracks s)"
    by (auto simp: delete_scenario_def table_delete_def Let_def)
  have "tracks_of j s' = tracks_of j s" if "j \<noteq> i" for j
    using that by (auto simp: tracks_of_def s' intro!: filter_cong)
  with s(1) s' show "r = Inr () \<and> scenario_view s' = (scenario_view s)(i := None) \<and> no_orphans s'"
    by (auto simp: fun_eq_iff scenario_view_def find_key_delete no_orphans_def image_iff)
next
  fix s i
  assume "scenario_view s i = None"
  then have none: "length (filter (\<lambda>q. sc_id q = i) (ss_scenarios s)) = 0"
    by (simp only: scenario_view_None affected_none not_False_eq_True)
  then show "delete_scenario i s = (Inl (scenario_not_found i), s)"
    by (simp add: delete_scenario_def table_delete_def)
qed


text \<open>C27: Scenarios are a map from ids to scenarios. In a store without orphan tracks, whatever scenarios
  are created, edited and deleted, every operation answers, errors included, as on a finite map in
  which an edit keeps the fields it leaves out and the count of tracks; looking up the store
  afterwards is looking up that map; and no deletion leaves a track behind.\<close>

theorem scenarios_refine_map:
  assumes "no_orphans st"
    and "run_ops (crud_step insert_scenario update_scenario delete_scenario) ops st = (rs, st')"
  shows "run_ops (map_step new_scenario us_id edit_scenario scenario_not_found (DuckDb ''Constraint Error'')) ops (scenario_view st)
      = (rs, scenario_view st') \<and> no_orphans st'"
  using scenarios.runs_refine [OF assms] .

definition sample_scenario :: create_scenario where
  "sample_scenario = \<lparr>cs_name = ''rush'', cs_description = None, cs_origin_lat = Some (F_fin 46),
     cs_origin_lng = None, cs_tags = Some ''a,b''\<rparr>"

definition rename :: "string \<Rightarrow> string \<Rightarrow> update_scenario" where
  "rename i name = \<lparr>us_id = i, us_name = name, us_description = None, us_origin_lat = None,
     us_origin_lng = None, us_tags = None\<rparr>"

theorem scenarios_refine_map_witness:
  "fst (run_ops (map_step new_scenario us_id edit_scenario scenario_not_found (DuckDb ''Constraint Error''))
      [Create ''s'' 1 sample_scenario, Update 2 (rename ''s'' ''new''), Update 3 (rename ''t'' ''x''), Delete ''s'']
      (scenario_view \<lparr>ss_scenarios = [], ss_tracks = []\<rparr>))
   = [Row (Inr (new_scenario ''s'' 1 sample_scenario)),
      Row (Inr ((new_scenario ''s'' 1 sample_scenario)\<lparr>sc_name := ''new'', sc_updated_at_ms := 2\<rparr>)),
      Row (Inl (scenario_not_found ''t'')), Done (Inr ())]"
proof -
  have "run_ops (crud_step insert_scenario update_scenario delete_scenario)
      [Create ''s'' 1 sample_scenario, Update 2 (rename ''s'' ''new''), Update 3 (rename ''t'' ''x''), Delete ''s'']
      \<lparr>ss_scenarios = [], ss_tracks = []\<rparr>
    = ([Row (Inr (new_scenario ''s'' 1 sample_scenario)),
      Row (Inr ((new_scenario ''s'' 1 sample_scenario)\<lparr>sc_name := ''new'', sc_updated_at_ms := 2\<rparr>)),
      Row (Inl (scenario_not_found ''t'')), Done (Inr ())], \<lparr>ss_scenarios = [], ss_tracks = []\<rparr>)"
    by (simp add: insert_scenario_def update_scenario_def delete_scenario_def table_insert_def table_update_def
        table_delete_def new_scenario_def edit_scenario_def rename_def sample_scenario_def get_scenario_def
        tracks_of_def coalesce_def Let_def)
  from scenarios_refine_map [OF _ this] show ?thesis by (simp add: no_orphans_def)
qed

subsection \<open>The order of the tracks\<close>

datatype track_op =
    Add_Track string int create_scenario_track
  | Drop_Track string int
  | Reorder_Tracks int string "string list"

fun track_step :: "track_op \<Rightarrow> scenario_store \<Rightarrow> (storage_error + unit) \<times> scenario_store" where
  "track_step (Add_Track i now c) st = map_prod (map_sum id (\<lambda>_. ())) id (insert_scenario_track i now c st)"
| "track_step (Drop_Track i now) st = delete_scenario_track i now st"
| "track_step (Reorder_Tracks now sid ids) st = reorder_scenario_tracks now sid ids st"

text \<open>The specification: each scenario has a list of track ids.\<close>

fun list_step :: "track_op \<Rightarrow> (string \<Rightarrow> string list) \<Rightarrow> (string \<Rightarrow> string list)" where
  "list_step (Add_Track i now c) l = l(ct_scenario_id c := l (ct_scenario_id c) @ [i])"
| "list_step (Drop_Track i now) l = (\<lambda>sid. filter (\<lambda>j. j \<noteq> i) (l sid))"
| "list_step (Reorder_Tracks now sid ids) l = l(sid := ids)"

text \<open>Ids are fresh, a track that is dropped is there, and a new order is one of the same tracks.\<close>

fun sensible :: "track_op \<Rightarrow> (string \<Rightarrow> string list) \<Rightarrow> bool" where
  "sensible (Add_Track i now c) l \<longleftrightarrow> (\<forall>sid. i \<notin> set (l sid))"
| "sensible (Drop_Track i now) l \<longleftrightarrow> (\<exists>sid. i \<in> set (l sid))"
| "sensible (Reorder_Tracks now sid ids) l \<longleftrightarrow> mset ids = mset (l sid)"

fun all_sensible :: "track_op list \<Rightarrow> (string \<Rightarrow> string list) \<Rightarrow> bool" where
  "all_sensible [] l \<longleftrightarrow> True"
| "all_sensible (e # es) l \<longleftrightarrow> sensible e l \<and> all_sensible es (list_step e l)"

definition track_ids :: "scenario_store \<Rightarrow> string \<Rightarrow> string list" where
  "track_ids st sid = map tk_id (sort_key tk_ordinal (tracks_of sid st))"

text \<open>Ids are unique, and the ordinals of a scenario are distinct and below the number of operations.\<close>

definition ordered :: "int \<Rightarrow> scenario_store \<Rightarrow> bool" where
  "ordered n st \<longleftrightarrow> 0 \<le> n \<and> distinct (map tk_id (ss_tracks st))
     \<and> (\<forall>sid. distinct (map tk_ordinal (tracks_of sid st)))
     \<and> (\<forall>t \<in> set (ss_tracks st). 0 \<le> tk_ordinal t \<and> tk_ordinal t < n)"

lemma tracks_touch [simp]: "ss_tracks (touch_scenario i now st) = ss_tracks st"
  by (simp add: touch_scenario_def)

lemma tracks_of_cong: "ss_tracks st = ss_tracks st' \<Longrightarrow> tracks_of sid st = tracks_of sid st'"
  by (simp add: tracks_of_def)

lemma set_track_ids: "set (track_ids st sid) = tk_id ` set (tracks_of sid st)"
  by (simp add: track_ids_def)

lemma mset_track_ids: "mset (track_ids st sid) = mset (map tk_id (tracks_of sid st))"
  by (simp add: track_ids_def)

lemma add_track_step:
  assumes "ordered n st" and n: "n < 2 ^ 31" and fresh: "\<forall>sid. i \<notin> set (track_ids st sid)"
  shows "\<exists>t st'. insert_scenario_track i now c st = (Inr t, st') \<and> ordered (n + 1) st'
    \<and> track_ids st' = (track_ids st)(ct_scenario_id c := track_ids st (ct_scenario_id c) @ [i])"
proof -
  define sid where "sid = ct_scenario_id c"
  have new: "i \<notin> tk_id ` set (ss_tracks st)"
    using fresh by (auto simp: set_track_ids tracks_of_def)
  have range: "0 \<le> tk_ordinal t" "tk_ordinal t < n" if "t \<in> set (tracks_of g st)" for t g
    using assms(1) that by (auto simp: ordered_def tracks_of_def)
  obtain k where k: "next_ordinal sid st = Inr k" "0 \<le> k" "k < n + 1" "\<forall>t \<in> set (tracks_of sid st). tk_ordinal t < k"
  proof (cases "tracks_of sid st = []")
    case True
    then show ?thesis using that [of 0] assms(1) by (simp add: next_ordinal_def ordered_def)
  next
    case False
    let ?m = "Max (tk_ordinal ` set (tracks_of sid st))"
    have "?m \<in> tk_ordinal ` set (tracks_of sid st)" using False by (intro Max_in) auto
    then have m: "0 \<le> ?m" "?m < n" using range by auto
    have "next_ordinal sid st = (if fits_i32 (?m + 1) then Inr (?m + 1) else Inl (DuckDb ''Out of Range Error''))"
      using False by (cases "tracks_of sid st") (simp_all add: next_ordinal_def)
    with m n have "next_ordinal sid st = Inr (?m + 1)" by (simp add: fits_i32_def)
    moreover have "tk_ordinal t < ?m + 1" if "t \<in> set (tracks_of sid st)" for t
      using that Max_ge [of "tk_ordinal ` set (tracks_of sid st)" "tk_ordinal t"] by auto
    ultimately show ?thesis using that [of "?m + 1"] m by auto
  qed
  define t where "t = new_track i now k c"
  have t: "tk_id t = i" "tk_scenario_id t = sid" "tk_ordinal t = k" by (simp_all add: t_def new_track_def sid_def)
  define st' where "st' = touch_scenario sid now (st\<lparr>ss_tracks := ss_tracks st @ [t]\<rparr>)"
  have "table_insert tk_id t (ss_tracks st) = Some (ss_tracks st @ [t])"
  proof -
    have "tk_id q \<noteq> i" if "q \<in> set (ss_tracks st)" for q using new that by blast
    then show ?thesis by (simp add: table_insert_def list_ex_iff t)
  qed
  then have "insert_scenario_track i now c st = (Inr t, st')"
    using k(1) by (simp add: insert_scenario_track_def sid_def t_def st'_def)
  moreover have tracks: "tracks_of g st' = tracks_of g st @ (if g = sid then [t] else [])" for g
    using t by (auto simp: tracks_of_def st'_def)
  have "ordered (n + 1) st'"
  proof -
    have "ss_tracks st' = ss_tracks st @ [t]" by (simp add: st'_def)
    moreover have "k \<notin> tk_ordinal ` set (tracks_of sid st)" using k(4) by auto
    ultimately show ?thesis using assms(1) new t k(2,3) by (auto simp: ordered_def tracks)
  qed
  moreover have "track_ids st' g = (if g = sid then track_ids st g @ [i] else track_ids st g)" for g
    using k(4) t by (simp add: track_ids_def tracks sort_key_snoc less_imp_le)
  ultimately show ?thesis by (auto simp: fun_eq_iff sid_def)
qed

lemma drop_track_step:
  assumes "ordered n st" and "\<exists>sid. i \<in> set (track_ids st sid)"
  shows "\<exists>st'. delete_scenario_track i now st = (Inr (), st') \<and> ordered n st'
    \<and> track_ids st' = (\<lambda>sid. filter (\<lambda>j. j \<noteq> i) (track_ids st sid))"
proof -
  from assms(2) have "i \<in> tk_id ` set (ss_tracks st)" by (auto simp: set_track_ids tracks_of_def)
  then obtain t where t: "List.find (\<lambda>t. tk_id t = i) (ss_tracks st) = Some t"
    using find_key_None [of tk_id i "ss_tracks st"] by (cases "List.find (\<lambda>t. tk_id t = i) (ss_tracks st)") auto
  define st' where "st' = touch_scenario (tk_scenario_id t) now (st\<lparr>ss_tracks := filter (\<lambda>t. tk_id t \<noteq> i) (ss_tracks st)\<rparr>)"
  have "delete_scenario_track i now st = (Inr (), st')"
    using t by (simp add: delete_scenario_track_def table_delete_def st'_def)
  moreover have tracks: "tracks_of g st' = filter (\<lambda>t. tk_id t \<noteq> i) (tracks_of g st)" for g
    by (simp add: tracks_of_def st'_def conj_commute)
  moreover have "ss_tracks st' = filter (\<lambda>t. tk_id t \<noteq> i) (ss_tracks st)" by (simp add: st'_def)
  with assms(1) have "ordered n st'"
    by (auto simp: ordered_def tracks distinct_map_filter)
  moreover have "track_ids st' g = filter (\<lambda>j. j \<noteq> i) (track_ids st g)" for g
    by (simp add: track_ids_def tracks filter_map comp_def flip: filter_sort)
  ultimately show ?thesis by (auto simp: fun_eq_iff)
qed

text \<open>What renumbering does to a track: its ordinal becomes its place in the list of ids.\<close>

definition renumbered :: "int \<Rightarrow> string \<Rightarrow> int \<Rightarrow> string list \<Rightarrow> scenario_track \<Rightarrow> scenario_track" where
  "renumbered now sid n is t =
     (if tk_scenario_id t = sid
      then (case position (\<lambda>i. i = tk_id t) is of
              Some k \<Rightarrow> t\<lparr>tk_ordinal := n + int k, tk_updated_at_ms := now\<rparr> | None \<Rightarrow> t)
      else t)"

lemma renumbered_keys [simp]:
  "tk_id (renumbered now sid n is t) = tk_id t" "tk_scenario_id (renumbered now sid n is t) = tk_scenario_id t"
  by (simp_all add: renumbered_def split: option.split)

lemma renumber_ok:
  "distinct is \<Longrightarrow> 0 \<le> n \<Longrightarrow> n + int (length is) \<le> 2 ^ 31 \<Longrightarrow>
   renumber now sid n is rows = (True, map (renumbered now sid n is) rows)"
proof (induction "is" arbitrary: n rows)
  case Nil
  then show ?case by (simp add: renumbered_def option.case_eq_if map_idI)
next
  case (Cons i "is")
  let ?f = "\<lambda>t. if tk_id t = i \<and> tk_scenario_id t = sid then t\<lparr>tk_ordinal := n, tk_updated_at_ms := now\<rparr> else t"
  have "fits_i32 n" using Cons.prems by (simp add: fits_i32_def)
  moreover have "renumbered now sid (n + 1) is (?f t) = renumbered now sid n (i # is) t" for t
  proof (cases "tk_id t = i")
    case True
    with Cons.prems(1) have "position (\<lambda>j. j = tk_id t) is = None" by (auto simp: position_None)
    with True show ?thesis by (simp add: renumbered_def)
  next
    case False
    then show ?thesis by (auto simp: renumbered_def split: option.split)
  qed
  ultimately show ?case
    using Cons.IH [of "n + 1"] Cons.prems by (simp add: table_update_def comp_def)
qed

lemma sorted_map_int: "sorted (map int [0..<n])"
  by (induction n) (auto simp: sorted_append)

lemma sorted_by_place:
  assumes "distinct ids" and "mset (map f ts) = mset ids" and "distinct (map k ts)"
    and "\<forall>t \<in> set ts. \<exists>j < length ids. ids ! j = f t \<and> k t = int j"
  shows "map f (sort_key k ts) = ids"
proof -
  let ?s = "sort_key k ts"
  have len: "length ts = length ids" using arg_cong [OF assms(2), of size] by simp
  have "set (map k ?s) \<subseteq> set (map int [0..<length ids])" using assms(4) by force
  moreover have "card (set (map k ?s)) = length ids" using distinct_card [OF assms(3)] len by simp
  moreover have "card (set (map int [0..<length ids])) = length ids" by (simp add: card_image)
  ultimately have "set (map k ?s) = set (map int [0..<length ids])"
    by (intro card_subset_eq) simp_all
  moreover have "distinct (map k ?s)" using assms(3) by (simp add: distinct_map)
  ultimately have ks: "map k ?s = map int [0..<length ids]"
    by (intro sorted_distinct_set_unique) (simp_all add: distinct_map sorted_map_int)
  have "f t = ids ! nat (k t)" if "t \<in> set ?s" for t
  proof -
    from that assms(4) obtain j where "ids ! j = f t" "k t = int j" by auto
    then show ?thesis by simp
  qed
  then have "map f ?s = map (\<lambda>x. ids ! nat x) (map k ?s)" by simp
  also have "\<dots> = map (\<lambda>j. ids ! j) [0..<length ids]" unfolding ks by simp
  also have "\<dots> = ids" by (rule map_nth)
  finally show ?thesis .
qed


lemma reorder_step:
  assumes "ordered n st" and n: "n \<le> 2 ^ 31" and "mset ids = mset (track_ids st sid)"
    and len: "int (length ids) \<le> n"
  shows "\<exists>st'. reorder_scenario_tracks now sid ids st = (Inr (), st') \<and> ordered n st'
    \<and> track_ids st' = (track_ids st)(sid := ids)"
proof -
  have dist: "distinct (map tk_id (tracks_of sid st))"
    using assms(1) by (simp add: ordered_def tracks_of_def distinct_map_filter)
  have ids: "mset (map tk_id (tracks_of sid st)) = mset ids"
    using assms(3) by (simp add: mset_track_ids)
  with dist have "distinct ids" by (metis mset_eq_imp_distinct_iff)
  define st' where "st' = touch_scenario sid now (st\<lparr>ss_tracks := map (renumbered now sid 0 ids) (ss_tracks st)\<rparr>)"
  have run: "reorder_scenario_tracks now sid ids st = (Inr (), st')"
    using renumber_ok [OF \<open>distinct ids\<close>, of 0 now sid "ss_tracks st"] len n
    by (simp add: reorder_scenario_tracks_def st'_def)
  have tracks: "tracks_of g st' = map (renumbered now sid 0 ids) (tracks_of g st)" for g
    by (simp add: tracks_of_def st'_def filter_map comp_def)
  have other: "tracks_of g st' = tracks_of g st" if "g \<noteq> sid" for g
    unfolding tracks using that by (intro map_idI) (auto simp: tracks_of_def renumbered_def)
  have place: "\<exists>j < length ids. ids ! j = tk_id t \<and> tk_ordinal (renumbered now sid 0 ids t) = int j"
    if t: "t \<in> set (tracks_of sid st)" for t
  proof -
    have "tk_id t \<in> set ids" using t ids by (metis image_eqI list.set_map mset_eq_setD)
    then obtain k where k: "position (\<lambda>i. i = tk_id t) ids = Some k"
      using position_None [of "\<lambda>i. i = tk_id t" ids] by (cases "position (\<lambda>i. i = tk_id t) ids") auto
    from position_Some [OF k] t show ?thesis
      by (intro exI [of _ k]) (auto simp: renumbered_def k tracks_of_def)
  qed
  have inj: "distinct (map (\<lambda>t. tk_ordinal (renumbered now sid 0 ids t)) (tracks_of sid st))"
    unfolding distinct_map
  proof
    show "distinct (tracks_of sid st)" using dist by (simp add: distinct_map)
    show "inj_on (\<lambda>t. tk_ordinal (renumbered now sid 0 ids t)) (set (tracks_of sid st))"
    proof (rule inj_onI)
      fix t u
      assume tu: "t \<in> set (tracks_of sid st)" "u \<in> set (tracks_of sid st)"
        "tk_ordinal (renumbered now sid 0 ids t) = tk_ordinal (renumbered now sid 0 ids u)"
      from place [OF tu(1)] place [OF tu(2)] tu(3) have "tk_id t = tk_id u" by auto
      with dist tu(1,2) show "t = u" by (auto simp: distinct_map dest: inj_onD)
    qed
  qed
  have "map tk_id (sort_key tk_ordinal (tracks_of sid st')) = ids"
    by (rule sorted_by_place [OF \<open>distinct ids\<close>]) (use ids inj place in \<open>auto simp: tracks comp_def\<close>)
  then have "track_ids st' = (track_ids st)(sid := ids)"
    using other by (auto simp: fun_eq_iff track_ids_def)
  moreover have "ordered n st'"
  proof -
    have range: "0 \<le> tk_ordinal t \<and> tk_ordinal t < n" if "t \<in> set (ss_tracks st')" for t
    proof -
      have "t \<in> set (tracks_of (tk_scenario_id t) st')" using that by (simp add: tracks_of_def)
      moreover have "tk_ordinal t < n" "0 \<le> tk_ordinal t" if "t \<in> set (tracks_of sid st')"
        using that place len by (force simp: tracks)+
      moreover have "0 \<le> tk_ordinal t \<and> tk_ordinal t < n" if "t \<in> set (tracks_of g st)" for g
        using that assms(1) by (auto simp: ordered_def tracks_of_def)
      ultimately show ?thesis using other by metis
    qed
    have "distinct (map tk_ordinal (tracks_of g st'))" for g
      using inj other [of g] assms(1) by (cases "g = sid") (auto simp: tracks comp_def ordered_def)
    moreover have "map tk_id (ss_tracks st') = map tk_id (ss_tracks st)" by (simp add: st'_def)
    ultimately show ?thesis using assms(1) range by (simp add: ordered_def)
  qed
  ultimately show ?thesis using run by blast
qed


lemma ordered_mono: "ordered n st \<Longrightarrow> n \<le> m \<Longrightarrow> ordered m st"
  by (force simp: ordered_def)

lemma length_track_ids: "ordered n st \<Longrightarrow> int (length (track_ids st sid)) \<le> n"
proof -
  assume o: "ordered n st"
  have "set (map tk_ordinal (tracks_of sid st)) \<subseteq> {0..<n}"
    using o by (auto simp: ordered_def tracks_of_def)
  then have "card (set (map tk_ordinal (tracks_of sid st))) \<le> card {0..<n}" by (intro card_mono) auto
  moreover have "card (set (map tk_ordinal (tracks_of sid st))) = length (tracks_of sid st)"
    using distinct_card [of "map tk_ordinal (tracks_of sid st)"] o by (simp add: ordered_def)
  ultimately have "length (track_ids st sid) \<le> nat n" "0 \<le> n" using o by (simp_all add: track_ids_def ordered_def)
  then show ?thesis by simp
qed

lemma track_step_ok:
  assumes "ordered n st" and "n < 2 ^ 31" and "sensible e (track_ids st)"
  shows "\<exists>st'. track_step e st = (Inr (), st') \<and> ordered (n + 1) st' \<and> track_ids st' = list_step e (track_ids st)"
proof (cases e)
  case (Add_Track i now c)
  with add_track_step [OF assms(1,2), of i now c] assms(3) show ?thesis by fastforce
next
  case (Drop_Track i now)
  with drop_track_step [OF assms(1), of i now] assms(3) obtain st' where
    "track_step e st = (Inr (), st')" "ordered n st'" "track_ids st' = list_step e (track_ids st)" by auto
  with ordered_mono [of n st' "n + 1"] show ?thesis by auto
next
  case (Reorder_Tracks now sid ids)
  have "int (length ids) \<le> n"
    using assms(3) Reorder_Tracks length_track_ids [OF assms(1), of sid] by (metis sensible.simps(3) size_mset)
  with reorder_step [OF assms(1), of ids sid now] assms(2,3) Reorder_Tracks obtain st' where
    "track_step e st = (Inr (), st')" "ordered n st'" "track_ids st' = list_step e (track_ids st)" by auto
  with ordered_mono [of n st' "n + 1"] show ?thesis by auto
qed

lemma track_steps_ok:
  "ordered n st \<Longrightarrow> n + int (length es) \<le> 2 ^ 31 \<Longrightarrow> all_sensible es (track_ids st) \<Longrightarrow>
   \<exists>st'. run_ops track_step es st = (replicate (length es) (Inr ()), st') \<and> track_ids st' = fold list_step es (track_ids st)"
proof (induction es arbitrary: n st)
  case (Cons e es)
  from track_step_ok [OF Cons.prems(1), of e] Cons.prems(2,3) obtain st1 where
    one: "track_step e st = (Inr (), st1)" "ordered (n + 1) st1" "track_ids st1 = list_step e (track_ids st)" by auto
  from Cons.IH [OF one(2)] Cons.prems(2,3) one(1,3) show ?case by auto
qed simp

text \<open>A scenario keeps its tracks in a list. Whatever tracks are added, dropped and reordered in an
  empty store, as long as ids are fresh, what is dropped is there and a new order is an order of the
  same tracks, every operation succeeds and each scenario lists its tracks as a list would: added at
  the end, dropped in place, and in the order last asked for. No operation disturbs another scenario.
  The bound is the range of the 32-bit ordinal.\<close>

theorem scenario_tracks_refine_lists:
  assumes "length es \<le> 2 ^ 31" and "all_sensible es (\<lambda>_. [])"
  shows "\<exists>st. run_ops track_step es \<lparr>ss_scenarios = rows, ss_tracks = []\<rparr> = (replicate (length es) (Inr ()), st)
    \<and> (\<forall>sid. map tk_id (sort_key tk_ordinal (tracks_of sid st)) = fold list_step es (\<lambda>_. []) sid)"
proof -
  let ?st = "\<lparr>ss_scenarios = rows, ss_tracks = []\<rparr>"
  have empty: "track_ids ?st = (\<lambda>_. [])" by (simp add: fun_eq_iff track_ids_def tracks_of_def)
  have "ordered 0 ?st" by (simp add: ordered_def tracks_of_def)
  from track_steps_ok [OF this, of es] assms obtain st where
    "run_ops track_step es ?st = (replicate (length es) (Inr ()), st)" "track_ids st = fold list_step es (\<lambda>_. [])"
    unfolding empty by auto
  then show ?thesis by (metis track_ids_def)
qed

definition sample_track :: "string \<Rightarrow> string \<Rightarrow> create_scenario_track" where
  "sample_track sid hex = \<lparr>ct_scenario_id = sid, ct_hex_ident = hex, ct_callsign = hex, ct_category = ''ga'',
     ct_start_offset_s = None, ct_waypoints_json = ''[]'', ct_request_json = None\<rparr>"

definition sample_edits :: "track_op list" where
  "sample_edits = [Add_Track ''a'' 1 (sample_track ''s'' ''A1''), Add_Track ''b'' 2 (sample_track ''s'' ''B2''),
     Reorder_Tracks 3 ''s'' [''b'', ''a''], Add_Track ''c'' 4 (sample_track ''s'' ''C3''), Drop_Track ''b'' 5]"

theorem scenario_tracks_refine_lists_witness:
  "\<exists>st. run_ops track_step sample_edits \<lparr>ss_scenarios = [], ss_tracks = []\<rparr> = (replicate 5 (Inr ()), st)
    \<and> map tk_id (sort_key tk_ordinal (tracks_of ''s'' st)) = [''a'', ''c'']"
proof -
  have "all_sensible sample_edits (\<lambda>_. [])" "length sample_edits = 5"
    "fold list_step sample_edits (\<lambda>_. []) ''s'' = [''a'', ''c'']"
    by (simp_all add: sample_edits_def sample_track_def add_mset_commute)
  with scenario_tracks_refine_lists [of sample_edits "[]"] show ?thesis by auto
qed

subsection \<open>What the tables do not check\<close>

text \<open>Adding a track checks neither that its scenario exists nor that its aircraft is new to it: a track
  of an unknown scenario is stored where no query reaches it, and two tracks of one scenario may carry
  the same aircraft, although playback is documented to be keyed by it.\<close>

theorem track_inserts_unchecked:
  "(let st = \<lparr>ss_scenarios = [], ss_tracks = []\<rparr>;
        (r, st') = insert_scenario_track i now (sample_track sid hex) st
    in r = Inr (new_track i now 0 (sample_track sid hex)) \<and> get_scenario sid st' = Inl (scenario_not_found sid)
     \<and> delete_scenario sid st' = (Inl (scenario_not_found sid), st') \<and> \<not> no_orphans st')
   \<and> (let st = snd (insert_scenario ''s'' 0 sample_scenario \<lparr>ss_scenarios = [], ss_tracks = []\<rparr>);
          st = snd (insert_scenario_track ''a'' 1 (sample_track ''s'' hex) st);
          st = snd (insert_scenario_track ''b'' 2 (sample_track ''s'' hex) st)
      in \<exists>s tracks. get_scenario ''s'' st = Inr (s, tracks) \<and> map tk_hex_ident tracks = [hex, hex])"
  by (simp add: insert_scenario_track_def insert_scenario_def next_ordinal_def tracks_of_def table_insert_def
      table_update_def table_delete_def touch_scenario_def get_scenario_def delete_scenario_def no_orphans_def
      new_track_def sample_track_def new_scenario_def fits_i32_def Let_def)

end
