(* ===== verification/Weather_Archive.thy ===== *)
theory Weather_Archive imports Weather_State Keyed_Table begin

text \<open>
  How the data server archives the weather grid: \<open>adsb-data-server/src/weather.rs\<close>, which decides what a
  payload from the weather topic means and stores each model hour, and the \<open>weather_snapshots\<close> table of
  \<open>adsb-data-engine/src/storage.rs\<close>. JSON decoding is a parameter; what it yields is validated as the code
  does.
\<close>

subsection \<open>Lossy UTF-8\<close>

text \<open>\<open>String::from_utf8_lossy\<close>: each maximal prefix of an ill-formed sequence becomes \<open>U+FFFD\<close>.\<close>

abbreviation REPLACEMENT :: "nat list" where "REPLACEMENT \<equiv> [239, 191, 189]"

definition continuation :: "nat \<Rightarrow> bool" where
  "continuation b \<longleftrightarrow> 128 \<le> b \<and> b < 192"

definition second_ok :: "nat \<Rightarrow> nat \<Rightarrow> bool" where
  "second_ok a b \<longleftrightarrow>
     (if a = 224 then 160 else if a = 240 then 144 else 128) \<le> b
     \<and> b < (if a = 237 then 160 else if a = 244 then 144 else 192)"

fun lossy_bytes :: "nat list \<Rightarrow> nat list" where
  "lossy_bytes [] = []"
| "lossy_bytes (a # as) =
     (if a < 128 then a # lossy_bytes as
      else if 194 \<le> a \<and> a < 245
      then (case as of
          [] \<Rightarrow> REPLACEMENT
        | b # bs \<Rightarrow>
            if \<not> second_ok a b then REPLACEMENT @ lossy_bytes as
            else if a < 224 then a # b # lossy_bytes bs
            else (case bs of
                [] \<Rightarrow> REPLACEMENT
              | c # cs \<Rightarrow>
                  if \<not> continuation c then REPLACEMENT @ lossy_bytes bs
                  else if a < 240 then a # b # c # lossy_bytes cs
                  else (case cs of
                      [] \<Rightarrow> REPLACEMENT
                    | d # ds \<Rightarrow>
                        if \<not> continuation d then REPLACEMENT @ lossy_bytes cs
                        else a # b # c # d # lossy_bytes ds)))
      else REPLACEMENT @ lossy_bytes as)"

definition from_utf8_lossy :: "bytes \<Rightarrow> string" where
  "from_utf8_lossy bs = map char_of (lossy_bytes (map of_char bs))"

lemma lossy_bytes_ok: "utf8_ok ns \<Longrightarrow> lossy_bytes ns = ns"
proof (induction ns rule: length_induct)
  case (1 ns)
  then have IH: "\<And>ms. length ms < length ns \<Longrightarrow> utf8_ok ms \<Longrightarrow> lossy_bytes ms = ms" by blast
  show ?case
  proof (cases ns)
    case (Cons a as)
    consider "a < 128" | "194 \<le> a" "a < 224" | "224 \<le> a" "a < 240" | "240 \<le> a" "a < 245"
      using 1(2) Cons by (cases as; cases "tl as"; cases "tl (tl as)") (auto split: if_splits)
    then show ?thesis
    proof cases
      case 1
      with \<open>utf8_ok ns\<close> Cons IH [of as] show ?thesis by simp
    next
      case 2
      with \<open>utf8_ok ns\<close> Cons obtain b bs where "as = b # bs" "128 \<le> b" "b < 192" "utf8_ok bs"
        by (cases as) auto
      with 2 Cons IH [of bs] show ?thesis by (simp add: second_ok_def)
    next
      case 3
      with \<open>utf8_ok ns\<close> Cons obtain b c cs where s: "as = b # c # cs" "continuation c" "utf8_ok cs"
        and "if a = 224 then 160 \<le> b else 128 \<le> b" "if a = 237 then b < 160 else b < 192"
        by (cases as; cases "tl as") (auto simp: continuation_def)
      with 3 have "second_ok a b" by (auto simp: second_ok_def split: if_splits)
      with 3 s Cons IH [of cs] show ?thesis by simp
    next
      case 4
      with \<open>utf8_ok ns\<close> Cons obtain b c d ds where s: "as = b # c # d # ds" "continuation c" "continuation d" "utf8_ok ds"
        and "if a = 240 then 144 \<le> b else 128 \<le> b" "if a = 244 then b < 144 else b < 192"
        by (cases as; cases "tl as"; cases "tl (tl as)") (auto simp: continuation_def)
      with 4 have "second_ok a b" by (auto simp: second_ok_def split: if_splits)
      with 4 s Cons IH [of ds] show ?thesis by simp
    qed
  qed simp
qed

lemma from_utf8_lossy_ok: "from_utf8 bs = Some s \<Longrightarrow> from_utf8_lossy bs = bs"
  by (simp add: from_utf8_def from_utf8_lossy_def lossy_bytes_ok comp_def split: if_splits)

subsection \<open>The table\<close>

record weather_record =
  wr_source_id :: string
  wr_valid_time_ms :: int
  wr_fetched_at_ms :: int
  wr_received_at_ms :: int
  wr_source :: string
  wr_model :: string
  wr_version :: nat
  wr_lat0 :: f64
  wr_lon0 :: f64
  wr_dlat :: f64
  wr_dlon :: f64
  wr_nlat :: nat
  wr_nlon :: nat
  wr_levels :: string
  wr_payload :: string

record weather_query =
  wq_start_ms :: "int option"
  wq_end_ms :: "int option"
  wq_limit :: "nat option"

record weather_key =
  wk_valid_time_ms :: int
  wk_source_id :: "string option"

text \<open>Version and dimensions are 32-bit columns.\<close>

definition storable :: "weather_record \<Rightarrow> bool" where
  "storable r \<longleftrightarrow> wr_version r < 2 ^ 31 \<and> wr_nlat r < 2 ^ 31 \<and> wr_nlon r < 2 ^ 31"

definition hour_stored :: "string \<Rightarrow> int \<Rightarrow> weather_record list \<Rightarrow> bool" where
  "hour_stored src_id hour rows = list_ex (\<lambda>w. wr_source_id w = src_id \<and> wr_valid_time_ms w = hour) rows"

text \<open>The anti-join: nothing is selected, and so nothing converted, when the hour is there.\<close>

definition insert_weather_snapshot ::
  "string \<Rightarrow> weather_record \<Rightarrow> weather_record list \<Rightarrow> (storage_error + bool) \<times> weather_record list" where
  "insert_weather_snapshot src_id r rows =
     (if hour_stored src_id (wr_valid_time_ms r) rows then (Inr False, rows)
      else if \<not> storable r then (Inl (DuckDb ''Conversion Error''), rows)
      else (Inr True, rows @ [r\<lparr>wr_source_id := src_id\<rparr>]))"

definition get_weather_snapshot :: "weather_key \<Rightarrow> weather_record list \<Rightarrow> weather_record option" where
  "get_weather_snapshot key rows =
     (case order_desc wr_received_at_ms (filter (\<lambda>w. wr_valid_time_ms w = wk_valid_time_ms key
         \<and> (case wk_source_id key of None \<Rightarrow> True | Some i \<Rightarrow> wr_source_id w = i)) rows) of
        [] \<Rightarrow> None | w # _ \<Rightarrow> Some w)"

text \<open>A listing leaves out the payload and gives its size.\<close>

record weather_meta = weather_record +
  wm_payload_bytes :: nat

definition meta_of :: "weather_record \<Rightarrow> weather_meta" where
  "meta_of w = weather_record.extend (w\<lparr>wr_payload := []\<rparr>) \<lparr>wm_payload_bytes = length (wr_payload w)\<rparr>"

definition query_weather_snapshots :: "weather_query \<Rightarrow> weather_record list \<Rightarrow> weather_meta list" where
  "query_weather_snapshots q rows =
     map meta_of (take (min (case wq_limit q of None \<Rightarrow> 24 | Some n \<Rightarrow> n) 1000)
       (order_desc wr_valid_time_ms (filter (\<lambda>w.
          (case wq_start_ms q of None \<Rightarrow> True | Some s \<Rightarrow> s \<le> wr_valid_time_ms w)
        \<and> (case wq_end_ms q of None \<Rightarrow> True | Some e \<Rightarrow> wr_valid_time_ms w \<le> e)) rows)))"

subsection \<open>What a payload means\<close>

definition from_json :: "(bytes \<Rightarrow> string + 'v snapshot) \<Rightarrow> bytes \<Rightarrow> snapshot_error + 'v snapshot" where
  "from_json decode payload = (case decode payload of
      Inl e \<Rightarrow> Inl (Snapshot_Json e)
    | Inr sn \<Rightarrow> (case validate_snapshot sn of Inl e \<Rightarrow> Inl e | Inr () \<Rightarrow> Inr sn))"

definition show_snapshot_error :: "snapshot_error \<Rightarrow> string" where
  "show_snapshot_error e = (case e of
      Snapshot_Json m \<Rightarrow> ''malformed weather snapshot JSON: '' @ m
    | Snapshot_Version found expected \<Rightarrow>
        ''unsupported snapshot version '' @ nat_str found @ '' (expected '' @ nat_str expected @ '')''
    | Snapshot_Length field len expected \<Rightarrow>
        ''field '' @ [CHR 0x27] @ field @ [CHR 0x27] @ '' has '' @ nat_str len @ '' values, grid has '' @ nat_str expected @ '' points'')"

datatype 'v weather_action = Store "'v snapshot" | Duplicate | Cleared | Unusable string

definition next_weather ::
  "(bytes \<Rightarrow> string + 'v snapshot) \<Rightarrow> int option \<Rightarrow> bytes \<Rightarrow> 'v weather_action" where
  "next_weather decode last_valid_time_ms payload =
     (if payload = [] then Cleared
      else (case from_json decode payload of
          Inr sn \<Rightarrow> if Some (sn_valid_time_ms sn) = last_valid_time_ms then Duplicate else Store sn
        | Inl e \<Rightarrow> Unusable (show_snapshot_error e)))"

text \<open>The dimensions are truncated to 32 bits.\<close>

definition record_from_snapshot :: "'v snapshot \<Rightarrow> bytes \<Rightarrow> int \<Rightarrow> weather_record" where
  "record_from_snapshot sn payload received_at_ms =
     \<lparr>wr_source_id = [], wr_valid_time_ms = sn_valid_time_ms sn, wr_fetched_at_ms = sn_fetched_at_ms sn,
      wr_received_at_ms = received_at_ms, wr_source = sn_source sn, wr_model = sn_model sn,
      wr_version = sn_version sn, wr_lat0 = g_lat0 (sn_grid sn), wr_lon0 = g_lon0 (sn_grid sn),
      wr_dlat = g_dlat (sn_grid sn), wr_dlon = g_dlon (sn_grid sn),
      wr_nlat = g_nlat (sn_grid sn) mod 2 ^ 32, wr_nlon = g_nlon (sn_grid sn) mod 2 ^ 32,
      wr_levels = join_with '','' (map (nat_str \<circ> fst) (sn_levels sn)),
      wr_payload = from_utf8_lossy payload\<rparr>"

subsection \<open>The archiving task\<close>

text \<open>
  What the task sees: a value of the channel with the clock reading and the state of the storage it
  meets, and a restart of the process, which forgets the last hour.
\<close>

datatype archive_storage = Working | Unavailable | Failing

datatype archive_event = Payload "bytes option" int archive_storage | Restarted

record archive =
  ar_last :: "int option"
  ar_rows :: "weather_record list"

fun archive_step ::
  "(bytes \<Rightarrow> string + 'v snapshot) \<Rightarrow> string \<Rightarrow> archive_event \<Rightarrow> archive \<Rightarrow> archive" where
  "archive_step decode src_id Restarted a = a\<lparr>ar_last := None\<rparr>"
| "archive_step decode src_id (Payload None now storage) a = a"
| "archive_step decode src_id (Payload (Some payload) now storage) a =
     (case next_weather decode (ar_last a) payload of
        Store sn \<Rightarrow>
          (case storage of
             Working \<Rightarrow>
               (let (r, rows) = insert_weather_snapshot src_id (record_from_snapshot sn payload now) (ar_rows a)
                in case r of Inr _ \<Rightarrow> a\<lparr>ar_last := Some (sn_valid_time_ms sn), ar_rows := rows\<rparr>
                   | Inl _ \<Rightarrow> a\<lparr>ar_rows := rows\<rparr>)
           | _ \<Rightarrow> a)
      | _ \<Rightarrow> a)"

definition persist_weather ::
  "(bytes \<Rightarrow> string + 'v snapshot) \<Rightarrow> string \<Rightarrow> archive_event list \<Rightarrow> archive \<Rightarrow> archive" where
  "persist_weather decode src_id es a = fold (archive_step decode src_id) es a"

subsection \<open>Each hour once\<close>

text \<open>The snapshots that reach a working storage, as rows, in the order of their arrival.\<close>

fun offered :: "(bytes \<Rightarrow> string + 'v snapshot) \<Rightarrow> string \<Rightarrow> archive_event list \<Rightarrow> weather_record list" where
  "offered decode src_id [] = []"
| "offered decode src_id (Payload (Some payload) now Working # es) =
     (case from_json decode payload of
        Inr sn \<Rightarrow> (let r = (record_from_snapshot sn payload now)\<lparr>wr_source_id := src_id\<rparr>
                   in if payload \<noteq> [] \<and> storable r then [r] else []) @ offered decode src_id es
      | Inl _ \<Rightarrow> offered decode src_id es)"
| "offered decode src_id (_ # es) = offered decode src_id es"

text \<open>The first row of each hour.\<close>

fun first_per_hour :: "weather_record list \<Rightarrow> weather_record list" where
  "first_per_hour [] = []"
| "first_per_hour (r # rs) = r # filter (\<lambda>q. wr_valid_time_ms q \<noteq> wr_valid_time_ms r) (first_per_hour rs)"

definition remembers :: "string \<Rightarrow> archive \<Rightarrow> bool" where
  "remembers src_id a \<longleftrightarrow> (\<forall>h. ar_last a = Some h \<longrightarrow> hour_stored src_id h (ar_rows a))"

definition merge_hours :: "string \<Rightarrow> weather_record list \<Rightarrow> weather_record list \<Rightarrow> weather_record list" where
  "merge_hours src_id rows new =
     fold (\<lambda>r rows. if hour_stored src_id (wr_valid_time_ms r) rows then rows else rows @ [r]) new rows"

lemma record_storable [simp]:
  "storable (r\<lparr>wr_source_id := s\<rparr>) = storable r" "wr_valid_time_ms (record_from_snapshot sn p t) = sn_valid_time_ms sn"
  by (simp_all add: storable_def record_from_snapshot_def)

lemma hour_stored_snoc:
  "hour_stored s h (rows @ [r]) \<longleftrightarrow> hour_stored s h rows \<or> wr_source_id r = s \<and> wr_valid_time_ms r = h"
  by (auto simp: hour_stored_def)

lemma merge_hours_append: "merge_hours s rows (xs @ ys) = merge_hours s (merge_hours s rows xs) ys"
  by (simp add: merge_hours_def)

lemma archive_step_merges:
  assumes "remembers src a"
  shows "remembers src (archive_step decode src e a)
    \<and> ar_rows (archive_step decode src e a) = merge_hours src (ar_rows a) (offered decode src [e])"
proof (cases e)
  case Restarted
  with assms show ?thesis by (simp add: remembers_def merge_hours_def)
next
  case (Payload p now storage)
  show ?thesis
  proof (cases "\<exists>payload sn. p = Some payload \<and> payload \<noteq> [] \<and> from_json decode payload = Inr sn \<and> storage = Working")
    case True
    then obtain payload sn where p: "p = Some payload" "payload \<noteq> []" "from_json decode payload = Inr sn" "storage = Working"
      by blast
    let ?r = "record_from_snapshot sn payload now"
    show ?thesis
    proof (cases "hour_stored src (sn_valid_time_ms sn) (ar_rows a)")
      case True
      with assms p Payload show ?thesis
        by (auto simp: next_weather_def insert_weather_snapshot_def remembers_def merge_hours_def Let_def)
    next
      case False
      with assms have "ar_last a \<noteq> Some (sn_valid_time_ms sn)" by (auto simp: remembers_def)
      with False assms p Payload show ?thesis
        by (auto simp: next_weather_def insert_weather_snapshot_def remembers_def merge_hours_def Let_def
            hour_stored_snoc)
    qed
  next
    case False
    then have "archive_step decode src e a = a" "offered decode src [e] = []"
      using Payload by (cases p; cases storage; auto simp: next_weather_def split: sum.splits weather_action.splits)+
    with assms show ?thesis by (simp add: merge_hours_def)
  qed
qed


lemma offered_append: "offered decode src (xs @ ys) = offered decode src xs @ offered decode src ys"
  by (induction decode src xs rule: offered.induct) (auto split: sum.split)

lemma persist_weather_merges:
  "remembers src a \<Longrightarrow>
   ar_rows (persist_weather decode src es a) = merge_hours src (ar_rows a) (offered decode src es)
   \<and> remembers src (persist_weather decode src es a)"
proof (induction es rule: rev_induct)
  case Nil
  then show ?case by (simp add: persist_weather_def merge_hours_def)
next
  case (snoc e es)
  with archive_step_merges [of src "persist_weather decode src es a" decode e]
  have "ar_rows (archive_step decode src e (persist_weather decode src es a))
      = merge_hours src (ar_rows a) (offered decode src (es @ [e]))"
    by (simp add: merge_hours_append offered_append)
  moreover have "persist_weather decode src (es @ [e]) a = archive_step decode src e (persist_weather decode src es a)"
    by (simp add: persist_weather_def)
  ultimately show ?case
    using archive_step_merges [of src "persist_weather decode src es a" decode e] snoc by simp
qed

lemma offered_source: "\<forall>r \<in> set (offered decode src es). wr_source_id r = src"
  by (induction decode src es rule: offered.induct) (auto simp: Let_def split: sum.split)

lemma merge_hours_first:
  "\<forall>r \<in> set new. wr_source_id r = src \<Longrightarrow>
   merge_hours src rows new = rows @ filter (\<lambda>r. \<not> hour_stored src (wr_valid_time_ms r) rows) (first_per_hour new)"
proof (induction new arbitrary: rows)
  case Nil
  then show ?case by (simp add: merge_hours_def)
next
  case (Cons r new)
  show ?case
  proof (cases "hour_stored src (wr_valid_time_ms r) rows")
    case True
    have drop: "filter (\<lambda>q. wr_valid_time_ms q \<noteq> wr_valid_time_ms r \<and> \<not> hour_stored src (wr_valid_time_ms q) rows) qs
        = filter (\<lambda>q. \<not> hour_stored src (wr_valid_time_ms q) rows) qs" for qs
      using True by (intro filter_cong) auto
    show ?thesis using True Cons by (simp add: merge_hours_def drop)
  next
    case False
    have src: "wr_source_id r = src" using Cons.prems by simp
    have hour: "(\<not> hour_stored src (wr_valid_time_ms q) (rows @ [r]))
        = (wr_valid_time_ms q \<noteq> wr_valid_time_ms r \<and> \<not> hour_stored src (wr_valid_time_ms q) rows)" for q
      by (auto simp: hour_stored_snoc src)
    have "merge_hours src rows (r # new) = merge_hours src (rows @ [r]) new"
      using False by (simp add: merge_hours_def)
    also have "\<dots> = (rows @ [r]) @ filter (\<lambda>q. \<not> hour_stored src (wr_valid_time_ms q) (rows @ [r])) (first_per_hour new)"
      using Cons.IH [of "rows @ [r]"] Cons.prems by simp
    also have "\<dots> = rows @ filter (\<lambda>q. \<not> hour_stored src (wr_valid_time_ms q) rows) (first_per_hour (r # new))"
      using False by (simp add: hour)
    finally show ?thesis .
  qed
qed

lemma first_per_hour_distinct: "distinct (map wr_valid_time_ms (first_per_hour rs))"
proof (induction rs)
  case (Cons r rs)
  have "v r \<notin> v ` {q \<in> S. v q \<noteq> v r}" for v :: "weather_record \<Rightarrow> int" and S
    by (rule notI, erule imageE) simp
  with Cons show ?case by (simp add: distinct_map_filter)
qed simp

lemma first_per_hour_hours: "wr_valid_time_ms ` set (first_per_hour rs) = wr_valid_time_ms ` set rs"
proof (induction rs)
  case (Cons r rs)
  have "insert (v r) (v ` {q \<in> S. v q \<noteq> v r}) = insert (v r) (v ` S)" for v :: "weather_record \<Rightarrow> int" and S by auto
  with Cons show ?case by simp
qed simp

text \<open>Each model hour is archived exactly once. However often the broker delivers the retained grid
  again, whatever restarts of the process and outages of its storage come between, the table holds the
  first storable snapshot of each hour that reached a working storage, in the order of arrival, with
  the payload as it was published, and nothing else: no hour twice, and no hour left out because the
  process believed to have it.\<close>

theorem weather_hours_archived_once:
  "let rows = ar_rows (persist_weather decode src es \<lparr>ar_last = None, ar_rows = []\<rparr>)
   in rows = first_per_hour (offered decode src es)
    \<and> distinct (map wr_valid_time_ms rows)
    \<and> wr_valid_time_ms ` set rows = wr_valid_time_ms ` set (offered decode src es)"
proof -
  have "remembers src \<lparr>ar_last = None, ar_rows = []\<rparr>" by (simp add: remembers_def)
  from persist_weather_merges [OF this, of decode es] merge_hours_first [of "offered decode src es" src "[]"] offered_source [of decode src es]
  have "ar_rows (persist_weather decode src es \<lparr>ar_last = None, ar_rows = []\<rparr>) = first_per_hour (offered decode src es)"
    by (simp add: hour_stored_def)
  then show ?thesis by (simp add: first_per_hour_distinct first_per_hour_hours)
qed

lemma archived_payload:
  assumes "from_json decode payload = Inr sn" and "from_utf8 payload = Some s"
  shows "wr_payload (record_from_snapshot sn payload now) = payload"
  using from_utf8_lossy_ok [OF assms(2)] by (simp add: record_from_snapshot_def)

end
