(* ===== verification/Quack_Share.thy ===== *)
theory Quack_Share imports Rust_Str Flights begin

text \<open>
  The storage configuration (\<open>adsb-data-engine/src/types.rs\<close>) and \<open>share.rs\<close>: exposing the database
  over the Quack protocol and reading a remote one. DuckDB is the environment: what it answers to a
  statement is an argument, and the statements handed to it are values, so that what a token or a URI
  can do to their text is a theorem.
\<close>

subsection \<open>Configuration\<close>

record share_config =
  sc_uri :: string
  sc_token :: "string option"
  sc_allow_other_hostname :: bool
  sc_auto_start :: bool

definition default_share_config :: share_config where
  "default_share_config = \<lparr>sc_uri = ''quack:localhost'', sc_token = None, sc_allow_other_hostname = False,
     sc_auto_start = False\<rparr>"

record remote_config =
  rm_uri :: string
  rm_token :: "string option"
  rm_disable_ssl :: "bool option"

record storage_config =
  so_db_path :: "string option"
  so_source_id :: string
  so_gap_threshold_ms :: int
  so_share :: "share_config option"
  so_remote :: "remote_config option"

definition default_storage_config :: storage_config where
  "default_storage_config = \<lparr>so_db_path = None, so_source_id = ''unknown'', so_gap_threshold_ms = 3600000,
     so_share = None, so_remote = None\<rparr>"

record share_info =
  si_listen_uri :: string
  si_listen_url :: string
  si_token :: string

datatype share_status = Share_Off | Share_Active share_info | Share_Unavailable string

fun show_storage_error :: "storage_error \<Rightarrow> string" where
  "show_storage_error (DuckDb m) = ''DuckDB error: '' @ m"
| "show_storage_error (Query_Error m) = ''Query error: '' @ m"
| "show_storage_error (Io_Error m) = ''I/O error: '' @ m"

subsection \<open>Statements\<close>

abbreviation QUOTE :: char where "QUOTE \<equiv> CHR 0x27"

definition sql_quote :: "string \<Rightarrow> string" where
  "sql_quote v = concat (map (\<lambda>c. if c = QUOTE then [QUOTE, QUOTE] else [c]) v)"

definition sql_literal :: "string \<Rightarrow> string" where
  "sql_literal v = QUOTE # sql_quote v @ [QUOTE]"

definition OBSERVED_TABLES :: "string list" where
  "OBSERVED_TABLES = [''positions'', ''raw_messages'', ''flights'', ''status_events'', ''weather_snapshots'']"

definition REMOTE_CATALOG :: string where "REMOTE_CATALOG = ''edge''"

definition strip_or_whole :: "string \<Rightarrow> string \<Rightarrow> string" where
  "strip_or_whole p s = (case strip_prefix p s of Some r \<Rightarrow> r | None \<Rightarrow> s)"

text \<open>\<open>s.split(c).next()\<close>: up to the first \<open>c\<close>.\<close>

definition upto :: "char \<Rightarrow> string \<Rightarrow> string" where
  "upto c s = takeWhile (\<lambda>x. x \<noteq> c) s"

definition uri_host :: "string \<Rightarrow> string" where
  "uri_host uri = (let rest = strip_or_whole ''quack:'' uri
     in case strip_prefix ''['' rest of Some stripped \<Rightarrow> upto (CHR '']'') stripped | None \<Rightarrow> upto (CHR '':'') rest)"

definition is_local_uri :: "string \<Rightarrow> bool" where
  "is_local_uri uri \<longleftrightarrow> uri_host uri \<in> {''localhost'', ''127.0.0.1'', ''::1''}"

definition attach_options :: "remote_config \<Rightarrow> string list" where
  "attach_options c = [''TYPE quack'']
     @ (case rm_token c of Some token \<Rightarrow> [''TOKEN '' @ sql_literal token] | None \<Rightarrow> [])
     @ (if (case rm_disable_ssl c of Some b \<Rightarrow> b | None \<Rightarrow> \<not> is_local_uri (rm_uri c)) then [''DISABLE_SSL true''] else [])"

definition attach_sql :: "remote_config \<Rightarrow> string \<Rightarrow> string" where
  "attach_sql c alias = ''ATTACH '' @ sql_literal (rm_uri c) @ '' AS '' @ alias @ '' ('' @
     join_with '', '' (attach_options c) @ '')''"

definition remote_view_statements :: "string \<Rightarrow> (string \<times> string) list" where
  "remote_view_statements alias = map (\<lambda>t.
     (t, ''CREATE OR REPLACE VIEW '' @ t @ '' AS SELECT * FROM '' @ alias @ ''.'' @ t @ '';'')) OBSERVED_TABLES"

definition remote_view_sql :: "string \<Rightarrow> string" where
  "remote_view_sql alias = join_with [CHR 0x0A] (map snd (remote_view_statements alias))"

subsection \<open>The URI a server reports\<close>

text \<open>\<open>split_once\<close> and \<open>rsplit_once\<close>: what follows the first (last) occurrence of the pattern.\<close>

fun after_first :: "string \<Rightarrow> string \<Rightarrow> string option" where
  "after_first p s = (case strip_prefix p s of
      Some r \<Rightarrow> Some r
    | None \<Rightarrow> (case s of [] \<Rightarrow> None | _ # cs \<Rightarrow> after_first p cs))"

declare after_first.simps [simp del]

definition after_last :: "char \<Rightarrow> string \<Rightarrow> string option" where
  "after_last c s = (if c \<in> set s then Some (rev (takeWhile (\<lambda>x. x \<noteq> c) (rev s))) else None)"

definition port_of :: "string \<Rightarrow> string option" where
  "port_of url =
     (let after_scheme = (case after_first ''://'' url of Some rest \<Rightarrow> rest | None \<Rightarrow> url);
          host_port = upto (CHR ''/'') after_scheme
      in Option.bind (after_last (CHR '':'') host_port)
           (\<lambda>port. if port \<noteq> [] \<and> list_all is_digit port then Some port else None))"

definition has_port :: "string \<Rightarrow> bool" where
  "has_port uri =
     (let rest = strip_or_whole ''//'' (strip_or_whole ''quack:'' uri)
      in case after_last (CHR '']'') rest of
           Some after_close \<Rightarrow> starts_with '':'' after_close
         | None \<Rightarrow> CHR '':'' \<in> set rest)"

definition qualify_uri :: "string \<Rightarrow> string \<Rightarrow> string" where
  "qualify_uri listen_uri listen_url =
     (if has_port listen_uri then listen_uri
      else case port_of listen_url of
             Some port \<Rightarrow> listen_uri @ '':'' @ port
           | None \<Rightarrow> listen_uri)"

subsection \<open>Starting and stopping a server\<close>

definition serve_sql :: "share_config \<Rightarrow> string" where
  "serve_sql c = ''CALL quack_serve('' @ sql_literal (sc_uri c)
     @ (case sc_token c of Some token \<Rightarrow> '', token := '' @ sql_literal token | None \<Rightarrow> [])
     @ (if sc_allow_other_hostname c then '', allow_other_hostname := true'' else []) @ '')''"

definition stop_sql :: "string \<Rightarrow> string" where
  "stop_sql listen_uri = ''CALL quack_stop('' @ sql_literal listen_uri @ '')''"

text \<open>What DuckDB answers: to loading the extension, and to a call.\<close>

record quack_answers =
  qa_extension :: "storage_error + unit"
  qa_serve :: "string \<Rightarrow> storage_error + string \<times> string \<times> string"
  qa_stop :: "string \<Rightarrow> storage_error + unit"

definition share_start :: "quack_answers \<Rightarrow> share_config \<Rightarrow> storage_error + share_info" where
  "share_start env c = (case qa_extension env of
      Inl e \<Rightarrow> Inl e
    | Inr _ \<Rightarrow> (case qa_serve env (serve_sql c) of
        Inl e \<Rightarrow> Inl e
      | Inr (uri, url, token) \<Rightarrow>
          Inr \<lparr>si_listen_uri = qualify_uri uri url, si_listen_url = url, si_token = token\<rparr>))"

definition share_stop :: "quack_answers \<Rightarrow> string \<Rightarrow> storage_error + unit" where
  "share_stop env listen_uri = qa_stop env (stop_sql listen_uri)"

text \<open>The sharing part of a storage handle. \<open>sh_servers\<close> are the servers that DuckDB runs for it.\<close>

record sharing =
  sh_config :: "share_config option"
  sh_status :: share_status
  sh_servers :: "string list"

definition start_sharing :: "quack_answers \<Rightarrow> sharing \<Rightarrow> (storage_error + share_info) \<times> sharing" where
  "start_sharing env s = (case sh_status s of
      Share_Active info \<Rightarrow> (Inr info, s)
    | _ \<Rightarrow>
        (let c = (case sh_config s of Some c \<Rightarrow> c | None \<Rightarrow> default_share_config)
         in case share_start env c of
              Inr info \<Rightarrow> (Inr info, s\<lparr>sh_status := Share_Active info,
                                       sh_servers := si_listen_uri info # sh_servers s\<rparr>)
            | Inl e \<Rightarrow> (Inl e, s\<lparr>sh_status := Share_Unavailable (show_storage_error e)\<rparr>)))"

definition stop_sharing :: "quack_answers \<Rightarrow> sharing \<Rightarrow> (storage_error + unit) \<times> sharing" where
  "stop_sharing env s = (case sh_status s of
      Share_Active info \<Rightarrow> (case share_stop env (si_listen_uri info) of
          Inl e \<Rightarrow> (Inl e, s)
        | Inr _ \<Rightarrow> (Inr (), s\<lparr>sh_status := Share_Off, sh_servers := remove1 (si_listen_uri info) (sh_servers s)\<rparr>))
    | _ \<Rightarrow> (Inr (), s))"

text \<open>The part of \<open>StorageHandle::open\<close> that concerns sharing; a failure to share is not one to open.\<close>

definition open_sharing :: "quack_answers \<Rightarrow> storage_config \<Rightarrow> sharing" where
  "open_sharing env c =
     (let s = \<lparr>sh_config = so_share c, sh_status = Share_Off, sh_servers = []\<rparr>
      in if (case so_share c of Some sc \<Rightarrow> sc_auto_start sc | None \<Rightarrow> False) then snd (start_sharing env s) else s)"

subsection \<open>What is in a literal stays in it\<close>

text \<open>How SQL reads a statement: characters, and literals between quotes in which a quote is written
  twice.\<close>

datatype sql_token = Plain char | Lit string

datatype sql_mode = In_Text | In_Literal string | Quote_Seen string

fun sql_scan :: "sql_mode \<Rightarrow> string \<Rightarrow> sql_token list option" where
  "sql_scan In_Text [] = Some []"
| "sql_scan In_Text (c # cs) =
     (if c = QUOTE then sql_scan (In_Literal []) cs else map_option ((#) (Plain c)) (sql_scan In_Text cs))"
| "sql_scan (In_Literal l) [] = None"
| "sql_scan (In_Literal l) (c # cs) = (if c = QUOTE then sql_scan (Quote_Seen l) cs else sql_scan (In_Literal (l @ [c])) cs)"
| "sql_scan (Quote_Seen l) [] = Some [Lit l]"
| "sql_scan (Quote_Seen l) (c # cs) =
     (if c = QUOTE then sql_scan (In_Literal (l @ [c])) cs
      else map_option (\<lambda>ts. Lit l # Plain c # ts) (sql_scan In_Text cs))"

named_theorems sql_simps \<open>reading a statement that is put together from text and literals\<close>

lemma scan_text [sql_simps]:
  "QUOTE \<notin> set s \<Longrightarrow> sql_scan In_Text (s @ rest) = map_option ((@) (map Plain s)) (sql_scan In_Text rest)"
  by (cases "sql_scan In_Text rest"; induction s) auto

lemma scan_quoted: "sql_scan (In_Literal l) (sql_quote v @ rest) = sql_scan (In_Literal (l @ v)) rest"
  by (induction v arbitrary: l) (auto simp: sql_quote_def)

lemma scan_closed:
  "rest = [] \<or> hd rest \<noteq> QUOTE \<Longrightarrow> sql_scan (Quote_Seen l) rest = map_option ((#) (Lit l)) (sql_scan In_Text rest)"
  by (cases rest) (auto simp: option.map_comp o_def)

lemma scan_literal [sql_simps]:
  "rest = [] \<or> hd rest \<noteq> QUOTE \<Longrightarrow>
     sql_scan In_Text (sql_literal v @ rest) = map_option ((#) (Lit v)) (sql_scan In_Text rest)"
  by (simp add: sql_literal_def scan_quoted [of _ _ "QUOTE # rest", simplified] scan_closed)

lemma scan_text_end [sql_simps]: "QUOTE \<notin> set s \<Longrightarrow> sql_scan In_Text s = Some (map Plain s)"
  using scan_text [of s "[]"] by simp

text \<open>The options of \<open>ATTACH\<close>, as text that no argument reaches.\<close>

definition ssl_off :: "remote_config \<Rightarrow> bool" where
  "ssl_off c = (case rm_disable_ssl c of Some b \<Rightarrow> b | None \<Rightarrow> \<not> is_local_uri (rm_uri c))"

lemma attach_sql_shape:
  "attach_sql c alias = ''ATTACH '' @ sql_literal (rm_uri c) @ ('' AS '' @ alias @ '' (TYPE quack'') @
     (case rm_token c of Some t \<Rightarrow> '', TOKEN '' @ sql_literal t @ (if ssl_off c then '', DISABLE_SSL true)'' else '')'')
      | None \<Rightarrow> if ssl_off c then '', DISABLE_SSL true)'' else '')'')"
  by (auto simp: attach_sql_def attach_options_def ssl_off_def split: option.splits)

text \<open>C33: Whatever a URI or a token contains, quotes included, the statement that attaches a remote
  database reads as the same sequence of keywords around exactly the configured URI and token as its
  literals: nothing configured can end a literal and become SQL. The same holds for the call that
  starts a server and the one that stops it.\<close>

theorem configured_values_stay_literals:
  "sql_scan In_Text (attach_sql c REMOTE_CATALOG) = Some (map Plain ''ATTACH '' @ [Lit (rm_uri c)]
     @ map Plain '' AS edge (TYPE quack''
     @ (case rm_token c of None \<Rightarrow> [] | Some t \<Rightarrow> map Plain '', TOKEN '' @ [Lit t])
     @ map Plain (if ssl_off c then '', DISABLE_SSL true)'' else '')''))
   \<and> sql_scan In_Text (serve_sql sc) = Some (map Plain ''CALL quack_serve('' @ [Lit (sc_uri sc)]
     @ (case sc_token sc of None \<Rightarrow> [] | Some t \<Rightarrow> map Plain '', token := '' @ [Lit t])
     @ map Plain ((if sc_allow_other_hostname sc then '', allow_other_hostname := true'' else []) @ '')''))
   \<and> sql_scan In_Text (stop_sql uri) = Some (map Plain ''CALL quack_stop('' @ [Lit uri] @ map Plain '')'')"
proof (intro conjI)
  show "sql_scan In_Text (attach_sql c REMOTE_CATALOG) = Some (map Plain ''ATTACH '' @ [Lit (rm_uri c)]
     @ map Plain '' AS edge (TYPE quack''
     @ (case rm_token c of None \<Rightarrow> [] | Some t \<Rightarrow> map Plain '', TOKEN '' @ [Lit t])
     @ map Plain (if ssl_off c then '', DISABLE_SSL true)'' else '')''))"
    unfolding attach_sql_shape REMOTE_CATALOG_def by (simp add: sql_simps split: option.splits)
  show "sql_scan In_Text (serve_sql sc) = Some (map Plain ''CALL quack_serve('' @ [Lit (sc_uri sc)]
     @ (case sc_token sc of None \<Rightarrow> [] | Some t \<Rightarrow> map Plain '', token := '' @ [Lit t])
     @ map Plain ((if sc_allow_other_hostname sc then '', allow_other_hostname := true'' else []) @ '')''))"
    unfolding serve_sql_def by (simp add: sql_simps split: option.splits)
  show "sql_scan In_Text (stop_sql uri) = Some (map Plain ''CALL quack_stop('' @ [Lit uri] @ map Plain '')'')"
    unfolding stop_sql_def by (simp add: sql_simps)
qed

subsection \<open>One server at most\<close>

datatype share_op = Start_Sharing quack_answers | Stop_Sharing quack_answers

fun share_step :: "share_op \<Rightarrow> sharing \<Rightarrow> sharing" where
  "share_step (Start_Sharing env) s = snd (start_sharing env s)"
| "share_step (Stop_Sharing env) s = snd (stop_sharing env s)"

definition shared_as :: "share_status \<Rightarrow> string list" where
  "shared_as st = (case st of Share_Active info \<Rightarrow> [si_listen_uri info] | _ \<Rightarrow> [])"

lemma shared_as_simps [simp]:
  "shared_as Share_Off = []" "shared_as (Share_Unavailable r) = []" "shared_as (Share_Active i) = [si_listen_uri i]"
  by (simp_all add: shared_as_def)

lemma start_sharing_keeps: "sh_servers s = shared_as (sh_status s) \<Longrightarrow>
    sh_servers (snd (start_sharing env s)) = shared_as (sh_status (snd (start_sharing env s)))"
  by (auto simp: start_sharing_def Let_def split: share_status.splits sum.splits option.splits)

lemma stop_sharing_keeps: "sh_servers s = shared_as (sh_status s) \<Longrightarrow>
    sh_servers (snd (stop_sharing env s)) = shared_as (sh_status (snd (stop_sharing env s)))"
  by (auto simp: stop_sharing_def split: share_status.splits sum.splits)

lemma share_steps_keep: "sh_servers s = shared_as (sh_status s) \<Longrightarrow>
    sh_servers (fold share_step ops s) = shared_as (sh_status (fold share_step ops s))"
proof (induction ops arbitrary: s)
  case (Cons op ops)
  then have "sh_servers (share_step op s) = shared_as (sh_status (share_step op s))"
    by (cases op) (simp_all add: start_sharing_keeps stop_sharing_keeps)
  with Cons.IH show ?case by simp
qed simp

text \<open>However often sharing is started and stopped, and whatever DuckDB answers, the servers that
  run are the one the status names or none. Starting again while one runs asks DuckDB nothing and gives
  its coordinates again; an attempt that fails gives the error and records it as the reason.\<close>

theorem one_quack_server:
  defines "s \<equiv> \<lambda>env c ops. fold share_step ops (open_sharing env c)"
  shows "sh_servers (s env c ops) = shared_as (sh_status (s env c ops))
    \<and> (case start_sharing again (s env c ops) of
        (Inr info, s') \<Rightarrow> sh_status s' = Share_Active info \<and> start_sharing later s' = (Inr info, s')
      | (Inl e, s') \<Rightarrow> sh_status s' = Share_Unavailable (show_storage_error e) \<and> sh_servers s' = [])"
proof
  have "sh_servers (open_sharing env c) = shared_as (sh_status (open_sharing env c))"
    unfolding open_sharing_def Let_def by (auto intro: start_sharing_keeps)
  then show keeps: "sh_servers (s env c ops) = shared_as (sh_status (s env c ops))"
    unfolding s_def by (rule share_steps_keep)
  show "case start_sharing again (s env c ops) of
        (Inr info, s') \<Rightarrow> sh_status s' = Share_Active info \<and> start_sharing later s' = (Inr info, s')
      | (Inl e, s') \<Rightarrow> sh_status s' = Share_Unavailable (show_storage_error e) \<and> sh_servers s' = []"
    using keeps by (auto simp: start_sharing_def Let_def split: share_status.splits sum.splits)
qed

subsection \<open>TLS towards a remote daemon\<close>

text \<open>Left unset, \<open>disable_ssl\<close> turns TLS off for every host that is not local, where DuckDB would
  use it: a token goes to a remote daemon in the clear unless the flag is set to \<open>false\<close>. Only a
  local host is left to DuckDB's own default.\<close>

theorem unset_ssl_flag_disables_tls_remotely:
  "''DISABLE_SSL true'' \<in> set (attach_options c)
     \<longleftrightarrow> rm_disable_ssl c = Some True \<or> (rm_disable_ssl c = None \<and> \<not> is_local_uri (rm_uri c))"
  by (auto simp: attach_options_def split: option.splits if_splits)

lemma remote_host_not_local: "\<not> is_local_uri ''quack:pi.lan:9494''" "is_local_uri ''quack:[::1]:9494''"
  by (simp_all add: is_local_uri_def uri_host_def strip_or_whole_def upto_def)

end
