(* ===== verification/Server_Config.thy ===== *)
theory Server_Config imports Quack_Share Weather_Config Flight_Queries begin

text \<open>
  The headless recorder, \<open>adsb-data-server\<close>: its configuration (\<open>config.rs\<close>), what \<open>main.rs\<close> makes of
  it, and the maintenance loop and lifetime of a recording (\<open>recorder.rs\<close>). Reading the file and
  starting the parts is in \<open>Service_Process\<close>; what clap parses is an argument.
\<close>

subsection \<open>Configuration\<close>

record server_config =
  sv_config :: string
  sv_print_config :: bool
  sv_source_id :: string
  sv_db_path :: string
  sv_mqtt_broker :: string
  sv_mqtt_port :: nat
  sv_mqtt_topic :: string
  sv_mqtt_weather_topic :: string
  sv_dump1090_tz :: string
  sv_gap_threshold_ms :: int
  sv_checkpoint_secs :: nat
  sv_retention_hours :: nat
  sv_http_port :: nat
  sv_http_bind :: string
  sv_share :: bool
  sv_share_uri :: string
  sv_share_token :: "string option"
  sv_log_level :: string

definition default_server_config :: server_config where
  "default_server_config = \<lparr>
     sv_config = ''/etc/adsb/data-server.toml'', sv_print_config = False, sv_source_id = ''adsb-edge'',
     sv_db_path = ''/var/lib/adsb/adsb.db'', sv_mqtt_broker = ''localhost'', sv_mqtt_port = 1883,
     sv_mqtt_topic = ''adsb/sbs/raw'', sv_mqtt_weather_topic = [], sv_dump1090_tz = ''Local'',
     sv_gap_threshold_ms = 3600000, sv_checkpoint_secs = 300, sv_retention_hours = 0,
     sv_http_port = 8787, sv_http_bind = ''127.0.0.1'', sv_share = False,
     sv_share_uri = ''quack:0.0.0.0:9494'', sv_share_token = None, sv_log_level = ''info''\<rparr>"

definition overlay_server_file ::
  "(string \<rightharpoonup> toml) \<Rightarrow> (string \<Rightarrow> bool) \<Rightarrow> server_config \<Rightarrow> server_config" where
  "overlay_server_file file is_defaulted =
     (let str = (\<lambda>key. file_value is_defaulted file key as_str);
          int = (\<lambda>bits key. file_value is_defaulted file key (as_unsigned bits))
      in (\<lambda>c. if sv_share_token c = None
              then ovl (Option.bind (file ''share_token'') as_str) (\<lambda>v c. c\<lparr>sv_share_token := Some v\<rparr>) c else c)
       \<circ> ovl (str ''log_level'') (\<lambda>v c. c\<lparr>sv_log_level := v\<rparr>)
       \<circ> ovl (str ''share_uri'') (\<lambda>v c. c\<lparr>sv_share_uri := v\<rparr>)
       \<circ> ovl (file_value is_defaulted file ''share'' as_bool) (\<lambda>v c. c\<lparr>sv_share := v\<rparr>)
       \<circ> ovl (str ''http_bind'') (\<lambda>v c. c\<lparr>sv_http_bind := v\<rparr>)
       \<circ> ovl (int 16 ''http_port'') (\<lambda>v c. c\<lparr>sv_http_port := v\<rparr>)
       \<circ> ovl (int 64 ''retention_hours'') (\<lambda>v c. c\<lparr>sv_retention_hours := v\<rparr>)
       \<circ> ovl (int 64 ''checkpoint_secs'') (\<lambda>v c. c\<lparr>sv_checkpoint_secs := v\<rparr>)
       \<circ> ovl (file_value is_defaulted file ''gap_threshold_ms'' as_integer) (\<lambda>v c. c\<lparr>sv_gap_threshold_ms := v\<rparr>)
       \<circ> ovl (str ''dump1090_tz'') (\<lambda>v c. c\<lparr>sv_dump1090_tz := v\<rparr>)
       \<circ> ovl (str ''mqtt_weather_topic'') (\<lambda>v c. c\<lparr>sv_mqtt_weather_topic := v\<rparr>)
       \<circ> ovl (str ''mqtt_topic'') (\<lambda>v c. c\<lparr>sv_mqtt_topic := v\<rparr>)
       \<circ> ovl (int 16 ''mqtt_port'') (\<lambda>v c. c\<lparr>sv_mqtt_port := v\<rparr>)
       \<circ> ovl (str ''mqtt_broker'') (\<lambda>v c. c\<lparr>sv_mqtt_broker := v\<rparr>)
       \<circ> ovl (str ''db_path'') (\<lambda>v c. c\<lparr>sv_db_path := v\<rparr>)
       \<circ> ovl (str ''source_id'') (\<lambda>v c. c\<lparr>sv_source_id := v\<rparr>))"

definition server_http_bind_addr :: "server_config \<Rightarrow> ip_addr option" where
  "server_http_bind_addr c = parse_ip (sv_http_bind c)"

text \<open>\<open>now_path\<close> is the file name that the default configuration of the feed client computes.\<close>

definition feed_config :: "string \<Rightarrow> server_config \<Rightarrow> config" where
  "feed_config now_path c = (default_config now_path)\<lparr>
     source_id := sv_source_id c, mqtt_broker := sv_mqtt_broker c, mqtt_port := sv_mqtt_port c,
     mqtt_topic := sv_mqtt_topic c, mqtt_weather_topic := sv_mqtt_weather_topic c\<rparr>"

definition server_storage_config :: "server_config \<Rightarrow> storage_config" where
  "server_storage_config c = \<lparr>so_db_path = Some (sv_db_path c), so_source_id = sv_source_id c,
     so_gap_threshold_ms = sv_gap_threshold_ms c,
     so_share = (if sv_share c then Some \<lparr>sc_uri = sv_share_uri c, sc_token = sv_share_token c,
                   sc_allow_other_hostname = True, sc_auto_start = True\<rparr> else None),
     so_remote = None\<rparr>"

subsection \<open>The recorder\<close>

record recorder_config =
  rd_storage :: storage_config
  rd_dump1090_tz :: string
  rd_checkpoint_interval :: "duration option"
  rd_retention :: "duration option"

definition default_recorder_config :: recorder_config where
  "default_recorder_config = \<lparr>rd_storage = default_storage_config, rd_dump1090_tz = ''Local'',
     rd_checkpoint_interval = Some (from_secs 300), rd_retention = None\<rparr>"

text \<open>\<open>main\<close>: the hours are multiplied in \<open>u64\<close>, which wraps in a release build.\<close>

definition recorder_config_of :: "server_config \<Rightarrow> recorder_config" where
  "recorder_config_of c = \<lparr>rd_storage = server_storage_config c, rd_dump1090_tz = sv_dump1090_tz c,
     rd_checkpoint_interval = (if sv_checkpoint_secs c > 0 then Some (from_secs (sv_checkpoint_secs c)) else None),
     rd_retention = (if sv_retention_hours c > 0
                     then Some (from_secs ((sv_retention_hours c * 3600) mod 2 ^ 64)) else None)\<rparr>"

text \<open>\<open>as i64\<close> keeps the low 64 bits.\<close>

definition as_i64 :: "int \<Rightarrow> int" where
  "as_i64 x = (x + 2 ^ 63) mod 2 ^ 64 - 2 ^ 63"

text \<open>A round of the maintenance loop, with the clock read in it. The loop skips the first tick of its
  timer, and a round does nothing while no storage is there.\<close>

definition maintenance_cutoff :: "int \<Rightarrow> duration \<Rightarrow> int" where
  "maintenance_cutoff now_ms window = as_i64 (now_ms - as_i64 (int (as_millis window)))"

definition maintenance_round :: "recorder_config \<Rightarrow> int \<Rightarrow> storage option \<Rightarrow> storage option" where
  "maintenance_round c now_ms st = (case st of
      None \<Rightarrow> None
    | Some s \<Rightarrow> Some (case rd_retention c of
          Some window \<Rightarrow> snd (prune (maintenance_cutoff now_ms window) s)
        | None \<Rightarrow> s))"

fun maintenance_loop :: "recorder_config \<Rightarrow> int list \<Rightarrow> storage option \<Rightarrow> storage option" where
  "maintenance_loop c [] st = st"
| "maintenance_loop c (now_ms # ticks) st = maintenance_loop c ticks (maintenance_round c now_ms st)"

definition run_maintenance :: "recorder_config \<Rightarrow> int list \<Rightarrow> storage option \<Rightarrow> storage option" where
  "run_maintenance c ticks st =
     (case rd_checkpoint_interval c of None \<Rightarrow> st | Some _ \<Rightarrow> maintenance_loop c (tl ticks) st)"

subsection \<open>The retention window\<close>

lemma as_i64_small: "- (2 ^ 63) \<le> x \<Longrightarrow> x < 2 ^ 63 \<Longrightarrow> as_i64 x = x"
  by (simp add: as_i64_def)

lemma as_millis_from_secs: "as_millis (from_secs n) = n * 1000"
  by (simp add: as_millis_def from_secs_def)

lemma maintenance_loop_prunes:
  assumes "rd_retention c = Some window"
  shows "maintenance_loop c ticks (Some st) = Some (st\<lparr>
     st_positions := filter (\<lambda>r. list_all (\<lambda>t. maintenance_cutoff t window \<le> pr_ts r) ticks) (st_positions st),
     st_raw := filter (\<lambda>r. list_all (\<lambda>t. maintenance_cutoff t window \<le> rr_ts r) ticks) (st_raw st)\<rparr>)"
proof (induction ticks arbitrary: st)
  case (Cons t ticks)
  then show ?case
    by (simp add: maintenance_round_def assms prune_def not_less conj_commute)
qed simp

lemma run_maintenance_on:
  "0 < sv_checkpoint_secs c \<Longrightarrow>
     run_maintenance (recorder_config_of c) (first # ticks) st = maintenance_loop (recorder_config_of c) ticks st"
  by (simp add: run_maintenance_def recorder_config_of_def)

lemma maintenance_cutoff_exact:
  assumes "h * 3600000 < 2 ^ 62" "0 \<le> now_ms" "now_ms < 2 ^ 62"
  shows "maintenance_cutoff now_ms (from_secs ((h * 3600) mod 2 ^ 64)) = now_ms - int h * 3600000"
proof -
  have "(h * 3600) mod 2 ^ 64 = h * 3600" using assms(1) by simp
  moreover have "as_i64 (int (h * 3600 * 1000)) = int h * 3600000"
    using assms(1) by (subst as_i64_small) auto
  moreover have "as_i64 (now_ms - int h * 3600000) = now_ms - int h * 3600000"
    using assms by (intro as_i64_small) auto
  ultimately show ?thesis by (simp add: maintenance_cutoff_def as_millis_from_secs)
qed

text \<open>C36: With a retention window of \<open>h\<close> hours the maintenance loop leaves exactly the positions and raw
  messages that were no older than \<open>h\<close> hours at every round (the first tick of the timer is not one),
  and it touches nothing else: flights and the tracker stay. With no window configured it deletes
  nothing.\<close>

theorem retention_window_exact:
  assumes "sv_retention_hours c * 3600000 < 2 ^ 62" and "\<forall>t \<in> set ticks. 0 \<le> t \<and> t < 2 ^ 62"
    and "0 < sv_checkpoint_secs c"
  shows "run_maintenance (recorder_config_of c) (first # ticks) (Some st) = Some (
     if sv_retention_hours c = 0 then st
     else st\<lparr>
       st_positions := filter (\<lambda>r. \<forall>t \<in> set ticks. t - int (sv_retention_hours c) * 3600000 \<le> pr_ts r) (st_positions st),
       st_raw := filter (\<lambda>r. \<forall>t \<in> set ticks. t - int (sv_retention_hours c) * 3600000 \<le> rr_ts r) (st_raw st)\<rparr>)"
proof (cases "sv_retention_hours c = 0")
  case True
  then have "maintenance_loop (recorder_config_of c) ticks (Some st) = Some st"
    by (induction ticks) (simp_all add: maintenance_round_def recorder_config_of_def)
  with True assms(3) show ?thesis by (simp add: run_maintenance_on)
next
  case False
  let ?w = "from_secs ((sv_retention_hours c * 3600) mod 2 ^ 64)"
  have w: "rd_retention (recorder_config_of c) = Some ?w" using False by (simp add: recorder_config_of_def)
  have cut: "maintenance_cutoff t ?w = t - int (sv_retention_hours c) * 3600000" if "t \<in> set ticks" for t
    using assms(1,2) that by (intro maintenance_cutoff_exact) auto
  have "list_all (\<lambda>t. maintenance_cutoff t ?w \<le> x) ticks
     \<longleftrightarrow> (\<forall>t \<in> set ticks. t - int (sv_retention_hours c) * 3600000 \<le> x)" for x
    using cut by (auto simp: list_all_iff)
  with False assms(3) show ?thesis
    by (simp add: run_maintenance_on maintenance_loop_prunes [OF w] del: power_numeral)
qed

definition one_position :: "int \<Rightarrow> storage" where
  "one_position ts = (storage_empty ''edge'' 3600000)\<lparr>st_positions :=
     [position_row_of ''edge'' (sample_position ''ABC'' None, ts)]\<rparr>"

theorem retention_window_exact_witness:
  "run_maintenance (recorder_config_of (default_server_config\<lparr>sv_retention_hours := 24\<rparr>)) [0, 100000000] (Some (one_position 5))
     = Some (storage_empty ''edge'' 3600000)"
proof -
  have "run_maintenance (recorder_config_of (default_server_config\<lparr>sv_retention_hours := 24\<rparr>)) (0 # [100000000]) (Some (one_position 5))
     = Some (if sv_retention_hours (default_server_config\<lparr>sv_retention_hours := 24\<rparr>) = 0 then one_position 5
     else (one_position 5)\<lparr>
       st_positions := filter (\<lambda>r. \<forall>t \<in> set [100000000]. t - int (sv_retention_hours (default_server_config\<lparr>sv_retention_hours := 24\<rparr>)) * 3600000 \<le> pr_ts r) (st_positions (one_position 5)),
       st_raw := filter (\<lambda>r. \<forall>t \<in> set [100000000]. t - int (sv_retention_hours (default_server_config\<lparr>sv_retention_hours := 24\<rparr>)) * 3600000 \<le> rr_ts r) (st_raw (one_position 5))\<rparr>)"
    by (rule retention_window_exact) (simp_all add: default_server_config_def)
  then show ?thesis
    by (simp add: one_position_def storage_empty_def default_server_config_def position_row_of_def)
qed

text \<open>A negative number of hours in the file is the way to lose everything. The conversion makes
  \<open>retention_hours = -1\<close> the largest \<open>u64\<close>, the product with 3600 wraps to an hour below zero, and
  every round deletes all positions and raw messages that are not more than an hour in the future.\<close>

theorem negative_retention_deletes_history:
  assumes "0 \<le> now_ms" "now_ms < 2 ^ 62" and "sv_checkpoint_secs c = 300"
  shows "sv_retention_hours (overlay_server_file [''retention_hours'' \<mapsto> TInteger (- 1)] (\<lambda>_. True) c) = 2 ^ 64 - 1
    \<and> run_maintenance (recorder_config_of (overlay_server_file [''retention_hours'' \<mapsto> TInteger (- 1)] (\<lambda>_. True) c))
        [first, now_ms] (Some st)
      = Some (st\<lparr>st_positions := filter (\<lambda>r. now_ms + 3600000 \<le> pr_ts r) (st_positions st),
                 st_raw := filter (\<lambda>r. now_ms + 3600000 \<le> rr_ts r) (st_raw st)\<rparr>)"
proof
  let ?c = "overlay_server_file [''retention_hours'' \<mapsto> TInteger (- 1)] (\<lambda>_. True) c"
  show hours: "sv_retention_hours ?c = 2 ^ 64 - 1"
    by (simp add: overlay_server_file_def Let_def file_value_def as_unsigned_def)
  have checkpoint: "sv_checkpoint_secs ?c = 300"
    using assms(3) by (simp add: overlay_server_file_def Let_def file_value_def as_unsigned_def)
  let ?w = "from_secs 18446744073709548016"
  have w: "rd_retention (recorder_config_of ?c) = Some ?w" by (simp add: recorder_config_of_def hours)
  have "as_i64 (int (18446744073709548016 * 1000)) = - 3600000" by (simp add: as_i64_def)
  moreover have "as_i64 (now_ms + 3600000) = now_ms + 3600000" using assms by (intro as_i64_small) auto
  ultimately have cut: "maintenance_cutoff now_ms ?w = now_ms + 3600000"
    unfolding maintenance_cutoff_def as_millis_from_secs by simp
  show "run_maintenance (recorder_config_of ?c) [first, now_ms] (Some st)
      = Some (st\<lparr>st_positions := filter (\<lambda>r. now_ms + 3600000 \<le> pr_ts r) (st_positions st),
                 st_raw := filter (\<lambda>r. now_ms + 3600000 \<le> rr_ts r) (st_raw st)\<rparr>)"
    by (simp add: run_maintenance_on checkpoint maintenance_loop_prunes [OF w] cut
        del: maintenance_loop.simps)
qed

theorem negative_retention_deletes_history_witness:
  "run_maintenance (recorder_config_of (overlay_server_file [''retention_hours'' \<mapsto> TInteger (- 1)] (\<lambda>_. True) default_server_config))
     [0, 1700000000000] (Some (one_position 1699999999999)) = Some (storage_empty ''edge'' 3600000)"
proof -
  have "sv_checkpoint_secs default_server_config = 300" by (simp add: default_server_config_def)
  from negative_retention_deletes_history [OF _ _ this, of 1700000000000 0 "one_position 1699999999999"]
  show ?thesis by (simp add: one_position_def storage_empty_def position_row_of_def)
qed

subsection \<open>The end of a recording\<close>

text \<open>\<open>Recorder::run_with_weather\<close> runs the ingest pipeline beside the source and aborts it as soon as
  the source returns, while the source still holds the sender: the pipeline never sees its channel
  closed. \<open>es\<close> is what the pipeline got to handle.\<close>

definition recorder_ingest_config :: "recorder_config \<Rightarrow> ingest_config" where
  "recorder_ingest_config c = \<lparr>ig_source_id = so_source_id (rd_storage c), dump1090_tz = rd_dump1090_tz c,
     flush_interval = from_millis 500\<rparr>"

definition recorder_run ::
  "((string \<rightharpoonup> aircraft_position) \<Rightarrow> string list) \<Rightarrow> recorder_config \<Rightarrow> instant \<Rightarrow> ingest_event list
    \<Rightarrow> ingest_effect list \<times> ingest" where
  "recorder_run order c now es =
     ingest_run order (filter (\<lambda>e. e \<noteq> Channel_Closed) es) (ingest_new True (recorder_ingest_config c) now)"

lemma ingest_run_append:
  assumes "Channel_Closed \<notin> set es"
  shows "ingest_run order (es @ fs) st =
     (let (out, st) = ingest_run order es st; (outs, st) = ingest_run order fs st in (out @ outs, st))"
  using assms
proof (induction es arbitrary: st)
  case (Cons e es)
  then show ?case by (cases e) (auto simp: Let_def split: prod.splits)
qed (simp add: Let_def)

lemma ingest_run_quiet:
  assumes "\<forall>e \<in> set es. e \<noteq> Flush_Tick \<and> e \<noteq> Channel_Closed"
  shows "fst (ingest_run order es st) = []"
  using assms
proof (induction es arbitrary: st)
  case (Cons e es)
  then show ?case by (cases e) auto
qed simp

text \<open>What the recorder received since the last tick of its pipeline is lost when the source ends
  or the process is told to stop: neither the database nor anyone else gets it. Closing the channel
  instead of aborting the task would have stored it with one more flush.\<close>

theorem recorder_drops_last_window:
  assumes "Channel_Closed \<notin> set es" and "\<forall>e \<in> set rest. e \<noteq> Flush_Tick \<and> e \<noteq> Channel_Closed"
  shows "fst (recorder_run order c now (es @ rest)) = fst (recorder_run order c now es)
    \<and> fst (ingest_run order (es @ rest @ [Channel_Closed]) (ingest_new True (recorder_ingest_config c) now))
      = fst (recorder_run order c now (es @ rest)) @ fst (flush order (snd (recorder_run order c now (es @ rest))))"
proof -
  let ?s = "ingest_new True (recorder_ingest_config c) now"
  have closed: "Channel_Closed \<notin> set rest" using assms(2) by auto
  then have same: "filter (\<lambda>e. e \<noteq> Channel_Closed) es = es" "filter (\<lambda>e. e \<noteq> Channel_Closed) rest = rest"
    using assms(1) by (auto simp: filter_id_conv)
  have "fst (recorder_run order c now (es @ rest)) = fst (recorder_run order c now es)"
    by (simp add: recorder_run_def same ingest_run_append [OF assms(1)] ingest_run_quiet [OF assms(2)]
        Let_def case_prod_beta)
  moreover have "Channel_Closed \<notin> set (es @ rest)" using assms(1) closed by simp
  from ingest_run_append [OF this, of order "[Channel_Closed]" ?s]
  have "fst (ingest_run order (es @ rest @ [Channel_Closed]) ?s)
      = fst (ingest_run order (es @ rest) ?s) @ fst (flush order (snd (ingest_run order (es @ rest) ?s)))"
    by (simp add: Let_def case_prod_beta)
  ultimately show ?thesis by (simp add: recorder_run_def same)
qed

theorem recorder_drops_last_window_witness:
  "fst (recorder_run (\<lambda>m. sorted_list_of_set (dom m)) default_recorder_config 0 ([Flush_Tick] @ [Received (join_with '','' position_fields) 5])) = []"
  using recorder_drops_last_window [of "[Flush_Tick]" "[Received (join_with '','' position_fields) 5]"
      "\<lambda>m. sorted_list_of_set (dom m)" default_recorder_config 0]
  by (simp add: recorder_run_def flush_def ingest_new_def persist_raw_batch_def)

subsection \<open>The topics of a deployment agree\<close>

lemma weather_topic_staged:
  assumes "mqtt_weather_topic c = []" "mqtt_topic c = stage @ ''/sbs/raw''"
  shows "weather_topic c = stage @ ''/weather/grid''"
proof -
  have "strip_suffix ''/sbs/raw'' (mqtt_topic c) = Some stage" using assms(2) by simp
  with assms(1) show ?thesis by (simp add: weather_topic_def del: strip_suffix_iff)
qed

text \<open>A recorder, a desktop client and a weather service that are pointed at the same feed topic
  meet on the same weather topics without being told: the recorder's and the client's derived grid
  topic is the service's own default when the feed topic is the default, it is the staged topic
  \<open><prefix>/weather/grid\<close> for a staged feed topic, and the SBS feed never carries it.\<close>

theorem deployment_topics_agree:
  "weather_topic (feed_config now_path default_server_config) = wc_mqtt_topic default_weather_config
   \<and> wt_grid (from_grid_topic (wc_mqtt_topic default_weather_config)) = weather_topic (default_config now_path)
   \<and> weather_topic (feed_config now_path (default_server_config\<lparr>sv_mqtt_topic := stage @ ''/sbs/raw''\<rparr>)) = stage @ ''/weather/grid''
   \<and> stage @ ''/weather/grid'' \<noteq> stage @ ''/sbs/raw''"
proof -
  have "weather_topic (feed_config now_path default_server_config) = ''adsb'' @ ''/weather/grid''"
    by (rule weather_topic_staged) (simp_all add: feed_config_def default_server_config_def)
  moreover have "weather_topic (default_config now_path) = ''adsb'' @ ''/weather/grid''"
    by (rule weather_topic_staged) (simp_all add: default_config_def)
  moreover have "weather_topic (feed_config now_path (default_server_config\<lparr>sv_mqtt_topic := stage @ ''/sbs/raw''\<rparr>))
      = stage @ ''/weather/grid''"
    by (rule weather_topic_staged) (simp_all add: feed_config_def default_server_config_def)
  ultimately show ?thesis by (simp add: default_weather_config_def from_grid_topic_def Let_def)
qed

end
