(* ===== verification/Database_Transfer.thy ===== *)
theory Database_Transfer imports Weather_Archive Flight_Queries Quack_Share begin

text \<open>
  Moving data between databases (\<open>adsb-data-engine/src/storage.rs\<close>): the export of the recorded tables
  to a new file, the preview of an external file and the import from it. What attaching a file and
  reading a table of it answer is the environment's; the statements run without a transaction around
  them.
\<close>

record database =
  db_storage :: storage
  db_weather :: "weather_record list"

text \<open>A table of an external file: it cannot be read, is missing, or has rows.\<close>

type_synonym 'r table = "storage_error + 'r list option"

record import_file =
  xf_positions :: "position_row table"
  xf_raw :: "raw_row table"
  xf_weather :: "weather_record table"

subsection \<open>Export\<close>

definition export_body :: string where
  "export_body = '' AS export_db;
             CREATE TABLE export_db.positions AS SELECT * FROM positions;
             CREATE TABLE export_db.raw_messages AS SELECT * FROM raw_messages;
             CREATE TABLE export_db.weather_snapshots AS SELECT * FROM weather_snapshots;
             DETACH export_db;''"

definition export_sql :: "string \<Rightarrow> string" where
  "export_sql target = ''ATTACH '' @ sql_literal target @ export_body"

definition export_database :: "database \<Rightarrow> import_file" where
  "export_database d = \<lparr>xf_positions = Inr (Some (st_positions (db_storage d))),
     xf_raw = Inr (Some (st_raw (db_storage d))), xf_weather = Inr (Some (db_weather d))\<rparr>"

subsection \<open>Preview\<close>

record table_preview =
  tp_row_count :: nat
  tp_oldest_timestamp_ms :: "int option"
  tp_newest_timestamp_ms :: "int option"

record import_preview =
  ip_positions :: table_preview
  ip_raw_messages :: table_preview
  ip_weather_snapshots :: table_preview

definition preview_rows :: "int list \<Rightarrow> table_preview" where
  "preview_rows ts = \<lparr>tp_row_count = length ts,
     tp_oldest_timestamp_ms = (if ts = [] then None else Some (Min (set ts))),
     tp_newest_timestamp_ms = (if ts = [] then None else Some (Max (set ts)))\<rparr>"

definition preview_table :: "('r \<Rightarrow> int) \<Rightarrow> 'r table \<Rightarrow> storage_error + table_preview" where
  "preview_table ts_col t = (case t of
      Inl e \<Rightarrow> Inl e
    | Inr None \<Rightarrow> Inr \<lparr>tp_row_count = 0, tp_oldest_timestamp_ms = None, tp_newest_timestamp_ms = None\<rparr>
    | Inr (Some rows) \<Rightarrow> Inr (preview_rows (map ts_col rows)))"

definition preview_import :: "storage_error + import_file \<Rightarrow> storage_error + import_preview" where
  "preview_import attached = (case attached of Inl e \<Rightarrow> Inl e | Inr f \<Rightarrow>
     (case preview_table pr_ts (xf_positions f) of Inl e \<Rightarrow> Inl e | Inr p \<Rightarrow>
     (case preview_table rr_ts (xf_raw f) of Inl e \<Rightarrow> Inl e | Inr r \<Rightarrow>
     (case preview_table wr_valid_time_ms (xf_weather f) of Inl e \<Rightarrow> Inl e | Inr w \<Rightarrow>
        Inr \<lparr>ip_positions = p, ip_raw_messages = r, ip_weather_snapshots = w\<rparr>))))"

subsection \<open>Import\<close>

record import_result =
  im_positions :: nat
  im_raw_messages :: nat
  im_weather_snapshots :: nat

text \<open>The rows whose key no row of the table has. SQL evaluates the anti-join against the table as it
  was before the statement.\<close>

definition anti_join :: "('r \<Rightarrow> 'k) \<Rightarrow> 'r list \<Rightarrow> 'r list \<Rightarrow> 'r list" where
  "anti_join key rows new = filter (\<lambda>r. \<not> list_ex (\<lambda>q. key q = key r) rows) new"

definition import_table :: "('r \<Rightarrow> 'k) \<Rightarrow> 'r table \<Rightarrow> 'r list \<Rightarrow> storage_error + nat \<times> 'r list" where
  "import_table key t rows = (case t of
      Inl e \<Rightarrow> Inl e
    | Inr None \<Rightarrow> Inr (0, rows)
    | Inr (Some new) \<Rightarrow> Inr (length (anti_join key rows new), rows @ anti_join key rows new))"

definition position_key :: "position_row \<Rightarrow> string \<times> int" where
  "position_key r = (pr_hex r, pr_ts r)"

definition raw_key :: "raw_row \<Rightarrow> string \<times> int \<times> string" where
  "raw_key r = (rr_hex r, rr_ts r, rr_message r)"

definition weather_row_key :: "weather_record \<Rightarrow> string \<times> int" where
  "weather_row_key w = (wr_source_id w, wr_valid_time_ms w)"

definition import_database ::
  "storage_error + unit \<Rightarrow> storage_error + import_file \<Rightarrow> database \<Rightarrow> (storage_error + import_result) \<times> database" where
  "import_database checkpoint attached d = (case checkpoint of Inl e \<Rightarrow> (Inl e, d) | Inr _ \<Rightarrow>
     (case attached of Inl e \<Rightarrow> (Inl e, d) | Inr f \<Rightarrow>
     (case import_table position_key (xf_positions f) (st_positions (db_storage d)) of Inl e \<Rightarrow> (Inl e, d) | Inr (np, ps) \<Rightarrow>
      (let d = d\<lparr>db_storage := (db_storage d)\<lparr>st_positions := ps\<rparr>\<rparr>
       in case import_table raw_key (xf_raw f) (st_raw (db_storage d)) of Inl e \<Rightarrow> (Inl e, d) | Inr (nr, rs) \<Rightarrow>
      (let d = d\<lparr>db_storage := (db_storage d)\<lparr>st_raw := rs\<rparr>\<rparr>
       in case import_table weather_row_key (xf_weather f) (db_weather d) of Inl e \<Rightarrow> (Inl e, d) | Inr (nw, ws) \<Rightarrow>
         (Inr \<lparr>im_positions = np, im_raw_messages = nr, im_weather_snapshots = nw\<rparr>, d\<lparr>db_weather := ws\<rparr>))))))"

subsection \<open>Importing a table\<close>

lemma anti_join_self: "set new \<subseteq> set rows \<Longrightarrow> anti_join key rows new = []"
  by (auto simp: anti_join_def filter_empty_conv list_ex_iff)

lemma anti_join_empty [simp]: "anti_join key [] new = new"
  by (simp add: anti_join_def)

lemma anti_join_again: "anti_join key (rows @ anti_join key rows new) new = []"
  by (auto simp: anti_join_def filter_empty_conv list_ex_iff)

lemma import_table_again:
  "import_table key t rows = Inr (n, rows') \<Longrightarrow> import_table key t rows' = Inr (0, rows')"
  by (auto simp: import_table_def anti_join_again split: sum.splits option.splits)

definition table_rows :: "'r table \<Rightarrow> 'r list" where
  "table_rows t = (case t of Inr (Some rows) \<Rightarrow> rows | _ \<Rightarrow> [])"

lemma import_table_result:
  "import_table key t rows = Inr (n, rows') \<Longrightarrow> rows' = rows @ anti_join key rows (table_rows t)
     \<and> n = length (anti_join key rows (table_rows t))"
  by (auto simp: import_table_def table_rows_def split: sum.splits option.splits)
    (simp_all add: anti_join_def)

lemma import_cases:
  assumes "import_database cp (Inr f) d = (Inr res, d')"
  obtains ps rs ws where
    "import_table position_key (xf_positions f) (st_positions (db_storage d)) = Inr (im_positions res, ps)"
    "import_table raw_key (xf_raw f) (st_raw (db_storage d)) = Inr (im_raw_messages res, rs)"
    "import_table weather_row_key (xf_weather f) (db_weather d) = Inr (im_weather_snapshots res, ws)"
    "d' = d\<lparr>db_storage := (db_storage d)\<lparr>st_positions := ps, st_raw := rs\<rparr>, db_weather := ws\<rparr>" "cp = Inr ()"
  using assms by (auto simp: import_database_def Let_def split: sum.splits prod.splits)

text \<open>What an import does to a table with key \<open>key\<close>: the rows afterwards are those that were there and,
  each as often as the file has it, the rows of the file whose key no row of the table had.\<close>

definition imported_into :: "('r \<Rightarrow> 'k) \<Rightarrow> 'r table \<Rightarrow> 'r list \<Rightarrow> nat \<Rightarrow> 'r list \<Rightarrow> bool" where
  "imported_into key t rows n rows' \<longleftrightarrow>
     mset rows' = mset rows + {#r \<in># mset (table_rows t). key r \<notin> key ` set rows#}
   \<and> n = size {#r \<in># mset (table_rows t). key r \<notin> key ` set rows#}
   \<and> key ` set rows' = key ` set rows \<union> key ` set (table_rows t)"

lemma import_table_into:
  assumes "import_table key t rows = Inr (n, rows')"
  shows "imported_into key t rows n rows'"
proof -
  have res: "rows' = rows @ anti_join key rows (table_rows t) \<and> n = length (anti_join key rows (table_rows t))"
    using assms by (rule import_table_result)
  have added: "mset (anti_join key rows (table_rows t)) = {#r \<in># mset (table_rows t). key r \<notin> key ` set rows#}"
    by (auto simp: anti_join_def list_ex_iff image_iff simp flip: mset_filter intro!: arg_cong [where f = mset] filter_cong)
  have "key ` set rows' = key ` set rows \<union> key ` set (table_rows t)"
  proof -
    have "set (anti_join key rows (table_rows t)) = {r \<in> set (table_rows t). key r \<notin> key ` set rows}"
      by (auto simp: anti_join_def list_ex_iff image_iff)
    then show ?thesis using res by auto
  qed
  moreover have "n = size {#r \<in># mset (table_rows t). key r \<notin> key ` set rows#}"
    using res added by (metis size_mset)
  ultimately show ?thesis using res added by (simp add: imported_into_def)
qed

text \<open>C34: A successful import adds exactly what is missing: each of the three tables has afterwards the rows
  it had and the rows of the file whose keys it did not have, repeated rows of the file as often as they
  are there, as many as reported; so it then has every key of the file. Flights and the tracker are as
  before. Importing the same file again adds nothing.\<close>

theorem import_adds_what_is_missing:
  assumes "import_database cp (Inr f) d = (Inr res, d')"
  shows "imported_into position_key (xf_positions f) (st_positions (db_storage d)) (im_positions res) (st_positions (db_storage d'))
    \<and> imported_into raw_key (xf_raw f) (st_raw (db_storage d)) (im_raw_messages res) (st_raw (db_storage d'))
    \<and> imported_into weather_row_key (xf_weather f) (db_weather d) (im_weather_snapshots res) (db_weather d')
    \<and> st_flights (db_storage d') = st_flights (db_storage d) \<and> st_tracker (db_storage d') = st_tracker (db_storage d)
    \<and> import_database cp (Inr f) d' = (Inr \<lparr>im_positions = 0, im_raw_messages = 0, im_weather_snapshots = 0\<rparr>, d')"
proof -
  obtain ps rs ws where
    t: "import_table position_key (xf_positions f) (st_positions (db_storage d)) = Inr (im_positions res, ps)"
       "import_table raw_key (xf_raw f) (st_raw (db_storage d)) = Inr (im_raw_messages res, rs)"
       "import_table weather_row_key (xf_weather f) (db_weather d) = Inr (im_weather_snapshots res, ws)"
    and d': "d' = d\<lparr>db_storage := (db_storage d)\<lparr>st_positions := ps, st_raw := rs\<rparr>, db_weather := ws\<rparr>" and cp: "cp = Inr ()"
    using assms by (rule import_cases)
  note again = t [THEN import_table_again]
  have "import_database cp (Inr f) d' = (Inr \<lparr>im_positions = 0, im_raw_messages = 0, im_weather_snapshots = 0\<rparr>, d')"
    by (simp add: import_database_def Let_def cp d' again)
  with t [THEN import_table_into] d' show ?thesis by simp
qed

definition empty_database :: database where
  "empty_database = \<lparr>db_storage = storage_empty ''edge'' 3600000, db_weather = []\<rparr>"

definition seen_row :: "string \<Rightarrow> int \<Rightarrow> position_row" where
  "seen_row hex ts = position_row_of ''edge'' (located_position hex, ts)"

definition seen_file :: "position_row list \<Rightarrow> import_file" where
  "seen_file rows = \<lparr>xf_positions = Inr (Some rows), xf_raw = Inr None, xf_weather = Inr None\<rparr>"

lemma import_into_empty: "import_database (Inr ()) (Inr (seen_file rows)) empty_database
    = (Inr \<lparr>im_positions = length rows, im_raw_messages = 0, im_weather_snapshots = 0\<rparr>,
       empty_database\<lparr>db_storage := (db_storage empty_database)\<lparr>st_positions := rows\<rparr>\<rparr>)"
  by (simp add: import_database_def import_table_def seen_file_def empty_database_def storage_empty_def Let_def)

theorem import_adds_what_is_missing_witness:
  "import_database (Inr ()) (Inr (seen_file [seen_row ''ABC'' 5]))
      (empty_database\<lparr>db_storage := (db_storage empty_database)\<lparr>st_positions := [seen_row ''ABC'' 5]\<rparr>\<rparr>)
    = (Inr \<lparr>im_positions = 0, im_raw_messages = 0, im_weather_snapshots = 0\<rparr>,
       empty_database\<lparr>db_storage := (db_storage empty_database)\<lparr>st_positions := [seen_row ''ABC'' 5]\<rparr>\<rparr>)"
  using import_adds_what_is_missing [OF import_into_empty] by blast

subsection \<open>Export and back\<close>

text \<open>An export imported into an empty database restores positions, raw messages and weather exactly,
  in order, repeated rows included, and imported back into the database it was taken from it adds
  nothing. The statement that writes it carries the path as a literal, whatever its name.\<close>

theorem export_import_round_trip:
  assumes "st_positions (db_storage e) = []" "st_raw (db_storage e) = []" "db_weather e = []"
  shows "import_database (Inr ()) (Inr (export_database d)) e =
      (Inr \<lparr>im_positions = length (st_positions (db_storage d)), im_raw_messages = length (st_raw (db_storage d)),
            im_weather_snapshots = length (db_weather d)\<rparr>,
       e\<lparr>db_storage := (db_storage e)\<lparr>st_positions := st_positions (db_storage d), st_raw := st_raw (db_storage d)\<rparr>,
         db_weather := db_weather d\<rparr>)
    \<and> import_database (Inr ()) (Inr (export_database d)) d =
      (Inr \<lparr>im_positions = 0, im_raw_messages = 0, im_weather_snapshots = 0\<rparr>, d)
    \<and> sql_scan In_Text (export_sql path) = Some (map Plain ''ATTACH '' @ Lit path # map Plain export_body)"
proof (intro conjI)
  show "import_database (Inr ()) (Inr (export_database d)) e =
      (Inr \<lparr>im_positions = length (st_positions (db_storage d)), im_raw_messages = length (st_raw (db_storage d)),
            im_weather_snapshots = length (db_weather d)\<rparr>,
       e\<lparr>db_storage := (db_storage e)\<lparr>st_positions := st_positions (db_storage d), st_raw := st_raw (db_storage d)\<rparr>,
         db_weather := db_weather d\<rparr>)"
    by (simp add: import_database_def import_table_def export_database_def assms Let_def)
  show "import_database (Inr ()) (Inr (export_database d)) d =
      (Inr \<lparr>im_positions = 0, im_raw_messages = 0, im_weather_snapshots = 0\<rparr>, d)"
    by (simp add: import_database_def import_table_def export_database_def anti_join_self Let_def)
  have "QUOTE \<notin> set export_body" "hd export_body \<noteq> QUOTE" by (simp_all add: export_body_def)
  then show "sql_scan In_Text (export_sql path) = Some (map Plain ''ATTACH '' @ Lit path # map Plain export_body)"
    unfolding export_sql_def by (simp add: sql_simps)
qed

theorem export_import_round_trip_witness:
  "snd (import_database (Inr ()) (Inr (export_database
      (empty_database\<lparr>db_storage := (db_storage empty_database)\<lparr>st_positions := [seen_row ''ABC'' 5]\<rparr>\<rparr>))) empty_database)
    = empty_database\<lparr>db_storage := (db_storage empty_database)\<lparr>st_positions := [seen_row ''ABC'' 5]\<rparr>\<rparr>"
  using export_import_round_trip [of empty_database "empty_database\<lparr>db_storage := (db_storage empty_database)\<lparr>st_positions := [seen_row ''ABC'' 5]\<rparr>\<rparr>"]
  by (simp add: empty_database_def storage_empty_def)

subsection \<open>What an import leaves out\<close>

text \<open>Imported positions belong to no flight. Into a database that has none, an export of any history
  restores the positions and yet no flight is listed and no trajectory drawn; and in a database that has
  flights an imported position outside all of them is in no trajectory, however often it is imported.\<close>

theorem imported_positions_without_flight:
  assumes "import_database cp (Inr f) d = (Inr res, d')"
    and "r \<in> set (table_rows (xf_positions f))" "\<forall>fl \<in> set (st_flights (db_storage d)). \<not> of_flight r fl"
  shows "position_key r \<in> position_key ` set (st_positions (db_storage d'))
    \<and> (\<forall>i. (r, i) \<notin> set (get_all_trajectories start_ms end_ms (db_storage d')))
    \<and> get_flight_summary start_ms end_ms (db_storage d') = get_flight_summary start_ms end_ms (db_storage d)"
proof -
  obtain ps rs ws where
    t: "import_table position_key (xf_positions f) (st_positions (db_storage d)) = Inr (im_positions res, ps)"
    and d': "d' = d\<lparr>db_storage := (db_storage d)\<lparr>st_positions := ps, st_raw := rs\<rparr>, db_weather := ws\<rparr>"
    using assms(1) by (rule import_cases)
  have "position_key r \<in> position_key ` set ps"
    using import_table_into [OF t] assms(2) by (auto simp: imported_into_def)
  moreover have "(r, i) \<notin> set (get_all_trajectories start_ms end_ms (db_storage d'))" for i
    using assms(3) by (auto simp: get_all_trajectories_def d')
  ultimately show ?thesis by (simp add: d' get_flight_summary_def)
qed

theorem imported_positions_without_flight_witness:
  "get_flight_summary None None (db_storage (snd (import_database (Inr ()) (Inr (seen_file [seen_row ''ABC'' 5])) empty_database))) = []"
proof -
  have "seen_row ''ABC'' 5 \<in> set (table_rows (xf_positions (seen_file [seen_row ''ABC'' 5])))"
    by (simp add: seen_file_def table_rows_def)
  from imported_positions_without_flight [OF import_into_empty this, of None None]
  have "get_flight_summary None None (db_storage (snd (import_database (Inr ()) (Inr (seen_file [seen_row ''ABC'' 5])) empty_database)))
      = get_flight_summary None None (db_storage empty_database)"
    unfolding import_into_empty by (simp add: empty_database_def storage_empty_def)
  then show ?thesis by (simp add: empty_database_def storage_empty_def get_flight_summary_def)
qed

text \<open>An import that fails at a later table has kept the earlier ones, and says only that it failed.\<close>

theorem failed_import_is_partial:
  "import_database (Inr ()) (Inr \<lparr>xf_positions = Inr (Some rows), xf_raw = Inl e, xf_weather = w\<rparr>) d
    = (Inl e, d\<lparr>db_storage := (db_storage d)\<lparr>st_positions := st_positions (db_storage d)
         @ anti_join position_key (st_positions (db_storage d)) rows\<rparr>\<rparr>)"
  by (simp add: import_database_def import_table_def Let_def)

text \<open>A preview reports what an import would read: for a readable file the counts are those of its
  tables, and the times are the least and the greatest of each.\<close>

theorem preview_describes_file:
  assumes "preview_import (Inr f) = Inr p"
  shows "tp_row_count (ip_positions p) = length (table_rows (xf_positions f))
    \<and> tp_row_count (ip_raw_messages p) = length (table_rows (xf_raw f))
    \<and> tp_row_count (ip_weather_snapshots p) = length (table_rows (xf_weather f))
    \<and> (\<forall>r \<in> set (table_rows (xf_positions f)). \<exists>lo hi. tp_oldest_timestamp_ms (ip_positions p) = Some lo
          \<and> tp_newest_timestamp_ms (ip_positions p) = Some hi \<and> lo \<le> pr_ts r \<and> pr_ts r \<le> hi)
    \<and> (\<forall>cp d res d'. import_database cp (Inr f) d = (Inr res, d') \<longrightarrow> im_positions res \<le> tp_row_count (ip_positions p))"
proof -
  have table: "q = preview_rows (map k (table_rows t)) " if "preview_table k t = Inr q" for k :: "'r \<Rightarrow> int" and t q
    using that by (auto simp: preview_table_def table_rows_def preview_rows_def split: sum.splits option.splits)
  have p: "ip_positions p = preview_rows (map pr_ts (table_rows (xf_positions f)))"
     "ip_raw_messages p = preview_rows (map rr_ts (table_rows (xf_raw f)))"
     "ip_weather_snapshots p = preview_rows (map wr_valid_time_ms (table_rows (xf_weather f)))"
    using assms by (auto simp: preview_import_def split: sum.splits dest!: table)
  have "im_positions res \<le> length (table_rows (xf_positions f))"
    if run: "import_database cp (Inr f) d = (Inr res, d')" for cp d res d'
  proof -
    obtain ps rs ws where
      "import_table position_key (xf_positions f) (st_positions (db_storage d)) = Inr (im_positions res, ps)"
      using run by (rule import_cases)
    from import_table_result [OF this] show ?thesis by (simp add: anti_join_def)
  qed
  then show ?thesis by (auto simp: p preview_rows_def)
qed

theorem preview_describes_file_witness:
  "\<exists>p. preview_import (Inr (seen_file [seen_row ''ABC'' 5])) = Inr p \<and> tp_row_count (ip_positions p) = 1"
proof -
  have "preview_import (Inr (seen_file [seen_row ''ABC'' 5])) = Inr \<lparr>ip_positions = preview_rows [5],
      ip_raw_messages = \<lparr>tp_row_count = 0, tp_oldest_timestamp_ms = None, tp_newest_timestamp_ms = None\<rparr>,
      ip_weather_snapshots = \<lparr>tp_row_count = 0, tp_oldest_timestamp_ms = None, tp_newest_timestamp_ms = None\<rparr>\<rparr>"
    by (simp add: preview_import_def preview_table_def seen_file_def seen_row_def position_row_of_def)
  from this preview_describes_file [OF this] show ?thesis
    by (auto simp: seen_file_def table_rows_def)
qed

end
