(* ===== verification/Desktop_Config.thy ===== *)
theory Desktop_Config imports Quack_Share Feed_Config begin

text \<open>
  Settings of the desktop client, \<open>adsb-pulsar-client-desktop/src-tauri/src\<close>: where its history lives
  (\<open>storage_mode.rs\<close>), and the stack it belongs to and the environment variables it reads (\<open>lib.rs\<close>).
  The environment is the function that looks a variable up.
\<close>

subsection \<open>Paths\<close>

text \<open>\<open>Path::join\<close> on Unix.\<close>

definition path_join :: "string \<Rightarrow> string \<Rightarrow> string" where
  "path_join p f = (if starts_with ''/'' f then f else if p = [] \<or> last p = CHR ''/'' then p @ f else p @ ''/'' @ f)"

subsection \<open>Storage mode\<close>

definition EMBEDDED_DB :: string where "EMBEDDED_DB = ''adsb_history.db''"
definition LOCAL_DB :: string where "LOCAL_DB = ''adsb_local.db''"

datatype storage_mode = Embedded | Remote string "string option" "bool option"

definition nonblank :: "string \<Rightarrow> bool" where "nonblank s \<longleftrightarrow> trim s \<noteq> []"

definition keep_if :: "('a \<Rightarrow> bool) \<Rightarrow> 'a option \<Rightarrow> 'a option" where
  "keep_if p v = Option.bind v (\<lambda>x. if p x then Some x else None)"

definition to_storage_config :: "storage_mode \<Rightarrow> string \<Rightarrow> share_config option \<Rightarrow> storage_config" where
  "to_storage_config mode app_data_dir share =
     (let (file, remote) = (case mode of
          Embedded \<Rightarrow> (EMBEDDED_DB, None)
        | Remote uri token disable_ssl \<Rightarrow>
            (LOCAL_DB, Some \<lparr>rm_uri = uri, rm_token = keep_if nonblank token, rm_disable_ssl = disable_ssl\<rparr>))
      in \<lparr>so_db_path = Some (path_join app_data_dir file), so_source_id = ''desktop'',
          so_gap_threshold_ms = 3600000, so_share = share, so_remote = remote\<rparr>)"

fun validate_mode :: "storage_mode \<Rightarrow> string + unit" where
  "validate_mode Embedded = Inr ()"
| "validate_mode (Remote uri _ _) =
     (if trim uri = [] then Inl ''Remote URI cannot be empty''
      else if \<not> starts_with ''quack:'' (trim uri)
      then Inl (''Remote URI must start with '' @ [QUOTE] @ ''quack:'' @ [QUOTE] @ '' (got '' @ [QUOTE] @ trim uri @ [QUOTE] @ '')'')
      else Inr ())"

fun mode_label :: "storage_mode \<Rightarrow> string" where
  "mode_label Embedded = ''embedded''"
| "mode_label (Remote uri _ _) = ''remote ('' @ uri @ '')''"

definition resolve_mode :: "storage_mode option \<Rightarrow> storage_mode option \<Rightarrow> storage_mode" where
  "resolve_mode stored from_env = (case opt_or stored from_env of Some m \<Rightarrow> m | None \<Rightarrow> Embedded)"

subsection \<open>Stacks\<close>

definition alphanumeric :: "char \<Rightarrow> bool" where
  "alphanumeric c \<longleftrightarrow> is_digit c \<or> (65 \<le> (of_char c :: nat) \<and> (of_char c :: nat) \<le> 90)
     \<or> (97 \<le> (of_char c :: nat) \<and> (of_char c :: nat) \<le> 122)"

definition stack_name :: "string option \<Rightarrow> string option" where
  "stack_name raw = Option.bind raw (\<lambda>r.
     let name = trim r
     in if name = [] then None
        else if to_ascii_lowercase name = ''default'' then None
        else if \<not> list_all (\<lambda>c. alphanumeric c \<or> c = CHR ''-'' \<or> c = CHR ''_'') name then None
        else Some name)"

definition stack_data_dir :: "string \<Rightarrow> string option \<Rightarrow> string" where
  "stack_data_dir app_data_dir stack = (case stack of Some name \<Rightarrow> path_join app_data_dir name | None \<Rightarrow> app_data_dir)"

definition CONFIG_STORE_FILE :: string where "CONFIG_STORE_FILE = ''config.json''"

definition store_path :: "string option \<Rightarrow> string" where
  "store_path stack = (case stack of Some name \<Rightarrow> name @ ''/'' @ CONFIG_STORE_FILE | None \<Rightarrow> CONFIG_STORE_FILE)"

subsection \<open>Overrides of the feed configuration\<close>

type_synonym env = "string \<Rightarrow> string option"

definition env_var :: "env \<Rightarrow> string \<Rightarrow> string option" where
  "env_var get name = keep_if (\<lambda>v. v \<noteq> []) (map_option trim (get name))"

definition apply_env_overrides :: "env \<Rightarrow> config \<Rightarrow> config" where
  "apply_env_overrides get =
     ovl (env_var get ''ADSB_WEATHER_API_URL'') (\<lambda>v c. c\<lparr>weather_api_url := v\<rparr>)
   \<circ> ovl (env_var get ''ADSB_MQTT_WEATHER_TOPIC'') (\<lambda>v c. c\<lparr>mqtt_weather_topic := v\<rparr>)
   \<circ> ovl (env_var get ''ADSB_MQTT_TOPIC'') (\<lambda>v c. c\<lparr>mqtt_topic := v\<rparr>)
   \<circ> ovl (Option.bind (env_var get ''ADSB_MQTT_PORT'') (parse_unsigned U16_MAX)) (\<lambda>v c. c\<lparr>mqtt_port := v\<rparr>)
   \<circ> ovl (env_var get ''ADSB_MQTT_BROKER'') (\<lambda>v c. c\<lparr>mqtt_broker := v\<rparr>)
   \<circ> ovl (Option.bind (env_var get ''ADSB_SOCKET_PORT'') (parse_unsigned U16_MAX)) (\<lambda>v c. c\<lparr>socket_port := v\<rparr>)
   \<circ> ovl (env_var get ''ADSB_SOCKET_HOST'') (\<lambda>v c. c\<lparr>socket_host := v\<rparr>)
   \<circ> ovl (env_var get ''ADSB_SOURCE_ID'') (\<lambda>v c. c\<lparr>source_id := v\<rparr>)
   \<circ> ovl (Option.bind (env_var get ''ADSB_SOURCE_KIND'') parse_source_kind) (\<lambda>v c. c\<lparr>source_kind := v\<rparr>)"

text \<open>\<open>load_config\<close>: what the store holds, when it could be read, with the environment on top.\<close>

definition load_config :: "string \<Rightarrow> config option \<Rightarrow> env \<Rightarrow> config" where
  "load_config now_path stored get =
     apply_env_overrides get (case stored of Some c \<Rightarrow> c | None \<Rightarrow> default_config now_path)"

subsection \<open>Sharing and remote storage\<close>

definition truthy :: "string option \<Rightarrow> bool" where
  "truthy v \<longleftrightarrow> (case v of None \<Rightarrow> False
     | Some s \<Rightarrow> to_ascii_lowercase (trim s) \<in> {''1'', ''true'', ''yes'', ''on''})"

definition build_share_config ::
  "string option \<Rightarrow> string option \<Rightarrow> string option \<Rightarrow> string option \<Rightarrow> share_config option" where
  "build_share_config auto_start uri token allow_other_hostname =
     (if auto_start = None \<and> uri = None \<and> token = None \<and> allow_other_hostname = None then None
      else Some \<lparr>sc_uri = (case keep_if nonblank uri of Some u \<Rightarrow> u | None \<Rightarrow> sc_uri default_share_config),
                 sc_token = keep_if nonblank token,
                 sc_allow_other_hostname = truthy allow_other_hostname,
                 sc_auto_start = truthy auto_start\<rparr>)"

definition share_config_from_env :: "env \<Rightarrow> share_config option" where
  "share_config_from_env get = build_share_config (get ''ADSB_SHARE_AUTO_START'') (get ''ADSB_SHARE_URI'')
     (get ''ADSB_SHARE_TOKEN'') (get ''ADSB_SHARE_ALLOW_OTHER_HOSTNAME'')"

definition build_remote_config :: "string option \<Rightarrow> string option \<Rightarrow> string option \<Rightarrow> remote_config option" where
  "build_remote_config uri token disable_ssl =
     map_option (\<lambda>u. \<lparr>rm_uri = u, rm_token = keep_if (\<lambda>t. t \<noteq> []) (map_option trim token),
                      rm_disable_ssl = map_option (\<lambda>v. truthy (Some v)) disable_ssl\<rparr>)
       (keep_if (\<lambda>u. u \<noteq> []) (map_option trim uri))"

definition storage_mode_from_env :: "env \<Rightarrow> storage_mode option" where
  "storage_mode_from_env get = map_option (\<lambda>r. Remote (rm_uri r) (rm_token r) (rm_disable_ssl r))
     (build_remote_config (get ''ADSB_REMOTE_URI'') (get ''ADSB_REMOTE_TOKEN'') (get ''ADSB_REMOTE_DISABLE_SSL''))"

definition DEFAULT_TOOL_SERVER_PORT :: nat where "DEFAULT_TOOL_SERVER_PORT = 8787"

definition tool_server_port :: "env \<Rightarrow> nat" where
  "tool_server_port get = (case Option.bind (get ''ADSB_AGENT_TOOL_SERVER_PORT'') (parse_unsigned U16_MAX) of
      Some p \<Rightarrow> p | None \<Rightarrow> DEFAULT_TOOL_SERVER_PORT)"

subsection \<open>What a stack name can be\<close>

lemma plain_chars:
  assumes "list_all (\<lambda>c. alphanumeric c \<or> c = CHR ''-'' \<or> c = CHR ''_'') name"
  shows "CHR ''/'' \<notin> set name" and "CHR ''.'' \<notin> set name"
  using assms by (auto simp: list_all_iff alphanumeric_def is_digit_def)

lemma stack_name_plain:
  assumes "stack_name raw = Some name"
  shows "name \<noteq> []" "CHR ''/'' \<notin> set name" "CHR ''.'' \<notin> set name" "to_ascii_lowercase name \<noteq> ''default''"
  using assms plain_chars by (auto simp: stack_name_def bind_eq_Some_conv Let_def split: if_splits)

lemma path_join_plain:
  "app \<noteq> [] \<Longrightarrow> last app \<noteq> CHR ''/'' \<Longrightarrow> CHR ''/'' \<notin> set f \<Longrightarrow> path_join app f = app @ ''/'' @ f"
  by (cases f) (auto simp: path_join_def starts_with_def)

definition mode_file :: "storage_mode \<Rightarrow> string" where
  "mode_file mode = (case mode of Embedded \<Rightarrow> EMBEDDED_DB | Remote _ _ _ \<Rightarrow> LOCAL_DB)"

lemma mode_file_plain: "CHR ''/'' \<notin> set (mode_file mode)"
  by (auto simp: mode_file_def EMBEDDED_DB_def LOCAL_DB_def split: storage_mode.split)

lemma db_path_of: "so_db_path (to_storage_config mode dir share) = Some (path_join dir (mode_file mode))"
  by (auto simp: to_storage_config_def mode_file_def split: storage_mode.split)

definition stack_part :: "string option \<Rightarrow> string" where
  "stack_part stack = (case stack of Some name \<Rightarrow> name @ ''/'' | None \<Rightarrow> [])"

lemma stack_db_path:
  assumes "app \<noteq> []" "last app \<noteq> CHR ''/''"
  shows "so_db_path (to_storage_config mode (stack_data_dir app (stack_name raw)) share)
    = Some (app @ ''/'' @ stack_part (stack_name raw) @ mode_file mode)"
proof (cases "stack_name raw")
  case None
  then show ?thesis
    by (simp add: db_path_of stack_data_dir_def stack_part_def path_join_plain [OF assms mode_file_plain])
next
  case (Some name)
  note plain = stack_name_plain [OF Some]
  have dir: "path_join app name = app @ ''/'' @ name" using assms plain(2) by (rule path_join_plain)
  have "CHR ''/'' \<noteq> last name" using plain(1,2) last_in_set by metis
  then have "path_join (app @ ''/'' @ name) (mode_file mode) = (app @ ''/'' @ name) @ ''/'' @ mode_file mode"
    using plain(1) by (intro path_join_plain mode_file_plain) auto
  then show ?thesis by (simp add: Some db_path_of stack_data_dir_def stack_part_def dir)
qed

lemma slash_split: "CHR ''/'' \<notin> set a \<Longrightarrow> CHR ''/'' \<notin> set b \<Longrightarrow> a @ ''/'' @ x = b @ ''/'' @ y \<Longrightarrow> a = b"
proof (induction a arbitrary: b)
  case Nil
  then show ?case by (cases b) auto
next
  case (Cons c a)
  then show ?case by (cases b) auto
qed

lemma stack_parts_differ:
  assumes "stack_name r1 \<noteq> stack_name r2" "CHR ''/'' \<notin> set f1" "CHR ''/'' \<notin> set f2"
  shows "stack_part (stack_name r1) @ f1 \<noteq> stack_part (stack_name r2) @ f2"
proof (cases "stack_name r1"; cases "stack_name r2")
  fix n1 n2 assume s: "stack_name r1 = Some n1" "stack_name r2 = Some n2"
  from slash_split [OF stack_name_plain(2) [OF s(1)] stack_name_plain(2) [OF s(2)], of f1 f2] assms(1) s
  show ?thesis by (auto simp: stack_part_def)
qed (use assms in \<open>auto simp: stack_part_def\<close>)

text \<open>Whatever \<open>ADSB_STACK\<close> holds, a stack's databases lie in the application's directory or in a
  directory directly below it, never outside (no component is \<open>..\<close>), and two instances launched for
  different stacks share neither a database, whatever their modes, nor a settings file.\<close>

theorem stacks_keep_apart:
  assumes "app \<noteq> []" "last app \<noteq> CHR ''/''"
  defines "db \<equiv> \<lambda>raw mode share. so_db_path (to_storage_config mode (stack_data_dir app (stack_name raw)) share)"
  shows "(\<exists>sub. db raw mode share = Some (app @ ''/'' @ sub @ mode_file mode) \<and> CHR ''.'' \<notin> set sub
        \<and> (sub = [] \<or> (\<exists>name. sub = name @ ''/'' \<and> name \<noteq> [] \<and> CHR ''/'' \<notin> set name)))
    \<and> (stack_name raw \<noteq> stack_name raw' \<longrightarrow>
        db raw mode share \<noteq> db raw' mode' share' \<and> store_path (stack_name raw) \<noteq> store_path (stack_name raw'))"
proof (intro conjI impI)
  have "CHR ''.'' \<notin> set (stack_part (stack_name raw))" and "stack_part (stack_name raw) = []
      \<or> (\<exists>name. stack_part (stack_name raw) = name @ ''/'' \<and> name \<noteq> [] \<and> CHR ''/'' \<notin> set name)"
    using stack_name_plain by (cases "stack_name raw"; force simp: stack_part_def)+
  then show "\<exists>sub. db raw mode share = Some (app @ ''/'' @ sub @ mode_file mode) \<and> CHR ''.'' \<notin> set sub
        \<and> (sub = [] \<or> (\<exists>name. sub = name @ ''/'' \<and> name \<noteq> [] \<and> CHR ''/'' \<notin> set name))"
    unfolding db_def stack_db_path [OF assms(1,2)] by blast
next
  assume "stack_name raw \<noteq> stack_name raw'"
  from stack_parts_differ [OF this mode_file_plain mode_file_plain]
  show "db raw mode share \<noteq> db raw' mode' share'"
    unfolding db_def stack_db_path [OF assms(1,2)] by simp
next
  assume d: "stack_name raw \<noteq> stack_name raw'"
  have store: "CHR ''/'' \<notin> set CONFIG_STORE_FILE" by (simp add: CONFIG_STORE_FILE_def)
  have "store_path s = stack_part s @ CONFIG_STORE_FILE" for s
    by (simp add: store_path_def stack_part_def split: option.split)
  then show "store_path (stack_name raw) \<noteq> store_path (stack_name raw')"
    using stack_parts_differ [OF d store store] by simp
qed

theorem stacks_keep_apart_witness:
  "store_path (stack_name (Some ''dev'')) \<noteq> store_path (stack_name (Some ''../..''))"
proof -
  have "stack_name (Some ''dev'') \<noteq> stack_name (Some ''../..'')"
    by (simp add: stack_name_def trim_eval to_ascii_lowercase_def ascii_lower_def alphanumeric_def is_digit_def)
  with stacks_keep_apart [where app = "''/data''" and raw = "Some ''dev''" and raw' = "Some ''../..''"] show ?thesis by simp
qed

subsection \<open>Overrides keep a configuration valid\<close>

lemma env_var_trimmed: "env_var get name = Some v \<Longrightarrow> trim v = v \<and> v \<noteq> []"
  by (auto simp: env_var_def keep_if_def bind_eq_Some_conv split: if_splits)

lemma ovl_preserves: "P c \<Longrightarrow> (\<And>x d. v = Some x \<Longrightarrow> P d \<Longrightarrow> P (upd x d)) \<Longrightarrow> P (ovl v upd c)"
  by (cases v) auto

lemma validate_ok: "validate c = Inr () \<longleftrightarrow>
     trim (source_id c) \<noteq> [] \<and> \<not> (metrics_port c > 0 \<and> metrics_bind_addr c = None)
   \<and> \<not> (PulsarFwd \<in> set (forwarders c) \<and> \<not> starts_with ''pulsar://'' (pulsar_broker c)
          \<and> \<not> starts_with ''pulsar+ssl://'' (pulsar_broker c))
   \<and> \<not> (MqttFwd \<in> set (forwarders c) \<and> trim (mqtt_broker c) = [])
   \<and> \<not> (MqttFwd \<in> set (forwarders c) \<and> trim (mqtt_topic c) = [])
   \<and> \<not> (MqttFwd \<in> set (forwarders c) \<and> mqtt_qos c > 2)
   \<and> \<not> (connection_mode c \<noteq> ''client'' \<and> connection_mode c \<noteq> ''server'')
   \<and> recv_buffer_size c \<noteq> 0 \<and> max_line_buffer_size c \<noteq> 0"
  unfolding validate_def by simp

lemma valid_update:
  "validate c = Inr () \<Longrightarrow> trim v \<noteq> [] \<Longrightarrow> validate (c\<lparr>source_id := v\<rparr>) = Inr ()"
  "validate c = Inr () \<Longrightarrow> trim v \<noteq> [] \<Longrightarrow> validate (c\<lparr>mqtt_broker := v\<rparr>) = Inr ()"
  "validate c = Inr () \<Longrightarrow> trim v \<noteq> [] \<Longrightarrow> validate (c\<lparr>mqtt_topic := v\<rparr>) = Inr ()"
  "validate c = Inr () \<Longrightarrow> validate (c\<lparr>weather_api_url := v\<rparr>) = Inr ()" "validate c = Inr () \<Longrightarrow> validate (c\<lparr>mqtt_weather_topic := v\<rparr>) = Inr ()"
  "validate c = Inr () \<Longrightarrow> validate (c\<lparr>mqtt_port := n\<rparr>) = Inr ()" "validate c = Inr () \<Longrightarrow> validate (c\<lparr>socket_port := n\<rparr>) = Inr ()"
  "validate c = Inr () \<Longrightarrow> validate (c\<lparr>socket_host := v\<rparr>) = Inr ()" "validate c = Inr () \<Longrightarrow> validate (c\<lparr>source_kind := k\<rparr>) = Inr ()"
  by (simp_all add: validate_ok metrics_bind_addr_def)

text \<open>The environment cannot break a configuration: on top of one that validates, any set of
  variables, blank and unreadable ones included, gives one that validates, with both ports still 16 bits
  wide; with every variable unset or blank it is the stored configuration itself.\<close>

theorem env_overrides_keep_valid:
  "(validate c = Inr () \<and> socket_port c < 2 ^ 16 \<and> mqtt_port c < 2 ^ 16
      \<longrightarrow> validate (apply_env_overrides get c) = Inr () \<and> socket_port (apply_env_overrides get c) < 2 ^ 16
          \<and> mqtt_port (apply_env_overrides get c) < 2 ^ 16)
   \<and> ((\<forall>name v. get name = Some v \<longrightarrow> trim v = []) \<longrightarrow> apply_env_overrides get c = c)"
proof (intro conjI [where P = "_ \<longrightarrow> _"] impI)
  let ?ok = "\<lambda>c. validate c = Inr () \<and> socket_port c < 2 ^ 16 \<and> mqtt_port c < 2 ^ 16"
  assume "?ok c"
  then show "?ok (apply_env_overrides get c)"
    unfolding apply_env_overrides_def comp_def
    by (intro ovl_preserves [where P = ?ok])
      (auto simp: valid_update bind_eq_Some_conv dest!: env_var_trimmed parse_unsigned_bound)
next
  assume "\<forall>name v. get name = Some v \<longrightarrow> trim v = []"
  then have "env_var get name = None" for name
    by (cases "get name") (auto simp: env_var_def keep_if_def)
  then show "apply_env_overrides get c = c" by (simp add: apply_env_overrides_def)
qed

theorem env_overrides_keep_valid_witness:
  "validate (apply_env_overrides [''ADSB_SOURCE_ID'' \<mapsto> ''edge'', ''ADSB_SOCKET_PORT'' \<mapsto> ''70000''] (default_config ''out.sbs'')) = Inr ()"
proof -
  have "validate (default_config ''out.sbs'') = Inr () \<and> socket_port (default_config ''out.sbs'') < 2 ^ 16
      \<and> mqtt_port (default_config ''out.sbs'') < 2 ^ 16"
    by (simp add: validate_def default_config_def trim_eval starts_with_def)
  with env_overrides_keep_valid [of "default_config ''out.sbs''"] show ?thesis by blast
qed

subsection \<open>A mode that passes its check\<close>

text \<open>The check of a storage mode looks at the trimmed URI and the configuration is built from the URI
  as it was typed, so that one with a blank before it passes and is then attached with the blank, under
  a name that does not start with \<open>quack:\<close>. The same URI given in the environment is trimmed first.\<close>

theorem validated_uri_attached_untrimmed:
  "validate_mode (Remote '' quack:pi.lan'' None None) = Inr ()
   \<and> so_remote (to_storage_config (Remote '' quack:pi.lan'' None None) dir share)
      = Some \<lparr>rm_uri = '' quack:pi.lan'', rm_token = None, rm_disable_ssl = None\<rparr>
   \<and> \<not> starts_with ''quack:'' '' quack:pi.lan''
   \<and> storage_mode_from_env [''ADSB_REMOTE_URI'' \<mapsto> '' quack:pi.lan''] = Some (Remote ''quack:pi.lan'' None None)"
proof -
  have "trim_start '' quack:pi.lan'' = ''quack:pi.lan''"
  proof -
    have "char_of (32 :: nat) = CHR '' ''" by code_simp
    then have "find_prefix white_space '' quack:pi.lan'' = Some ''quack:pi.lan''"
      by (simp add: white_space_def utf8_of_def upt_rec del: strip_prefix_iff)
    moreover have "strip_all white_space ''quack:pi.lan'' = ''quack:pi.lan''"
      by (rule strip_all_plain) (auto dest: white_space_ends simp: printable_def)
    ultimately show ?thesis by (simp add: trim_start_def strip_all.simps [of white_space "'' quack:pi.lan''"])
  qed
  moreover have "trim_end ''quack:pi.lan'' = ''quack:pi.lan''"
  proof -
    have "strip_all (map rev white_space) (rev ''quack:pi.lan'') = rev ''quack:pi.lan''"
      by (rule strip_all_plain) (auto dest: white_space_ends simp: printable_def hd_rev)
    then show ?thesis by (simp add: trim_end_def)
  qed
  ultimately have trimmed: "trim '' quack:pi.lan'' = ''quack:pi.lan''" by (simp add: trim_def)
  show ?thesis
    by (simp add: trimmed starts_with_def to_storage_config_def storage_mode_from_env_def
        build_remote_config_def keep_if_def)
qed

end
