(* ===== verification/Desktop_Storage.thy ===== *)
theory Desktop_Storage imports Desktop_Config Stored_Events begin

text \<open>
  The database of the desktop client while it runs: opening it at launch (\<open>init_storage\<close> in
  \<open>lib.rs\<close>) and the commands that release, reclaim and swap it and change the storage mode
  (\<open>commands.rs\<close>), with the files they rename (\<open>move_database_to_snapshot\<close> in the data engine's
  \<open>storage.rs\<close>). The directory maps a path to a file, which keeps its identity when it is renamed, as an
  open connection keeps its file. Whether a call of the environment works is an argument.
\<close>

subsection \<open>Paths\<close>

definition after_slash :: "string \<Rightarrow> string" where
  "after_slash p = rev (takeWhile (\<lambda>c. c \<noteq> CHR ''/'') (rev p))"

definition upto_slash :: "string \<Rightarrow> string" where
  "upto_slash p = rev (dropWhile (\<lambda>c. c \<noteq> CHR ''/'') (rev p))"

text \<open>\<open>Path::parent\<close> of a path that does not end in a slash.\<close>

definition parent :: "string \<Rightarrow> string option" where
  "parent p = (if after_slash p = [] then None
     else Some (if upto_slash p = [] \<or> upto_slash p = ''/'' then upto_slash p else butlast (upto_slash p)))"

definition file_stem :: "string \<Rightarrow> string" where
  "file_stem name = (let stem = rev (drop 1 (dropWhile (\<lambda>c. c \<noteq> CHR ''.'') (rev name)))
     in if stem = [] then name else stem)"

definition with_extension :: "string \<Rightarrow> string \<Rightarrow> string" where
  "with_extension p ext = upto_slash p @ file_stem (after_slash p) @ ''.'' @ ext"

subsection \<open>State\<close>

datatype storage_availability = SA_Available | SA_Released | SA_Unavailable

text \<open>What a database holds: rows of the feed and status events.\<close>

datatype 'r entry = Recorded 'r | Event status_event_type status_event_status

record connection =
  cn_file :: nat
  cn_config :: storage_config

record 'r desktop =
  ds_storage :: "connection option"
  ds_config :: "storage_config option"
  ds_mode :: storage_mode
  ds_saved_mode :: "storage_mode option"
  ds_disk :: "string \<rightharpoonup> nat"
  ds_rows :: "nat \<Rightarrow> 'r entry list"
  ds_next :: nat
  ds_emitted :: "storage_availability list"

text \<open>What the environment answers: to opening the file and setting the connection up (and whether a
  write-ahead log appears beside it), to an event insert, a checkpoint, making a directory, the two
  renames of a swap, and saving the settings.\<close>

record answers =
  an_app_dir :: "string + string"
  an_connect :: "storage_error + unit"
  an_setup :: "storage_error + unit"
  an_wal :: bool
  an_event :: bool
  an_checkpoint :: "storage_error + unit"
  an_create_dir :: "storage_error + unit"
  an_move :: "storage_error + unit"
  an_move_wal :: "storage_error + unit"
  an_rename :: "string + unit"
  an_save :: "string + unit"

definition emit :: "storage_availability \<Rightarrow> 'r desktop \<Rightarrow> 'r desktop" where
  "emit a s = s\<lparr>ds_emitted := ds_emitted s @ [a]\<rparr>"

definition append_entry :: "nat \<Rightarrow> 'r entry \<Rightarrow> 'r desktop \<Rightarrow> 'r desktop" where
  "append_entry f e s = s\<lparr>ds_rows := (ds_rows s)(f := ds_rows s f @ [e])\<rparr>"

definition record_event :: "answers \<Rightarrow> connection \<Rightarrow> status_event_status \<Rightarrow> 'r desktop \<Rightarrow> 'r desktop" where
  "record_event an h st s = (if an_event an then append_entry (cn_file h) (Event ET_Storage st) s else s)"

text \<open>\<open>StorageHandle::open\<close> as far as the directory goes: a file is created when the path has none.\<close>

definition open_file :: "string \<Rightarrow> bool \<Rightarrow> 'r desktop \<Rightarrow> nat \<times> 'r desktop" where
  "open_file p wal s =
     (let (f, s) = (case ds_disk s p of
            Some f \<Rightarrow> (f, s)
          | None \<Rightarrow> (ds_next s, s\<lparr>ds_disk := (ds_disk s)(p \<mapsto> ds_next s), ds_next := Suc (ds_next s),
                                  ds_rows := (ds_rows s)(ds_next s := [])\<rparr>))
      in (f, if wal \<and> ds_disk s (with_extension p ''db.wal'') = None
             then s\<lparr>ds_disk := (ds_disk s)(with_extension p ''db.wal'' \<mapsto> ds_next s), ds_next := Suc (ds_next s),
                    ds_rows := (ds_rows s)(ds_next s := [])\<rparr>
             else s))"

definition open_storage :: "answers \<Rightarrow> storage_config \<Rightarrow> 'r desktop \<Rightarrow> (storage_error + connection) \<times> 'r desktop" where
  "open_storage an c s = (case an_connect an of
      Inl e \<Rightarrow> (Inl e, s)
    | Inr _ \<Rightarrow>
       (let (f, s) = (case so_db_path c of
              Some p \<Rightarrow> open_file p (an_wal an) s
            | None \<Rightarrow> (ds_next s, s\<lparr>ds_next := Suc (ds_next s), ds_rows := (ds_rows s)(ds_next s := [])\<rparr>))
        in case an_setup an of Inl e \<Rightarrow> (Inl e, s) | Inr _ \<Rightarrow> (Inr \<lparr>cn_file = f, cn_config = c\<rparr>, s)))"

subsection \<open>Commands\<close>

definition get_storage_status :: "'r desktop \<Rightarrow> storage_availability" where
  "get_storage_status s =
     (if ds_storage s \<noteq> None then SA_Available
      else if ds_config s \<noteq> None then SA_Released else SA_Unavailable)"

definition release_storage :: "answers \<Rightarrow> 'r desktop \<Rightarrow> (string + unit) \<times> 'r desktop" where
  "release_storage an s = (case ds_storage s of
      None \<Rightarrow> (Inr (), emit SA_Released s)
    | Some h \<Rightarrow>
       (let s = record_event an h ES_Released s
        in case an_checkpoint an of
             Inl e \<Rightarrow> (Inl (''Checkpoint failed: '' @ show_storage_error e), s)
           | Inr _ \<Rightarrow> (Inr (), emit SA_Released (s\<lparr>ds_storage := None\<rparr>))))"

definition em_dash :: string where "em_dash = utf8_of [226, 128, 148]"

definition reclaim_storage :: "answers \<Rightarrow> 'r desktop \<Rightarrow> (string + unit) \<times> 'r desktop" where
  "reclaim_storage an s = (case ds_config s of
      None \<Rightarrow> (Inl (''No storage config available '' @ em_dash @ '' storage was never initialized''), s)
    | Some c \<Rightarrow> (case open_storage an c s of
        (Inl e, s) \<Rightarrow> (Inl (''Failed to reopen storage: '' @ show_storage_error e), s)
      | (Inr h, s) \<Rightarrow> (Inr (), emit SA_Available ((record_event an h ES_Reclaimed s)\<lparr>ds_storage := Some h\<rparr>))))"

text \<open>\<open>std::fs::rename\<close>: the answer of the system, and its own error when there is no such file.\<close>

definition rename_file :: "string \<Rightarrow> string \<Rightarrow> (string \<rightharpoonup> nat) \<Rightarrow> (string \<rightharpoonup> nat) option" where
  "rename_file a b disk = (case disk a of None \<Rightarrow> None | Some f \<Rightarrow> Some ((disk(a := None))(b \<mapsto> f)))"

definition move_database_to_snapshot ::
  "answers \<Rightarrow> string \<Rightarrow> string \<Rightarrow> 'r desktop \<Rightarrow> (storage_error + unit) \<times> 'r desktop" where
  "move_database_to_snapshot an db_path snapshot_path s = (case an_create_dir an of
      Inl e \<Rightarrow> (Inl e, s)
    | Inr _ \<Rightarrow> (case an_move an of
        Inl e \<Rightarrow> (Inl e, s)
      | Inr _ \<Rightarrow> (case rename_file db_path snapshot_path (ds_disk s) of
          None \<Rightarrow> (Inl (Io_Error ''No such file or directory (os error 2)''), s)
        | Some disk \<Rightarrow>
           (let s = s\<lparr>ds_disk := disk\<rparr>
            in if ds_disk s (with_extension db_path ''db.wal'') = None then (Inr (), s)
               else case an_move_wal an of
                 Inl e \<Rightarrow> (Inl e, s)
               | Inr _ \<Rightarrow> (case rename_file (with_extension db_path ''db.wal'') (with_extension snapshot_path ''db.wal'') (ds_disk s) of
                   None \<Rightarrow> (Inr (), s)
                 | Some disk \<Rightarrow> (Inr (), s\<lparr>ds_disk := disk\<rparr>))))))"

definition snapshot_path_of :: "string \<Rightarrow> string \<Rightarrow> string" where
  "snapshot_path_of dir stamp = path_join (path_join dir ''snapshots'') (''adsb_history_'' @ stamp @ ''.db'')"

definition staging_path_of :: "string \<Rightarrow> string" where
  "staging_path_of dir = path_join dir ''adsb_history_next.db''"

definition staging_config :: "string \<Rightarrow> storage_config \<Rightarrow> storage_config" where
  "staging_config path c = \<lparr>so_db_path = Some path, so_source_id = so_source_id c,
     so_gap_threshold_ms = so_gap_threshold_ms c, so_share = None, so_remote = None\<rparr>"

definition swap_database :: "answers \<Rightarrow> string \<Rightarrow> 'r desktop \<Rightarrow> (string + string) \<times> 'r desktop" where
  "swap_database an stamp s = (case ds_config s of
      None \<Rightarrow> (Inl (''No storage config '' @ em_dash @ '' storage was never initialized''), s)
    | Some c \<Rightarrow> (case so_db_path c of
        None \<Rightarrow> (Inl ''Cannot swap an in-memory database'', s)
      | Some db_path \<Rightarrow> (case parent db_path of
          None \<Rightarrow> (Inl ''Database path has no parent directory'', s)
        | Some dir \<Rightarrow> (case open_storage an (staging_config (staging_path_of dir) c) s of
            (Inl e, s) \<Rightarrow> (Inl (''Failed to create staging database: '' @ show_storage_error e), s)
          | (Inr h, s) \<Rightarrow>
             (let s = s\<lparr>ds_storage := Some h\<rparr>
              in case move_database_to_snapshot an db_path (snapshot_path_of dir stamp) s of
                   (Inl e, s) \<Rightarrow> (Inl (''Failed to move database to snapshot: '' @ show_storage_error e), s)
                 | (Inr _, s) \<Rightarrow> (case an_rename an of
                     Inl e \<Rightarrow> (Inl (''Failed to rename staging database: '' @ e), s)
                   | Inr _ \<Rightarrow> (case rename_file (staging_path_of dir) db_path (ds_disk s) of
                       None \<Rightarrow> (Inl ''Failed to rename staging database: No such file or directory (os error 2)'', s)
                     | Some disk \<Rightarrow> (Inr (snapshot_path_of dir stamp), emit SA_Available (s\<lparr>ds_disk := disk\<rparr>)))))))))"

definition set_storage_mode :: "answers \<Rightarrow> storage_mode \<Rightarrow> 'r desktop \<Rightarrow> (string + storage_availability) \<times> 'r desktop" where
  "set_storage_mode an mode s = (case validate_mode mode of
      Inl e \<Rightarrow> (Inl e, s)
    | Inr _ \<Rightarrow> (case an_app_dir an of
        Inl e \<Rightarrow> (Inl (''No app data directory: '' @ e), s)
      | Inr app_data_dir \<Rightarrow>
         (let c = to_storage_config mode app_data_dir (Option.bind (ds_config s) so_share);
              s = s\<lparr>ds_storage := None\<rparr>
          in case open_storage an c s of
               (Inl e, s) \<Rightarrow> (Inl (''Failed to open storage in '' @ mode_label mode @ '' mode: '' @ show_storage_error e),
                               emit SA_Unavailable s)
             | (Inr h, s) \<Rightarrow>
                (let s = (record_event an h ES_Reclaimed s)\<lparr>ds_storage := Some h, ds_config := Some c, ds_mode := mode\<rparr>
                 in case an_save an of
                      Inl e \<Rightarrow> (Inl e, s)
                    | Inr _ \<Rightarrow> (Inr SA_Available, emit SA_Available (s\<lparr>ds_saved_mode := Some mode\<rparr>))))))"

text \<open>\<open>init_storage\<close>. The files and their contents are those of the last run; \<open>share\<close> and the mode of the
  environment come from its variables.\<close>

definition init_storage ::
  "answers \<Rightarrow> string option \<Rightarrow> share_config option \<Rightarrow> storage_mode option \<Rightarrow> 'r desktop \<Rightarrow> 'r desktop" where
  "init_storage an stack share env_mode s =
     (let s = s\<lparr>ds_storage := None, ds_config := None, ds_mode := Embedded, ds_emitted := []\<rparr>
      in case an_app_dir an of
           Inl _ \<Rightarrow> s
         | Inr app_data_dir \<Rightarrow>
            if stack \<noteq> None \<and> (case an_create_dir an of Inl _ \<Rightarrow> True | Inr _ \<Rightarrow> False) then s
            else
              (let mode = resolve_mode (ds_saved_mode s) env_mode;
                   c = to_storage_config mode (stack_data_dir app_data_dir stack) share;
                   s = s\<lparr>ds_config := Some c, ds_mode := mode\<rparr>
               in case open_storage an c s of
                    (Inl e, s) \<Rightarrow> s
                  | (Inr h, s) \<Rightarrow>
                      (if an_event an then append_entry (cn_file h) (Event ET_Feed ES_AppStart) s else s)\<lparr>ds_storage := Some h\<rparr>))"

text \<open>What the tasks of the feed do: a row goes to the open database, or nowhere.\<close>

definition record_row :: "'r \<Rightarrow> 'r desktop \<Rightarrow> 'r desktop" where
  "record_row x s = (case ds_storage s of None \<Rightarrow> s | Some h \<Rightarrow> append_entry (cn_file h) (Recorded x) s)"

end
