(* ===== verification/Desktop_Storage_Props.thy ===== *)
theory Desktop_Storage_Props imports Desktop_Storage begin

text \<open>
  What the commands on the desktop client's database keep: the open database is the configured one, a
  swap loses nothing, release and reclaim give the same file back; and what a swap, a change of mode and
  a failed opening leave behind.
\<close>

subsection \<open>The files involved are different\<close>

lemma lastn_append: "n \<le> length f \<Longrightarrow> lastn n (q @ f) = lastn n f"
  by (simp add: lastn_def)

lemma path_join_ends: "\<not> starts_with ''/'' f \<Longrightarrow> \<exists>q. path_join d f = q @ f"
  by (auto simp: path_join_def)

definition managed :: "string \<Rightarrow> bool" where
  "managed p \<longleftrightarrow> (\<exists>d mode. p = path_join d (mode_file mode))"

lemma managed_ending: "managed p \<Longrightarrow> lastn 4 p \<in> {''y.db'', ''l.db''}"
proof -
  assume "managed p"
  then obtain d mode where p: "p = path_join d (mode_file mode)" by (auto simp: managed_def)
  have "\<not> starts_with ''/'' (mode_file mode)"
    by (auto simp: mode_file_def EMBEDDED_DB_def LOCAL_DB_def starts_with_def split: storage_mode.split)
  then obtain q where "p = q @ mode_file mode" using path_join_ends p by metis
  then show ?thesis
    by (auto simp: lastn_append mode_file_def EMBEDDED_DB_def LOCAL_DB_def lastn_def split: storage_mode.split)
qed

lemma staging_ending: "lastn 4 (staging_path_of dir) = ''t.db''"
proof -
  obtain q where "staging_path_of dir = q @ ''adsb_history_next.db''"
    using path_join_ends [of "''adsb_history_next.db''" dir] by (auto simp: staging_path_of_def starts_with_def)
  then show ?thesis by (simp add: lastn_append) (simp add: lastn_def)
qed

lemma snapshot_ending:
  assumes "stamp \<noteq> []"
  shows "lastn 4 (snapshot_path_of dir stamp) = last stamp # ''.db''"
proof -
  have "\<not> starts_with ''/'' (''adsb_history_'' @ stamp @ ''.db'')" by (simp add: starts_with_def)
  then obtain q where "snapshot_path_of dir stamp = q @ ''adsb_history_'' @ stamp @ ''.db''"
    unfolding snapshot_path_of_def using path_join_ends by metis
  moreover have "stamp = butlast stamp @ [last stamp]" using assms by simp
  ultimately have "snapshot_path_of dir stamp = (q @ ''adsb_history_'' @ butlast stamp) @ [last stamp] @ ''.db''"
    by (metis append.assoc)
  then show ?thesis by (simp add: lastn_append) (simp add: lastn_def)
qed

lemma wal_ending: "lastn 4 (with_extension p ''db.wal'') = ''.wal''"
  by (simp add: with_extension_def lastn_def)

text \<open>The stamp of a snapshot ends in its milliseconds.\<close>

definition stamped :: "string \<Rightarrow> bool" where
  "stamped stamp \<longleftrightarrow> stamp \<noteq> [] \<and> is_digit (last stamp)"

lemma path_endings:
  assumes "managed p" "stamped stamp"
  shows "staging_path_of dir \<noteq> p" "p \<noteq> staging_path_of dir" "snapshot_path_of dir stamp \<noteq> p" "p \<noteq> snapshot_path_of dir stamp"
    "snapshot_path_of dir stamp \<noteq> staging_path_of dir" "staging_path_of dir \<noteq> snapshot_path_of dir stamp"
    "with_extension x ''db.wal'' \<noteq> p" "p \<noteq> with_extension x ''db.wal''"
    "with_extension x ''db.wal'' \<noteq> staging_path_of dir" "staging_path_of dir \<noteq> with_extension x ''db.wal''"
    "with_extension x ''db.wal'' \<noteq> snapshot_path_of dir stamp" "snapshot_path_of dir stamp \<noteq> with_extension x ''db.wal''"
proof -
  have s: "stamp \<noteq> []" "is_digit (last stamp)" using assms(2) by (simp_all add: stamped_def)
  then have d: "last stamp \<noteq> CHR ''t''" "last stamp \<noteq> CHR ''y''" "last stamp \<noteq> CHR ''l''" "last stamp \<noteq> CHR ''.''"
    by (auto simp: is_digit_def)
  note e = managed_ending [OF assms(1)] staging_ending [of dir] snapshot_ending [OF s(1), of dir] wal_ending [of x]
  show n: "staging_path_of dir \<noteq> p" "snapshot_path_of dir stamp \<noteq> p" "snapshot_path_of dir stamp \<noteq> staging_path_of dir"
    "with_extension x ''db.wal'' \<noteq> p" "with_extension x ''db.wal'' \<noteq> staging_path_of dir"
    "with_extension x ''db.wal'' \<noteq> snapshot_path_of dir stamp"
    using e d by auto
  show "p \<noteq> staging_path_of dir" "p \<noteq> snapshot_path_of dir stamp" "staging_path_of dir \<noteq> snapshot_path_of dir stamp"
    "p \<noteq> with_extension x ''db.wal''" "staging_path_of dir \<noteq> with_extension x ''db.wal''"
    "snapshot_path_of dir stamp \<noteq> with_extension x ''db.wal''"
    using n by metis+
qed

subsection \<open>Opening\<close>

definition numbered :: "'r desktop \<Rightarrow> bool" where
  "numbered s \<longleftrightarrow> (\<forall>q f. ds_disk s q = Some f \<longrightarrow> f < ds_next s)
     \<and> (\<forall>h. ds_storage s = Some h \<longrightarrow> cn_file h < ds_next s)"

text \<open>What opening a path leaves as it was: settings, the files at other paths and what files hold.\<close>

lemma open_file_facts:
  assumes "open_file p wal s = (f, s')" "numbered s" "with_extension p ''db.wal'' \<noteq> p"
  shows "ds_disk s' p = Some f" "numbered s'" "ds_storage s' = ds_storage s" "ds_config s' = ds_config s"
    "ds_mode s' = ds_mode s" "ds_saved_mode s' = ds_saved_mode s" "ds_emitted s' = ds_emitted s" "ds_next s \<le> ds_next s'"
    "\<And>q. q \<noteq> p \<Longrightarrow> q \<noteq> with_extension p ''db.wal'' \<Longrightarrow> ds_disk s' q = ds_disk s q"
    "\<And>g. g < ds_next s \<Longrightarrow> ds_rows s' g = ds_rows s g"
    "f = (case ds_disk s p of Some g \<Rightarrow> g | None \<Rightarrow> ds_next s)"
    "ds_disk s p = None \<Longrightarrow> ds_rows s' f = []"
    "wal \<Longrightarrow> ds_disk s' (with_extension p ''db.wal'') \<noteq> None"
    "\<And>q g. ds_disk s q = Some g \<Longrightarrow> ds_disk s' q = Some g"
proof -
  let ?w = "with_extension p ''db.wal''"
  define s1 where "s1 = (case ds_disk s p of
      Some f \<Rightarrow> s
    | None \<Rightarrow> s\<lparr>ds_disk := (ds_disk s)(p \<mapsto> ds_next s), ds_next := Suc (ds_next s), ds_rows := (ds_rows s)(ds_next s := [])\<rparr>)"
  have f: "f = (case ds_disk s p of Some g \<Rightarrow> g | None \<Rightarrow> ds_next s)"
    and s': "s' = (if wal \<and> ds_disk s1 ?w = None
        then s1\<lparr>ds_disk := (ds_disk s1)(?w \<mapsto> ds_next s1), ds_next := Suc (ds_next s1), ds_rows := (ds_rows s1)(ds_next s1 := [])\<rparr>
        else s1)"
    using assms(1) by (auto simp: open_file_def s1_def Let_def split: option.splits)
  have 1: "ds_disk s1 p = Some f" "numbered s1" "ds_storage s1 = ds_storage s" "ds_config s1 = ds_config s"
    "ds_mode s1 = ds_mode s" "ds_saved_mode s1 = ds_saved_mode s" "ds_emitted s1 = ds_emitted s" "ds_next s \<le> ds_next s1"
    "\<And>q. q \<noteq> p \<Longrightarrow> ds_disk s1 q = ds_disk s q" "\<And>g. g < ds_next s \<Longrightarrow> ds_rows s1 g = ds_rows s g"
    "ds_disk s p = None \<Longrightarrow> ds_rows s1 f = []" "\<And>q g. ds_disk s q = Some g \<Longrightarrow> ds_disk s1 q = Some g"
    using assms(2) f by (auto simp: s1_def numbered_def less_Suc_eq split: option.splits)
  have fresh: "f < ds_next s1" using 1(1,2) by (auto simp: numbered_def)
  show "f = (case ds_disk s p of Some g \<Rightarrow> g | None \<Rightarrow> ds_next s)" by (rule f)
  show "ds_disk s' p = Some f" "ds_storage s' = ds_storage s" "ds_config s' = ds_config s" "ds_mode s' = ds_mode s"
    "ds_saved_mode s' = ds_saved_mode s" "ds_emitted s' = ds_emitted s" "ds_next s \<le> ds_next s'"
    "wal \<Longrightarrow> ds_disk s' ?w \<noteq> None"
    using 1 assms(3) by (auto simp: s')
  show "numbered s'" using 1(2) by (auto simp: s' numbered_def less_Suc_eq)
  show "ds_disk s' q = ds_disk s q" if "q \<noteq> p" "q \<noteq> ?w" for q using that 1(9) by (simp add: s')
  show "ds_rows s' g = ds_rows s g" if "g < ds_next s" for g using that 1(8,10) by (auto simp: s')
  show "ds_rows s' f = []" if "ds_disk s p = None" using that 1(11) fresh by (auto simp: s')
  show "ds_disk s' q = Some g" if "ds_disk s q = Some g" for q g using 1(12) [OF that] by (auto simp: s')
qed

lemma wal_not_self: "managed p \<Longrightarrow> with_extension p ''db.wal'' \<noteq> p"
  using managed_ending [of p] wal_ending [of p] by auto

lemma staging_wal_not_self: "with_extension (staging_path_of dir) ''db.wal'' \<noteq> staging_path_of dir"
  using staging_ending [of dir] wal_ending [of "staging_path_of dir"] by auto

text \<open>A connection that was opened, seen from the state before and after.\<close>

lemma open_storage_facts:
  assumes "open_storage an c s = (r, s')" "numbered s" "so_db_path c = Some p" "with_extension p ''db.wal'' \<noteq> p"
  shows "numbered s'" "ds_storage s' = ds_storage s" "ds_config s' = ds_config s" "ds_mode s' = ds_mode s"
    "ds_saved_mode s' = ds_saved_mode s" "ds_emitted s' = ds_emitted s" "ds_next s \<le> ds_next s'"
    "\<And>q. q \<noteq> p \<Longrightarrow> q \<noteq> with_extension p ''db.wal'' \<Longrightarrow> ds_disk s' q = ds_disk s q"
    "\<And>g. g < ds_next s \<Longrightarrow> ds_rows s' g = ds_rows s g"
    "\<And>q g. ds_disk s q = Some g \<Longrightarrow> ds_disk s' q = Some g"
    "\<And>h. r = Inr h \<Longrightarrow> cn_config h = c \<and> ds_disk s' p = Some (cn_file h)
        \<and> cn_file h = (case ds_disk s p of Some g \<Rightarrow> g | None \<Rightarrow> ds_next s)
        \<and> (ds_disk s p = None \<longrightarrow> ds_rows s' (cn_file h) = [])
        \<and> (an_wal an \<longrightarrow> ds_disk s' (with_extension p ''db.wal'') \<noteq> None) \<and> cn_file h < ds_next s'"
proof -
  have "(r, s') = (Inl (projl r), s) \<or> (\<exists>f. open_file p (an_wal an) s = (f, s')
      \<and> (r = Inl (projl r) \<or> r = Inr \<lparr>cn_file = f, cn_config = c\<rparr>))"
    using assms(1,3) by (auto simp: open_storage_def split: sum.splits prod.splits)
  then have *: "(s' = s \<and> r = Inl (projl r)) \<or> (\<exists>f. open_file p (an_wal an) s = (f, s')
      \<and> (r = Inl (projl r) \<or> r = Inr \<lparr>cn_file = f, cn_config = c\<rparr>))" by auto
  note facts = open_file_facts [OF _ assms(2,4)]
  show numb: "numbered s'" and "ds_storage s' = ds_storage s" "ds_config s' = ds_config s" "ds_mode s' = ds_mode s"
    "ds_saved_mode s' = ds_saved_mode s" "ds_emitted s' = ds_emitted s" "ds_next s \<le> ds_next s'"
    using * assms(2) facts(2-8) by auto
  show "ds_disk s' q = ds_disk s q" if "q \<noteq> p" "q \<noteq> with_extension p ''db.wal''" for q
    using * facts(9) that by metis
  show "ds_rows s' g = ds_rows s g" if "g < ds_next s" for g using * facts(10) that by metis
  show "ds_disk s' q = Some g" if "ds_disk s q = Some g" for q g using * facts(14) that by metis
  show "cn_config h = c \<and> ds_disk s' p = Some (cn_file h)
        \<and> cn_file h = (case ds_disk s p of Some g \<Rightarrow> g | None \<Rightarrow> ds_next s)
        \<and> (ds_disk s p = None \<longrightarrow> ds_rows s' (cn_file h) = [])
        \<and> (an_wal an \<longrightarrow> ds_disk s' (with_extension p ''db.wal'') \<noteq> None) \<and> cn_file h < ds_next s'" if r: "r = Inr h" for h
  proof -
    obtain f where f: "open_file p (an_wal an) s = (f, s')" "h = \<lparr>cn_file = f, cn_config = c\<rparr>" using * r by auto
    have "f < ds_next s'" using facts(1) [OF f(1)] numb by (auto simp: numbered_def)
    with facts(1,11-13) [OF f(1)] show ?thesis by (simp add: f(2))
  qed
qed

lemma record_event_facts [simp]:
  "ds_storage (record_event an h st s) = ds_storage s" "ds_config (record_event an h st s) = ds_config s"
  "ds_disk (record_event an h st s) = ds_disk s" "ds_next (record_event an h st s) = ds_next s"
  "ds_mode (record_event an h st s) = ds_mode s" "ds_saved_mode (record_event an h st s) = ds_saved_mode s"
  "ds_emitted (record_event an h st s) = ds_emitted s"
  by (simp_all add: record_event_def append_entry_def)

lemma emit_facts [simp]:
  "ds_storage (emit a s) = ds_storage s" "ds_config (emit a s) = ds_config s" "ds_disk (emit a s) = ds_disk s"
  "ds_next (emit a s) = ds_next s" "ds_mode (emit a s) = ds_mode s" "ds_saved_mode (emit a s) = ds_saved_mode s"
  "ds_rows (emit a s) = ds_rows s"
  by (simp_all add: emit_def)

subsection \<open>A swap\<close>

text \<open>The parts of a swap that got as far as the exchange.\<close>

lemma swap_cases:
  assumes "swap_database an stamp s = (r, s')"
  obtains (refused) e where "r = Inl e" "ds_storage s' = ds_storage s"
      "s' = s \<or> (\<exists>c p dir res. ds_config s = Some c \<and> so_db_path c = Some p \<and> parent p = Some dir
         \<and> open_storage an (staging_config (staging_path_of dir) c) s = (Inl res, s'))"
  | (exchanged) c p dir h s1 m s2 where "ds_config s = Some c" "so_db_path c = Some p" "parent p = Some dir"
      "open_storage an (staging_config (staging_path_of dir) c) s = (Inr h, s1)"
      "move_database_to_snapshot an p (snapshot_path_of dir stamp) (s1\<lparr>ds_storage := Some h\<rparr>) = (m, s2)"
      "(case m of Inl e \<Rightarrow> r = Inl (''Failed to move database to snapshot: '' @ show_storage_error e) \<and> s' = s2
        | Inr _ \<Rightarrow> (case an_rename an of
            Inl e \<Rightarrow> r = Inl (''Failed to rename staging database: '' @ e) \<and> s' = s2
          | Inr _ \<Rightarrow> (case rename_file (staging_path_of dir) p (ds_disk s2) of
              None \<Rightarrow> r = Inl ''Failed to rename staging database: No such file or directory (os error 2)'' \<and> s' = s2
            | Some disk \<Rightarrow> r = Inr (snapshot_path_of dir stamp) \<and> s' = emit SA_Available (s2\<lparr>ds_disk := disk\<rparr>))))"
proof (cases "ds_config s")
  case None
  then show thesis using assms by (intro refused) (auto simp: swap_database_def)
next
  case c: (Some c)
  show thesis
  proof (cases "so_db_path c")
    case None
    then show thesis using assms c by (intro refused) (auto simp: swap_database_def)
  next
    case p: (Some p)
    show thesis
    proof (cases "parent p")
      case None
      then show thesis using assms c p by (intro refused) (auto simp: swap_database_def)
    next
      case dir: (Some dir)
      obtain o1 s1 where o: "open_storage an (staging_config (staging_path_of dir) c) s = (o1, s1)" by force
      show thesis
      proof (cases o1)
        case (Inl e)
        then have "r = Inl (''Failed to create staging database: '' @ show_storage_error e)" "s' = s1"
          using assms c p dir o by (auto simp: swap_database_def)
        then show thesis using c p dir o Inl
          by (intro refused) (auto simp: open_storage_def open_file_def Let_def split: sum.splits option.splits if_splits prod.splits)
      next
        case (Inr h)
        obtain m s2 where m: "move_database_to_snapshot an p (snapshot_path_of dir stamp) (s1\<lparr>ds_storage := Some h\<rparr>) = (m, s2)"
          by force
        show thesis
          by (rule exchanged [OF c p dir _ m])
            (use assms c p dir o m Inr in \<open>auto simp: swap_database_def split: sum.splits option.splits\<close>)
      qed
    qed
  qed
qed

lemma slash_parts: "upto_slash p @ after_slash p = p"
  unfolding upto_slash_def after_slash_def by (metis rev_append rev_rev_ident takeWhile_dropWhile_id)

lemma with_extension_db:
  assumes "x = y @ [c] @ ''.db''" "c \<noteq> CHR ''/''"
  shows "with_extension x ''db.wal'' = x @ ''.wal''"
proof -
  have "after_slash x = after_slash y @ [c] @ ''.db''" "upto_slash x = upto_slash y"
    using assms by (simp_all add: after_slash_def upto_slash_def)
  moreover have "file_stem (z @ [c] @ ''.db'') = z @ [c]" for z by (simp add: file_stem_def)
  ultimately show ?thesis using slash_parts [of y] assms(1) by (simp add: with_extension_def)
qed

lemma wal_beside:
  shows "managed p \<Longrightarrow> with_extension p ''db.wal'' = p @ ''.wal''"
    and "stamped stamp \<Longrightarrow> with_extension (snapshot_path_of dir stamp) ''db.wal'' = snapshot_path_of dir stamp @ ''.wal''"
    and "with_extension (staging_path_of dir) ''db.wal'' = staging_path_of dir @ ''.wal''"
proof -
  have ending: "with_extension x ''db.wal'' = x @ ''.wal''" if "lastn 4 x = c # ''.db''" "c \<noteq> CHR ''/''" for x c
  proof -
    have "x = take (length x - 4) x @ [c] @ ''.db''"
      using that(1) by (metis append_Cons append_Nil append_take_drop_id lastn_def)
    then show ?thesis using that(2) by (rule with_extension_db)
  qed
  show "with_extension p ''db.wal'' = p @ ''.wal''" if "managed p"
    using managed_ending [OF that] ending by auto
  show "with_extension (snapshot_path_of dir stamp) ''db.wal'' = snapshot_path_of dir stamp @ ''.wal''" if "stamped stamp"
    using that snapshot_ending [of stamp dir]
    by (intro ending [of _ "last stamp"]) (auto simp: stamped_def is_digit_def)
  show "with_extension (staging_path_of dir) ''db.wal'' = staging_path_of dir @ ''.wal''"
    by (rule ending [OF staging_ending]) simp
qed

text \<open>Everything a swap names is a different path.\<close>

lemma swap_paths:
  assumes "managed p" "stamped stamp"
  defines "w \<equiv> \<lambda>x. with_extension x ''db.wal''"
  shows "distinct [p, staging_path_of dir, snapshot_path_of dir stamp, w p, w (staging_path_of dir), w (snapshot_path_of dir stamp)]"
proof -
  note d = path_endings [OF assms(1,2)]
  have "w p \<noteq> w (staging_path_of dir)" "w p \<noteq> w (snapshot_path_of dir stamp)"
    "w (staging_path_of dir) \<noteq> w (snapshot_path_of dir stamp)"
    unfolding w_def wal_beside(1) [OF assms(1)] wal_beside(2) [OF assms(2)] wal_beside(3) using d(1-6) by auto
  with d show ?thesis unfolding w_def by simp
qed

lemma move_facts:
  assumes "move_database_to_snapshot an p snap s = (m, s')"
    and "distinct [p, snap, with_extension p ''db.wal'', with_extension snap ''db.wal'']"
  shows "\<exists>disk. s' = s\<lparr>ds_disk := disk\<rparr> \<and> ran disk \<subseteq> ran (ds_disk s)
      \<and> (\<forall>q. q \<notin> {p, snap, with_extension p ''db.wal'', with_extension snap ''db.wal''} \<longrightarrow> disk q = ds_disk s q)
      \<and> (m = Inr () \<longrightarrow> disk snap = ds_disk s p \<and> ds_disk s p \<noteq> None \<and> disk p = None \<and> disk (with_extension p ''db.wal'') = None)
      \<and> (\<forall>e. m = Inl e \<longrightarrow> disk = ds_disk s \<or> (disk p = None \<and> disk snap = ds_disk s p))"
proof -
  let ?w = "with_extension p ''db.wal''" and ?v = "with_extension snap ''db.wal''"
  have unchanged: "s = s\<lparr>ds_disk := ds_disk s\<rparr>" by simp
  show ?thesis
  proof (cases "\<exists>e. an_create_dir an = Inl e \<or> an_move an = Inl e")
    case True
    then show ?thesis using assms(1) unchanged
      by (intro exI [of _ "ds_disk s"]) (auto simp: move_database_to_snapshot_def split: sum.splits)
  next
    case False
    then obtain u v where ok: "an_create_dir an = Inr u" "an_move an = Inr v"
      by (metis old.sum.exhaust)
    show ?thesis
    proof (cases "ds_disk s p")
      case None
      then show ?thesis using assms(1) unchanged ok
        by (intro exI [of _ "ds_disk s"]) (auto simp: move_database_to_snapshot_def rename_file_def ran_def)
    next
      case (Some f)
      let ?d = "(ds_disk s)(p := None, snap \<mapsto> f)"
      show ?thesis
      proof (cases "?d ?w")
        case None
        then show ?thesis using assms ok Some
          by (intro exI [of _ ?d]) (auto simp: move_database_to_snapshot_def rename_file_def ran_def split: if_splits)
      next
        case w: (Some g)
        then show ?thesis using assms ok Some
          by (intro exI [of _ "case an_move_wal an of Inl _ \<Rightarrow> ?d | Inr _ \<Rightarrow> ?d(?w := None, ?v \<mapsto> g)"])
            (auto simp: move_database_to_snapshot_def rename_file_def ran_def split: sum.splits if_splits)
      qed
    qed
  qed
qed

text \<open>Where the exchange of a swap leads.\<close>

lemma exchange_facts:
  assumes open_ok: "open_storage an (staging_config (staging_path_of dir) c) s = (Inr h, s1)"
    and move: "move_database_to_snapshot an p (snapshot_path_of dir stamp) (s1\<lparr>ds_storage := Some h\<rparr>) = (m, s2)"
    and s: "numbered s" "managed p" "stamped stamp"
  shows "cn_config h = staging_config (staging_path_of dir) c" "ds_storage s2 = Some h" "ds_config s2 = ds_config s"
    "ds_mode s2 = ds_mode s" "numbered s2" "ds_rows s2 = ds_rows s1" "ds_disk s2 (staging_path_of dir) = Some (cn_file h)"
    "\<And>g. g < ds_next s \<Longrightarrow> ds_rows s2 g = ds_rows s g" "ds_next s \<le> ds_next s2"
    "cn_file h = (case ds_disk s (staging_path_of dir) of Some g \<Rightarrow> g | None \<Rightarrow> ds_next s)"
    "ds_disk s (staging_path_of dir) = None \<Longrightarrow> ds_rows s2 (cn_file h) = []"
    "m = Inr () \<Longrightarrow> ds_disk s2 (snapshot_path_of dir stamp) = ds_disk s p \<and> ds_disk s p \<noteq> None \<and> ds_disk s2 p = None
        \<and> ds_disk s2 (with_extension p ''db.wal'') = None"
    "\<And>e. m = Inl e \<Longrightarrow> ds_disk s2 p = ds_disk s p \<or> ds_disk s2 p = None \<and> ds_disk s2 (snapshot_path_of dir stamp) = ds_disk s p"
    "an_wal an \<Longrightarrow> ds_disk s2 (with_extension (staging_path_of dir) ''db.wal'') \<noteq> None"
proof -
  let ?st = "staging_path_of dir" and ?sn = "snapshot_path_of dir stamp"
  let ?w = "\<lambda>x. with_extension x ''db.wal''"
  have d: "distinct [p, ?st, ?sn, ?w p, ?w ?st, ?w ?sn]" using swap_paths [OF s(2,3)] by blast
  have "so_db_path (staging_config ?st c) = Some ?st" by (simp add: staging_config_def)
  note o = open_storage_facts [OF open_ok s(1) this staging_wal_not_self]
  have h: "cn_config h = staging_config ?st c" "ds_disk s1 ?st = Some (cn_file h)"
    "cn_file h = (case ds_disk s ?st of Some g \<Rightarrow> g | None \<Rightarrow> ds_next s)" "ds_disk s ?st = None \<longrightarrow> ds_rows s1 (cn_file h) = []"
    "an_wal an \<longrightarrow> ds_disk s1 (?w ?st) \<noteq> None" "cn_file h < ds_next s1"
    using o(11) [OF refl] by blast+
  have "distinct [p, ?sn, ?w p, ?w ?sn]" using d by auto
  from move_facts [OF move this] obtain disk where disk: "s2 = s1\<lparr>ds_storage := Some h, ds_disk := disk\<rparr>"
    "\<And>q. q \<notin> {p, ?sn, ?w p, ?w ?sn} \<Longrightarrow> disk q = ds_disk s1 q"
    "m = Inr () \<Longrightarrow> disk ?sn = ds_disk s1 p \<and> ds_disk s1 p \<noteq> None \<and> disk p = None \<and> disk (?w p) = None"
    "\<And>e. m = Inl e \<Longrightarrow> disk = ds_disk s1 \<or> disk p = None \<and> disk ?sn = ds_disk s1 p" "ran disk \<subseteq> ran (ds_disk s1)" by auto
  have p: "ds_disk s1 p = ds_disk s p" using o(8) [of p] d by auto
  show "cn_config h = staging_config ?st c" "cn_file h = (case ds_disk s ?st of Some g \<Rightarrow> g | None \<Rightarrow> ds_next s)" by fact+
  show "ds_storage s2 = Some h" "ds_config s2 = ds_config s" "ds_mode s2 = ds_mode s" "ds_rows s2 = ds_rows s1" "ds_next s \<le> ds_next s2"
    using o(3,4,7) by (simp_all add: disk(1))
  show staging: "ds_disk s2 ?st = Some (cn_file h)" using disk(2) [of ?st] d h(2) by (auto simp: disk(1))
  show "an_wal an \<Longrightarrow> ds_disk s2 (?w ?st) \<noteq> None" using disk(2) [of "?w ?st"] d h(5) by (auto simp: disk(1))
  show "ds_rows s2 g = ds_rows s g" if "g < ds_next s" for g using o(9) [OF that] by (simp add: disk(1))
  show "ds_disk s ?st = None \<Longrightarrow> ds_rows s2 (cn_file h) = []" using h(4) by (simp add: disk(1))
  show "m = Inr () \<Longrightarrow> ds_disk s2 ?sn = ds_disk s p \<and> ds_disk s p \<noteq> None \<and> ds_disk s2 p = None \<and> ds_disk s2 (?w p) = None"
    using disk(3) p by (simp add: disk(1))
  show "m = Inl e \<Longrightarrow> ds_disk s2 p = ds_disk s p \<or> ds_disk s2 p = None \<and> ds_disk s2 ?sn = ds_disk s p" for e
    using disk(4) p by (auto simp: disk(1))
  show "numbered s2" using o(1) h(6) disk(5) by (auto simp: numbered_def disk(1) ran_def)
qed

definition configured_path :: "'r desktop \<Rightarrow> string option" where
  "configured_path s = Option.bind (ds_config s) so_db_path"

text \<open>The open database is the file at a path.\<close>

definition serves :: "'r desktop \<Rightarrow> string \<Rightarrow> connection \<Rightarrow> bool" where
  "serves s p h \<longleftrightarrow> ds_storage s = Some h \<and> ds_disk s p = Some (cn_file h)"

lemma serves_old: "numbered s \<Longrightarrow> serves s p h \<Longrightarrow> cn_file h < ds_next s"
  by (auto simp: serves_def numbered_def)

text \<open>A swap that succeeds, in full.\<close>

lemma swapped:
  assumes "swap_database an stamp s = (Inr snap, s')" "configured_path s = Some p"
    and "numbered s" "managed p" "stamped stamp"
  obtains c dir h where "ds_config s = Some c" "parent p = Some dir" "snap = snapshot_path_of dir stamp"
    "serves s' p h" "cn_config h = staging_config (staging_path_of dir) c" "ds_disk s' snap = ds_disk s p"
    "ds_config s' = ds_config s" "ds_mode s' = ds_mode s" "numbered s'" "\<And>g. g < ds_next s \<Longrightarrow> ds_rows s' g = ds_rows s g"
    "ds_disk s (staging_path_of dir) = None \<Longrightarrow> ds_rows s' (cn_file h) = [] \<and> ds_next s \<le> cn_file h"
    "ds_disk s' (with_extension p ''db.wal'') = None"
    "an_wal an \<Longrightarrow> ds_disk s' (with_extension (staging_path_of dir) ''db.wal'') \<noteq> None"
  using assms(1)
proof (cases rule: swap_cases)
  case (exchanged c p' dir h s1 m s2)
  have [simp]: "p' = p" using exchanged(1,2) assms(2) by (simp add: configured_path_def)
  note e = exchange_facts [OF exchanged(4) exchanged(5) [simplified] assms(3,4,5)]
  have d: "distinct [p, staging_path_of dir, snapshot_path_of dir stamp, with_extension p ''db.wal'',
      with_extension (staging_path_of dir) ''db.wal'', with_extension (snapshot_path_of dir stamp) ''db.wal'']"
    using swap_paths [OF assms(4,5)] by blast
  from exchanged(6) obtain disk where m: "m = Inr ()" "rename_file (staging_path_of dir) p (ds_disk s2) = Some disk"
    "snap = snapshot_path_of dir stamp" "s' = emit SA_Available (s2\<lparr>ds_disk := disk\<rparr>)"
    by (auto split: sum.splits option.splits)
  then have disk: "disk = (ds_disk s2)(staging_path_of dir := None, p \<mapsto> cn_file h)"
    using e(7) by (simp add: rename_file_def)
  have "numbered s'" using e(2,5,7) m(4) by (auto simp: numbered_def disk split: if_splits)
  moreover have "serves s' p h" using e(2) by (simp add: serves_def m(4) disk)
  moreover have "ds_disk s (staging_path_of dir) = None \<Longrightarrow> ds_rows s' (cn_file h) = [] \<and> ds_next s \<le> cn_file h"
    using e(10,11) by (simp add: m(4))
  ultimately show thesis using exchanged(1,3) m(1,3,4) e(1,3,4,8,12,14) d
    by (intro that [of c dir h]) (auto simp: disk)
qed simp


subsection \<open>The open database is the configured one\<close>

text \<open>A state whose database, when one is open, is the file at the path of the configuration; with
  \<open>adrift\<close> it may also be the staging file of a swap that broke off.\<close>

definition placed :: "bool \<Rightarrow> 'r desktop \<Rightarrow> bool" where
  "placed adrift s \<longleftrightarrow> numbered s \<and> (ds_storage s \<noteq> None \<longrightarrow> ds_config s \<noteq> None)
     \<and> (ds_config s \<noteq> None \<longrightarrow> (\<exists>p. configured_path s = Some p \<and> managed p
          \<and> (\<forall>h. ds_storage s = Some h \<longrightarrow> serves s p h
               \<or> adrift \<and> (\<exists>dir. parent p = Some dir \<and> serves s (staging_path_of dir) h))))"

abbreviation in_place :: "'r desktop \<Rightarrow> bool" where
  "in_place \<equiv> placed False"

text \<open>What can happen to the database while the client runs, with any failure of the environment but one: a
  swap that breaks off after its staging database was opened is an event of \<open>disturbed_run\<close> only.\<close>

inductive desktop_step :: "'r desktop \<Rightarrow> 'r desktop \<Rightarrow> bool" where
  step_record: "desktop_step s (record_row x s)"
| step_release: "desktop_step s (snd (release_storage an s))"
| step_reclaim: "desktop_step s (snd (reclaim_storage an s))"
| step_mode: "desktop_step s (snd (set_storage_mode an mode s))"
| step_swap: "stamped stamp \<Longrightarrow> swap_database an stamp s = (Inr snap, s') \<Longrightarrow> desktop_step s s'"
| step_swap_refused: "an_connect an = Inl e \<or> an_setup an = Inl e \<Longrightarrow> desktop_step s (snd (swap_database an stamp s))"

inductive desktop_run :: "'r desktop \<Rightarrow> 'r desktop \<Rightarrow> bool" where
  run_start: "\<forall>q f. ds_disk s q = Some f \<longrightarrow> f < ds_next s \<Longrightarrow> desktop_run s (init_storage an stack share env_mode s)"
| run_step: "desktop_run s t \<Longrightarrow> desktop_step t u \<Longrightarrow> desktop_run s u"

inductive disturbed_run :: "'r desktop \<Rightarrow> 'r desktop \<Rightarrow> bool" where
  calm: "desktop_run s t \<Longrightarrow> disturbed_run s t"
| goes_on: "disturbed_run s t \<Longrightarrow> desktop_step t u \<Longrightarrow> disturbed_run s u"
| any_swap: "disturbed_run s t \<Longrightarrow> stamped stamp \<Longrightarrow> disturbed_run s (snd (swap_database an stamp t))"

lemma config_managed: "\<exists>p. so_db_path (to_storage_config mode dir share) = Some p \<and> managed p"
  by (auto simp: db_path_of managed_def)

lemma record_row_facts [simp]:
  "ds_storage (record_row x s) = ds_storage s" "ds_config (record_row x s) = ds_config s" "ds_disk (record_row x s) = ds_disk s"
  "ds_next (record_row x s) = ds_next s" "ds_mode (record_row x s) = ds_mode s"
  by (auto simp: record_row_def append_entry_def split: option.split)

lemma in_place_cong:
  "ds_storage t = ds_storage s \<Longrightarrow> ds_config t = ds_config s \<Longrightarrow> ds_disk t = ds_disk s \<Longrightarrow> ds_next t = ds_next s
    \<Longrightarrow> placed x t = placed x s"
  by (simp add: placed_def numbered_def configured_path_def serves_def)

text \<open>Opening the configured path, or setting a configuration and opening its path, puts the state in
  place.\<close>

lemma opened_in_place:
  assumes "open_storage an c s = (Inr h, s1)" "numbered s" "so_db_path c = Some p" "managed p" "ds_config s1 = Some c"
    and "ds_storage t = Some h" "ds_config t = Some c" "ds_disk t = ds_disk s1" "ds_next t = ds_next s1"
  shows "placed x t"
proof -
  note o = open_storage_facts [OF assms(1-3) wal_not_self [OF assms(4)]]
  show ?thesis using o(1,11) assms(3-) by (auto simp: placed_def numbered_def configured_path_def serves_def)
qed

lemma launch_in_place:
  assumes "\<forall>q f. ds_disk s q = Some f \<longrightarrow> f < ds_next s"
  shows "placed x (init_storage an stack share env_mode s)"
proof -
  let ?s0 = "s\<lparr>ds_storage := None, ds_config := None, ds_mode := Embedded, ds_emitted := []\<rparr>"
  have closed: "placed x ?s0" using assms by (simp add: placed_def numbered_def)
  show ?thesis
  proof (cases "\<exists>app. an_app_dir an = Inr app \<and> (stack = None \<or> (\<exists>u. an_create_dir an = Inr u))")
    case False
    then show ?thesis using closed
      by (auto simp: init_storage_def Let_def split: sum.splits)
  next
    case True
    then obtain app where app: "an_app_dir an = Inr app" "stack = None \<or> (\<exists>u. an_create_dir an = Inr u)" by blast
    define mode where "mode = resolve_mode (ds_saved_mode s) env_mode"
    define c where "c = to_storage_config mode (stack_data_dir app stack) share"
    let ?s = "?s0\<lparr>ds_config := Some c, ds_mode := mode\<rparr>"
    obtain p where p: "so_db_path c = Some p" "managed p" using config_managed c_def by metis
    have n: "numbered ?s" using assms by (simp add: numbered_def)
    obtain r s1 where o: "open_storage an c ?s = (r, s1)" by force
    note facts = open_storage_facts [OF o n p(1) wal_not_self [OF p(2)]]
    have "init_storage an stack share env_mode s = (case r of Inl e \<Rightarrow> s1
        | Inr h \<Rightarrow> (if an_event an then append_entry (cn_file h) (Event ET_Feed ES_AppStart) s1 else s1)\<lparr>ds_storage := Some h\<rparr>)"
      using app o by (auto simp: init_storage_def Let_def mode_def c_def split: sum.splits)
    moreover have "placed x s1" using facts(1-3) p by (simp add: placed_def configured_path_def)
    ultimately show ?thesis using facts(3)
    proof (cases r)
      case (Inr h)
      let ?t = "(if an_event an then append_entry (cn_file h) (Event ET_Feed ES_AppStart) s1 else s1)\<lparr>ds_storage := Some h\<rparr>"
      have "placed x ?t"
        by (rule opened_in_place [OF o [unfolded Inr] n p]) (simp_all add: facts(3) append_entry_def)
      with Inr \<open>init_storage _ _ _ _ _ = _\<close> show ?thesis by simp
    qed simp
  qed
qed

lemma step_in_place: "desktop_step s t \<Longrightarrow> placed x s \<Longrightarrow> placed x t"
proof (induction rule: desktop_step.induct)
  case (step_record s r)
  then show ?case by (simp add: in_place_cong [of "record_row r s" s])
next
  case (step_release s an)
  have closed: "placed x t" if "ds_storage t = None" "ds_config t = ds_config s" "ds_disk t = ds_disk s" "ds_next t = ds_next s" for t
    using step_release that by (auto simp: placed_def numbered_def configured_path_def)
  have same: "placed x t" if "ds_storage t = ds_storage s" "ds_config t = ds_config s" "ds_disk t = ds_disk s" "ds_next t = ds_next s" for t
    using step_release in_place_cong [OF that] by simp
  show ?case
    by (auto simp: release_storage_def Let_def closed same split: option.split sum.split)
next
  case (step_reclaim s an)
  show ?case
  proof (cases "ds_config s")
    case None
    then show ?thesis using step_reclaim by (simp add: reclaim_storage_def)
  next
    case (Some c)
    then obtain p where p: "so_db_path c = Some p" "managed p" and n: "numbered s"
      and here: "\<And>h. ds_storage s = Some h \<Longrightarrow> serves s p h
        \<or> x \<and> (\<exists>dir. parent p = Some dir \<and> serves s (staging_path_of dir) h)"
      using step_reclaim by (auto simp: placed_def configured_path_def)
    obtain r s1 where o: "open_storage an c s = (r, s1)" by force
    note facts = open_storage_facts [OF o n p(1) wal_not_self [OF p(2)]]
    show ?thesis
    proof (cases r)
      case (Inl e)
      then have "snd (reclaim_storage an s) = s1" using Some o by (simp add: reclaim_storage_def)
      moreover have "placed x s1" using facts(1,2,3,10) p Some here
        by (auto simp: placed_def configured_path_def serves_def)
      ultimately show ?thesis by simp
    next
      case (Inr h)
      then have "snd (reclaim_storage an s) = emit SA_Available ((record_event an h ES_Reclaimed s1)\<lparr>ds_storage := Some h\<rparr>)"
        using Some o by (simp add: reclaim_storage_def)
      then show ?thesis by (simp, intro opened_in_place [OF o [unfolded Inr] n p]) (simp_all add: facts(3) Some)
    qed
  qed
next
  case (step_mode s an mode)
  show ?case
  proof (cases "\<exists>app. an_app_dir an = Inr app \<and> validate_mode mode = Inr ()")
    case False
    then show ?thesis using step_mode by (auto simp: set_storage_mode_def split: sum.splits)
  next
    case True
    then obtain app where app: "an_app_dir an = Inr app" "validate_mode mode = Inr ()" by blast
    define c where "c = to_storage_config mode app (Option.bind (ds_config s) so_share)"
    obtain p where p: "so_db_path c = Some p" "managed p" using config_managed c_def by metis
    have n: "numbered (s\<lparr>ds_storage := None\<rparr>)" using step_mode by (auto simp: placed_def numbered_def)
    obtain r s1 where o: "open_storage an c (s\<lparr>ds_storage := None\<rparr>) = (r, s1)" by force
    note facts = open_storage_facts [OF o n p(1) wal_not_self [OF p(2)]]
    show ?thesis
    proof (cases r)
      case (Inl e)
      then have "snd (set_storage_mode an mode s) = emit SA_Unavailable s1"
        using app o by (simp add: set_storage_mode_def c_def Let_def)
      moreover have "placed x s1" using facts(1,2,3) step_mode by (auto simp: placed_def configured_path_def)
      ultimately show ?thesis by (simp add: in_place_cong [of "emit SA_Unavailable s1" s1])
    next
      case (Inr h)
      let ?t = "(record_event an h ES_Reclaimed s1)\<lparr>ds_storage := Some h, ds_config := Some c, ds_mode := mode\<rparr>"
      have "placed x ?t"
        using facts(1) facts(11) [OF Inr] p by (auto simp: placed_def numbered_def configured_path_def serves_def)
      moreover have "snd (set_storage_mode an mode s) = (case an_save an of Inl _ \<Rightarrow> ?t
          | Inr _ \<Rightarrow> emit SA_Available (?t\<lparr>ds_saved_mode := Some mode\<rparr>))"
        using app o Inr by (simp add: set_storage_mode_def c_def Let_def split: sum.split)
      ultimately show ?thesis by (auto simp: placed_def numbered_def configured_path_def serves_def split: sum.split)
    qed
  qed
next
  case (step_swap stamp an s snap s')
  show ?case
  proof (cases "configured_path s")
    case None
    then have "fst (swap_database an stamp s) \<noteq> Inr snap"
      by (auto simp: swap_database_def configured_path_def split: option.splits)
    with step_swap show ?thesis by simp
  next
    case (Some p)
    then have "numbered s" "managed p" using step_swap by (auto simp: placed_def configured_path_def)
    from swapped [OF step_swap(2) Some this step_swap(1)] show ?thesis
    proof cases
      case (1 c dir h)
      with Some \<open>managed p\<close> show ?thesis by (auto simp: placed_def configured_path_def serves_def)
    qed
  qed
next
  case (step_swap_refused an e s stamp)
  obtain r s' where run: "swap_database an stamp s = (r, s')" by force
  then show ?case
  proof (cases rule: swap_cases)
    case (refused e')
    from refused(3) have "placed x s'"
    proof
      assume "\<exists>c p dir res. ds_config s = Some c \<and> so_db_path c = Some p \<and> parent p = Some dir
         \<and> open_storage an (staging_config (staging_path_of dir) c) s = (Inl res, s')"
      then obtain c dir res where c: "ds_config s = Some c" and o: "open_storage an (staging_config (staging_path_of dir) c) s = (Inl res, s')"
        by blast
      have n: "numbered s" using step_swap_refused(2) by (simp add: placed_def)
      have "so_db_path (staging_config (staging_path_of dir) c) = Some (staging_path_of dir)" by (simp add: staging_config_def)
      note facts = open_storage_facts [OF o n this staging_wal_not_self]
      show ?thesis using step_swap_refused(2) facts(1,2,3,10) c
        by (auto simp: placed_def configured_path_def serves_def)
    qed (use step_swap_refused in simp)
    with run show ?thesis by simp
  next
    case (exchanged c p dir h s1 m s2)
    then show ?thesis using step_swap_refused(1) by (auto simp: open_storage_def split: sum.splits prod.splits)
  qed
qed

lemma run_in_place: "desktop_run s t \<Longrightarrow> in_place t"
  by (induction rule: desktop_run.induct) (auto intro: launch_in_place step_in_place)

lemma in_place_placed: "in_place s \<Longrightarrow> placed True s"
  unfolding placed_def by blast

text \<open>A swap, whatever becomes of it.\<close>

lemma swap_placed:
  assumes "placed True s" "stamped stamp"
  shows "placed True (snd (swap_database an stamp s))"
proof -
  obtain r s' where run: "swap_database an stamp s = (r, s')" by force
  have n: "numbered s" using assms(1) by (simp add: placed_def)
  from run have "placed True s'"
  proof (cases rule: swap_cases)
    case (refused e)
    from refused(3) show ?thesis
    proof
      assume "\<exists>c p dir res. ds_config s = Some c \<and> so_db_path c = Some p \<and> parent p = Some dir
         \<and> open_storage an (staging_config (staging_path_of dir) c) s = (Inl res, s')"
      then obtain c dir res where c: "ds_config s = Some c" and o: "open_storage an (staging_config (staging_path_of dir) c) s = (Inl res, s')"
        by blast
      have "so_db_path (staging_config (staging_path_of dir) c) = Some (staging_path_of dir)" by (simp add: staging_config_def)
      note facts = open_storage_facts [OF o n this staging_wal_not_self]
      show ?thesis using assms(1) facts(1,2,3,10) c by (auto simp: placed_def configured_path_def serves_def)
    qed (use assms(1) in simp)
  next
    case (exchanged c p dir h s1 m s2)
    then have p: "configured_path s = Some p" "managed p" using assms(1) by (auto simp: placed_def configured_path_def)
    note e = exchange_facts [OF exchanged(4,5) n p(2) assms(2)]
    have staged: "placed True s2"
      using e(2,3,5,7) p exchanged(1,3) by (auto simp: placed_def configured_path_def serves_def)
    show ?thesis
    proof (cases r)
      case (Inl e)
      with exchanged(6) have "s' = s2" by (auto split: sum.splits option.splits)
      with staged show ?thesis by simp
    next
      case (Inr snap)
      with run have "swap_database an stamp s = (Inr snap, s')" by simp
      from swapped [OF this p(1) n p(2) assms(2)] show ?thesis
      proof cases
        case (1 c dir h)
        with p show ?thesis by (auto simp: placed_def configured_path_def serves_def)
      qed
    qed
  qed
  with run show ?thesis by simp
qed

lemma disturbed_placed: "disturbed_run s t \<Longrightarrow> placed True t"
  by (induction rule: disturbed_run.induct) (auto intro: run_in_place in_place_placed step_in_place swap_placed)

lemma reclaim_places:
  assumes "placed True s" "reclaim_storage an s = (Inr (), s')"
  shows "in_place s' \<and> ds_storage s' \<noteq> None"
proof -
  obtain c h s1 where c: "ds_config s = Some c" and o: "open_storage an c s = (Inr h, s1)"
    and s': "s' = emit SA_Available ((record_event an h ES_Reclaimed s1)\<lparr>ds_storage := Some h\<rparr>)"
    using assms(2) by (auto simp: reclaim_storage_def split: option.splits sum.splits prod.splits)
  then obtain p where p: "so_db_path c = Some p" "managed p" and n: "numbered s"
    using assms(1) by (auto simp: placed_def configured_path_def)
  note facts = open_storage_facts [OF o n p(1) wal_not_self [OF p(2)]]
  have "in_place s'" unfolding s' by (rule opened_in_place [OF o n p]) (simp_all add: facts(3) c)
  then show ?thesis by (simp add: s')
qed

text \<open>C6: Which file is open. Through any sequence of launches, recordings, releases, reclaims, mode changes
  and swaps that succeed or fail to open their staging database, other failures of the environment
  included, an open database is the file at the configured path. With swaps that break off later, at the directory or at
  either rename, it is that file or the staging file beside it, and reclaiming the storage opens the
  configured one again. One is open exactly when the status says \<open>available\<close>.\<close>

theorem open_database_is_configured_one:
  assumes "disturbed_run s t"
  shows "(case ds_storage t of
        Some h \<Rightarrow> get_storage_status t = SA_Available
          \<and> (\<exists>p. configured_path t = Some p
               \<and> (ds_disk t p = Some (cn_file h)
                  \<or> \<not> desktop_run s t \<and> (\<exists>dir. parent p = Some dir \<and> ds_disk t (staging_path_of dir) = Some (cn_file h))))
      | None \<Rightarrow> get_storage_status t \<noteq> SA_Available \<and> record_row x t = t)
    \<and> (reclaim_storage an t = (Inr (), u) \<longrightarrow>
         (\<exists>h p. ds_storage u = Some h \<and> configured_path u = Some p \<and> ds_disk u p = Some (cn_file h)))"
proof (intro conjI impI)
  show "case ds_storage t of
        Some h \<Rightarrow> get_storage_status t = SA_Available
          \<and> (\<exists>p. configured_path t = Some p
               \<and> (ds_disk t p = Some (cn_file h)
                  \<or> \<not> desktop_run s t \<and> (\<exists>dir. parent p = Some dir \<and> ds_disk t (staging_path_of dir) = Some (cn_file h))))
      | None \<Rightarrow> get_storage_status t \<noteq> SA_Available \<and> record_row x t = t"
  proof (cases "desktop_run s t")
    case True
    from run_in_place [OF this] show ?thesis
      by (auto simp: placed_def get_storage_status_def serves_def record_row_def split: option.split)
  next
    case False
    with disturbed_placed [OF assms] show ?thesis
      by (auto simp: placed_def get_storage_status_def serves_def record_row_def split: option.split)
  qed
next
  assume "reclaim_storage an t = (Inr (), u)"
  from reclaim_places [OF disturbed_placed [OF assms] this]
  show "\<exists>h p. ds_storage u = Some h \<and> configured_path u = Some p \<and> ds_disk u p = Some (cn_file h)"
    by (auto simp: placed_def serves_def)
qed

definition all_well :: answers where
  "all_well = \<lparr>an_app_dir = Inr ''/data'', an_connect = Inr (), an_setup = Inr (), an_wal = True, an_event = True,
     an_checkpoint = Inr (), an_create_dir = Inr (), an_move = Inr (), an_move_wal = Inr (), an_rename = Inr (), an_save = Inr ()\<rparr>"

definition first_run :: "nat desktop" where
  "first_run = \<lparr>ds_storage = None, ds_config = None, ds_mode = Embedded, ds_saved_mode = None, ds_disk = Map.empty,
     ds_rows = (\<lambda>_. []), ds_next = 0, ds_emitted = []\<rparr>"

definition launched :: "nat desktop" where
  "launched = init_storage all_well None None None first_run"

lemma launched_runs: "desktop_run first_run launched"
  unfolding launched_def by (rule run_start) (simp add: first_run_def)

lemma history_path: "path_join ''/data'' EMBEDDED_DB = ''/data/adsb_history.db''"
  by (simp add: path_join_def starts_with_def EMBEDDED_DB_def)

lemma history_managed: "managed (path_join ''/data'' EMBEDDED_DB)"
proof -
  have "mode_file Embedded = EMBEDDED_DB" by (simp add: mode_file_def)
  then show ?thesis unfolding managed_def by metis
qed

lemma launched_facts:
  "ds_storage launched = Some \<lparr>cn_file = 0, cn_config = to_storage_config Embedded ''/data'' None\<rparr>"
  "ds_config launched = Some (to_storage_config Embedded ''/data'' None)" "ds_mode launched = Embedded"
  "ds_disk launched ''/data/adsb_history.db'' = Some 0" "ds_disk launched ''/data/adsb_history_next.db'' = None"
  "numbered launched" "configured_path launched = Some ''/data/adsb_history.db''"
proof -
  have n: "numbered (first_run\<lparr>ds_config := Some (to_storage_config Embedded ''/data'' None)\<rparr>)"
    by (simp add: numbered_def first_run_def)
  note m = history_managed
  have db: "so_db_path (to_storage_config Embedded ''/data'' None) = Some (path_join ''/data'' EMBEDDED_DB)"
    by (simp add: to_storage_config_def)
  obtain r s1 where o: "open_storage all_well (to_storage_config Embedded ''/data'' None)
      (first_run\<lparr>ds_config := Some (to_storage_config Embedded ''/data'' None)\<rparr>) = (r, s1)" by force
  note facts = open_storage_facts [OF o n db wal_not_self [OF m]]
  obtain h where h: "r = Inr h" using o by (auto simp: open_storage_def all_well_def db split: prod.splits)
  have launched: "launched = append_entry (cn_file h) (Event ET_Feed ES_AppStart) s1\<lparr>ds_storage := Some h\<rparr>"
    using o h by (simp add: launched_def init_storage_def Let_def all_well_def first_run_def resolve_mode_def stack_data_dir_def)
  have h': "h = \<lparr>cn_file = 0, cn_config = to_storage_config Embedded ''/data'' None\<rparr>"
    using facts(11) [OF h] by (simp add: first_run_def)
  show "ds_storage launched = Some \<lparr>cn_file = 0, cn_config = to_storage_config Embedded ''/data'' None\<rparr>"
    "ds_config launched = Some (to_storage_config Embedded ''/data'' None)" "ds_mode launched = Embedded"
    "ds_disk launched ''/data/adsb_history.db'' = Some 0"
    using facts(3,4) facts(11) [OF h] h' by (simp_all add: launched append_entry_def history_path first_run_def)
  have "''/data/adsb_history_next.db'' \<noteq> with_extension (path_join ''/data'' EMBEDDED_DB) ''db.wal''"
    using wal_beside(1) [OF m] by (simp add: history_path)
  then show "ds_disk launched ''/data/adsb_history_next.db'' = None"
    using facts(8) [of "''/data/adsb_history_next.db''"] by (simp add: launched append_entry_def history_path first_run_def)
  show "numbered launched" using run_in_place [OF launched_runs] by (simp add: placed_def)
  show "configured_path launched = Some ''/data/adsb_history.db''"
    using \<open>ds_config launched = _\<close> db history_path by (simp add: configured_path_def)
qed

theorem open_database_is_configured_one_witness:
  "get_storage_status launched = SA_Available"
  using open_database_is_configured_one [OF calm [OF launched_runs]] launched_facts(1) by simp

lemma launched_serves: "serves launched ''/data/adsb_history.db'' \<lparr>cn_file = 0, cn_config = to_storage_config Embedded ''/data'' None\<rparr>"
  using launched_facts by (simp add: serves_def)

lemma launched_managed: "managed ''/data/adsb_history.db''"
  using history_managed by (simp only: history_path)


subsection \<open>What a swap leaves behind\<close>

text \<open>A swap that cannot move the old database away reports an error and keeps recording into the staging
  file: the status says \<open>available\<close>, the configured path still holds the old database without any of the
  new rows, and those are only in \<open>adsb_history_next.db\<close>, which no later launch or reclaim opens.\<close>

theorem torn_swap_hides_new_rows:
  fixes s :: "'r desktop" and xs :: "'r list"
  assumes "numbered s" "stamped stamp" "ds_config s = Some c" "so_db_path c = Some p" "managed p" "serves s p h"
    and "parent p = Some dir" "ds_disk s (staging_path_of dir) = None"
    and "an_connect an = Inr ()" "an_setup an = Inr ()" "an_create_dir an = Inr ()" "an_move an = Inl e"
  defines "t \<equiv> fold record_row xs (snd (swap_database an stamp s))"
  shows "fst (swap_database an stamp s) = Inl (''Failed to move database to snapshot: '' @ show_storage_error e)
    \<and> get_storage_status t = SA_Available
    \<and> (\<exists>f. ds_disk t (staging_path_of dir) = Some f \<and> ds_rows t f = map Recorded xs)
    \<and> ds_rows t (cn_file h) = ds_rows s (cn_file h)
    \<and> (\<forall>an' h' t'. open_storage an' c t = (Inr h', t') \<longrightarrow> cn_file h' = cn_file h \<and> ds_rows t' (cn_file h') = ds_rows s (cn_file h))"
proof -
  obtain r s1 where o: "open_storage an (staging_config (staging_path_of dir) c) s = (r, s1)" by force
  then obtain k where k: "r = Inr k"
    using assms(9,10) by (auto simp: open_storage_def staging_config_def split: prod.splits)
  let ?s2 = "s1\<lparr>ds_storage := Some k\<rparr>"
  have m: "move_database_to_snapshot an p (snapshot_path_of dir stamp) ?s2 = (Inl e, ?s2)"
    by (simp add: move_database_to_snapshot_def assms(11,12))
  have run: "swap_database an stamp s = (Inl (''Failed to move database to snapshot: '' @ show_storage_error e), ?s2)"
    using o k m by (simp add: swap_database_def assms(3,4,7))
  note x = exchange_facts [OF o [unfolded k] m assms(1,5,2)]
  have old: "cn_file h < ds_next s" using serves_old [OF assms(1,6)] .
  have new: "cn_file k = ds_next s" using x(10) assms(8) by simp
  have rows: "ds_rows (fold record_row xs u) = (ds_rows u)(cn_file k := ds_rows u (cn_file k) @ map Recorded xs)
      \<and> ds_storage (fold record_row xs u) = Some k \<and> ds_disk (fold record_row xs u) = ds_disk u \<and> ds_config (fold record_row xs u) = ds_config u
      \<and> ds_next (fold record_row xs u) = ds_next u"
    if "ds_storage u = Some k" for u
    using that by (induction xs arbitrary: u) (auto simp: record_row_def append_entry_def fun_eq_iff)
  have t: "t = fold record_row xs ?s2" by (simp add: t_def run)
  note tr = rows [of ?s2, folded t, simplified]
  have disk: "ds_disk t p = Some (cn_file h)"
  proof -
    have "p \<noteq> staging_path_of dir" "p \<noteq> with_extension (staging_path_of dir) ''db.wal''"
      using path_endings [OF assms(5,2)] by auto
    moreover have "so_db_path (staging_config (staging_path_of dir) c) = Some (staging_path_of dir)" by (simp add: staging_config_def)
    ultimately show ?thesis
      using open_storage_facts(8) [OF o assms(1) _ staging_wal_not_self] assms(6) tr by (simp add: serves_def)
  qed
  have numb: "numbered t" using x(5) tr by (auto simp: numbered_def)
  have kept: "ds_rows t (cn_file h) = ds_rows s (cn_file h)" using x(8) [OF old] tr new old by simp
  have "cn_file h' = cn_file h \<and> ds_rows t' (cn_file h') = ds_rows s (cn_file h)" if "open_storage an' c t = (Inr h', t')" for an' h' t'
  proof -
    note f = open_storage_facts [OF that numb assms(4) wal_not_self [OF assms(5)]]
    have "cn_file h' = cn_file h" using f(11) [OF refl] disk by simp
    moreover have "cn_file h < ds_next t" using numb disk by (auto simp: numbered_def)
    ultimately show ?thesis using f(9) kept by simp
  qed
  then have "\<forall>an' h' t'. open_storage an' c t = (Inr h', t') \<longrightarrow> cn_file h' = cn_file h \<and> ds_rows t' (cn_file h') = ds_rows s (cn_file h)"
    by blast
  moreover have "get_storage_status t = SA_Available" using tr by (simp add: get_storage_status_def)
  moreover have "ds_disk t (staging_path_of dir) = Some (cn_file k)" "ds_rows t (cn_file k) = map Recorded xs"
    using tr x(7,11) assms(8) by simp_all
  moreover have "fst (swap_database an stamp s) = Inl (''Failed to move database to snapshot: '' @ show_storage_error e)"
    by (simp add: run)
  ultimately show ?thesis using kept by blast
qed

definition move_fails :: answers where
  "move_fails = all_well\<lparr>an_move := Inl (Io_Error ''Permission denied (os error 13)'')\<rparr>"

lemma launched_parent: "parent ''/data/adsb_history.db'' = Some ''/data''" "staging_path_of ''/data'' = ''/data/adsb_history_next.db''"
  by (simp_all add: parent_def after_slash_def upto_slash_def staging_path_of_def path_join_def starts_with_def)

theorem torn_swap_hides_new_rows_witness:
  "ds_rows (fold record_row [7] (snd (swap_database move_fails ''2026-01-01T00-00-00.000'' launched))) 0 = ds_rows launched 0"
proof -
  have st: "stamped ''2026-01-01T00-00-00.000''" by (simp add: stamped_def is_digit_def)
  have db: "so_db_path (to_storage_config Embedded ''/data'' None) = Some ''/data/adsb_history.db''"
    using launched_facts(2,7) by (simp add: configured_path_def)
  have none: "ds_disk launched (staging_path_of ''/data'') = None" using launched_facts(5) by (simp add: launched_parent)
  show ?thesis
    using torn_swap_hides_new_rows [OF launched_facts(6) st launched_facts(2) db launched_managed launched_serves launched_parent(1) none,
        of move_fails "Io_Error ''Permission denied (os error 13)''" "[7]"]
    by (simp add: move_fails_def all_well_def)
qed

text \<open>Even a swap that succeeds leaves things behind. The log of the new database keeps the staging name
  when its database is renamed, where nothing will look for it; and the connection that is open
  afterwards neither shares with the configured address and token nor is attached to the remote
  database of the configuration, although configuration and mode still say so.\<close>

theorem swap_drops_log_sharing_and_remote:
  assumes "numbered s" "stamped stamp" "configured_path s = Some p" "managed p" "serves s p h" "parent p = Some dir"
    and "swap_database an stamp s = (Inr snap, s')" "an_wal an"
  shows "ds_disk s' (with_extension (staging_path_of dir) ''db.wal'') \<noteq> None
    \<and> ds_disk s' (with_extension p ''db.wal'') = None
    \<and> (\<exists>h'. serves s' p h' \<and> so_remote (cn_config h') = None \<and> open_sharing env (cn_config h') =
          \<lparr>sh_config = None, sh_status = Share_Off, sh_servers = []\<rparr>)
    \<and> ds_config s' = ds_config s \<and> ds_mode s' = ds_mode s"
  using assms(7,3,1,4,2)
proof (cases rule: swapped)
  case (1 c dir' h')
  then have "dir' = dir" using assms(6) by simp
  with 1 assms(8) show ?thesis by (auto simp: open_sharing_def staging_config_def)
qed

lemma open_works: "an_connect an = Inr () \<Longrightarrow> an_setup an = Inr () \<Longrightarrow> \<exists>h s1. open_storage an c s = (Inr h, s1)"
  by (auto simp: open_storage_def split: prod.split)

lemma all_well_works: "an_connect all_well = Inr ()" "an_setup all_well = Inr ()" "an_rename all_well = Inr ()"
  by (simp_all add: all_well_def)

lemma launched_swap: "\<exists>s'. swap_database all_well ''2026-01-01T00-00-00.000'' launched = (Inr (snapshot_path_of ''/data'' ''2026-01-01T00-00-00.000''), s')"
proof -
  let ?c = "to_storage_config Embedded ''/data'' None" and ?p = "''/data/adsb_history.db''" and ?t = "''2026-01-01T00-00-00.000''"
  have st: "stamped ?t" by (simp add: stamped_def is_digit_def)
  have db: "so_db_path ?c = Some ?p" using launched_facts(2,7) by (simp add: configured_path_def)
  obtain h s1 where o: "open_storage all_well (staging_config (staging_path_of ''/data'') ?c) launched = (Inr h, s1)"
    using all_well_works open_works [of all_well "staging_config (staging_path_of ''/data'') ?c" launched] by blast
  obtain m s2 where mv: "move_database_to_snapshot all_well ?p (snapshot_path_of ''/data'' ?t) (s1\<lparr>ds_storage := Some h\<rparr>) = (m, s2)"
    by force
  have "so_db_path (staging_config (staging_path_of ''/data'') ?c) = Some (staging_path_of ''/data'')" by (simp add: staging_config_def)
  then have "ds_disk s1 ?p = Some 0"
    using open_storage_facts(10) [OF o launched_facts(6) _ staging_wal_not_self] launched_facts(4) by simp
  then have m: "m = Inr ()"
    using mv by (auto simp: move_database_to_snapshot_def rename_file_def all_well_def Let_def split: option.splits if_splits)
  have "ds_disk s2 (staging_path_of ''/data'') = Some (cn_file h)"
    using exchange_facts(7) [OF o mv launched_facts(6) launched_managed st] .
  then show ?thesis
    using o mv m all_well_works(3) by (auto simp: swap_database_def launched_facts(2) db launched_parent(1) rename_file_def)
qed

theorem swap_drops_log_sharing_and_remote_witness:
  "\<exists>s'. ds_disk (s' :: nat desktop) (with_extension (staging_path_of ''/data'') ''db.wal'') \<noteq> None \<and> ds_config s' = ds_config launched"
proof -
  have st: "stamped ''2026-01-01T00-00-00.000''" by (simp add: stamped_def is_digit_def)
  from launched_swap obtain s' where run: "swap_database all_well ''2026-01-01T00-00-00.000'' launched
      = (Inr (snapshot_path_of ''/data'' ''2026-01-01T00-00-00.000''), s')" by blast
  have "an_wal all_well" by (simp add: all_well_def)
  from swap_drops_log_sharing_and_remote [OF launched_facts(6) st launched_facts(7) launched_managed launched_serves launched_parent(1) run this]
  show ?thesis by blast
qed

subsection \<open>Release and reclaim\<close>

text \<open>Releasing the database and reclaiming it again gives back the same file at the same path with its
  rows, plus the two events of the audit trail; in between the status says \<open>released\<close> and what the feed
  records is dropped. Neither changes the configuration or the mode.\<close>

theorem release_reclaim_round_trip:
  fixes s :: "'r desktop" and xs :: "'r list"
  assumes "in_place s" "configured_path s = Some p" "serves s p h"
    and "an_checkpoint an = Inr ()" "an_event an" "an_connect an' = Inr ()" "an_setup an' = Inr ()" "an_event an'"
  defines "r \<equiv> snd (release_storage an s)"
  defines "t \<equiv> snd (reclaim_storage an' (fold record_row xs r))"
  shows "fst (release_storage an s) = Inr () \<and> get_storage_status r = SA_Released
    \<and> fst (reclaim_storage an' (fold record_row xs r)) = Inr ()
    \<and> (\<exists>h'. serves t p h' \<and> cn_file h' = cn_file h)
    \<and> ds_rows t (cn_file h) = ds_rows s (cn_file h) @ [Event ET_Storage ES_Released, Event ET_Storage ES_Reclaimed]
    \<and> ds_config t = ds_config s \<and> ds_mode t = ds_mode s"
proof -
  obtain c where c: "ds_config s = Some c" "so_db_path c = Some p" and m: "managed p" and n: "numbered s"
    using assms(1,2) by (auto simp: placed_def configured_path_def bind_eq_Some_conv)
  have r: "release_storage an s = (Inr (), emit SA_Released ((append_entry (cn_file h) (Event ET_Storage ES_Released) s)\<lparr>ds_storage := None\<rparr>))"
    using assms(3-5) by (simp add: release_storage_def serves_def record_event_def)
  have dropped: "fold record_row xs r = r"
  proof -
    have "ds_storage r = None" by (simp add: r_def r)
    then show ?thesis by (induction xs) (simp_all add: record_row_def)
  qed
  have r_facts: "ds_config r = Some c" "ds_storage r = None" "ds_disk r = ds_disk s" "ds_next r = ds_next s" "ds_mode r = ds_mode s"
    "ds_rows r = (ds_rows s)(cn_file h := ds_rows s (cn_file h) @ [Event ET_Storage ES_Released])"
    using c(1) by (simp_all add: r_def r append_entry_def)
  have nr: "numbered r" using n r_facts by (simp add: numbered_def)
  obtain h' s1 where o: "open_storage an' c r = (Inr h', s1)"
    using open_works [OF assms(6,7)] by blast
  note f = open_storage_facts [OF o nr c(2) wal_not_self [OF m]]
  have t: "reclaim_storage an' r = (Inr (), emit SA_Available ((append_entry (cn_file h') (Event ET_Storage ES_Reclaimed) s1)\<lparr>ds_storage := Some h'\<rparr>))"
    using o assms(8) r_facts(1) by (simp add: reclaim_storage_def record_event_def)
  have same_file: "cn_file h' = cn_file h" using f(11) [OF refl] r_facts(3) assms(3) by (simp add: serves_def)
  have "ds_rows s1 (cn_file h) = ds_rows r (cn_file h)" using f(9) serves_old [OF n assms(3)] r_facts(4) by simp
  then show ?thesis
    using f(3,4) f(11) [OF refl] r_facts c(1)
    by (auto simp: t_def dropped t r get_storage_status_def serves_def same_file append_entry_def)
qed

theorem release_reclaim_round_trip_witness:
  "ds_rows (snd (reclaim_storage all_well (fold record_row [7] (snd (release_storage all_well launched))))) 0
     = ds_rows launched 0 @ [Event ET_Storage ES_Released, Event ET_Storage ES_Reclaimed]"
  using release_reclaim_round_trip [OF run_in_place [OF launched_runs] launched_facts(7) launched_serves, of all_well all_well "[7]"]
  by (simp add: all_well_def)

subsection \<open>Changing the mode\<close>

text \<open>A change of mode forgets the stack. A client launched for a named stack opens that stack's
  database; after any successful change of mode, back to the mode it had included, it has open, and
  records into, the database of the default stack, until the next launch opens its own again.\<close>

theorem mode_change_leaves_stack:
  assumes "stack_name raw = Some name" "an_app_dir an = Inr app" "app \<noteq> []" "last app \<noteq> CHR ''/''"
    and "set_storage_mode an mode (init_storage an (stack_name raw) share env_mode s) = (Inr SA_Available, t)"
  shows "configured_path t = so_db_path (to_storage_config mode (stack_data_dir app None) share)
    \<and> configured_path t \<noteq> so_db_path (to_storage_config mode (stack_data_dir app (stack_name raw)) share)
    \<and> (\<exists>h. ds_storage t = Some h \<and> so_db_path (cn_config h) = configured_path t)"
proof -
  let ?s = "init_storage an (stack_name raw) share env_mode s"
  obtain s1 h where o: "open_storage an (to_storage_config mode app (Option.bind (ds_config ?s) so_share)) (?s\<lparr>ds_storage := None\<rparr>) = (Inr h, s1)"
    and t: "t = emit SA_Available ((record_event an h ES_Reclaimed s1)\<lparr>ds_storage := Some h,
        ds_config := Some (to_storage_config mode app (Option.bind (ds_config ?s) so_share)), ds_mode := mode, ds_saved_mode := Some mode\<rparr>)"
    using assms(2,5) by (auto simp: set_storage_mode_def Let_def split: sum.splits prod.splits)
  have same: "so_db_path (to_storage_config mode app x) = so_db_path (to_storage_config mode app share)" for x
    by (simp add: db_path_of)
  have "cn_config h = to_storage_config mode app (Option.bind (ds_config ?s) so_share)"
    using o by (auto simp: open_storage_def split: sum.splits prod.splits)
  moreover have none: "stack_name None = None" by (simp add: stack_name_def)
  have "so_db_path (to_storage_config mode (stack_data_dir app (stack_name None)) share)
      \<noteq> so_db_path (to_storage_config mode (stack_data_dir app (stack_name raw)) share)"
    unfolding stack_db_path [OF assms(3,4)]
    using stack_parts_differ [of None raw, OF _ mode_file_plain [of mode] mode_file_plain [of mode]] assms(1) none by force
  ultimately show ?thesis
    by (auto simp: t configured_path_def same [of "Option.bind (ds_config ?s) so_share"] none stack_data_dir_def [of _ None])
qed

lemma stack_dev: "stack_name (Some ''dev'') = Some ''dev''"
  by (simp add: stack_name_def trim_eval to_ascii_lowercase_def ascii_lower_def alphanumeric_def is_digit_def)

theorem mode_change_leaves_stack_witness:
  "\<exists>t. set_storage_mode all_well Embedded (init_storage all_well (stack_name (Some ''dev'')) None None first_run) = (Inr SA_Available, t)
     \<and> configured_path t = Some ''/data/adsb_history.db''"
proof -
  let ?s = "init_storage all_well (stack_name (Some ''dev'')) None None first_run"
  obtain h s1 where "open_storage all_well (to_storage_config Embedded ''/data'' (Option.bind (ds_config ?s) so_share)) (?s\<lparr>ds_storage := None\<rparr>) = (Inr h, s1)"
    using open_works all_well_works(1,2) by blast
  then obtain t where t: "set_storage_mode all_well Embedded ?s = (Inr SA_Available, t)"
    by (simp add: set_storage_mode_def all_well_def Let_def)
  have "an_app_dir all_well = Inr ''/data''" by (simp add: all_well_def)
  from mode_change_leaves_stack [OF stack_dev this _ _ t] have "configured_path t = so_db_path (to_storage_config Embedded ''/data'' None)"
    by (simp add: stack_data_dir_def)
  also have "\<dots> = Some ''/data/adsb_history.db''" using history_path by (simp add: db_path_of mode_file_def)
  finally show ?thesis using t by blast
qed

text \<open>The status cannot tell a database that failed to open from one that was released. After a launch
  or a change of mode whose database could not be opened it says \<open>released\<close>, while the change itself
  announced \<open>unavailable\<close> and reclaiming then opens the old mode's database.\<close>

theorem failed_open_reported_as_released:
  assumes "an_app_dir an = Inr app" "an_connect an = Inl e" "an_create_dir an = Inr ()"
  shows "get_storage_status (init_storage an stack share env_mode s) = SA_Released
    \<and> (ds_config u \<noteq> None \<and> validate_mode mode = Inr () \<longrightarrow>
        (\<exists>msg v. set_storage_mode an mode u = (Inl msg, v) \<and> last (ds_emitted v) = SA_Unavailable
          \<and> get_storage_status v = SA_Released \<and> ds_config v = ds_config u \<and> ds_mode v = ds_mode u))"
  using assms
  by (auto simp: init_storage_def get_storage_status_def open_storage_def set_storage_mode_def Let_def emit_def)

theorem failed_open_reported_as_released_witness:
  "get_storage_status (init_storage (all_well\<lparr>an_connect := Inl (DuckDb ''locked'')\<rparr>) None None None first_run) = SA_Released"
proof -
  have "an_app_dir (all_well\<lparr>an_connect := Inl (DuckDb ''locked'')\<rparr>) = Inr ''/data''"
    "an_connect (all_well\<lparr>an_connect := Inl (DuckDb ''locked'')\<rparr>) = Inl (DuckDb ''locked'')"
    "an_create_dir (all_well\<lparr>an_connect := Inl (DuckDb ''locked'')\<rparr>) = Inr ()" by (simp_all add: all_well_def)
  from failed_open_reported_as_released [OF this] show ?thesis by blast
qed

end
