(* ===== verification/Step_Runs.thy ===== *)
theory Step_Runs imports Prelude begin

text \<open>
  Runs of a task given as a partial step function: \<open>None\<close> is an event that cannot happen in that
  state. The locale is the contract between a task and an invariant of it; a task's theory shows the
  contract for its own step function and takes the invariant of every run from here.
\<close>

fun steps :: "('e \<Rightarrow> 's \<Rightarrow> 's option) \<Rightarrow> 'e list \<Rightarrow> 's \<Rightarrow> 's option" where
  "steps step [] s = Some s"
| "steps step (e # es) s = Option.bind (step e s) (steps step es)"

lemma steps_Cons_Some: "steps step (e # es) s = Some t \<longleftrightarrow> (\<exists>u. step e s = Some u \<and> steps step es u = Some t)"
  by (simp add: bind_eq_Some_conv)

lemma steps_append: "steps step (xs @ ys) s = Option.bind (steps step xs s) (steps step ys)"
proof (induction xs arbitrary: s)
  case (Cons x xs)
  then show ?case by (cases "step x s") simp_all
qed simp

locale kept =
  fixes step :: "'e \<Rightarrow> 's \<Rightarrow> 's option" and inv :: "'s \<Rightarrow> bool"
  assumes keep: "step e s = Some t \<Longrightarrow> inv s \<Longrightarrow> inv t"
begin

lemma run_keeps: "steps step es s = Some t \<Longrightarrow> inv s \<Longrightarrow> inv t"
proof (induction es arbitrary: s)
  case (Cons e es)
  then obtain u where "step e s = Some u" "steps step es u = Some t" by (auto simp: bind_eq_Some_conv)
  with Cons.IH Cons.prems(2) keep show ?case by blast
qed simp

end

text \<open>A relation between the state before and after, in which steps compose.\<close>

locale carried =
  fixes step :: "'e \<Rightarrow> 's \<Rightarrow> 's option" and rel :: "'e list \<Rightarrow> 's \<Rightarrow> 's \<Rightarrow> bool"
  assumes carry_none: "rel [] s s"
    and carry_step: "step e s = Some t \<Longrightarrow> rel es t u \<Longrightarrow> rel (e # es) s u"
begin

lemma run_carries: "steps step es s = Some t \<Longrightarrow> rel es s t"
proof (induction es arbitrary: s)
  case Nil
  then show ?case by (simp add: carry_none)
next
  case (Cons e es)
  then obtain u where "step e s = Some u" "steps step es u = Some t" by (auto simp: bind_eq_Some_conv)
  with Cons.IH carry_step show ?case by blast
qed

end

text \<open>Lists whose neighbours differ: what a task sends when it sends changes only.\<close>

lemma distinct_adj_snoc: "distinct_adj xs \<Longrightarrow> xs \<noteq> [] \<Longrightarrow> last xs \<noteq> x \<Longrightarrow> distinct_adj (xs @ [x])"
  by (simp add: distinct_adj_append_iff)

end
