(* ===== verification/Desktop_Feed.thy ===== *)
theory Desktop_Feed imports Step_Runs Feed_Source Ingest Weather_Types Stored_Events begin

text \<open>
  A running feed of the desktop client: the source that \<open>start_feed\<close> of \<open>bridge.rs\<close> builds, the client
  task and the watchdog that share the connection status, and the commands that start and stop
  feeds (\<open>commands.rs\<close>). A task is atomic between two awaits. Log texts and the detail of the
  watchdog's events (the age of the last message) are left out.
\<close>

subsection \<open>State (\<open>state.rs\<close>)\<close>

datatype connection_status = CS_Disconnected | CS_Connecting | CS_Connected | CS_Degraded | CS_ConnectionLost

record status_response =
  is_running :: bool
  socket_status :: connection_status
  pulsar_status :: connection_status

definition stopped_status :: status_response where
  "stopped_status = \<lparr>is_running = False, socket_status = CS_Disconnected, pulsar_status = CS_Disconnected\<rparr>"

definition connecting_status :: "bool \<Rightarrow> status_response" where
  "connecting_status testing = \<lparr>is_running = True, socket_status = CS_Connecting,
     pulsar_status = (if testing then CS_Disconnected else CS_Connecting)\<rparr>"

definition watched_status :: "bool \<Rightarrow> connection_status \<Rightarrow> status_response" where
  "watched_status testing socket = \<lparr>is_running = True, socket_status = socket,
     pulsar_status = (if testing then CS_Disconnected else CS_Connected)\<rparr>"

subsection \<open>The source of a feed\<close>

text \<open>The MQTT side: the weather topics ride on the connection of the feed.\<close>

definition feed_mqtt_source :: "config \<Rightarrow> mqtt_source" where
  "feed_mqtt_source c =
     (let s = mqtt_source_new c; t = from_grid_topic (weather_topic c)
      in source_subscribe (with_aux_topic (wt_availability t) (with_aux_topic (wt_status t) (with_aux_topic (wt_grid t) s))))"

definition feed_socket_source :: "config \<Rightarrow> 'f \<Rightarrow> instant \<Rightarrow> int \<Rightarrow> client_error + 'f socket_source" where
  "feed_socket_source c noop now wall_ms =
     (case socket_source_new c [noop] now wall_ms of
        Inl e \<Rightarrow> Inl e | Inr s \<Rightarrow> Inr (socket_source_subscribe s))"

text \<open>\<open>relay_messages\<close> runs the ingest pipeline of the engine with this configuration.\<close>

definition feed_ingest_config :: "config \<Rightarrow> ingest_config" where
  "feed_ingest_config c = \<lparr>ig_source_id = source_id c, dump1090_tz = config.dump1090_tz c, flush_interval = from_millis 500\<rparr>"

subsection \<open>Client task and watchdog\<close>

datatype ui_event = UI_Status status_response | UI_Error client_error | UI_Stopped

datatype client_phase =
    CP_Spawned
  | CP_Running
  | CP_Ended \<comment> \<open>the stopped status is out; \<open>alive_tx\<close> is held until the last event is recorded\<close>
  | CP_Gone

record feed_tasks =
  ft_test_mode :: bool
  ft_policy :: liveness_policy
  ft_phase :: client_phase
  ft_transport :: source_status
  ft_last_message :: instant
  ft_current :: connection_status \<comment> \<open>\<open>current_status\<close> of the watchdog\<close>
  ft_watchdog :: bool
  ft_connection :: status_response
  ft_ui :: "ui_event list"
  ft_log :: "(status_event_type \<times> status_event_status \<times> client_error option) list"

definition tell :: "ui_event list \<Rightarrow> feed_tasks \<Rightarrow> feed_tasks" where
  "tell us s = s\<lparr>ft_ui := ft_ui s @ us\<rparr>"

text \<open>\<open>StatusEventRecorder::record\<close>; \<open>ok\<close> is whether there is a storage that takes the event.\<close>

definition log_event ::
  "bool \<Rightarrow> status_event_type \<Rightarrow> status_event_status \<Rightarrow> client_error option \<Rightarrow> feed_tasks \<Rightarrow> feed_tasks" where
  "log_event ok ty st detail s = (if ok then s\<lparr>ft_log := ft_log s @ [(ty, st, detail)]\<rparr> else s)"

definition show_status :: "status_response \<Rightarrow> feed_tasks \<Rightarrow> feed_tasks" where
  "show_status r s = tell [UI_Status r] (s\<lparr>ft_connection := r\<rparr>)"

fun status_of_liveness :: "liveness \<Rightarrow> connection_status" where
  "status_of_liveness L_Connecting = CS_Connecting"
| "status_of_liveness L_Healthy = CS_Connected"
| "status_of_liveness L_Degraded = CS_Degraded"
| "status_of_liveness L_Lost = CS_ConnectionLost"

fun event_of_status :: "connection_status \<Rightarrow> status_event_status" where
  "event_of_status CS_Connected = ES_Connected"
| "event_of_status CS_Degraded = ES_Degraded"
| "event_of_status CS_ConnectionLost = ES_ConnectionLost"
| "event_of_status _ = ES_Disconnected"

text \<open>The client task: its start, the two ways \<open>select!\<close> ends, and what it does on the way out.\<close>

definition client_start :: "bool \<Rightarrow> feed_tasks \<Rightarrow> feed_tasks" where
  "client_start ok s = (log_event ok ET_Feed ES_Connecting None
     (show_status (connecting_status (ft_test_mode s)) s))\<lparr>ft_phase := CP_Running\<rparr>"

definition client_out :: "feed_tasks \<Rightarrow> feed_tasks" where
  "client_out s = (show_status stopped_status (tell [UI_Stopped] s))\<lparr>ft_phase := CP_Ended\<rparr>"

definition client_end :: "client_error + unit \<Rightarrow> bool \<Rightarrow> feed_tasks \<Rightarrow> feed_tasks" where
  "client_end r ok s = (case r of
      Inr _ \<Rightarrow> client_out (log_event ok ET_Feed ES_Stopped None s)
    | Inl e \<Rightarrow> client_out (tell [UI_Error e] (log_event ok ET_Feed ES_Error (Some e) s)))"

definition client_gone :: "bool \<Rightarrow> feed_tasks \<Rightarrow> feed_tasks" where
  "client_gone ok s = (log_event ok ET_Socket ES_Disconnected None s)\<lparr>ft_phase := CP_Gone\<rparr>"

text \<open>The watchdog: a check, a heartbeat. \<open>emitted\<close> is whether the application still takes events.\<close>

definition watchdog_check :: "instant \<Rightarrow> bool \<Rightarrow> bool \<Rightarrow> feed_tasks \<Rightarrow> feed_tasks" where
  "watchdog_check now ok emitted s =
     (let new_status = status_of_liveness (resolve (ft_policy s) (ft_transport s) (elapsed_since (ft_last_message s) now))
      in if new_status \<noteq> ft_current s
         then (let s = log_event ok ET_Socket (event_of_status new_status) None s;
                   s = show_status (watched_status (ft_test_mode s) new_status) (s\<lparr>ft_current := new_status\<rparr>)
               in if emitted then s else s\<lparr>ft_watchdog := False\<rparr>)
         else s)"

definition watchdog_heartbeat :: "bool \<Rightarrow> feed_tasks \<Rightarrow> feed_tasks" where
  "watchdog_heartbeat emitted s =
     (let s = show_status (watched_status (ft_test_mode s) (ft_current s)) s
      in if emitted then s else s\<lparr>ft_watchdog := False\<rparr>)"

datatype feed_event =
    FE_Start bool
  | FE_Source_Ended "client_error + unit" bool
  | FE_Stop_Signal
  | FE_Client_Gone bool
  | FE_Message instant
  | FE_Transport source_status
  | FE_Check instant bool bool
  | FE_Heartbeat bool
  | FE_Alive_Dropped

text \<open>A tick can be ready beside the dropped \<open>alive_tx\<close>: \<open>select!\<close> then takes either branch.\<close>

fun feed_step :: "feed_event \<Rightarrow> feed_tasks \<Rightarrow> feed_tasks option" where
  "feed_step (FE_Start ok) s = (if ft_phase s = CP_Spawned then Some (client_start ok s) else None)"
| "feed_step (FE_Source_Ended r ok) s = (if ft_phase s = CP_Running then Some (client_end r ok s) else None)"
| "feed_step FE_Stop_Signal s = (if ft_phase s = CP_Running then Some (client_out s) else None)"
| "feed_step (FE_Client_Gone ok) s = (if ft_phase s = CP_Ended then Some (client_gone ok s) else None)"
| "feed_step (FE_Message now) s = Some (s\<lparr>ft_last_message := now\<rparr>)"
| "feed_step (FE_Transport st) s = (if ft_phase s = CP_Gone then None else Some (s\<lparr>ft_transport := st\<rparr>))"
| "feed_step (FE_Check now ok emitted) s = (if ft_watchdog s then Some (watchdog_check now ok emitted s) else None)"
| "feed_step (FE_Heartbeat emitted) s = (if ft_watchdog s then Some (watchdog_heartbeat emitted s) else None)"
| "feed_step FE_Alive_Dropped s =
     (if ft_watchdog s \<and> ft_phase s = CP_Gone then Some (s\<lparr>ft_watchdog := False\<rparr>) else None)"

definition feed_tasks_run :: "feed_event list \<Rightarrow> feed_tasks \<Rightarrow> feed_tasks option" where
  "feed_tasks_run = steps feed_step"

definition spawn_feed :: "config \<Rightarrow> instant \<Rightarrow> status_response \<Rightarrow> feed_tasks" where
  "spawn_feed c now connection =
     \<lparr>ft_test_mode = test_mode c, ft_policy = cfg_liveness_policy c, ft_phase = CP_Spawned,
      ft_transport = Disconnected, ft_last_message = now, ft_current = CS_Connecting, ft_watchdog = True,
      ft_connection = connection, ft_ui = [], ft_log = []\<rparr>"

subsection \<open>The commands \<open>start_feed\<close> and \<open>stop_feed\<close>\<close>

text \<open>
  Commands run concurrently. \<open>start_feed\<close> looks at the handle, spawns the feed, waits for the storage and
  then stores the handle: three moments between which others may run. A feed is a number; \<open>fc_live\<close>
  holds those with unfinished tasks.
\<close>

datatype start_phase = Checked | Spawned nat

record feed_control =
  fc_handle :: "nat option"
  fc_live :: "nat list"
  fc_next :: nat
  fc_starts :: "(nat \<times> start_phase) list" \<comment> \<open>the \<open>start_feed\<close> commands under way\<close>
  fc_connection :: status_response

definition initial_control :: feed_control where
  "initial_control = \<lparr>fc_handle = None, fc_live = [], fc_next = 0, fc_starts = [], fc_connection = stopped_status\<rparr>"

datatype control_event = Start_Check nat | Start_Spawn nat bool | Start_Store nat | Stop | Ends nat

definition set_phase :: "nat \<Rightarrow> start_phase option \<Rightarrow> feed_control \<Rightarrow> feed_control" where
  "set_phase i p s = s\<lparr>fc_starts := (case p of None \<Rightarrow> [] | Some p \<Rightarrow> [(i, p)]) @ filter (\<lambda>x. fst x \<noteq> i) (fc_starts s)\<rparr>"

definition stop_feed :: "feed_control \<Rightarrow> feed_control" where
  [handler_defs]: "stop_feed s = s\<lparr>fc_handle := None, fc_connection := stopped_status,
      fc_live := (case fc_handle s of None \<Rightarrow> fc_live s | Some f \<Rightarrow> removeAll f (fc_live s))\<rparr>"

fun control_step :: "control_event \<Rightarrow> feed_control \<Rightarrow> feed_control option" where
  "control_step (Start_Check i) s =
     (if map_of (fc_starts s) i \<noteq> None then None
      else case fc_handle s of
             Some f \<Rightarrow> if f \<in> set (fc_live s) then Some s \<comment> \<open>\<open>Feed is already running\<close>\<close>
                       else Some (set_phase i (Some Checked) s)
           | None \<Rightarrow> Some (set_phase i (Some Checked) s))"
| "control_step (Start_Spawn i ok) s =
     (if map_of (fc_starts s) i \<noteq> Some Checked then None
      else (let s = s\<lparr>fc_handle := None\<rparr>
            in if ok then Some (set_phase i (Some (Spawned (fc_next s)))
                            (s\<lparr>fc_live := fc_next s # fc_live s, fc_next := Suc (fc_next s)\<rparr>))
               else Some (set_phase i None s)))"
| "control_step (Start_Store i) s = (case map_of (fc_starts s) i of
      Some (Spawned f) \<Rightarrow> Some (set_phase i None (s\<lparr>fc_handle := Some f\<rparr>))
    | _ \<Rightarrow> None)"
| "control_step Stop s = Some (stop_feed s)"
| "control_step (Ends f) s = (if f \<in> set (fc_live s) then Some (s\<lparr>fc_live := removeAll f (fc_live s)\<rparr>) else None)"

subsection \<open>Settings of a feed\<close>

text \<open>\<open>save_config\<close>; \<open>saved\<close> is what the store answers.\<close>

datatype save_error = Invalid client_error | Not_Saved string

definition save_config :: "string + unit \<Rightarrow> config \<Rightarrow> config \<Rightarrow> (save_error + unit) \<times> config" where
  "save_config saved c current = (case validate c of
      Inl e \<Rightarrow> (Inl (Invalid e), current)
    | Inr _ \<Rightarrow> (case saved of Inl e \<Rightarrow> (Inl (Not_Saved e), current) | Inr _ \<Rightarrow> (Inr (), c)))"

end
