(* ===== verification/Desktop_Feed_Props.thy ===== *)
theory Desktop_Feed_Props imports Desktop_Feed begin

text \<open>
  The connection status the desktop client shows: it is the verdict of the liveness policy while the feed
  runs, never \<open>Connected\<close> for a socket source, and not always \<open>stopped\<close> after the feed has ended. Starting
  and stopping feeds: one at a time when the commands do not overlap.
\<close>

lemmas feed_handler_defs = client_start_def client_end_def client_out_def client_gone_def watchdog_check_def
  watchdog_heartbeat_def log_event_def show_status_def tell_def Let_def

lemma log_event_frame [simp]:
  "ft_phase (log_event ok ty st d s) = ft_phase s" "ft_current (log_event ok ty st d s) = ft_current s"
  "ft_connection (log_event ok ty st d s) = ft_connection s" "ft_policy (log_event ok ty st d s) = ft_policy s"
  "ft_test_mode (log_event ok ty st d s) = ft_test_mode s" "ft_watchdog (log_event ok ty st d s) = ft_watchdog s"
  "ft_ui (log_event ok ty st d s) = ft_ui s" "ft_transport (log_event ok ty st d s) = ft_transport s"
  "ft_last_message (log_event ok ty st d s) = ft_last_message s"
  by (simp_all add: log_event_def)

lemma feed_step_frame:
  "feed_step e s = Some t \<Longrightarrow> ft_policy t = ft_policy s \<and> ft_test_mode t = ft_test_mode s"
  by (cases e) (auto simp: feed_handler_defs split: if_splits sum.splits)

subsection \<open>While the feed runs\<close>

definition shows_current :: "feed_tasks \<Rightarrow> bool" where
  "shows_current s \<longleftrightarrow> ft_phase s \<noteq> CP_Spawned
     \<and> (ft_phase s = CP_Running \<longrightarrow> is_running (ft_connection s) \<and> socket_status (ft_connection s) = ft_current s)"

interpretation current: kept feed_step shows_current
proof
  fix e s t
  assume "feed_step e s = Some t" and "shows_current s"
  then show "shows_current t"
    by (cases e)
      (auto simp: shows_current_def watched_status_def client_end_def client_out_def client_gone_def watchdog_check_def
        watchdog_heartbeat_def show_status_def tell_def Let_def split: if_splits sum.splits)
qed

interpretation policy: kept feed_step "\<lambda>s. ft_policy s = p" for p
  by unfold_locales (simp add: feed_step_frame)

text \<open>C10: While its client runs, a feed is shown as running, and each check of the watchdog leaves the
  verdict of the policy on the screen: with the transport up the feed is connected, degraded or lost
  by the age of the last message against the two limits of the configured source, with the transport
  down it is lost, and while it comes up connecting; whatever was shown before, and however messages,
  heartbeats and changes of the transport come in between.\<close>

theorem feed_status_is_verdict:
  assumes "feed_tasks_run (FE_Start ok # es @ [FE_Check now ok' emitted]) (spawn_feed c t0 connection) = Some s"
    and "ft_phase s = CP_Running"
  shows "is_running (ft_connection s)
    \<and> socket_status (ft_connection s) = (let quiet = elapsed_since (ft_last_message s) now; p = cfg_liveness_policy c
        in case ft_transport s of
             Disconnected \<Rightarrow> CS_ConnectionLost
           | Connecting \<Rightarrow> CS_Connecting
           | Connected \<Rightarrow> if lost_after p \<le> quiet then CS_ConnectionLost
                          else if degraded_after p \<le> quiet then CS_Degraded else CS_Connected)"
proof -
  let ?s0 = "client_start ok (spawn_feed c t0 connection)"
  obtain u where u: "steps feed_step es ?s0 = Some u" "feed_step (FE_Check now ok' emitted) u = Some s"
    using assms(1) by (auto simp: feed_tasks_run_def steps_append bind_eq_Some_conv spawn_feed_def)
  have "shows_current ?s0"
    by (simp add: shows_current_def client_start_def show_status_def tell_def connecting_status_def spawn_feed_def)
  then have "shows_current s" using current.run_keeps [OF u(1)] current.keep [OF u(2)] by simp
  moreover have "ft_policy u = cfg_liveness_policy c"
    using policy.run_keeps [OF u(1)] by (simp add: client_start_def show_status_def tell_def spawn_feed_def)
  then have "ft_current s = status_of_liveness (resolve (cfg_liveness_policy c) (ft_transport s) (elapsed_since (ft_last_message s) now))"
    using u(2) by (auto simp: watchdog_check_def show_status_def tell_def Let_def split: if_splits)
  ultimately show ?thesis using assms(2)
    by (auto simp: shows_current_def Let_def split: source_status.splits)
qed

theorem feed_status_is_verdict_witness:
  "\<exists>s. feed_tasks_run [FE_Start True, FE_Transport Connected, FE_Message (from_secs 9), FE_Check (from_secs 10) True True,
         FE_Heartbeat True, FE_Check (from_secs 159) True True]
       (spawn_feed ((default_config ''out.sbs'')\<lparr>source_kind := MqttKind, heartbeat_timeout_secs := 60\<rparr>) 0 stopped_status) = Some s
     \<and> socket_status (ft_connection s) = CS_Degraded"
  (is "\<exists>s. feed_tasks_run ?es (spawn_feed ?c 0 _) = Some s \<and> _")
proof -
  obtain s where s: "feed_tasks_run ?es (spawn_feed ?c 0 stopped_status) = Some s" "ft_phase s = CP_Running"
      "ft_transport s = Connected" "ft_last_message s = from_secs 9"
    by (simp add: feed_tasks_run_def feed_handler_defs spawn_feed_def cfg_liveness_policy_def for_mqtt_def
        from_secs_def elapsed_since_def)
  have "feed_tasks_run (FE_Start True # [FE_Transport Connected, FE_Message (from_secs 9), FE_Check (from_secs 10) True True,
      FE_Heartbeat True] @ [FE_Check (from_secs 159) True True]) (spawn_feed ?c 0 stopped_status) = Some s"
    using s(1) by simp
  from feed_status_is_verdict [OF this s(2)] s(1,3,4) show ?thesis
    by (auto simp: cfg_liveness_policy_def for_mqtt_def from_secs_def elapsed_since_def Let_def)
qed

subsection \<open>A socket source never connects\<close>

definition dim :: "connection_status \<Rightarrow> bool" where
  "dim x \<longleftrightarrow> x \<noteq> CS_Connected \<and> x \<noteq> CS_Degraded"

definition never_connected :: "feed_tasks \<Rightarrow> bool" where
  "never_connected s \<longleftrightarrow> ft_transport s \<noteq> Connected \<and> dim (ft_current s) \<and> dim (socket_status (ft_connection s))
     \<and> (\<forall>r. UI_Status r \<in> set (ft_ui s) \<longrightarrow> dim (socket_status r))"

lemma never_connected_frame [simp]:
  "never_connected (s\<lparr>ft_phase := ph\<rparr>) = never_connected s" "never_connected (s\<lparr>ft_watchdog := w\<rparr>) = never_connected s"
  "never_connected (s\<lparr>ft_last_message := t\<rparr>) = never_connected s"
  "never_connected (log_event ok ty st d s) = never_connected s"
  "never_connected (tell [UI_Stopped] s) = never_connected s" "never_connected (tell [UI_Error e] s) = never_connected s"
  by (simp_all add: never_connected_def tell_def)

lemma never_connected_show: "never_connected s \<Longrightarrow> dim (socket_status r) \<Longrightarrow> never_connected (show_status r s)"
  by (auto simp: never_connected_def show_status_def tell_def)

lemma dim_statuses [simp]:
  "dim (socket_status stopped_status)" "dim (socket_status (connecting_status b))"
  "socket_status (watched_status b x) = x"
  by (simp_all add: dim_def stopped_status_def connecting_status_def watched_status_def)

lemma dim_verdict: "st \<noteq> Connected \<Longrightarrow> dim (status_of_liveness (resolve p st q))"
  by (cases st) (simp_all add: dim_def)

lemma never_connected_step:
  assumes "feed_step e s = Some t" and "never_connected s" and "e \<noteq> FE_Transport Connected"
  shows "never_connected t"
proof (cases e)
  case (FE_Check now ok emitted)
  let ?v = "status_of_liveness (resolve (ft_policy s) (ft_transport s) (elapsed_since (ft_last_message s) now))"
  have "dim ?v" using assms(2) by (intro dim_verdict) (simp add: never_connected_def)
  then have "never_connected (show_status (watched_status (ft_test_mode s) ?v) ((log_event ok ET_Socket (event_of_status ?v) None s)\<lparr>ft_current := ?v\<rparr>))"
    using assms(2) by (intro never_connected_show) (simp_all add: never_connected_def)
  then show ?thesis using assms(1,2) FE_Check by (auto simp: watchdog_check_def Let_def split: if_splits)
next
  case (FE_Heartbeat emitted)
  then show ?thesis using assms by (auto simp: watchdog_heartbeat_def Let_def never_connected_def dim_def
        show_status_def tell_def watched_status_def split: if_splits)
next
  case (FE_Transport st)
  then show ?thesis using assms by (auto simp: never_connected_def split: if_splits)
qed (use assms in \<open>auto simp: client_start_def client_end_def client_out_def client_gone_def
       intro!: never_connected_show split: if_splits sum.splits\<close>)

lemma never_connected_run:
  "steps feed_step es s = Some t \<Longrightarrow> never_connected s \<Longrightarrow> FE_Transport Connected \<notin> set es \<Longrightarrow> never_connected t"
proof (induction es arbitrary: s)
  case (Cons e es)
  then obtain u where u: "feed_step e s = Some u" "steps feed_step es u = Some t" by (auto simp: bind_eq_Some_conv)
  with Cons.prems never_connected_step [OF u(1)] have "never_connected u" by auto
  with Cons.IH [OF u(2)] Cons.prems(3) show ?case by simp
qed simp

text \<open>A feed that reads a socket is never shown as connected. The socket source reports only that it
  is connecting and, at its end, that it is disconnected; so whatever the feed receives and however
  long it runs, no status the client shows or sends says connected or degraded.\<close>

theorem socket_feed_never_connected:
  assumes "feed_tasks_run es (spawn_feed c t0 stopped_status) = Some s"
    and "\<forall>st. FE_Transport st \<in> set es \<longrightarrow> st \<in> set (snd (snd (socket_source_run run src)))"
  shows "socket_status (ft_connection s) \<notin> {CS_Connected, CS_Degraded}
    \<and> (\<forall>r. UI_Status r \<in> set (ft_ui s) \<longrightarrow> socket_status r \<notin> {CS_Connected, CS_Degraded})"
proof -
  have "FE_Transport Connected \<notin> set es"
    using assms(2) by (auto simp: socket_source_run_def split: prod.splits)
  moreover have "never_connected (spawn_feed c t0 stopped_status)"
    by (simp add: never_connected_def dim_def spawn_feed_def stopped_status_def)
  ultimately have "never_connected s"
    using never_connected_run assms(1) unfolding feed_tasks_run_def by blast
  then show ?thesis by (auto simp: never_connected_def dim_def)
qed

theorem socket_feed_never_connected_witness:
  "\<exists>s. feed_tasks_run [FE_Start True, FE_Transport Connecting, FE_Message (from_secs 1), FE_Check (from_secs 2) True True,
         FE_Heartbeat True] (spawn_feed (default_config ''out.sbs'') 0 stopped_status) = Some s
     \<and> socket_status (ft_connection s) \<notin> {CS_Connected, CS_Degraded}"
proof -
  let ?es = "[FE_Start True, FE_Transport Connecting, FE_Message (from_secs 1), FE_Check (from_secs 2) True True, FE_Heartbeat True]"
  let ?run = "\<lambda>cl :: nat client. (Inr () :: client_error + unit, cl)"
  obtain s where s: "feed_tasks_run ?es (spawn_feed (default_config ''out.sbs'') 0 stopped_status) = Some s"
    by (simp add: feed_tasks_run_def feed_handler_defs spawn_feed_def cfg_liveness_policy_def)
  have "\<forall>st. FE_Transport st \<in> set ?es \<longrightarrow> st \<in> set (snd (snd (socket_source_run ?run undefined)))"
    by (simp add: socket_source_run_def)
  from socket_feed_never_connected [OF s this] s show ?thesis by blast
qed

subsection \<open>After the feed\<close>

definition ticks :: "feed_event \<Rightarrow> bool" where
  "ticks e \<longleftrightarrow> (case e of FE_Check _ _ _ \<Rightarrow> True | FE_Heartbeat _ \<Rightarrow> True | _ \<Rightarrow> False)"

lemma ended_step:
  "feed_step e s = Some t \<Longrightarrow> ft_phase s \<in> {CP_Ended, CP_Gone} \<Longrightarrow> ft_phase t \<in> {CP_Ended, CP_Gone}
     \<and> (\<not> ticks e \<longrightarrow> ft_connection t = ft_connection s) \<and> (ft_watchdog t \<longrightarrow> ft_watchdog s)"
  by (cases e) (auto simp: ticks_def feed_handler_defs split: if_splits)

lemma ended_run:
  "steps feed_step es s = Some t \<Longrightarrow> ft_phase s \<in> {CP_Ended, CP_Gone} \<Longrightarrow> \<forall>e \<in> set es. \<not> ticks e
     \<Longrightarrow> ft_connection t = ft_connection s"
proof (induction es arbitrary: s)
  case (Cons e es)
  then obtain u where u: "feed_step e s = Some u" "steps feed_step es u = Some t" by (auto simp: bind_eq_Some_conv)
  with Cons.IH [OF u(2)] Cons.prems ended_step [OF u(1)] show ?case by auto
qed simp

lemma no_ticks_without_watchdog:
  "steps feed_step es s = Some t \<Longrightarrow> \<not> ft_watchdog s \<Longrightarrow> ft_phase s \<in> {CP_Ended, CP_Gone} \<Longrightarrow> \<forall>e \<in> set es. \<not> ticks e"
proof (induction es arbitrary: s)
  case (Cons e es)
  then obtain u where u: "feed_step e s = Some u" "steps feed_step es u = Some t" by (auto simp: bind_eq_Some_conv)
  have "\<not> ticks e" using u(1) Cons.prems(2) by (cases e) (auto simp: ticks_def)
  moreover have "\<not> ft_watchdog u" "ft_phase u \<in> {CP_Ended, CP_Gone}" using ended_step [OF u(1)] Cons.prems(2,3) by auto
  ultimately show ?case using Cons.IH [OF u(2)] by simp
qed simp

interpretation ended: kept feed_step "\<lambda>s. ft_phase s \<in> {CP_Ended, CP_Gone}"
  by unfold_locales (use ended_step in blast)

interpretation over: kept feed_step "\<lambda>s. ft_phase s = CP_Gone \<and> \<not> ft_watchdog s"
proof
  fix e s t
  assume "feed_step e s = Some t" and "ft_phase s = CP_Gone \<and> \<not> ft_watchdog s"
  then show "ft_phase t = CP_Gone \<and> \<not> ft_watchdog t" by (cases e) (auto split: if_splits)
qed

text \<open>When a feed ends by itself or is told to, the client shows it as stopped, and keeps showing it
  whatever its tasks still do, as long as the watchdog does not tick again; and once the watchdog has
  ended it cannot.\<close>

theorem ended_feed_shown_stopped:
  assumes "feed_step e s = Some u" and "e = FE_Stop_Signal \<or> (\<exists>r ok. e = FE_Source_Ended r ok)"
    and "feed_tasks_run es u = Some t" and "\<forall>e \<in> set es. \<not> ticks e"
  shows "ft_connection t = stopped_status \<and> last (ft_ui u) = UI_Status stopped_status
       \<and> (\<not> ft_watchdog t \<longrightarrow> feed_tasks_run later t = Some v \<longrightarrow> ft_connection v = stopped_status)"
proof -
  have u: "ft_connection u = stopped_status" "ft_phase u = CP_Ended" "last (ft_ui u) = UI_Status stopped_status"
    using assms(1,2) by (auto simp: client_end_def client_out_def show_status_def tell_def split: if_splits sum.splits)
  note run = assms(3) [unfolded feed_tasks_run_def]
  have t: "ft_connection t = stopped_status" using ended_run [OF run] u assms(4) by simp
  have phase: "ft_phase t \<in> {CP_Ended, CP_Gone}" using ended.run_keeps [OF run] u(2) by simp
  have "ft_connection v = stopped_status" if "\<not> ft_watchdog t" "steps feed_step later t = Some v"
    using ended_run [OF that(2) phase no_ticks_without_watchdog [OF that(2,1) phase]] t by simp
  with t u(3) show ?thesis by (simp add: feed_tasks_run_def)
qed

theorem ended_feed_shown_stopped_witness:
  "\<exists>s t. feed_step (FE_Source_Ended (Inl (PulsarErr ''gone'')) True) (client_start True (spawn_feed (default_config ''out.sbs'') 0 stopped_status)) = Some s
     \<and> feed_tasks_run [FE_Client_Gone True, FE_Alive_Dropped] s = Some t \<and> ft_connection t = stopped_status"
proof -
  let ?s0 = "client_start True (spawn_feed (default_config ''out.sbs'') 0 stopped_status)"
  let ?e = "FE_Source_Ended (Inl (PulsarErr ''gone'')) True"
  obtain s where s: "feed_step ?e ?s0 = Some s" by (simp add: client_start_def)
  obtain t where t: "feed_tasks_run [FE_Client_Gone True, FE_Alive_Dropped] s = Some t"
    using s by (auto simp: feed_tasks_run_def feed_handler_defs spawn_feed_def)
  have "?e = FE_Stop_Signal \<or> (\<exists>r ok. ?e = FE_Source_Ended r ok)" "\<forall>e \<in> set [FE_Client_Gone True, FE_Alive_Dropped]. \<not> ticks e"
    by (auto simp: ticks_def)
  from ended_feed_shown_stopped [OF s this(1) t this(2)] have "ft_connection t = stopped_status" by (rule conjunct1)
  with s t show ?thesis by blast
qed

text \<open>A feed that has ended can be left showing as running. The client task holds the signal that ends
  the watchdog until its last event is recorded, and a tick that is ready beside the signal may be
  taken first; a heartbeat in that time shows the feed as running again, and nothing that is left of
  the feed takes that back.\<close>

theorem late_heartbeat_shows_running:
  assumes "ft_phase s = CP_Ended" and "ft_watchdog s"
    and "feed_tasks_run (FE_Heartbeat True # FE_Client_Gone ok # FE_Alive_Dropped # rest) s = Some t"
  shows "is_running (ft_connection t) \<and> ft_phase t = CP_Gone \<and> \<not> ft_watchdog t"
proof -
  let ?u = "(client_gone ok (watchdog_heartbeat True s))\<lparr>ft_watchdog := False\<rparr>"
  have run: "steps feed_step rest ?u = Some t" using assms
    by (cases ok) (simp_all add: feed_tasks_run_def feed_handler_defs)
  have u: "is_running (ft_connection ?u)" "ft_phase ?u = CP_Gone" "\<not> ft_watchdog ?u"
    by (simp_all add: feed_handler_defs watched_status_def)
  have "\<forall>e \<in> set rest. \<not> ticks e" using no_ticks_without_watchdog [OF run u(3)] u(2) by simp
  with ended_run [OF run] u have "is_running (ft_connection t)" by simp
  moreover have "ft_phase t = CP_Gone \<and> \<not> ft_watchdog t" using over.run_keeps [OF run] u by simp
  ultimately show ?thesis by simp
qed

theorem late_heartbeat_shows_running_witness:
  "\<exists>t. feed_tasks_run [FE_Heartbeat True, FE_Client_Gone True, FE_Alive_Dropped]
         (client_out (client_start True (spawn_feed (default_config ''out.sbs'') 0 stopped_status))) = Some t
     \<and> is_running (ft_connection t)"
proof -
  let ?s = "client_out (client_start True (spawn_feed (default_config ''out.sbs'') 0 stopped_status))"
  have s: "ft_phase ?s = CP_Ended" "ft_watchdog ?s" by (simp_all add: feed_handler_defs spawn_feed_def)
  then obtain t where t: "feed_tasks_run [FE_Heartbeat True, FE_Client_Gone True, FE_Alive_Dropped] ?s = Some t"
    by (simp add: feed_tasks_run_def feed_handler_defs)
  from late_heartbeat_shows_running [OF s t] t show ?thesis by blast
qed

subsection \<open>Starting and stopping\<close>

text \<open>What a command under way has spawned and not yet stored.\<close>

fun spawned :: "(nat \<times> start_phase) list \<Rightarrow> nat list" where
  "spawned [] = []"
| "spawned ((i, Checked) # ps) = spawned ps"
| "spawned ((i, Spawned f) # ps) = f # spawned ps"

text \<open>Commands that do not overlap: a start begins only when none is under way.\<close>

definition serial_step :: "control_event \<Rightarrow> feed_control \<Rightarrow> feed_control option" where
  "serial_step e s = (case e of
      Start_Check i \<Rightarrow> if fc_starts s = [] then control_step e s else None
    | _ \<Rightarrow> control_step e s)"

definition held_feeds :: "feed_control \<Rightarrow> nat set" where
  "held_feeds s = set_option (fc_handle s) \<union> set (spawned (fc_starts s))"

definition one_feed :: "feed_control \<Rightarrow> bool" where
  "one_feed s \<longleftrightarrow> (case fc_starts s of
      [] \<Rightarrow> set (fc_live s) \<subseteq> set_option (fc_handle s)
    | [(i, Checked)] \<Rightarrow> fc_live s = []
    | [(i, Spawned f)] \<Rightarrow> set (fc_live s) \<subseteq> {f} \<and> fc_handle s = None
    | _ \<Rightarrow> False)"

lemma removeAll_only [simp]: "set xs \<subseteq> {a} \<Longrightarrow> removeAll a xs = []"
  by (induction xs) auto

interpretation serial: kept serial_step one_feed
proof
  fix e s t
  assume "serial_step e s = Some t" and "one_feed s"
  then show "one_feed t"
    by (cases e)
      (auto simp: serial_step_def one_feed_def set_phase_def stop_feed_def Let_def
        dest!: subset_singletonD split: if_splits option.splits list.splits prod.splits start_phase.splits)
qed



text \<open>Two start commands that overlap leave a feed no command can stop: both see no running feed, each
  spawns one, and the handle names only the one stored last. After a stop the client shows the feed
  as stopped while the other one goes on.\<close>

theorem overlapping_starts_orphan_feed:
  "\<exists>s. steps control_step [Start_Check 0, Start_Check 1, Start_Spawn 0 True, Start_Spawn 1 True, Start_Store 0, Start_Store 1, Stop]
         initial_control = Some s
     \<and> fc_handle s = None \<and> fc_live s = [0] \<and> fc_connection s = stopped_status
     \<and> control_step Stop s = Some s"
  by (simp add: initial_control_def set_phase_def stop_feed_def)

end
