(* ===== verification/Desktop_Weather.thy ===== *)
theory Desktop_Weather imports Step_Runs Weather_Archive Weather_Publisher Desktop_Storage begin

text \<open>
  The weather side of the desktop client, \<open>src-tauri/src/weather.rs\<close>: what it shows of the weather
  service and of the last good grid, and the two tasks that keep both from the retained MQTT messages
  (\<open>relay_weather\<close>, \<open>relay_weather_service\<close>). Decoding JSON is a parameter. A task is a step function over
  the channels it selects on; what it sends to the web view is a list.
\<close>

subsection \<open>Decoding a status (\<open>adsb-weather-server/src/status.rs\<close>)\<close>

datatype status_error = Status_Json string | Status_Version nat nat

definition status_from_json :: "(bytes \<Rightarrow> string + weather_status) \<Rightarrow> bytes \<Rightarrow> status_error + weather_status" where
  "status_from_json decode payload = (case decode payload of
      Inl e \<Rightarrow> Inl (Status_Json e)
    | Inr st \<Rightarrow> if ws_version st \<noteq> STATUS_VERSION then Inl (Status_Version (ws_version st) STATUS_VERSION)
                else Inr st)"

definition show_status_error :: "status_error \<Rightarrow> string" where
  "show_status_error e = (case e of
      Status_Json m \<Rightarrow> ''malformed weather status JSON: '' @ m
    | Status_Version found expected \<Rightarrow>
        ''unsupported status version '' @ nat_str found @ '' (expected '' @ nat_str expected @ '')'')"

subsection \<open>The view of the service\<close>

record service_view =
  sv_status :: "weather_status option"
  sv_availability :: "availability option"

definition default_view :: service_view where
  "default_view = \<lparr>sv_status = None, sv_availability = None\<rparr>"

datatype service_payload = Service_Status bytes | Service_Availability bytes

fun apply_service_payload ::
  "(bytes \<Rightarrow> string + weather_status) \<Rightarrow> service_view \<Rightarrow> service_payload \<Rightarrow> (string + bool) \<times> service_view" where
  "apply_service_payload decode view (Service_Status payload) =
     (case (if payload = [] then Inr None
            else case status_from_json decode payload of
                   Inl e \<Rightarrow> Inl (show_status_error e) | Inr st \<Rightarrow> Inr (Some st)) of
        Inl e \<Rightarrow> (Inl e, view)
      | Inr nxt \<Rightarrow> (Inr (sv_status view \<noteq> nxt), view\<lparr>sv_status := nxt\<rparr>))"
| "apply_service_payload decode view (Service_Availability payload) =
     (case (if payload = [] then Inr None
            else case availability_parse payload of
                   None \<Rightarrow> Inl (''unrecognised availability payload '' @ [CHR 0x27] @ from_utf8_lossy payload @ [CHR 0x27])
                 | Some a \<Rightarrow> Inr (Some a)) of
        Inl e \<Rightarrow> (Inl e, view)
      | Inr nxt \<Rightarrow> (Inr (sv_availability view \<noteq> nxt), view\<lparr>sv_availability := nxt\<rparr>))"

definition DEFAULT_HTTP_PORT :: nat where "DEFAULT_HTTP_PORT = 8789"

definition weather_api_url :: "config \<Rightarrow> string" where
  "weather_api_url c = (let explicit = trim (Feed_Config.weather_api_url c)
     in if explicit \<noteq> [] then explicit
        else ''http://'' @ mqtt_broker c @ '':'' @ nat_str DEFAULT_HTTP_PORT)"

text \<open>\<open>wire_word\<close> at the two types it is used at: the words of \<open>rename_all = "snake_case"\<close>.\<close>

fun state_word :: "service_state \<Rightarrow> string" where
  "state_word S_Idle = ''idle''"
| "state_word S_Fetching = ''fetching''"
| "state_word S_Retrying = ''retrying''"
| "state_word S_RateLimited = ''rate_limited''"
| "state_word S_Rejected = ''rejected''"
| "state_word S_Disabled = ''disabled''"

fun scope_word :: "rate_limit_scope \<Rightarrow> string" where
  "scope_word Minutely = ''minutely''"
| "scope_word Hourly = ''hourly''"
| "scope_word Daily = ''daily''"
| "scope_word Unknown_Scope = ''unknown''"

definition describe_service_view :: "service_view \<Rightarrow> string" where
  "describe_service_view view =
     (let status = (case sv_status view of
            None \<Rightarrow> ''no status''
          | Some st \<Rightarrow>
             (let details = [if ws_enabled st then ''enabled'' else ''disabled''];
                  n = ws_consecutive_failures st;
                  details = (if n = 0 then details else if n = 1 then details @ [''1 failure'']
                             else details @ [nat_str n @ '' failures'']);
                  details = (case ws_rate_limit st of
                      Some scope \<Rightarrow> details @ [scope_word scope @ '' limit''] | None \<Rightarrow> details)
              in state_word (ws_state st) @ '' ('' @ join_with '', '' details @ '')''));
          availability = (case sv_availability view of None \<Rightarrow> ''unknown'' | Some a \<Rightarrow> availability_as_str a)
      in status @ '', availability: '' @ availability)"

subsection \<open>The grid\<close>

datatype weather_availability = WA_Available | WA_Waiting | WA_UnsupportedSource

fun layer_availability :: "source_kind \<Rightarrow> bool \<Rightarrow> weather_availability" where
  "layer_availability SocketKind has_snapshot = WA_UnsupportedSource"
| "layer_availability MqttKind True = WA_Available"
| "layer_availability MqttKind False = WA_Waiting"

definition records_weather :: "storage_mode \<Rightarrow> bool" where
  "records_weather mode = (case mode of Embedded \<Rightarrow> True | _ \<Rightarrow> False)"

datatype 'v weather_update = Replace "'v snapshot" | Unchanged | Rejected string

definition next_update ::
  "(bytes \<Rightarrow> string + 'v snapshot) \<Rightarrow> 'v snapshot option \<Rightarrow> bytes \<Rightarrow> 'v weather_update" where
  "next_update decode current payload = (case from_json decode payload of
      Inr sn \<Rightarrow> if current = Some sn then Unchanged else Replace sn
    | Inl e \<Rightarrow> Rejected (show_snapshot_error e))"

subsection \<open>The task of the grid\<close>

record 'v weather_relay =
  wl_payloads :: "bytes option watch"
  wl_alive :: "bool watch"
  wl_record :: bool \<comment> \<open>\<open>record\<close>, fixed when the task starts\<close>
  wl_source_id :: string
  wl_held :: "'v snapshot option"
  wl_rows :: "weather_record list" \<comment> \<open>the table\<close>
  wl_emitted :: "'v snapshot list"
  wl_running :: bool

definition relay_weather_start ::
  "bytes option watch \<Rightarrow> bool watch \<Rightarrow> storage_mode \<Rightarrow> string \<Rightarrow> 'v snapshot option \<Rightarrow> weather_record list
    \<Rightarrow> 'v weather_relay" where
  "relay_weather_start payloads alive mode src_id held rows =
     \<lparr>wl_payloads = payloads, wl_alive = alive, wl_record = records_weather mode, wl_source_id = src_id,
      wl_held = held, wl_rows = rows, wl_emitted = [], wl_running = True\<rparr>"

text \<open>The branch of a payload; \<open>storage\<close> is what the task meets behind the lock.\<close>

definition relay_payload ::
  "(bytes \<Rightarrow> string + 'v snapshot) \<Rightarrow> bytes \<Rightarrow> int \<Rightarrow> archive_storage \<Rightarrow> 'v weather_relay \<Rightarrow> 'v weather_relay" where
  "relay_payload decode payload now storage s = (case next_update decode (wl_held s) payload of
      Replace sn \<Rightarrow>
        (let s = s\<lparr>wl_held := Some sn, wl_emitted := wl_emitted s @ [sn]\<rparr>
         in if wl_record s \<and> storage = Working
            then s\<lparr>wl_rows := snd (insert_weather_snapshot (wl_source_id s) (record_from_snapshot sn payload now) (wl_rows s))\<rparr>
            else s)
    | Unchanged \<Rightarrow> s
    | Rejected reason \<Rightarrow> s)"

datatype weather_relay_event =
    WR_Payload "bytes option" \<comment> \<open>the source writes the channel\<close>
  | WR_Source_Gone
  | WR_Client_Gone
  | WR_Wake int archive_storage
  | WR_Wake_Alive

text \<open>\<open>None\<close>: the branch is not ready, or the task has ended.\<close>

fun weather_relay_step ::
  "(bytes \<Rightarrow> string + 'v snapshot) \<Rightarrow> weather_relay_event \<Rightarrow> 'v weather_relay \<Rightarrow> 'v weather_relay option" where
  "weather_relay_step decode (WR_Payload v) s = Some (s\<lparr>wl_payloads := watch_send v (wl_payloads s)\<rparr>)"
| "weather_relay_step decode WR_Source_Gone s = Some (s\<lparr>wl_payloads := watch_close (wl_payloads s)\<rparr>)"
| "weather_relay_step decode WR_Client_Gone s = Some (s\<lparr>wl_alive := watch_close (wl_alive s)\<rparr>)"
| "weather_relay_step decode (WR_Wake now storage) s =
     (if wl_running s
      then map_option (\<lambda>(ok, w). let s = s\<lparr>wl_payloads := w\<rparr>
             in if \<not> ok then s\<lparr>wl_running := False\<rparr>
                else case wv_value w of None \<Rightarrow> s | Some payload \<Rightarrow> relay_payload decode payload now storage s)
             (watch_changed (wl_payloads s))
      else None)"
| "weather_relay_step decode WR_Wake_Alive s =
     (if wl_running s
      then map_option (\<lambda>(ok, w). s\<lparr>wl_alive := w, wl_running := False\<rparr>) (watch_changed (wl_alive s))
      else None)"

definition relay_weather ::
  "(bytes \<Rightarrow> string + 'v snapshot) \<Rightarrow> weather_relay_event list \<Rightarrow> 'v weather_relay \<Rightarrow> 'v weather_relay option" where
  "relay_weather decode = steps (weather_relay_step decode)"

subsection \<open>The task of the service\<close>

record service_relay =
  sl_status :: "bytes option watch"
  sl_availability :: "bytes option watch"
  sl_alive :: "bool watch"
  sl_view :: service_view
  sl_emitted :: "service_view list"
  sl_running :: bool

definition relay_service_payload ::
  "(bytes \<Rightarrow> string + weather_status) \<Rightarrow> service_payload \<Rightarrow> service_relay \<Rightarrow> service_relay" where
  "relay_service_payload decode payload s = (case apply_service_payload decode (sl_view s) payload of
      (Inl reason, view) \<Rightarrow> s\<lparr>sl_view := view\<rparr>
    | (Inr changed, view) \<Rightarrow>
        (let s = s\<lparr>sl_view := view\<rparr> in if changed then s\<lparr>sl_emitted := sl_emitted s @ [view]\<rparr> else s))"

datatype service_relay_event =
    SR_Status "bytes option" | SR_Availability "bytes option" | SR_Source_Gone | SR_Client_Gone
  | SR_Wake_Status | SR_Wake_Availability | SR_Wake_Alive

fun service_relay_step ::
  "(bytes \<Rightarrow> string + weather_status) \<Rightarrow> service_relay_event \<Rightarrow> service_relay \<Rightarrow> service_relay option" where
  "service_relay_step decode (SR_Status v) s = Some (s\<lparr>sl_status := watch_send v (sl_status s)\<rparr>)"
| "service_relay_step decode (SR_Availability v) s = Some (s\<lparr>sl_availability := watch_send v (sl_availability s)\<rparr>)"
| "service_relay_step decode SR_Source_Gone s =
     Some (s\<lparr>sl_status := watch_close (sl_status s), sl_availability := watch_close (sl_availability s)\<rparr>)"
| "service_relay_step decode SR_Client_Gone s = Some (s\<lparr>sl_alive := watch_close (sl_alive s)\<rparr>)"
| "service_relay_step decode SR_Wake_Status s =
     (if sl_running s
      then map_option (\<lambda>(ok, w). let s = s\<lparr>sl_status := w\<rparr>
             in if \<not> ok then s\<lparr>sl_running := False\<rparr>
                else case wv_value w of None \<Rightarrow> s
                   | Some payload \<Rightarrow> relay_service_payload decode (Service_Status payload) s)
             (watch_changed (sl_status s))
      else None)"
| "service_relay_step decode SR_Wake_Availability s =
     (if sl_running s
      then map_option (\<lambda>(ok, w). let s = s\<lparr>sl_availability := w\<rparr>
             in if \<not> ok then s\<lparr>sl_running := False\<rparr>
                else case wv_value w of None \<Rightarrow> s
                   | Some payload \<Rightarrow> relay_service_payload decode (Service_Availability payload) s)
             (watch_changed (sl_availability s))
      else None)"
| "service_relay_step decode SR_Wake_Alive s =
     (if sl_running s
      then map_option (\<lambda>(ok, w). s\<lparr>sl_alive := w, sl_running := False\<rparr>) (watch_changed (sl_alive s))
      else None)"

definition relay_weather_service ::
  "(bytes \<Rightarrow> string + weather_status) \<Rightarrow> service_relay_event list \<Rightarrow> service_relay \<Rightarrow> service_relay option" where
  "relay_weather_service decode = steps (service_relay_step decode)"

definition relay_service_start :: "bytes option watch \<Rightarrow> bytes option watch \<Rightarrow> bool watch \<Rightarrow> service_view \<Rightarrow> service_relay" where
  "relay_service_start status availability alive view =
     \<lparr>sl_status = status, sl_availability = availability, sl_alive = alive, sl_view = view, sl_emitted = [],
      sl_running = True\<rparr>"

end
