(* ===== verification/Desktop_Weather_Props.thy ===== *)
theory Desktop_Weather_Props imports Desktop_Weather begin

text \<open>
  What the desktop client shows of the weather: the service view follows the last seen message of each
  topic and is sent on when it changes, the held grid is the last good one, and a client that records
  stores each model hour once, as the data server does.
\<close>

lemmas relay_defs = relay_payload_def relay_service_payload_def watch_changed_Some Let_def

subsection \<open>The view of the service\<close>

definition follows_status :: "(bytes \<Rightarrow> string + weather_status) \<Rightarrow> service_relay \<Rightarrow> bool" where
  "follows_status decode s \<longleftrightarrow> (\<not> wv_unseen (sl_status s) \<longrightarrow> (case wv_value (sl_status s) of
      None \<Rightarrow> True
    | Some p \<Rightarrow> if p = [] then sv_status (sl_view s) = None
        else \<forall>st. status_from_json decode p = Inr st \<longrightarrow> sv_status (sl_view s) = Some st))"

definition follows_availability :: "service_relay \<Rightarrow> bool" where
  "follows_availability s \<longleftrightarrow> (\<not> wv_unseen (sl_availability s) \<longrightarrow> (case wv_value (sl_availability s) of
      None \<Rightarrow> True
    | Some p \<Rightarrow> if p = [] then sv_availability (sl_view s) = None
        else \<forall>a. availability_parse p = Some a \<longrightarrow> sv_availability (sl_view s) = Some a))"

definition sends_changes :: "service_view \<Rightarrow> service_relay \<Rightarrow> bool" where
  "sends_changes view0 s \<longleftrightarrow>
     distinct_adj (view0 # sl_emitted s) \<and> last (view0 # sl_emitted s) = sl_view s"

lemma apply_service_payload_cases:
  "apply_service_payload decode view p = (r, view') \<Longrightarrow>
     (case r of Inl _ \<Rightarrow> view' = view | Inr changed \<Rightarrow> changed = (view' \<noteq> view))"
  by (cases p; cases view)
     (auto simp: Let_def split: sum.splits option.splits if_splits)

lemma relay_service_payload_frame [simp]:
  "sl_status (relay_service_payload decode p s) = sl_status s"
  "sl_availability (relay_service_payload decode p s) = sl_availability s"
  "sl_alive (relay_service_payload decode p s) = sl_alive s"
  "sl_running (relay_service_payload decode p s) = sl_running s"
  by (simp_all add: relay_defs split: prod.split sum.split)

lemma relay_service_payload_view:
  "sl_view (relay_service_payload decode p s) = snd (apply_service_payload decode (sl_view s) p)"
  by (simp add: relay_defs split: prod.split sum.split)

lemma sends_changes_frame [simp]:
  "sends_changes view0 (s\<lparr>sl_status := w\<rparr>) = sends_changes view0 s"
  "sends_changes view0 (s\<lparr>sl_availability := w\<rparr>) = sends_changes view0 s"
  by (simp_all add: sends_changes_def)

lemma relay_service_payload_sends:
  assumes "sends_changes view0 s"
  shows "sends_changes view0 (relay_service_payload decode p s)"
proof (cases "apply_service_payload decode (sl_view s) p")
  case (Pair r view')
  with apply_service_payload_cases [OF this] assms show ?thesis
    unfolding sends_changes_def relay_service_payload_def Pair
    by (cases r; cases "view' = sl_view s") (simp_all add: Let_def distinct_adj_append_iff flip: append_Cons)
qed

text \<open>A step touches a channel without the task seeing anything, or hands one payload on.\<close>

definition quiet_step :: "service_relay \<Rightarrow> service_relay \<Rightarrow> bool" where
  "quiet_step s t \<longleftrightarrow> sl_view t = sl_view s \<and> sl_emitted t = sl_emitted s
     \<and> (\<not> wv_unseen (sl_status t) \<longrightarrow> wv_value (sl_status t) = wv_value (sl_status s)
          \<and> (\<not> wv_unseen (sl_status s) \<or> wv_value (sl_status s) = None))
     \<and> (\<not> wv_unseen (sl_availability t) \<longrightarrow> wv_value (sl_availability t) = wv_value (sl_availability s)
          \<and> (\<not> wv_unseen (sl_availability s) \<or> wv_value (sl_availability s) = None))"

lemma service_step_cases:
  "service_relay_step decode e s = Some t \<Longrightarrow>
     quiet_step s t
   \<or> (\<exists>p. wv_value (sl_status s) = Some p
        \<and> t = relay_service_payload decode (Service_Status p) (s\<lparr>sl_status := (sl_status s)\<lparr>wv_unseen := False\<rparr>\<rparr>))
   \<or> (\<exists>p. wv_value (sl_availability s) = Some p
        \<and> t = relay_service_payload decode (Service_Availability p) (s\<lparr>sl_availability := (sl_availability s)\<lparr>wv_unseen := False\<rparr>\<rparr>))"
  by (cases e) (auto simp: quiet_step_def watch_send_def watch_close_def watch_changed_Some Let_def
      split: if_splits option.splits)

interpretation sends: kept "service_relay_step decode" "sends_changes view0" for decode view0
proof
  fix e s t
  assume "service_relay_step decode e s = Some t" and inv: "sends_changes view0 s"
  then have "quiet_step s t \<or> sends_changes view0 t"
    using service_step_cases [of decode e s t] by (auto simp: relay_service_payload_sends)
  with inv show "sends_changes view0 t" by (auto simp: quiet_step_def sends_changes_def)
qed

interpretation follows: kept "service_relay_step decode"
  "\<lambda>s. follows_status decode s \<and> follows_availability s" for decode
proof
  fix e s t
  assume step: "service_relay_step decode e s = Some t" and inv: "follows_status decode s \<and> follows_availability s"
  have "follows_status decode t \<and> follows_availability t" if "quiet_step s t"
    using that inv by (auto simp: quiet_step_def follows_status_def follows_availability_def split: option.splits)
  moreover have "follows_status decode (relay_service_payload decode (Service_Status p) (s\<lparr>sl_status := (sl_status s)\<lparr>wv_unseen := False\<rparr>\<rparr>))"
      "follows_availability (relay_service_payload decode (Service_Status p) (s\<lparr>sl_status := (sl_status s)\<lparr>wv_unseen := False\<rparr>\<rparr>))"
    if "wv_value (sl_status s) = Some p" for p
    using that inv by (auto simp: follows_status_def follows_availability_def relay_service_payload_view split: sum.splits option.splits)
  moreover have "follows_status decode (relay_service_payload decode (Service_Availability p) (s\<lparr>sl_availability := (sl_availability s)\<lparr>wv_unseen := False\<rparr>\<rparr>))"
      "follows_availability (relay_service_payload decode (Service_Availability p) (s\<lparr>sl_availability := (sl_availability s)\<lparr>wv_unseen := False\<rparr>\<rparr>))"
    if "wv_value (sl_availability s) = Some p" for p
    using that inv by (auto simp: follows_status_def follows_availability_def relay_service_payload_view split: sum.splits option.splits)
  ultimately show "follows_status decode t \<and> follows_availability t"
    using service_step_cases [OF step] by blast
qed

definition fresh_channel :: "bytes option watch" where
  "fresh_channel = \<lparr>wv_value = None, wv_unseen = False, wv_open = True\<rparr>"

text \<open>While a feed runs, the view of the weather service follows its two retained topics: once the
  task has seen the last message of a topic, that half of the view is what the message says if it is
  well formed, and empty if the message is empty (a retained message being cleared). The web view is
  sent exactly the changes: no two views in a row are the same, and the last one sent is the view held.\<close>

theorem service_view_follows_topics:
  assumes run: "relay_weather_service decode es (relay_service_start fresh_channel fresh_channel alive view0) = Some s"
    and status: "wv_value (sl_status s) = Some p" "\<not> wv_unseen (sl_status s)"
    and availability: "wv_value (sl_availability s) = Some q" "\<not> wv_unseen (sl_availability s)"
  shows "(if p = [] then sv_status (sl_view s) = None
          else \<forall>st. status_from_json decode p = Inr st \<longrightarrow> sv_status (sl_view s) = Some st)
       \<and> (if q = [] then sv_availability (sl_view s) = None
          else \<forall>a. availability_parse q = Some a \<longrightarrow> sv_availability (sl_view s) = Some a)
       \<and> distinct_adj (view0 # sl_emitted s) \<and> last (view0 # sl_emitted s) = sl_view s"
proof -
  note run = run [unfolded relay_weather_service_def]
  have "follows_status decode s \<and> follows_availability s"
    by (rule follows.run_keeps [OF run])
       (simp add: follows_status_def follows_availability_def relay_service_start_def fresh_channel_def)
  moreover have "sends_changes view0 s"
    by (rule sends.run_keeps [OF run]) (simp add: sends_changes_def relay_service_start_def)
  ultimately show ?thesis using status availability
    by (simp add: follows_status_def follows_availability_def sends_changes_def)
qed

text \<open>A decoder of one document, for the witnesses.\<close>

definition sample_status :: weather_status where
  "sample_status = project True default_reported 7"

definition sample_decode :: "bytes \<Rightarrow> string + weather_status" where
  "sample_decode payload = (if payload = ''{}'' then Inr sample_status else Inl ''expected value'')"

lemma sample_status_from_json: "status_from_json sample_decode ''{}'' = Inr sample_status"
  by (simp add: status_from_json_def sample_decode_def sample_status_def project_def)

definition alive_channel :: "bool watch" where
  "alive_channel = \<lparr>wv_value = True, wv_unseen = False, wv_open = True\<rparr>"

lemmas relay_run_defs = steps.simps fresh_channel_def alive_channel_def watch_send_def watch_changed_def

theorem service_view_follows_topics_witness:
  "\<exists>s. relay_weather_service sample_decode
         [SR_Availability (Some ''online''), SR_Status (Some ''{}''), SR_Wake_Availability, SR_Wake_Status,
          SR_Availability (Some ''gone''), SR_Availability (Some ''offline''), SR_Wake_Availability]
         (relay_service_start fresh_channel fresh_channel alive_channel default_view) = Some s
     \<and> sv_status (sl_view s) = Some sample_status \<and> sv_availability (sl_view s) = Some Offline"
proof -
  obtain s where s: "relay_weather_service sample_decode
         [SR_Availability (Some ''online''), SR_Status (Some ''{}''), SR_Wake_Availability, SR_Wake_Status,
          SR_Availability (Some ''gone''), SR_Availability (Some ''offline''), SR_Wake_Availability]
         (relay_service_start fresh_channel fresh_channel alive_channel default_view) = Some s"
      "wv_value (sl_status s) = Some ''{}''" "\<not> wv_unseen (sl_status s)"
      "wv_value (sl_availability s) = Some ''offline''" "\<not> wv_unseen (sl_availability s)"
    by (simp add: relay_weather_service_def relay_service_start_def relay_run_defs)
  moreover have "availability_parse ''offline'' = Some Offline"
    using availability_round_trip [of Offline] by simp
  ultimately show ?thesis
    using service_view_follows_topics [OF s] sample_status_from_json by auto
qed

subsection \<open>Nothing is made up\<close>

definition availability_heard :: "service_relay_event list \<Rightarrow> service_relay \<Rightarrow> service_relay \<Rightarrow> bool" where
  "availability_heard es s t \<longleftrightarrow>
     (\<forall>p. wv_value (sl_availability t) = Some p \<longrightarrow>
        wv_value (sl_availability s) = Some p \<or> SR_Availability (Some p) \<in> set es)
   \<and> (\<forall>a. sv_availability (sl_view t) = Some a \<longrightarrow> sv_availability (sl_view s) = Some a
        \<or> (\<exists>p. availability_parse p = Some a
             \<and> (wv_value (sl_availability s) = Some p \<or> SR_Availability (Some p) \<in> set es)))"

lemma service_step_heard:
  assumes "service_relay_step decode e s = Some t"
  shows "availability_heard [e] s t"
proof -
  have "wv_value (sl_availability t) = wv_value (sl_availability s) \<or> e = SR_Availability (wv_value (sl_availability t))"
    using assms by (cases e) (auto simp: watch_send_def watch_close_def watch_changed_Some Let_def split: if_splits option.splits)
  moreover have "sv_availability (sl_view t) = Some a \<Longrightarrow> sv_availability (sl_view s) = Some a
      \<or> (\<exists>p. wv_value (sl_availability s) = Some p \<and> availability_parse p = Some a)" for a
    using service_step_cases [OF assms]
    by (auto simp: quiet_step_def relay_service_payload_view split: if_splits sum.splits option.splits)
  ultimately show ?thesis unfolding availability_heard_def by (metis list.set_intros(1))
qed

interpretation heard: carried "service_relay_step decode" availability_heard for decode
proof
  fix s show "availability_heard [] s s" by (simp add: availability_heard_def)
next
  fix e s t es u
  assume "service_relay_step decode e s = Some t" and later: "availability_heard es t u"
  from service_step_heard [OF this(1)] later show "availability_heard (e # es) s u"
    unfolding availability_heard_def by fastforce
qed

text \<open>No stray message marks the weather service online: what the view says of its availability was
  said by a message of the availability topic that is exactly one of the two words, up to white space
  around it, unless the view said so before the feed started.\<close>

theorem stray_message_never_marks_online:
  assumes "relay_weather_service decode es (relay_service_start status availability alive view0) = Some s"
    and "sv_availability (sl_view s) = Some a" and "sv_availability view0 \<noteq> Some a"
  shows "\<exists>p. trim p = availability_as_str a
           \<and> (wv_value availability = Some p \<or> SR_Availability (Some p) \<in> set es)"
proof -
  have "availability_heard es (relay_service_start status availability alive view0) s"
    using assms(1) unfolding relay_weather_service_def by (rule heard.run_carries)
  then obtain p where p: "availability_parse p = Some a" "wv_value availability = Some p \<or> SR_Availability (Some p) \<in> set es"
    using assms(2,3) by (auto simp: availability_heard_def relay_service_start_def)
  from p(1) have "trim p = availability_as_str a"
    by (auto simp: availability_parse_def from_utf8_def Let_def split: if_splits option.splits)
  with p(2) show ?thesis by blast
qed

theorem stray_message_never_marks_online_witness:
  "\<exists>p. trim p = availability_as_str Online \<and> SR_Availability (Some p) \<in> {SR_Availability (Some ''online''), SR_Wake_Availability}"
proof -
  have "availability_parse ''online'' = Some Online" using availability_round_trip [of Online] by simp
  then obtain s where s: "relay_weather_service sample_decode [SR_Availability (Some ''online''), SR_Wake_Availability]
      (relay_service_start fresh_channel fresh_channel alive_channel default_view) = Some s"
      "sv_availability (sl_view s) = Some Online"
    by (simp add: relay_weather_service_def relay_service_start_def relay_run_defs relay_service_payload_def default_view_def)
  from stray_message_never_marks_online [OF s] show ?thesis
    by (auto simp: default_view_def fresh_channel_def)
qed

subsection \<open>The grid\<close>

definition sends_grids :: "'v snapshot option \<Rightarrow> 'v weather_relay \<Rightarrow> bool" where
  "sends_grids held0 s \<longleftrightarrow>
     distinct_adj (held0 # map Some (wl_emitted s)) \<and> last (held0 # map Some (wl_emitted s)) = wl_held s"

definition follows_grid :: "(bytes \<Rightarrow> string + 'v snapshot) \<Rightarrow> 'v weather_relay \<Rightarrow> bool" where
  "follows_grid decode s \<longleftrightarrow> (\<not> wv_unseen (wl_payloads s) \<longrightarrow> (\<forall>p sn. wv_value (wl_payloads s) = Some p
     \<longrightarrow> from_json decode p = Inr sn \<longrightarrow> wl_held s = Some sn))"

lemma relay_payload_frame [simp]:
  "wl_payloads (relay_payload decode p now storage s) = wl_payloads s"
  "wl_source_id (relay_payload decode p now storage s) = wl_source_id s"
  "wl_record (relay_payload decode p now storage s) = wl_record s"
  "wl_running (relay_payload decode p now storage s) = wl_running s"
  by (simp_all add: relay_payload_def Let_def split: weather_update.split)

lemma relay_payload_held:
  "wl_held (relay_payload decode p now storage s) =
     (case from_json decode p of Inr sn \<Rightarrow> Some sn | Inl e \<Rightarrow> wl_held s)"
  by (auto simp: relay_payload_def next_update_def Let_def split: sum.split)

lemma relay_payload_sends: "sends_grids held0 s \<Longrightarrow> sends_grids held0 (relay_payload decode p now storage s)"
  by (auto simp: sends_grids_def relay_payload_def next_update_def Let_def distinct_adj_append_iff
      simp flip: append_Cons simp del: last.simps split: sum.split)

lemma relay_payload_unrecorded: "\<not> wl_record s \<Longrightarrow> wl_rows (relay_payload decode p now storage s) = wl_rows s"
  by (simp add: relay_payload_def Let_def split: weather_update.split)

lemma sends_grids_frame [simp]: "sends_grids held0 (s\<lparr>wl_payloads := w\<rparr>) = sends_grids held0 s"
  by (simp add: sends_grids_def)

definition quiet_grid_step :: "'v weather_relay \<Rightarrow> 'v weather_relay \<Rightarrow> bool" where
  "quiet_grid_step s t \<longleftrightarrow> wl_held t = wl_held s \<and> wl_emitted t = wl_emitted s \<and> wl_rows t = wl_rows s
     \<and> wl_record t = wl_record s \<and> wl_source_id t = wl_source_id s
     \<and> (\<not> wv_unseen (wl_payloads t) \<longrightarrow> wv_value (wl_payloads t) = wv_value (wl_payloads s)
          \<and> (\<not> wv_unseen (wl_payloads s) \<or> wv_value (wl_payloads s) = None))"

lemma weather_step_cases:
  "weather_relay_step decode e s = Some t \<Longrightarrow> quiet_grid_step s t
     \<or> (\<exists>p now storage. wv_value (wl_payloads s) = Some p
          \<and> t = relay_payload decode p now storage (s\<lparr>wl_payloads := (wl_payloads s)\<lparr>wv_unseen := False\<rparr>\<rparr>))"
  by (cases e) (auto simp: quiet_grid_step_def watch_send_def watch_close_def watch_changed_Some Let_def
      split: if_splits option.splits)

interpretation grids: kept "weather_relay_step decode" "\<lambda>s. sends_grids held0 s \<and> follows_grid decode s" for decode held0
proof
  fix e s t
  assume step: "weather_relay_step decode e s = Some t" and inv: "sends_grids held0 s \<and> follows_grid decode s"
  have "sends_grids held0 t \<and> follows_grid decode t" if "quiet_grid_step s t"
    using that inv by (auto simp: quiet_grid_step_def sends_grids_def follows_grid_def)
  moreover have "sends_grids held0 t \<and> follows_grid decode t"
    if "wv_value (wl_payloads s) = Some p"
       "t = relay_payload decode p now storage (s\<lparr>wl_payloads := (wl_payloads s)\<lparr>wv_unseen := False\<rparr>\<rparr>)" for p now storage
    using that inv by (simp add: relay_payload_sends follows_grid_def relay_payload_held)
  ultimately show "sends_grids held0 t \<and> follows_grid decode t"
    using weather_step_cases [OF step] by blast
qed

text \<open>Whoever does not record leaves the table alone.\<close>

interpretation unrecorded: kept "weather_relay_step decode" "\<lambda>s. \<not> wl_record s \<and> wl_rows s = rows" for decode rows
proof
  fix e s t
  assume "weather_relay_step decode e s = Some t" and "\<not> wl_record s \<and> wl_rows s = rows"
  then show "\<not> wl_record t \<and> wl_rows t = rows"
    using weather_step_cases [of decode e s t]
    by (auto simp: quiet_grid_step_def relay_payload_unrecorded)
qed

text \<open>The desktop client holds the last good grid and tells the web view exactly its changes: once the
  task has seen the last payload, a well-formed one is what is held, two grids sent in a row differ,
  and the last one sent is the one held. A client in a mode other than embedded writes nothing to
  the table.\<close>

theorem held_grid_is_last_good:
  assumes "relay_weather decode es (relay_weather_start fresh_channel alive mode src held0 rows) = Some s"
  shows "distinct_adj (held0 # map Some (wl_emitted s)) \<and> last (held0 # map Some (wl_emitted s)) = wl_held s
       \<and> (\<forall>p sn. \<not> wv_unseen (wl_payloads s) \<longrightarrow> wv_value (wl_payloads s) = Some p \<longrightarrow>
            from_json decode p = Inr sn \<longrightarrow> wl_held s = Some sn)
       \<and> (mode \<noteq> Embedded \<longrightarrow> wl_rows s = rows)"
proof -
  note run = assms [unfolded relay_weather_def]
  have "sends_grids held0 s \<and> follows_grid decode s"
    by (rule grids.run_keeps [OF run])
       (simp add: sends_grids_def follows_grid_def relay_weather_start_def fresh_channel_def)
  moreover have "wl_rows s = rows" if "mode \<noteq> Embedded"
    using that by (intro unrecorded.run_keeps [OF run, THEN conjunct2])
       (cases mode; simp add: relay_weather_start_def records_weather_def)
  ultimately show ?thesis by (simp add: sends_grids_def follows_grid_def)
qed

definition sample_grid :: "int \<Rightarrow> nat snapshot" where
  "sample_grid hour = \<lparr>sn_version = SNAPSHOT_VERSION, sn_source = ''open-meteo'', sn_attribution = [], sn_model = ''best_match'',
     sn_fetched_at_ms = 1, sn_valid_time_ms = hour,
     sn_grid = \<lparr>g_lat0 = F_fin 47, g_lon0 = F_fin 0, g_dlat = F_fin 1, g_dlon = F_fin 1, g_nlat = 1, g_nlon = 1\<rparr>,
     sn_surface = \<lparr>sf_mslp = [None], sf_wind_speed = [None], sf_wind_dir = [None]\<rparr>, sn_levels = []\<rparr>"

definition grid_decode :: "bytes \<Rightarrow> string + nat snapshot" where
  "grid_decode payload = (if payload = ''a'' then Inr (sample_grid 0)
     else if payload = ''b'' then Inr (sample_grid 3600000) else Inl ''expected value'')"

lemma sample_grid_valid: "validate_snapshot (sample_grid hour) = Inr ()"
  by (simp add: validate_snapshot_def sample_grid_def ensure_len_def grid_len_def)

lemma grid_from_json [simp]:
  "from_json grid_decode ''a'' = Inr (sample_grid 0)" "from_json grid_decode ''b'' = Inr (sample_grid 3600000)"
  "from_json grid_decode [] = Inl (Snapshot_Json ''expected value'')"
  "from_json grid_decode ''x'' = Inl (Snapshot_Json ''expected value'')"
  by (simp_all add: from_json_def grid_decode_def sample_grid_valid split: unit.split)

theorem held_grid_is_last_good_witness:
  "\<exists>s. relay_weather grid_decode [WR_Payload (Some ''a''), WR_Wake 5 Working, WR_Payload (Some ''x''), WR_Wake 6 Working,
         WR_Payload (Some ''b''), WR_Wake 7 Working]
       (relay_weather_start fresh_channel alive_channel (Remote ''quack:pi.lan:9494'' None None) ''desk'' None []) = Some s
     \<and> wl_held s = Some (sample_grid 3600000) \<and> wl_rows s = []"
proof -
  let ?es = "[WR_Payload (Some ''a''), WR_Wake 5 Working, WR_Payload (Some ''x''), WR_Wake 6 Working,
         WR_Payload (Some ''b''), WR_Wake 7 Working]"
  let ?s0 = "relay_weather_start fresh_channel alive_channel (Remote ''quack:pi.lan:9494'' None None) ''desk'' None []"
  obtain s where s: "relay_weather grid_decode ?es ?s0 = Some s" "\<not> wv_unseen (wl_payloads s)"
      "wv_value (wl_payloads s) = Some ''b''"
    by (simp add: relay_weather_def relay_weather_start_def relay_run_defs)
  from held_grid_is_last_good [OF s(1)] s show ?thesis by simp
qed

subsection \<open>Two recorders\<close>

text \<open>
  The client in embedded mode and the data server record the same topic with different rules: the client
  compares whole grids, the server model hours.
\<close>

definition grid_recorded :: "'v weather_relay \<Rightarrow> bool" where
  "grid_recorded s \<longleftrightarrow> (\<forall>sn. wl_held s = Some sn \<longrightarrow> hour_stored (wl_source_id s) (sn_valid_time_ms sn) (wl_rows s)
     \<or> \<not> storable (record_from_snapshot sn [] 0))"

lemma record_storable_any: "storable (record_from_snapshot sn p t) = storable (record_from_snapshot sn [] 0)"
  by (simp add: storable_def record_from_snapshot_def)

lemma relay_payload_merges:
  assumes "\<exists>e. decode [] = Inl e" and "wl_record s" and "grid_recorded s"
  shows "grid_recorded (relay_payload decode p now Working s)
       \<and> wl_rows (relay_payload decode p now Working s)
         = merge_hours (wl_source_id s) (wl_rows s) (offered decode (wl_source_id s) [Payload (Some p) now Working])"
proof (cases "from_json decode p")
  case (Inl e)
  then show ?thesis using assms by (simp add: relay_payload_def next_update_def merge_hours_def)
next
  case (Inr sn)
  then have p: "p \<noteq> []" using assms(1) by (auto simp: from_json_def)
  show ?thesis
  proof (cases "wl_held s = Some sn")
    case True
    then have "relay_payload decode p now Working s = s" by (simp add: relay_payload_def next_update_def Inr)
    then show ?thesis using assms(3) True Inr p
      by (auto simp: grid_recorded_def merge_hours_def Let_def record_storable_any [of sn p])
  next
    case False
    then show ?thesis using assms(2) Inr p record_storable_any [of sn p now]
      by (simp add: relay_payload_def next_update_def grid_recorded_def merge_hours_def Let_def
          insert_weather_snapshot_def hour_stored_snoc)
  qed
qed

definition relay_payloads ::
  "(bytes \<Rightarrow> string + 'v snapshot) \<Rightarrow> (bytes \<times> int) list \<Rightarrow> 'v weather_relay \<Rightarrow> 'v weather_relay" where
  "relay_payloads decode ps s = fold (\<lambda>(p, now). relay_payload decode p now Working) ps s"

lemma relay_payloads_merge:
  assumes "\<exists>e. decode [] = Inl e"
  shows "wl_record s \<Longrightarrow> grid_recorded s \<Longrightarrow>
     wl_rows (relay_payloads decode ps s)
       = merge_hours (wl_source_id s) (wl_rows s) (offered decode (wl_source_id s) (map (\<lambda>(p, now). Payload (Some p) now Working) ps))"
proof (induction ps arbitrary: s)
  case Nil
  then show ?case by (simp add: relay_payloads_def merge_hours_def)
next
  case (Cons x ps)
  obtain p now where x: "x = (p, now)" by (cases x)
  let ?t = "relay_payload decode p now Working s"
  let ?e = "Payload (Some p) now Working"
  have "wl_rows (relay_payloads decode (x # ps) s) = wl_rows (relay_payloads decode ps ?t)"
    by (simp add: relay_payloads_def x)
  also have "\<dots> = merge_hours (wl_source_id s) (wl_rows ?t)
      (offered decode (wl_source_id s) (map (\<lambda>(p, now). Payload (Some p) now Working) ps))"
    using Cons relay_payload_merges [of decode s p now] assms by simp
  also have "\<dots> = merge_hours (wl_source_id s) (wl_rows s)
      (offered decode (wl_source_id s) ([?e] @ map (\<lambda>(p, now). Payload (Some p) now Working) ps))"
    using Cons.prems relay_payload_merges [of decode s p now] assms
    by (simp only: offered_append merge_hours_append)
  finally show ?case by (simp add: x)
qed

text \<open>C11: As long as the database works, the embedded client and the data server record the same weather:
  given the same payloads at the same times, and the same table to start from, the two tables are
  equal, although the client looks at every change of a grid and the server only at its hour. That
  an empty payload is not JSON is what is used of the decoder.\<close>

theorem recorders_agree:
  assumes "decode [] = Inl e"
  shows "wl_rows (relay_payloads decode ps (relay_weather_start payloads alive Embedded src None rows))
       = ar_rows (persist_weather decode src (map (\<lambda>(p, now). Payload (Some p) now Working) ps) \<lparr>ar_last = None, ar_rows = rows\<rparr>)"
proof -
  have "wl_rows (relay_payloads decode ps (relay_weather_start payloads alive Embedded src None rows))
      = merge_hours src rows (offered decode src (map (\<lambda>(p, now). Payload (Some p) now Working) ps))"
    using relay_payloads_merge [of decode "relay_weather_start payloads alive Embedded src None rows" ps] assms
    by (simp add: relay_weather_start_def records_weather_def grid_recorded_def)
  also have "\<dots> = ar_rows (persist_weather decode src (map (\<lambda>(p, now). Payload (Some p) now Working) ps) \<lparr>ar_last = None, ar_rows = rows\<rparr>)"
    using persist_weather_merges [of src "\<lparr>ar_last = None, ar_rows = rows\<rparr>" decode] by (simp add: remembers_def)
  finally show ?thesis .
qed

theorem recorders_agree_witness:
  "wl_rows (relay_payloads grid_decode [(''a'', 1), (''b'', 2), (''a'', 3)]
       (relay_weather_start fresh_channel alive_channel Embedded ''desk'' None []))
   = ar_rows (persist_weather grid_decode ''desk'' [Payload (Some ''a'') 1 Working, Payload (Some ''b'') 2 Working,
       Payload (Some ''a'') 3 Working] \<lparr>ar_last = None, ar_rows = []\<rparr>)"
  using recorders_agree [of grid_decode "''expected value''" "[(''a'', 1), (''b'', 2), (''a'', 3)]"]
  by (simp add: grid_decode_def)

text \<open>An hour the client could not store is lost. If the database is released (or fails) when a new grid
  arrives, the client shows the grid but does not store it, and as the grid is then the one it holds,
  the broker's later deliveries of the same message do not store it either, however well the database
  works by then. The data server in the same place stores the hour with the next delivery.\<close>

theorem client_misses_hour_for_good:
  assumes "from_json decode p = Inr sn" and "p \<noteq> []" and "storage \<noteq> Working"
    and "storable (record_from_snapshot sn p later)" and "\<not> hour_stored src (sn_valid_time_ms sn) rows"
    and "held0 \<noteq> Some sn"
  shows "let s = relay_payload decode p now storage (relay_weather_start payloads alive Embedded src held0 rows)
    in wl_held s = Some sn
     \<and> wl_rows (relay_payloads decode [(p, later)] s) = rows
     \<and> ar_rows (persist_weather decode src [Payload (Some p) now storage, Payload (Some p) later Working]
           \<lparr>ar_last = None, ar_rows = rows\<rparr>)
         = rows @ [(record_from_snapshot sn p later)\<lparr>wr_source_id := src\<rparr>]"
proof -
  have "ar_rows (persist_weather decode src [Payload (Some p) now storage, Payload (Some p) later Working]
        \<lparr>ar_last = None, ar_rows = rows\<rparr>) = rows @ [(record_from_snapshot sn p later)\<lparr>wr_source_id := src\<rparr>]"
    using assms by (cases storage) (simp_all add: persist_weather_def next_weather_def insert_weather_snapshot_def)
  then show ?thesis using assms
    by (simp add: relay_payloads_def relay_payload_def next_update_def relay_weather_start_def Let_def)
qed

theorem client_misses_hour_for_good_witness:
  "ar_rows (persist_weather grid_decode ''desk'' [Payload (Some ''a'') 1 Unavailable, Payload (Some ''a'') 9 Working] \<lparr>ar_last = None, ar_rows = []\<rparr>)
     = [(record_from_snapshot (sample_grid 0) ''a'' 9)\<lparr>wr_source_id := ''desk''\<rparr>]
   \<and> wl_rows (relay_payloads grid_decode [(''a'', 9)]
       (relay_payload grid_decode ''a'' 1 Unavailable (relay_weather_start fresh_channel alive_channel Embedded ''desk'' None []))) = []"
  using client_misses_hour_for_good [of grid_decode "''a''" "sample_grid 0" Unavailable 9 "''desk''" "[]" None]
  by (simp add: Let_def storable_def record_from_snapshot_def hour_stored_def sample_grid_def SNAPSHOT_VERSION_def)

subsection \<open>The tasks end with the feed\<close>

definition service_wakes :: "service_relay_event list" where
  "service_wakes = [SR_Wake_Status, SR_Wake_Availability, SR_Wake_Alive]"

definition service_work :: "service_relay \<Rightarrow> nat" where
  "service_work s = (if sl_running s
     then 1 + of_bool (wv_unseen (sl_status s)) + of_bool (wv_unseen (sl_availability s)) else 0)"

definition service_cut_off :: "service_relay \<Rightarrow> bool" where
  "service_cut_off s \<longleftrightarrow> \<not> wv_open (sl_status s) \<and> \<not> wv_open (sl_availability s) \<and> \<not> wv_open (sl_alive s)"

lemma service_wake_works:
  assumes "service_relay_step decode e s = Some t" and "e \<in> set service_wakes" and "service_cut_off s"
  shows "service_work t < service_work s \<and> service_cut_off t"
  using assms
  by (cases e) (auto simp: service_wakes_def service_work_def service_cut_off_def watch_changed_Some Let_def
      split: if_splits option.splits)

lemma service_wakes_bounded:
  "steps (service_relay_step decode) es s = Some t \<Longrightarrow> set es \<subseteq> set service_wakes \<Longrightarrow> service_cut_off s
     \<Longrightarrow> length es + service_work t \<le> service_work s \<and> service_cut_off t"
proof (induction es arbitrary: s)
  case (Cons e es)
  then obtain u where u: "service_relay_step decode e s = Some u" "steps (service_relay_step decode) es u = Some t"
    by (auto simp: bind_eq_Some_conv)
  from service_wake_works [OF u(1)] Cons.prems(2,3) Cons.IH [OF u(2)] show ?case by fastforce
qed simp

text \<open>C12: The relay of the weather service ends with its feed. Once the client task is gone, and with it
  the source that wrote the channels, the task makes at most three more turns, whichever of its ready
  branches it takes; and as long as it has not ended, a branch is ready.\<close>

theorem service_relay_terminates:
  assumes "relay_weather_service decode es s = Some t" and "set es \<subseteq> set service_wakes"
    and "\<not> wv_open (sl_status s)" and "\<not> wv_open (sl_availability s)" and "\<not> wv_open (sl_alive s)"
  shows "length es \<le> 3
       \<and> (sl_running t \<longrightarrow> (\<exists>e \<in> set service_wakes. service_relay_step decode e t \<noteq> None))
       \<and> (length es = 3 \<longrightarrow> \<not> sl_running t)"
proof -
  have bound: "length es + service_work t \<le> service_work s" "service_cut_off t"
    using service_wakes_bounded [OF assms(1) [unfolded relay_weather_service_def] assms(2)] assms(3-5)
    by (simp_all add: service_cut_off_def)
  have "service_work s \<le> 3" by (simp add: service_work_def)
  moreover have "service_relay_step decode SR_Wake_Alive t \<noteq> None" if "sl_running t"
    using that bound(2) by (auto simp: service_cut_off_def watch_changed_def)
  moreover have "sl_running t \<Longrightarrow> 0 < service_work t" by (simp add: service_work_def)
  ultimately show ?thesis using bound(1) by (fastforce simp: service_wakes_def)
qed

theorem service_relay_terminates_witness:
  "\<exists>t. relay_weather_service sample_decode [SR_Wake_Availability, SR_Wake_Status, SR_Wake_Status]
        (relay_service_start \<lparr>wv_value = Some ''{}'', wv_unseen = True, wv_open = False\<rparr>
           \<lparr>wv_value = Some ''online'', wv_unseen = True, wv_open = False\<rparr>
           \<lparr>wv_value = True, wv_unseen = False, wv_open = False\<rparr> default_view) = Some t \<and> \<not> sl_running t"
proof -
  let ?s = "relay_service_start \<lparr>wv_value = Some ''{}'', wv_unseen = True, wv_open = False\<rparr>
           \<lparr>wv_value = Some ''online'', wv_unseen = True, wv_open = False\<rparr>
           \<lparr>wv_value = True, wv_unseen = False, wv_open = False\<rparr> default_view"
  obtain t where t: "relay_weather_service sample_decode [SR_Wake_Availability, SR_Wake_Status, SR_Wake_Status] ?s = Some t"
    by (simp add: relay_weather_service_def relay_service_start_def relay_run_defs)
  have "set [SR_Wake_Availability, SR_Wake_Status, SR_Wake_Status] \<subseteq> set service_wakes"
    "\<not> wv_open (sl_status ?s)" "\<not> wv_open (sl_availability ?s)" "\<not> wv_open (sl_alive ?s)"
    by (simp_all add: service_wakes_def relay_service_start_def)
  from service_relay_terminates [OF t this] t show ?thesis by simp
qed

end
