(* ===== verification/Weather_Path.thy ===== *)
theory Weather_Path imports Desktop_Weather_Props Desktop_Feed Server_Config begin

text \<open>
  From the weather service to the desktop client: the publisher of the service, what the broker retains, the
  MQTT source of the client's feed with its auxiliary topics, and the task that keeps the view. What
  is used of the broker is that a subscriber gets the retained message of a topic and every later
  one, so that the newest message it has got is the one the broker holds; what is used of
  \<open>serde_json\<close> is that it reads back the status it wrote.
\<close>

text \<open>The payload on the wire.\<close>

fun wire :: "(weather_status \<Rightarrow> bytes) \<Rightarrow> ('v snapshot \<Rightarrow> bytes) \<Rightarrow> 'v payload \<Rightarrow> bytes" where
  "wire status_json grid_json (P_Grid sn) = grid_json sn"
| "wire status_json grid_json (P_Status st) = status_json st"
| "wire status_json grid_json (P_Availability a) = availability_as_str a"

lemma publisher_step_status:
  "publisher_step e s = Some t \<Longrightarrow> wv_value (pb_status t) = wv_value (pb_status s) \<or> e = Pb_Status (wv_value (pb_status t))"
  by (cases e) (auto simp: publisher_connack_def publisher_poll_error_def go_offline_def pub_defs watch_send_def
      watch_close_def watch_changed_Some split: if_splits option.splits)

lemma publisher_run_status:
  "publisher_run es s = Some t \<Longrightarrow>
     wv_value (pb_status t) = wv_value (pb_status s) \<or> Pb_Status (wv_value (pb_status t)) \<in> set es"
proof (induction es arbitrary: s)
  case (Cons e es)
  then obtain u where "publisher_step e s = Some u" "publisher_run es u = Some t" by (auto simp: bind_eq_Some_conv)
  with Cons.IH [of u] publisher_step_status [of e s u] show ?case by auto
qed simp

lemma feed_source_topics:
  "let t = from_grid_topic (weather_topic c) in
     ms_topic (feed_mqtt_source c) = mqtt_topic c
   \<and> map aux_name (ms_aux (feed_mqtt_source c)) = [wt_grid t, wt_status t, wt_availability t]
   \<and> ms_tap (feed_mqtt_source c) = Some []"
  using from_grid_topic_distinct [of "weather_topic c"]
  by (auto simp: feed_mqtt_source_def mqtt_source_new_def with_aux_topic_def source_subscribe_def Let_def)

text \<open>C9: The desktop client shows what the weather service says of itself. Let the publisher of the
  service be connected and its task have seen the present status; let the newest message the client's
  source got on the status and the availability topic be the ones the broker retains, through any
  reconnects of either; and let the client's task have seen both. Then the view is the present
  status, with the service online.\<close>

theorem desktop_shows_service:
  assumes pub: "publisher_run pes (publisher_start (weather_topic c) status0) = Some pub"
      "pb_connected pub" "pb_running pub" "\<not> wv_unseen (pb_status pub)"
    and versions: "ws_version status0 = STATUS_VERSION" "\<forall>st. Pb_Status st \<in> set pes \<longrightarrow> ws_version st = STATUS_VERSION"
    and topics: "t = from_grid_topic (weather_topic c)" "mqtt_topic c \<notin> {wt_status t, wt_availability t}"
    and broker: "list_all (\<lambda>e. \<not> shuts_down e) es" "\<forall>topic \<in> {wt_status t, wt_availability t}. published topic es \<noteq> []
        \<and> retained memory (pb_out pub) memory topic \<noteq> None
        \<and> last (published topic es) = wire status_json grid_json (the (retained memory (pb_out pub) memory topic))"
    and json: "\<forall>st. st = status0 \<or> Pb_Status st \<in> set pes \<longrightarrow> status_json st \<noteq> [] \<and> decode (status_json st) = Inr st"
    and relay: "relay_weather_service decode rs (relay_service_start fresh_channel fresh_channel alive view0) = Some s"
      "wv_value (sl_status s) = aux_latest (wt_status t) (ms_aux (source_run es (feed_mqtt_source c)))"
      "wv_value (sl_availability s) = aux_latest (wt_availability t) (ms_aux (source_run es (feed_mqtt_source c)))"
      "\<not> wv_unseen (sl_status s)" "\<not> wv_unseen (sl_availability s)"
  shows "sl_view s = \<lparr>sv_status = Some (wv_value (pb_status pub)), sv_availability = Some Online\<rparr>"
proof -
  let ?st = "wv_value (pb_status pub)"
  have "up_to_date memory pub"
    by (rule publisher_run_up_to_date [OF pub(1)]) (auto simp: up_to_date_def publisher_start_def Let_def)
  moreover have "pb_topics pub = t" using publisher_topics [OF pub(1)] topics(1) by (simp add: publisher_start_def)
  ultimately have held: "retained memory (pb_out pub) memory (wt_availability t) = Some (P_Availability Online)"
      "retained memory (pb_out pub) memory (wt_status t) = Some (P_Status ?st)"
    using pub(2-4) by (simp_all add: up_to_date_def Let_def)
  have got: "aux_latest topic (ms_aux (source_run es (feed_mqtt_source c))) = Some (last (published topic es))"
    if "topic \<in> {wt_status t, wt_availability t}" for topic
  proof -
    have "topic \<noteq> ms_topic (feed_mqtt_source c)" "topic \<in> aux_name ` set (ms_aux (feed_mqtt_source c))"
      using feed_source_topics [of c] that topics by (auto simp: Let_def simp flip: set_map)
    from source_run_aux [OF this broker(1)] that broker(2) show ?thesis by auto
  qed
  have "?st = status0 \<or> Pb_Status ?st \<in> set pes"
    using publisher_run_status [OF pub(1)] by (simp add: publisher_start_def)
  with versions json have "ws_version ?st = STATUS_VERSION" "status_json ?st \<noteq> []" "decode (status_json ?st) = Inr ?st"
    by auto
  then have json_ok: "status_from_json decode (status_json ?st) = Inr ?st" "status_json ?st \<noteq> []"
    by (simp_all add: status_from_json_def)
  have "wv_value (sl_status s) = Some (status_json ?st)" "wv_value (sl_availability s) = Some (availability_as_str Online)"
    using relay(2,3) got broker(2) held by simp_all
  moreover have "follows_status decode s \<and> follows_availability s"
    by (rule follows.run_keeps [OF relay(1) [unfolded relay_weather_service_def]])
       (simp add: follows_status_def follows_availability_def relay_service_start_def fresh_channel_def)
  moreover have "availability_parse ''online'' = Some Online" using availability_round_trip [of Online] by simp
  ultimately show ?thesis using relay(4,5) json_ok
    by (cases "sl_view s") (simp add: follows_status_def follows_availability_def)
qed

text \<open>A client with the default topics, for the witness.\<close>

definition mqtt_client :: config where
  "mqtt_client = (default_config ''out.sbs'')\<lparr>source_kind := MqttKind, mqtt_topic := ''adsb/sbs/raw''\<rparr>"

lemma mqtt_client_topics:
  "weather_topic mqtt_client = ''adsb/weather/grid''"
  "from_grid_topic ''adsb/weather/grid''
     = \<lparr>wt_grid = ''adsb/weather/grid'', wt_status = ''adsb/weather/status'', wt_availability = ''adsb/weather/availability''\<rparr>"
  "mqtt_topic mqtt_client = ''adsb/sbs/raw''"
proof -
  show "weather_topic mqtt_client = ''adsb/weather/grid''"
    using weather_topic_staged [of mqtt_client "''adsb''"] by (simp add: mqtt_client_def default_config_def)
  have base: "strip_suffix ''/grid'' ''adsb/weather/grid'' = Some ''adsb/weather''" by simp
  show "from_grid_topic ''adsb/weather/grid'' = \<lparr>wt_grid = ''adsb/weather/grid'', wt_status = ''adsb/weather/status'', wt_availability = ''adsb/weather/availability''\<rparr>"
    unfolding from_grid_topic_def base by (simp add: Let_def)
  show "mqtt_topic mqtt_client = ''adsb/sbs/raw''" by (simp add: mqtt_client_def)
qed

theorem desktop_shows_service_witness:
  "\<exists>s. relay_weather_service sample_decode [SR_Status (Some ''{}''), SR_Availability (Some ''online''), SR_Wake_Availability, SR_Wake_Status]
         (relay_service_start fresh_channel fresh_channel alive_channel default_view) = Some s
     \<and> sl_view s = \<lparr>sv_status = Some sample_status, sv_availability = Some Online\<rparr>"
proof -
  let ?t = "from_grid_topic (weather_topic mqtt_client)"
  let ?es = "[Publish (wt_availability ?t) ''online'', Publish (wt_status ?t) ''{}'']"
  obtain pub :: "nat publisher" where pub: "publisher_run [Pb_ConnAck 0] (publisher_start (weather_topic mqtt_client) sample_status) = Some pub"
      "pb_connected pub" "pb_running pub" "\<not> wv_unseen (pb_status pub)"
      "pb_out pub = [pub_effect.Connected, Retain (wt_availability ?t) (P_Availability Online), Retain (wt_status ?t) (P_Status sample_status)]"
    by (simp add: publisher_start_def publisher_connack_def pub_defs fresh_pacer_def)
  obtain s where s: "relay_weather_service sample_decode [SR_Status (Some ''{}''), SR_Availability (Some ''online''), SR_Wake_Availability, SR_Wake_Status]
         (relay_service_start fresh_channel fresh_channel alive_channel default_view) = Some s"
      "wv_value (sl_status s) = Some ''{}''" "wv_value (sl_availability s) = Some ''online''"
      "\<not> wv_unseen (sl_status s)" "\<not> wv_unseen (sl_availability s)"
    by (simp add: relay_weather_service_def relay_service_start_def relay_run_defs)
  have st: "wv_value (pb_status pub) = sample_status"
    using publisher_run_status [OF pub(1)] by (simp add: publisher_start_def)
  have got: "aux_latest topic (ms_aux (source_run ?es (feed_mqtt_source mqtt_client))) = Some (last (published topic ?es))"
    if "topic \<in> {wt_status ?t, wt_availability ?t}" for topic
  proof -
    have "topic \<noteq> ms_topic (feed_mqtt_source mqtt_client)" "topic \<in> aux_name ` set (ms_aux (feed_mqtt_source mqtt_client))"
      using feed_source_topics [of mqtt_client] that
      by (auto simp: Let_def mqtt_client_topics simp flip: set_map)
    from source_run_aux [OF this, of ?es] that show ?thesis by (auto simp: mqtt_client_topics)
  qed
  have "sl_view s = \<lparr>sv_status = Some (wv_value (pb_status pub)), sv_availability = Some Online\<rparr>"
  proof (rule desktop_shows_service [OF pub(1-4), where t = ?t and es = ?es and status_json = "\<lambda>_. ''{}''"
        and grid_json = "\<lambda>_. []" and memory = "\<lambda>_. None" and decode = sample_decode])
    show "relay_weather_service sample_decode [SR_Status (Some ''{}''), SR_Availability (Some ''online''), SR_Wake_Availability, SR_Wake_Status]
         (relay_service_start fresh_channel fresh_channel alive_channel default_view) = Some s" by (rule s)
  qed (use s got in \<open>auto simp: mqtt_client_topics pub(5) sample_status_def sample_decode_def project_def\<close>)
  with s(1) st show ?thesis by auto
qed

end
