(* ===== verification/Storage_Statistics.thy ===== *)
theory Storage_Statistics imports Flight_Queries Flight_Bootstrap begin

text \<open>
  The aggregate queries of \<open>storage.rs\<close>: summaries per aircraft, raw messages, the time histogram, the
  detection range by azimuth, the hourly heat map and the statistics of a database, with the reference
  of the azimuth sectors in \<open>geo.rs\<close>. As in the other queries, \<open>ORDER BY\<close> keeps table order among
  equals, and instants are not before 1970, so that \<open>//\<close> rounds down. What the database engine and
  \<open>libm\<close> compute (the quotient that is cast to \<open>BIGINT\<close>, bearings and distances) are parameters.
\<close>

subsection \<open>Grouping\<close>

text \<open>\<open>GROUP BY k ORDER BY k\<close>\<close>

definition grouped :: "('r \<Rightarrow> 'k::linorder) \<Rightarrow> 'r list \<Rightarrow> ('k \<times> 'r list) list" where
  "grouped key rows = map (\<lambda>k. (k, filter (\<lambda>r. key r = k) rows)) (sort (remdups (map key rows)))"

definition count_distinct :: "'a list \<Rightarrow> nat" where
  "count_distinct xs = length (remdups xs)"

subsection \<open>Aircraft and raw messages\<close>

record aircraft_summary =
  au_hex :: string
  au_callsign :: "string option"
  au_count :: nat
  au_first :: int
  au_last :: int
  au_min :: "f64 option"
  au_max :: "f64 option"

definition get_aircraft_summary :: "int option \<Rightarrow> int option \<Rightarrow> storage \<Rightarrow> aircraft_summary list" where
  "get_aircraft_summary start_ms end_ms st = sort_key (\<lambda>s. - au_last s)
     (map (\<lambda>(hex, rs). \<lparr>au_hex = hex, au_callsign = sql_max_text (map pr_callsign rs), au_count = length rs,
            au_first = Min (pr_ts ` set rs), au_last = Max (pr_ts ` set rs),
            au_min = sql_min (map pr_altitude rs), au_max = sql_max (map pr_altitude rs)\<rparr>)
       (grouped pr_hex (filter (\<lambda>r. in_window start_ms end_ms (pr_ts r)) (st_positions st))))"

record raw_message_query =
  rq_hex_ident :: string
  rq_start_ms :: int
  rq_end_ms :: int

definition query_raw_messages :: "raw_message_query \<Rightarrow> storage \<Rightarrow> raw_sbs_record list" where
  "query_raw_messages q st =
     map (\<lambda>r. \<lparr>raw_hex_ident = rr_hex r, raw_msg_type = rr_msg_type r, raw_transmission_type = rr_transmission_type r,
               raw_timestamp = [], raw_timestamp_ms = rr_ts r, raw_message = rr_message r, raw_source_id = rr_source r\<rparr>)
       (take 10000 (sort_key rr_ts
          (filter (\<lambda>r. rr_hex r = rq_hex_ident q \<and> rq_start_ms q \<le> rr_ts r \<and> rr_ts r \<le> rq_end_ms q) (st_raw st))))"

definition get_raw_message_count :: "int option \<Rightarrow> int option \<Rightarrow> storage \<Rightarrow> nat" where
  "get_raw_message_count start_ms end_ms st = length (filter (\<lambda>r. in_window start_ms end_ms (rr_ts r)) (st_raw st))"

subsection \<open>Time histogram\<close>

datatype distribution_metric = TD_Positions | TD_Aircraft | TD_RawMessages | TD_Flights

record time_distribution_query =
  td_start_ms :: int
  td_end_ms :: int
  td_num_buckets :: nat
  td_metric :: distribution_metric

record time_bucket =
  tb_ms :: int
  tb_count :: nat

text \<open>\<open>i64\<close> division of a positive range.\<close>

definition bucket_width :: "time_distribution_query \<Rightarrow> int" where
  "bucket_width q = (td_end_ms q - td_start_ms q) div int (td_num_buckets q)"

text \<open>\<open>generate_series(a, b, w)\<close> for a positive step.\<close>

function series :: "int \<Rightarrow> int \<Rightarrow> int \<Rightarrow> int list" where
  "series a b w = (if w \<le> 0 \<or> b < a then [] else a # series (a + w) b w)"
  by auto
termination by (relation "measure (\<lambda>(a, b, w). nat (b + 1 - a))") auto

declare series.simps [simp del]

definition flight_buckets :: "int \<Rightarrow> flight \<Rightarrow> int list" where
  "flight_buckets w f = series (fl_first f div w * w) (fl_last f div w * w) w"

text \<open>The rows of a histogram; \<open>agg\<close> is the aggregate of a bucket.\<close>

definition buckets_of :: "('r list \<Rightarrow> nat) \<Rightarrow> ('r \<Rightarrow> int) \<Rightarrow> 'r list \<Rightarrow> time_bucket list" where
  "buckets_of agg label rows = map (\<lambda>(ms, rs). \<lparr>tb_ms = ms, tb_count = agg rs\<rparr>) (grouped label rows)"

text \<open>\<open>cast_div a b\<close> is \<open>CAST(a / b AS BIGINT)\<close>.\<close>

definition get_time_distribution ::
  "(int \<Rightarrow> int \<Rightarrow> int) \<Rightarrow> time_distribution_query \<Rightarrow> storage \<Rightarrow> time_bucket list" where
  "get_time_distribution cast_div q st =
     (if td_num_buckets q = 0 \<or> td_end_ms q - td_start_ms q \<le> 0 \<or> bucket_width q = 0 then []
      else let w = bucket_width q;
               inside = (\<lambda>ts. td_start_ms q \<le> ts \<and> ts \<le> td_end_ms q);
               label = (\<lambda>ts. cast_div ts w * w)
           in case td_metric q of
                TD_Positions \<Rightarrow> buckets_of length (\<lambda>r. label (pr_ts r)) (filter (\<lambda>r. inside (pr_ts r)) (st_positions st))
              | TD_Aircraft \<Rightarrow> buckets_of (\<lambda>rs. count_distinct (map pr_hex rs)) (\<lambda>r. label (pr_ts r))
                  (filter (\<lambda>r. inside (pr_ts r)) (st_positions st))
              | TD_RawMessages \<Rightarrow> buckets_of length (\<lambda>r. label (rr_ts r)) (filter (\<lambda>r. inside (rr_ts r)) (st_raw st))
              | TD_Flights \<Rightarrow> buckets_of length (\<lambda>b. b) (filter inside (concat (map (flight_buckets w)
                  (filter (\<lambda>f. td_start_ms q \<le> fl_last f \<and> fl_first f \<le> td_end_ms q) (st_flights st))))))"

subsection \<open>Detection range\<close>

record detection_query =
  dq_receiver_lat :: f64
  dq_receiver_lon :: f64
  dq_start_ms :: "int option"
  dq_end_ms :: "int option"

record detection_sector =
  se_bearing_deg :: nat
  se_max_distance_nm :: f64
  se_position_count :: nat
  se_min_altitude :: "f64 option"
  se_max_altitude :: "f64 option"
  se_flight_count :: nat

text \<open>The sector of a bearing in degrees from -180 to 180, as the query computes it.\<close>

definition sql_sector :: "real \<Rightarrow> int" where
  "sql_sector b = (\<lfloor>b + 365\<rfloor> mod 360) div 10"

text \<open>\<open>geo::bearing_to_sector\<close>, for a bearing from 0 to 360.\<close>

definition bearing_to_sector :: "real \<Rightarrow> nat" where
  "bearing_to_sector b = nat \<lfloor>if b + 5 < 360 then b + 5 else b + 5 - 360\<rfloor> div 10"

text \<open>\<open>positions LEFT JOIN flights\<close>: a position without a flight stays, with a NULL.\<close>

definition with_flights :: "storage \<Rightarrow> position_row \<Rightarrow> (position_row \<times> string option) list" where
  "with_flights st r = (case filter (of_flight r) (st_flights st) of
      [] \<Rightarrow> [(r, None)] | fs \<Rightarrow> map (\<lambda>f. (r, Some (fl_id f))) fs)"

record sector_row =
  sw_sector :: int
  sw_max_distance :: f64
  sw_count :: nat
  sw_min_altitude :: "f64 option"
  sw_max_altitude :: "f64 option"
  sw_flights :: nat

definition sector_rows ::
  "(position_row \<Rightarrow> real) \<Rightarrow> (position_row \<Rightarrow> f64) \<Rightarrow> detection_query \<Rightarrow> storage \<Rightarrow> sector_row list" where
  "sector_rows bearing distance q st =
     (let start_ms = (case dq_start_ms q of Some s \<Rightarrow> s | None \<Rightarrow> 0);
          end_ms = (case dq_end_ms q of Some e \<Rightarrow> e | None \<Rightarrow> I64_MAX);
          rows = concat (map (with_flights st)
            (filter (\<lambda>r. located r \<and> start_ms \<le> pr_ts r \<and> pr_ts r \<le> end_ms) (st_positions st)))
      in map (\<lambda>(s, rs). \<lparr>sw_sector = s,
              sw_max_distance = (case sql_max (map (\<lambda>(r, i). Some (distance r)) rs) of Some d \<Rightarrow> d | None \<Rightarrow> F_nan),
              sw_count = length rs,
              sw_min_altitude = sql_min (map (\<lambda>(r, i). pr_altitude r) rs),
              sw_max_altitude = sql_max (map (\<lambda>(r, i). pr_altitude r) rs),
              sw_flights = count_distinct (List.map_filter snd rs)\<rparr>)
           (grouped (\<lambda>(r, i). sql_sector (bearing r)) rows))"

definition empty_sector :: "nat \<Rightarrow> detection_sector" where
  "empty_sector i = \<lparr>se_bearing_deg = i * 10, se_max_distance_nm = F_fin 0, se_position_count = 0,
     se_min_altitude = None, se_max_altitude = None, se_flight_count = 0\<rparr>"

definition merge_bound :: "(f64 \<Rightarrow> f64 \<Rightarrow> f64) \<Rightarrow> f64 option \<Rightarrow> f64 option \<Rightarrow> f64 option" where
  "merge_bound f x y = (case (x, y) of (Some a, Some b) \<Rightarrow> Some (f a b) | _ \<Rightarrow> opt_or x y)"

definition merge_sector :: "sector_row \<Rightarrow> detection_sector \<Rightarrow> detection_sector" where
  "merge_sector w s = s\<lparr>se_max_distance_nm := f64_max (se_max_distance_nm s) (sw_max_distance w),
     se_position_count := se_position_count s + sw_count w,
     se_min_altitude := merge_bound f64_min (se_min_altitude s) (sw_min_altitude w),
     se_max_altitude := merge_bound f64_max (se_max_altitude s) (sw_max_altitude w),
     se_flight_count := max (se_flight_count s) (sw_flights w)\<rparr>"

definition fill_sectors :: "sector_row list \<Rightarrow> detection_sector list" where
  "fill_sectors rows = fold (\<lambda>w sectors. if 0 \<le> sw_sector w \<and> sw_sector w < 36
       then sectors[nat (sw_sector w) := merge_sector w (sectors ! nat (sw_sector w))] else sectors)
     rows (map empty_sector [0..<36])"

definition get_detection_range ::
  "(position_row \<Rightarrow> real) \<Rightarrow> (position_row \<Rightarrow> f64) \<Rightarrow> detection_query \<Rightarrow> storage \<Rightarrow> detection_sector list" where
  "get_detection_range bearing distance q st = fill_sectors (sector_rows bearing distance q st)"

subsection \<open>Hourly heat map\<close>

record heatmap_query =
  hq_start_ms :: int
  hq_end_ms :: int

record heatmap_cell =
  hc_day_ms :: int
  hc_hour :: int
  hc_aircraft_count :: nat
  hc_message_count :: nat
  hc_raw_message_count :: nat
  hc_flight_count :: nat

definition cell_of :: "int \<Rightarrow> int \<times> int" where
  "cell_of ts = (ts div 86400000 * 86400000, ts div 3600000 mod 24)"

text \<open>A \<open>FULL OUTER JOIN\<close> on keys that are unique on both sides.\<close>

definition full_join :: "('k \<times> 'a) list \<Rightarrow> ('k \<times> 'b) list \<Rightarrow> ('k \<times> 'a option \<times> 'b option) list" where
  "full_join xs ys = map (\<lambda>(k, a). (k, Some a, map_of ys k)) xs
     @ map (\<lambda>(k, b). (k, None, Some b)) (filter (\<lambda>(k, b). map_of xs k = None) ys)"

definition coalesce :: "nat option \<Rightarrow> nat" where
  "coalesce x = (case x of Some n \<Rightarrow> n | None \<Rightarrow> 0)"

definition get_hourly_heatmap :: "heatmap_query \<Rightarrow> storage \<Rightarrow> heatmap_cell list" where
  "get_hourly_heatmap q st =
     (let inside = (\<lambda>ts. hq_start_ms q \<le> ts \<and> ts \<le> hq_end_ms q);
          pos = map (\<lambda>(k, rs). (k, count_distinct (map pr_hex rs), length rs))
            (grouped (\<lambda>r. cell_of (pr_ts r)) (filter (\<lambda>r. inside (pr_ts r)) (st_positions st)));
          raw = map (\<lambda>(k, rs). (k, length rs))
            (grouped (\<lambda>r. cell_of (rr_ts r)) (filter (\<lambda>r. inside (rr_ts r)) (st_raw st)));
          fl = map (\<lambda>(k, hs). (k, length hs))
            (grouped cell_of (concat (map (flight_buckets 3600000)
               (filter (\<lambda>f. hq_start_ms q \<le> fl_last f \<and> fl_first f \<le> hq_end_ms q) (st_flights st)))));
          pos_raw = map (\<lambda>(k, p, n). (k, coalesce (map_option fst p), coalesce (map_option snd p), coalesce n)) (full_join pos raw)
      in sort_key (\<lambda>c. (hc_day_ms c, hc_hour c))
           (map (\<lambda>((day, hour), p, n). \<lparr>hc_day_ms = day, hc_hour = hour,
                   hc_aircraft_count = coalesce (map_option fst p),
                   hc_message_count = coalesce (map_option (fst \<circ> snd) p),
                   hc_raw_message_count = coalesce (map_option (snd \<circ> snd) p),
                   hc_flight_count = coalesce n\<rparr>)
             (full_join pos_raw fl)))"

subsection \<open>Statistics\<close>

record storage_stats =
  ss_row_count :: nat
  ss_db_size_bytes :: nat
  ss_oldest_timestamp_ms :: "int option"
  ss_newest_timestamp_ms :: "int option"
  ss_raw_message_count :: nat
  ss_raw_db_size_bytes :: nat
  ss_flight_count :: nat
  ss_flight_size_bytes :: nat
  ss_status_event_count :: nat
  ss_event_of_interest_count :: nat
  ss_weather_snapshot_count :: nat

text \<open>The counts of the tables outside \<open>storage\<close> are arguments; the weather table may be missing.\<close>

definition get_stats :: "nat \<Rightarrow> nat \<Rightarrow> nat option \<Rightarrow> storage \<Rightarrow> storage_stats" where
  "get_stats status_events events_of_interest weather st =
     (let stamps = pr_ts ` set (st_positions st);
          positions_size = sat_mul U64_MAX (length (st_positions st)) 128;
          raw_size = sat_mul U64_MAX (length (st_raw st)) 200;
          flight_size = sat_mul U64_MAX (length (st_flights st)) 160
      in \<lparr>ss_row_count = length (st_positions st), ss_db_size_bytes = positions_size + raw_size + flight_size,
          ss_oldest_timestamp_ms = (if stamps = {} then None else Some (Min stamps)),
          ss_newest_timestamp_ms = (if stamps = {} then None else Some (Max stamps)),
          ss_raw_message_count = length (st_raw st), ss_raw_db_size_bytes = raw_size,
          ss_flight_count = length (st_flights st), ss_flight_size_bytes = flight_size,
          ss_status_event_count = status_events, ss_event_of_interest_count = events_of_interest,
          ss_weather_snapshot_count = coalesce weather\<rparr>)"

end
