(* ===== verification/Metrics_Export.thy ===== *)
theory Metrics_Export imports Feed_Metrics F64_Time Weather_Types Storage_Statistics "HOL-Library.AList" begin

text \<open>
  The Prometheus projections of the three services: \<open>metrics_export.rs\<close> of the feed client with the
  exporter they share, and those of the recorder, with its cache of statistics, and of the weather
  service. A registry of the \<open>prometheus\<close> crate is the list of its metric families; registering a
  name twice panics, which is \<open>None\<close>. The text encoder of the crate is a parameter.
\<close>

subsection \<open>The exporter\<close>

datatype metric_kind = Counter_Metric | Gauge_Metric

datatype metric_value = M_Int int | M_Float f64

type_synonym labels = "(string \<times> string) list"

record family =
  fam_name :: string
  fam_help :: string
  fam_kind :: metric_kind
  fam_series :: "(labels \<times> metric_value) list"

type_synonym exporter = "family list option"

text \<open>\<open>rsplit_once('-')\<close>\<close>

definition stage_of :: "string \<Rightarrow> string" where
  "stage_of receiver_id =
     (if CHR ''-'' \<in> set receiver_id then rev (takeWhile (\<lambda>c. c \<noteq> CHR ''-'') (rev receiver_id)) else [])"

definition build_info :: "string \<Rightarrow> string \<Rightarrow> string \<Rightarrow> family" where
  "build_info service version receiver_id =
     \<lparr>fam_name = ''adsb_build_info'', fam_help = ''Identity and version of this ADS-B process; always 1.'',
      fam_kind = Gauge_Metric,
      fam_series = [([(''service'', service), (''version'', version), (''source_id'', receiver_id),
                      (''stage'', stage_of receiver_id)], M_Int 1)]\<rparr>"

definition exporter_new :: "string \<Rightarrow> string \<Rightarrow> string \<Rightarrow> exporter" where
  "exporter_new service version receiver_id = Some [build_info service version receiver_id]"

definition register :: "family \<Rightarrow> exporter \<Rightarrow> exporter" where
  "register f e = (case e of
      None \<Rightarrow> None
    | Some fs \<Rightarrow> if fam_name f \<in> fam_name ` set fs then None else Some (fs @ [f]))"

definition single :: "metric_kind \<Rightarrow> string \<Rightarrow> string \<Rightarrow> metric_value \<Rightarrow> family" where
  "single k name help v = \<lparr>fam_name = name, fam_help = help, fam_kind = k, fam_series = [([], v)]\<rparr>"

definition int_gauge :: "string \<Rightarrow> string \<Rightarrow> int \<Rightarrow> exporter \<Rightarrow> exporter" where
  "int_gauge name help v = register (single Gauge_Metric name help (M_Int v))"

definition counter_metric :: "string \<Rightarrow> string \<Rightarrow> nat \<Rightarrow> exporter \<Rightarrow> exporter" where
  "counter_metric name help amount = register (single Counter_Metric name help (M_Int (int amount)))"

definition gauge_metric :: "string \<Rightarrow> string \<Rightarrow> f64 \<Rightarrow> exporter \<Rightarrow> exporter" where
  "gauge_metric name help v = register (single Gauge_Metric name help (M_Float v))"

definition timestamp_seconds :: "string \<Rightarrow> string \<Rightarrow> int option \<Rightarrow> exporter \<Rightarrow> exporter" where
  "timestamp_seconds name help ms e = (case ms of
      None \<Rightarrow> e
    | Some ms \<Rightarrow> gauge_metric name help (f64_div (f64_of_int ms) (F_fin 1000)) e)"

definition gauge_set :: "string \<Rightarrow> string \<Rightarrow> string \<Rightarrow> (string \<times> bool) list \<Rightarrow> exporter \<Rightarrow> exporter" where
  "gauge_set name help label vals = register
     \<lparr>fam_name = name, fam_help = help, fam_kind = Gauge_Metric,
      fam_series = fold (\<lambda>(v, active). AList.update [(label, v)] (M_Int (of_bool active))) vals []\<rparr>"

text \<open>\<open>encoder\<close> is \<open>TextEncoder::encode\<close>.\<close>

definition encode_families :: "(family list \<Rightarrow> string + bytes) \<Rightarrow> family list \<Rightarrow> string" where
  "encode_families encoder fs = (case encoder fs of
      Inr buf \<Rightarrow> (case from_utf8 buf of Some s \<Rightarrow> s | None \<Rightarrow> [])
    | Inl e \<Rightarrow> ''# encoding error: '' @ e @ ''\<newline>'')"

definition exporter_encode :: "(family list \<Rightarrow> string + bytes) \<Rightarrow> exporter \<Rightarrow> string option" where
  "exporter_encode encoder e = map_option (encode_families encoder) e"

subsection \<open>The feed client\<close>

definition messages_sent :: "metrics \<Rightarrow> nat" where "messages_sent m = unat (m_messages_sent m)"
definition messages_received :: "metrics \<Rightarrow> nat" where "messages_received m = unat (m_messages_received m)"
definition error_count :: "metrics \<Rightarrow> nat" where "error_count m = unat (m_errors m)"
definition bytes_received :: "metrics \<Rightarrow> nat" where "bytes_received m = unat (m_bytes_received m)"
definition bytes_sent :: "metrics \<Rightarrow> nat" where "bytes_sent m = unat (m_bytes_sent m)"
definition retry_queue_size :: "metrics \<Rightarrow> nat" where "retry_queue_size m = unat (m_retry_queue_size m)"
definition reconnection_attempts :: "metrics \<Rightarrow> nat" where
  "reconnection_attempts m = unat (m_reconnection_attempts m)"

definition metrics_elapsed :: "instant \<Rightarrow> metrics \<Rightarrow> duration" where
  "metrics_elapsed now m = elapsed_since (m_start_time m) now"

definition messages_per_second :: "instant \<Rightarrow> metrics \<Rightarrow> f64" where
  "messages_per_second now m =
     (let elapsed = as_secs_f64 (metrics_elapsed now m)
      in if f64_lt (F_fin 0) elapsed then f64_div (f64_of_nat (messages_sent m)) elapsed else F_fin 0)"

record metrics_snapshot =
  mx_messages_sent :: nat
  mx_messages_received :: nat
  mx_errors :: nat
  mx_bytes_received :: nat
  mx_bytes_sent :: nat
  mx_retry_queue_size :: nat
  mx_reconnection_attempts :: nat
  mx_elapsed_secs :: f64
  mx_throughput_msg_per_sec :: f64

text \<open>\<open>elapsed\<close> and the throughput each read the clock; \<open>now\<close> and \<open>later\<close> are the two readings.\<close>

definition metrics_snapshot_of :: "instant \<Rightarrow> instant \<Rightarrow> metrics \<Rightarrow> metrics_snapshot" where
  "metrics_snapshot_of now later m =
     \<lparr>mx_messages_sent = messages_sent m, mx_messages_received = messages_received m, mx_errors = error_count m,
      mx_bytes_received = bytes_received m, mx_bytes_sent = bytes_sent m, mx_retry_queue_size = retry_queue_size m,
      mx_reconnection_attempts = reconnection_attempts m, mx_elapsed_secs = as_secs_f64 (metrics_elapsed now m),
      mx_throughput_msg_per_sec = messages_per_second later m\<rparr>"

text \<open>\<open>i64::try_from(n).unwrap_or(i64::MAX)\<close>\<close>

definition gauge_count :: "nat \<Rightarrow> int" where
  "gauge_count n = (if int n \<le> I64_MAX then int n else I64_MAX)"

text \<open>\<open>wall\<close> is the Unix time, unless the clock stands before 1970.\<close>

definition render_feed :: "string \<Rightarrow> string \<Rightarrow> instant \<Rightarrow> duration option \<Rightarrow> metrics \<Rightarrow> exporter" where
  "render_feed version receiver_id now wall m =
     (let e = exporter_new ''feed'' version receiver_id;
          e = counter_metric ''adsb_feed_messages_received_total'' ''SBS-1 lines read from the source, heartbeats included.''
                (messages_received m) e;
          e = counter_metric ''adsb_feed_messages_sent_total'' ''Messages accepted by a forwarder.'' (messages_sent m) e;
          e = counter_metric ''adsb_feed_errors_total'' ''Socket and forwarder errors.'' (error_count m) e;
          e = counter_metric ''adsb_feed_bytes_received_total'' ''Bytes read from the source socket.'' (bytes_received m) e;
          e = counter_metric ''adsb_feed_bytes_sent_total'' ''Bytes handed to the forwarders.'' (bytes_sent m) e;
          e = counter_metric ''adsb_feed_reconnections_total'' ''Source reconnection attempts.'' (reconnection_attempts m) e;
          e = int_gauge ''adsb_feed_retry_queue_messages'' ''Messages waiting in the forwarder retry queues.''
                (gauge_count (retry_queue_size m)) e;
          e = gauge_metric ''adsb_feed_last_meaningful_message_seconds'' ''Seconds since the last heartbeat or data line.''
                (as_secs_f64 (metrics_since_meaningful now m)) e
      in case wall of
           None \<Rightarrow> e
         | Some w \<Rightarrow> gauge_metric ''adsb_feed_start_time_seconds'' ''Unix time at which this process started.''
                      (f64_sub (as_secs_f64 w) (as_secs_f64 (metrics_elapsed now m))) e)"

subsection \<open>The weather service\<close>

definition ALL_STATES :: "service_state list" where
  "ALL_STATES = [S_Idle, S_Fetching, S_Retrying, S_RateLimited, S_Rejected, S_Disabled]"

definition ALL_SCOPES :: "rate_limit_scope list" where
  "ALL_SCOPES = [Minutely, Hourly, Daily, Unknown_Scope]"

fun state_label :: "service_state \<Rightarrow> string" where
  "state_label S_Idle = ''idle''"
| "state_label S_Fetching = ''fetching''"
| "state_label S_Retrying = ''retrying''"
| "state_label S_RateLimited = ''rate_limited''"
| "state_label S_Rejected = ''rejected''"
| "state_label S_Disabled = ''disabled''"

fun scope_label :: "rate_limit_scope \<Rightarrow> string" where
  "scope_label Minutely = ''minutely''"
| "scope_label Hourly = ''hourly''"
| "scope_label Daily = ''daily''"
| "scope_label Unknown_Scope = ''unknown''"

definition render_weather :: "string \<Rightarrow> string \<Rightarrow> weather_status \<Rightarrow> exporter" where
  "render_weather version receiver_id s =
     (let e = exporter_new ''weather'' version receiver_id;
          e = int_gauge ''adsb_weather_enabled'' ''The desired setting: 1 when fetching is enabled.'' (of_bool (ws_enabled s)) e;
          e = int_gauge ''adsb_weather_consecutive_failures'' ''Consecutive failed fetches; zero after a success.''
                (int (ws_consecutive_failures s)) e;
          e = int_gauge ''adsb_weather_status_version'' ''Schema version of the status this was projected from.''
                (int (ws_version s)) e;
          e = gauge_set ''adsb_weather_state'' ''What the refresh loop is doing; 1 on the current state.'' ''state''
                (map (\<lambda>x. (state_label x, x = ws_state s)) ALL_STATES) e;
          e = gauge_set ''adsb_weather_rate_limited'' ''1 on the provider limit window the last fetch ran into, if any.'' ''scope''
                (map (\<lambda>x. (scope_label x, ws_rate_limit s = Some x)) ALL_SCOPES) e;
          e = timestamp_seconds ''adsb_weather_status_updated_timestamp_seconds'' ''When this status was produced.''
                (Some (ws_updated_at_ms s)) e;
          e = timestamp_seconds ''adsb_weather_last_success_timestamp_seconds'' ''When the last fetch succeeded.''
                (ws_last_success_ms s) e;
          e = timestamp_seconds ''adsb_weather_next_fetch_timestamp_seconds'' ''When the next fetch is scheduled.''
                (ws_next_fetch_ms s) e
      in timestamp_seconds ''adsb_weather_snapshot_valid_timestamp_seconds'' ''Valid time of the grid currently published.''
           (ws_snapshot_valid_time_ms s) e)"

subsection \<open>The recorder\<close>

record cached_stats =
  cs_stats :: storage_stats
  cs_age :: duration
  cs_query_duration :: duration

text \<open>The statistics, when they were taken and what the query took.\<close>

type_synonym stats_cache = "(storage_stats \<times> instant \<times> duration) option"

definition cache_snapshot :: "instant \<Rightarrow> stats_cache \<Rightarrow> cached_stats option" where
  "cache_snapshot now c = (case c of
      None \<Rightarrow> None
    | Some (stats, taken_at, d) \<Rightarrow> Some \<lparr>cs_stats = stats, cs_age = elapsed_since taken_at now, cs_query_duration = d\<rparr>)"

definition cache_store :: "storage_stats \<Rightarrow> duration \<Rightarrow> instant \<Rightarrow> stats_cache \<Rightarrow> stats_cache" where
  "cache_store stats d now c = Some (stats, now, d)"

definition cache_clear :: "stats_cache \<Rightarrow> stats_cache" where
  "cache_clear c = None"

text \<open>One tick of the refresher: the query begins, ends and gives \<open>answer\<close>.\<close>

record stats_refresh =
  sr_started :: instant
  sr_finished :: instant
  sr_answer :: "string + storage_stats"

definition refresh_stats :: "stats_refresh \<Rightarrow> stats_cache \<Rightarrow> stats_cache" where
  "refresh_stats r c = (case sr_answer r of
      Inr stats \<Rightarrow> cache_store stats (elapsed_since (sr_started r) (sr_finished r)) (sr_finished r) c
    | Inl _ \<Rightarrow> cache_clear c)"

definition run_stats_cache :: "stats_refresh list \<Rightarrow> stats_cache" where
  "run_stats_cache rs = fold refresh_stats rs None"

definition render_recorder :: "string \<Rightarrow> string \<Rightarrow> cached_stats option \<Rightarrow> exporter" where
  "render_recorder version receiver_id cached =
     (let e = exporter_new ''recorder'' version receiver_id;
          e = int_gauge ''adsb_recorder_storage_up'' ''1 when the database is open and the last statistics query succeeded.''
                (of_bool (cached \<noteq> None)) e
      in case cached of None \<Rightarrow> e | Some c \<Rightarrow>
     (let stats = cs_stats c;
          e = int_gauge ''adsb_recorder_positions_rows'' ''Rows in the positions table.'' (gauge_count (ss_row_count stats)) e;
          e = int_gauge ''adsb_recorder_db_size_bytes'' ''On-disk size of the positions database.'' (gauge_count (ss_db_size_bytes stats)) e;
          e = int_gauge ''adsb_recorder_raw_messages_rows'' ''Rows in the raw SBS-1 message table.'' (gauge_count (ss_raw_message_count stats)) e;
          e = int_gauge ''adsb_recorder_raw_db_size_bytes'' ''On-disk size of the raw message table.'' (gauge_count (ss_raw_db_size_bytes stats)) e;
          e = int_gauge ''adsb_recorder_flights_rows'' ''Rows in the flights table.'' (gauge_count (ss_flight_count stats)) e;
          e = int_gauge ''adsb_recorder_flights_size_bytes'' ''On-disk size of the flights table.'' (gauge_count (ss_flight_size_bytes stats)) e;
          e = int_gauge ''adsb_recorder_status_events_rows'' ''Rows in the status event table.'' (gauge_count (ss_status_event_count stats)) e;
          e = int_gauge ''adsb_recorder_events_of_interest_rows'' ''User-created events of interest.'' (gauge_count (ss_event_of_interest_count stats)) e;
          e = int_gauge ''adsb_recorder_weather_snapshots_rows'' ''Stored weather snapshots, one per model hour.'' (gauge_count (ss_weather_snapshot_count stats)) e;
          e = timestamp_seconds ''adsb_recorder_oldest_record_timestamp_seconds'' ''Timestamp of the oldest recorded position.''
                (ss_oldest_timestamp_ms stats) e;
          e = timestamp_seconds ''adsb_recorder_newest_record_timestamp_seconds'' ''Timestamp of the newest recorded position.''
                (ss_newest_timestamp_ms stats) e;
          e = gauge_metric ''adsb_recorder_stats_age_seconds'' ''Age of the cached storage statistics.'' (as_secs_f64 (cs_age c)) e
      in gauge_metric ''adsb_recorder_stats_query_duration_seconds'' ''How long the last storage statistics query took.''
           (as_secs_f64 (cs_query_duration c)) e))"

end
