(* ===== verification/Metrics_Server.thy ===== *)
theory Metrics_Server imports Metrics_Export Weather_Archive begin

text \<open>
  \<open>adsb-pulsar-client/src/metrics_server.rs\<close>: the hand-written HTTP endpoint of the feed client. A
  connection is the sequence of reads it gives within the five seconds a request head may take; after
  the last one the connection stays silent until the time is over.
\<close>

subsection \<open>Words and lines of Rust strings\<close>

text \<open>\<open>str::split_whitespace\<close>, by the white space of UTF-8 text.\<close>

fun take_word :: "string \<Rightarrow> string \<times> string" where
  "take_word [] = ([], [])"
| "take_word (c # cs) = (if find_prefix white_space (c # cs) \<noteq> None then ([], c # cs)
     else (let (w, r) = take_word cs in (c # w, r)))"

lemma take_word_length: "length (snd (take_word s)) \<le> length s"
  by (induction s) (auto simp: split_def Let_def)

lemma take_word_shorter:
  assumes "find_prefix white_space s = None" and "s \<noteq> []"
  shows "length (snd (take_word s)) < length s"
  using assms take_word_length [of "tl s"] by (cases s) (auto simp: split_def Let_def)

lemma trim_start_no_blank: "find_prefix white_space (trim_start s) = None"
  unfolding trim_start_def by (rule strip_all_done) (rule white_space_not_Nil)

function split_whitespace :: "string \<Rightarrow> string list" where
  "split_whitespace s = (case trim_start s of [] \<Rightarrow> []
     | c # cs \<Rightarrow> fst (take_word (c # cs)) # split_whitespace (snd (take_word (c # cs))))"
  by pat_completeness auto
termination
proof (relation "measure length")
  fix s c cs
  assume "trim_start s = c # cs"
  then show "(snd (take_word (c # cs)), s) \<in> measure length"
    using trim_start_no_blank [of s] take_word_shorter [of "c # cs"] length_strip_all [of white_space s]
    by (simp add: trim_start_def)
qed simp

declare split_whitespace.simps [simp del]

text \<open>\<open>lines().next().unwrap_or_default()\<close>\<close>

definition first_line :: "string \<Rightarrow> string" where
  "first_line s = (if CHR 0x0A \<notin> set s then s
     else (let l = takeWhile (\<lambda>c. c \<noteq> CHR 0x0A) s in if l \<noteq> [] \<and> last l = CHR 0x0D then butlast l else l))"

subsection \<open>The protocol\<close>

definition METRICS_PATH :: string where "METRICS_PATH = ''/metrics''"
definition MAX_HEAD_BYTES :: nat where "MAX_HEAD_BYTES = 8 * 1024"
definition READ_BUFFER :: nat where "READ_BUFFER = 1024"

datatype answer = A_Metrics | A_NotFound | A_MethodNotAllowed | A_BadRequest

definition classify :: "string \<Rightarrow> answer" where
  "classify request_line = (case split_whitespace request_line of
      http_method # target # _ \<Rightarrow>
        if hd (split_on (CHR ''?'') target) \<noteq> METRICS_PATH then A_NotFound
        else if http_method = ''GET'' then A_Metrics else A_MethodNotAllowed
    | _ \<Rightarrow> A_BadRequest)"

abbreviation CRLF :: string where "CRLF \<equiv> [CHR 0x0D, CHR 0x0A]"

definition http_response :: "string \<Rightarrow> string \<Rightarrow> string \<Rightarrow> string" where
  "http_response status headers body =
     ''HTTP/1.1 '' @ status @ CRLF @ headers @ ''Content-Length: '' @ nat_str (length body) @ CRLF
       @ ''Connection: close'' @ CRLF @ CRLF @ body"

datatype read_event = Got bytes \<comment> \<open>empty at the end of the stream\<close> | Read_Failed

text \<open>The head, once it is complete; no head when the peer hangs up, sends too much or falls silent.\<close>

fun read_head :: "bytes \<Rightarrow> read_event list \<Rightarrow> bytes option" where
  "read_head head [] = None"
| "read_head head (Read_Failed # evs) = None"
| "read_head head (Got chunk # evs) =
     (if chunk = [] then None
      else let head = head @ chunk
           in if contains (CRLF @ CRLF) head then Some head
              else if MAX_HEAD_BYTES < length head then None
              else read_head head evs)"

text \<open>\<open>body\<close> is the exposition and \<open>content_type\<close> the constant of the \<open>prometheus\<close> crate.\<close>

definition answer_text :: "string \<Rightarrow> string \<Rightarrow> answer \<Rightarrow> string" where
  "answer_text content_type body a = (case a of
      A_Metrics \<Rightarrow> http_response ''200 OK'' (''Content-Type: '' @ content_type @ CRLF) body
    | A_NotFound \<Rightarrow> http_response ''404 Not Found'' [] ''not found\<newline>''
    | A_MethodNotAllowed \<Rightarrow> http_response ''405 Method Not Allowed'' (''Allow: GET'' @ CRLF) []
    | A_BadRequest \<Rightarrow> http_response ''400 Bad Request'' [] [])"

definition handle_connection :: "string \<Rightarrow> string \<Rightarrow> read_event list \<Rightarrow> string option" where
  "handle_connection content_type body evs =
     map_option (\<lambda>head. answer_text content_type body (classify (first_line (from_utf8_lossy head)))) (read_head [] evs)"

end
