(* ===== verification/Storage_Statistics_Props.thy ===== *)
theory Storage_Statistics_Props imports Storage_Statistics begin

text \<open>
  What the aggregate queries count: the detection range puts each position into one sector, the one the
  reference of \<open>geo.rs\<close> gives; a histogram and the heat map count each row of the window once; and
  where the histograms of flights and of positions, or the heat map and its window, disagree.
\<close>

subsection \<open>Groups and joins\<close>

lemma counts_partition:
  "distinct ks \<Longrightarrow> key ` set rows \<subseteq> set ks \<Longrightarrow> sum_list (map (\<lambda>k. length (filter (\<lambda>r. key r = k) rows)) ks) = length rows"
proof (induction rows)
  case (Cons r rows)
  have "sum_list (map (\<lambda>k. length (filter (\<lambda>q. key q = k) (r # rows))) ks)
      = sum_list (map (\<lambda>k. (if key r = k then 1 else 0) + length (filter (\<lambda>q. key q = k) rows)) ks)"
    by (intro arg_cong [where f = sum_list] map_cong) auto
  also have "\<dots> = sum_list (map (\<lambda>k. if key r = k then 1 else 0) ks) + length rows"
    using Cons by (simp add: sum_list_addf)
  also have "sum_list (map (\<lambda>k. if key r = k then 1 else 0) ks) = (1::nat)"
    using Cons.prems by (simp add: sum_list_distinct_conv_sum_set sum.delta)
  finally show ?case by simp
qed simp

lemma grouped_strict: "sorted_wrt (<) (map fst (grouped key rows))"
  by (simp add: grouped_def comp_def strict_sorted_iff)

lemma grouped_total: "sum_list (map (\<lambda>x. length (snd x)) (grouped key rows)) = length rows"
  using counts_partition [of "sort (remdups (map key rows))" key rows] by (simp add: grouped_def comp_def)

lemma filter_distinct_eq: "distinct xs \<Longrightarrow> filter (\<lambda>x. x = k) xs = (if k \<in> set xs then [k] else [])"
  by (induction xs) auto

lemma grouped_filter:
  "filter (\<lambda>x. fst x = k) (grouped key rows)
     = (if k \<in> key ` set rows then [(k, filter (\<lambda>r. key r = k) rows)] else [])"
  by (simp add: grouped_def filter_map comp_def filter_distinct_eq)

lemma map_of_grouped:
  "map_of (map (\<lambda>(k, rs). (k, f rs)) (grouped key rows)) k
     = (if k \<in> key ` set rows then Some (f (filter (\<lambda>r. key r = k) rows)) else None)"
proof -
  have "map (\<lambda>(k, rs). (k, f rs)) (grouped key rows)
      = map (\<lambda>k. (k, f (filter (\<lambda>r. key r = k) rows))) (sort (remdups (map key rows)))"
    by (simp add: grouped_def comp_def)
  then show ?thesis by (simp add: map_of_map_restrict restrict_map_def)
qed

lemma keys_grouped: "map fst (map (\<lambda>(k, rs). (k, f rs)) (grouped key rows)) = sort (remdups (map key rows))"
  by (simp add: grouped_def comp_def)

lemma full_join_keys:
  "distinct (map fst xs) \<Longrightarrow> distinct (map fst ys) \<Longrightarrow>
   distinct (map fst (full_join xs ys)) \<and> fst ` set (full_join xs ys) = fst ` set xs \<union> fst ` set ys"
proof -
  assume d: "distinct (map fst xs)" "distinct (map fst ys)"
  have keys: "map fst (full_join xs ys) = map fst xs @ filter (\<lambda>k. map_of xs k = None) (map fst ys)"
    by (simp add: full_join_def comp_def split_def filter_map)
  then have "distinct (map fst (full_join xs ys))" using d by (auto simp: map_of_eq_None_iff)
  moreover have "fst ` set (full_join xs ys) = fst ` set xs \<union> fst ` set ys"
    using arg_cong [OF keys, of set] by (auto simp: map_of_eq_None_iff)
  ultimately show ?thesis by blast
qed

lemma full_join_values:
  "distinct (map fst xs) \<Longrightarrow> distinct (map fst ys) \<Longrightarrow> (k, a, b) \<in> set (full_join xs ys)
     \<Longrightarrow> a = map_of xs k \<and> b = map_of ys k"
  by (auto simp: full_join_def)

subsection \<open>Detection range\<close>

lemma fill_sectors_nth:
  assumes "i < 36"
  shows "length (fill_sectors rows) = 36
       \<and> fill_sectors rows ! i = fold merge_sector (filter (\<lambda>w. sw_sector w = int i) rows) (empty_sector i)"
proof -
  let ?f = "\<lambda>w sectors. if 0 \<le> sw_sector w \<and> sw_sector w < 36
       then sectors[nat (sw_sector w) := merge_sector w (sectors ! nat (sw_sector w))] else sectors"
  have "length (fold ?f rows xs) = 36 \<and> fold ?f rows xs ! i = fold merge_sector (filter (\<lambda>w. sw_sector w = int i) rows) (xs ! i)"
    if "length xs = 36" for xs
    using that
  proof (induction rows arbitrary: xs)
    case (Cons w rows)
    have len: "length (?f w xs) = 36" using Cons.prems by simp
    have "?f w xs ! i = (if sw_sector w = int i then merge_sector w (xs ! i) else xs ! i)"
      using assms Cons.prems by (auto simp: nth_list_update)
    with Cons.IH [OF len] show ?case by simp
  qed simp
  from this [of "map empty_sector [0..<36]"] assms show ?thesis by (simp add: fill_sectors_def)
qed

lemma sql_sector_range: "-180 \<le> b \<Longrightarrow> b \<le> 180 \<Longrightarrow> 0 \<le> sql_sector b \<and> sql_sector b < 36"
proof -
  have "0 \<le> n mod 360 div 10 \<and> n mod 360 div 10 < 36" for n :: int by presburger
  then show ?thesis by (simp only: sql_sector_def)
qed

text \<open>The sectors of the query are those of the reference in \<open>geo.rs\<close>, which numbers bearings from 0 to
  360: sector \<open>i\<close> holds the bearings from five degrees below \<open>10 * i\<close> to five degrees above.\<close>

theorem sectors_match_reference:
  assumes "-180 \<le> b" and "b \<le> 180"
  shows "sql_sector b = int (bearing_to_sector (if b < 0 then b + 360 else b))
       \<and> (\<exists>turn \<in> {0, 360}. 10 * real_of_int (sql_sector b) - 5 \<le> b + turn \<and> b + turn < 10 * real_of_int (sql_sector b) + 5)"
proof -
  let ?z = "\<lfloor>b + 365\<rfloor>"
  have decade: "10 * (n div 10) \<le> n" "n < 10 * (n div 10) + 10" for n :: int by presburger+
  show ?thesis
  proof (cases "b < -5")
    case True
    then have "?z < 360" "185 \<le> ?z" using assms by linarith+
    then have s: "sql_sector b = ?z div 10" by (simp add: sql_sector_def)
    moreover have "\<lfloor>b + 360 + 5\<rfloor> = ?z" by (simp add: add.commute add.left_commute)
    then have "int (bearing_to_sector (b + 360)) = ?z div 10"
      using True \<open>185 \<le> ?z\<close> by (simp add: bearing_to_sector_def zdiv_int)
    moreover have "10 * real_of_int (?z div 10) - 5 \<le> b + 360" "b + 360 < 10 * real_of_int (?z div 10) + 5"
      using decade [of ?z] by linarith+
    ultimately show ?thesis using True by auto
  next
    case False
    then have "360 \<le> ?z" "?z < 720" using assms by linarith+
    have "n mod 360 = n - 360" if "360 \<le> n" "n < 720" for n :: int using that by presburger
    from this [OF \<open>360 \<le> ?z\<close> \<open>?z < 720\<close>] have s: "sql_sector b = (?z - 360) div 10" by (simp only: sql_sector_def)
    moreover have "\<lfloor>b + 5\<rfloor> = ?z - 360" "\<lfloor>b + 360 + 5 - 360\<rfloor> = ?z - 360" by linarith+
    then have "int (bearing_to_sector (if b < 0 then b + 360 else b)) = (?z - 360) div 10"
      using False assms \<open>360 \<le> ?z\<close> by (auto simp: bearing_to_sector_def zdiv_int)
    moreover have "10 * real_of_int ((?z - 360) div 10) - 5 \<le> b" "b < 10 * real_of_int ((?z - 360) div 10) + 5"
      using decade [of "?z - 360"] by linarith+
    ultimately show ?thesis by auto
  qed
qed

theorem sectors_match_reference_witness: "sql_sector (-6) = int (bearing_to_sector 354) \<and> sql_sector 90 = 9"
  using sectors_match_reference [of "-6"] by (simp add: sql_sector_def)

definition detected :: "detection_query \<Rightarrow> storage \<Rightarrow> position_row list" where
  "detected q st = filter (\<lambda>r. located r \<and> (case dq_start_ms q of Some s \<Rightarrow> s | None \<Rightarrow> 0) \<le> pr_ts r
     \<and> pr_ts r \<le> (case dq_end_ms q of Some e \<Rightarrow> e | None \<Rightarrow> I64_MAX)) (st_positions st)"

text \<open>Sector \<open>i\<close> is the bearings from five degrees below \<open>10 * i\<close> to five degrees above, up to a full turn.\<close>

definition in_sector :: "(position_row \<Rightarrow> real) \<Rightarrow> nat \<Rightarrow> position_row \<Rightarrow> bool" where
  "in_sector bearing i r \<longleftrightarrow>
     (\<exists>turn \<in> {0, 360}. 10 * real i - 5 \<le> bearing r + turn \<and> bearing r + turn < 10 * real i + 5)"

lemma in_sector_sql:
  assumes "-180 \<le> bearing r" "bearing r \<le> 180" "i < 36"
  shows "in_sector bearing i r \<longleftrightarrow> sql_sector (bearing r) = int i"
proof -
  let ?k = "sql_sector (bearing r)"
  obtain t where t: "t \<in> {0, 360}" "10 * real_of_int ?k - 5 \<le> bearing r + t" "bearing r + t < 10 * real_of_int ?k + 5"
    using sectors_match_reference [OF assms(1,2)] by blast
  have k: "0 \<le> ?k" "?k < 36" using sql_sector_range [OF assms(1,2)] by auto
  show ?thesis
  proof
    assume "in_sector bearing i r"
    then obtain u where u: "u \<in> {0, 360}" "10 * real i - 5 \<le> bearing r + u" "bearing r + u < 10 * real i + 5"
      by (auto simp: in_sector_def)
    have "real i \<le> 35" "real_of_int ?k \<le> 35" "0 \<le> real_of_int ?k" using assms(3) k by linarith+
    then have "u = t" using t u by auto
    then have "real_of_int ?k - real i < 1" "real i - real_of_int ?k < 1" using t(2,3) u(2,3) by linarith+
    then show "?k = int i" by linarith
  next
    assume "?k = int i"
    then show "in_sector bearing i r" using t by (auto simp: in_sector_def)
  qed
qed

subsubsection \<open>The aggregates of a sector\<close>

lemma sql_min_Min: "sql_min xs = (let known = {a. Some a \<in> set xs} in if known = {} then None else Some (Min known))"
proof (induction xs rule: rev_induct)
  case (snoc x xs)
  have fin: "finite {a. Some a \<in> set xs}" using finite_vimageI [OF finite_set, of Some xs] by (simp add: vimage_def)
  have "sql_min (xs @ [x]) = col_min (sql_min xs) x" by (simp add: sql_min_def)
  moreover have "{a. Some a \<in> set (xs @ [x])} = {a. Some a \<in> set xs} \<union> set_option x" by (cases x) auto
  ultimately show ?case using snoc fin by (cases x) (auto simp: Let_def col_min_def min.commute)
qed (simp add: sql_min_def)

lemma sql_max_Max: "sql_max xs = (let known = {a. Some a \<in> set xs} in if known = {} then None else Some (Max known))"
proof (induction xs rule: rev_induct)
  case (snoc x xs)
  have fin: "finite {a. Some a \<in> set xs}" using finite_vimageI [OF finite_set, of Some xs] by (simp add: vimage_def)
  have "sql_max (xs @ [x]) = col_max (sql_max xs) x" by (simp add: sql_max_def)
  moreover have "{a. Some a \<in> set (xs @ [x])} = {a. Some a \<in> set xs} \<union> set_option x" by (cases x) auto
  ultimately show ?case using snoc fin by (cases x) (auto simp: Let_def col_max_def max.commute)
qed (simp add: sql_max_def)

text \<open>The joined rows of some positions: which positions, how many, which flights.\<close>

lemma joined_set: "fst ` set (concat (map (with_flights st) rs)) = set rs"
proof -
  have "fst ` set (with_flights st r) = {r}" for r
    by (cases "filter (of_flight r) (st_flights st)") (auto simp: with_flights_def)
  then show ?thesis by (simp add: image_UN)
qed

lemma joined_length:
  "length (concat (map (with_flights st) rs)) = sum_list (map (\<lambda>r. max 1 (length (filter (of_flight r) (st_flights st)))) rs)"
proof -
  have "length (with_flights st r) = max 1 (length (filter (of_flight r) (st_flights st)))" for r
    by (cases "filter (of_flight r) (st_flights st)") (simp_all add: with_flights_def)
  then show ?thesis by (simp add: length_concat comp_def)
qed

lemma joined_flights:
  "set (List.map_filter snd (concat (map (with_flights st) rs))) = {fl_id f |f. f \<in> set (st_flights st) \<and> (\<exists>r \<in> set rs. of_flight r f)}"
proof -
  have "{i. Some i \<in> snd ` set (with_flights st r)} = fl_id ` {f \<in> set (st_flights st). of_flight r f}" for r
  proof (cases "filter (of_flight r) (st_flights st)")
    case Nil
    then have "{f \<in> set (st_flights st). of_flight r f} = {}" by (auto simp: filter_empty_conv)
    with Nil show ?thesis by (simp add: with_flights_def)
  next
    case (Cons f fs)
    then have "snd ` set (with_flights st r) = (\<lambda>f. Some (fl_id f)) ` set (filter (of_flight r) (st_flights st))"
      by (simp add: with_flights_def image_image)
    then show ?thesis by auto
  qed
  note one = this
  have "set (List.map_filter snd (concat (map (with_flights st) rs))) = (\<Union>r \<in> set rs. {i. Some i \<in> snd ` set (with_flights st r)})"
    by (auto simp: map_filter_def image_iff) force+
  then show ?thesis unfolding one by auto
qed

lemma joined_filter:
  "filter (\<lambda>x. p (fst x)) (concat (map (with_flights st) rs)) = concat (map (with_flights st) (filter p rs))"
proof -
  have "filter (\<lambda>x. p (fst x)) (with_flights st r) = (if p r then with_flights st r else [])" for r
    by (cases "filter (of_flight r) (st_flights st)") (auto simp: with_flights_def comp_def filter_map)
  then show ?thesis by (induction rs) simp_all
qed

text \<open>What one sector shows of the positions in it.\<close>

definition summarises ::
  "(position_row \<Rightarrow> f64) \<Rightarrow> storage \<Rightarrow> position_row list \<Rightarrow> detection_sector \<Rightarrow> bool" where
  "summarises distance st rs s \<longleftrightarrow>
     (let altitudes = {a. \<exists>r \<in> set rs. pr_altitude r = Some a} in
      se_max_distance_nm s = (if rs = [] then F_fin 0 else f64_max (F_fin 0) (Max (distance ` set rs)))
    \<and> se_min_altitude s = (if altitudes = {} then None else Some (Min altitudes))
    \<and> se_max_altitude s = (if altitudes = {} then None else Some (Max altitudes))
    \<and> se_flight_count s = card {fl_id f |f. f \<in> set (st_flights st) \<and> (\<exists>r \<in> set rs. of_flight r f)}
    \<and> se_position_count s = sum_list (map (\<lambda>r. max 1 (length (filter (of_flight r) (st_flights st)))) rs))"

lemma sector_rows_at:
  "filter (\<lambda>w. sw_sector w = k) (sector_rows bearing distance q st)
     = (let rs = filter (\<lambda>r. sql_sector (bearing r) = k) (detected q st); joined = concat (map (with_flights st) rs)
        in if rs = [] then []
           else [\<lparr>sw_sector = k, sw_max_distance = (case sql_max (map (\<lambda>(r, i). Some (distance r)) joined) of Some d \<Rightarrow> d | None \<Rightarrow> F_nan),
                  sw_count = length joined, sw_min_altitude = sql_min (map (\<lambda>(r, i). pr_altitude r) joined),
                  sw_max_altitude = sql_max (map (\<lambda>(r, i). pr_altitude r) joined),
                  sw_flights = count_distinct (List.map_filter snd joined)\<rparr>])"
proof -
  let ?rows = "concat (map (with_flights st) (detected q st))" and ?key = "\<lambda>x. sql_sector (bearing (fst x))"
  let ?rs = "filter (\<lambda>r. sql_sector (bearing r) = k) (detected q st)"
  have hit: "k \<in> ?key ` set ?rows \<longleftrightarrow> ?rs \<noteq> []"
  proof -
    have "?key ` set ?rows = (\<lambda>r. sql_sector (bearing r)) ` set (detected q st)"
      unfolding joined_set [of st "detected q st", symmetric] image_image ..
    then show ?thesis by (auto simp: filter_empty_conv)
  qed
  have "filter (\<lambda>x. fst x = k) (grouped ?key ?rows)
      = (if ?rs = [] then [] else [(k, concat (map (with_flights st) ?rs))])"
    by (simp only: grouped_filter hit joined_filter [of "\<lambda>r. sql_sector (bearing r) = k"]) simp
  then show ?thesis
    by (simp add: sector_rows_def detected_def Let_def filter_map comp_def split_def)
qed

lemma sector_summarised:
  assumes "i < 36"
  shows "summarises distance st (filter (\<lambda>r. sql_sector (bearing r) = int i) (detected q st)) (get_detection_range bearing distance q st ! i)
       \<and> se_bearing_deg (get_detection_range bearing distance q st ! i) = i * 10"
proof -
  let ?rs = "filter (\<lambda>r. sql_sector (bearing r) = int i) (detected q st)"
  let ?joined = "concat (map (with_flights st) ?rs)"
  have sector: "get_detection_range bearing distance q st ! i
      = fold merge_sector (filter (\<lambda>w. sw_sector w = int i) (sector_rows bearing distance q st)) (empty_sector i)"
    using fill_sectors_nth [OF assms] by (simp add: get_detection_range_def)
  show ?thesis
  proof (cases "?rs = []")
    case True
    then show ?thesis unfolding sector sector_rows_at by (simp add: summarises_def empty_sector_def Let_def)
  next
    case False
    have map_fst: "{a. Some a \<in> set (map (\<lambda>(r, i). h r) ?joined)} = {a. \<exists>r \<in> set ?rs. h r = Some a}"
      for h :: "position_row \<Rightarrow> f64 option"
    proof -
      have "set (map (\<lambda>(r, i). h r) ?joined) = h ` set ?rs"
        unfolding joined_set [of st ?rs, symmetric] by (auto simp: split_def image_image)
      then show ?thesis by (auto simp: image_iff)
    qed
    have "{a. \<exists>r \<in> set ?rs. Some (distance r) = Some a} = distance ` set ?rs" by auto
    then have far: "sql_max (map (\<lambda>(r, i). Some (distance r)) ?joined) = Some (Max (distance ` set ?rs))"
      using False unfolding sql_max_Max map_fst [of "\<lambda>r. Some (distance r)"] by (simp only: Let_def) (simp only: image_is_empty set_empty if_False)
    have "count_distinct (List.map_filter snd ?joined) = card {fl_id f |f. f \<in> set (st_flights st) \<and> (\<exists>r \<in> set ?rs. of_flight r f)}"
      unfolding joined_flights [symmetric] by (simp add: count_distinct_def length_remdups_card_conv)
    moreover have "length ?joined = sum_list (map (\<lambda>r. max 1 (length (filter (of_flight r) (st_flights st)))) ?rs)"
      by (rule joined_length)
    moreover note sql_min_Min [of "map (\<lambda>(r, i). pr_altitude r) ?joined", unfolded map_fst]
      sql_max_Max [of "map (\<lambda>(r, i). pr_altitude r) ?joined", unfolded map_fst]
    moreover have "merge_bound h None x = x" for h x by (cases x) (simp_all add: merge_bound_def)
    ultimately show ?thesis using False far unfolding sector sector_rows_at
      by (simp add: summarises_def merge_sector_def empty_sector_def Let_def del: map_concat filter_empty_conv)
  qed
qed

text \<open>C39: The detection range has 36 sectors, and sector \<open>i\<close> summarises the located positions of the window
  whose bearing is within five degrees of \<open>10 * i\<close>: their greatest distance, their least and greatest
  altitude, how many flights they belong to and how many they are. A position that lies in several
  flights is counted once for each; where no position does, every position is counted exactly once.\<close>

theorem detection_range_counts_once:
  assumes bearing: "\<forall>r \<in> set (detected q st). -180 \<le> bearing r \<and> bearing r \<le> 180"
  shows "let ss = get_detection_range bearing distance q st; inside = (\<lambda>i. filter (in_sector bearing i) (detected q st)) in
      length ss = 36
    \<and> (\<forall>i<36. se_bearing_deg (ss ! i) = i * 10 \<and> summarises distance st (inside i) (ss ! i))
    \<and> ((\<forall>r \<in> set (detected q st). length (filter (of_flight r) (st_flights st)) \<le> 1) \<longrightarrow>
         map se_position_count ss = map (\<lambda>i. length (inside i)) [0..<36]
       \<and> sum_list (map se_position_count ss) = length (detected q st))"
proof -
  let ?ss = "get_detection_range bearing distance q st" and ?inside = "\<lambda>i. filter (in_sector bearing i) (detected q st)"
  have len: "length ?ss = 36" using fill_sectors_nth [of 0] by (simp add: get_detection_range_def)
  have same: "?inside i = filter (\<lambda>r. sql_sector (bearing r) = int i) (detected q st)" if "i < 36" for i
    by (rule filter_cong) (use bearing in_sector_sql that in auto)
  have each: "se_bearing_deg (?ss ! i) = i * 10 \<and> summarises distance st (?inside i) (?ss ! i)" if "i < 36" for i
    unfolding same [OF that] using sector_summarised [OF that] by blast
  have "map se_position_count ?ss = map (\<lambda>i. length (?inside i)) [0..<36]
       \<and> sum_list (map se_position_count ?ss) = length (detected q st)"
    if flights: "\<forall>r \<in> set (detected q st). length (filter (of_flight r) (st_flights st)) \<le> 1"
  proof -
    have "se_position_count (?ss ! i) = length (?inside i)" if "i < 36" for i
    proof -
      have "map (\<lambda>r. max 1 (length (filter (of_flight r) (st_flights st)))) (?inside i) = map (\<lambda>_. 1) (?inside i)"
        using flights by (intro map_cong) auto
      then show ?thesis using each [OF that] by (simp only: summarises_def Let_def sum_list_triv) simp
    qed
    then have counts: "map se_position_count ?ss = map (\<lambda>i. length (?inside i)) [0..<36]"
      by (intro nth_equalityI) (use len in auto)
    have range: "0 \<le> sql_sector (bearing r) \<and> sql_sector (bearing r) < 36" if "r \<in> set (detected q st)" for r
      using bearing that sql_sector_range by blast
    have "?inside i = filter (\<lambda>r. nat (sql_sector (bearing r)) = i) (detected q st)" if "i < 36" for i
      unfolding same [OF that] by (rule filter_cong) (use range in auto)
    then have "map (\<lambda>i. length (?inside i)) [0..<36]
        = map (\<lambda>i. length (filter (\<lambda>r. nat (sql_sector (bearing r)) = i) (detected q st))) [0..<36]"
      by (intro map_cong refl) (simp only: set_upt atLeastLessThan_iff)
    moreover have "(\<lambda>r. nat (sql_sector (bearing r))) ` set (detected q st) \<subseteq> set [0..<36]" using range by fastforce
    note counts_partition [OF distinct_upt this]
    ultimately have "sum_list (map se_position_count ?ss) = length (detected q st)" by (simp only: counts)
    with counts show ?thesis by blast
  qed
  with len each show ?thesis unfolding Let_def by blast
qed

definition east_position :: position_row where
  "east_position = position_row_of ''pi'' (located_position ''A1'', 5)"

theorem detection_range_counts_once_witness:
  "let ss = get_detection_range (\<lambda>_. 90) (\<lambda>_. F_fin 12)
     \<lparr>dq_receiver_lat = F_fin 45, dq_receiver_lon = F_fin 70, dq_start_ms = None, dq_end_ms = None\<rparr>
     ((storage_empty ''pi'' 100)\<lparr>st_positions := [east_position]\<rparr>)
   in sum_list (map se_position_count ss) = 1 \<and> se_max_distance_nm (ss ! 9) = F_fin 12 \<and> se_max_distance_nm (ss ! 10) = F_fin 0"
proof -
  let ?q = "\<lparr>dq_receiver_lat = F_fin 45, dq_receiver_lon = F_fin 70, dq_start_ms = None, dq_end_ms = None\<rparr>"
  let ?st = "(storage_empty ''pi'' 100)\<lparr>st_positions := [east_position]\<rparr>"
  let ?ss = "get_detection_range (\<lambda>_. 90) (\<lambda>_. F_fin 12) ?q ?st"
  have one: "detected ?q ?st = [east_position]"
    by (simp add: detected_def storage_empty_def east_position_def position_row_of_def located_def located_position_def)
  have none: "st_flights ?st = []" by (simp add: storage_empty_def)
  have "\<forall>r \<in> set (detected ?q ?st). -180 \<le> (90 :: real) \<and> (90 :: real) \<le> 180" by simp
  note range = detection_range_counts_once [OF this, of "\<lambda>_. F_fin 12", unfolded Let_def]
  have "\<forall>r \<in> set (detected ?q ?st). length (filter (of_flight r) (st_flights ?st)) \<le> 1" by (simp add: none)
  then have "sum_list (map se_position_count ?ss) = length (detected ?q ?st)" using range by blast
  then have "sum_list (map se_position_count ?ss) = 1" unfolding one by simp
  moreover have "summarises (\<lambda>_. F_fin 12) ?st (filter (in_sector (\<lambda>_. 90) i) [east_position]) (?ss ! i)" if "i < 36" for i
    using range that unfolding one by blast
  from this [of 9] this [of 10] have "se_max_distance_nm (?ss ! 9) = f64_max (F_fin 0) (F_fin 12) \<and> se_max_distance_nm (?ss ! 10) = F_fin 0"
    by (simp add: summarises_def in_sector_def Let_def)
  ultimately show ?thesis by (simp add: Let_def f64_max_def)
qed

subsection \<open>Time histogram\<close>

definition proper_range :: "time_distribution_query \<Rightarrow> bool" where
  "proper_range q \<longleftrightarrow> td_num_buckets q \<noteq> 0 \<and> td_start_ms q < td_end_ms q \<and> 0 < bucket_width q"

definition td_inside :: "time_distribution_query \<Rightarrow> int \<Rightarrow> bool" where
  "td_inside q ts \<longleftrightarrow> td_start_ms q \<le> ts \<and> ts \<le> td_end_ms q"

lemma proper_range_not_empty:
  "proper_range q \<Longrightarrow> \<not> (td_num_buckets q = 0 \<or> td_end_ms q - td_start_ms q \<le> 0 \<or> bucket_width q = 0)"
  by (auto simp: proper_range_def)

lemma buckets_ascending: "sorted_wrt (<) (map tb_ms (buckets_of agg label rows))"
  using grouped_strict [of label rows] by (simp add: buckets_of_def comp_def split_def)

lemma buckets_total: "sum_list (map tb_count (buckets_of length label rows)) = length rows"
  using grouped_total [of label rows] by (simp add: buckets_of_def comp_def split_def)

lemma bucket_rows:
  "b \<in> set (buckets_of agg label rows) \<Longrightarrow>
     tb_count b = agg (filter (\<lambda>r. label r = tb_ms b) rows) \<and> filter (\<lambda>r. label r = tb_ms b) rows \<noteq> []"
  by (auto simp: buckets_of_def grouped_def filter_empty_conv)

lemma buckets_labels: "tb_ms ` set (buckets_of agg label rows) = label ` set rows"
  by (force simp: buckets_of_def grouped_def)

lemma count_distinct_card: "count_distinct xs = card (set xs)"
  by (simp add: count_distinct_def length_remdups_card_conv)

lemma distribution_cases:
  assumes "proper_range q"
  shows "get_time_distribution cast_div q st = (case td_metric q of
      TD_Positions \<Rightarrow> buckets_of length (\<lambda>r. cast_div (pr_ts r) (bucket_width q) * bucket_width q) (filter (\<lambda>r. td_inside q (pr_ts r)) (st_positions st))
    | TD_Aircraft \<Rightarrow> buckets_of (\<lambda>rs. count_distinct (map pr_hex rs)) (\<lambda>r. cast_div (pr_ts r) (bucket_width q) * bucket_width q)
        (filter (\<lambda>r. td_inside q (pr_ts r)) (st_positions st))
    | TD_RawMessages \<Rightarrow> buckets_of length (\<lambda>r. cast_div (rr_ts r) (bucket_width q) * bucket_width q) (filter (\<lambda>r. td_inside q (rr_ts r)) (st_raw st))
    | TD_Flights \<Rightarrow> buckets_of length (\<lambda>b. b) (filter (td_inside q) (concat (map (flight_buckets (bucket_width q))
        (filter (\<lambda>f. td_start_ms q \<le> fl_last f \<and> fl_first f \<le> td_end_ms q) (st_flights st))))))"
  unfolding get_time_distribution_def if_not_P [OF proper_range_not_empty [OF assms]]
  by (cases "td_metric q") (simp_all add: Let_def td_inside_def [abs_def])

text \<open>A histogram is in ascending order, without empty buckets, and counts everything: the counts add up
  to the positions, or the raw messages, of the range, each in one bucket, however the database rounds
  the quotient; and a bucket of the aircraft histogram counts the aircraft seen in it.\<close>

theorem histogram_counts_everything:
  assumes "proper_range q"
  shows "let bs = get_time_distribution cast_div q st; w = bucket_width q in
      sorted_wrt (<) (map tb_ms bs) \<and> (\<forall>b \<in> set bs. 0 < tb_count b)
    \<and> (td_metric q = TD_Positions \<longrightarrow>
         sum_list (map tb_count bs) = length (filter (\<lambda>r. td_inside q (pr_ts r)) (st_positions st)))
    \<and> (td_metric q = TD_RawMessages \<longrightarrow>
         sum_list (map tb_count bs) = length (filter (\<lambda>r. td_inside q (rr_ts r)) (st_raw st)))
    \<and> (td_metric q = TD_Aircraft \<longrightarrow> (\<forall>b \<in> set bs. tb_count b
         = card {pr_hex r |r. r \<in> set (st_positions st) \<and> td_inside q (pr_ts r) \<and> cast_div (pr_ts r) w * w = tb_ms b}))"
  unfolding Let_def distribution_cases [OF assms]
  by (cases "td_metric q")
     (auto simp: buckets_ascending buckets_total count_distinct_card card_gt_0_iff filter_empty_conv dest!: bucket_rows intro!: arg_cong [where f = card])

text \<open>What a query of one minute in four buckets gives, with a database that rounds halves to even.\<close>

definition one_minute :: "distribution_metric \<Rightarrow> time_distribution_query" where
  "one_minute m = \<lparr>td_start_ms = 0, td_end_ms = 60000, td_num_buckets = 4, td_metric = m\<rparr>"

definition round_div :: "int \<Rightarrow> int \<Rightarrow> int" where
  "round_div a b = round_half_even (of_int a / of_int b)"

definition at_ms :: "int \<Rightarrow> position_row" where
  "at_ms ts = position_row_of ''pi'' (located_position ''A1'', ts)"

lemma one_minute_proper: "proper_range (one_minute m)" "bucket_width (one_minute m) = 15000"
  by (simp_all add: proper_range_def one_minute_def bucket_width_def)

theorem histogram_counts_everything_witness:
  "sum_list (map tb_count (get_time_distribution round_div (one_minute TD_Positions)
     ((storage_empty ''pi'' 100)\<lparr>st_positions := [at_ms 9000, at_ms 1000, at_ms 60001]\<rparr>))) = 2"
  using histogram_counts_everything [OF one_minute_proper(1) [of TD_Positions], of round_div
      "(storage_empty ''pi'' 100)\<lparr>st_positions := [at_ms 9000, at_ms 1000, at_ms 60001]\<rparr>"]
  by (simp add: Let_def one_minute_def td_inside_def at_ms_def position_row_of_def)

subsubsection \<open>Flights\<close>

lemma series_set: "0 < w \<Longrightarrow> x \<in> set (series a b w) \<longleftrightarrow> a \<le> x \<and> x \<le> b \<and> w dvd (x - a)"
proof (induction a b w rule: series.induct)
  case (1 a b w)
  show ?case
  proof (cases "b < a")
    case True
    then show ?thesis by (subst series.simps) auto
  next
    case False
    have up: "w dvd x - (a + w) \<longleftrightarrow> w dvd x - a" using zdvd_reduce [of w "x - a" "-1"] by (simp add: diff_diff_eq)
    have "x = a \<or> a + w \<le> x \<longleftrightarrow> a \<le> x" if "w dvd x - a"
      using that zdvd_imp_le [of w "x - a"] \<open>0 < w\<close> by force
    with 1 False up show ?thesis by (subst series.simps) auto
  qed
qed

lemma series_distinct: "distinct (series a b w)"
proof (induction a b w rule: series.induct)
  case (1 a b w)
  have "a \<notin> set (series (a + w) b w)" if "0 < w" using series_set [OF that, of a "a + w" b] that by simp
  with 1 show ?case by (subst series.simps) auto
qed

lemma flight_buckets_set:
  assumes "0 < w"
  shows "b \<in> set (flight_buckets w f) \<longleftrightarrow> w dvd b \<and> b \<le> fl_last f \<and> fl_first f < b + w"
proof -
  have down: "x div w * w \<le> x" "x < x div w * w + w" for x
    using assms by (simp_all add: minus_mod_eq_div_mult [symmetric])
  have "w dvd b - fl_first f div w * w \<longleftrightarrow> w dvd b" by (simp add: dvd_diff_left_iff)
  moreover have "fl_first f div w * w \<le> b \<longleftrightarrow> fl_first f < b + w" "b \<le> fl_last f div w * w \<longleftrightarrow> b \<le> fl_last f" if "w dvd b"
  proof -
    from that obtain k where b: "b = k * w" by (metis dvdE mult.commute)
    have less: "i * w < j * w \<longleftrightarrow> i < j" for i j using assms by simp
    show "fl_first f div w * w \<le> b \<longleftrightarrow> fl_first f < b + w"
    proof
      assume "fl_first f < b + w"
      then have "fl_first f div w * w < (k + 1) * w" using down(1) [of "fl_first f"] b by (simp add: distrib_right)
      then show "fl_first f div w * w \<le> b" using assms by (simp add: b)
    qed (use down(2) [of "fl_first f"] in linarith)
    show "b \<le> fl_last f div w * w \<longleftrightarrow> b \<le> fl_last f"
    proof
      assume "b \<le> fl_last f"
      then have "k * w < (fl_last f div w + 1) * w" using down(2) [of "fl_last f"] b by (simp add: distrib_right)
      then show "b \<le> fl_last f div w * w" using assms by (simp add: b)
    qed (use down(1) [of "fl_last f"] in linarith)
  qed
  ultimately show ?thesis unfolding flight_buckets_def series_set [OF assms] by auto
qed

lemma count_flight_buckets:
  assumes "0 < w"
  shows "length (filter (\<lambda>x. x = b) (concat (map (flight_buckets w) fs)))
       = length (filter (\<lambda>f. w dvd b \<and> b \<le> fl_last f \<and> fl_first f < b + w) fs)"
proof (induction fs)
  case (Cons f fs)
  have "distinct (flight_buckets w f)" by (simp add: flight_buckets_def series_distinct)
  then have "length (filter (\<lambda>x. x = b) (flight_buckets w f)) = (if b \<in> set (flight_buckets w f) then 1 else 0)"
    by (simp add: filter_distinct_eq)
  with Cons flight_buckets_set [OF assms, of b f] show ?case by simp
qed simp

definition overlaps :: "int \<Rightarrow> int \<Rightarrow> flight \<Rightarrow> bool" where
  "overlaps from_ms to_ms f \<longleftrightarrow> from_ms \<le> fl_last f \<and> fl_first f \<le> to_ms"

text \<open>The histogram of flights counts in each bucket the flights of the range that were in the air during
  the bucket, from its label for one width, and its labels are the multiples of the width in the range
  at which there is such a flight.\<close>

theorem flight_histogram_exact:
  assumes "proper_range q" and "td_metric q = TD_Flights"
  shows "let bs = get_time_distribution cast_div q st; w = bucket_width q;
             fs = filter (overlaps (td_start_ms q) (td_end_ms q)) (st_flights st) in
      (\<forall>b \<in> set bs. tb_count b = length (filter (overlaps (tb_ms b) (tb_ms b + w - 1)) fs))
    \<and> tb_ms ` set bs = {ms. w dvd ms \<and> td_inside q ms \<and> (\<exists>f \<in> set fs. overlaps ms (ms + w - 1) f)}"
proof -
  let ?w = "bucket_width q" and ?fs = "filter (overlaps (td_start_ms q) (td_end_ms q)) (st_flights st)"
  let ?rows = "filter (td_inside q) (concat (map (flight_buckets ?w) ?fs))"
  have w: "0 < ?w" using assms(1) by (simp add: proper_range_def)
  have bs: "get_time_distribution cast_div q st = buckets_of length (\<lambda>b. b) ?rows"
    using distribution_cases [OF assms(1)] assms(2) by (simp add: overlaps_def [abs_def])
  have rows: "b \<in> set ?rows \<longleftrightarrow> ?w dvd b \<and> td_inside q b \<and> (\<exists>f \<in> set ?fs. overlaps b (b + ?w - 1) f)" for b
    using flight_buckets_set [OF w] by (auto simp: overlaps_def)
  have "tb_count b = length (filter (overlaps (tb_ms b) (tb_ms b + ?w - 1)) ?fs)"
    if "b \<in> set (buckets_of length (\<lambda>b. b) ?rows)" for b
  proof -
    have "tb_ms b \<in> set ?rows" using buckets_labels [of length "\<lambda>b. b" ?rows] that by auto
    then have "?w dvd tb_ms b" "td_inside q (tb_ms b)" using rows by auto
    then have "filter (\<lambda>x. x = tb_ms b) ?rows = filter (\<lambda>x. x = tb_ms b) (concat (map (flight_buckets ?w) ?fs))"
      unfolding filter_filter by (intro filter_cong) auto
    then have "tb_count b = length (filter (\<lambda>x. x = tb_ms b) (concat (map (flight_buckets ?w) ?fs)))"
      using bucket_rows [OF that] by (simp only:)
    also have "\<dots> = length (filter (overlaps (tb_ms b) (tb_ms b + ?w - 1)) ?fs)"
      unfolding count_flight_buckets [OF w] using \<open>?w dvd tb_ms b\<close>
      by (intro arg_cong [where f = length] filter_cong) (auto simp: overlaps_def)
    finally show ?thesis .
  qed
  moreover have "tb_ms ` set (buckets_of length (\<lambda>b. b) ?rows) = {ms. ?w dvd ms \<and> td_inside q ms \<and> (\<exists>f \<in> set ?fs. overlaps ms (ms + ?w - 1) f)}"
    unfolding buckets_labels image_ident using rows by blast
  ultimately show ?thesis unfolding bs Let_def by blast
qed

definition flight_at :: "int \<Rightarrow> int \<Rightarrow> flight" where
  "flight_at a b = \<lparr>fl_id = ''A1_1'', fl_hex = ''A1'', fl_num = 1, fl_callsign = None, fl_count = 2,
     fl_first = a, fl_last = b, fl_min = None, fl_max = None\<rparr>"

theorem flight_histogram_exact_witness:
  "tb_ms ` set (get_time_distribution round_div (one_minute TD_Flights) ((storage_empty ''pi'' 100)\<lparr>st_flights := [flight_at 9000 31000]\<rparr>))
     = {ms. 15000 dvd ms \<and> 0 \<le> ms \<and> ms \<le> 60000 \<and> ms \<le> 31000 \<and> 9000 < ms + 15000}"
  using flight_histogram_exact [OF one_minute_proper(1) [of TD_Flights], of round_div
      "(storage_empty ''pi'' 100)\<lparr>st_flights := [flight_at 9000 31000]\<rparr>"]
  by (auto simp: Let_def one_minute_proper td_inside_def overlaps_def) (auto simp: one_minute_def td_inside_def flight_at_def overlaps_def)

text \<open>The histograms of positions and of flights do not line up. The query of the positions divides with
  \<open>/\<close> and casts, and a database that rounds to the nearest integer labels a position in the second half
  of a bucket with the next one: such a position is counted under a label after it, one width later
  than the bucket that the histogram of the flights counts its flight in.\<close>

theorem positions_counted_in_next_bucket:
  assumes "proper_range q" and "td_metric q = TD_Positions"
    and nearest: "\<forall>a. 2 * \<bar>a - cast_div a (bucket_width q) * bucket_width q\<bar> \<le> bucket_width q"
    and r: "r \<in> set (st_positions st)" "td_inside q (pr_ts r)" "bucket_width q < 2 * (pr_ts r mod bucket_width q)"
  shows "\<exists>b \<in> set (get_time_distribution cast_div q st).
      tb_ms b = pr_ts r div bucket_width q * bucket_width q + bucket_width q
    \<and> tb_ms b = cast_div (pr_ts r) (bucket_width q) * bucket_width q \<and> pr_ts r < tb_ms b"
proof -
  let ?w = "bucket_width q" and ?c = "cast_div (pr_ts r) (bucket_width q)"
  have w: "0 < ?w" using assms(1) by (simp add: proper_range_def)
  obtain d m where dm: "d = pr_ts r div ?w" "m = pr_ts r mod ?w" by blast
  then have split: "pr_ts r = d * ?w + m" and mod: "m < ?w" "?w < 2 * m" using w r(3) by simp_all
  obtain c where c: "?c = c" by blast
  have "2 * (pr_ts r - c * ?w) \<le> ?w" "2 * (c * ?w - pr_ts r) \<le> ?w"
    using nearest [rule_format, of "pr_ts r"] c by (simp_all add: abs_if split: if_splits)
  moreover obtain x y v where "c * ?w = x" "d * ?w = y" "?w = v" by blast
  ultimately have "d * ?w < c * ?w" "c * ?w < d * ?w + 2 * ?w" using split mod by simp_all
  then have "d * ?w < c * ?w" "c * ?w < (d + 2) * ?w" by (simp_all add: distrib_right)
  then have "d < c" "c < d + 2" using w by (simp_all only: mult_less_cancel_right_pos)
  then have "c = d + 1" by simp
  then have label: "?c * ?w = d * ?w + ?w" by (simp add: c distrib_right)
  have "?c * ?w \<in> tb_ms ` set (get_time_distribution cast_div q st)"
    unfolding distribution_cases [OF assms(1)] using assms(2) r(1,2) by (auto simp: buckets_labels)
  then obtain b where "b \<in> set (get_time_distribution cast_div q st)" "tb_ms b = ?c * ?w" by auto
  with label split mod show ?thesis unfolding dm(1) [symmetric] by (intro bexI [of _ b]) linarith+
qed

theorem positions_counted_in_next_bucket_witness:
  "\<exists>b \<in> set (get_time_distribution round_div (one_minute TD_Positions) ((storage_empty ''pi'' 100)\<lparr>st_positions := [at_ms 9000]\<rparr>)).
     tb_ms b = 15000"
proof -
  have "2 * \<bar>a - round_div a 15000 * 15000\<bar> \<le> 15000" for a
  proof -
    let ?q = "rat_of_int a / 15000"
    have "\<bar>?q - of_int (round_half_even ?q)\<bar> \<le> 1 / 2" using round_half_even_near [of ?q] by (simp add: abs_minus_commute)
    then have "\<bar>rat_of_int a - of_int (round_half_even ?q) * 15000\<bar> \<le> 7500" by (simp add: abs_le_iff field_simps)
    then have "\<bar>rat_of_int (a - round_half_even ?q * 15000)\<bar> \<le> 7500" by simp
    then have "\<bar>a - round_half_even ?q * 15000\<bar> \<le> 7500" by linarith
    then show ?thesis by (simp add: round_div_def)
  qed
  then have "\<exists>b \<in> set (get_time_distribution round_div (one_minute TD_Positions) ((storage_empty ''pi'' 100)\<lparr>st_positions := [at_ms 9000]\<rparr>)).
      tb_ms b = pr_ts (at_ms 9000) div bucket_width (one_minute TD_Positions) * bucket_width (one_minute TD_Positions) + bucket_width (one_minute TD_Positions)
    \<and> tb_ms b = round_div (pr_ts (at_ms 9000)) (bucket_width (one_minute TD_Positions)) * bucket_width (one_minute TD_Positions)
    \<and> pr_ts (at_ms 9000) < tb_ms b"
    by (intro positions_counted_in_next_bucket one_minute_proper)
       (simp_all add: one_minute_proper(2), simp_all add: one_minute_def td_inside_def at_ms_def position_row_of_def)
  then show ?thesis by (simp add: one_minute_proper(2)) (auto simp: at_ms_def position_row_of_def)
qed

subsection \<open>Hourly heat map\<close>

lemma map_of_join:
  assumes "distinct (map fst xs)" "distinct (map fst ys)"
  shows "map_of (map (\<lambda>(k, a, b). (k, f a b)) (full_join xs ys)) k
       = (if map_of xs k = None \<and> map_of ys k = None then None else Some (f (map_of xs k) (map_of ys k)))"
proof -
  let ?l = "map (\<lambda>(k, a, b). (k, f a b)) (full_join xs ys)"
  have keys: "map fst ?l = map fst (full_join xs ys)" by (simp add: split_def)
  note join = full_join_keys [OF assms]
  have dist: "distinct (map fst ?l)" unfolding keys using join by blast
  show ?thesis
  proof (cases "k \<in> fst ` set xs \<union> fst ` set ys")
    case True
    then obtain a b where ab: "(k, a, b) \<in> set (full_join xs ys)" using join by force
    then have "(k, f a b) \<in> set ?l" by force
    then have "map_of ?l k = Some (f a b)" using dist by simp
    with full_join_values [OF assms ab] True show ?thesis by (auto simp: map_of_eq_None_iff)
  next
    case False
    then have "k \<notin> fst ` set ?l" using join keys by (metis list.set_map)
    then have "map_of ?l k = None" by (simp add: map_of_eq_None_iff)
    with False show ?thesis by (simp add: map_of_eq_None_iff)
  qed
qed

lemma sum_list_sort_key: "sum_list (map f (sort_key k xs)) = (sum_list (map f xs) :: nat)"
  by (metis mset_map mset_sort sum_mset_sum_list)

definition cell_key :: "heatmap_cell \<Rightarrow> int \<times> int" where
  "cell_key c = (hc_day_ms c, hc_hour c)"

definition hq_inside :: "heatmap_query \<Rightarrow> int \<Rightarrow> bool" where
  "hq_inside q ts \<longleftrightarrow> hq_start_ms q \<le> ts \<and> ts \<le> hq_end_ms q"

definition flight_hours :: "heatmap_query \<Rightarrow> storage \<Rightarrow> int list" where
  "flight_hours q st = concat (map (flight_buckets 3600000)
     (filter (\<lambda>f. hq_start_ms q \<le> fl_last f \<and> fl_first f \<le> hq_end_ms q) (st_flights st)))"

definition positions_at :: "heatmap_query \<Rightarrow> storage \<Rightarrow> int \<times> int \<Rightarrow> position_row list" where
  "positions_at q st k = filter (\<lambda>r. cell_of (pr_ts r) = k) (filter (\<lambda>r. hq_inside q (pr_ts r)) (st_positions st))"

definition raws_at :: "heatmap_query \<Rightarrow> storage \<Rightarrow> int \<times> int \<Rightarrow> raw_row list" where
  "raws_at q st k = filter (\<lambda>r. cell_of (rr_ts r) = k) (filter (\<lambda>r. hq_inside q (rr_ts r)) (st_raw st))"

definition hours_at :: "heatmap_query \<Rightarrow> storage \<Rightarrow> int \<times> int \<Rightarrow> int list" where
  "hours_at q st k = filter (\<lambda>h. cell_of h = k) (flight_hours q st)"

definition cell_at :: "heatmap_query \<Rightarrow> storage \<Rightarrow> int \<times> int \<Rightarrow> heatmap_cell" where
  "cell_at q st k = \<lparr>hc_day_ms = fst k, hc_hour = snd k, hc_aircraft_count = count_distinct (map pr_hex (positions_at q st k)),
     hc_message_count = length (positions_at q st k), hc_raw_message_count = length (raws_at q st k),
     hc_flight_count = length (hours_at q st k)\<rparr>"

lemma heatmap_cells:
  "\<exists>ks. get_hourly_heatmap q st = sort_key cell_key (map (cell_at q st) ks) \<and> distinct ks
     \<and> set ks = {k. positions_at q st k \<noteq> [] \<or> raws_at q st k \<noteq> [] \<or> hours_at q st k \<noteq> []}"
proof -
  let ?pos = "filter (\<lambda>r. hq_inside q (pr_ts r)) (st_positions st)" and ?raw = "filter (\<lambda>r. hq_inside q (rr_ts r)) (st_raw st)"
  define pos where "pos = map (\<lambda>(k, rs). (k, count_distinct (map pr_hex rs), length rs)) (grouped (\<lambda>r. cell_of (pr_ts r)) ?pos)"
  define raw where "raw = map (\<lambda>(k, rs). (k, length rs)) (grouped (\<lambda>r. cell_of (rr_ts r)) ?raw)"
  define fl where "fl = map (\<lambda>(k, hs). (k, length hs)) (grouped cell_of (flight_hours q st))"
  define pos_raw where "pos_raw = map (\<lambda>(k, p, n). (k, coalesce (map_option fst p), coalesce (map_option snd p), coalesce n)) (full_join pos raw)"
  have d: "distinct (map fst pos)" "distinct (map fst raw)" "distinct (map fst fl)"
    unfolding pos_def raw_def fl_def keys_grouped by simp_all
  have at: "map_of pos k = (if positions_at q st k = [] then None else Some (count_distinct (map pr_hex (positions_at q st k)), length (positions_at q st k)))"
    "map_of raw k = (if raws_at q st k = [] then None else Some (length (raws_at q st k)))"
    "map_of fl k = (if hours_at q st k = [] then None else Some (length (hours_at q st k)))" for k
    unfolding pos_def raw_def fl_def map_of_grouped positions_at_def raws_at_def hours_at_def
    by (auto simp: filter_empty_conv image_iff)
  have pr: "map_of pos_raw k = (if positions_at q st k = [] \<and> raws_at q st k = [] then None
      else Some (count_distinct (map pr_hex (positions_at q st k)), length (positions_at q st k), length (raws_at q st k)))" for k
    unfolding pos_raw_def map_of_join [OF d(1,2), where f = "\<lambda>p n. (coalesce (map_option fst p), coalesce (map_option snd p), coalesce n)"]
    by (simp add: at coalesce_def count_distinct_def)
  have d': "distinct (map fst pos_raw)"
    using full_join_keys [OF d(1,2)] by (simp add: pos_raw_def comp_def split_def)
  note join = full_join_keys [OF d' d(3)]
  let ?mk = "\<lambda>((day, hour), p, n). \<lparr>hc_day_ms = day, hc_hour = hour, hc_aircraft_count = coalesce (map_option fst p),
      hc_message_count = coalesce (map_option (fst \<circ> snd) p), hc_raw_message_count = coalesce (map_option (snd \<circ> snd) p),
      hc_flight_count = coalesce n\<rparr>"
  have "?mk x = cell_at q st (fst x)" if "x \<in> set (full_join pos_raw fl)" for x
  proof -
    obtain k p n where x: "x = (k, p, n)" by (cases x)
    with full_join_values [OF d' d(3)] that have "p = map_of pos_raw k" "n = map_of fl k" by blast+
    then show ?thesis unfolding x by (cases k) (simp add: pr at cell_at_def coalesce_def count_distinct_def)
  qed
  then have "map ?mk (full_join pos_raw fl) = map (cell_at q st) (map fst (full_join pos_raw fl))" by simp
  moreover have "get_hourly_heatmap q st = sort_key cell_key (map ?mk (full_join pos_raw fl))"
    by (simp add: get_hourly_heatmap_def pos_raw_def pos_def raw_def fl_def flight_hours_def hq_inside_def [abs_def] cell_key_def [abs_def] Let_def)
  moreover have "set (map fst (full_join pos_raw fl)) = {k. positions_at q st k \<noteq> [] \<or> raws_at q st k \<noteq> [] \<or> hours_at q st k \<noteq> []}"
  proof -
    have "k \<in> fst ` set pos_raw \<longleftrightarrow> positions_at q st k \<noteq> [] \<or> raws_at q st k \<noteq> []" for k
      using pr [of k] map_of_eq_None_iff [of pos_raw k] by (auto split: if_splits)
    moreover have "k \<in> fst ` set fl \<longleftrightarrow> hours_at q st k \<noteq> []" for k
      using at(3) [of k] map_of_eq_None_iff [of fl k] by (auto split: if_splits)
    ultimately show ?thesis using join by (auto simp: set_eq_iff)
  qed
  ultimately show ?thesis using join by metis
qed

text \<open>The heat map has one cell for each hour with data, in order, and counts the rows of its window: a
  cell's positions, aircraft and raw messages are those of the window in that hour, and over all cells
  every position and every raw message of the window is counted once.\<close>

theorem heatmap_counts_window:
  "let cs = get_hourly_heatmap q st in
     sorted_wrt (<) (map cell_key cs) \<and> (\<forall>c \<in> set cs. c = cell_at q st (cell_key c))
   \<and> sum_list (map hc_message_count cs) = length (filter (\<lambda>r. hq_inside q (pr_ts r)) (st_positions st))
   \<and> sum_list (map hc_raw_message_count cs) = length (filter (\<lambda>r. hq_inside q (rr_ts r)) (st_raw st))"
proof -
  obtain ks where ks: "get_hourly_heatmap q st = sort_key cell_key (map (cell_at q st) ks)" "distinct ks"
      "set ks = {k. positions_at q st k \<noteq> [] \<or> raws_at q st k \<noteq> [] \<or> hours_at q st k \<noteq> []}"
    using heatmap_cells by blast
  have key [simp]: "cell_key (cell_at q st k) = k" for k by (simp add: cell_key_def cell_at_def)
  let ?cs = "get_hourly_heatmap q st"
  have "map cell_key (map (cell_at q st) ks) = ks" by (simp add: comp_def)
  then have "mset (map cell_key ?cs) = mset ks" unfolding ks(1) by (metis mset_map mset_sort)
  moreover have "sorted (map cell_key ?cs)" unfolding ks(1) by (rule sorted_sort_key)
  ultimately have "sort ks = map cell_key ?cs" by (rule properties_for_sort)
  then have "map cell_key ?cs = sort ks" by (rule sym)
  then have "sorted_wrt (<) (map cell_key ?cs)" using ks(2) by (simp add: strict_sorted_iff)
  moreover have "\<forall>c \<in> set ?cs. c = cell_at q st (cell_key c)" by (auto simp: ks(1))
  moreover have "sum_list (map hc_message_count ?cs) = length (filter (\<lambda>r. hq_inside q (pr_ts r)) (st_positions st))"
  proof -
    have "sum_list (map hc_message_count ?cs) = sum_list (map (\<lambda>k. length (positions_at q st k)) ks)"
      by (simp add: ks(1) sum_list_sort_key comp_def cell_at_def)
    also have "\<dots> = length (filter (\<lambda>r. hq_inside q (pr_ts r)) (st_positions st))" unfolding positions_at_def
      by (rule counts_partition [OF ks(2)]) (auto simp: ks(3) positions_at_def filter_empty_conv)
    finally show ?thesis .
  qed
  moreover have "sum_list (map hc_raw_message_count ?cs) = length (filter (\<lambda>r. hq_inside q (rr_ts r)) (st_raw st))"
  proof -
    have "sum_list (map hc_raw_message_count ?cs) = sum_list (map (\<lambda>k. length (raws_at q st k)) ks)"
      by (simp add: ks(1) sum_list_sort_key comp_def cell_at_def)
    also have "\<dots> = length (filter (\<lambda>r. hq_inside q (rr_ts r)) (st_raw st))" unfolding raws_at_def
      by (rule counts_partition [OF ks(2)]) (auto simp: ks(3) raws_at_def filter_empty_conv)
    finally show ?thesis .
  qed
  ultimately show ?thesis by (simp only: Let_def)
qed

text \<open>The heat map shows hours outside its window. The hours of a flight are not cut to the window (the
  histogram of flights cuts them), so a flight that began before it gives a cell for the hour it began
  in, with a flight and without a message.\<close>

theorem heatmap_leaves_window:
  assumes "f \<in> set (st_flights st)" and "hq_start_ms q \<le> fl_last f" and "fl_first f \<le> hq_end_ms q"
    and "fl_first f div 3600000 * 3600000 + 3600000 \<le> hq_start_ms q"
  shows "\<exists>c \<in> set (get_hourly_heatmap q st). cell_key c = cell_of (fl_first f)
       \<and> 0 < hc_flight_count c \<and> hc_message_count c = 0 \<and> hc_raw_message_count c = 0"
proof -
  let ?h = "fl_first f div 3600000 * 3600000" and ?k = "cell_of (fl_first f)"
  have same_hour: "cell_of t = ?k \<Longrightarrow> t div 3600000 = fl_first f div 3600000" for t
  proof -
    assume "cell_of t = ?k"
    moreover have "u div 86400000 = u div 3600000 div 24" for u :: int using zdiv_zmult2_eq [of 24 u 3600000] by simp
    ultimately have "t div 3600000 div 24 = fl_first f div 3600000 div 24" "t div 3600000 mod 24 = fl_first f div 3600000 mod 24"
      by (simp_all add: cell_of_def)
    then show ?thesis by (metis div_mult_mod_eq)
  qed
  have outside: "\<not> hq_inside q t" if "cell_of t = ?k" for t
  proof -
    have "t < t div 3600000 * 3600000 + 3600000" by presburger
    with same_hour [OF that] assms(4) show ?thesis by (simp add: hq_inside_def)
  qed
  have "?h \<le> fl_first f" by presburger
  moreover have "fl_first f < ?h + 3600000" by presburger
  moreover have "?h \<le> fl_last f" using assms(2,4) by linarith
  ultimately have "?h \<in> set (flight_buckets 3600000 f)" using flight_buckets_set [of 3600000 ?h f] by simp
  then have "?h \<in> set (flight_hours q st)" using assms(1-3) by (auto simp: flight_hours_def)
  moreover have "cell_of ?h = ?k" by (simp add: cell_of_def)
  ultimately have hours: "hours_at q st ?k \<noteq> []" by (auto simp: hours_at_def filter_empty_conv)
  have none: "positions_at q st ?k = []" "raws_at q st ?k = []"
    using outside by (auto simp: positions_at_def raws_at_def filter_empty_conv)
  obtain ks where ks: "get_hourly_heatmap q st = sort_key cell_key (map (cell_at q st) ks)"
      "set ks = {k. positions_at q st k \<noteq> [] \<or> raws_at q st k \<noteq> [] \<or> hours_at q st k \<noteq> []}"
    using heatmap_cells by blast
  then have "cell_at q st ?k \<in> set (get_hourly_heatmap q st)" using hours by simp
  moreover have "cell_key (cell_at q st ?k) = ?k" "0 < hc_flight_count (cell_at q st ?k)"
      "hc_message_count (cell_at q st ?k) = 0" "hc_raw_message_count (cell_at q st ?k) = 0"
    using hours by (simp_all add: cell_key_def cell_at_def none)
  ultimately show ?thesis by blast
qed

theorem heatmap_leaves_window_witness:
  "\<exists>c \<in> set (get_hourly_heatmap \<lparr>hq_start_ms = 7200000, hq_end_ms = 10800000\<rparr>
      ((storage_empty ''pi'' 100)\<lparr>st_flights := [flight_at 1000 7300000]\<rparr>)). hc_hour c = 0 \<and> hc_message_count c = 0"
  using heatmap_leaves_window [of "flight_at 1000 7300000" "(storage_empty ''pi'' 100)\<lparr>st_flights := [flight_at 1000 7300000]\<rparr>"
      "\<lparr>hq_start_ms = 7200000, hq_end_ms = 10800000\<rparr>"]
  by (force simp: flight_at_def cell_key_def cell_of_def)

end
