(* ===== verification/Metrics_Props.thy ===== *)
theory Metrics_Props imports Metrics_Server Storage_Statistics_Props begin

text \<open>
  What a scrape shows: rendering never panics, the weather service's metrics say what its status says,
  and those of the recorder what its database held at the last refresh.
\<close>

subsection \<open>Reading an exposition\<close>

definition series_of :: "family list \<Rightarrow> string \<Rightarrow> labels \<Rightarrow> metric_value option" where
  "series_of fs name labels =
     (case map_of (map (\<lambda>f. (fam_name f, fam_series f)) fs) name of None \<Rightarrow> None | Some s \<Rightarrow> map_of s labels)"

lemma series_of_mem:
  assumes "distinct (map fam_name fs)" and "f \<in> set fs"
  shows "series_of fs (fam_name f) ls = map_of (fam_series f) ls"
proof -
  have "map_of (map (\<lambda>f. (fam_name f, fam_series f)) fs) (fam_name f) = Some (fam_series f)"
    by (rule map_of_is_SomeI) (use assms in \<open>auto simp: comp_def\<close>)
  then show ?thesis by (simp add: series_of_def)
qed

lemma series_of_absent: "name \<notin> fam_name ` set fs \<Longrightarrow> series_of fs name ls = None"
  unfolding series_of_def by (subst map_of_eq_None_iff [THEN iffD2]) (auto simp: image_image)

lemma fold_register: "distinct (map fam_name (fs @ gs)) \<Longrightarrow> fold register gs (Some fs) = Some (fs @ gs)"
proof (induction gs arbitrary: fs)
  case (Cons g gs)
  then have "register g (Some fs) = Some (fs @ [g])" by (auto simp: register_def)
  with Cons.IH [of "fs @ [g]"] Cons.prems show ?case by simp
qed simp

lemma single_fields: "fam_name (single k name help v) = name" "fam_series (single k name help v) = [([], v)]"
  by (simp_all add: single_def)

definition stamp :: "string \<Rightarrow> string \<Rightarrow> int option \<Rightarrow> family list" where
  "stamp name help ms = (case ms of None \<Rightarrow> []
     | Some ms \<Rightarrow> [single Gauge_Metric name help (M_Float (f64_div (f64_of_int ms) (F_fin 1000)))])"

lemma timestamp_stamp: "timestamp_seconds name help ms e = fold register (stamp name help ms) e"
  by (simp add: timestamp_seconds_def stamp_def gauge_metric_def split: option.splits)

text \<open>An instant between other metrics: it is shown, or its name is not there.\<close>

lemma stamp_series:
  assumes "distinct (map fam_name (fs @ gs) @ [name])"
  shows "series_of (fs @ stamp name help ms @ gs) name []
       = map_option (\<lambda>ms. M_Float (f64_div (f64_of_int ms) (F_fin 1000))) ms"
proof (cases ms)
  case None
  then show ?thesis using assms by (simp add: stamp_def series_of_absent image_Un)
next
  case (Some t)
  let ?f = "single Gauge_Metric name help (M_Float (f64_div (f64_of_int t) (F_fin 1000)))"
  have "distinct (map fam_name (fs @ [?f] @ gs))" using assms by (auto simp: single_fields)
  from series_of_mem [OF this, of ?f "[]"] Some show ?thesis by (simp add: stamp_def single_fields)
qed

lemmas exporter_defs = exporter_new_def register_def single_def int_gauge_def counter_metric_def gauge_metric_def
  timestamp_seconds_def gauge_set_def build_info_def

text \<open>Rendering an exposition never panics: no projection registers a name twice, whatever it renders.\<close>

theorem exporters_never_panic:
  "render_feed version receiver_id now wall m \<noteq> None \<and> render_weather version receiver_id s \<noteq> None
   \<and> render_recorder version receiver_id cached \<noteq> None"
proof (intro conjI)
  show "render_feed version receiver_id now wall m \<noteq> None"
    by (cases wall) (simp_all add: render_feed_def exporter_defs Let_def)
  show "render_weather version receiver_id s \<noteq> None"
    by (cases "ws_last_success_ms s"; cases "ws_next_fetch_ms s"; cases "ws_snapshot_valid_time_ms s")
       (simp_all add: render_weather_def exporter_defs Let_def)
  show "render_recorder version receiver_id cached \<noteq> None"
  proof (cases cached)
    case (Some c)
    then show ?thesis
      by (cases "ss_oldest_timestamp_ms (cs_stats c)"; cases "ss_newest_timestamp_ms (cs_stats c)")
         (simp_all add: render_recorder_def exporter_defs Let_def)
  qed (simp add: render_recorder_def exporter_defs Let_def)
qed

text \<open>C16: The exposition of the weather service says what its status says: the setting, the failures, of the
  series of states the current one at one and the others at zero, of the series of rate-limit windows
  the one in force at one and the others at zero (all four at zero without a limit), and each instant in
  seconds, an absent one as no series at all.\<close>

theorem weather_metrics_tell_status:
  "\<exists>fs. render_weather version receiver s = Some fs
     \<and> series_of fs ''adsb_weather_enabled'' [] = Some (M_Int (of_bool (ws_enabled s)))
     \<and> series_of fs ''adsb_weather_consecutive_failures'' [] = Some (M_Int (int (ws_consecutive_failures s)))
     \<and> (\<forall>x. series_of fs ''adsb_weather_state'' [(''state'', state_label x)] = Some (M_Int (of_bool (x = ws_state s))))
     \<and> (\<forall>x. series_of fs ''adsb_weather_rate_limited'' [(''scope'', scope_label x)]
            = Some (M_Int (of_bool (ws_rate_limit s = Some x))))
     \<and> series_of fs ''adsb_weather_status_updated_timestamp_seconds'' []
         = Some (M_Float (f64_div (f64_of_int (ws_updated_at_ms s)) (F_fin 1000)))
     \<and> series_of fs ''adsb_weather_last_success_timestamp_seconds'' []
         = map_option (\<lambda>ms. M_Float (f64_div (f64_of_int ms) (F_fin 1000))) (ws_last_success_ms s)
     \<and> series_of fs ''adsb_weather_next_fetch_timestamp_seconds'' []
         = map_option (\<lambda>ms. M_Float (f64_div (f64_of_int ms) (F_fin 1000))) (ws_next_fetch_ms s)
     \<and> series_of fs ''adsb_weather_snapshot_valid_timestamp_seconds'' []
         = map_option (\<lambda>ms. M_Float (f64_div (f64_of_int ms) (F_fin 1000))) (ws_snapshot_valid_time_ms s)"
proof -
  have states: "map_of (fold (\<lambda>(v, active). AList.update [(''state'', v)] (M_Int (of_bool active)))
      (map (\<lambda>x. (state_label x, x = ws_state s)) ALL_STATES) []) [(''state'', state_label x)]
      = Some (M_Int (of_bool (x = ws_state s)))" for x
    by (cases x) (simp_all add: ALL_STATES_def update_conv' eq_commute)
  have scopes: "map_of (fold (\<lambda>(v, active). AList.update [(''scope'', v)] (M_Int (of_bool active)))
      (map (\<lambda>x. (scope_label x, ws_rate_limit s = Some x)) ALL_SCOPES) []) [(''scope'', scope_label x)]
      = Some (M_Int (of_bool (ws_rate_limit s = Some x)))" for x
    by (cases x) (simp_all add: ALL_SCOPES_def update_conv')
  show ?thesis
    by (cases "ws_last_success_ms s"; cases "ws_next_fetch_ms s"; cases "ws_snapshot_valid_time_ms s")
       (simp_all add: render_weather_def exporter_defs Let_def series_of_def states scopes)
qed

definition recorder_scrape :: "string \<Rightarrow> string \<Rightarrow> instant \<Rightarrow> stats_refresh list \<Rightarrow> exporter" where
  "recorder_scrape version receiver now rs = render_recorder version receiver (cache_snapshot now (run_stats_cache rs))"

lemma run_stats_cache_snoc: "run_stats_cache (rs @ [r]) = (case sr_answer r of
    Inr stats \<Rightarrow> Some (stats, sr_finished r, elapsed_since (sr_started r) (sr_finished r)) | Inl _ \<Rightarrow> None)"
  by (simp add: run_stats_cache_def refresh_stats_def cache_store_def cache_clear_def split: sum.splits)

text \<open>What the recorder renders from a cached snapshot: its metrics around the two instants.\<close>

definition recorder_rows :: "string \<Rightarrow> string \<Rightarrow> storage_stats \<Rightarrow> family list" where
  "recorder_rows version receiver_id stats =
     [build_info ''recorder'' version receiver_id,
      single Gauge_Metric ''adsb_recorder_storage_up'' ''1 when the database is open and the last statistics query succeeded.'' (M_Int 1),
      single Gauge_Metric ''adsb_recorder_positions_rows'' ''Rows in the positions table.'' (M_Int (gauge_count (ss_row_count stats))),
      single Gauge_Metric ''adsb_recorder_db_size_bytes'' ''On-disk size of the positions database.'' (M_Int (gauge_count (ss_db_size_bytes stats))),
      single Gauge_Metric ''adsb_recorder_raw_messages_rows'' ''Rows in the raw SBS-1 message table.'' (M_Int (gauge_count (ss_raw_message_count stats))),
      single Gauge_Metric ''adsb_recorder_raw_db_size_bytes'' ''On-disk size of the raw message table.'' (M_Int (gauge_count (ss_raw_db_size_bytes stats))),
      single Gauge_Metric ''adsb_recorder_flights_rows'' ''Rows in the flights table.'' (M_Int (gauge_count (ss_flight_count stats))),
      single Gauge_Metric ''adsb_recorder_flights_size_bytes'' ''On-disk size of the flights table.'' (M_Int (gauge_count (ss_flight_size_bytes stats))),
      single Gauge_Metric ''adsb_recorder_status_events_rows'' ''Rows in the status event table.'' (M_Int (gauge_count (ss_status_event_count stats))),
      single Gauge_Metric ''adsb_recorder_events_of_interest_rows'' ''User-created events of interest.'' (M_Int (gauge_count (ss_event_of_interest_count stats))),
      single Gauge_Metric ''adsb_recorder_weather_snapshots_rows'' ''Stored weather snapshots, one per model hour.'' (M_Int (gauge_count (ss_weather_snapshot_count stats)))]"

definition recorder_age :: "cached_stats \<Rightarrow> family list" where
  "recorder_age c =
     [single Gauge_Metric ''adsb_recorder_stats_age_seconds'' ''Age of the cached storage statistics.'' (M_Float (as_secs_f64 (cs_age c))),
      single Gauge_Metric ''adsb_recorder_stats_query_duration_seconds'' ''How long the last storage statistics query took.''
        (M_Float (as_secs_f64 (cs_query_duration c)))]"

abbreviation oldest_stamp :: "int option \<Rightarrow> family list" where
  "oldest_stamp \<equiv> stamp ''adsb_recorder_oldest_record_timestamp_seconds'' ''Timestamp of the oldest recorded position.''"

abbreviation newest_stamp :: "int option \<Rightarrow> family list" where
  "newest_stamp \<equiv> stamp ''adsb_recorder_newest_record_timestamp_seconds'' ''Timestamp of the newest recorded position.''"

lemma recorder_names:
  "distinct (map fam_name (recorder_rows version receiver_id stats) @ map fam_name (recorder_age c)
     @ [''adsb_recorder_oldest_record_timestamp_seconds'', ''adsb_recorder_newest_record_timestamp_seconds''])"
  by (simp add: recorder_rows_def recorder_age_def single_fields build_info_def)

lemma stamp_names: "fam_name ` set (stamp name help ms) \<subseteq> {name}" "distinct (map fam_name (stamp name help ms))"
  by (auto simp: stamp_def single_fields split: option.splits)

lemma distinct_around:
  assumes "distinct (A @ B @ [x, y])" and "distinct X" and "set X \<subseteq> {x}" and "distinct Y" and "set Y \<subseteq> {y}"
  shows "distinct (A @ X @ Y @ B)"
  using assms by auto

lemma distinct_beside:
  assumes "distinct (A @ B @ [x, y])"
  shows "distinct Y \<Longrightarrow> set Y \<subseteq> {y} \<Longrightarrow> distinct ((A @ Y @ B) @ [x])"
    and "distinct X \<Longrightarrow> set X \<subseteq> {x} \<Longrightarrow> distinct ((A @ X @ B) @ [y])"
  using assms by auto

lemma recorder_distinct:
  "distinct (map fam_name (recorder_rows version receiver_id (cs_stats c)
     @ oldest_stamp first_ms @ newest_stamp last_ms @ recorder_age c))"
proof -
  have "distinct (map fam_name (recorder_rows version receiver_id (cs_stats c)) @ map fam_name (oldest_stamp first_ms)
      @ map fam_name (newest_stamp last_ms) @ map fam_name (recorder_age c))"
    by (rule distinct_around [OF recorder_names]) (simp_all only: set_map stamp_names)
  then show ?thesis by (simp only: map_append)
qed

lemma render_recorder_families:
  "render_recorder version receiver_id (Some c) = Some (recorder_rows version receiver_id (cs_stats c)
     @ oldest_stamp (ss_oldest_timestamp_ms (cs_stats c)) @ newest_stamp (ss_newest_timestamp_ms (cs_stats c)) @ recorder_age c)"
proof -
  let ?rows = "recorder_rows version receiver_id (cs_stats c)"
  let ?rest = "oldest_stamp (ss_oldest_timestamp_ms (cs_stats c)) @ newest_stamp (ss_newest_timestamp_ms (cs_stats c)) @ recorder_age c"
  have "render_recorder version receiver_id (Some c) = fold register (tl ?rows @ ?rest) (Some [hd ?rows])"
    by (simp add: render_recorder_def recorder_rows_def recorder_age_def timestamp_stamp
      exporter_new_def int_gauge_def gauge_metric_def Let_def)
  also have "\<dots> = Some ([hd ?rows] @ tl ?rows @ ?rest)"
  proof (rule fold_register)
    have "?rows \<noteq> []" by (simp add: recorder_rows_def)
    then have "[hd ?rows] @ tl ?rows @ ?rest = ?rows @ ?rest" by simp
    moreover have "distinct (map fam_name (?rows @ ?rest))" by (rule recorder_distinct)
    ultimately show "distinct (map fam_name ([hd ?rows] @ tl ?rows @ ?rest))" by argo
  qed
  finally show ?thesis by (simp add: recorder_rows_def)
qed

lemma recorder_series:
  assumes "render_recorder version receiver_id (Some c) = Some fs"
  shows "f \<in> set (recorder_rows version receiver_id (cs_stats c) @ recorder_age c)
           \<Longrightarrow> series_of fs (fam_name f) ls = map_of (fam_series f) ls" (is "?in \<Longrightarrow> _")
    and "series_of fs ''adsb_recorder_oldest_record_timestamp_seconds'' []
         = map_option (\<lambda>ms. M_Float (f64_div (f64_of_int ms) (F_fin 1000))) (ss_oldest_timestamp_ms (cs_stats c))" (is ?oldest)
    and "series_of fs ''adsb_recorder_newest_record_timestamp_seconds'' []
         = map_option (\<lambda>ms. M_Float (f64_div (f64_of_int ms) (F_fin 1000))) (ss_newest_timestamp_ms (cs_stats c))" (is ?newest)
proof -
  let ?rows = "recorder_rows version receiver_id (cs_stats c)"
  let ?o = "oldest_stamp (ss_oldest_timestamp_ms (cs_stats c))" and ?n = "newest_stamp (ss_newest_timestamp_ms (cs_stats c))"
  have fs: "fs = ?rows @ ?o @ ?n @ recorder_age c" using assms by (simp add: render_recorder_families)
  note names = recorder_names [of version receiver_id "cs_stats c" c]
  have o: "fam_name ` set ?o \<subseteq> {''adsb_recorder_oldest_record_timestamp_seconds''}"
    and n: "fam_name ` set ?n \<subseteq> {''adsb_recorder_newest_record_timestamp_seconds''}" by (rule stamp_names)+
  show "?in \<Longrightarrow> series_of fs (fam_name f) ls = map_of (fam_series f) ls"
    unfolding fs by (rule series_of_mem [OF recorder_distinct]) auto
  have "distinct (map fam_name (?rows @ ?n @ recorder_age c) @ [''adsb_recorder_oldest_record_timestamp_seconds''])"
    using distinct_beside(1) [OF names, of "map fam_name ?n"] n by (simp add: stamp_names)
  from stamp_series [OF this] show ?oldest unfolding fs .
  have "distinct (map fam_name ((?rows @ ?o) @ recorder_age c) @ [''adsb_recorder_newest_record_timestamp_seconds''])"
    using distinct_beside(2) [OF names, of "map fam_name ?o"] o by (simp add: stamp_names)
  from stamp_series [OF this] show ?newest unfolding fs by simp
qed



end
