(* ===== verification/Metrics_Http.thy ===== *)
theory Metrics_Http imports Metrics_Server begin

text \<open>
  What the metrics endpoint of the feed client answers: the reply depends on the first line of the
  request and on nothing else, however the request is cut into reads; a peer that never ends its head,
  or sends too much, gets none.
\<close>

subsection \<open>Lossy decoding around ASCII\<close>

lemma lossy_ascii: "c < 128 \<Longrightarrow> lossy_bytes (a @ c # b) = lossy_bytes a @ c # lossy_bytes b"
proof (induction a rule: length_induct)
  case (1 a)
  then have IH: "\<And>a'. length a' < length a \<Longrightarrow> lossy_bytes (a' @ c # b) = lossy_bytes a' @ c # lossy_bytes b" by blast
  have c: "\<not> second_ok x c" "\<not> continuation c" for x using 1(2) by (auto simp: second_ok_def continuation_def)
  show ?case
  proof (cases a)
    case Nil
    then show ?thesis using 1(2) by simp
  next
    case (Cons x xs)
    then have step: "\<And>a'. length a' \<le> length xs \<Longrightarrow> lossy_bytes (a' @ c # b) = lossy_bytes a' @ c # lossy_bytes b"
      using IH by simp
    show ?thesis
    proof (cases xs)
      case Nil
      then show ?thesis using Cons 1(2) c by simp
    next
      case xs: (Cons y ys)
      show ?thesis
      proof (cases ys)
        case Nil
        then show ?thesis using Cons xs 1(2) c step [of "[y]"] step [of "[]"] by simp
      next
        case ys: (Cons z zs)
        show ?thesis
        proof (cases zs)
          case Nil
          then show ?thesis using Cons xs ys 1(2) c step [of "[y, z]"] step [of "[z]"] step [of "[]"] by simp
        next
          case (Cons u us)
          then show ?thesis using \<open>a = x # xs\<close> xs ys step [of "y # z # u # us"] step [of "z # u # us"] step [of "u # us"] step [of us]
            by simp
        qed
      qed
    qed
  qed
qed

lemma from_utf8_lossy_ascii:
  "of_char c < (128::nat) \<Longrightarrow> from_utf8_lossy (a @ c # b) = from_utf8_lossy a @ c # from_utf8_lossy b"
  by (simp add: from_utf8_lossy_def lossy_ascii)

lemma lossy_bytes_set: "c < 128 \<Longrightarrow> c \<in> set (lossy_bytes a) \<longleftrightarrow> c \<in> set a"
proof (induction a rule: lossy_bytes.induct)
  case (2 x xs)
  then show ?case by (auto simp: second_ok_def continuation_def split: list.splits if_splits)
qed simp

lemma lossy_bytes_from: "n \<notin> set ns \<Longrightarrow> n \<noteq> 239 \<Longrightarrow> n \<noteq> 191 \<Longrightarrow> n \<noteq> 189 \<Longrightarrow> n \<notin> set (lossy_bytes ns)"
proof (induction ns rule: length_induct)
  case (1 ns)
  then have IH: "length ms < length ns \<Longrightarrow> n \<notin> set ms \<Longrightarrow> n \<notin> set (lossy_bytes ms)" for ms by blast
  show ?case
  proof (cases ns)
    case Cons1: (Cons a as)
    with 1(2) IH [of as] have a: "n \<noteq> a" "n \<notin> set (lossy_bytes as)" by simp_all
    show ?thesis
    proof (cases as)
      case Nil
      with Cons1 1(2-) show ?thesis by simp
    next
      case Cons2: (Cons b bs)
      with 1(2) IH [of bs] Cons1 have b: "n \<noteq> b" "n \<notin> set (lossy_bytes bs)" by simp_all
      show ?thesis
      proof (cases bs)
        case Nil
        with Cons1 Cons2 1(3-) a b show ?thesis by (subst Cons1, subst lossy_bytes.simps) simp
      next
        case Cons3: (Cons c cs)
        with 1(2) IH [of cs] Cons1 Cons2 have c: "n \<noteq> c" "n \<notin> set (lossy_bytes cs)" by simp_all
        show ?thesis
        proof (cases cs)
          case Nil
          with Cons1 Cons2 Cons3 1(3-) a b c show ?thesis
            by (subst Cons1, subst lossy_bytes.simps) (simp del: lossy_bytes.simps)
        next
          case Cons4: (Cons d ds)
          with 1(2) IH [of ds] Cons1 Cons2 Cons3 have d: "n \<noteq> d" "n \<notin> set (lossy_bytes ds)" by simp_all
          with Cons1 Cons2 Cons3 Cons4 1(3-) a b c show ?thesis
            by (subst Cons1, subst lossy_bytes.simps) (simp del: lossy_bytes.simps)
        qed
      qed
    qed
  qed simp
qed

lemma newline_lossy: "CHR 0x0A \<in> set (from_utf8_lossy a) \<longleftrightarrow> CHR 0x0A \<in> set a"
proof -
  let ?ns = "lossy_bytes (map of_char a)"
  have mem: "CHR 0x0A \<in> set s \<longleftrightarrow> (10::nat) \<in> set (map of_char s)" for s
  proof -
    have "of_char c = (10::nat) \<longleftrightarrow> c = CHR 0x0A" for c
      using of_char_eq_iff [of c "CHR 0x0A", where ?'a = nat] by simp
    then show ?thesis by (force simp: image_iff)
  qed
  have "n < 256" if "n \<in> set ?ns" for n 
  proof (rule ccontr)
    assume "\<not> n < 256"
    then have "n \<notin> set (map of_char a)" by (auto dest: sym)
    with \<open>\<not> n < 256\<close> that show False using lossy_bytes_from [of n "map of_char a"] by auto
  qed
  then have "map of_char (from_utf8_lossy a) = ?ns"
    by (auto simp: from_utf8_lossy_def comp_def intro!: map_idI)
  then show ?thesis using mem [of "from_utf8_lossy a"] mem [of a] lossy_bytes_set [of 10 "map of_char a"] by simp
qed

subsection \<open>The head of a request\<close>

lemma first_line_lossy:
  assumes "CHR 0x0A \<notin> set line" and "h @ t = line @ CRLF @ rest" and "CHR 0x0A \<in> set h"
  shows "first_line (from_utf8_lossy h) = from_utf8_lossy line"
proof -
  have "takeWhile (\<lambda>c. c \<noteq> CHR 0x0A) (line @ CRLF @ rest) = line @ [CHR 0x0D]"
    using assms(1) by (induction line) auto
  moreover obtain l r where h: "h = l @ CHR 0x0A # r" "CHR 0x0A \<notin> set l" using assms(3) by (blast dest: split_list_first)
  moreover have "takeWhile (\<lambda>c. c \<noteq> CHR 0x0A) (l @ CHR 0x0A # r @ t) = l" using h(2) by (induction l) auto
  ultimately have "l = line @ [CHR 0x0D]" using assms(2) by simp
  with h(1) have h: "h = (line @ [CHR 0x0D]) @ CHR 0x0A # r" by simp
  have "from_utf8_lossy h = (from_utf8_lossy line @ [CHR 0x0D]) @ CHR 0x0A # from_utf8_lossy r"
    unfolding h using from_utf8_lossy_ascii [of "CHR 0x0A" "line @ [CHR 0x0D]" r]
      from_utf8_lossy_ascii [of "CHR 0x0D" line "[]"] by (simp add: from_utf8_lossy_def [of "[]"])
  moreover have "takeWhile (\<lambda>c. c \<noteq> CHR 0x0A) (l @ CHR 0x0D # CHR 0x0A # r) = l @ [CHR 0x0D]" if "CHR 0x0A \<notin> set l" for l r
    using that by (induction l) auto
  ultimately show ?thesis using assms(1) newline_lossy [of line] by (simp add: first_line_def Let_def)
qed

lemma contains_prefix: "contains p h \<Longrightarrow> contains p (h @ t)"
  by (auto simp: contains_iff) (metis append.assoc)

lemma read_head_chunks:
  assumes "contains (CRLF @ CRLF) (take MAX_HEAD_BYTES (head @ concat reads))" and "\<not> contains (CRLF @ CRLF) head"
    and "[] \<notin> set reads"
  shows "\<exists>h t. read_head head (map Got reads @ evs) = Some h \<and> head @ concat reads = h @ t \<and> contains (CRLF @ CRLF) h"
  using assms
proof (induction reads arbitrary: head)
  case Nil
  then show ?case using contains_prefix [of "CRLF @ CRLF" "take MAX_HEAD_BYTES head" "drop MAX_HEAD_BYTES head"] by simp
next
  case (Cons c cs)
  consider "contains (CRLF @ CRLF) (head @ c)" | "\<not> contains (CRLF @ CRLF) (head @ c)" "MAX_HEAD_BYTES < length (head @ c)"
    | "\<not> contains (CRLF @ CRLF) (head @ c)" "\<not> MAX_HEAD_BYTES < length (head @ c)" by blast
  then show ?case
  proof cases
    case 1
    then show ?thesis using Cons.prems(3) by auto
  next
    case 2
    then have "take MAX_HEAD_BYTES (head @ concat (c # cs)) = take MAX_HEAD_BYTES (head @ c)" by simp
    with Cons.prems(1) 2(1) show ?thesis by (metis append_take_drop_id contains_prefix)
  next
    case 3
    then show ?thesis using Cons.IH [of "head @ c"] Cons.prems by auto
  qed
qed

text \<open>The reply to a request is decided by its first line alone. Whatever follows the line, and however
  the bytes are cut into reads, a request whose head ends within 8192 bytes is answered by what its
  first line asks for.\<close>

theorem reply_follows_first_line:
  assumes "concat reads = line @ CRLF @ rest" and "CHR 0x0A \<notin> set line" and "[] \<notin> set reads"
    and "contains (CRLF @ CRLF) (take MAX_HEAD_BYTES (concat reads))"
  shows "handle_connection content_type body (map Got reads @ evs)
       = Some (answer_text content_type body (classify (from_utf8_lossy line)))"
proof -
  have "\<not> contains (CRLF @ CRLF) []" by (simp add: contains_iff)
  with read_head_chunks [of "[]" reads evs] assms(3,4) obtain h t where
    h: "read_head [] (map Got reads @ evs) = Some h" "concat reads = h @ t" "contains (CRLF @ CRLF) h"
    by auto
  from h(3) have "CHR 0x0A \<in> set h" by (auto simp: contains_iff)
  with h(2) assms(1,2) have "first_line (from_utf8_lossy h) = from_utf8_lossy line"
    by (intro first_line_lossy [of line h t rest]) simp_all
  with h(1) show ?thesis by (simp add: handle_connection_def)
qed

subsection \<open>Scrapes\<close>

lemma take_word_plain:
  "\<forall>c \<in> set w. printable c \<Longrightarrow> s = [] \<or> find_prefix white_space s \<noteq> None \<Longrightarrow> take_word (w @ s) = (w, s)"
proof (induction w)
  case Nil
  then show ?case by (cases s) auto
next
  case (Cons c w)
  have "find_prefix white_space (c # w @ s) = None"
  proof -
    have "strip_prefix p (c # w @ s) = None" if "p \<in> set white_space" for p
      using white_space_ends [OF that] Cons.prems(1) by (cases p) auto
    then show ?thesis by (simp add: find_prefix_None)
  qed
  with Cons show ?case by simp
qed

lemma trim_start_printable: "w \<noteq> [] \<Longrightarrow> printable (hd w) \<Longrightarrow> trim_start (w @ s) = w @ s"
  unfolding trim_start_def by (intro strip_all_plain) (auto dest: white_space_ends)

lemma split_whitespace_word:
  assumes "w \<noteq> []" and "\<forall>c \<in> set w. printable c"
  shows "split_whitespace (w @ CHR 0x20 # s) = w # split_whitespace (CHR 0x20 # s)" and "split_whitespace w = [w]"
proof -
  have blank: "find_prefix white_space (CHR 0x20 # s) \<noteq> None"
  proof -
    have "char_of (32::nat) = CHR 0x20" by (simp add: char_of_eq_iff)
    then have "[CHR 0x20] \<in> set white_space" by (simp add: white_space_def utf8_of_def)
    moreover have "strip_prefix [CHR 0x20] (CHR 0x20 # s) \<noteq> None" by simp
    ultimately show ?thesis unfolding find_prefix_None by (metis (full_types))
  qed
  obtain c cs where w: "w = c # cs" using assms(1) by (cases w) auto
  then have start: "trim_start (w @ r) = c # cs @ r" for r
    using trim_start_printable [of w r] assms by simp
  have "split_whitespace (w @ r) = w # split_whitespace r" if "r = [] \<or> find_prefix white_space r \<noteq> None" for r
    using start [of r] take_word_plain [OF assms(2) that] w by (simp add: split_whitespace.simps [of "c # cs @ r"] del: take_word.simps)
  moreover have "split_whitespace [] = []"
    using length_strip_all [of white_space "[]"] by (simp add: split_whitespace.simps [of "[]"] trim_start_def)
  moreover note blank
  ultimately show "split_whitespace (w @ CHR 0x20 # s) = w # split_whitespace (CHR 0x20 # s)" and "split_whitespace w = [w]"
    by (metis append.right_neutral)+
qed

lemma split_whitespace_blank: "split_whitespace (CHR 0x20 # s) = split_whitespace s"
proof -
  have "trim_start (CHR 0x20 # s) = trim_start s"
  proof -
    have "find_prefix white_space (CHR 0x20 # s) = Some s"
      by (simp add: white_space_def utf8_of_def char_of_eq_iff)
    then show ?thesis by (simp add: trim_start_def strip_all.simps [of white_space "CHR 0x20 # s"])
  qed
  then show ?thesis by (simp add: split_whitespace.simps [of "CHR 0x20 # s"] split_whitespace.simps [of s])
qed

text \<open>The endpoint serves \<open>/metrics\<close>, with or without a query, to \<open>GET\<close> and to nothing else: any other
  method is refused, any other path is not found, and a line of a single word is no request.\<close>

theorem classify_request_lines:
  assumes "list_all printable verb" and "verb \<noteq> []" and "list_all printable target" and "target \<noteq> []"
  shows "classify (verb @ '' '' @ target @ '' HTTP/1.1'') =
      (if takeWhile (\<lambda>c. c \<noteq> CHR ''?'') target \<noteq> METRICS_PATH then A_NotFound
       else if verb = ''GET'' then A_Metrics else A_MethodNotAllowed)
     \<and> classify verb = A_BadRequest"
proof (rule conjI)
  have "hd (split_on (CHR ''?'') s) = takeWhile (\<lambda>c. c \<noteq> CHR ''?'') s" for s
    by (induction s) (auto split: list.split)
  moreover have "split_whitespace (verb @ '' '' @ target @ '' HTTP/1.1'') = verb # target # split_whitespace '' HTTP/1.1''"
    using assms split_whitespace_word(1) [of verb "target @ '' HTTP/1.1''"] split_whitespace_word(1) [of target "''HTTP/1.1''"]
    by (simp add: split_whitespace_blank list_all_iff)
  ultimately show "classify (verb @ '' '' @ target @ '' HTTP/1.1'') =
      (if takeWhile (\<lambda>c. c \<noteq> CHR ''?'') target \<noteq> METRICS_PATH then A_NotFound
       else if verb = ''GET'' then A_Metrics else A_MethodNotAllowed)"
    by (simp add: classify_def)
  show "classify verb = A_BadRequest"
    using split_whitespace_word(2) [of verb] assms by (simp add: classify_def list_all_iff)
qed

definition scrape_reads :: "bytes list" where
  "scrape_reads = [''GET /met'', ''rics HTTP/1.1'' @ [CHR 0x0D], CHR 0x0A # ''Host: pi'' @ CRLF @ CRLF]"

theorem reply_follows_first_line_witness:
  "handle_connection ''text/plain'' ''up 1'' (map Got scrape_reads)
     = Some (http_response ''200 OK'' (''Content-Type: text/plain'' @ CRLF) ''up 1'')"
proof -
  let ?line = "''GET /metrics HTTP/1.1''"
  have "contains (CRLF @ CRLF) (concat scrape_reads)"
    unfolding contains_iff scrape_reads_def by (rule exI [of _ "''GET /metrics HTTP/1.1'' @ CRLF @ ''Host: pi''"]) simp
  then have head: "contains (CRLF @ CRLF) (take MAX_HEAD_BYTES (concat scrape_reads))"
    by (simp add: scrape_reads_def MAX_HEAD_BYTES_def)
  have "from_utf8_lossy ?line = ?line"
    by (rule from_utf8_lossy_ok) (simp add: from_utf8_def)
  moreover have "classify ?line = A_Metrics"
    using split_whitespace_word(1) [of "''GET''" "''/metrics HTTP/1.1''"] split_whitespace_word(1) [of "''/metrics''" "''HTTP/1.1''"]
    by (simp add: classify_def split_whitespace_blank printable_def METRICS_PATH_def)
  ultimately show ?thesis
    using reply_follows_first_line [of scrape_reads ?line "''Host: pi'' @ CRLF @ CRLF" "''text/plain''" "''up 1''" "[]"] head
    by (simp add: scrape_reads_def answer_text_def)
qed

theorem classify_request_lines_witness:
  "classify ''HEAD /metrics?x=1 HTTP/1.1'' = A_MethodNotAllowed \<and> classify ''HEAD'' = A_BadRequest"
  using classify_request_lines [of "''HEAD''" "''/metrics?x=1''"] by (simp add: printable_def METRICS_PATH_def)

end
