(* ===== verification/Weather_Cache.thy ===== *)
theory Weather_Cache imports Weather_State Weather_Archive begin

text \<open>
  \<open>adsb-weather-server/src/cache.rs\<close>: the last good grid on disk, and the atomic write the state file
  shares with it. The disk is a map from paths to contents. A write gives every state the disk goes
  through, in order: the process may die in any of them. Whether directories exist, how far a write
  gets and whether a rename works is the environment's answer; the JSON of a snapshot is a parameter.
\<close>

subsection \<open>Atomic writes\<close>

type_synonym disk = "string \<Rightarrow> bytes option"

record disk_answers =
  da_mkdir :: bool
  da_opened :: bool
  da_written :: "nat option" \<comment> \<open>how many bytes are written before it fails\<close>
  da_rename :: bool

definition temp_path :: "string \<Rightarrow> string" where
  "temp_path path = path @ ''.tmp''"

text \<open>The result, and the disk before the write, during it and at its end.\<close>

definition write_atomic :: "disk_answers \<Rightarrow> string \<Rightarrow> bytes \<Rightarrow> disk \<Rightarrow> (unit + unit) \<times> disk list" where
  "write_atomic a path content d =
     (if CHR ''/'' \<in> set path \<and> \<not> da_mkdir a \<or> \<not> da_opened a then (Inl (), [d])
      else let tmp = temp_path path;
               reached = (case da_written a of None \<Rightarrow> length content | Some n \<Rightarrow> min n (length content));
               writing = map (\<lambda>n. d(tmp \<mapsto> take n content)) [0..<Suc reached]
           in if da_written a \<noteq> None then (Inl (), d # writing)
              else if \<not> da_rename a then (Inl (), d # writing)
              else (Inr (), d # writing @ [d(tmp := None, path \<mapsto> content)]))"

datatype cache_error = Cache_Io | Cache_Snapshot snapshot_error

text \<open>\<open>readable\<close> says whether the file system lets an existing file be read.\<close>

definition cache_load :: "(bytes \<Rightarrow> string + 'v snapshot) \<Rightarrow> bool \<Rightarrow> string \<Rightarrow> disk \<Rightarrow> cache_error + 'v snapshot option" where
  "cache_load parse readable path d = (case d path of
      None \<Rightarrow> Inr None
    | Some content \<Rightarrow> if \<not> readable then Inl Cache_Io
        else (case from_json parse content of Inl e \<Rightarrow> Inl (Cache_Snapshot e) | Inr s \<Rightarrow> Inr (Some s)))"

text \<open>\<open>encode\<close> is \<open>serde_json::to_vec\<close>.\<close>

definition cache_save ::
  "('v snapshot \<Rightarrow> string + bytes) \<Rightarrow> disk_answers \<Rightarrow> string \<Rightarrow> 'v snapshot \<Rightarrow> disk \<Rightarrow> (cache_error + unit) \<times> disk list" where
  "cache_save encode a path s d = (case encode s of
      Inl e \<Rightarrow> (Inl (Cache_Snapshot (Snapshot_Json e)), [d])
    | Inr content \<Rightarrow> (case write_atomic a path content d of
          (Inl _, ds) \<Rightarrow> (Inl Cache_Io, ds)
        | (Inr _, ds) \<Rightarrow> (Inr (), ds)))"

subsection \<open>The state file on disk\<close>

text \<open>\<open>state_file.rs\<close>, \<open>load\<close> and \<open>save\<close>, over the disk.\<close>

definition disk_state_load :: "(bytes \<Rightarrow> persisted_state option) \<Rightarrow> bool \<Rightarrow> string \<Rightarrow> disk \<Rightarrow> state_file_error + persisted_state option" where
  "disk_state_load decode readable path d = (case d path of
      None \<Rightarrow> Inr None
    | Some content \<Rightarrow> if \<not> readable then Inl State_Io
        else (case decode content of None \<Rightarrow> Inl State_Json | Some s \<Rightarrow> Inr (Some s)))"

definition disk_state_save ::
  "(persisted_state \<Rightarrow> bytes option) \<Rightarrow> disk_answers \<Rightarrow> string \<Rightarrow> persisted_state \<Rightarrow> disk \<Rightarrow> (state_file_error + unit) \<times> disk list" where
  "disk_state_save encode a path s d = (case encode s of
      None \<Rightarrow> (Inl State_Json, [d])
    | Some content \<Rightarrow> (case write_atomic a path content d of
          (Inl _, ds) \<Rightarrow> (Inl State_Io, ds)
        | (Inr _, ds) \<Rightarrow> (Inr (), ds)))"

subsection \<open>What a crash leaves\<close>

lemma temp_path_other: "temp_path path \<noteq> path"
  by (simp add: temp_path_def)

lemma write_atomic_disks:
  assumes "write_atomic a path content d = (r, ds)"
  shows "ds \<noteq> []" and "d' \<in> set ds \<Longrightarrow> d' path = d path \<or> d' path = Some content"
    and "d' \<in> set ds \<Longrightarrow> p \<noteq> path \<Longrightarrow> p \<noteq> temp_path path \<Longrightarrow> d' p = d p"
    and "r = Inl e \<Longrightarrow> last ds path = d path"
    and "r = Inr u \<Longrightarrow> last ds = d(temp_path path := None, path \<mapsto> content)"
  using assms temp_path_other [of path]
  by (auto simp: write_atomic_def Let_def split: if_splits option.splits)

text \<open>C37: Saving a grid is atomic. Whatever the file system answers, and wherever the process dies, loading
  gives what it gave before the write or the new grid, and no other file changes than the temporary
  one beside it; a write that reports success left the new grid, one that failed the old.\<close>

theorem cache_survives_crash:
  assumes "encode s = Inr content" and "parse content = Inr s" and "validate_snapshot s = Inr ()"
    and "cache_save encode a path s d = (r, ds)"
  shows "(\<forall>d' \<in> set ds. cache_load parse True path d' \<in> {cache_load parse True path d, Inr (Some s)}
           \<and> (\<forall>p. p \<noteq> path \<longrightarrow> p \<noteq> temp_path path \<longrightarrow> d' p = d p))
       \<and> cache_load parse True path (last ds) = (if is_ok r then Inr (Some s) else cache_load parse True path d)"
proof -
  obtain r' where w: "write_atomic a path content d = (r', ds)" "is_ok r = is_ok r'"
    using assms(1,4) by (auto simp: cache_save_def split: prod.splits sum.splits)
  note disks = write_atomic_disks [OF w(1)]
  have new: "cache_load parse True path d' = Inr (Some s)" if "d' path = Some content" for d'
    using that assms(2,3) by (simp add: cache_load_def from_json_def split: unit.split)
  have old: "cache_load parse True path d' = cache_load parse True path d" if "d' path = d path" for d'
    using that by (simp add: cache_load_def)
  have "cache_load parse True path (last ds) = (if is_ok r then Inr (Some s) else cache_load parse True path d)"
  proof (cases r')
    case (Inl e)
    with disks(4) [OF Inl] w(2) show ?thesis using old [of "last ds"] by simp
  next
    case (Inr u)
    with disks(5) [OF Inr] w(2) show ?thesis using new [of "last ds"] by simp
  qed
  moreover have "cache_load parse True path d' \<in> {cache_load parse True path d, Inr (Some s)}"
    and "p \<noteq> path \<longrightarrow> p \<noteq> temp_path path \<longrightarrow> d' p = d p" if "d' \<in> set ds" for d' p
    using disks(2) [OF that] disks(3) [OF that] old [of d'] new [of d'] by auto
  ultimately show ?thesis by simp
qed

definition empty_grid :: "nat snapshot" where
  "empty_grid = \<lparr>sn_version = SNAPSHOT_VERSION, sn_source = ''open-meteo'', sn_attribution = [], sn_model = ''best_match'',
     sn_fetched_at_ms = 1, sn_valid_time_ms = 2,
     sn_grid = \<lparr>g_lat0 = F_fin 47, g_lon0 = F_fin 0, g_dlat = F_fin 1, g_dlon = F_fin 1, g_nlat = 0, g_nlon = 0\<rparr>,
     sn_surface = \<lparr>sf_mslp = [], sf_wind_speed = [], sf_wind_dir = []\<rparr>, sn_levels = []\<rparr>"

definition parse_grid :: "bytes \<Rightarrow> string + nat snapshot" where
  "parse_grid content = (if content = ''grid'' then Inr empty_grid else Inl ''EOF while parsing'')"

theorem cache_survives_crash_witness:
  "let a = \<lparr>da_mkdir = True, da_opened = True, da_written = Some 2, da_rename = True\<rparr>;
       (r, ds) = cache_save (\<lambda>s. Inr ''grid'') a ''run/cache'' empty_grid [''run/cache'' \<mapsto> ''old''];
       (r', ds') = cache_save (\<lambda>s. Inr ''grid'') (a\<lparr>da_written := None\<rparr>) ''run/cache'' empty_grid (last ds)
   in cache_load parse_grid True ''run/cache'' (last ds) = Inl (Cache_Snapshot (Snapshot_Json ''EOF while parsing''))
    \<and> last ds ''run/cache.tmp'' = Some ''gr'' \<and> cache_load parse_grid True ''run/cache'' (last ds') = Inr (Some empty_grid)"
proof -
  let ?a = "\<lparr>da_mkdir = True, da_opened = True, da_written = Some 2, da_rename = True\<rparr>"
  have valid: "validate_snapshot empty_grid = Inr ()"
    by (simp add: validate_snapshot_def empty_grid_def ensure_len_def grid_len_def)
  have parse: "parse_grid ''grid'' = Inr empty_grid" by (simp add: parse_grid_def)
  obtain r ds where s1: "cache_save (\<lambda>s. Inr ''grid'') ?a ''run/cache'' empty_grid [''run/cache'' \<mapsto> ''old''] = (r, ds)"
    by fastforce
  obtain r' ds' where s2: "cache_save (\<lambda>s. Inr ''grid'') (?a\<lparr>da_written := None\<rparr>) ''run/cache'' empty_grid (last ds) = (r', ds')"
    by fastforce
  have fail: "\<not> is_ok r" "last ds ''run/cache.tmp'' = Some ''gr''"
    using s1 by (auto simp: cache_save_def write_atomic_def temp_path_def Let_def)
  have ok: "is_ok r'" using s2 by (auto simp: cache_save_def write_atomic_def Let_def)
  have "cache_load parse_grid True ''run/cache'' (last ds) = Inl (Cache_Snapshot (Snapshot_Json ''EOF while parsing''))"
    using cache_survives_crash [where parse = parse_grid and s = empty_grid and encode = "\<lambda>s. Inr ''grid''" and content = "''grid''", OF refl parse valid s1] fail(1) by (simp add: cache_load_def from_json_def parse_grid_def)
  moreover have "cache_load parse_grid True ''run/cache'' (last ds') = Inr (Some empty_grid)"
    using cache_survives_crash [where parse = parse_grid and s = empty_grid and encode = "\<lambda>s. Inr ''grid''" and content = "''grid''", OF refl parse valid s2] ok by simp
  ultimately show ?thesis using fail(2) s1 s2 by (simp only: Let_def prod.case)
qed

subsection \<open>The state file refines the store\<close>

text \<open>What \<open>Weather_State\<close> sees of a disk.\<close>

definition state_file_on :: "(bytes \<Rightarrow> persisted_state option) \<Rightarrow> string \<Rightarrow> disk \<Rightarrow> state_file" where
  "state_file_on decode path d = (case d path of
      None \<Rightarrow> No_File
    | Some content \<Rightarrow> (case decode content of None \<Rightarrow> Unreadable_File | Some s \<Rightarrow> Stored s))"

text \<open>Writing the state file on disk refines the store that takes a write as one step that works or
  fails: the store's file is the disk's before and after, both report the same, and a process that
  dies during the write comes back with the state before it or with the new one. Loading refines
  likewise.\<close>

theorem state_file_refines_store:
  assumes "encode s = Some content" and "decode content = Some s"
    and "disk_state_save encode a path s d = (r, ds)" and "ss_file store = state_file_on decode path d"
  shows "store_save s (store\<lparr>ss_disk := is_ok r # answers\<rparr>)
       = (if is_ok r then Inr () else Inl State_Io, store\<lparr>ss_disk := answers, ss_file := state_file_on decode path (last ds)\<rparr>)
    \<and> (\<forall>d' \<in> set ds. state_file_on decode path d' \<in> {ss_file store, Stored s})
    \<and> disk_state_load decode True path d = store_load (ss_file store)"
    (is "?save \<and> ?crash \<and> ?load")
proof (intro conjI)
  obtain r' where w: "write_atomic a path content d = (r', ds)" "is_ok r = is_ok r'"
    using assms(1,3) by (auto simp: disk_state_save_def split: prod.splits sum.splits)
  note disks = write_atomic_disks [OF w(1)]
  have new: "state_file_on decode path d' = Stored s" if "d' path = Some content" for d'
    using that assms(2) by (simp add: state_file_on_def)
  have old: "state_file_on decode path d' = ss_file store" if "d' path = d path" for d'
    using that assms(4) by (simp add: state_file_on_def)
  have "state_file_on decode path (last ds) = (if is_ok r then Stored s else ss_file store)"
  proof (cases r')
    case (Inl e)
    with disks(4) [OF Inl] w(2) show ?thesis using old [of "last ds"] by simp
  next
    case (Inr u)
    with disks(5) [OF Inr] w(2) show ?thesis using new [of "last ds"] by simp
  qed
  then show ?save by (simp add: store_save_def Let_def)
  show ?crash using disks(2) old new by blast
  show ?load using assms(4) by (auto simp: disk_state_load_def store_load_def state_file_on_def split: option.splits)
qed

theorem state_file_refines_store_witness:
  "let s = \<lparr>ps_enabled = False, ps_not_before_ms = None\<rparr>;
       store = \<lparr>ss_persistent = True, ss_state = default_persisted, ss_file = No_File, ss_disk = [True]\<rparr>
   in store_save s store = (Inr (), store\<lparr>ss_disk := [], ss_file := Stored s\<rparr>)"
proof -
  let ?s = "\<lparr>ps_enabled = False, ps_not_before_ms = None\<rparr>"
  let ?a = "\<lparr>da_mkdir = True, da_opened = True, da_written = None, da_rename = True\<rparr>"
  let ?decode = "\<lambda>b. if b = ''off'' then Some ?s else None"
  obtain r ds where save: "disk_state_save (\<lambda>s. Some ''off'') ?a ''run/state'' ?s Map.empty = (r, ds)" by fastforce
  then have r: "is_ok r" "last ds ''run/state'' = Some ''off''"
    by (auto simp: disk_state_save_def write_atomic_def temp_path_def Let_def)
  show ?thesis
    using state_file_refines_store [where encode = "\<lambda>s. Some ''off''" and content = "''off''" and decode = ?decode
        and store = "\<lparr>ss_persistent = True, ss_state = default_persisted, ss_file = No_File, ss_disk = [True]\<rparr>"
        and answers = "[]", OF refl _ save] r
    by (simp add: state_file_on_def Let_def)
qed

end
