(* ===== verification/Weather_Api.thy ===== *)
theory Weather_Api imports Weather_State begin

text \<open>
  The control API of the weather service: the contract \<open>api.rs\<close>, the handlers and routes of
  \<open>api_server.rs\<close> and the client \<open>api_client.rs\<close>. What travels is a reply's status and body; the network
  between the two ends, the JSON of \<open>serde_json\<close> and the text of an error of the state file are
  parameters. Routing is that of the registered routes, with \<open>axum\<close>'s answers for the others.
\<close>

subsection \<open>The contract\<close>

definition STATUS_PATH :: string where "STATUS_PATH = ''/v1/status''"
definition ENABLED_PATH :: string where "ENABLED_PATH = ''/v1/enabled''"

record api_json =
  aj_setting :: "bool \<Rightarrow> bytes"
  aj_parse_setting :: "bytes \<Rightarrow> string + bool" \<comment> \<open>or the text of the rejection\<close>
  aj_error :: "string \<Rightarrow> bytes"
  aj_parse_error :: "bytes \<Rightarrow> string option"
  aj_status :: "weather_status \<Rightarrow> bytes"
  aj_parse_status :: "bytes \<Rightarrow> string + weather_status"

subsection \<open>The server\<close>

record reply =
  rp_status :: nat
  rp_body :: bytes

definition error_reply :: "api_json \<Rightarrow> nat \<Rightarrow> string \<Rightarrow> reply" where
  "error_reply j code message = \<lparr>rp_status = code, rp_body = aj_error j message\<rparr>"

text \<open>What became of the blocking task: it executed, or it was lost before or after the command executed in it.\<close>

datatype blocking = Joined | Join_Failed string bool

definition put_enabled ::
  "api_json \<Rightarrow> (state_file_error \<Rightarrow> string) \<Rightarrow> blocking \<Rightarrow> bytes \<Rightarrow> control \<Rightarrow> reply \<times> control" where
  "put_enabled j show_error b body c =
     (case aj_parse_setting j body of
        Inl rejection \<Rightarrow> (error_reply j 400 rejection, c)
      | Inr enabled \<Rightarrow>
         (case b of
            Join_Failed e executed \<Rightarrow> (error_reply j 500 e, if executed then snd (set_enabled enabled c) else c)
          | Joined \<Rightarrow> (case set_enabled enabled c of
                (Inr _, c) \<Rightarrow> (\<lparr>rp_status = 202, rp_body = aj_setting j enabled\<rparr>, c)
              | (Inl e, c) \<Rightarrow> (error_reply j 500 (show_error e), c))))"

definition get_status :: "api_json \<Rightarrow> weather_status \<Rightarrow> reply" where
  "get_status j s = \<lparr>rp_status = 200, rp_body = aj_status j s\<rparr>"

datatype http_verb = GET | PUT | Other_Verb

record request =
  rq_verb :: http_verb
  rq_path :: string
  rq_body :: bytes

definition api_routes ::
  "api_json \<Rightarrow> (state_file_error \<Rightarrow> string) \<Rightarrow> blocking \<Rightarrow> weather_status \<Rightarrow> request \<Rightarrow> control \<Rightarrow> reply \<times> control" where
  "api_routes j show_error b s rq c =
     (if rq_path rq = STATUS_PATH
      then (if rq_verb rq = GET then (get_status j s, c) else (\<lparr>rp_status = 405, rp_body = []\<rparr>, c))
      else if rq_path rq = ENABLED_PATH
      then (if rq_verb rq = PUT then put_enabled j show_error b (rq_body rq) c else (\<lparr>rp_status = 405, rp_body = []\<rparr>, c))
      else (\<lparr>rp_status = 404, rp_body = []\<rparr>, c))"

subsection \<open>The client\<close>

datatype api_error = Unreachable string string | Bad_Status string nat "string option" | Undecodable string string

text \<open>The base URL; building the HTTP client is assumed to work.\<close>

definition api_client_new :: "string \<Rightarrow> string" where
  "api_client_new base_url = rev (dropWhile (\<lambda>c. c = CHR ''/'') (rev base_url))"

text \<open>\<open>unreachable\<close>: an error with its causes.\<close>

definition unreachable :: "string \<Rightarrow> string list \<Rightarrow> api_error" where
  "unreachable url causes = Unreachable url (join_with '': '' causes)"

text \<open>What came back: no reply, one whose body was cut off, or a whole one.\<close>

datatype response = Not_Sent "string list" | Cut_Off nat "string list" | Whole reply

definition check_reply :: "api_json \<Rightarrow> string \<Rightarrow> response \<Rightarrow> api_error + bytes" where
  "check_reply j url r = (case r of
      Not_Sent causes \<Rightarrow> Inl (unreachable url causes)
    | Cut_Off _ causes \<Rightarrow> Inl (unreachable url causes)
    | Whole rp \<Rightarrow>
        if 200 \<le> rp_status rp \<and> rp_status rp < 300 then Inr (rp_body rp)
        else Inl (Bad_Status url (rp_status rp) (aj_parse_error j (rp_body rp))))"

definition enabled_request :: "api_json \<Rightarrow> bool \<Rightarrow> request" where
  "enabled_request j enabled = \<lparr>rq_verb = PUT, rq_path = ENABLED_PATH, rq_body = aj_setting j enabled\<rparr>"

definition client_set_enabled :: "api_json \<Rightarrow> string \<Rightarrow> response \<Rightarrow> api_error + unit" where
  "client_set_enabled j base_url r =
     (case check_reply j (base_url @ ENABLED_PATH) r of Inl e \<Rightarrow> Inl e | Inr _ \<Rightarrow> Inr ())"

definition status_request :: request where
  "status_request = \<lparr>rq_verb = GET, rq_path = STATUS_PATH, rq_body = []\<rparr>"

definition client_status :: "api_json \<Rightarrow> string \<Rightarrow> response \<Rightarrow> api_error + weather_status" where
  "client_status j base_url r =
     (case check_reply j (base_url @ STATUS_PATH) r of
        Inl e \<Rightarrow> Inl e
      | Inr body \<Rightarrow> (case aj_parse_status j body of
            Inl e \<Rightarrow> Inl (Undecodable (base_url @ STATUS_PATH) e)
          | Inr s \<Rightarrow> Inr s))"

definition show_api_error :: "api_error \<Rightarrow> string" where
  "show_api_error e = (case e of
      Unreachable url message \<Rightarrow> ''weather service at '' @ url @ '' is unreachable: '' @ message
        @ ''. Is it running with its control API enabled (http_port), and bound where this machine can reach it ([weather] http_bind)?''
    | Bad_Status url code error \<Rightarrow> ''weather service at '' @ url @ '' answered HTTP '' @ nat_str code
        @ (case error of None \<Rightarrow> [] | Some e \<Rightarrow> '': '' @ e)
    | Undecodable url message \<Rightarrow> ''unexpected reply from the weather service at '' @ url @ '': '' @ message)"

subsection \<open>A command over the network\<close>

text \<open>The request may be lost, the reply may be lost or cut off, or both arrive within the time.\<close>

datatype link = Request_Lost "string list" | Reply_Lost "string list" | Reply_Cut "string list" | Delivered

definition command_over ::
  "api_json \<Rightarrow> (state_file_error \<Rightarrow> string) \<Rightarrow> link \<Rightarrow> blocking \<Rightarrow> weather_status \<Rightarrow> string \<Rightarrow> bool \<Rightarrow> control
    \<Rightarrow> (api_error + unit) \<times> control" where
  "command_over j show_error l b s base_url enabled c =
     (let (rp, c') = api_routes j show_error b s (enabled_request j enabled) c
      in case l of
           Request_Lost causes \<Rightarrow> (client_set_enabled j base_url (Not_Sent causes), c)
         | Reply_Lost causes \<Rightarrow> (client_set_enabled j base_url (Not_Sent causes), c')
         | Reply_Cut causes \<Rightarrow> (client_set_enabled j base_url (Cut_Off (rp_status rp) causes), c')
         | Delivered \<Rightarrow> (client_set_enabled j base_url (Whole rp), c'))"

subsection \<open>What a command promises\<close>

definition well_encoded :: "api_json \<Rightarrow> bool" where
  "well_encoded j \<longleftrightarrow> (\<forall>b. aj_parse_setting j (aj_setting j b) = Inr b) \<and> (\<forall>e. aj_parse_error j (aj_error j e) = Some e)"

text \<open>The setting in use is the one of the store, and of the file where there is one.\<close>

definition in_step :: "control \<Rightarrow> bool" where
  "in_step c \<longleftrightarrow> (ss_persistent (ct_store c) \<longrightarrow> durable (ct_store c)) \<and> ct_desired c = ps_enabled (ss_state (ct_store c))"

lemma update_persistent [simp]: "ss_persistent (snd (store_update change s)) = ss_persistent s"
  by (auto simp: store_update_def store_save_def Let_def split: prod.splits)

lemma set_enabled_persistent [simp]: "ss_persistent (ct_store (snd (set_enabled b c))) = ss_persistent (ct_store c)"
  by (simp add: set_enabled_def split_def split: sum.split)

lemma set_enabled_in_step: "in_step c \<Longrightarrow> in_step (snd (set_enabled b c))"
  using update_durable [of "ct_store c" "\<lambda>s. s\<lparr>ps_enabled := b\<rparr>"]
  by (auto simp: in_step_def set_enabled_def store_update_def store_save_def Let_def split: prod.splits sum.splits if_splits)

lemma state_op_in_step:
  "in_step c \<Longrightarrow> in_step (run_state_op x c) \<and> ss_persistent (ct_store (run_state_op x c)) = ss_persistent (ct_store c)"
proof (cases x)
  case (Not_Before t)
  assume "in_step c"
  with Not_Before update_durable [of "ct_store c" "\<lambda>s. s\<lparr>ps_not_before_ms := t\<rparr>"] show ?thesis
    by (auto simp: in_step_def store_update_def store_save_def Let_def split: prod.splits if_splits)
qed (simp add: set_enabled_in_step)

text \<open>A service since its start, with any commands and not-before times behind it.\<close>

definition served_since :: "bool \<Rightarrow> state_file \<Rightarrow> bool list \<Rightarrow> state_op list \<Rightarrow> control" where
  "served_since has_path f disk ops = fold run_state_op ops (control_new (fst (store_open has_path f disk)))"

lemma served_in_step: "in_step (served_since has_path f disk ops)" "ss_persistent (ct_store (served_since has_path f disk ops)) = has_path"
proof -
  have "in_step (fold run_state_op ops c) \<and> ss_persistent (ct_store (fold run_state_op ops c)) = ss_persistent (ct_store c)"
    if "in_step c" for c using that
  proof (induction ops arbitrary: c)
    case (Cons x ops)
    with state_op_in_step [OF Cons.prems, of x] show ?case by simp
  qed simp
  moreover have "in_step (control_new (fst (store_open has_path f disk)))"
    using open_durable [of f disk] by (cases has_path) (simp_all add: in_step_def control_new_def store_open_def)
  moreover have "ss_persistent (fst (store_open has_path f disk)) = has_path" by (simp add: store_open_def Let_def split_def)
  ultimately show "in_step (served_since has_path f disk ops)" "ss_persistent (ct_store (served_since has_path f disk ops)) = has_path"
    by (simp_all add: served_since_def control_new_def)
qed

lemma set_enabled_result:
  "set_enabled b c = (Inr u, c') \<Longrightarrow> in_step c \<Longrightarrow> ct_desired c' = b \<and> in_step c'"
  "set_enabled b c = (Inl e, c') \<Longrightarrow> ct_desired c' = ct_desired c \<and> ss_file (ct_store c') = ss_file (ct_store c)"
  using set_enabled_in_step [of c b] failed_write_changes_nothing [of b c]
  by (auto simp: set_enabled_def split: prod.splits sum.splits)

text \<open>What a restart with the same settings would come back with.\<close>

definition after_restart :: "control \<Rightarrow> bool" where
  "after_restart c = ps_enabled (ss_state (fst (store_open (ss_persistent (ct_store c)) (ss_file (ct_store c)) [])))"

lemma in_step_restart: "in_step c \<Longrightarrow> after_restart c = (ss_persistent (ct_store c) \<longrightarrow> ct_desired c)"
  by (cases "ss_persistent (ct_store c)")
     (simp_all add: in_step_def after_restart_def durable_reopens, simp add: store_open_def default_persisted_def)


definition plain_json :: api_json where
  "plain_json = \<lparr>aj_setting = \<lambda>b. if b then ''true'' else ''false'',
     aj_parse_setting = \<lambda>s. if s = ''true'' then Inr True else if s = ''false'' then Inr False else Inl ''not a setting'',
     aj_error = id, aj_parse_error = Some, aj_status = \<lambda>_. [], aj_parse_status = \<lambda>_. Inl ''no status''\<rparr>"

definition fresh_control :: "bool list \<Rightarrow> control" where
  "fresh_control disk = control_new (fst (store_open True No_File disk))"

lemma fresh_served: "fresh_control disk = served_since True No_File disk []"
  by (simp add: fresh_control_def served_since_def)


end
