(* ===== verification/Timestamps.thy ===== *)
theory Timestamps imports Flights begin

text \<open>
  \<open>parse_timestamp_to_ms\<close> of \<open>storage.rs\<close>: from the wall-clock text of an SBS-1 line to an instant. The
  parser of \<open>chrono\<close> and the zones of \<open>chrono-tz\<close> are parameters, and so is the clock; instants and wall
  times are milliseconds, a wall time counted as if it were UTC.
\<close>

subsection \<open>Reading a timestamp\<close>

text \<open>\<open>chrono::LocalResult\<close>\<close>

datatype local_result = No_Time | Single_Time int | Ambiguous_Time int int

record time_env =
  te_parse :: "string \<Rightarrow> string \<Rightarrow> int option" \<comment> \<open>text and format\<close>
  te_local :: "int \<Rightarrow> local_result"
  te_zone :: "string \<Rightarrow> (int \<Rightarrow> local_result) option"
  te_now :: int

definition should_warn_at :: "nat \<Rightarrow> bool" where
  "should_warn_at n \<longleftrightarrow> n = 1 \<or> n mod 1000 = 0"

definition in_zone :: "(int \<Rightarrow> local_result) \<Rightarrow> int \<Rightarrow> int" where
  "in_zone zone naive = (case zone naive of Single_Time t \<Rightarrow> t | _ \<Rightarrow> naive)"

text \<open>The instant, and the counter of unparseable timestamps with whether this one is logged.\<close>

definition parse_timestamp_to_ms :: "time_env \<Rightarrow> string \<Rightarrow> string \<Rightarrow> u64 \<Rightarrow> int \<times> u64 \<times> bool" where
  "parse_timestamp_to_ms env line_time tz unparseable =
     (let naive = (case te_parse env line_time ''%Y/%m/%d %H:%M:%S%.3f'' of
           Some dt \<Rightarrow> Some dt
         | None \<Rightarrow> te_parse env line_time ''%Y/%m/%d %H:%M:%S'')
      in case naive of
           None \<Rightarrow> (te_now env, unparseable + 1, should_warn_at (unat (unparseable + 1)))
         | Some naive \<Rightarrow>
            (if tz = ''UTC'' then naive
             else if tz = ''Local'' then in_zone (te_local env) naive
             else (case te_zone env tz of
                 Some zone \<Rightarrow> in_zone zone naive
               | None \<Rightarrow> in_zone (te_local env) naive), unparseable, False))"

subsection \<open>Zones\<close>

text \<open>What \<open>chrono\<close> says of a zone whose clocks show \<open>t + offset t\<close> at the instant \<open>t\<close>.\<close>

definition resolves :: "(int \<Rightarrow> int) \<Rightarrow> (int \<Rightarrow> local_result) \<Rightarrow> bool" where
  "resolves offset zone \<longleftrightarrow> (\<forall>n. case zone n of
      No_Time \<Rightarrow> \<forall>t. t + offset t \<noteq> n
    | Single_Time t \<Rightarrow> t + offset t = n \<and> (\<forall>t'. t' + offset t' = n \<longrightarrow> t' = t)
    | Ambiguous_Time s t \<Rightarrow> s \<noteq> t \<and> s + offset s = n \<and> t + offset t = n)"

definition ambiguous :: "(int \<Rightarrow> int) \<Rightarrow> int \<Rightarrow> bool" where
  "ambiguous offset t \<longleftrightarrow> (\<exists>t'. t' \<noteq> t \<and> t' + offset t' = t + offset t)"

text \<open>The time that is stored for an instant: the text of its wall time, read back.\<close>

definition stored_time :: "(int \<Rightarrow> int) \<Rightarrow> (int \<Rightarrow> local_result) \<Rightarrow> int \<Rightarrow> int" where
  "stored_time offset zone t = in_zone zone (t + offset t)"

lemma stored_time_cases:
  assumes "resolves offset zone"
  shows "stored_time offset zone t = (if ambiguous offset t then t + offset t else t)"
proof -
  have "case zone (t + offset t) of
      No_Time \<Rightarrow> \<forall>t'. t' + offset t' \<noteq> t + offset t
    | Single_Time s \<Rightarrow> s + offset s = t + offset t \<and> (\<forall>t'. t' + offset t' = t + offset t \<longrightarrow> t' = s)
    | Ambiguous_Time s s' \<Rightarrow> s \<noteq> s' \<and> s + offset s = t + offset t \<and> s' + offset s' = t + offset t"
    using assms by (simp add: resolves_def)
  then show ?thesis
    by (cases "zone (t + offset t)") (auto simp: stored_time_def in_zone_def ambiguous_def, metis+)
qed

text \<open>The instant that is stored for a line is the instant its receiver meant, in UTC, in a named zone and
  in the local one, with or without milliseconds in the text, as long as its wall time occurs once;
  in the hour that occurs twice it is shifted by the zone's offset. An unknown zone is the local
  one, and text that is no timestamp is stored at the clock's time, counted and logged first and then
  every thousandth time.\<close>

theorem stored_instant:
  assumes "resolves offset zone" and "te_parse env line_time ''%Y/%m/%d %H:%M:%S%.3f'' = Some (t + offset t)
       \<or> te_parse env line_time ''%Y/%m/%d %H:%M:%S%.3f'' = None
         \<and> te_parse env line_time ''%Y/%m/%d %H:%M:%S'' = Some (t + offset t)"
    and "tz = ''UTC'' \<and> offset = (\<lambda>_. 0) \<or> tz = ''Local'' \<and> te_local env = zone
       \<or> tz \<notin> {''UTC'', ''Local''} \<and> (te_zone env tz = Some zone \<or> te_zone env tz = None \<and> te_local env = zone)"
  shows "parse_timestamp_to_ms env line_time tz unparseable
       = (if ambiguous offset t then t + offset t else t, unparseable, False)"
proof -
  let ?naive = "case te_parse env line_time ''%Y/%m/%d %H:%M:%S%.3f'' of
      Some dt \<Rightarrow> Some dt | None \<Rightarrow> te_parse env line_time ''%Y/%m/%d %H:%M:%S''"
  have naive: "?naive = Some (t + offset t)" using assms(2) by auto
  have "parse_timestamp_to_ms env line_time tz unparseable =
      (if tz = ''UTC'' then t + offset t
       else if tz = ''Local'' then in_zone (te_local env) (t + offset t)
       else (case te_zone env tz of
           Some zone \<Rightarrow> in_zone zone (t + offset t)
         | None \<Rightarrow> in_zone (te_local env) (t + offset t)), unparseable, False)"
    unfolding parse_timestamp_to_ms_def Let_def naive by simp
  moreover have "\<not> ambiguous offset t" if "tz = ''UTC''" using assms(3) that by (auto simp: ambiguous_def)
  ultimately show ?thesis
    using assms(3) stored_time_cases [OF assms(1), of t] by (auto simp: stored_time_def)
qed

subsection \<open>The hour that occurs twice\<close>

text \<open>C31: In the hour that a zone repeats, a continuous flight is split. An aircraft seen just before the
  hour and again in it is stored with the zone's offset between the two sightings; when that exceeds
  the gap of a flight, the second begins a new one, however close together they were.\<close>

theorem repeated_hour_splits_flight:
  assumes "resolves offset zone" and "\<not> ambiguous offset t" and "ambiguous offset u"
    and "st_gap st < u + offset u - t" and "st_tracker st (hex_ident p) = None" and "hex_ident q = hex_ident p"
    and "\<forall>f \<in> set (st_flights st). fl_hex f \<noteq> hex_ident p \<and> fl_id f \<notin> {flight_key (hex_ident p) 0, flight_key (hex_ident p) 1}"
  shows "let (r, st') = insert_batch [(p, stored_time offset zone t), (q, stored_time offset zone u)] st
         in r = Inr () \<and> filter (\<lambda>f. fl_hex f = hex_ident p) (st_flights st')
              = [new_flight (hex_ident p) 0 p t, new_flight (hex_ident p) 1 q (u + offset u)]"
proof -
  have none: "list_ex (\<lambda>r. fl_id r = flight_key (hex_ident p) n) (st_flights st) = False" if "n = 0 \<or> n = 1" for n
    using assms(7) that by (auto simp: list_ex_iff)
  have "filter (\<lambda>f. fl_hex f = hex_ident p) (map (update_flight Map.empty) (st_flights st)) = []"
    using assms(7) by (auto simp: filter_empty_conv update_flight_def)
  with none [of 0] none [of 1] show ?thesis
    using assms(4-6)
    by (simp add: insert_batch_def stored_time_cases [OF assms(1)] assms(2,3) assign_flight_def new_flight_def Let_def
        update_flight_def)
qed

subsection \<open>An autumn night\<close>

text \<open>A zone two hours ahead of UTC whose clocks go back by one at the instant 100000000.\<close>

definition autumn_offset :: "int \<Rightarrow> int" where
  "autumn_offset t = (if t < 100000000 then 7200000 else 3600000)"

definition autumn_zone :: "int \<Rightarrow> local_result" where
  "autumn_zone n = (let summer = n - 7200000; winter = n - 3600000
     in if summer < 100000000 \<and> 100000000 \<le> winter then Ambiguous_Time summer winter
        else if summer < 100000000 then Single_Time summer else Single_Time winter)"

lemma autumn_resolves: "resolves autumn_offset autumn_zone"
  by (auto simp: resolves_def autumn_zone_def autumn_offset_def Let_def split: if_splits)

lemma autumn_hour: "ambiguous autumn_offset t \<longleftrightarrow> 96400000 \<le> t \<and> t < 103600000"
proof
  assume "96400000 \<le> t \<and> t < 103600000"
  then show "ambiguous autumn_offset t" unfolding ambiguous_def autumn_offset_def
    by (intro exI [of _ "if t < 100000000 then t + 3600000 else t - 3600000"]) auto
qed (auto simp: ambiguous_def autumn_offset_def split: if_splits)

definition autumn_env :: time_env where
  "autumn_env = \<lparr>te_parse = \<lambda>text format. if text = ''1970/01/02 06:46:40.000'' then Some 110800000 else None,
     te_local = Single_Time, te_zone = \<lambda>name. if name = ''Europe/Paris'' then Some autumn_zone else None, te_now = 7\<rparr>"

theorem stored_instant_witness:
  "parse_timestamp_to_ms autumn_env ''1970/01/02 06:46:40.000'' ''Europe/Paris'' 0 = (107200000, 0, False)"
  using stored_instant [OF autumn_resolves, of autumn_env "''1970/01/02 06:46:40.000''" 107200000 "''Europe/Paris''" 0]
  by (simp add: autumn_hour autumn_env_def autumn_offset_def)

theorem repeated_hour_splits_flight_witness:
  "let (r, st') = insert_batch [(sample_position ''A'' None, stored_time autumn_offset autumn_zone 96399999),
       (sample_position ''A'' None, stored_time autumn_offset autumn_zone 96400000)] (storage_empty ''pi'' 300000)
   in r = Inr () \<and> length (st_flights st') = 2"
proof -
  let ?p = "sample_position ''A'' None" and ?st = "storage_empty ''pi'' 300000"
  let ?batch = "[(?p, stored_time autumn_offset autumn_zone 96399999), (?p, stored_time autumn_offset autumn_zone 96400000)]"
  obtain r st' where i: "insert_batch ?batch ?st = (r, st')" by fastforce
  have "r = Inr () \<and> filter (\<lambda>f. fl_hex f = hex_ident ?p) (st_flights st')
      = [new_flight (hex_ident ?p) 0 ?p 96399999, new_flight (hex_ident ?p) 1 ?p 103600000]"
    using repeated_hour_splits_flight [OF autumn_resolves, of 96399999 96400000 ?st ?p ?p] i
    by (simp add: autumn_hour autumn_offset_def storage_empty_def sample_position_def)
  then have "r = Inr ()" "2 \<le> length (st_flights st')"
    using length_filter_le [of "\<lambda>f. fl_hex f = hex_ident ?p" "st_flights st'"] by simp_all
  moreover have "length (st_flights st') \<le> 2"
    using i by (auto simp: insert_batch_def storage_empty_def assign_flight_def sample_position_def Let_def split: prod.splits if_splits option.splits)
  ultimately show ?thesis using i by simp
qed

end
