(* ===== verification/Arrow_Queries.thy ===== *)
theory Arrow_Queries imports Storage_Statistics begin

text \<open>
  The queries of \<open>storage.rs\<close> that answer as Arrow IPC streams. A stream is the messages the writer of
  the \<open>arrow\<close> crate puts on it: the schema, record batches, the end. How the engine cuts the rows of a
  query into batches is a parameter; it loses none and keeps their order.
\<close>

subsection \<open>Streams\<close>

datatype 'r ipc_message = Ipc_Schema "string list" | Ipc_Batch "'r list" | Ipc_End

definition write_arrow_ipc :: "string list \<Rightarrow> 'r list list \<Rightarrow> 'r ipc_message list" where
  "write_arrow_ipc columns batches =
     (if batches = [] then [] else Ipc_Schema columns # map Ipc_Batch batches @ [Ipc_End])"

definition POSITION_COLUMNS :: "string list" where
  "POSITION_COLUMNS = [''hex_ident'', ''callsign'', ''latitude'', ''longitude'', ''altitude'', ''ground_speed'', ''track'',
     ''vertical_rate'', ''squawk'', ''is_on_ground'', ''timestamp_ms'']"

definition FLIGHT_COLUMNS :: "string list" where
  "FLIGHT_COLUMNS = [''hex_ident'', ''flight_num'', ''flight_id'', ''callsign'', ''position_count'', ''first_seen_ms'',
     ''last_seen_ms'', ''min_altitude'', ''max_altitude'']"

definition RAW_COLUMNS :: "string list" where
  "RAW_COLUMNS = [''hex_ident'', ''msg_type'', ''transmission_type'', ''timestamp_ms'', ''raw_message'', ''source_id'']"

definition query_bbox_arrow :: "(position_row list \<Rightarrow> position_row list list) \<Rightarrow> bbox_query \<Rightarrow> storage \<Rightarrow> position_row ipc_message list" where
  "query_bbox_arrow split_rows q st = write_arrow_ipc POSITION_COLUMNS (split_rows
     (take (bq_limit q) (sort_key (\<lambda>r. (pr_hex r, pr_ts r))
       (filter (\<lambda>r. between (pr_latitude r) (bq_south q) (bq_north q)
                   \<and> between (pr_longitude r) (bq_west q) (bq_east q)
                   \<and> pr_latitude r \<noteq> None \<and> pr_longitude r \<noteq> None
                   \<and> in_window (bq_start_ms q) (bq_end_ms q) (pr_ts r)) (st_positions st)))))"

definition get_flight_summary_arrow ::
  "(flight list \<Rightarrow> flight list list) \<Rightarrow> int option \<Rightarrow> int option \<Rightarrow> storage \<Rightarrow> flight ipc_message list" where
  "get_flight_summary_arrow split_rows start_ms end_ms st = write_arrow_ipc FLIGHT_COLUMNS (split_rows
     (sort_key (\<lambda>f. - fl_last f)
       (filter (\<lambda>f. (case start_ms of None \<Rightarrow> True | Some s \<Rightarrow> s \<le> fl_last f)
                  \<and> (case end_ms of None \<Rightarrow> True | Some e \<Rightarrow> fl_first f \<le> e)) (st_flights st))))"

definition query_raw_messages_arrow ::
  "(raw_row list \<Rightarrow> raw_row list list) \<Rightarrow> raw_message_query \<Rightarrow> storage \<Rightarrow> raw_row ipc_message list" where
  "query_raw_messages_arrow split_rows q st = write_arrow_ipc RAW_COLUMNS (split_rows
     (take 10000 (sort_key rr_ts
       (filter (\<lambda>r. rr_hex r = rq_hex_ident q \<and> rq_start_ms q \<le> rr_ts r \<and> rr_ts r \<le> rq_end_ms q) (st_raw st)))))"

record trajectory_query =
  tq_hex_ident :: string
  tq_start_ms :: "int option"
  tq_end_ms :: "int option"

definition trajectory_rows :: "trajectory_query \<Rightarrow> storage \<Rightarrow> position_row list" where
  "trajectory_rows q st = get_trajectory (tq_hex_ident q) (tq_start_ms q) (tq_end_ms q) st"

text \<open>The writer is created by the first query, with the column of the flight id, and gets the batches of
  each query with that column filled in.\<close>

definition batch_step ::
  "(position_row list \<Rightarrow> position_row list list) \<Rightarrow> storage \<Rightarrow> trajectory_query \<times> string
    \<Rightarrow> (position_row \<times> string) ipc_message list \<Rightarrow> (position_row \<times> string) ipc_message list" where
  "batch_step split_rows st = (\<lambda>(q, flight_id) out.
     (if out = [] then [Ipc_Schema (POSITION_COLUMNS @ [''flight_id''])] else out)
       @ map (\<lambda>b. Ipc_Batch (map (\<lambda>r. (r, flight_id)) b)) (split_rows (trajectory_rows q st)))"

definition get_trajectories_batch_arrow ::
  "(position_row list \<Rightarrow> position_row list list) \<Rightarrow> (trajectory_query \<times> string) list \<Rightarrow> storage
    \<Rightarrow> (position_row \<times> string) ipc_message list" where
  "get_trajectories_batch_arrow split_rows queries st =
     (let out = fold (batch_step split_rows st) queries [] in if out = [] then [] else out @ [Ipc_End])"

subsection \<open>Reading a stream back\<close>

text \<open>What a reader gets from a stream: nothing from no bytes, and from a well-formed stream its rows.\<close>

fun batch_rows :: "'r ipc_message list \<Rightarrow> 'r list option" where
  "batch_rows (Ipc_Batch b # ms) = map_option (\<lambda>rs. b @ rs) (batch_rows ms)"
| "batch_rows [Ipc_End] = Some []"
| "batch_rows _ = None"

fun read_arrow :: "'r ipc_message list \<Rightarrow> 'r list option" where
  "read_arrow [] = Some []"
| "read_arrow (Ipc_Schema columns # ms) = batch_rows ms"
| "read_arrow _ = None"

definition cuts :: "('r list \<Rightarrow> 'r list list) \<Rightarrow> bool" where
  "cuts split_rows \<longleftrightarrow> (\<forall>rs. concat (split_rows rs) = rs)"

lemma batch_rows_batches: "batch_rows (map Ipc_Batch bs @ [Ipc_End]) = Some (concat bs)"
  by (induction bs) auto

lemma read_write_arrow:
  assumes "cuts split_rows"
  shows "read_arrow (write_arrow_ipc columns (split_rows rs)) = Some rs"
proof -
  have "concat (split_rows rs) = rs" using assms by (simp add: cuts_def)
  then show ?thesis
    by (cases "split_rows rs = []") (auto simp: write_arrow_ipc_def batch_rows_batches)
qed

lemma batch_steps:
  "fold (batch_step split_rows st) queries out =
     (if queries = [] then out
      else (if out = [] then [Ipc_Schema (POSITION_COLUMNS @ [''flight_id''])] else out)
        @ map Ipc_Batch (concat (map (\<lambda>(q, i). map (map (\<lambda>r. (r, i))) (split_rows (trajectory_rows q st))) queries)))"
proof (induction queries arbitrary: out)
  case (Cons x queries)
  then show ?case by (cases x) (auto simp: batch_step_def comp_def)
qed simp

text \<open>The Arrow queries say what the plain ones say. However the engine cuts the rows into batches, the
  stream of a bounding box, of the flights of a window and of raw messages reads back as the rows of
  the plain query, and that of a batch of trajectories as the trajectories one after another, each
  row with the flight it was asked for, so that the rows of one flight are its trajectory.\<close>

theorem arrow_queries_agree:
  assumes "cuts split_rows" and "cuts split_flights" and "cuts split_raw" and "distinct (map snd queries)"
  shows "read_arrow (query_bbox_arrow split_rows bq st) = Some (query_bbox bq st)
       \<and> read_arrow (get_flight_summary_arrow split_flights start_ms end_ms st) = Some (get_flight_summary start_ms end_ms st)
       \<and> map_option (map rr_message) (read_arrow (query_raw_messages_arrow split_raw rq st))
           = Some (map raw_message (query_raw_messages rq st))
       \<and> (\<exists>rows. read_arrow (get_trajectories_batch_arrow split_rows queries st) = Some rows
            \<and> (\<forall>(q, i) \<in> set queries. map fst (filter (\<lambda>x. snd x = i) rows)
                 = get_trajectory (tq_hex_ident q) (tq_start_ms q) (tq_end_ms q) st))"
proof (intro conjI)
  show "read_arrow (query_bbox_arrow split_rows bq st) = Some (query_bbox bq st)"
    by (simp only: query_bbox_arrow_def query_bbox_def read_write_arrow [OF assms(1)])
  show "read_arrow (get_flight_summary_arrow split_flights start_ms end_ms st) = Some (get_flight_summary start_ms end_ms st)"
    by (simp only: get_flight_summary_arrow_def get_flight_summary_def read_write_arrow [OF assms(2)])
  show "map_option (map rr_message) (read_arrow (query_raw_messages_arrow split_raw rq st)) = Some (map raw_message (query_raw_messages rq st))"
    unfolding query_raw_messages_arrow_def query_raw_messages_def read_write_arrow [OF assms(3)] by simp
  let ?rows = "concat (map (\<lambda>(q, i). map (\<lambda>r. (r, i)) (trajectory_rows q st)) queries)"
  have concat_cut: "concat (split_rows rs) = rs" for rs using assms(1) by (simp add: cuts_def)
  have "concat (concat (map (\<lambda>(q, i). map (map (\<lambda>r. (r, i))) (split_rows (trajectory_rows q st))) qs))
      = concat (map (\<lambda>(q, i). map (\<lambda>r. (r, i)) (trajectory_rows q st)) qs)" for qs :: "(trajectory_query \<times> string) list"
    by (induction qs) (auto simp flip: map_concat simp: concat_cut)
  then have "read_arrow (get_trajectories_batch_arrow split_rows queries st) = Some ?rows"
    by (simp add: get_trajectories_batch_arrow_def batch_steps batch_rows_batches)
  moreover have "map fst (filter (\<lambda>x. snd x = i) ?rows) = trajectory_rows q st" if "(q, i) \<in> set queries" for q i
    using assms(4) that
  proof (induction queries)
    case (Cons x queries)
    have other: "filter (\<lambda>x. snd x = i) (concat (map (\<lambda>(q, i). map (\<lambda>r. (r, i)) (trajectory_rows q st)) qs)) = []"
      if "i \<notin> snd ` set qs" for qs using that by (induction qs) (auto simp: filter_empty_conv)
    show ?case
    proof (cases "x = (q, i)")
      case True
      with Cons.prems(1) have "i \<notin> snd ` set queries" by auto
      with True other [of queries] show ?thesis by (simp add: filter_map comp_def)
    next
      case False
      with Cons.prems(2) have q: "(q, i) \<in> set queries" by simp
      then have "i \<in> snd ` set queries" by force
      with Cons.prems(1) q have "snd x \<noteq> i" "(q, i) \<in> set queries" by auto
      with Cons show ?thesis by (cases x) (simp add: filter_map comp_def)
    qed
  qed simp
  ultimately show "\<exists>rows. read_arrow (get_trajectories_batch_arrow split_rows queries st) = Some rows
      \<and> (\<forall>(q, i) \<in> set queries. map fst (filter (\<lambda>x. snd x = i) rows)
           = get_trajectory (tq_hex_ident q) (tq_start_ms q) (tq_end_ms q) st)"
    by (intro exI [of _ ?rows]) (auto simp: trajectory_rows_def)
qed

definition row_by_row :: "'r list \<Rightarrow> 'r list list" where
  "row_by_row rs = map (\<lambda>r. [r]) rs"

lemma row_by_row_cuts: "cuts row_by_row"
  by (simp add: cuts_def row_by_row_def)

theorem arrow_queries_agree_witness:
  "\<exists>rows. read_arrow (get_trajectories_batch_arrow row_by_row
       [(\<lparr>tq_hex_ident = ''A'', tq_start_ms = None, tq_end_ms = None\<rparr>, ''A_0'')] (storage_empty ''pi'' 100)) = Some rows
     \<and> map fst (filter (\<lambda>x. snd x = ''A_0'') rows) = get_trajectory ''A'' None None (storage_empty ''pi'' 100)"
  using arrow_queries_agree [OF row_by_row_cuts row_by_row_cuts row_by_row_cuts,
      of "[(\<lparr>tq_hex_ident = ''A'', tq_start_ms = None, tq_end_ms = None\<rparr>, ''A_0'')]" undefined "storage_empty ''pi'' 100"]
  by simp

end
