(* ===== verification/Storage_Open.thy ===== *)
theory Storage_Open imports Flight_Bootstrap Quack_Share begin

text \<open>
  \<open>StorageHandle::open\<close>: what a process gets when it opens a database, its own or one whose observed
  tables are another process's. What is on disk are the tables; the tracker lives in the process.
  Each statement that can fail is an answer of the environment.
\<close>

record open_answers =
  oa_directory :: "storage_error + unit" \<comment> \<open>creating the parent directories\<close>
  oa_connect :: "storage_error + unit"
  oa_authored :: "storage_error + unit" \<comment> \<open>the schema of authored tables\<close>
  oa_observed :: "storage_error + unit"
  oa_load :: "storage_error + unit" \<comment> \<open>the Quack extension\<close>
  oa_attach :: "string \<Rightarrow> storage_error + unit"
  oa_view :: "string \<Rightarrow> storage_error + unit"
  oa_bootstrap :: "storage_error + unit"
  oa_rebuild :: "storage_error + unit"
  oa_quack :: quack_answers

record opened =
  op_storage :: storage
  op_views :: "string list option" \<comment> \<open>the tables that are views of a remote catalog\<close>
  op_sharing :: sharing

fun all_ok :: "('e + unit) list \<Rightarrow> 'e + unit" where
  "all_ok [] = Inr ()"
| "all_ok (Inl e # rs) = Inl e"
| "all_ok (Inr _ # rs) = all_ok rs"

text \<open>The tables of the file, as the process that opens it sees them before it reads any.\<close>

definition attached :: "storage_config \<Rightarrow> storage \<Rightarrow> storage" where
  "attached c d = d\<lparr>st_source_id := so_source_id c, st_gap := so_gap_threshold_ms c, st_tracker := Map.empty\<rparr>"

definition available_views :: "open_answers \<Rightarrow> string list" where
  "available_views env = map fst (filter (\<lambda>(table, sql). is_ok (oa_view env sql)) (remote_view_statements REMOTE_CATALOG))"

definition storage_open :: "open_answers \<Rightarrow> storage_config \<Rightarrow> storage \<Rightarrow> storage_error + opened" where
  "storage_open env c d =
     (let connect = (case so_db_path c of
            Some path \<Rightarrow> [oa_directory env, oa_connect env] | None \<Rightarrow> [oa_connect env])
      in case all_ok (connect @ [oa_authored env]) of
           Inl e \<Rightarrow> Inl e
         | Inr _ \<Rightarrow> (case so_remote c of
             None \<Rightarrow> (case all_ok [oa_observed env, oa_bootstrap env, oa_rebuild env] of
                 Inl e \<Rightarrow> Inl e
               | Inr _ \<Rightarrow> Inr \<lparr>op_storage = rebuild_flight_tracker (bootstrap_flights (attached c d)),
                             op_views = None, op_sharing = open_sharing (oa_quack env) c\<rparr>)
           | Some remote \<Rightarrow> (case all_ok [oa_load env, oa_attach env (attach_sql remote REMOTE_CATALOG)] of
                 Inl e \<Rightarrow> Inl e
               | Inr _ \<Rightarrow> Inr \<lparr>op_storage = attached c d, op_views = Some (available_views env),
                             op_sharing = open_sharing (oa_quack env) c\<rparr>)))"

lemma all_ok_iff: "all_ok rs = Inr u \<longleftrightarrow> (\<forall>r \<in> set rs. is_ok r)"
proof (induction rs)
  case (Cons r rs)
  then show ?case by (cases r) auto
qed simp

subsection \<open>Coming back\<close>

text \<open>What a process leaves on disk.\<close>

definition left_on_disk :: "storage \<Rightarrow> storage" where
  "left_on_disk st = st\<lparr>st_source_id := [], st_gap := 0, st_tracker := Map.empty\<rparr>"

definition embedded :: "string \<Rightarrow> int \<Rightarrow> storage_config \<Rightarrow> bool" where
  "embedded src gap c \<longleftrightarrow> so_remote c = None \<and> so_source_id c = src \<and> so_gap_threshold_ms c = gap"

text \<open>C15: A process that opens the database of a process before it goes on where that one stopped. When its
  statements work and the positions of each aircraft had come in time order, it holds the same tables
  and the same tracker, so that it treats every later batch as the first process would have; whether
  sharing starts has no part in it.\<close>

theorem reopened_storage_continues:
  assumes "list_all (list_all no_nan_alt) bs" and "0 \<le> gap" and "in_time_order Map.empty (concat bs)"
    and "embedded src gap c" and "storage_open env c (left_on_disk (snd (insert_batches bs (storage_empty src gap)))) = Inr h"
  shows "op_storage h = snd (insert_batches bs (storage_empty src gap))"
proof -
  from insert_batches_fold [OF assms(1), of src gap] obtain st where
    st: "insert_batches bs (storage_empty src gap) = (replicate (length bs) (Inr ()), st)" "st_gap st = gap"
    "(st_tracker st, st_flights st) = fold (ingest_one gap) (concat bs) (Map.empty, [])" by blast
  from settled_batches [OF assms(1-3), of src] st(1) have settled: "settled gap (st_tracker st) (st_flights st)" by auto
  have positions: "st_positions st = map (position_row_of src) (concat bs)" "st_source_id st = src"
    using insert_batches_positions [of bs src gap] assms(1) st(1) by simp_all
  have "counted (st_flights st) = length (concat bs)"
    using counted_ingest_all [OF tracks_empty, of gap "concat bs"] by (simp flip: st(3) add: counted_def)
  then have flights: "st_flights st \<noteq> [] \<or> st_positions st = []" using positions(1) by (auto simp: counted_def)
  have "attached c (left_on_disk st) = st\<lparr>st_tracker := Map.empty\<rparr>"
    using assms(4) st(2) positions(2) by (simp add: attached_def left_on_disk_def embedded_def)
  moreover have "bootstrap_flights (st\<lparr>st_tracker := Map.empty\<rparr>) = st\<lparr>st_tracker := Map.empty\<rparr>"
    using flights by (simp add: bootstrap_flights_def)
  moreover have "rebuild_flight_tracker (st\<lparr>st_tracker := Map.empty\<rparr>) = st"
    using rebuild_settled [OF settled refl refl] by (simp add: rebuild_flight_tracker_def)
  ultimately show ?thesis using assms(4,5) st(1)
    by (auto simp: storage_open_def embedded_def Let_def split: sum.splits)
qed

definition working :: "quack_answers \<Rightarrow> open_answers" where
  "working q = \<lparr>oa_directory = Inr (), oa_connect = Inr (), oa_authored = Inr (), oa_observed = Inr (), oa_load = Inr (),
     oa_attach = \<lambda>_. Inr (), oa_view = \<lambda>_. Inr (), oa_bootstrap = Inr (), oa_rebuild = Inr (), oa_quack = q\<rparr>"

definition no_quack :: quack_answers where
  "no_quack = \<lparr>qa_extension = Inl (DuckDb ''no network''), qa_serve = \<lambda>_. Inl (DuckDb ''no network''), qa_stop = \<lambda>_. Inr ()\<rparr>"

theorem reopened_storage_continues_witness:
  "let st = snd (insert_batches [[(sample_position ''A1'' None, 0)], [(sample_position ''A1'' None, 9)]] (storage_empty ''pi'' 3600000));
       c = default_storage_config\<lparr>so_source_id := ''pi''\<rparr>
   in \<exists>h. storage_open (working no_quack) c (left_on_disk st) = Inr h \<and> op_storage h = st"
proof -
  let ?bs = "[[(sample_position ''A1'' None, 0)], [(sample_position ''A1'' None, 9)]]"
  let ?st = "snd (insert_batches ?bs (storage_empty ''pi'' 3600000))" and ?c = "default_storage_config\<lparr>so_source_id := ''pi''\<rparr>"
  obtain h where h: "storage_open (working no_quack) ?c (left_on_disk ?st) = Inr h"
    by (simp add: storage_open_def working_def default_storage_config_def)
  have "op_storage h = ?st"
    by (rule reopened_storage_continues [OF _ _ _ _ h])
       (simp_all add: no_nan_alt_def sample_position_def embedded_def default_storage_config_def)
  with h show ?thesis by (simp add: Let_def)
qed

subsection \<open>A remote catalog\<close>

text \<open>Opening a remote catalog takes what there is. Once it is attached the open works whatever views cannot
  be made: each observed table the catalog has is readable under its name, the others are missing and
  take none with them, and no observed table of the file is touched. Sharing decides nothing: it may
  fail in any way without changing whether the open works or what it gives.\<close>

theorem remote_open_tolerates_missing_tables:
  assumes "so_remote c = Some remote" and "is_ok (oa_directory env)" and "is_ok (oa_connect env)" and "is_ok (oa_authored env)"
    and "is_ok (oa_load env)" and "is_ok (oa_attach env (attach_sql remote REMOTE_CATALOG))"
  shows "\<exists>h views. storage_open env c d = Inr h \<and> op_views h = Some views
       \<and> views = filter (\<lambda>t. is_ok (oa_view env
            (''CREATE OR REPLACE VIEW '' @ t @ '' AS SELECT * FROM edge.'' @ t @ '';''))) OBSERVED_TABLES
       \<and> st_positions (op_storage h) = st_positions d \<and> st_flights (op_storage h) = st_flights d
       \<and> st_raw (op_storage h) = st_raw d
       \<and> (\<forall>q. storage_open (env\<lparr>oa_quack := q\<rparr>) c d = Inr (h\<lparr>op_sharing := open_sharing q c\<rparr>))"
proof -
  have views: "available_views env = filter (\<lambda>t. is_ok (oa_view env
      (''CREATE OR REPLACE VIEW '' @ t @ '' AS SELECT * FROM edge.'' @ t @ '';''))) OBSERVED_TABLES"
  proof -
    have "map fst (filter (\<lambda>(t, s). P s) (map (\<lambda>t. (t, g t)) ts)) = filter (\<lambda>t. P (g t)) ts" for P g and ts :: "string list"
      by (induction ts) auto
    then show ?thesis unfolding available_views_def remote_view_statements_def REMOTE_CATALOG_def by simp
  qed
  have opens: "storage_open e c d = Inr \<lparr>op_storage = attached c d, op_views = Some (available_views e),
      op_sharing = open_sharing (oa_quack e) c\<rparr>"
    if "is_ok (oa_directory e)" "is_ok (oa_connect e)" "is_ok (oa_authored e)" "is_ok (oa_load e)"
      "is_ok (oa_attach e (attach_sql remote REMOTE_CATALOG))" for e
  proof -
    have "all_ok ((case so_db_path c of Some path \<Rightarrow> [oa_directory e, oa_connect e] | None \<Rightarrow> [oa_connect e]) @ [oa_authored e]) = Inr ()"
      "all_ok [oa_load e, oa_attach e (attach_sql remote REMOTE_CATALOG)] = Inr ()"
      using that by (auto simp: all_ok_iff split: option.split)
    then show ?thesis using assms(1) by (simp add: storage_open_def)
  qed
  have "available_views (env\<lparr>oa_quack := q\<rparr>) = available_views env" for q by (simp add: available_views_def)
  with opens [of env] opens [of "env\<lparr>oa_quack := q\<rparr>" for q] assms(2-) show ?thesis by (simp add: views attached_def)
qed

theorem remote_open_tolerates_missing_tables_witness:
  "\<exists>h. storage_open ((working no_quack)\<lparr>oa_view := \<lambda>s. if contains ''weather'' s then Inl (DuckDb ''no such table'') else Inr ()\<rparr>)
       (default_storage_config\<lparr>so_remote := Some \<lparr>rm_uri = ''quack:pi.lan:9494'', rm_token = None, rm_disable_ssl = None\<rparr>\<rparr>)
       (storage_empty ''pi'' 100) = Inr h
     \<and> (\<exists>views. op_views h = Some views \<and> ''weather_snapshots'' \<notin> set views)"
proof -
  let ?env = "(working no_quack)\<lparr>oa_view := \<lambda>s. if contains ''weather'' s then Inl (DuckDb ''no such table'') else Inr ()\<rparr>"
  let ?c = "default_storage_config\<lparr>so_remote := Some \<lparr>rm_uri = ''quack:pi.lan:9494'', rm_token = None, rm_disable_ssl = None\<rparr>\<rparr>"
  have missing: "contains ''weather'' (''CREATE OR REPLACE VIEW weather'' @ s)" for s
    unfolding contains_iff by (rule exI [of _ "''CREATE OR REPLACE VIEW ''"]) simp
  have "contains ''weather'' (''CREATE OR REPLACE VIEW '' @ ''weather_snapshots'' @ s)" for s
    using missing [of "''_snapshots'' @ s"] by simp
  then show ?thesis
    using remote_open_tolerates_missing_tables [of ?c "\<lparr>rm_uri = ''quack:pi.lan:9494'', rm_token = None, rm_disable_ssl = None\<rparr>" ?env "storage_empty ''pi'' 100"]
    by (auto simp: working_def)
qed

end
