(* ===== verification/Tool_Server.thy ===== *)
theory Tool_Server imports Storage_Statistics Stored_Events Scenarios Weather_Archive Quack_Share begin

text \<open>
  The read-only tools of the data server: the service functions of \<open>tool_service.rs\<close>, which the desktop's
  commands share, and the dispatch of \<open>server.rs\<close> with its envelope. A storage that was released is
  \<open>None\<close>; a query that the engine fails is an answer of the environment. JSON values are a parameter,
  with the decoding of each tool's arguments and the encoding of results.
\<close>

subsection \<open>The service\<close>

definition STORAGE_UNAVAILABLE :: string where "STORAGE_UNAVAILABLE = ''Storage not available''"

text \<open>The tables of a database; a remote catalog may lack the weather.\<close>

record tables =
  tb_storage :: storage
  tb_status :: "status_row list"
  tb_events :: "event_of_interest list"
  tb_scenarios :: scenario_store
  tb_weather :: "weather_record list option"

type_synonym engine = "string option" \<comment> \<open>the error of a query that fails\<close>

definition with_storage :: "engine \<Rightarrow> ('t \<Rightarrow> string + 'a) \<Rightarrow> 't option \<Rightarrow> string + 'a" where
  "with_storage engine f shared = (case shared of
      None \<Rightarrow> Inl STORAGE_UNAVAILABLE
    | Some db \<Rightarrow> (case engine of Some e \<Rightarrow> Inl e | None \<Rightarrow> f db))"

definition error_text :: "storage_error + 'a \<Rightarrow> string + 'a" where
  "error_text r = map_sum show_storage_error id r"

definition service_stats :: "engine \<Rightarrow> tables option \<Rightarrow> string + storage_stats" where
  "service_stats engine = with_storage engine (\<lambda>db. Inr (get_stats (length (tb_status db)) (length (tb_events db))
     (map_option length (tb_weather db)) (tb_storage db)))"

definition service_aircraft_summary :: "engine \<Rightarrow> int option \<Rightarrow> int option \<Rightarrow> tables option \<Rightarrow> string + aircraft_summary list" where
  "service_aircraft_summary engine start_ms end_ms = with_storage engine (\<lambda>db. Inr (get_aircraft_summary start_ms end_ms (tb_storage db)))"

definition service_flight_summary :: "engine \<Rightarrow> int option \<Rightarrow> int option \<Rightarrow> tables option \<Rightarrow> string + flight list" where
  "service_flight_summary engine start_ms end_ms = with_storage engine (\<lambda>db. Inr (get_flight_summary start_ms end_ms (tb_storage db)))"

definition service_trajectory :: "engine \<Rightarrow> string \<Rightarrow> int option \<Rightarrow> int option \<Rightarrow> tables option \<Rightarrow> string + position_row list" where
  "service_trajectory engine hex start_ms end_ms = with_storage engine (\<lambda>db. Inr (get_trajectory hex start_ms end_ms (tb_storage db)))"

definition service_time_distribution ::
  "(int \<Rightarrow> int \<Rightarrow> int) \<Rightarrow> engine \<Rightarrow> time_distribution_query \<Rightarrow> tables option \<Rightarrow> string + time_bucket list" where
  "service_time_distribution cast_div engine q = with_storage engine (\<lambda>db. Inr (get_time_distribution cast_div q (tb_storage db)))"

definition service_hourly_heatmap :: "engine \<Rightarrow> heatmap_query \<Rightarrow> tables option \<Rightarrow> string + heatmap_cell list" where
  "service_hourly_heatmap engine q = with_storage engine (\<lambda>db. Inr (get_hourly_heatmap q (tb_storage db)))"

definition service_events_of_interest :: "engine \<Rightarrow> event_of_interest_query \<Rightarrow> tables option \<Rightarrow> string + event_of_interest list" where
  "service_events_of_interest engine q = with_storage engine (\<lambda>db. Inr (query_events_of_interest q (tb_events db)))"

definition service_scenarios :: "engine \<Rightarrow> tables option \<Rightarrow> string + scenario list" where
  "service_scenarios engine = with_storage engine (\<lambda>db. Inr (list_scenarios (tb_scenarios db)))"

definition service_scenario :: "engine \<Rightarrow> string \<Rightarrow> tables option \<Rightarrow> string + scenario \<times> scenario_track list" where
  "service_scenario engine i = with_storage engine (\<lambda>db. error_text (get_scenario i (tb_scenarios db)))"

text \<open>A query of a table the catalog lacks is an error of the engine.\<close>

definition no_table :: "string + 'a" where
  "no_table = Inl (show_storage_error (DuckDb ''Catalog Error''))"

definition service_weather_snapshots :: "engine \<Rightarrow> weather_query \<Rightarrow> tables option \<Rightarrow> string + weather_meta list" where
  "service_weather_snapshots engine q = with_storage engine (\<lambda>db. case tb_weather db of
      None \<Rightarrow> no_table | Some rows \<Rightarrow> Inr (query_weather_snapshots q rows))"

definition service_weather_snapshot :: "engine \<Rightarrow> weather_key \<Rightarrow> tables option \<Rightarrow> string + weather_record option" where
  "service_weather_snapshot engine k = with_storage engine (\<lambda>db. case tb_weather db of
      None \<Rightarrow> no_table | Some rows \<Rightarrow> Inr (get_weather_snapshot k rows))"

subsection \<open>Dispatch\<close>

datatype tool_result =
    TR_Stats storage_stats
  | TR_Aircraft "aircraft_summary list"
  | TR_Flights "flight list"
  | TR_Trajectory "position_row list"
  | TR_Distribution "time_bucket list"
  | TR_Heatmap "heatmap_cell list"
  | TR_Events "event_of_interest list"
  | TR_Weather_List "weather_meta list"
  | TR_Weather "weather_record option"
  | TR_Scenarios "scenario list"
  | TR_Scenario "scenario \<times> scenario_track list"

text \<open>\<open>serde_json\<close>: the null value, the empty object, the decoders of arguments and the encoder of results.\<close>

record 'j codec =
  cd_null :: 'j
  cd_empty :: 'j
  cd_window :: "'j \<Rightarrow> string + int option \<times> int option"
  cd_trajectory :: "'j \<Rightarrow> string + string \<times> int option \<times> int option"
  cd_distribution :: "'j \<Rightarrow> string + time_distribution_query"
  cd_heatmap :: "'j \<Rightarrow> string + heatmap_query"
  cd_events :: "'j \<Rightarrow> string + event_of_interest_query"
  cd_weather_query :: "'j \<Rightarrow> string + weather_query"
  cd_weather_key :: "'j \<Rightarrow> string + weather_key"
  cd_scenario_id :: "'j \<Rightarrow> string + string"
  cd_encode :: "tool_result \<Rightarrow> string + 'j"

definition parse_args :: "'j codec \<Rightarrow> ('j \<Rightarrow> string + 'a) \<Rightarrow> 'j \<Rightarrow> string + 'a" where
  "parse_args c decode args = (case decode (if args = cd_null c then cd_empty c else args) of
      Inl e \<Rightarrow> Inl (''Invalid arguments: '' @ e) | Inr a \<Rightarrow> Inr a)"

datatype 'j envelope = Reply_Ok 'j | Reply_Error string

definition and_then :: "string + 'a \<Rightarrow> ('a \<Rightarrow> string + 'b) \<Rightarrow> string + 'b" where
  "and_then r f = (case r of Inl e \<Rightarrow> Inl e | Inr a \<Rightarrow> f a)"

definition dispatch ::
  "'j codec \<Rightarrow> (int \<Rightarrow> int \<Rightarrow> int) \<Rightarrow> engine \<Rightarrow> tables option \<Rightarrow> string \<Rightarrow> 'j \<Rightarrow> 'j envelope" where
  "dispatch c cast_div engine shared name args =
     (let result =
       (if name = ''getStorageStats'' then and_then (service_stats engine shared) (cd_encode c \<circ> TR_Stats)
        else if name = ''getAircraftSummary'' then and_then (parse_args c (cd_window c) args)
          (\<lambda>(s, e). and_then (service_aircraft_summary engine s e shared) (cd_encode c \<circ> TR_Aircraft))
        else if name = ''getFlightSummary'' then and_then (parse_args c (cd_window c) args)
          (\<lambda>(s, e). and_then (service_flight_summary engine s e shared) (cd_encode c \<circ> TR_Flights))
        else if name = ''getTrajectory'' then and_then (parse_args c (cd_trajectory c) args)
          (\<lambda>(h, s, e). and_then (service_trajectory engine h s e shared) (cd_encode c \<circ> TR_Trajectory))
        else if name = ''getTimeDistribution'' then and_then (parse_args c (cd_distribution c) args)
          (\<lambda>q. and_then (service_time_distribution cast_div engine q shared) (cd_encode c \<circ> TR_Distribution))
        else if name = ''getHourlyHeatmap'' then and_then (parse_args c (cd_heatmap c) args)
          (\<lambda>q. and_then (service_hourly_heatmap engine q shared) (cd_encode c \<circ> TR_Heatmap))
        else if name = ''getEventsOfInterest'' then and_then (parse_args c (cd_events c) args)
          (\<lambda>q. and_then (service_events_of_interest engine q shared) (cd_encode c \<circ> TR_Events))
        else if name = ''getWeatherSnapshots'' then and_then (parse_args c (cd_weather_query c) args)
          (\<lambda>q. and_then (service_weather_snapshots engine q shared) (cd_encode c \<circ> TR_Weather_List))
        else if name = ''getWeatherSnapshot'' then and_then (parse_args c (cd_weather_key c) args)
          (\<lambda>k. and_then (service_weather_snapshot engine k shared) (cd_encode c \<circ> TR_Weather))
        else if name = ''listScenarios'' then and_then (service_scenarios engine shared) (cd_encode c \<circ> TR_Scenarios)
        else if name = ''getScenario'' then and_then (parse_args c (cd_scenario_id c) args)
          (\<lambda>i. and_then (service_scenario engine i shared) (cd_encode c \<circ> TR_Scenario))
        else Inl (''Unknown tool: '' @ name))
      in case result of Inr d \<Rightarrow> Reply_Ok d | Inl e \<Rightarrow> Reply_Error e)"

text \<open>A request without a body has the null value.\<close>

definition tool_request ::
  "'j codec \<Rightarrow> (int \<Rightarrow> int \<Rightarrow> int) \<Rightarrow> engine \<Rightarrow> tables option \<Rightarrow> string \<Rightarrow> 'j option \<Rightarrow> 'j envelope" where
  "tool_request c cast_div engine shared name body =
     dispatch c cast_div engine shared name (case body of Some v \<Rightarrow> v | None \<Rightarrow> cd_null c)"

end
