(* ===== verification/Tool_Server_Props.thy ===== *)
theory Tool_Server_Props imports Tool_Server begin

text \<open>
  What a client of the tools can rely on: what a listing shows can be fetched, and a request that cannot
  be served says why.
\<close>

lemma filter_key_distinct:
  assumes "distinct (map key xs)" and "x \<in> set xs"
  shows "filter (\<lambda>y. key y = key x) xs = [x]"
  using assms
proof (induction xs)
  case (Cons y ys)
  show ?case
  proof (cases "y = x")
    case True
    with Cons.prems(1) have "filter (\<lambda>z. key z = key x) ys = []" by (auto simp: filter_empty_conv image_iff)
    with True show ?thesis by simp
  next
    case False
    with Cons.prems have "key y \<noteq> key x" "x \<in> set ys" by (auto simp: image_iff)
    with Cons show ?thesis by simp
  qed
qed simp

lemma find_key_distinct:
  assumes "distinct (map key xs)" and "x \<in> set xs"
  shows "List.find (\<lambda>y. key y = key x) xs = Some x"
  using assms
proof (induction xs)
  case (Cons y ys)
  then show ?case by (cases "y = x") (force simp: image_iff)+
qed simp

text \<open>What the tools list they can fetch. When the weather of an hour is stored once and scenario ids are
  unique, every snapshot of a listing is fetched by its hour and receiver, with its payload, whose size
  the listing said, and every scenario of a listing by its id, with as many tracks as the listing
  counted.\<close>

theorem listed_items_can_be_fetched:
  assumes "tb_weather db = Some rows" and "distinct (map (\<lambda>w. (wr_source_id w, wr_valid_time_ms w)) rows)"
    and "distinct (map sc_id (ss_scenarios (tb_scenarios db)))"
    and "service_weather_snapshots None q (Some db) = Inr metas" and "service_scenarios None (Some db) = Inr scenarios"
  shows "(\<forall>m \<in> set metas. \<exists>w. service_weather_snapshot None
             \<lparr>wk_valid_time_ms = wr_valid_time_ms m, wk_source_id = Some (wr_source_id m)\<rparr> (Some db) = Inr (Some w)
           \<and> meta_of w = m \<and> length (wr_payload w) = wm_payload_bytes m)
       \<and> (\<forall>s \<in> set scenarios. \<exists>tracks. service_scenario None (sc_id s) (Some db) = Inr (s, tracks)
           \<and> length tracks = sc_track_count s)"
proof (intro conjI ballI)
  fix m assume "m \<in> set metas"
  moreover have "metas = query_weather_snapshots q rows"
    using assms(1,4) by (simp add: service_weather_snapshots_def with_storage_def)
  ultimately have "\<exists>w \<in> set rows. m = meta_of w"
    by (auto simp: query_weather_snapshots_def order_desc_def dest!: in_set_takeD)
  then obtain w where w: "w \<in> set rows" "m = meta_of w" by blast
  have key: "wr_valid_time_ms m = wr_valid_time_ms w" "wr_source_id m = wr_source_id w" "wm_payload_bytes m = length (wr_payload w)"
    by (simp_all add: w(2) meta_of_def weather_record.extend_def)
  have "filter (\<lambda>v. wr_valid_time_ms v = wr_valid_time_ms w \<and> wr_source_id v = wr_source_id w) rows = [w]"
    using filter_key_distinct [OF assms(2) w(1)] by (simp add: conj_commute)
  then have "get_weather_snapshot \<lparr>wk_valid_time_ms = wr_valid_time_ms m, wk_source_id = Some (wr_source_id m)\<rparr> rows = Some w"
    by (simp add: get_weather_snapshot_def key order_desc_def)
  with w(2) key(3) show "\<exists>w. service_weather_snapshot None
             \<lparr>wk_valid_time_ms = wr_valid_time_ms m, wk_source_id = Some (wr_source_id m)\<rparr> (Some db) = Inr (Some w)
           \<and> meta_of w = m \<and> length (wr_payload w) = wm_payload_bytes m"
    using assms(1) by (simp add: service_weather_snapshot_def with_storage_def)
next
  fix s assume "s \<in> set scenarios"
  moreover have "scenarios = list_scenarios (tb_scenarios db)"
    using assms(5) by (simp add: service_scenarios_def with_storage_def)
  ultimately obtain s0 where s: "s0 \<in> set (ss_scenarios (tb_scenarios db))"
      "s = s0\<lparr>sc_track_count := length (tracks_of (sc_id s0) (tb_scenarios db))\<rparr>"
    by (auto simp: list_scenarios_def order_desc_def)
  have "List.find (\<lambda>r. sc_id r = sc_id s0) (ss_scenarios (tb_scenarios db)) = Some s0"
    by (rule find_key_distinct [OF assms(3) s(1)])
  then show "\<exists>tracks. service_scenario None (sc_id s) (Some db) = Inr (s, tracks) \<and> length tracks = sc_track_count s"
    by (simp add: service_scenario_def with_storage_def error_text_def get_scenario_def s(2))
qed

text \<open>A request the tools cannot serve says why: a name that is no tool gets that name back, arguments that
  do not decode their error, and without a storage every tool says so, whatever its arguments are as
  long as they decode. A request without a body is one with an empty object.\<close>

theorem unserved_requests_explained:
  assumes "args \<noteq> cd_null c"
  shows "(name \<notin> {''getStorageStats'', ''getAircraftSummary'', ''getFlightSummary'', ''getTrajectory'', ''getTimeDistribution'',
             ''getHourlyHeatmap'', ''getEventsOfInterest'', ''getWeatherSnapshots'', ''getWeatherSnapshot'', ''listScenarios'', ''getScenario''}
           \<longrightarrow> dispatch c cast_div engine shared name args = Reply_Error (''Unknown tool: '' @ name))
       \<and> (cd_trajectory c args = Inl e \<longrightarrow> dispatch c cast_div engine shared ''getTrajectory'' args = Reply_Error (''Invalid arguments: '' @ e))
       \<and> (cd_trajectory c args = Inr t \<longrightarrow> dispatch c cast_div engine None ''getTrajectory'' args = Reply_Error ''Storage not available'')
       \<and> dispatch c cast_div engine None ''getStorageStats'' args = Reply_Error ''Storage not available''
       \<and> dispatch c cast_div engine None ''listScenarios'' args = Reply_Error ''Storage not available''
       \<and> tool_request c cast_div engine shared name None = tool_request c cast_div engine shared name (Some (cd_empty c))"
proof (intro conjI impI)
  have empty: "parse_args c d (cd_null c) = parse_args c d (cd_empty c)" for d by (simp add: parse_args_def)
  show "tool_request c cast_div engine shared name None = tool_request c cast_div engine shared name (Some (cd_empty c))"
    by (simp only: tool_request_def dispatch_def empty option.case)
qed (use assms in \<open>simp_all add: dispatch_def and_then_def parse_args_def service_trajectory_def service_stats_def
    service_scenarios_def with_storage_def STORAGE_UNAVAILABLE_def split: prod.split\<close>)

subsection \<open>A database\<close>

definition noon_weather :: weather_record where
  "noon_weather = \<lparr>wr_source_id = ''pi'', wr_valid_time_ms = 43200000, wr_fetched_at_ms = 1, wr_received_at_ms = 2,
     wr_source = ''open-meteo'', wr_model = ''best_match'', wr_version = 1, wr_lat0 = F_fin 47, wr_lon0 = F_fin 0,
     wr_dlat = F_fin 1, wr_dlon = F_fin 1, wr_nlat = 1, wr_nlon = 1, wr_levels = [], wr_payload = ''grid''\<rparr>"

definition approach :: scenario where
  "approach = new_scenario ''s1'' 5 sample_scenario"

definition small_tables :: tables where
  "small_tables = \<lparr>tb_storage = storage_empty ''pi'' 100, tb_status = [], tb_events = [],
     tb_scenarios = \<lparr>ss_scenarios = [approach], ss_tracks = []\<rparr>, tb_weather = Some [noon_weather]\<rparr>"

theorem listed_items_can_be_fetched_witness:
  "service_weather_snapshots None \<lparr>wq_start_ms = None, wq_end_ms = None, wq_limit = None\<rparr> (Some small_tables) = Inr [meta_of noon_weather]
   \<and> (\<exists>w. service_weather_snapshot None \<lparr>wk_valid_time_ms = 43200000, wk_source_id = Some ''pi''\<rparr> (Some small_tables) = Inr (Some w)
        \<and> length (wr_payload w) = 4)"
proof -
  let ?q = "\<lparr>wq_start_ms = None, wq_end_ms = None, wq_limit = None\<rparr>"
  have list: "service_weather_snapshots None ?q (Some small_tables) = Inr [meta_of noon_weather]"
    by (simp add: service_weather_snapshots_def with_storage_def small_tables_def query_weather_snapshots_def order_desc_def)
  have scen: "service_scenarios None (Some small_tables) = Inr (list_scenarios (tb_scenarios small_tables))"
    by (simp add: service_scenarios_def with_storage_def)
  have rows: "tb_weather small_tables = Some [noon_weather]" by (simp add: small_tables_def)
  have d: "distinct (map (\<lambda>w. (wr_source_id w, wr_valid_time_ms w)) [noon_weather])"
    "distinct (map sc_id (ss_scenarios (tb_scenarios small_tables)))" by (simp_all add: small_tables_def)
  from listed_items_can_be_fetched [OF rows d list scen] list show ?thesis
    by (auto simp: meta_of_def noon_weather_def weather_record.defs)
qed

definition text_codec :: "string codec" where
  "text_codec = \<lparr>cd_null = ''null'', cd_empty = ''{}'', cd_window = \<lambda>_. Inr (None, None), cd_trajectory = \<lambda>_. Inl ''missing field'',
     cd_distribution = \<lambda>_. Inl ''missing field'', cd_heatmap = \<lambda>_. Inl ''missing field'', cd_events = \<lambda>_. Inl ''missing field'',
     cd_weather_query = \<lambda>_. Inl ''missing field'', cd_weather_key = \<lambda>_. Inl ''missing field'', cd_scenario_id = \<lambda>_. Inr [],
     cd_encode = \<lambda>_. Inr ''result''\<rparr>"

theorem unserved_requests_explained_witness:
  "dispatch text_codec (\<lambda>a b. a div b) None (Some small_tables) ''panMapTo'' ''{}'' = Reply_Error ''Unknown tool: panMapTo''
   \<and> dispatch text_codec (\<lambda>a b. a div b) None (Some small_tables) ''getTrajectory'' ''{}'' = Reply_Error ''Invalid arguments: missing field''"
  using unserved_requests_explained [of "''{}''" text_codec "''panMapTo''" "\<lambda>a b. a div b" None "Some small_tables" "''missing field''"]
  by (simp add: text_codec_def)

end
