(* ===== verification/Desktop_Commands.thy ===== *)
theory Desktop_Commands imports Tool_Server Arrow_Queries Weather_Api Desktop_Weather Metrics_Export "HOL-Library.Sublist" begin

text \<open>
  The commands of the desktop client (\<open>commands.rs\<close>) that are not about opening its database or starting
  its feed: the switches of recording beside the ingest pipeline they switch, sharing, the authored
  tables, queries, metrics and the weather service's switch. A command reads the storage handle, which
  is \<open>None\<close> while the storage is released.
\<close>

subsection \<open>Recording\<close>

record recording_state =
  rs_record_positions :: bool
  rs_record_raw :: bool

definition get_recording_state :: "ingest \<Rightarrow> recording_state" where
  "get_recording_state st = \<lparr>rs_record_positions = record_positions st, rs_record_raw = record_raw st\<rparr>"

definition set_recording_state :: "recording_state \<Rightarrow> ingest \<Rightarrow> ingest" where
  "set_recording_state r st = st\<lparr>record_positions := rs_record_positions r, record_raw := rs_record_raw r\<rparr>"

text \<open>The pipeline of a feed (\<open>relay_messages\<close>), with the switches set and the storage released and
  reclaimed between its events. Its sink is the window of the client.\<close>

datatype relay_event = Pipe ingest_event | Set_Recording recording_state | Storage_Held bool

fun relay_messages ::
  "((string \<rightharpoonup> aircraft_position) \<Rightarrow> string list) \<Rightarrow> relay_event list \<Rightarrow> ingest \<Rightarrow> ingest_effect list \<times> ingest" where
  "relay_messages order [] st = ([], st)"
| "relay_messages order (Set_Recording r # es) st = relay_messages order es (set_recording_state r st)"
| "relay_messages order (Storage_Held b # es) st = relay_messages order es (st\<lparr>ig_storage := b\<rparr>)"
| "relay_messages order (Pipe Channel_Closed # es) st = flush order st"
| "relay_messages order (Pipe e # es) st =
     (let (out, st) = ingest_run order [e] st; (outs, st) = relay_messages order es st in (out @ outs, st))"

subsection \<open>Sharing\<close>

text \<open>The events the window gets are part of the result.\<close>

definition start_sharing_command ::
  "quack_answers \<Rightarrow> sharing option \<Rightarrow> (string + share_info) \<times> sharing option \<times> share_status list" where
  "start_sharing_command env handle = (case handle of
      None \<Rightarrow> (Inl STORAGE_UNAVAILABLE, None, [])
    | Some s \<Rightarrow> (case start_sharing env s of
          (Inl e, s) \<Rightarrow> (Inl (show_storage_error e), Some s, [])
        | (Inr info, s) \<Rightarrow> (Inr info, Some s, [Share_Active info])))"

definition stop_sharing_command ::
  "quack_answers \<Rightarrow> sharing option \<Rightarrow> (string + unit) \<times> sharing option \<times> share_status list" where
  "stop_sharing_command env handle = (case handle of
      None \<Rightarrow> (Inl STORAGE_UNAVAILABLE, None, [])
    | Some s \<Rightarrow> (case stop_sharing env s of
          (Inl e, s) \<Rightarrow> (Inl (show_storage_error e), Some s, [])
        | (Inr _, s) \<Rightarrow> (Inr (), Some s, [Share_Off])))"

definition sharing_status_command :: "sharing option \<Rightarrow> share_status" where
  "sharing_status_command handle = (case handle of None \<Rightarrow> Share_Off | Some s \<Rightarrow> sh_status s)"

subsection \<open>Authored tables\<close>

text \<open>A command that writes: the result as text, and the tables after it.\<close>

definition edit_tables ::
  "(tables \<Rightarrow> (storage_error + 'a) \<times> tables) \<Rightarrow> tables option \<Rightarrow> (string + 'a) \<times> tables option" where
  "edit_tables f handle = (case handle of
      None \<Rightarrow> (Inl STORAGE_UNAVAILABLE, None)
    | Some db \<Rightarrow> (let (r, db) = f db in (error_text r, Some db)))"

definition on_events ::
  "(event_of_interest list \<Rightarrow> (storage_error + 'a) \<times> event_of_interest list) \<Rightarrow> tables \<Rightarrow> (storage_error + 'a) \<times> tables" where
  "on_events f db = (let (r, rows) = f (tb_events db) in (r, db\<lparr>tb_events := rows\<rparr>))"

definition on_scenarios ::
  "(scenario_store \<Rightarrow> (storage_error + 'a) \<times> scenario_store) \<Rightarrow> tables \<Rightarrow> (storage_error + 'a) \<times> tables" where
  "on_scenarios f db = (let (r, st) = f (tb_scenarios db) in (r, db\<lparr>tb_scenarios := st\<rparr>))"

definition create_event_command ::
  "string \<Rightarrow> int \<Rightarrow> create_event_of_interest \<Rightarrow> tables option \<Rightarrow> (string + event_of_interest) \<times> tables option" where
  "create_event_command i now ev = edit_tables (on_events (insert_event_of_interest i now ev))"

definition update_event_command ::
  "int \<Rightarrow> update_event_of_interest \<Rightarrow> tables option \<Rightarrow> (string + event_of_interest) \<times> tables option" where
  "update_event_command now u = edit_tables (on_events (update_event_of_interest now u))"

definition delete_event_command ::
  "string \<Rightarrow> tables option \<Rightarrow> (string + unit) \<times> tables option" where
  "delete_event_command i = edit_tables (on_events (delete_event_of_interest i))"

definition create_scenario_command ::
  "string \<Rightarrow> int \<Rightarrow> create_scenario \<Rightarrow> tables option \<Rightarrow> (string + scenario) \<times> tables option" where
  "create_scenario_command i now c = edit_tables (on_scenarios (insert_scenario i now c))"

definition update_scenario_command ::
  "int \<Rightarrow> update_scenario \<Rightarrow> tables option \<Rightarrow> (string + scenario) \<times> tables option" where
  "update_scenario_command now u = edit_tables (on_scenarios (update_scenario now u))"

definition delete_scenario_command ::
  "string \<Rightarrow> tables option \<Rightarrow> (string + unit) \<times> tables option" where
  "delete_scenario_command i = edit_tables (on_scenarios (delete_scenario i))"

definition create_track_command ::
  "string \<Rightarrow> int \<Rightarrow> create_scenario_track \<Rightarrow> tables option \<Rightarrow> (string + scenario_track) \<times> tables option" where
  "create_track_command i now c = edit_tables (on_scenarios (insert_scenario_track i now c))"

definition update_track_command ::
  "int \<Rightarrow> update_scenario_track \<Rightarrow> tables option \<Rightarrow> (string + scenario_track) \<times> tables option" where
  "update_track_command now u = edit_tables (on_scenarios (update_scenario_track now u))"

definition delete_track_command ::
  "string \<Rightarrow> int \<Rightarrow> tables option \<Rightarrow> (string + unit) \<times> tables option" where
  "delete_track_command i now = edit_tables (on_scenarios (delete_scenario_track i now))"

definition reorder_tracks_command ::
  "int \<Rightarrow> string \<Rightarrow> string list \<Rightarrow> tables option \<Rightarrow> (string + unit) \<times> tables option" where
  "reorder_tracks_command now sid ids = edit_tables (on_scenarios (reorder_scenario_tracks now sid ids))"

subsection \<open>Queries\<close>

definition status_timeline :: "engine \<Rightarrow> status_event_query \<Rightarrow> tables option \<Rightarrow> string + status_event list" where
  "status_timeline engine q = with_storage engine (\<lambda>db. error_text (query_status_events q (tb_status db)))"

definition detection_range_command ::
  "(position_row \<Rightarrow> real) \<Rightarrow> (position_row \<Rightarrow> f64) \<Rightarrow> engine \<Rightarrow> detection_query \<Rightarrow> tables option \<Rightarrow> string + detection_sector list" where
  "detection_range_command bearing distance engine q =
     with_storage engine (\<lambda>db. Inr (get_detection_range bearing distance q (tb_storage db)))"

definition raw_messages_command :: "engine \<Rightarrow> raw_message_query \<Rightarrow> tables option \<Rightarrow> string + raw_sbs_record list" where
  "raw_messages_command engine q = with_storage engine (\<lambda>db. Inr (query_raw_messages q (tb_storage db)))"

definition raw_message_count_command :: "engine \<Rightarrow> int option \<Rightarrow> int option \<Rightarrow> tables option \<Rightarrow> string + nat" where
  "raw_message_count_command engine start_ms end_ms =
     with_storage engine (\<lambda>db. Inr (get_raw_message_count start_ms end_ms (tb_storage db)))"

definition query_bbox_command :: "engine \<Rightarrow> bbox_query \<Rightarrow> tables option \<Rightarrow> string + position_row list" where
  "query_bbox_command engine q = with_storage engine (\<lambda>db. Inr (query_bbox q (tb_storage db)))"

definition trajectories_batch_command ::
  "(position_row list \<Rightarrow> position_row list list) \<Rightarrow> engine \<Rightarrow> (trajectory_query \<times> string) list \<Rightarrow> tables option
    \<Rightarrow> string + (position_row \<times> string) ipc_message list" where
  "trajectories_batch_command split_rows engine queries =
     with_storage engine (\<lambda>db. Inr (get_trajectories_batch_arrow split_rows queries (tb_storage db)))"

definition event_of_interest_command :: "engine \<Rightarrow> string \<Rightarrow> tables option \<Rightarrow> string + event_of_interest" where
  "event_of_interest_command engine i = with_storage engine (\<lambda>db. error_text (get_event_of_interest i (tb_events db)))"

subsection \<open>The feed and the weather service\<close>

record desktop_metrics =
  dm_base :: metrics_snapshot
  dm_messages_parsed :: nat

text \<open>The handle of a running feed gives its metrics and its counter; without one, fresh metrics.\<close>

definition get_metrics_command :: "instant \<Rightarrow> instant \<Rightarrow> (metrics \<times> u64) option \<Rightarrow> desktop_metrics" where
  "get_metrics_command now later feed = (case feed of
      Some (m, parsed) \<Rightarrow> \<lparr>dm_base = metrics_snapshot_of now later m, dm_messages_parsed = unat parsed\<rparr>
    | None \<Rightarrow> \<lparr>dm_base = metrics_snapshot_of now later (metrics_new now), dm_messages_parsed = 0\<rparr>)"

text \<open>One round of the loop that sends metrics on; \<open>emitted\<close> says whether the window still takes them.\<close>

datatype metrics_wake = Metrics_Tick instant instant bool | Feed_Gone

fun relay_metrics :: "metrics_wake list \<Rightarrow> metrics \<Rightarrow> u64 \<Rightarrow> desktop_metrics list" where
  "relay_metrics [] m parsed = []"
| "relay_metrics (Feed_Gone # ws) m parsed = []"
| "relay_metrics (Metrics_Tick now later emitted # ws) m parsed =
     (if emitted then \<lparr>dm_base = metrics_snapshot_of now later m, dm_messages_parsed = unat parsed\<rparr> # relay_metrics ws m parsed
      else [])"

definition get_weather_availability :: "config \<Rightarrow> 'v snapshot option \<Rightarrow> weather_availability" where
  "get_weather_availability c held = layer_availability (source_kind c) (held \<noteq> None)"

text \<open>The service at the other end has its own state; the client's view is not touched.\<close>

definition set_weather_service_enabled ::
  "api_json \<Rightarrow> (state_file_error \<Rightarrow> string) \<Rightarrow> link \<Rightarrow> blocking \<Rightarrow> weather_status \<Rightarrow> config \<Rightarrow> bool \<Rightarrow> control
    \<Rightarrow> (string + unit) \<times> control" where
  "set_weather_service_enabled j show_error l b s c enabled service =
     (let url = api_client_new (Desktop_Weather.weather_api_url c);
          (r, service) = command_over j show_error l b s url enabled service
      in (case r of Inl e \<Rightarrow> Inl (show_api_error e) | Inr _ \<Rightarrow> Inr (), service))"

end
