(* ===== verification/Desktop_Commands_Props.thy ===== *)
theory Desktop_Commands_Props imports Desktop_Commands begin

text \<open>
  What the commands of the desktop promise while a feed runs: switching recording, or releasing the
  storage, changes what is stored and nothing that is shown.
\<close>

subsection \<open>Recording\<close>

text \<open>The pipeline without its switches.\<close>

definition unswitched :: "ingest \<Rightarrow> ingest" where
  "unswitched st = st\<lparr>ig_storage := False, record_positions := False, record_raw := False\<rparr>"

lemma unswitched_switch [simp]:
  "unswitched (set_recording_state r st) = unswitched st" "unswitched (st\<lparr>ig_storage := b\<rparr>) = unswitched st"
  by (simp_all add: unswitched_def set_recording_state_def)

lemma absorb_unswitched: "unswitched (absorb d st) = absorb d (unswitched st)"
  by (simp add: absorb_def unswitched_def Let_def split: option.split)

lemma flush_unswitched:
  "unswitched (snd (flush order st)) = unswitched (snd (flush order (unswitched st)))"
  "sunk (fst (flush order st)) = sunk (fst (flush order (unswitched st)))"
  by (simp_all add: flush_def unswitched_def Let_def persist_batch_def persist_raw_batch_def)

lemma flush_inserts: "subseq (inserted (fst (flush order st))) (sunk (fst (flush order st)))"
  "\<not> record_positions st \<or> \<not> ig_storage st \<Longrightarrow> inserted (fst (flush order st)) = []"
  by (simp_all add: flush_def Let_def persist_batch_def persist_raw_batch_def)

lemma ingest_step_unswitched:
  "unswitched st = unswitched st' \<Longrightarrow> unswitched (snd (ingest_run order [e] st)) = unswitched (snd (ingest_run order [e] st'))
     \<and> sunk (fst (ingest_run order [e] st)) = sunk (fst (ingest_run order [e] st'))"
proof (cases e)
  case (Received d now)
  assume "unswitched st = unswitched st'"
  then have "unswitched (st\<lparr>last_message_time := now\<rparr>) = unswitched (st'\<lparr>last_message_time := now\<rparr>)"
    by (cases st; cases st') (simp add: unswitched_def)
  then show ?thesis using Received by (simp add: absorb_unswitched)
qed (use flush_unswitched [of order st] flush_unswitched [of order st'] in \<open>auto simp: split_def Let_def\<close>)

fun pipeline_events :: "relay_event list \<Rightarrow> ingest_event list" where
  "pipeline_events [] = []"
| "pipeline_events (Pipe e # es) = e # pipeline_events es"
| "pipeline_events (_ # es) = pipeline_events es"

lemma relay_pipe: "relay_messages order (Pipe e # es) st =
   (if e = Channel_Closed then flush order st
    else (fst (ingest_run order [e] st) @ fst (relay_messages order es (snd (ingest_run order [e] st))),
          snd (relay_messages order es (snd (ingest_run order [e] st)))))"
  by (cases e) (simp_all add: split_def Let_def)

lemma run_pipe: "ingest_run order (e # es) st =
   (if e = Channel_Closed then flush order st
    else (fst (ingest_run order [e] st) @ fst (ingest_run order es (snd (ingest_run order [e] st))),
          snd (ingest_run order es (snd (ingest_run order [e] st)))))"
  by (cases e) (simp_all add: split_def Let_def)

text \<open>Pipelines that agree but for their switches show the same batches, whatever is switched in one of them.\<close>

lemma relay_shows_same:
  assumes "unswitched st = unswitched st'"
  shows "sunk (fst (relay_messages order es st)) = sunk (fst (ingest_run order (pipeline_events es) st'))"
  using assms
proof (induction es arbitrary: st st')
  case (Cons x es)
  show ?case
  proof (cases x)
    case (Pipe e)
    show ?thesis
    proof (cases "e = Channel_Closed")
      case True
      then show ?thesis using Pipe Cons.prems flush_unswitched(2) [of order st] flush_unswitched(2) [of order st'] by simp
    next
      case False
      note step = ingest_step_unswitched [OF Cons.prems, of order e]
      then show ?thesis using Cons.IH [of "snd (ingest_run order [e] st)" "snd (ingest_run order [e] st')"]
        by (simp only: Pipe pipeline_events.simps relay_pipe run_pipe [of order e "pipeline_events es"] False if_False fst_conv sunk_append)
    qed
  next
    case (Set_Recording r)
    then show ?thesis using Cons.IH [of "set_recording_state r st" st'] Cons.prems by simp
  next
    case (Storage_Held b)
    then show ?thesis using Cons.IH [of "st\<lparr>ig_storage := b\<rparr>" st'] Cons.prems by simp
  qed
qed simp

lemma step_stores_shown: "subseq (inserted (fst (ingest_run order [e] st))) (sunk (fst (ingest_run order [e] st)))"
  using flush_inserts(1) [of order st] by (cases e) (simp_all add: split_def Let_def)

lemma relay_stores_shown: "subseq (inserted (fst (relay_messages order es st))) (sunk (fst (relay_messages order es st)))"
proof (induction es arbitrary: st)
  case (Cons x es)
  show ?case
  proof (cases x)
    case (Pipe e)
    then show ?thesis using Cons.IH step_stores_shown [of order e st] flush_inserts(1) [of order st]
      by (auto simp: relay_pipe simp del: ingest_run.simps relay_messages.simps intro: list_emb_append_mono)
  qed (use Cons.IH in simp_all)
qed simp

lemma step_off_stores_nothing:
  assumes "\<not> record_positions st"
  shows "inserted (fst (ingest_run order [e] st)) = []" and "\<not> record_positions (snd (ingest_run order [e] st))"
  using assms flush_inserts(2) [of st order]
  by (cases e; auto simp: split_def Let_def absorb_def flush_def split: option.split)+

lemma relay_off_stores_nothing:
  assumes "\<not> record_positions st" "\<forall>r. Set_Recording r \<in> set es \<longrightarrow> \<not> rs_record_positions r"
  shows "inserted (fst (relay_messages order es st)) = []"
  using assms
proof (induction es arbitrary: st)
  case (Cons x es)
  show ?case
  proof (cases x)
    case (Pipe e)
    then show ?thesis using Cons step_off_stores_nothing [OF Cons.prems(1), of order e] flush_inserts(2) [of st order]
      by (auto simp: relay_pipe simp del: ingest_run.simps relay_messages.simps)
  next
    case (Set_Recording r)
    then show ?thesis using Cons.IH [of "set_recording_state r st"] Cons.prems by (simp add: set_recording_state_def)
  next
    case (Storage_Held b)
    then show ?thesis using Cons.IH [of "st\<lparr>ig_storage := b\<rparr>"] Cons.prems by simp
  qed
qed simp

text \<open>C35: Recording is invisible. However recording is switched and the storage released and reclaimed while
  a feed runs, the window gets the batches it would get with nothing ever switched; what is stored is
  some of them, in order, and none at all while recording stays off.\<close>

theorem recording_changes_nothing_shown:
  "sunk (fst (relay_messages order es st)) = sunk (fst (ingest_run order (pipeline_events es) st))
   \<and> subseq (inserted (fst (relay_messages order es st))) (sunk (fst (relay_messages order es st)))
   \<and> (\<not> record_positions st \<and> (\<forall>r. Set_Recording r \<in> set es \<longrightarrow> \<not> rs_record_positions r)
      \<longrightarrow> inserted (fst (relay_messages order es st)) = [])"
  using relay_shows_same [OF refl] relay_stores_shown relay_off_stores_nothing by blast

text \<open>Positions are switched off before a message comes, and nothing of the batch shown is stored.\<close>

definition recording_off :: "relay_event list" where
  "recording_off = [Set_Recording \<lparr>rs_record_positions = False, rs_record_raw = True\<rparr>,
     Pipe (Received (join_with '','' position_fields) 5), Storage_Held False, Pipe Flush_Tick, Storage_Held True, Pipe Channel_Closed]"

theorem recording_changes_nothing_shown_witness:
  "inserted (fst (relay_messages (\<lambda>m. sorted_list_of_set (dom m)) recording_off
      ((ingest_new True default_ingest_config 0)\<lparr>record_positions := False\<rparr>))) = []
   \<and> sunk (fst (relay_messages (\<lambda>m. sorted_list_of_set (dom m)) recording_off
        ((ingest_new True default_ingest_config 0)\<lparr>record_positions := False\<rparr>)))
     = sunk (fst (ingest_run (\<lambda>m. sorted_list_of_set (dom m))
        [Received (join_with '','' position_fields) 5, Flush_Tick, Channel_Closed]
        ((ingest_new True default_ingest_config 0)\<lparr>record_positions := False\<rparr>)))"
  using recording_changes_nothing_shown [of "\<lambda>m. sorted_list_of_set (dom m)" recording_off
      "(ingest_new True default_ingest_config 0)\<lparr>record_positions := False\<rparr>"]
  by (simp add: recording_off_def del: relay_messages.simps ingest_run.simps)

end
