(* ===== verification/Feed_Process.thy ===== *)
theory Feed_Process imports Feed_Client_Props Fan_Out begin

text \<open>
  The feed client as a process: loading the configuration (\<open>config.rs\<close>), the forwarders and the client
  that \<open>main.rs\<close> makes of it, the two connection modes of \<open>client.rs\<close> from start to end with what
  happens to them as a list of events, the task with which the Pulsar forwarder finds its broker,
  and the exit code. The command line as \<open>clap\<close> reads it, the text of a file and the TOML it parses to
  are arguments.
\<close>

subsection \<open>Loading the configuration\<close>

datatype config_file = Absent | Unreadable string | Contents bytes

definition load_config ::
  "(bytes \<Rightarrow> string + (string \<rightharpoonup> toml)) \<Rightarrow> (string \<Rightarrow> bool) \<Rightarrow> config_file \<Rightarrow> config \<Rightarrow> client_error + config" where
  "load_config parse is_defaulted file parsed =
     (case file of
        Absent \<Rightarrow> Inr parsed
      | Unreadable e \<Rightarrow> Inl (ConfigErr (''reading '' @ config_path parsed @ '': '' @ e))
      | Contents text \<Rightarrow> (case parse text of
            Inl e \<Rightarrow> Inl (ConfigErr (''parsing '' @ config_path parsed @ '': '' @ e))
          | Inr from_file \<Rightarrow> Inr (overlay_file from_file is_defaulted parsed)))"

subsection \<open>The forwarders of a process\<close>

text \<open>A \<open>Box<dyn MessageForwarder>\<close>.\<close>

datatype any_forwarder =
    Any_Noop
  | Any_File file_forwarder
  | Any_Mqtt mqtt_forwarder
  | Any_Pulsar pulsar_forwarder

definition wrapped :: "('f \<Rightarrow> any_forwarder) \<Rightarrow> 'r \<times> 'f \<Rightarrow> 'r \<times> any_forwarder" where
  "wrapped box = (\<lambda>(r, f). (r, box f))"

definition any_ops :: "any_forwarder forwarder_ops" where
  "any_ops = \<lparr>
     fw_connect = (\<lambda>a. case a of
        Any_Noop \<Rightarrow> fw_connect noop_ops a | Any_File f \<Rightarrow> wrapped Any_File (fw_connect file_ops f)
      | Any_Mqtt f \<Rightarrow> wrapped Any_Mqtt (fw_connect mqtt_fw_ops f) | Any_Pulsar f \<Rightarrow> wrapped Any_Pulsar (fw_connect pulsar_ops f)),
     fw_send = (\<lambda>m a. case a of
        Any_Noop \<Rightarrow> fw_send noop_ops m a | Any_File f \<Rightarrow> wrapped Any_File (fw_send file_ops m f)
      | Any_Mqtt f \<Rightarrow> wrapped Any_Mqtt (fw_send mqtt_fw_ops m f) | Any_Pulsar f \<Rightarrow> wrapped Any_Pulsar (fw_send pulsar_ops m f)),
     fw_flush = (\<lambda>a. case a of
        Any_Noop \<Rightarrow> fw_flush noop_ops a | Any_File f \<Rightarrow> wrapped Any_File (fw_flush file_ops f)
      | Any_Mqtt f \<Rightarrow> wrapped Any_Mqtt (fw_flush mqtt_fw_ops f) | Any_Pulsar f \<Rightarrow> wrapped Any_Pulsar (fw_flush pulsar_ops f)),
     fw_disconnect = (\<lambda>a. case a of
        Any_Noop \<Rightarrow> fw_disconnect noop_ops a | Any_File f \<Rightarrow> wrapped Any_File (fw_disconnect file_ops f)
      | Any_Mqtt f \<Rightarrow> wrapped Any_Mqtt (fw_disconnect mqtt_fw_ops f) | Any_Pulsar f \<Rightarrow> wrapped Any_Pulsar (fw_disconnect pulsar_ops f)),
     fw_is_connected = (\<lambda>a. case a of
        Any_Noop \<Rightarrow> fw_is_connected noop_ops a | Any_File f \<Rightarrow> fw_is_connected file_ops f
      | Any_Mqtt f \<Rightarrow> fw_is_connected mqtt_fw_ops f | Any_Pulsar f \<Rightarrow> fw_is_connected pulsar_ops f),
     fw_name = (\<lambda>a. case a of
        Any_Noop \<Rightarrow> fw_name noop_ops a | Any_File f \<Rightarrow> fw_name file_ops f
      | Any_Mqtt f \<Rightarrow> fw_name mqtt_fw_ops f | Any_Pulsar f \<Rightarrow> fw_name pulsar_ops f)\<rparr>"

definition file_new :: "string \<Rightarrow> bytes \<Rightarrow> bool list \<Rightarrow> file_forwarder" where
  "file_new path old env = \<lparr>ff_path = path, ff_writer = None, ff_file = old, ff_env = env\<rparr>"

text \<open>The Cargo features of the build, and what the outside world will answer to each kind of forwarder.\<close>

record build =
  has_pulsar :: bool
  has_mqtt :: bool
  answers :: "forwarder_kind \<Rightarrow> bool list"
  old_file :: bytes

definition build_forwarder :: "build \<Rightarrow> config \<Rightarrow> forwarder_kind \<Rightarrow> client_error + any_forwarder" where
  "build_forwarder b c kind = (case kind of
      PulsarFwd \<Rightarrow> if has_pulsar b then Inr (Any_Pulsar (pulsar_new (answers b PulsarFwd)))
        else Inl (ConfigErr ''Pulsar forwarder requested but 'pulsar' feature is not enabled. Recompile with --features pulsar or use --forwarder file.'')
    | MqttFwd \<Rightarrow> if has_mqtt b then Inr (Any_Mqtt (mqtt_fw_new c (answers b MqttFwd)))
        else Inl (ConfigErr ''MQTT forwarder requested but 'mqtt' feature is not enabled. Recompile with --features mqtt or use --forwarder pulsar|file.'')
    | FileFwd \<Rightarrow> Inr (Any_File (file_new (file_path c) (old_file b) (answers b FileFwd)))
    | NoopFwd \<Rightarrow> Inr Any_Noop)"

fun build_each :: "build \<Rightarrow> config \<Rightarrow> forwarder_kind list \<Rightarrow> client_error + any_forwarder list" where
  "build_each b c [] = Inr []"
| "build_each b c (k # ks) = (case build_forwarder b c k of
      Inl e \<Rightarrow> Inl e
    | Inr f \<Rightarrow> (case build_each b c ks of Inl e \<Rightarrow> Inl e | Inr fs \<Rightarrow> Inr (f # fs)))"

definition build_forwarders :: "build \<Rightarrow> config \<Rightarrow> client_error + any_forwarder list" where
  "build_forwarders b c =
     (if test_mode c then Inr [Any_Noop]
      else (case build_each b c (forwarders c) of
          Inl e \<Rightarrow> Inl e
        | Inr fs \<Rightarrow> if fs = [] then Inl (ConfigErr ''No forwarders configured. Use --forwarder pulsar|file|noop.'')
                    else Inr fs))"

subsection \<open>The connection modes\<close>

text \<open>
  Client mode. Each round connects (\<open>connect_socket\<close> tries until it does), holds a session, and sleeps;
  the flag says whether a shutdown comes in the sleep.
\<close>

record round =
  rd_connected_at :: instant
  rd_session :: "rf_event list"
  rd_shutdown :: bool

fun client_mode :: "'f forwarder_ops \<Rightarrow> round list \<Rightarrow> 'f client \<Rightarrow> mode_result \<times> 'f client" where
  "client_mode ops [] c = (In_Session, c)"
| "client_mode ops (r # rs) c =
     (case client_mode_iteration ops (rd_connected_at r) (rd_session r) c of
        (Goes_On _, _, c) \<Rightarrow>
          if rd_shutdown r then (Returns (Inr ()), c\<lparr>cl_shutdown := True\<rparr>) else client_mode ops rs c
      | (m, _, c) \<Rightarrow> (m, c))"

text \<open>Server mode. A failed accept sleeps for a second and listens again.\<close>

datatype server_event = Accepted "rf_event list" | Accept_Failed | Shutdown_Changed

fun server_mode :: "'f forwarder_ops \<Rightarrow> server_event list \<Rightarrow> 'f client \<Rightarrow> mode_result \<times> 'f client" where
  "server_mode ops [] c = (In_Session, c)"
| "server_mode ops (Accepted es # evs) c =
     (case server_mode_session ops es c of
        (Goes_On _, c) \<Rightarrow> server_mode ops evs c
      | (m, c) \<Rightarrow> (m, c))"
| "server_mode ops (Accept_Failed # evs) c = server_mode ops evs c"
| "server_mode ops (Shutdown_Changed # evs) c = (Returns (Inr ()), c\<lparr>cl_shutdown := True\<rparr>)"

definition run_server_mode ::
  "'f forwarder_ops \<Rightarrow> io_kind + unit \<Rightarrow> server_event list \<Rightarrow> 'f client \<Rightarrow> mode_result \<times> 'f client" where
  "run_server_mode ops bound evs c = (case bound of
      Inl e \<Rightarrow> (Returns (Inl (Socket e)), c)
    | Inr _ \<Rightarrow> server_mode ops evs c)"

text \<open>What happens to a client: its rounds in client mode, its listener and events in server mode.\<close>

record fate =
  ft_rounds :: "round list"
  ft_bound :: "io_kind + unit"
  ft_events :: "server_event list"

definition client_run :: "'f forwarder_ops \<Rightarrow> fate \<Rightarrow> 'f client \<Rightarrow> mode_result \<times> 'f client" where
  "client_run ops w c = (case run_start ops c of
      (Inl e, c) \<Rightarrow> (Returns (Inl e), c)
    | (Inr mode, c) \<Rightarrow> (case mode of
          ClientMode \<Rightarrow> client_mode ops (ft_rounds w) c
        | ServerMode \<Rightarrow> run_server_mode ops (ft_bound w) (ft_events w) c))"

subsection \<open>The process\<close>

definition metrics_endpoint :: "config \<Rightarrow> (ip_addr \<times> nat \<times> string) option" where
  "metrics_endpoint c = (case metrics_bind_addr c of
      Some bind_to \<Rightarrow> if metrics_port c > 0 then Some (bind_to, metrics_port c, source_id c) else None
    | None \<Rightarrow> None)"

definition start_client ::
  "build \<Rightarrow> instant \<Rightarrow> int \<Rightarrow> config \<Rightarrow> client_error + any_forwarder client \<times> (ip_addr \<times> nat \<times> string) option" where
  "start_client b now wall_ms c = (case build_forwarders b c of
      Inl e \<Rightarrow> Inl e
    | Inr fs \<Rightarrow> (case client_new c fs now wall_ms of
          Inl e \<Rightarrow> Inl e
        | Inr cl \<Rightarrow> Inr (cl, metrics_endpoint c)))"

text \<open>The result of the process's run: \<open>None\<close> while it goes on. A signal ends it well. (A panic unwinds
  \<open>main\<close>; its exit code is the runtime's 101.)\<close>

definition run_client ::
  "build \<Rightarrow> instant \<Rightarrow> int \<Rightarrow> fate \<Rightarrow> bool \<Rightarrow> config \<Rightarrow> mode_result" where
  "run_client b now wall_ms w signalled c = (case start_client b now wall_ms c of
      Inl e \<Rightarrow> Returns (Inl e)
    | Inr (cl, _) \<Rightarrow> (case fst (client_run any_ops w cl) of
          Returns r \<Rightarrow> Returns r
        | Mode_Panicked \<Rightarrow> Mode_Panicked
        | _ \<Rightarrow> if signalled then Returns (Inr ()) else In_Session))"

definition exit_code ::
  "(config \<Rightarrow> string + string) \<Rightarrow> (config \<Rightarrow> mode_result) \<Rightarrow> client_error + config \<Rightarrow> nat option" where
  "exit_code to_toml run loaded = (case loaded of
      Inl _ \<Rightarrow> Some 2
    | Inr c \<Rightarrow> if print_config c then (case to_toml c of Inl _ \<Rightarrow> Some 2 | Inr _ \<Rightarrow> Some 0)
        else (case run c of
            Returns (Inr _) \<Rightarrow> Some 0
          | Returns (Inl _) \<Rightarrow> Some 1
          | Mode_Panicked \<Rightarrow> Some 101
          | _ \<Rightarrow> None))"

subsection \<open>Finding the Pulsar broker\<close>

text \<open>An attempt of the task that \<open>start_reconnect_task\<close> spawns: the broker is not reached, it refuses the
  producer, or the producer is built and sent to the forwarder, which ends the task.\<close>

datatype attempt_outcome = No_Broker | No_Producer | Producer_Sent

fun reconnect_task :: "duration \<Rightarrow> duration \<Rightarrow> attempt_outcome list \<Rightarrow> duration list \<times> bool" where
  "reconnect_task max_delay retry_delay [] = ([], False)"
| "reconnect_task max_delay retry_delay (Producer_Sent # rest) = ([], True)"
| "reconnect_task max_delay retry_delay (_ # rest) =
     (let (ds, sent) = reconnect_task max_delay (min (retry_delay * 2) max_delay) rest in (retry_delay # ds, sent))"

definition pulsar_reconnects :: "config \<Rightarrow> attempt_outcome list \<Rightarrow> duration list \<times> bool" where
  "pulsar_reconnects c = reconnect_task (max_retry_delay c) (initial_retry_delay c)"

end
