(* ===== verification/Feed_Process_Props.thy ===== *)
theory Feed_Process_Props imports Feed_Process begin

text \<open>
  What the feed client's process promises: which forwarders it runs, when it ends and with which exit
  code, that a listener lives on through every session, and what a listener does to a feeder that
  connects late.
\<close>

subsection \<open>The forwarders\<close>

definition supported :: "build \<Rightarrow> forwarder_kind \<Rightarrow> bool" where
  "supported b k \<longleftrightarrow> (k = PulsarFwd \<longrightarrow> has_pulsar b) \<and> (k = MqttFwd \<longrightarrow> has_mqtt b)"

lemma build_forwarder_ok:
  "(\<exists>f. build_forwarder b c k = Inr f) \<longleftrightarrow> supported b k"
  "build_forwarder b c k = Inr f \<Longrightarrow> fw_name any_ops f = show_forwarder_kind k \<and> (fw_is_connected any_ops f \<longleftrightarrow> k = NoopFwd)"
  by (cases k; auto simp: build_forwarder_def supported_def any_ops_def noop_ops_def file_ops_def mqtt_fw_ops_def
      pulsar_ops_def file_new_def mqtt_fw_new_def pulsar_new_def show_forwarder_kind.simps split: if_splits)+

lemma build_each_ok:
  "(\<exists>fs. build_each b c ks = Inr fs) \<longleftrightarrow> list_all (supported b) ks"
  "build_each b c ks = Inr fs \<Longrightarrow> map (fw_name any_ops) fs = map show_forwarder_kind ks
     \<and> map (fw_is_connected any_ops) fs = map (\<lambda>k. k = NoopFwd) ks"
proof (induction ks arbitrary: fs)
  case (Cons k ks)
  { case 1
    then show ?case using build_forwarder_ok(1) [of b c k] Cons.IH(1)
      by (cases "build_forwarder b c k"; cases "build_each b c ks") auto
  next
    case 2
    then show ?case using build_forwarder_ok(2) [of b c k] Cons.IH(2)
      by (cases "build_forwarder b c k"; cases "build_each b c ks") auto }
qed simp_all

lemma build_forwarders_ok: "(\<exists>fs. build_forwarders b c = Inr fs) \<longleftrightarrow>
   test_mode c \<or> (forwarders c \<noteq> [] \<and> list_all (supported b) (forwarders c))"
proof -
  have "build_each b c (forwarders c) = Inr fs \<Longrightarrow> fs = [] \<longleftrightarrow> forwarders c = []" for fs
    using build_each_ok(2) [of b c "forwarders c" fs] by (metis map_is_Nil_conv)
  then show ?thesis using build_each_ok(1) [of b c "forwarders c"]
    by (auto simp: build_forwarders_def split: sum.splits)
qed

lemma started_client:
  assumes "start_client b now wall_ms c = Inr (cl, ep)"
  shows "map (fw_name any_ops) (cl_forwarders cl) = (if test_mode c then [''noop''] else map show_forwarder_kind (forwarders c))"
    and "map (fw_is_connected any_ops) (cl_forwarders cl) = (if test_mode c then [True] else map (\<lambda>k. k = NoopFwd) (forwarders c))"
    and "cl_retry_queues cl = map (\<lambda>_. []) (cl_forwarders cl)"
    and "ep = None \<longleftrightarrow> metrics_port c = 0"
    and "cl_config cl = c"
proof -
  from assms obtain fs where fs: "build_forwarders b c = Inr fs" "validate c = Inr ()" "cl_forwarders cl = fs"
      "cl_retry_queues cl = map (\<lambda>_. []) fs" "ep = metrics_endpoint c" "cl_config cl = c"
    by (auto simp: start_client_def client_new_def split: sum.splits)
  have "metrics_port c > 0 \<Longrightarrow> metrics_bind_addr c \<noteq> None" using fs(2) by (auto simp: validate_def split: if_splits)
  then show "ep = None \<longleftrightarrow> metrics_port c = 0" unfolding fs(5) metrics_endpoint_def
    by (cases "metrics_bind_addr c") auto
  have built: "test_mode c \<Longrightarrow> fs = [Any_Noop]" "\<not> test_mode c \<Longrightarrow> build_each b c (forwarders c) = Inr fs"
    using fs(1) by (auto simp: build_forwarders_def split: sum.splits if_splits)
  show "map (fw_name any_ops) (cl_forwarders cl) = (if test_mode c then [''noop''] else map show_forwarder_kind (forwarders c))"
    and "map (fw_is_connected any_ops) (cl_forwarders cl) = (if test_mode c then [True] else map (\<lambda>k. k = NoopFwd) (forwarders c))"
    using built build_each_ok(2) [of b c "forwarders c" fs] by (cases "test_mode c"; simp add: fs(3) any_ops_def noop_ops_def)+
  show "cl_retry_queues cl = map (\<lambda>_. []) (cl_forwarders cl)" "cl_config cl = c" by (simp_all add: fs(3,4,6))
qed

text \<open>A process runs the forwarders it was told to: it starts exactly when its configuration is valid and,
  outside test mode, names at least one forwarder and none its build lacks; then it has one forwarder for
  each one named, in that order, none of them connected yet but the no-op one, a retry queue for each, and the
  metrics endpoint if and only if a port is set. In test mode it has the no-op forwarder alone.\<close>

theorem process_runs_configured_forwarders:
  "(is_ok (start_client b now wall_ms c) \<longleftrightarrow> validate c = Inr ()
      \<and> (test_mode c \<or> (forwarders c \<noteq> [] \<and> list_all (supported b) (forwarders c))))
   \<and> (\<forall>cl ep. start_client b now wall_ms c = Inr (cl, ep) \<longrightarrow>
        map (fw_name any_ops) (cl_forwarders cl) = (if test_mode c then [''noop''] else map show_forwarder_kind (forwarders c))
      \<and> map (fw_is_connected any_ops) (cl_forwarders cl) = (if test_mode c then [True] else map (\<lambda>k. k = NoopFwd) (forwarders c))
      \<and> cl_retry_queues cl = map (\<lambda>_. []) (cl_forwarders cl)
      \<and> (ep = None \<longleftrightarrow> metrics_port c = 0))"
proof -
  have "is_ok (start_client b now wall_ms c) \<longleftrightarrow> is_ok (build_forwarders b c) \<and> validate c = Inr ()"
    by (cases "build_forwarders b c"; cases "validate c") (auto simp: start_client_def client_new_def)
  with started_client [of b now wall_ms c] show ?thesis by (simp only: build_forwarders_ok) blast
qed

theorem process_runs_configured_forwarders_witness:
  "\<exists>cl. start_client \<lparr>has_pulsar = False, has_mqtt = True, answers = (\<lambda>_. []), old_file = []\<rparr> 0 0
        ((default_config ''out.sbs'')\<lparr>forwarders := [MqttFwd, FileFwd]\<rparr>) = Inr (cl, None)
     \<and> map (fw_name any_ops) (cl_forwarders cl) = [''mqtt'', ''file''] \<and> cl_retry_queues cl = [[], []]"
proof -
  let ?b = "\<lparr>has_pulsar = False, has_mqtt = True, answers = (\<lambda>_. []), old_file = []\<rparr>"
  let ?c = "(default_config ''out.sbs'')\<lparr>forwarders := [MqttFwd, FileFwd]\<rparr>"
  note runs = process_runs_configured_forwarders [of ?b 0 0 ?c]
  have "validate ?c = Inr ()" by (simp add: validate_def default_config_def trim_eval)
  with conjunct1 [OF runs] obtain cl ep where cl: "start_client ?b 0 0 ?c = Inr (cl, ep)"
    by (auto simp: supported_def)
  with conjunct2 [OF runs, rule_format, OF cl] show ?thesis
    by (auto simp: default_config_def)
qed

subsection \<open>Sessions\<close>

text \<open>A read that fails gives an error of the socket.\<close>

definition socket_reads :: "rf_event list \<Rightarrow> bool" where
  "socket_reads es \<longleftrightarrow> (\<forall>now wall_ms e. Read now wall_ms (Inl e) \<in> set es \<longrightarrow> (\<exists>k. e = Socket k))"

lemma forward_messages_None:
  "forward_messages ops w ms c = None \<Longrightarrow> test_mode (cl_config c) \<and> log_sample_rate (cl_config c) = 0"
proof (induction ms arbitrary: c)
  case (Cons m ms)
  show ?case
  proof (cases "forward_message ops w m c")
    case None
    then show ?thesis by (auto simp: forward_message_def Let_def split: if_splits)
  next
    case (Some d)
    with Cons.prems show ?thesis using forward_message_config [OF Some] Cons.IH [of d] by simp
  qed
qed simp

lemma rf_step_exits:
  "rf_step ops e c = (Exited x, c') \<Longrightarrow> socket_reads [e] \<Longrightarrow> (x = Shutdown \<and> e = ShutdownChanged True) \<or> (x \<noteq> Shutdown \<and> is_recoverable x)"
proof (cases e)
  case (Read now w r)
  assume "rf_step ops e c = (Exited x, c')" "socket_reads [e]"
  then show ?thesis using Read
    by (auto simp: on_read_def Let_def process_buffer_def socket_reads_def split: sum.splits if_splits prod.splits option.splits)
qed (auto simp: on_housekeeping_def Let_def split: if_splits option.splits)

lemma rf_step_panics: "rf_step ops e c = (Panicked, c') \<Longrightarrow> test_mode (cl_config c) \<and> log_sample_rate (cl_config c) = 0"
proof (cases e)
  case (Read now w r)
  have count: "cl_config (fold (count_message now) ms d) = cl_config d" for ms and d :: "'a client"
    by (rule fold_config) (simp add: count_message_def upd_metrics_def)
  have buffer: "process_buffer data d = (q, d') \<Longrightarrow> cl_config d' = cl_config d" for data q and d d' :: "'a client"
    by (auto simp: process_buffer_def Let_def upd_metrics_def split: if_splits prod.splits)
  assume "rf_step ops e c = (Panicked, c')"
  with Read show ?thesis
    by (auto simp: on_read_def Let_def count upd_metrics_def split: sum.splits if_splits prod.splits option.splits
        dest!: forward_messages_None buffer)
qed (auto simp: on_housekeeping_def Let_def split: if_splits option.splits)

lemma socket_reads_Cons: "socket_reads (e # es) \<longleftrightarrow> socket_reads [e] \<and> socket_reads es"
  by (auto simp: socket_reads_def)

lemma receive_exits:
  "receive_and_forward ops es c = (Exited x, c') \<Longrightarrow> socket_reads es \<Longrightarrow>
     (x = Shutdown \<and> ShutdownChanged True \<in> set es) \<or> (x \<noteq> Shutdown \<and> is_recoverable x)"
proof (induction es arbitrary: c)
  case (Cons e es)
  have ok: "socket_reads [e]" "socket_reads es" using Cons.prems(2) by (simp_all only: socket_reads_Cons [of e es])
  from Cons.prems(1) obtain q d where d: "rf_step ops e c = (q, d)"
      "(q = Running \<and> receive_and_forward ops es d = (Exited x, c')) \<or> (q = Exited x \<and> d = c')"
    by (auto split: prod.splits rf_result.splits)
  from d(2) show ?case
  proof (elim disjE conjE)
    assume "receive_and_forward ops es d = (Exited x, c')"
    from Cons.IH [OF this ok(2)] show ?thesis by auto
  next
    assume "q = Exited x"
    with rf_step_exits [of ops e c x d] d(1) ok(1) show ?thesis by auto
  qed
qed simp

lemma receive_panics:
  "receive_and_forward ops es c = (Panicked, c') \<Longrightarrow> test_mode (cl_config c) \<and> log_sample_rate (cl_config c) = 0"
proof (induction es arbitrary: c)
  case (Cons e es)
  obtain q d where d: "rf_step ops e c = (q, d)" by fastforce
  with Cons.prems show ?case using rf_step_panics [of ops e c d] rf_step_config [of ops e c] Cons.IH [of d]
    by (cases q) simp_all
qed simp

text \<open>What ends a mode: a shutdown, and in test mode without a sample rate a panic.\<close>

definition may_panic :: "config \<Rightarrow> bool" where
  "may_panic c \<longleftrightarrow> test_mode c \<and> log_sample_rate c = 0"

lemma client_iteration_ends:
  assumes "client_mode_iteration ops now es c = (m, d, c')" "socket_reads es"
  shows "cl_config c' = cl_config c \<and> (\<forall>r. m = Returns r \<longrightarrow> r = Inr ()) \<and> (m = Mode_Panicked \<longrightarrow> may_panic (cl_config c))"
proof (cases "cl_shutdown c")
  case False
  then obtain c0 r c1 where run: "receive_and_forward ops es c0 = (r, c1)" "cl_config c0 = cl_config c" "after_session r c1 = (m, d, c')"
    using assms(1) by (auto simp: client_mode_iteration_def Let_def upd_metrics_def split: prod.splits)
  note ended = receive_exits [OF _ assms(2), of ops c0] receive_panics [of ops es c0] receive_config [OF run(1)]
  show ?thesis
    using run ended unfolding may_panic_def
    by (cases r) (auto simp: after_session_def Let_def split: if_splits)
qed (use assms(1) in \<open>auto simp: client_mode_iteration_def\<close>)

lemma client_mode_ends:
  assumes "client_mode ops rs c = (m, c')" "\<forall>r \<in> set rs. socket_reads (rd_session r)"
  shows "(\<forall>r. m = Returns r \<longrightarrow> r = Inr ()) \<and> (m = Mode_Panicked \<longrightarrow> may_panic (cl_config c))"
  using assms
proof (induction rs arbitrary: c)
  case (Cons x rs)
  obtain q d c1 where one: "client_mode_iteration ops (rd_connected_at x) (rd_session x) c = (q, d, c1)" by (metis prod_cases3)
  have "socket_reads (rd_session x)" using Cons.prems(2) by simp
  from client_iteration_ends [OF one this] have ends: "cl_config c1 = cl_config c"
      "\<And>r. q = Returns r \<Longrightarrow> r = Inr ()" "q = Mode_Panicked \<Longrightarrow> may_panic (cl_config c)" by auto
  show ?case
  proof (cases q)
    case (Goes_On s)
    then show ?thesis using Cons.prems Cons.IH [of c1] ends one by (auto split: if_splits)
  qed (use Cons.prems(1) ends one in auto)
qed simp

lemma server_session_ends:
  assumes "server_mode_session ops es c = (m, c')" "socket_reads es"
  shows "cl_config c' = cl_config c \<and> (\<forall>r. m = Returns r \<longrightarrow> r = Inr ()) \<and> (m = Mode_Panicked \<longrightarrow> may_panic (cl_config c))"
proof -
  obtain r c1 where run: "receive_and_forward ops es c = (r, c1)" by fastforce
  show ?thesis
    using assms run receive_exits [OF _ assms(2), of ops c] receive_panics [of ops es c] receive_config [OF run] unfolding may_panic_def
    by (cases r) (auto simp: server_mode_session_def split: if_splits)
qed

lemma server_mode_ends:
  assumes "server_mode ops evs c = (m, c')" "\<forall>es. Accepted es \<in> set evs \<longrightarrow> socket_reads es"
  shows "(\<forall>r. m = Returns r \<longrightarrow> r = Inr ()) \<and> (m = Mode_Panicked \<longrightarrow> may_panic (cl_config c))"
  using assms
proof (induction evs arbitrary: c)
  case (Cons x evs)
  show ?case
  proof (cases x)
    case (Accepted es)
    obtain q c1 where one: "server_mode_session ops es c = (q, c1)" by fastforce
    have "socket_reads es" using Cons.prems(2) Accepted by simp
    from server_session_ends [OF one this] have ends: "cl_config c1 = cl_config c"
      "\<And>r. q = Returns r \<Longrightarrow> r = Inr ()" "q = Mode_Panicked \<Longrightarrow> may_panic (cl_config c)" by auto
    show ?thesis
    proof (cases q)
      case (Goes_On s)
      then show ?thesis using Cons.prems Cons.IH [of c1] ends one Accepted by auto
    qed (use Cons.prems(1) ends one Accepted in auto)
  qed (use Cons.prems Cons.IH [of c] in auto)
qed simp

lemma connect_all_fails: "connect_all any_ops fs = (Inl e, fs') \<Longrightarrow> ''file'' \<in> set (map (fw_name any_ops) fs)"
proof (induction fs arbitrary: fs')
  case (Cons f fs)
  show ?case
  proof (cases f)
    case (Any_File g)
    then show ?thesis by (simp add: any_ops_def file_ops_def)
  qed (use Cons in \<open>auto simp: any_ops_def noop_ops_def mqtt_fw_ops_def mqtt_fw_connect_def pulsar_ops_def pulsar_connect_def
         wrapped_def Let_def split: prod.splits\<close>)
qed simp

lemma show_file: "''file'' = show_forwarder_kind k \<longleftrightarrow> k = FileFwd"
  by (cases k) simp_all

lemma run_client_ends:
  assumes "\<forall>r \<in> set (ft_rounds w). socket_reads (rd_session r)" "\<forall>es. Accepted es \<in> set (ft_events w) \<longrightarrow> socket_reads es"
    and "run_client b now wall_ms w signalled c = m"
  shows "(m = Mode_Panicked \<longrightarrow> may_panic c)
    \<and> (\<forall>e. m = Returns (Inl e) \<longrightarrow> start_client b now wall_ms c = Inl e
        \<or> (\<not> test_mode c \<and> FileFwd \<in> set (forwarders c)) \<or> (connection_mode c = ''server'' \<and> (\<exists>k. ft_bound w = Inl k)))"
proof (cases "start_client b now wall_ms c")
  case (Inl e)
  then show ?thesis using assms(3) by (auto simp: run_client_def)
next
  case (Inr p)
  obtain cl ep where p: "p = (cl, ep)" by fastforce
  then have cl: "cl_config cl = c" "start_client b now wall_ms c = Inr (cl, ep)"
    using Inr by (auto simp: start_client_def client_new_def split: sum.splits)
  obtain r c1 where start: "run_start any_ops cl = (r, c1)" by fastforce
  have c1: "cl_config c1 = c" using start cl(1) by (auto simp: run_start_def Let_def split: if_splits prod.splits sum.splits)
  show ?thesis
  proof (cases r)
    case (Inl e)
    then have "\<not> test_mode c" "''file'' \<in> set (map (fw_name any_ops) (cl_forwarders cl))"
      using start cl(1) connect_all_fails [of "cl_forwarders cl"]
      by (auto simp: run_start_def Let_def split: if_splits prod.splits sum.splits)
    moreover from this cl(2) have "FileFwd \<in> set (forwarders c)"
      using started_client(1) [of b now wall_ms c cl ep] by (auto simp: show_file)
    ultimately show ?thesis using assms(3) Inl start cl(2) by (auto simp: run_client_def client_run_def)
  next
    case (Inr mode)
    obtain q c2 where q: "client_run any_ops w cl = (q, c2)" by fastforce
    have run: "m = (case q of Returns r \<Rightarrow> Returns r | Mode_Panicked \<Rightarrow> Mode_Panicked | _ \<Rightarrow> if signalled then Returns (Inr ()) else In_Session)"
      using assms(3) cl(2) q by (simp add: run_client_def)
    have "(q = Mode_Panicked \<longrightarrow> may_panic c) \<and> (\<forall>e. q = Returns (Inl e) \<longrightarrow> connection_mode c = ''server'' \<and> (\<exists>k. ft_bound w = Inl k))"
    proof (cases mode)
      case ClientMode
      then have "client_mode any_ops (ft_rounds w) c1 = (q, c2)" using q start Inr by (simp add: client_run_def)
      from client_mode_ends [OF this assms(1)] c1 show ?thesis by auto
    next
      case ServerMode
      then have "connection_mode c = ''server''" using start Inr cl(1)
        by (auto simp: run_start_def Let_def get_connection_mode_def split: if_splits prod.splits sum.splits)
      moreover have "run_server_mode any_ops (ft_bound w) (ft_events w) c1 = (q, c2)" using ServerMode q start Inr by (simp add: client_run_def)
      ultimately show ?thesis using server_mode_ends [OF _ assms(2), of any_ops c1] c1
        by (auto simp: run_server_mode_def split: sum.splits)
    qed
    then show ?thesis by (auto simp: run split: mode_result.splits if_splits)
  qed
qed

text \<open>The exit code tells what happened. When reads fail with errors of the socket only, a process that ends
  with 2 could not load or print its configuration; with 1, it could not start (its forwarders are not
  in the build, its configuration is invalid, its output file did not open or its listener did not bind);
  with 101 it panicked, in test mode with a log sample rate of zero. Nothing that happens to a
  connection ends it: apart from these it ends with 0, on a shutdown.\<close>

theorem exit_codes_explained:
  assumes "\<forall>r \<in> set (ft_rounds w). socket_reads (rd_session r)" "\<forall>es. Accepted es \<in> set (ft_events w) \<longrightarrow> socket_reads es"
    and "exit_code to_toml (run_client b now wall_ms w signalled) loaded = Some n"
  shows "n = 0
    \<or> (n = 2 \<and> ((\<exists>e. loaded = Inl e) \<or> (\<exists>c e. loaded = Inr c \<and> print_config c \<and> to_toml c = Inl e)))
    \<or> (n = 1 \<and> (\<exists>c. loaded = Inr c \<and> \<not> print_config c \<and>
          (\<not> is_ok (start_client b now wall_ms c) \<or> (\<not> test_mode c \<and> FileFwd \<in> set (forwarders c))
            \<or> (connection_mode c = ''server'' \<and> \<not> is_ok (ft_bound w)))))
    \<or> (n = 101 \<and> (\<exists>c. loaded = Inr c \<and> \<not> print_config c \<and> test_mode c \<and> log_sample_rate c = 0))"
proof (cases loaded)
  case (Inr c)
  note ends = run_client_ends [OF assms(1,2) refl, of b now wall_ms signalled c]
  show ?thesis
  proof (cases "print_config c")
    case True
    then show ?thesis using assms(3) Inr by (auto simp: exit_code_def split: sum.splits)
  next
    case False
    then show ?thesis using assms(3) Inr ends
      by (auto simp: exit_code_def may_panic_def split: mode_result.splits sum.splits)
  qed
qed (use assms(3) in \<open>simp add: exit_code_def\<close>)

text \<open>A configuration without forwarders, for the witness.\<close>

theorem exit_codes_explained_witness:
  "exit_code (\<lambda>_. Inr []) (run_client \<lparr>has_pulsar = True, has_mqtt = True, answers = (\<lambda>_. []), old_file = []\<rparr> 0 0
       \<lparr>ft_rounds = [\<lparr>rd_connected_at = 0, rd_session = [Read 0 0 (Inl (Socket ConnectionAborted))], rd_shutdown = True\<rparr>],
        ft_bound = Inr (), ft_events = []\<rparr> False) (Inr ((default_config ''out.sbs'')\<lparr>forwarders := []\<rparr>)) = Some 1
   \<and> \<not> is_ok (start_client \<lparr>has_pulsar = True, has_mqtt = True, answers = (\<lambda>_. []), old_file = []\<rparr> 0 0 ((default_config ''out.sbs'')\<lparr>forwarders := []\<rparr>))"
proof -
  let ?b = "\<lparr>has_pulsar = True, has_mqtt = True, answers = (\<lambda>_. []), old_file = []\<rparr>"
  let ?c = "(default_config ''out.sbs'')\<lparr>forwarders := []\<rparr>"
  let ?w = "\<lparr>ft_rounds = [\<lparr>rd_connected_at = 0, rd_session = [Read 0 0 (Inl (Socket ConnectionAborted))], rd_shutdown = True\<rparr>],
        ft_bound = Inr (), ft_events = []\<rparr>"
  have code: "exit_code (\<lambda>_. Inr []) (run_client ?b 0 0 ?w False) (Inr ?c) = Some 1"
    by (simp add: exit_code_def run_client_def start_client_def build_forwarders_def default_config_def)
  have "?c = (default_config ''out.sbs'')\<lparr>forwarders := []\<rparr>" by simp
  with exit_codes_explained [OF _ _ code] code show ?thesis
    by (simp add: socket_reads_def default_config_def)
qed

subsection \<open>A listener and its feeders\<close>

lemma drain_monitor: "cl_monitor (drain_retry_queue ops n i c) = cl_monitor c"
  by (simp add: drain_retry_queue_def Let_def set_forwarder_def upd_metrics_def split: prod.splits)

lemma housekeep_monitor [simp]: "cl_monitor (housekeep_all ops c) = cl_monitor c"
proof -
  have "cl_monitor (housekeep_one ops i c) = cl_monitor c" for i and c :: "'a client"
    by (simp add: housekeep_one_def drain_monitor set_forwarder_def Let_def)
  then have "cl_monitor (fold (housekeep_one ops) xs c) = cl_monitor c" for xs and c :: "'a client"
    by (induction xs arbitrary: c) simp_all
  then show ?thesis by (simp add: housekeep_all_def)
qed

text \<open>The first tick of the housekeeping interval of a session is immediate, and it comes before the
  first line of a feeder that does not speak at once.\<close>

definition slow_to_speak :: "instant \<Rightarrow> rf_event list \<Rightarrow> bool" where
  "slow_to_speak t es \<longleftrightarrow> (\<exists>now rest. es = HousekeepingTick now # rest \<and> t \<le> now)"

text \<open>What a refused session leaves behind.\<close>

definition refused :: "'f forwarder_ops \<Rightarrow> 'f client \<Rightarrow> 'f client" where
  "refused ops c = (housekeep_all ops c)\<lparr>cl_line_buffer := []\<rparr>"

lemma stale_session:
  assumes "hb_timeout (cl_monitor c) = Some t" "slow_to_speak (last_meaningful (cl_monitor c) + t) es"
  shows "server_mode_session ops es c = (Goes_On 0, refused ops c)"
  using assms by (auto simp: slow_to_speak_def server_mode_session_def on_housekeeping_def is_stale_def elapsed_since_def refused_def Let_def)

definition fresh_session :: "instant \<Rightarrow> 'f client \<Rightarrow> 'f client" where
  "fresh_session now c = (upd_metrics inc_reconnection_attempts c)\<lparr>cl_monitor := monitor_reset now (cl_monitor c)\<rparr>"

lemma client_iteration_fresh:
  "\<not> cl_shutdown c \<Longrightarrow> client_mode_iteration ops now es c
     = after_session (fst (receive_and_forward ops es (fresh_session now c))) (snd (receive_and_forward ops es (fresh_session now c)))"
  by (simp add: client_mode_iteration_def fresh_session_def Let_def upd_metrics_def split_def)

lemma refused_monitor [simp]: "cl_monitor ((refused ops ^^ n) c) = cl_monitor c"
  by (induction n) (simp_all add: refused_def)

text \<open>C30: Server mode does not forget a silence. Only client mode resets the monitor for a new connection, so once
  a listener has heard no line for the heartbeat timeout, it closes every later connection at its
  first tick, unread, whose feeder has not spoken before it: its data is lost, and the monitor stays
  as it is. A client-mode session with the same first tick survives it and goes on.\<close>

theorem listener_refuses_after_silence:
  assumes "hb_timeout (cl_monitor c) = Some t" and "0 < t"
    and "list_all (slow_to_speak (last_meaningful (cl_monitor c) + t)) sessions"
  shows "server_mode ops (map Accepted sessions) c = (In_Session, (refused ops ^^ length sessions) c)
    \<and> cl_monitor ((refused ops ^^ length sessions) c) = cl_monitor c
    \<and> (\<forall>now. rf_step ops (HousekeepingTick now) (fresh_session now c) = (Running, housekeep_all ops (fresh_session now c)))"
proof -
  have "server_mode ops (map Accepted sessions) c = (In_Session, (refused ops ^^ length sessions) c)"
    using assms(1,3)
  proof (induction sessions arbitrary: c)
    case (Cons es sessions)
    have "hb_timeout (cl_monitor (refused ops c)) = Some t"
      and "list_all (slow_to_speak (last_meaningful (cl_monitor (refused ops c)) + t)) sessions"
      using Cons.prems refused_monitor [where ops = ops and n = 1 and c = c] by simp_all
    from Cons.IH [OF this] show ?case
      using stale_session [OF Cons.prems(1), of es ops] Cons.prems(2) by (simp add: funpow_swap1)
  qed simp
  moreover have "rf_step ops (HousekeepingTick now) (fresh_session now c) = (Running, housekeep_all ops (fresh_session now c))" for now
    using assms(1,2) by (simp add: on_housekeeping_def is_stale_def elapsed_since_def fresh_session_def monitor_reset_def last_meaningful_def Let_def)
  ultimately show ?thesis by simp
qed

text \<open>A listener started at zero whose feeder connects after two minutes, for the witness.\<close>

definition idle_listener :: "unit client" where
  "idle_listener = small_client\<lparr>cl_monitor := monitor_new ((default_config ''out.sbs'')\<lparr>connection_mode := ''server''\<rparr>) 0\<rparr>"

theorem listener_refuses_after_silence_witness:
  "fst (server_mode noop_ops [Accepted [HousekeepingTick (from_secs 120), Read (from_secs 121) 0 (Inr ''MSG,8'')],
       Accepted [HousekeepingTick (from_secs 130), Read (from_secs 131) 0 (Inr ''MSG,8'')]] idle_listener) = In_Session
   \<and> last_meaningful (cl_monitor (snd (server_mode noop_ops [Accepted [HousekeepingTick (from_secs 120), Read (from_secs 121) 0 (Inr ''MSG,8'')],
       Accepted [HousekeepingTick (from_secs 130), Read (from_secs 131) 0 (Inr ''MSG,8'')]] idle_listener))) = 0"
proof -
  have m: "hb_timeout (cl_monitor idle_listener) = Some (from_secs 90)" "last_meaningful (cl_monitor idle_listener) = 0"
    by (simp_all add: idle_listener_def monitor_new_def last_meaningful_def default_config_def heartbeat_timeout_def)
  have "list_all (slow_to_speak (last_meaningful (cl_monitor idle_listener) + from_secs 90))
      [[HousekeepingTick (from_secs 120), Read (from_secs 121) 0 (Inr ''MSG,8'')],
       [HousekeepingTick (from_secs 130), Read (from_secs 131) 0 (Inr ''MSG,8'')]]"
    by (simp add: m slow_to_speak_def from_secs_def)
  from listener_refuses_after_silence [OF m(1) _ this, of noop_ops] m(2) show ?thesis by (simp add: from_secs_def)
qed

text \<open>The task that looks for the Pulsar broker waits as the socket does: its sleeps are those of
  \<open>connect_socket\<close> for attempts that fail alike, whether it is the broker or the producer that fails.
  With an initial delay of zero, which validation accepts, neither ever sleeps.\<close>

theorem pulsar_waits_like_socket:
  "pulsar_reconnects c outcomes = connect_socket c (map (\<lambda>a. a = Producer_Sent) outcomes)
   \<and> (initial_retry_delay_secs c = 0 \<longrightarrow> set (fst (pulsar_reconnects c outcomes)) \<subseteq> {0})
   \<and> validate ((default_config ''out.sbs'')\<lparr>initial_retry_delay_secs := 0\<rparr>) = Inr ()"
proof -
  have same: "reconnect_task m d outcomes = connect_attempts m d (map (\<lambda>a. a = Producer_Sent) outcomes)" for m d
  proof (induction outcomes arbitrary: d)
    case (Cons a outcomes)
    then show ?case by (cases a) simp_all
  qed simp
  have "set (fst (reconnect_task m 0 outcomes)) \<subseteq> {0}" for m
  proof (induction outcomes)
    case (Cons a outcomes)
    then show ?case by (cases a) (simp_all add: split_def Let_def)
  qed simp
  moreover have "initial_retry_delay_secs c = 0 \<Longrightarrow> initial_retry_delay c = 0"
    by (simp add: initial_retry_delay_def from_secs_def from_millis_def)
  ultimately show ?thesis
    by (simp add: pulsar_reconnects_def connect_socket_def same validate_def default_config_def trim_eval starts_with_def)
qed

theorem pulsar_waits_like_socket_witness:
  "set (fst (pulsar_reconnects ((default_config ''out.sbs'')\<lparr>initial_retry_delay_secs := 0\<rparr>) [No_Broker, No_Producer, No_Broker])) \<subseteq> {0}"
  using conjunct1 [OF conjunct2 [OF pulsar_waits_like_socket [of "(default_config ''out.sbs'')\<lparr>initial_retry_delay_secs := 0\<rparr>"
      "[No_Broker, No_Producer, No_Broker]"]]]
  by simp

end
