(* ===== verification/Storage_Handle.thy ===== *)
theory Storage_Handle imports Storage_Open Arrow_Queries Tool_Server Database_Transfer Desktop_Commands begin

text \<open>
  \<open>StorageHandle\<close> of \<open>storage.rs\<close> as its callers see it: one database behind one mutex, each operation a
  task of the blocking pool that takes the mutex, runs the synchronous operation and gives it back.
  A task that panics is an error of the join, and when it held the mutex the mutex is poisoned: every
  operation after it that locks fails. Which task panics, and what it had changed by then, is the
  environment's answer. The tables are those of the process's own database.
\<close>

subsection \<open>The mutex and the blocking pool\<close>

record handle =
  hd_tables :: tables
  hd_sharing :: sharing
  hd_poisoned :: bool

definition LOCK_POISONED :: string where
  "LOCK_POISONED = ''Lock poisoned: poisoned lock: another task failed inside''"

definition locked :: "(tables \<Rightarrow> (storage_error + 'a) \<times> tables) \<Rightarrow> handle \<Rightarrow> (storage_error + 'a) \<times> handle" where
  "locked f h = (if hd_poisoned h then (Inl (Query_Error LOCK_POISONED), h)
     else (let (r, db) = f (hd_tables h) in (r, h\<lparr>hd_tables := db\<rparr>)))"

definition locked_sharing :: "(sharing \<Rightarrow> (storage_error + 'a) \<times> sharing) \<Rightarrow> handle \<Rightarrow> (storage_error + 'a) \<times> handle" where
  "locked_sharing f h = (if hd_poisoned h then (Inl (Query_Error LOCK_POISONED), h)
     else (let (r, s) = f (hd_sharing h) in (r, h\<lparr>hd_sharing := s\<rparr>)))"

text \<open>The task ran, it panicked before it took the mutex, or while it held it, with the tables it left.\<close>

datatype blocking_run = Ran | Panicked_Before string | Panicked_Holding string tables

definition on_blocking ::
  "blocking_run \<Rightarrow> (handle \<Rightarrow> (storage_error + 'a) \<times> handle) \<Rightarrow> handle \<Rightarrow> (storage_error + 'a) \<times> handle" where
  "on_blocking b f h = (case b of
      Ran \<Rightarrow> f h
    | Panicked_Before e \<Rightarrow> (Inl (Query_Error (''Task join error: '' @ e)), h)
    | Panicked_Holding e db \<Rightarrow> if hd_poisoned h then f h
        else (Inl (Query_Error (''Task join error: '' @ e)), h\<lparr>hd_tables := db, hd_poisoned := True\<rparr>))"

definition reading :: "(tables \<Rightarrow> storage_error + 'a) \<Rightarrow> tables \<Rightarrow> (storage_error + 'a) \<times> tables" where
  "reading f db = (f db, db)"

definition on_storage :: "(storage \<Rightarrow> (storage_error + 'a) \<times> storage) \<Rightarrow> tables \<Rightarrow> (storage_error + 'a) \<times> tables" where
  "on_storage f db = (let (r, st) = f (tb_storage db) in (r, db\<lparr>tb_storage := st\<rparr>))"

definition on_weather ::
  "(tables \<Rightarrow> weather_record list \<Rightarrow> (storage_error + 'a) \<times> weather_record list) \<Rightarrow> tables \<Rightarrow> (storage_error + 'a) \<times> tables" where
  "on_weather f db = (case tb_weather db of
      None \<Rightarrow> (Inl (DuckDb ''Catalog Error''), db)
    | Some rows \<Rightarrow> (let (r, rows) = f db rows in (r, db\<lparr>tb_weather := Some rows\<rparr>)))"

subsection \<open>The operations\<close>

text \<open>An empty batch returns before it locks.\<close>

definition insert_weather_snapshot_async ::
  "blocking_run \<Rightarrow> weather_record \<Rightarrow> handle \<Rightarrow> (storage_error + bool) \<times> handle" where
  "insert_weather_snapshot_async b record = on_blocking b (locked (on_weather (\<lambda>db. insert_weather_snapshot (st_source_id (tb_storage db)) record)))"

definition get_weather_snapshot_async ::
  "blocking_run \<Rightarrow> weather_key \<Rightarrow> handle \<Rightarrow> (storage_error + weather_record option) \<times> handle" where
  "get_weather_snapshot_async b k = on_blocking b (locked (reading (\<lambda>db. case tb_weather db of None \<Rightarrow> Inl (DuckDb ''Catalog Error'') | Some rows \<Rightarrow> Inr (get_weather_snapshot k rows))))"

definition query_weather_snapshots_async ::
  "blocking_run \<Rightarrow> weather_query \<Rightarrow> handle \<Rightarrow> (storage_error + weather_meta list) \<times> handle" where
  "query_weather_snapshots_async b q = on_blocking b (locked (reading (\<lambda>db. case tb_weather db of None \<Rightarrow> Inl (DuckDb ''Catalog Error'') | Some rows \<Rightarrow> Inr (query_weather_snapshots q rows))))"

definition insert_batch_async ::
  "blocking_run \<Rightarrow> (aircraft_position \<times> int) list \<Rightarrow> handle \<Rightarrow> (storage_error + unit) \<times> handle" where
  "insert_batch_async b batch = on_blocking b (if batch = [] then Pair (Inr ()) else locked (on_storage (insert_batch batch)))"

definition query_bbox_async ::
  "blocking_run \<Rightarrow> bbox_query \<Rightarrow> handle \<Rightarrow> (storage_error + position_row list) \<times> handle" where
  "query_bbox_async b q = on_blocking b (locked (reading (\<lambda>db. Inr (query_bbox q (tb_storage db)))))"

definition query_bbox_arrow_async ::
  "blocking_run \<Rightarrow> (position_row list \<Rightarrow> position_row list list) \<Rightarrow> bbox_query \<Rightarrow> handle \<Rightarrow> (storage_error + position_row ipc_message list) \<times> handle" where
  "query_bbox_arrow_async b split_rows q = on_blocking b (locked (reading (\<lambda>db. Inr (query_bbox_arrow split_rows q (tb_storage db)))))"

definition get_trajectory_async ::
  "blocking_run \<Rightarrow> trajectory_query \<Rightarrow> handle \<Rightarrow> (storage_error + position_row list) \<times> handle" where
  "get_trajectory_async b q = on_blocking b (locked (reading (\<lambda>db. Inr (trajectory_rows q (tb_storage db)))))"

definition get_trajectories_batch_arrow_async ::
  "blocking_run \<Rightarrow> (position_row list \<Rightarrow> position_row list list) \<Rightarrow> (trajectory_query \<times> string) list \<Rightarrow> handle \<Rightarrow> (storage_error + (position_row \<times> string) ipc_message list) \<times> handle" where
  "get_trajectories_batch_arrow_async b split_rows queries = on_blocking b (locked (reading (\<lambda>db. Inr (get_trajectories_batch_arrow split_rows queries (tb_storage db)))))"

definition get_all_trajectories_async ::
  "blocking_run \<Rightarrow> int option \<Rightarrow> int option \<Rightarrow> handle \<Rightarrow> (storage_error + (position_row \<times> string) list) \<times> handle" where
  "get_all_trajectories_async b start_ms end_ms = on_blocking b (locked (reading (\<lambda>db. Inr (get_all_trajectories start_ms end_ms (tb_storage db)))))"

definition get_aircraft_summary_async ::
  "blocking_run \<Rightarrow> int option \<Rightarrow> int option \<Rightarrow> handle \<Rightarrow> (storage_error + aircraft_summary list) \<times> handle" where
  "get_aircraft_summary_async b start_ms end_ms = on_blocking b (locked (reading (\<lambda>db. Inr (get_aircraft_summary start_ms end_ms (tb_storage db)))))"

definition get_flight_summary_async ::
  "blocking_run \<Rightarrow> int option \<Rightarrow> int option \<Rightarrow> handle \<Rightarrow> (storage_error + flight list) \<times> handle" where
  "get_flight_summary_async b start_ms end_ms = on_blocking b (locked (reading (\<lambda>db. Inr (get_flight_summary start_ms end_ms (tb_storage db)))))"

definition get_flight_summary_arrow_async ::
  "blocking_run \<Rightarrow> (flight list \<Rightarrow> flight list list) \<Rightarrow> int option \<Rightarrow> int option \<Rightarrow> handle \<Rightarrow> (storage_error + flight ipc_message list) \<times> handle" where
  "get_flight_summary_arrow_async b split_rows start_ms end_ms = on_blocking b (locked (reading (\<lambda>db. Inr (get_flight_summary_arrow split_rows start_ms end_ms (tb_storage db)))))"

definition get_stats_async ::
  "blocking_run \<Rightarrow> handle \<Rightarrow> (storage_error + storage_stats) \<times> handle" where
  "get_stats_async b = on_blocking b (locked (reading (\<lambda>db. Inr (get_stats (length (tb_status db)) (length (tb_events db)) (map_option length (tb_weather db)) (tb_storage db)))))"

definition prune_async ::
  "blocking_run \<Rightarrow> int \<Rightarrow> handle \<Rightarrow> (storage_error + nat) \<times> handle" where
  "prune_async b older_than_ms = on_blocking b (locked (on_storage (\<lambda>st. map_prod Inr id (prune older_than_ms st))))"

definition get_time_distribution_async ::
  "blocking_run \<Rightarrow> (int \<Rightarrow> int \<Rightarrow> int) \<Rightarrow> time_distribution_query \<Rightarrow> handle \<Rightarrow> (storage_error + time_bucket list) \<times> handle" where
  "get_time_distribution_async b cast_div q = on_blocking b (locked (reading (\<lambda>db. Inr (get_time_distribution cast_div q (tb_storage db)))))"

definition get_detection_range_async ::
  "blocking_run \<Rightarrow> (position_row \<Rightarrow> real) \<Rightarrow> (position_row \<Rightarrow> f64) \<Rightarrow> detection_query \<Rightarrow> handle \<Rightarrow> (storage_error + detection_sector list) \<times> handle" where
  "get_detection_range_async b bearing distance q = on_blocking b (locked (reading (\<lambda>db. Inr (get_detection_range bearing distance q (tb_storage db)))))"

definition get_hourly_heatmap_async ::
  "blocking_run \<Rightarrow> heatmap_query \<Rightarrow> handle \<Rightarrow> (storage_error + heatmap_cell list) \<times> handle" where
  "get_hourly_heatmap_async b q = on_blocking b (locked (reading (\<lambda>db. Inr (get_hourly_heatmap q (tb_storage db)))))"

definition insert_raw_batch_async ::
  "blocking_run \<Rightarrow> (raw_sbs_record \<times> int) list \<Rightarrow> handle \<Rightarrow> (storage_error + unit) \<times> handle" where
  "insert_raw_batch_async b records = on_blocking b (if records = [] then Pair (Inr ()) else locked (on_storage (\<lambda>st. (Inr (), insert_raw_batch records st))))"

definition get_raw_message_count_async ::
  "blocking_run \<Rightarrow> int option \<Rightarrow> int option \<Rightarrow> handle \<Rightarrow> (storage_error + nat) \<times> handle" where
  "get_raw_message_count_async b start_ms end_ms = on_blocking b (locked (reading (\<lambda>db. Inr (get_raw_message_count start_ms end_ms (tb_storage db)))))"

definition query_raw_messages_async ::
  "blocking_run \<Rightarrow> raw_message_query \<Rightarrow> handle \<Rightarrow> (storage_error + raw_sbs_record list) \<times> handle" where
  "query_raw_messages_async b q = on_blocking b (locked (reading (\<lambda>db. Inr (query_raw_messages q (tb_storage db)))))"

definition query_raw_messages_arrow_async ::
  "blocking_run \<Rightarrow> (raw_row list \<Rightarrow> raw_row list list) \<Rightarrow> raw_message_query \<Rightarrow> handle \<Rightarrow> (storage_error + raw_row ipc_message list) \<times> handle" where
  "query_raw_messages_arrow_async b split_rows q = on_blocking b (locked (reading (\<lambda>db. Inr (query_raw_messages_arrow split_rows q (tb_storage db)))))"

definition checkpoint_async ::
  "blocking_run \<Rightarrow> storage_error + unit \<Rightarrow> handle \<Rightarrow> (storage_error + unit) \<times> handle" where
  "checkpoint_async b folded = on_blocking b (locked (reading (\<lambda>_. folded)))"

definition insert_status_event_async ::
  "blocking_run \<Rightarrow> status_event \<Rightarrow> handle \<Rightarrow> (storage_error + unit) \<times> handle" where
  "insert_status_event_async b e = on_blocking b (locked ((\<lambda>db. (Inr (), db\<lparr>tb_status := insert_status_event (st_source_id (tb_storage db)) e (tb_status db)\<rparr>))))"

definition query_status_events_async ::
  "blocking_run \<Rightarrow> status_event_query \<Rightarrow> handle \<Rightarrow> (storage_error + status_event list) \<times> handle" where
  "query_status_events_async b q = on_blocking b (locked (reading (\<lambda>db. query_status_events q (tb_status db))))"

definition insert_event_of_interest_async ::
  "blocking_run \<Rightarrow> string \<Rightarrow> int \<Rightarrow> create_event_of_interest \<Rightarrow> handle \<Rightarrow> (storage_error + event_of_interest) \<times> handle" where
  "insert_event_of_interest_async b i now e = on_blocking b (locked (on_events (insert_event_of_interest i now e)))"

definition query_events_of_interest_async ::
  "blocking_run \<Rightarrow> event_of_interest_query \<Rightarrow> handle \<Rightarrow> (storage_error + event_of_interest list) \<times> handle" where
  "query_events_of_interest_async b q = on_blocking b (locked (reading (\<lambda>db. Inr (query_events_of_interest q (tb_events db)))))"

definition get_event_of_interest_async ::
  "blocking_run \<Rightarrow> string \<Rightarrow> handle \<Rightarrow> (storage_error + event_of_interest) \<times> handle" where
  "get_event_of_interest_async b i = on_blocking b (locked (reading (\<lambda>db. get_event_of_interest i (tb_events db))))"

definition update_event_of_interest_async ::
  "blocking_run \<Rightarrow> int \<Rightarrow> update_event_of_interest \<Rightarrow> handle \<Rightarrow> (storage_error + event_of_interest) \<times> handle" where
  "update_event_of_interest_async b now u = on_blocking b (locked (on_events (update_event_of_interest now u)))"

definition delete_event_of_interest_async ::
  "blocking_run \<Rightarrow> string \<Rightarrow> handle \<Rightarrow> (storage_error + unit) \<times> handle" where
  "delete_event_of_interest_async b i = on_blocking b (locked (on_events (delete_event_of_interest i)))"

definition list_scenarios_async ::
  "blocking_run \<Rightarrow> handle \<Rightarrow> (storage_error + scenario list) \<times> handle" where
  "list_scenarios_async b = on_blocking b (locked (reading (\<lambda>db. Inr (list_scenarios (tb_scenarios db)))))"

definition get_scenario_async ::
  "blocking_run \<Rightarrow> string \<Rightarrow> handle \<Rightarrow> (storage_error + scenario \<times> scenario_track list) \<times> handle" where
  "get_scenario_async b i = on_blocking b (locked (reading (\<lambda>db. get_scenario i (tb_scenarios db))))"

definition insert_scenario_async ::
  "blocking_run \<Rightarrow> string \<Rightarrow> int \<Rightarrow> create_scenario \<Rightarrow> handle \<Rightarrow> (storage_error + scenario) \<times> handle" where
  "insert_scenario_async b i now c = on_blocking b (locked (on_scenarios (insert_scenario i now c)))"

definition update_scenario_async ::
  "blocking_run \<Rightarrow> int \<Rightarrow> update_scenario \<Rightarrow> handle \<Rightarrow> (storage_error + scenario) \<times> handle" where
  "update_scenario_async b now u = on_blocking b (locked (on_scenarios (update_scenario now u)))"

definition delete_scenario_async ::
  "blocking_run \<Rightarrow> string \<Rightarrow> handle \<Rightarrow> (storage_error + unit) \<times> handle" where
  "delete_scenario_async b i = on_blocking b (locked (on_scenarios (delete_scenario i)))"

definition insert_scenario_track_async ::
  "blocking_run \<Rightarrow> string \<Rightarrow> int \<Rightarrow> create_scenario_track \<Rightarrow> handle \<Rightarrow> (storage_error + scenario_track) \<times> handle" where
  "insert_scenario_track_async b i now c = on_blocking b (locked (on_scenarios (insert_scenario_track i now c)))"

definition update_scenario_track_async ::
  "blocking_run \<Rightarrow> int \<Rightarrow> update_scenario_track \<Rightarrow> handle \<Rightarrow> (storage_error + scenario_track) \<times> handle" where
  "update_scenario_track_async b now u = on_blocking b (locked (on_scenarios (update_scenario_track now u)))"

definition delete_scenario_track_async ::
  "blocking_run \<Rightarrow> string \<Rightarrow> int \<Rightarrow> handle \<Rightarrow> (storage_error + unit) \<times> handle" where
  "delete_scenario_track_async b i now = on_blocking b (locked (on_scenarios (delete_scenario_track i now)))"

definition reorder_scenario_tracks_async ::
  "blocking_run \<Rightarrow> int \<Rightarrow> string \<Rightarrow> string list \<Rightarrow> handle \<Rightarrow> (storage_error + unit) \<times> handle" where
  "reorder_scenario_tracks_async b now scenario_id ids = on_blocking b (locked (on_scenarios (reorder_scenario_tracks now scenario_id ids)))"

definition start_sharing_async ::
  "blocking_run \<Rightarrow> quack_answers \<Rightarrow> handle \<Rightarrow> (storage_error + share_info) \<times> handle" where
  "start_sharing_async b env = on_blocking b (locked_sharing (start_sharing env))"

definition stop_sharing_async ::
  "blocking_run \<Rightarrow> quack_answers \<Rightarrow> handle \<Rightarrow> (storage_error + unit) \<times> handle" where
  "stop_sharing_async b env = on_blocking b (locked_sharing (stop_sharing env))"

definition sharing_status_async :: "blocking_run \<Rightarrow> handle \<Rightarrow> (storage_error + share_status) \<times> handle" where
  "sharing_status_async b = on_blocking b (locked_sharing (\<lambda>s. (Inr (sh_status s), s)))"

text \<open>Transfer works on the positions, raw messages and the weather.\<close>

definition transferred :: "tables \<Rightarrow> database" where
  "transferred db = \<lparr>db_storage = tb_storage db, db_weather = (case tb_weather db of Some rows \<Rightarrow> rows | None \<Rightarrow> [])\<rparr>"

definition export_database_async ::
  "blocking_run \<Rightarrow> storage_error + unit \<Rightarrow> handle \<Rightarrow> (storage_error + import_file) \<times> handle" where
  "export_database_async b written = on_blocking b (locked (reading (\<lambda>db. case written of
      Inl e \<Rightarrow> Inl e | Inr _ \<Rightarrow> Inr (export_database (transferred db)))))"

definition preview_import_async ::
  "blocking_run \<Rightarrow> storage_error + import_file \<Rightarrow> handle \<Rightarrow> (storage_error + import_preview) \<times> handle" where
  "preview_import_async b file = on_blocking b (locked (reading (\<lambda>_. preview_import file)))"

definition import_database_async ::
  "blocking_run \<Rightarrow> storage_error + unit \<Rightarrow> storage_error + import_file \<Rightarrow> handle \<Rightarrow> (storage_error + import_result) \<times> handle" where
  "import_database_async b attach file = on_blocking b (locked (\<lambda>db.
     let (r, d) = import_database attach file (transferred db)
     in (r, db\<lparr>tb_storage := db_storage d, tb_weather := map_option (\<lambda>_. db_weather d) (tb_weather db)\<rparr>)))"

lemmas handle_defs = on_blocking_def locked_def reading_def on_storage_def on_weather_def Let_def

subsection \<open>The recorder on a handle\<close>

text \<open>What the recorder does with its database.\<close>

datatype recorder_op =
    Store_Positions "(aircraft_position \<times> int) list"
  | Store_Raw "(raw_sbs_record \<times> int) list"
  | Store_Weather weather_record
  | Prune_Before int
  | Checkpoint "storage_error + unit"

definition forget :: "(storage_error + 'a) \<times> handle \<Rightarrow> (storage_error + unit) \<times> handle" where
  "forget p = (map_sum id (\<lambda>_. ()) (fst p), snd p)"

fun recorder_do :: "blocking_run \<Rightarrow> recorder_op \<Rightarrow> handle \<Rightarrow> (storage_error + unit) \<times> handle" where
  "recorder_do b (Store_Positions batch) h = insert_batch_async b batch h"
| "recorder_do b (Store_Raw records) h = insert_raw_batch_async b records h"
| "recorder_do b (Store_Weather r) h = forget (insert_weather_snapshot_async b r h)"
| "recorder_do b (Prune_Before t) h = forget (prune_async b t h)"
| "recorder_do b (Checkpoint folded) h = checkpoint_async b folded h"

definition recorder_ops :: "(blocking_run \<times> recorder_op) list \<Rightarrow> handle \<Rightarrow> handle" where
  "recorder_ops ops h = fold (\<lambda>(b, op) h. snd (recorder_do b op h)) ops h"

text \<open>What reaches the position and raw tables without the handle.\<close>

fun plain_op :: "recorder_op \<Rightarrow> storage \<Rightarrow> storage" where
  "plain_op (Store_Positions batch) st = snd (insert_batch batch st)"
| "plain_op (Store_Raw records) st = insert_raw_batch records st"
| "plain_op (Prune_Before t) st = snd (prune t st)"
| "plain_op _ st = st"

lemma recorder_op_ran:
  assumes "\<not> hd_poisoned h"
  shows "tb_storage (hd_tables (snd (recorder_do Ran op h))) = plain_op op (tb_storage (hd_tables h))
    \<and> \<not> hd_poisoned (snd (recorder_do Ran op h))"
  using assms
  by (cases op) (auto simp: insert_batch_async_def insert_raw_batch_async_def insert_weather_snapshot_async_def prune_async_def
      checkpoint_async_def forget_def handle_defs insert_batch_def insert_raw_batch_def split_def split: option.splits)

lemma recorder_op_before:
  "snd (recorder_do (Panicked_Before e) op h) = h"
  by (cases op) (auto simp: insert_batch_async_def insert_raw_batch_async_def insert_weather_snapshot_async_def prune_async_def
      checkpoint_async_def forget_def on_blocking_def)

text \<open>The handle adds nothing to the storage and takes nothing away. While no task panics holding the mutex,
  the tables are what the operations of the tasks that ran make of them one after the other, whatever
  tasks failed before they locked.\<close>

theorem handle_refines_storage:
  assumes "\<not> hd_poisoned h" and "\<forall>(b, op) \<in> set ops. \<forall>e db. b \<noteq> Panicked_Holding e db"
  shows "tb_storage (hd_tables (recorder_ops ops h)) = fold plain_op (map snd (filter (\<lambda>(b, op). b = Ran) ops)) (tb_storage (hd_tables h))"
  using assms
proof (induction ops arbitrary: h)
  case (Cons x ops)
  obtain b op where x: "x = (b, op)" by fastforce
  have rest: "\<forall>(b, op) \<in> set ops. \<forall>e db. b \<noteq> Panicked_Holding e db" using Cons.prems(2) by simp
  show ?case
  proof (cases b)
    case Ran
    then show ?thesis using recorder_op_ran [OF Cons.prems(1), of op] Cons.IH [OF _ rest, of "snd (recorder_do Ran op h)"] x
      by (simp add: recorder_ops_def)
  next
    case (Panicked_Before e)
    then show ?thesis using recorder_op_before [of e op h] Cons.IH [OF Cons.prems(1) rest] x by (simp add: recorder_ops_def)
  next
    case (Panicked_Holding e db)
    then show ?thesis using Cons.prems(2) x by simp
  qed
qed (simp add: recorder_ops_def)

text \<open>One panic under the mutex ends the recording for good. From then on no operation of the recorder
  changes a table, each one that is not an empty batch fails, whatever becomes of its task, and so
  does the query of the statistics; the process lives on with the tables the panic left.\<close>

theorem panic_ends_recording:
  assumes "\<not> hd_poisoned h" and "snd (get_time_distribution_async (Panicked_Holding e db) cast_div q h) = h'"
  shows "recorder_ops ops h' = h' \<and> hd_tables h' = db
    \<and> (\<forall>(b, op) \<in> set ops. op \<noteq> Store_Positions [] \<and> op \<noteq> Store_Raw [] \<longrightarrow> \<not> is_ok (fst (recorder_do b op h')))
    \<and> (\<forall>b. \<not> is_ok (fst (get_stats_async b h')))"
proof -
  have h': "hd_poisoned h'" "hd_tables h' = db"
    using assms by (auto simp: get_time_distribution_async_def on_blocking_def)
  have "recorder_do b op h' = (fst (recorder_do b op h'), h')
      \<and> (op \<noteq> Store_Positions [] \<and> op \<noteq> Store_Raw [] \<longrightarrow> \<not> is_ok (fst (recorder_do b op h')))" for b op
    using h'(1) by (cases op; cases b) (simp_all add: insert_batch_async_def insert_raw_batch_async_def
        insert_weather_snapshot_async_def prune_async_def checkpoint_async_def forget_def on_blocking_def locked_def)
  then have "snd (recorder_do b op h') = h'"
    and fails: "op \<noteq> Store_Positions [] \<and> op \<noteq> Store_Raw [] \<longrightarrow> \<not> is_ok (fst (recorder_do b op h'))" for b op
    by (metis snd_conv)+
  then have "recorder_ops ops h' = h'" by (induction ops) (simp_all add: recorder_ops_def split_def)
  moreover have "\<not> is_ok (fst (get_stats_async b h'))" for b
    using h'(1) by (cases b) (simp_all add: get_stats_async_def on_blocking_def locked_def)
  ultimately show ?thesis using h'(2) fails by auto
qed

text \<open>An empty database, and a position for it.\<close>

definition fresh_handle :: handle where
  "fresh_handle = \<lparr>hd_tables = \<lparr>tb_storage = storage_empty ''pi'' 100, tb_status = [], tb_events = [],
      tb_scenarios = \<lparr>ss_scenarios = [], ss_tracks = []\<rparr>, tb_weather = Some []\<rparr>,
     hd_sharing = open_sharing no_quack default_storage_config, hd_poisoned = False\<rparr>"

theorem handle_refines_storage_witness:
  "tb_storage (hd_tables (recorder_ops [(Ran, Store_Positions []), (Panicked_Before ''gone'', Prune_Before 5),
       (Ran, Checkpoint (Inl (DuckDb ''busy'')))] fresh_handle)) = storage_empty ''pi'' 100"
  using handle_refines_storage [of fresh_handle "[(Ran, Store_Positions []), (Panicked_Before ''gone'', Prune_Before 5),
       (Ran, Checkpoint (Inl (DuckDb ''busy'')))]"]
  by (simp add: fresh_handle_def insert_batch_def)

theorem panic_ends_recording_witness:
  "\<exists>h. h = snd (get_time_distribution_async (Panicked_Holding ''overflow'' (hd_tables fresh_handle)) (\<lambda>a b. a div b)
         \<lparr>td_start_ms = 0, td_end_ms = 9, td_num_buckets = 3, td_metric = TD_Positions\<rparr> fresh_handle)
     \<and> recorder_ops [(Ran, Store_Positions []), (Ran, Prune_Before 5), (Ran, Checkpoint (Inr ()))] h = h
     \<and> \<not> is_ok (fst (recorder_do Ran (Prune_Before 5) h)) \<and> \<not> is_ok (fst (get_stats_async Ran h))"
proof -
  let ?q = "\<lparr>td_start_ms = 0, td_end_ms = 9, td_num_buckets = 3, td_metric = TD_Positions\<rparr>"
  let ?h = "snd (get_time_distribution_async (Panicked_Holding ''overflow'' (hd_tables fresh_handle)) (\<lambda>a b. a div b) ?q fresh_handle)"
  have "\<not> hd_poisoned fresh_handle" by (simp add: fresh_handle_def)
  note ends = panic_ends_recording [OF this, where e = "''overflow''" and db = "hd_tables fresh_handle" and cast_div = "\<lambda>a b. a div b"
      and q = ?q and ops = "[(Ran, Store_Positions []), (Ran, Prune_Before 5), (Ran, Checkpoint (Inr ()))]", OF refl]
  then show ?thesis by auto
qed

end
