(* ===== verification/Service_Process.thy ===== *)
theory Service_Process imports Weather_Publisher Weather_Schedule Weather_Config Weather_Api Storage_Open Server_Config
  Metrics_Export Tool_Server Feed_Source Feed_Process begin

text \<open>
  The two daemons as processes: \<open>main.rs\<close> of the weather service and of the recorder, from the layered
  configuration through what each starts to its exit code, and the HTTP routes they serve. Tasks are
  modelled where they are written; here is what they are started with. Building the HTTP client and
  binding a port are answers of the environment.
\<close>

subsection \<open>Loading a configuration\<close>

text \<open>The two daemons report what went wrong with \<open>anyhow\<close>, as a text; only the weather service says
  which file it was.\<close>

definition load_server_config ::
  "(bytes \<Rightarrow> string + (string \<rightharpoonup> toml)) \<Rightarrow> (string \<Rightarrow> bool) \<Rightarrow> config_file \<Rightarrow> server_config \<Rightarrow> string + server_config" where
  "load_server_config parse is_defaulted file parsed = (case file of
      Absent \<Rightarrow> Inr parsed
    | Unreadable e \<Rightarrow> Inl e
    | Contents text \<Rightarrow> (case parse text of
          Inl e \<Rightarrow> Inl e | Inr from_file \<Rightarrow> Inr (overlay_server_file from_file is_defaulted parsed)))"

text \<open>\<open>value_source\<close> of an option is \<open>None\<close> when nothing set it; both count as defaulted.\<close>

datatype value_source = From_Default | From_Env | From_Flag

definition weather_defaulted :: "(string \<Rightarrow> value_source option) \<Rightarrow> string \<Rightarrow> bool" where
  "weather_defaulted sources i = (case sources i of None \<Rightarrow> True | Some s \<Rightarrow> s = From_Default)"

definition load_weather_config ::
  "(bytes \<Rightarrow> string + (string \<rightharpoonup> toml)) \<Rightarrow> (string \<Rightarrow> value_source option) \<Rightarrow> config_file \<Rightarrow> weather_config \<Rightarrow> string + weather_config" where
  "load_weather_config parse sources file parsed = (case file of
      Absent \<Rightarrow> Inr parsed
    | Unreadable e \<Rightarrow> Inl (''reading '' @ wc_config parsed @ '': '' @ e)
    | Contents text \<Rightarrow> (case parse text of
          Inl e \<Rightarrow> Inl (''parsing '' @ wc_config parsed @ '': '' @ e)
        | Inr from_file \<Rightarrow> Inr (overlay_weather_file from_file (weather_defaulted sources) parsed)))"

subsection \<open>The weather service\<close>

text \<open>What \<open>report_budget\<close> logs: whether every refresh will be rate limited or how long one is spread, and
  the verdict on a day. \<open>None\<close> is a panic.\<close>

definition HOURLY_LIMIT :: f64 where "HOURLY_LIMIT = F_fin 5000"

definition as_secs :: "duration \<Rightarrow> nat" where "as_secs d = d div 1000000000"

datatype refresh_note = Every_Refresh_Limited | Spread_Over nat | Unremarkable

definition report_budget :: "weather_config \<Rightarrow> nat \<Rightarrow> (refresh_note \<times> budget_verdict) option" where
  "report_budget c points =
     (let variables = variables_per_location (length (wc_levels c));
          daily = estimated_daily_calls points variables (wc_refresh_minutes c);
          per_refresh = calls_per_refresh points variables
      in map_option (\<lambda>pacing.
           (if f64_lt HOURLY_LIMIT per_refresh then Every_Refresh_Limited
            else if pacing \<noteq> 0 then Spread_Over (as_secs pacing) else Unremarkable, verdict daily))
         (estimated_pacing per_refresh))"

text \<open>\<open>Refresher::new\<close> with the builder calls of \<open>run\<close>: the store and the desired channel are the control's.\<close>

definition refresher_new :: "grid_spec \<Rightarrow> nat list \<Rightarrow> duration \<Rightarrow> control \<Rightarrow> bool \<Rightarrow> 'v cache_file \<Rightarrow> 'v refresher" where
  "refresher_new grid levels refresh ctl has_cache cache =
     \<lparr>rf_grid = grid, rf_levels = levels, rf_refresh = refresh, rf_retry = default_retry,
      rf_cache_path = has_cache, rf_cache = cache, rf_control = ctl, rf_desired_seen = ct_wakes ctl, rf_desired_open = True,
      rf_shutdown = False, rf_shutdown_seen = True, rf_shutdown_open = True, rf_snapshots = None,
      rf_reported = default_reported, rf_report = default_reported, rf_failures = 0, rf_last_outcome = None,
      rf_pending = None, rf_commands_open = True, rf_phase = Stopped, rf_now = 0, rf_trace = []\<rparr>"

text \<open>What the disk holds, what the environment answers and the clocks that are read.\<close>

record 'v weather_env =
  we_state_file :: state_file
  we_disk :: "bool list"
  we_cache :: "'v cache_file"
  we_client :: "string + unit"
  we_clock :: clock_reading
  we_later :: int

record 'v weather_process =
  wp_control :: control
  wp_store_error :: "state_file_error option"
  wp_budget :: "refresh_note \<times> budget_verdict"
  wp_provider :: "'v provider"
  wp_refresher :: "'v refresher"
  wp_projection :: projection
  wp_publisher :: "'v publisher"
  wp_client_id :: string
  wp_api :: "(ip_addr \<times> nat) option"

datatype start_error = Bad_Settings weather_config_error | No_Client string

datatype 'p started = Started_With 'p | Not_Started start_error | Start_Panics

definition weather_start ::
  "(f64 \<Rightarrow> f64) \<Rightarrow> weather_config \<Rightarrow> 'v weather_env \<Rightarrow> 'v weather_process started" where
  "weather_start cos_f c w = (case weather_grid cos_f c of
      Inl e \<Rightarrow> Not_Started (Bad_Settings e)
    | Inr grid \<Rightarrow> (case report_budget c (length (grid_points grid)) of
        None \<Rightarrow> Start_Panics
      | Some budget \<Rightarrow>
         (let (store, store_error) = store_open (wc_state_path c \<noteq> None) (we_state_file w) (we_disk w);
              ctl = control_new store
          in case we_client w of
               Inl e \<Rightarrow> Not_Started (No_Client e)
             | Inr _ \<Rightarrow>
                 (let refresher = refresher_new grid (wc_levels c) (from_secs (wc_refresh_minutes c * 60)) ctl
                        (wc_cache_path c \<noteq> None) (we_cache w);
                      status = project (ct_desired ctl) default_reported (ck_wall (we_clock w));
                      process = (\<lambda>api. \<lparr>wp_control = ctl, wp_store_error = store_error, wp_budget = budget,
                        wp_provider = provider_new (wc_base_url c) (wc_model c),
                        wp_refresher = refresher_start (we_clock w) refresher,
                        wp_projection = projection_start (ct_desired ctl) (ck_wall (we_clock w)) (we_later w),
                        wp_publisher = publisher_start (wc_mqtt_topic c) status,
                        wp_client_id = publisher_client_id (wc_source_id c), wp_api = api\<rparr>)
                  in if wc_http_port c = 0 then Started_With (process None)
                     else (case http_bind_addr c of
                         Inl _ \<Rightarrow> Start_Panics
                       | Inr bind_to \<Rightarrow> Started_With (process (Some (bind_to, wc_http_port c))))))))"

text \<open>\<open>main\<close>: invalid settings are told apart from a start that fails. Once started the process ends on a
  signal, \<open>None\<close> until then.\<close>

definition weather_main ::
  "(weather_config \<Rightarrow> string + string) \<Rightarrow> (f64 \<Rightarrow> f64) \<Rightarrow> 'v weather_env \<Rightarrow> bool \<Rightarrow> string + weather_config \<Rightarrow> nat option" where
  "weather_main to_toml cos_f w signalled loaded = (case loaded of
      Inl _ \<Rightarrow> Some 2
    | Inr c \<Rightarrow>
        if wc_print_config c then (case to_toml c of Inl _ \<Rightarrow> Some 2 | Inr _ \<Rightarrow> Some 0)
        else (case validate_weather cos_f c of
            Inl _ \<Rightarrow> Some 2
          | Inr _ \<Rightarrow> (case weather_start cos_f c w of
                Not_Started _ \<Rightarrow> Some 1
              | Start_Panics \<Rightarrow> Some 101
              | Started_With _ \<Rightarrow> if signalled then Some 0 else None)))"

subsection \<open>The recorder\<close>

text \<open>\<open>Recorder::open\<close>\<close>

definition recorder_open :: "open_answers \<Rightarrow> recorder_config \<Rightarrow> storage \<Rightarrow> storage_error + opened \<times> recorder_config" where
  "recorder_open env c disk = (case storage_open env (rd_storage c) disk of
      Inl e \<Rightarrow> Inl e | Inr db \<Rightarrow> Inr (db, c))"

record recorder_process =
  rr_database :: opened
  rr_config :: recorder_config
  rr_http :: "(ip_addr \<times> nat \<times> string) option" \<comment> \<open>where the tools and the metrics of this receiver are served\<close>
  rr_source :: mqtt_source
  rr_weather_topic :: string

definition recorder_start ::
  "open_answers \<Rightarrow> string \<Rightarrow> server_config \<Rightarrow> storage \<Rightarrow> storage_error + recorder_process" where
  "recorder_start env now_path c disk = (case recorder_open env (recorder_config_of c) disk of
      Inl e \<Rightarrow> Inl e
    | Inr (db, rc) \<Rightarrow>
        (let http_bind = (case server_http_bind_addr c of Some a \<Rightarrow> a | None \<Rightarrow> V4 [127, 0, 0, 1]);
             feed = feed_config now_path c;
             topic = weather_topic feed
         in Inr \<lparr>rr_database = db, rr_config = rc,
                 rr_http = (if sv_http_port c > 0 then Some (http_bind, sv_http_port c, sv_source_id c) else None),
                 rr_source = with_aux_topic topic (mqtt_source_new feed), rr_weather_topic = topic\<rparr>))"

text \<open>How the run ended: the source returned, or a signal came and the final checkpoint was or was not
  written, which only the log tells.\<close>

datatype recorder_end = Source_Ended "client_error + unit" | Signalled "storage_error + unit" | Still_Running

definition recorder_main ::
  "(server_config \<Rightarrow> string + string) \<Rightarrow> (server_config \<Rightarrow> storage_error + recorder_process) \<Rightarrow> recorder_end
    \<Rightarrow> string + server_config \<Rightarrow> nat option" where
  "recorder_main to_toml start w loaded = (case loaded of
      Inl _ \<Rightarrow> Some 2
    | Inr c \<Rightarrow>
        if sv_print_config c then (case to_toml c of Inl _ \<Rightarrow> Some 2 | Inr _ \<Rightarrow> Some 0)
        else (case start c of
            Inl _ \<Rightarrow> Some 1
          | Inr _ \<Rightarrow> (case w of
                Source_Ended (Inl _) \<Rightarrow> Some 1
              | Source_Ended (Inr _) \<Rightarrow> Some 0
              | Signalled _ \<Rightarrow> Some 0
              | Still_Running \<Rightarrow> None)))"

subsection \<open>The routes\<close>

text \<open>The path parameter of a tool is percent-decoded by the framework.\<close>

datatype verb = Get | Post | Other

datatype 'j data_reply = Tool_Reply "'j envelope" | Exposition string | Method_Not_Allowed | No_Route | Handler_Panic

definition tool_name :: "(string \<Rightarrow> string option) \<Rightarrow> string \<Rightarrow> string option" where
  "tool_name percent_decode path = (case strip_prefix ''/tools/'' path of
      Some segment \<Rightarrow> if segment \<noteq> [] \<and> CHR ''/'' \<notin> set segment then percent_decode segment else None
    | None \<Rightarrow> None)"

definition tool_router ::
  "(string \<Rightarrow> string option) \<Rightarrow> (string \<Rightarrow> 'j option \<Rightarrow> 'j envelope) \<Rightarrow> verb \<Rightarrow> string \<Rightarrow> 'j option \<Rightarrow> 'j data_reply" where
  "tool_router percent_decode tool v path body = (case tool_name percent_decode path of
      None \<Rightarrow> No_Route
    | Some name \<Rightarrow> if v = Post then Tool_Reply (tool name body) else Method_Not_Allowed)"

definition handle_metrics :: "(family list \<Rightarrow> string + bytes) \<Rightarrow> string \<Rightarrow> string \<Rightarrow> instant \<Rightarrow> stats_cache \<Rightarrow> string option" where
  "handle_metrics encoder version receiver_id now cache =
     exporter_encode encoder (render_recorder version receiver_id (cache_snapshot now cache))"

definition recorder_router ::
  "(string \<Rightarrow> string option) \<Rightarrow> (string \<Rightarrow> 'j option \<Rightarrow> 'j envelope) \<Rightarrow> string option \<Rightarrow> verb \<Rightarrow> string \<Rightarrow> 'j option \<Rightarrow> 'j data_reply" where
  "recorder_router percent_decode tool exposition v path body =
     (if path = ''/metrics''
      then (if v = Get then (case exposition of Some text \<Rightarrow> Exposition text | None \<Rightarrow> Handler_Panic) else Method_Not_Allowed)
      else tool_router percent_decode tool v path body)"

definition WEATHER_METRICS_PATH :: string where "WEATHER_METRICS_PATH = ''/metrics''"

definition get_metrics :: "(family list \<Rightarrow> string + bytes) \<Rightarrow> string \<Rightarrow> string \<Rightarrow> weather_status \<Rightarrow> string option" where
  "get_metrics encoder version receiver_id status = exporter_encode encoder (render_weather version receiver_id status)"

text \<open>The routes of the control API and the one of the metrics; \<open>rest\<close> are the answers of the first.\<close>

definition weather_router ::
  "(request \<Rightarrow> control \<Rightarrow> reply \<times> control) \<Rightarrow> string option \<Rightarrow> request \<Rightarrow> control \<Rightarrow> reply option \<times> control" where
  "weather_router rest exposition rq c =
     (if rq_path rq = WEATHER_METRICS_PATH
      then (if rq_verb rq = GET then map_option (\<lambda>text. \<lparr>rp_status = 200, rp_body = text\<rparr>) exposition
            else Some \<lparr>rp_status = 405, rp_body = []\<rparr>, c)
      else map_prod Some id (rest rq c))"

text \<open>What a listener logs: \<open>True\<close> is the warning that it is reachable from the network. A port that cannot be
  bound is logged and the process goes on without it.\<close>

definition is_loopback :: "ip_addr \<Rightarrow> bool" where
  "is_loopback a = (case a of V4 ns \<Rightarrow> take 1 ns = [127] | V6 ns \<Rightarrow> ns = replicate 7 0 @ [1])"

definition bind_listener :: "string + unit \<Rightarrow> ip_addr \<Rightarrow> nat \<Rightarrow> (ip_addr \<times> nat \<times> bool) option" where
  "bind_listener bound addr port = (case bound of Inl _ \<Rightarrow> None | Inr _ \<Rightarrow> Some (addr, port, \<not> is_loopback addr))"

end
