(* ===== verification/Service_Process_Props.thy ===== *)
theory Service_Process_Props imports Service_Process begin

text \<open>
  What the daemons promise as processes: the parts of the weather service start agreeing, the exit codes
  tell what failed, and nothing listens beyond this machine that was not told to.
\<close>

subsection \<open>The weather service starts in step\<close>

lemma weather_started:
  assumes "weather_start cos_f c w = Started_With p"
  obtains grid store where "weather_grid cos_f c = Inr grid"
    "store = fst (store_open (wc_state_path c \<noteq> None) (we_state_file w) (we_disk w))"
    "wp_control p = control_new store"
    "wp_refresher p = refresher_start (we_clock w) (refresher_new grid (wc_levels c) (from_secs (wc_refresh_minutes c * 60))
        (control_new store) (wc_cache_path c \<noteq> None) (we_cache w))"
    "wp_projection p = projection_start (ps_enabled (ss_state store)) (ck_wall (we_clock w)) (we_later w)"
    "wp_publisher p = publisher_start (wc_mqtt_topic c) (project (ps_enabled (ss_state store)) default_reported (ck_wall (we_clock w)))"
    "wp_api p = (if wc_http_port c = 0 then None else Some (projr (http_bind_addr c), wc_http_port c))"
  using assms
  by (auto simp: weather_start_def Let_def control_new_def split_def split: sum.splits option.splits if_splits)

lemma loop_top_frame: "rf_control (loop_top ck s) = rf_control s"
  "\<not> rf_shutdown s \<Longrightarrow> \<not> ct_desired (rf_control s) \<Longrightarrow> rf_phase (loop_top ck s) = Disabled_Wait \<and> rf_trace (loop_top ck s) = rf_trace s"
  by (simp_all add: loop_defs Let_def split: option.splits)

lemma refresher_start_frame:
  "rf_control (refresher_start ck s) = rf_control s"
  "\<not> rf_shutdown s \<Longrightarrow> \<not> ct_desired (rf_control s) \<Longrightarrow>
     rf_phase (refresher_start ck s) = Disabled_Wait \<and> rf_trace (refresher_start ck s) = rf_trace s"
  by (auto simp: refresher_start_def Let_def loop_top_frame set_report_def split: option.splits)

lemma projection_starts:
  "wv_value (pj_desired (projection_start enabled now0 now1)) = enabled"
  "same_content (project enabled default_reported now0) (pj_status (projection_start enabled now0 now1))"
  by (simp_all add: projection_start_def projection_top_def Let_def same_content_refl)

definition stored_setting :: "weather_config \<Rightarrow> 'v weather_env \<Rightarrow> bool" where
  "stored_setting c w \<longleftrightarrow> (case (wc_state_path c, we_state_file w) of (Some _, Stored s) \<Rightarrow> ps_enabled s | _ \<Rightarrow> True)"

lemma stored_setting: "ps_enabled (ss_state (fst (store_open (wc_state_path c \<noteq> None) (we_state_file w) (we_disk w)))) = stored_setting c w"
  by (cases "we_state_file w"; cases "wc_state_path c") (simp_all add: store_open_def store_load_def stored_setting_def default_persisted_def)

text \<open>The parts of the weather service start in step. The setting on the disk, or enabled when there is no
  file, none that reads or no path for one, is what the control holds, what the loop obeys, what the
  projection shows and what the publisher announces first, under the topics beside the configured one;
  a service that was switched off starts waiting, without a fetch.\<close>

theorem weather_parts_start_in_step:
  assumes "weather_start cos_f c w = Started_With p"
  shows "ct_desired (wp_control p) = stored_setting c w
    \<and> rf_control (wp_refresher p) = wp_control p
    \<and> wv_value (pj_desired (wp_projection p)) = stored_setting c w
    \<and> same_content (wv_value (pb_status (wp_publisher p))) (pj_status (wp_projection p))
    \<and> pb_topics (wp_publisher p) = from_grid_topic (wc_mqtt_topic c)
    \<and> (\<not> stored_setting c w \<longrightarrow> rf_phase (wp_refresher p) = Disabled_Wait \<and> rf_trace (wp_refresher p) = [])"
proof -
  from assms obtain grid store where p: "store = fst (store_open (wc_state_path c \<noteq> None) (we_state_file w) (we_disk w))"
    "wp_control p = control_new store"
    "wp_refresher p = refresher_start (we_clock w) (refresher_new grid (wc_levels c) (from_secs (wc_refresh_minutes c * 60))
        (control_new store) (wc_cache_path c \<noteq> None) (we_cache w))"
    "wp_projection p = projection_start (ps_enabled (ss_state store)) (ck_wall (we_clock w)) (we_later w)"
    "wp_publisher p = publisher_start (wc_mqtt_topic c) (project (ps_enabled (ss_state store)) default_reported (ck_wall (we_clock w)))"
    by (rule weather_started)
  have "ps_enabled (ss_state store) = stored_setting c w" unfolding p(1) by (rule stored_setting)
  then show ?thesis
    by (simp add: p(2-5) refresher_start_frame refresher_new_def projection_starts publisher_start_def control_new_def)
qed

subsection \<open>Exit codes\<close>

lemma validated_grid: "validate_weather cos_f c = Inr () \<Longrightarrow> is_ok (weather_grid cos_f c) \<and> is_ok (http_bind_addr c)"
  by (auto simp: validate_weather_def split: if_splits option.splits sum.splits)

text \<open>What the exit code of the weather service says: 2 that its configuration could not be loaded,
  printed or is invalid; 1 that the HTTP client could not be built, and nothing else; 101 that the
  estimate of its calls is beyond what a duration holds. In particular the address of its listener,
  which it takes for granted, never makes it panic.\<close>

theorem weather_exit_codes:
  "weather_main to_toml cos_f w signalled loaded = Some n \<Longrightarrow>
     (n = 0 \<longrightarrow> (\<exists>c. loaded = Inr c \<and> (signalled \<or> wc_print_config c)))
   \<and> (n = 1 \<longrightarrow> (\<exists>c e. loaded = Inr c \<and> validate_weather cos_f c = Inr () \<and> we_client w = Inl e))
   \<and> (n = 2 \<longrightarrow> (case loaded of Inl _ \<Rightarrow> True | Inr c \<Rightarrow>
          if wc_print_config c then \<not> is_ok (to_toml c) else validate_weather cos_f c \<noteq> Inr ()))
   \<and> (n = 101 \<longrightarrow> (\<exists>c grid. loaded = Inr c \<and> weather_grid cos_f c = Inr grid \<and> report_budget c (length (grid_points grid)) = None))
   \<and> n \<in> {0, 1, 2, 101}"
proof (cases loaded)
  case (Inr c)
  assume run: "weather_main to_toml cos_f w signalled loaded = Some n"
  show ?thesis
  proof (cases "wc_print_config c")
    case True
    then show ?thesis using run Inr by (auto simp: weather_main_def split: sum.splits)
  next
    case False
    show ?thesis
    proof (cases "validate_weather cos_f c")
      case (Inl e)
      then show ?thesis using run Inr False by (auto simp: weather_main_def)
    next
      case valid: (Inr u)
      then obtain grid bind_to where ok: "weather_grid cos_f c = Inr grid" "http_bind_addr c = Inr bind_to"
        using validated_grid [of cos_f c] by auto
      show ?thesis
        using run Inr False valid ok
        by (cases "report_budget c (length (grid_points grid))"; cases "we_client w")
           (auto simp: weather_main_def weather_start_def Let_def split_def split: if_splits)
    qed
  qed
qed (simp add: weather_main_def)

text \<open>A recorder lives by its database. It fails exactly when the database does not open or its source ends
  with an error; sharing that does not start, an address that does not parse and a final checkpoint
  that is not written cost it nothing, and its exit code does not tell of them.\<close>

theorem recorder_lives_by_its_database:
  "(recorder_main to_toml (\<lambda>c. recorder_start env now_path c disk) w (Inr c) = Some 1 \<longleftrightarrow>
      \<not> sv_print_config c \<and> (\<not> is_ok (storage_open env (server_storage_config c) disk) \<or> (\<exists>e. w = Source_Ended (Inl e))))
   \<and> (\<not> sv_print_config c \<and> is_ok (storage_open env (server_storage_config c) disk) \<longrightarrow>
        recorder_main to_toml (\<lambda>c. recorder_start env now_path c disk) (Signalled r) (Inr c) = Some 0)
   \<and> (is_ok (storage_open env (server_storage_config c) disk) \<longleftrightarrow>
        is_ok (oa_directory env) \<and> is_ok (oa_connect env) \<and> is_ok (oa_authored env) \<and> is_ok (oa_observed env)
        \<and> is_ok (oa_bootstrap env) \<and> is_ok (oa_rebuild env))"
proof -
  have start: "is_ok (recorder_start env now_path c disk) \<longleftrightarrow> is_ok (storage_open env (server_storage_config c) disk)"
    by (auto simp: recorder_start_def recorder_open_def recorder_config_of_def Let_def split: sum.splits)
  have opens: "is_ok (storage_open env (server_storage_config c) disk) \<longleftrightarrow>
        is_ok (oa_directory env) \<and> is_ok (oa_connect env) \<and> is_ok (oa_authored env) \<and> is_ok (oa_observed env)
        \<and> is_ok (oa_bootstrap env) \<and> is_ok (oa_rebuild env)"
  proof (cases "all_ok [oa_directory env, oa_connect env, oa_authored env]")
    case (Inl e)
    then show ?thesis using all_ok_iff [of "[oa_directory env, oa_connect env, oa_authored env]" "()"]
      by (auto simp: storage_open_def server_storage_config_def Let_def)
  next
    case first: (Inr u)
    then show ?thesis
      using all_ok_iff [of "[oa_directory env, oa_connect env, oa_authored env]" "()"]
        all_ok_iff [of "[oa_observed env, oa_bootstrap env, oa_rebuild env]" "()"]
      by (cases "all_ok [oa_observed env, oa_bootstrap env, oa_rebuild env]")
         (auto simp: storage_open_def server_storage_config_def Let_def)
  qed
  have "recorder_main to_toml (\<lambda>c. recorder_start env now_path c disk) w (Inr c) = Some 1 \<longleftrightarrow>
      \<not> sv_print_config c \<and> (\<not> is_ok (recorder_start env now_path c disk) \<or> (\<exists>e. w = Source_Ended (Inl e)))"
    by (cases "recorder_start env now_path c disk")
       (auto simp: recorder_main_def split: sum.splits recorder_end.splits)
  moreover have "\<not> sv_print_config c \<Longrightarrow> is_ok (recorder_start env now_path c disk) \<Longrightarrow>
      recorder_main to_toml (\<lambda>c. recorder_start env now_path c disk) (Signalled r) (Inr c) = Some 0"
    by (auto simp: recorder_main_def)
  ultimately show ?thesis unfolding start opens [symmetric] by (simp only:) blast
qed

subsection \<open>What listens where\<close>

text \<open>C28: What the services serve beyond this machine is what they were told to. An HTTP endpoint of the
  recorder, the weather service or the feed client is bound to the address its configuration spells, or
  to the loopback when the recorder's does not parse, and all three are configured for the loopback by
  default. The recorder shares its database over Quack only when \<open>share\<close> is set, which it is not by
  default, and then asks for the configured URI; that URI, when none is given, is every interface. The
  listener for feeders that the feed client opens in server mode is none of these.\<close>

theorem exposed_only_as_configured:
  "(recorder_start env now_path sc disk = Inr r \<and> rr_http r = Some (a, port, i) \<longrightarrow>
      parse_ip (sv_http_bind sc) = Some a \<or> (parse_ip (sv_http_bind sc) = None \<and> is_loopback a))
   \<and> (weather_start cos_f wc w = Started_With p \<and> wp_api p = Some (a, port) \<longrightarrow> parse_ip (wc_http_bind wc) = Some a)
   \<and> (start_client b now wall_ms fc = Inr (cl, Some (a, port, i)) \<longrightarrow> parse_ip (metrics_bind fc) = Some a)
   \<and> list_all (\<lambda>s. \<exists>a. parse_ip s = Some a \<and> is_loopback a)
        [sv_http_bind default_server_config, wc_http_bind default_weather_config, metrics_bind (default_config now_path)]
   \<and> (recorder_start env now_path sc disk = Inr r \<and> sh_servers (op_sharing (rr_database r)) \<noteq> [] \<longrightarrow> sv_share sc
        \<and> (\<exists>uri url token. qa_serve (oa_quack env) (serve_sql \<lparr>sc_uri = sv_share_uri sc, sc_token = sv_share_token sc,
              sc_allow_other_hostname = True, sc_auto_start = True\<rparr>) = Inr (uri, url, token)
            \<and> sh_servers (op_sharing (rr_database r)) = [qualify_uri uri url]))
   \<and> \<not> sv_share default_server_config \<and> sv_share_uri default_server_config = ''quack:0.0.0.0:9494''"
proof -
  have "recorder_start env now_path sc disk = Inr r \<and> rr_http r = Some (a, port, i) \<Longrightarrow>
      parse_ip (sv_http_bind sc) = Some a \<or> (parse_ip (sv_http_bind sc) = None \<and> is_loopback a)"
    by (auto simp: recorder_start_def Let_def server_http_bind_addr_def is_loopback_def split: sum.splits option.splits if_splits)
  moreover have "weather_start cos_f wc w = Started_With p \<and> wp_api p = Some (a, port) \<Longrightarrow> parse_ip (wc_http_bind wc) = Some a"
    by (auto simp: weather_start_def Let_def http_bind_addr_def split_def split: sum.splits option.splits if_splits)
  moreover have "start_client b now wall_ms fc = Inr (cl, Some (a, port, i)) \<Longrightarrow> parse_ip (metrics_bind fc) = Some a"
    by (auto simp: start_client_def metrics_endpoint_def metrics_bind_addr_def split: sum.splits option.splits if_splits)
  moreover have "sv_share sc \<and> (\<exists>uri url token. qa_serve (oa_quack env) (serve_sql \<lparr>sc_uri = sv_share_uri sc,
          sc_token = sv_share_token sc, sc_allow_other_hostname = True, sc_auto_start = True\<rparr>) = Inr (uri, url, token)
        \<and> sh_servers (op_sharing (rr_database r)) = [qualify_uri uri url])"
    if "recorder_start env now_path sc disk = Inr r" "sh_servers (op_sharing (rr_database r)) \<noteq> []"
  proof -
    have "op_sharing (rr_database r) = open_sharing (oa_quack env) (server_storage_config sc)"
      using that(1) by (auto simp: recorder_start_def recorder_open_def recorder_config_of_def storage_open_def
          server_storage_config_def Let_def split: sum.splits)
    with that(2) show ?thesis
      by (auto simp: open_sharing_def server_storage_config_def start_sharing_def share_start_def Let_def split: sum.splits if_splits)
  qed
  moreover note parse_ip_loopback
  ultimately show ?thesis
    by (auto simp: default_server_config_def default_weather_config_def default_config_def is_loopback_def)
qed

subsection \<open>Witnesses\<close>

lemma minutely_pace: "\<exists>c r. tb_capacity open_meteo_minutely = F_fin c \<and> tb_per_second open_meteo_minutely = F_fin r \<and> 0 \<le> c \<and> c < 1000 \<and> 0 < r"
proof -
  have "round64 (1 / 2) = F_fin (1 / 2)" using round64_dyadic [of 1 1] by simp
  with round64_mono [of "1 / 2" "8 / 10"] have "f64_le (F_fin (1 / 2)) (round64 (8 / 10))" by simp
  moreover obtain p where p: "round64 (8 / 10) = F_fin p" "p \<le> 1"
    using round64_between [of 0 "8 / 10" 1] by auto
  ultimately have "1 / 2 \<le> p" by simp
  then obtain c where c: "round64 (600 * p) = F_fin c" "300 \<le> c" "c \<le> 600"
    using round64_between [of 300 "600 * p" 600] p(2) by auto
  then obtain r where "round64 (c / 60) = F_fin r" "5 \<le> r"
    using round64_between [of 5 "c / 60" 10] by auto
  with c p show ?thesis
    by (simp add: open_meteo_minutely_def bucket_new_def MINUTELY_LIMIT_def PACE_FRACTION_def Let_def)
qed

lemma nothing_to_fetch_budget:
  assumes "length (wc_levels c) = 6"
  shows "report_budget c 0 \<noteq> None"
proof -
  have "round64 15 = F_fin 15" "round64 (3 / 2) = F_fin (3 / 2)"
    using round64_small_int [of 15] round64_dyadic [of 3 1] by simp_all
  then have w: "call_weight (variables_per_location 6) = F_fin (3 / 2)"
    by (simp add: call_weight_def variables_per_location_def f64_of_nat_def f64_max_def)
  obtain cap r where pace: "tb_capacity open_meteo_minutely = F_fin cap" "tb_per_second open_meteo_minutely = F_fin r"
      "0 \<le> cap" "cap < 1000" "0 < r"
    using minutely_pace by blast
  have z: "round64 0 = F_fin 0" using round64_small_int [of 0] by simp
  obtain x where x: "round64 (- cap) = F_fin x" "x \<le> 0"
    using round64_between [of "- 1000" "- cap" 0] pace(3,4) by auto
  then have "f64_max (f64_sub (F_fin 0) (F_fin cap)) (F_fin 0) = F_fin 0"
    by (auto simp: f64_max_def f64_sub_def)
  then have "estimated_pacing (F_fin 0) = from_secs_f64 (F_fin 0)"
    using pace(5) by (simp add: estimated_pacing_def pace(1,2) Let_def z)
  then show ?thesis
    by (simp add: report_budget_def calls_per_refresh_def f64_of_nat_def assms w z from_secs_f64_def Let_def)
qed

text \<open>A service that was switched off, with a grid of no columns (its spacing is beyond 360 degrees).\<close>

definition no_columns :: weather_config where
  "no_columns = (located_config (F_fin 0) (F_fin 720))\<lparr>wc_state_path := Some ''state.json''\<rparr>"

lemma no_columns_grid: "\<exists>g. weather_grid cos_f no_columns = Inr g \<and> grid_points g = []"
proof -
  have half: "round64 (1 / 2) = F_fin (1 / 2)" using round64_dyadic [of 1 1] by simp
  have "as_usize (f64_floor (F_fin (1 / 2))) = 0"
    by (simp add: f64_floor_def f64_integral_def as_usize_def f64_to_int_def floors)
  then have "\<exists>g. weather_grid cos_f no_columns = Inr g \<and> g_nlon g = 0"
    by (simp add: no_columns_def located_config_def default_weather_config_def weather_grid_def centered_def is_finite64_def Let_def
        half round9_half)
  then show ?thesis by (auto simp: grid_points_def grid_cells_def)
qed

definition quiet_env :: "nat weather_env" where
  "quiet_env = \<lparr>we_state_file = Stored \<lparr>ps_enabled = False, ps_not_before_ms = None\<rparr>, we_disk = [], we_cache = No_Cache,
     we_client = Inr (), we_clock = at_ms 0, we_later = 1\<rparr>"

lemma quiet_start: "\<exists>p. weather_start (\<lambda>_. F_fin 1) no_columns quiet_env = Started_With p"
proof -
  obtain g where g: "weather_grid (\<lambda>_. F_fin 1) no_columns = Inr g" "grid_points g = []" using no_columns_grid by blast
  have "length (wc_levels no_columns) = 6" by (simp add: no_columns_def located_fields)
  then obtain budget where "report_budget no_columns 0 = Some budget" using nothing_to_fetch_budget by blast
  moreover have "is_ok (http_bind_addr no_columns)"
    using parse_ip_loopback by (auto simp: no_columns_def http_bind_addr_def located_fields)
  ultimately show ?thesis using g by (auto simp: weather_start_def quiet_env_def Let_def split_def)
qed

theorem weather_parts_start_in_step_witness:
  "\<exists>p. weather_start (\<lambda>_. F_fin 1) no_columns quiet_env = Started_With p
     \<and> \<not> ct_desired (wp_control p) \<and> rf_phase (wp_refresher p) = Disabled_Wait \<and> rf_trace (wp_refresher p) = []"
proof -
  obtain p where p: "weather_start (\<lambda>_. F_fin 1) no_columns quiet_env = Started_With p" using quiet_start by blast
  have "\<not> stored_setting no_columns quiet_env" by (simp add: stored_setting_def no_columns_def quiet_env_def)
  with weather_parts_start_in_step [OF p] p show ?thesis by auto
qed

theorem weather_exit_codes_witness:
  "weather_main (\<lambda>_. Inr []) (\<lambda>_. F_fin 1) quiet_env False (Inr default_weather_config) = Some 2
   \<and> validate_weather (\<lambda>_. F_fin 1) default_weather_config \<noteq> Inr ()"
proof -
  have "validate_weather (\<lambda>_. F_fin 1) default_weather_config = Inl No_Latitude" "\<not> wc_print_config default_weather_config"
    by (simp_all add: validate_weather_def default_weather_config_def)
  then have run: "weather_main (\<lambda>_. Inr []) (\<lambda>_. F_fin 1) quiet_env False (Inr default_weather_config) = Some 2"
    by (simp add: weather_main_def)
  from weather_exit_codes [OF run] run \<open>\<not> wc_print_config default_weather_config\<close> show ?thesis by simp
qed

theorem recorder_lives_by_its_database_witness:
  "recorder_main (\<lambda>_. Inr []) (\<lambda>c. recorder_start (working no_quack) ''out.sbs'' c (storage_empty [] 0))
       (Signalled (Inl (DuckDb ''busy''))) (Inr default_server_config) = Some 0"
proof -
  have ok: "is_ok (storage_open (working no_quack) (server_storage_config default_server_config) (storage_empty [] 0))"
    using conjunct2 [OF conjunct2 [OF recorder_lives_by_its_database [of "\<lambda>_. Inr []" "working no_quack" "''out.sbs''" "storage_empty [] 0"
        Still_Running default_server_config undefined]]]
    by (simp add: working_def)
  from conjunct1 [OF conjunct2 [OF recorder_lives_by_its_database [of "\<lambda>_. Inr []" "working no_quack" "''out.sbs''" "storage_empty [] 0"
        Still_Running default_server_config "Inl (DuckDb ''busy'')"]]] ok
  show ?thesis by (simp add: default_server_config_def)
qed

theorem exposed_only_as_configured_witness:
  "\<exists>r a. recorder_start (working no_quack) ''out.sbs'' (default_server_config\<lparr>sv_http_bind := ''localhost''\<rparr>) (storage_empty [] 0) = Inr r
     \<and> rr_http r = Some (a, 8787, ''adsb-edge'') \<and> is_loopback a"
proof -
  let ?c = "default_server_config\<lparr>sv_http_bind := ''localhost''\<rparr>"
  have digits: "read_number radix k z bound ''localhost'' = None" for radix k z bound
    by (simp add: read_number_def radix_val_def hex_val_def)
  have "read_octets (Suc 3) ''localhost'' = None" by (subst read_octets.simps) (simp add: digits)
  then have v4: "read_ipv4 ''localhost'' = None" by (simp add: read_ipv4_def)
  have "read_groups (Suc 7) True ''localhost'' = ([], False, ''localhost'')" by (subst read_groups.simps) (simp add: digits v4)
  then have no_ip: "parse_ip ''localhost'' = None" by (simp add: parse_ip_def v4 read_ipv6_def read_char_def)
  have "is_ok (recorder_start (working no_quack) ''out.sbs'' ?c (storage_empty [] 0))"
    by (simp add: recorder_start_def recorder_open_def storage_open_def working_def recorder_config_of_def
        server_storage_config_def default_server_config_def Let_def)
  then obtain r where r: "recorder_start (working no_quack) ''out.sbs'' ?c (storage_empty [] 0) = Inr r" by blast
  then obtain a where a: "rr_http r = Some (a, 8787, ''adsb-edge'')"
    by (auto simp: recorder_start_def default_server_config_def Let_def split: sum.splits)
  have "is_loopback a"
    using conjunct1 [OF exposed_only_as_configured [where r = r and a = a and sc = ?c]] r a no_ip by fastforce
  with r a show ?thesis by blast
qed

end
