(* ===== verification/Desktop_App.thy ===== *)
theory Desktop_App imports Desktop_Commands Desktop_Storage Weather_Path begin

text \<open>
  The desktop client as an application: its settings store, the state \<open>run\<close> of \<open>lib.rs\<close> builds at launch,
  and what \<open>start_feed\<close> of \<open>bridge.rs\<close> connects for one feed. The store is the Tauri plugin's: a map of
  values held for the process, and a file it is written to on \<open>save\<close>. JSON is a parameter.
\<close>

subsection \<open>The settings store\<close>

record 'j settings_store =
  sg_values :: "string \<rightharpoonup> 'j"
  sg_file :: "string \<rightharpoonup> 'j"

definition CONFIG_STORE_KEY :: string where "CONFIG_STORE_KEY = ''config''"
definition STORAGE_MODE_STORE_KEY :: string where "STORAGE_MODE_STORE_KEY = ''storage_mode''"

definition stack_from_env :: "env \<Rightarrow> string option" where
  "stack_from_env get = stack_name (get ''ADSB_STACK'')"

definition config_store_path :: "env \<Rightarrow> string" where
  "config_store_path get = store_path (stack_from_env get)"

text \<open>A stored value, when the store opens, has one, and it can be read.\<close>

definition stored_value :: "string + unit \<Rightarrow> ('j \<Rightarrow> string + 'a) \<Rightarrow> string \<Rightarrow> (string \<rightharpoonup> 'j) \<Rightarrow> 'a option" where
  "stored_value opened of_json key vals = (case opened of
      Inl _ \<Rightarrow> None
    | Inr _ \<Rightarrow> Option.bind (vals key) (\<lambda>v. case of_json v of Inl _ \<Rightarrow> None | Inr x \<Rightarrow> Some x))"

definition load_stored_config ::
  "string + unit \<Rightarrow> ('j \<Rightarrow> string + config) \<Rightarrow> string \<Rightarrow> env \<Rightarrow> (string \<rightharpoonup> 'j) \<Rightarrow> config" where
  "load_stored_config opened of_json now_path get vals =
     Desktop_Config.load_config now_path (stored_value opened of_json CONFIG_STORE_KEY vals) get"

definition load_storage_mode :: "string + unit \<Rightarrow> ('j \<Rightarrow> string + storage_mode) \<Rightarrow> (string \<rightharpoonup> 'j) \<Rightarrow> storage_mode option" where
  "load_storage_mode opened of_json vals = stored_value opened of_json STORAGE_MODE_STORE_KEY vals"

text \<open>Writing: a value is set and then the file is saved; a save that fails leaves the value set.\<close>

record store_answers =
  sv_opened :: "string + unit"
  sv_saved :: "string + unit"

definition persist ::
  "string \<Rightarrow> string \<Rightarrow> store_answers \<Rightarrow> ('a \<Rightarrow> string + 'j) \<Rightarrow> 'a \<Rightarrow> 'j settings_store \<Rightarrow> (string + unit) \<times> 'j settings_store" where
  "persist key what an to_json x st = (case sv_opened an of
      Inl e \<Rightarrow> (Inl (''Failed to open config store: '' @ e), st)
    | Inr _ \<Rightarrow> (case to_json x of
        Inl e \<Rightarrow> (Inl (''Failed to serialize '' @ what @ '': '' @ e), st)
      | Inr v \<Rightarrow>
         (let st = st\<lparr>sg_values := (sg_values st)(key \<mapsto> v)\<rparr>
          in case sv_saved an of
               Inl e \<Rightarrow> (Inl (''Failed to save config store: '' @ e), st)
             | Inr _ \<Rightarrow> (Inr (), st\<lparr>sg_file := sg_values st\<rparr>))))"

definition persist_config ::
  "store_answers \<Rightarrow> (config \<Rightarrow> string + 'j) \<Rightarrow> config \<Rightarrow> 'j settings_store \<Rightarrow> (string + unit) \<times> 'j settings_store" where
  "persist_config = persist CONFIG_STORE_KEY ''config''"

definition persist_storage_mode ::
  "store_answers \<Rightarrow> (storage_mode \<Rightarrow> string + 'j) \<Rightarrow> storage_mode \<Rightarrow> 'j settings_store
    \<Rightarrow> (string + unit) \<times> 'j settings_store" where
  "persist_storage_mode = persist STORAGE_MODE_STORE_KEY ''storage mode''"

text \<open>The command \<open>save_config\<close> on the settings in use and the store.\<close>

definition save_settings ::
  "store_answers \<Rightarrow> (config \<Rightarrow> string + 'j) \<Rightarrow> config \<Rightarrow> config \<times> 'j settings_store
    \<Rightarrow> (save_error + unit) \<times> config \<times> 'j settings_store" where
  "save_settings an to_json c = (\<lambda>(current, st).
     case validate c of
       Inl e \<Rightarrow> (Inl (Invalid e), current, st)
     | Inr _ \<Rightarrow> (case persist_config an to_json c st of
         (Inl e, st) \<Rightarrow> (Inl (Not_Saved e), current, st)
       | (Inr _, st) \<Rightarrow> (Inr (), c, st)))"

subsection \<open>Launch\<close>

record ('r, 'v) app_state =
  as_config :: config
  as_feed :: feed_control \<comment> \<open>the handle of the feed and the connection status\<close>
  as_desktop :: "'r desktop" \<comment> \<open>storage, its configuration and mode\<close>
  as_recording :: recording_state
  as_weather :: "'v snapshot option"
  as_weather_service :: service_view

definition with_config :: "config \<Rightarrow> 'r desktop \<Rightarrow> ('r, 'v) app_state" where
  "with_config c d = \<lparr>as_config = c, as_feed = initial_control, as_desktop = d,
     as_recording = \<lparr>rs_record_positions = True, rs_record_raw = True\<rparr>, as_weather = None,
     as_weather_service = default_view\<rparr>"

text \<open>The \<open>setup\<close> of \<open>run\<close>: storage, configuration, state, and where the tool server listens. What was left of
  the last run is its directory of files and the settings file. \<open>get\<close> is the environment.\<close>

definition desktop_setup ::
  "answers \<Rightarrow> string + unit \<Rightarrow> ('j \<Rightarrow> string + config) \<Rightarrow> ('j \<Rightarrow> string + storage_mode) \<Rightarrow> string \<Rightarrow> env \<Rightarrow> (string \<rightharpoonup> 'j)
    \<Rightarrow> 'r desktop \<Rightarrow> ('r, 'v) app_state \<times> ip_addr \<times> nat" where
  "desktop_setup an opened config_of mode_of now_path get vals d =
     (let d = init_storage an (stack_from_env get) (share_config_from_env get) (storage_mode_from_env get)
            (d\<lparr>ds_saved_mode := load_storage_mode opened mode_of vals\<rparr>);
          c = load_stored_config opened config_of now_path get vals
      in (with_config c d, V4 [127, 0, 0, 1], tool_server_port get))"

subsection \<open>The parts of a feed\<close>

datatype 'f feed_source = Over_Socket "'f socket_source" | Over_Mqtt mqtt_source

text \<open>What \<open>start_feed\<close> connects: the source, the counters the metrics bar reads, the client task with its
  watchdog, the ingest pipeline, and over MQTT the two weather tasks with the topics whose channels they read.\<close>

record ('f, 'v) feed_parts =
  fd_source :: "'f feed_source"
  fd_metrics :: metrics
  fd_tasks :: feed_tasks
  fd_ingest :: ingest
  fd_weather :: "(bytes \<times> 'v weather_relay) option"
  fd_service :: "(bytes \<times> bytes \<times> service_relay) option"

definition feed_parts_of ::
  "instant \<Rightarrow> ('r, 'v) app_state \<Rightarrow> weather_record list \<Rightarrow> 'f feed_source \<Rightarrow> metrics
    \<Rightarrow> (bytes \<times> bytes \<times> bytes) option \<Rightarrow> ('f, 'v) feed_parts" where
  "feed_parts_of now s rows source metrics topics =
     \<lparr>fd_source = source, fd_metrics = metrics,
      fd_tasks = spawn_feed (as_config s) now (fc_connection (as_feed s)),
      fd_ingest = set_recording_state (as_recording s)
        (ingest_new (ds_storage (as_desktop s) \<noteq> None) (feed_ingest_config (as_config s)) now),
      fd_weather = map_option (\<lambda>(grid, _). (grid, relay_weather_start fresh_channel alive_channel
        (ds_mode (as_desktop s)) (case ds_config (as_desktop s) of Some c \<Rightarrow> so_source_id c | None \<Rightarrow> [])
        (as_weather s) rows)) topics,
      fd_service = map_option (\<lambda>(_, status, availability). (status, availability,
        relay_service_start fresh_channel fresh_channel alive_channel (as_weather_service s))) topics\<rparr>"

text \<open>A socket source is built by the feed client, which validates; an MQTT source is built unchecked and
  its counters are not those of any connection. \<open>noop\<close> is the forwarder that discards.\<close>

definition start_feed_parts ::
  "'f \<Rightarrow> instant \<Rightarrow> int \<Rightarrow> weather_record list \<Rightarrow> ('r, 'v) app_state \<Rightarrow> client_error + ('f, 'v) feed_parts" where
  "start_feed_parts noop now wall_ms rows s =
     (let c = as_config s in
      case source_kind c of
        SocketKind \<Rightarrow> (case feed_socket_source c noop now wall_ms of
            Inl e \<Rightarrow> Inl e
          | Inr src \<Rightarrow> Inr (feed_parts_of now s rows (Over_Socket src) (cl_metrics (ss_client src)) None))
      | MqttKind \<Rightarrow>
          (let t = from_grid_topic (weather_topic c)
           in Inr (feed_parts_of now s rows (Over_Mqtt (feed_mqtt_source c)) (metrics_new now)
                (Some (wt_grid t, wt_status t, wt_availability t)))))"

subsection \<open>Settings at the next launch\<close>

lemma stored_value_set [simp]:
  "stored_value (Inr u) of_json key (vals(k \<mapsto> v)) =
     (if k = key then (case of_json v of Inl _ \<Rightarrow> None | Inr x \<Rightarrow> Some x) else stored_value (Inr u) of_json key vals)"
  by (simp add: stored_value_def)

lemma store_keys_differ: "CONFIG_STORE_KEY \<noteq> STORAGE_MODE_STORE_KEY"
  by (simp add: CONFIG_STORE_KEY_def STORAGE_MODE_STORE_KEY_def)

lemma persist_config_result:
  assumes "to_json c = Inr v"
  shows "persist_config an to_json c st = (case sv_opened an of
      Inl e \<Rightarrow> (Inl (''Failed to open config store: '' @ e), st)
    | Inr _ \<Rightarrow> (case sv_saved an of
        Inl e \<Rightarrow> (Inl (''Failed to save config store: '' @ e), st\<lparr>sg_values := (sg_values st)(CONFIG_STORE_KEY \<mapsto> v)\<rparr>)
      | Inr _ \<Rightarrow> (Inr (), st\<lparr>sg_values := (sg_values st)(CONFIG_STORE_KEY \<mapsto> v), sg_file := (sg_values st)(CONFIG_STORE_KEY \<mapsto> v)\<rparr>)))"
  using assms by (simp add: persist_config_def persist_def Let_def split: sum.split)

lemma persist_mode_saves_all:
  assumes "persist_storage_mode an to_json mode st = (Inr (), st')"
  shows "sg_file st' CONFIG_STORE_KEY = sg_values st CONFIG_STORE_KEY"
  using assms store_keys_differ
  by (auto simp: persist_storage_mode_def persist_def Let_def split: sum.splits)

lemma saved_config_loads:
  "vals CONFIG_STORE_KEY = Some v \<Longrightarrow> config_of v = Inr c
     \<Longrightarrow> load_stored_config (Inr ()) config_of now_path get vals = apply_env_overrides get c"
  by (simp add: load_stored_config_def Desktop_Config.load_config_def stored_value_def)

lemma saved_settings:
  assumes "save_settings an to_json c (current, st) = (Inr (), c', st')" "to_json c = Inr v" "config_of v = Inr c"
  shows "c' = c \<and> load_stored_config (Inr ()) config_of now_path get (sg_file st') = apply_env_overrides get c"
  using assms(1,2) saved_config_loads [of "sg_file st'" v config_of c] assms(3)
  by (auto simp: save_settings_def persist_config_result split: sum.splits)

lemmas persist_defs = persist_config_def persist_storage_mode_def

text \<open>C40: What \<open>save_config\<close> tells the window about the next launch. If it succeeds, the configuration is in
  use, the next launch loads it with the environment of that launch on top, and the storage mode in the
  store is untouched. If the configuration is invalid, nothing changes. If only the save of the file
  fails, the running configuration and the file stay as they were; yet the value stays in the store, and
  the next successful save of the storage mode brings the configuration that was refused to the next
  launch, while the next successful \<open>save_config\<close> overwrites it: the launch then loads what that one saved.
  What is used of \<open>serde_json\<close> is that it reads back what it wrote. The file of the store is taken to be
  written by a save alone; the saves the store plugin may make on its own are not modelled.\<close>

theorem settings_at_next_launch:
  assumes json: "to_json c = Inr v" "config_of v = Inr c"
  shows "case save_settings an to_json c (current, st) of
      (Inr _, c', st') \<Rightarrow> validate c = Inr () \<and> c' = c
        \<and> load_stored_config (Inr ()) config_of now_path get (sg_file st') = apply_env_overrides get c
        \<and> load_storage_mode (Inr ()) mode_of (sg_file st') = load_storage_mode (Inr ()) mode_of (sg_values st)
    | (Inl (Invalid e), c', st') \<Rightarrow> validate c = Inl e \<and> c' = current \<and> st' = st
    | (Inl (Not_Saved e), c', st') \<Rightarrow> c' = current \<and> sg_file st' = sg_file st
        \<and> (sv_opened an = Inr () \<longrightarrow> (\<forall>later mode_json mode st''.
             persist_storage_mode later mode_json mode st' = (Inr (), st'') \<longrightarrow>
             load_stored_config (Inr ()) config_of now_path get (sg_file st'') = apply_env_overrides get c))
        \<and> (\<forall>later c2 v2 c2' st''. to_json c2 = Inr v2 \<and> config_of v2 = Inr c2
             \<and> save_settings later to_json c2 (c', st') = (Inr (), c2', st'') \<longrightarrow>
             c2' = c2 \<and> load_stored_config (Inr ()) config_of now_path get (sg_file st'') = apply_env_overrides get c2)"
proof (cases "validate c")
  case (Inl e)
  then show ?thesis by (simp add: save_settings_def)
next
  case valid: (Inr u)
  have loads: "load_stored_config (Inr ()) config_of now_path get vals = apply_env_overrides get c"
    if "vals CONFIG_STORE_KEY = Some v" for vals
    using that json(2) by (rule saved_config_loads)
  have "save_settings an to_json c (current, st) = (case persist_config an to_json c st of
      (Inl e, st) \<Rightarrow> (Inl (Not_Saved e), current, st) | (Inr _, st) \<Rightarrow> (Inr (), c, st))"
    by (simp add: save_settings_def valid)
  note save = this valid persist_config_result [of to_json c v, OF json(1)]
  show ?thesis
  proof (cases "sv_opened an")
    case (Inl e)
    then show ?thesis by (auto simp: save dest: saved_settings)
  next
    case opened: (Inr x)
    show ?thesis
    proof (cases "sv_saved an")
      case (Inl e)
      have "load_stored_config (Inr ()) config_of now_path get (sg_file st'') = apply_env_overrides get c"
        if "persist_storage_mode later mode_json mode (st\<lparr>sg_values := (sg_values st)(CONFIG_STORE_KEY \<mapsto> v)\<rparr>) = (Inr (), st'')"
        for later mode_json mode st''
        using persist_mode_saves_all [OF that] by (intro loads) simp
      then show ?thesis by (auto simp: save opened Inl dest: saved_settings)
    next
      case (Inr y)
      then show ?thesis by (simp add: save opened Inr loads load_storage_mode_def store_keys_differ)
    qed
  qed
qed

text \<open>A disk that is full at the first save and not at the next.\<close>

theorem settings_at_next_launch_witness:
  "source_id (load_stored_config (Inr ()) (case_sum Inr (\<lambda>_. Inl ''not a config'')) ''out.sbs'' (\<lambda>_. None)
     (sg_file (snd (persist_storage_mode \<lparr>sv_opened = Inr (), sv_saved = Inr ()\<rparr> (\<lambda>m. Inr (Inr m)) Embedded
       (snd (snd (save_settings \<lparr>sv_opened = Inr (), sv_saved = Inl ''disk full''\<rparr> (\<lambda>c. Inr (Inl c))
         ((default_config ''out.sbs'')\<lparr>source_id := ''roof''\<rparr>)
         (default_config ''out.sbs'', \<lparr>sg_values = Map.empty, sg_file = Map.empty\<rparr>)))))))) = ''roof''"
proof -
  let ?c = "(default_config ''out.sbs'')\<lparr>source_id := ''roof''\<rparr>"
  let ?st = "\<lparr>sg_values = [CONFIG_STORE_KEY \<mapsto> Inl ?c :: config + storage_mode], sg_file = Map.empty\<rparr>"
  let ?saved = "save_settings \<lparr>sv_opened = Inr (), sv_saved = Inl ''disk full''\<rparr> (\<lambda>c. Inr (Inl c)) ?c
      (default_config ''out.sbs'', \<lparr>sg_values = Map.empty, sg_file = Map.empty\<rparr>)"
  have "validate ?c = Inr ()" by (simp add: validate_ok default_config_def trim_eval starts_with_def)
  then have saved: "?saved = (Inl (Not_Saved (''Failed to save config store: disk full'')), default_config ''out.sbs'', ?st)"
    by (simp add: save_settings_def persist_defs persist_def)
  have mode: "persist_storage_mode \<lparr>sv_opened = Inr (), sv_saved = Inr ()\<rparr> (\<lambda>m. Inr (Inr m)) Embedded ?st
      = (Inr (), snd (persist_storage_mode \<lparr>sv_opened = Inr (), sv_saved = Inr ()\<rparr> (\<lambda>m. Inr (Inr m)) Embedded ?st))"
    by (simp add: persist_defs persist_def)
  have "load_stored_config (Inr ()) (case_sum Inr (\<lambda>_. Inl ''not a config'')) ''out.sbs'' (\<lambda>_. None)
      (sg_file (snd (persist_storage_mode \<lparr>sv_opened = Inr (), sv_saved = Inr ()\<rparr> (\<lambda>m. Inr (Inr m)) Embedded ?st)))
      = apply_env_overrides (\<lambda>_. None) ?c"
    using settings_at_next_launch [where to_json = "\<lambda>c. Inr (Inl c)" and c = ?c and v = "Inl ?c :: config + storage_mode"
        and mode_of = "\<lambda>_. Inl []" and config_of = "case_sum Inr (\<lambda>_. Inl ''not a config'')" and current = "default_config ''out.sbs''"
        and an = "\<lparr>sv_opened = Inr (), sv_saved = Inl ''disk full''\<rparr>" and now_path = "''out.sbs''"
        and st = "\<lparr>sg_values = Map.empty, sg_file = Map.empty\<rparr>" and get = "\<lambda>_. None"] mode
    by (simp add: saved)
  then show ?thesis by (simp add: saved apply_env_overrides_def env_var_def keep_if_def)
qed

subsection \<open>The parts fit\<close>

text \<open>What \<open>start_feed\<close> connects fits together. It fails exactly for a socket whose configuration is invalid.
  Over a socket the feed client runs with the one forwarder that discards, its lines are tapped, and
  there is no weather task; over MQTT the source is subscribed, and the two weather tasks read the
  channels of the topics a weather service with the same grid topic publishes its grid, status and
  availability on, three different ones. Either way the watchdog judges by the thresholds of that kind
  of source, and starts from the transport the source reports; and the pipeline records what is switched on.\<close>

theorem feed_parts_fit:
  "case start_feed_parts noop now wall_ms rows s of
     Inl e \<Rightarrow> source_kind (as_config s) = SocketKind \<and> validate (as_config s) = Inl e
   | Inr p \<Rightarrow> ft_policy (fd_tasks p) = cfg_liveness_policy (as_config s)
      \<and> get_recording_state (fd_ingest p) = as_recording s
      \<and> (case fd_source p of
           Over_Socket src \<Rightarrow> source_kind (as_config s) = SocketKind \<and> validate (as_config s) = Inr ()
             \<and> cl_forwarders (ss_client src) = [noop] \<and> cl_message_tap (ss_client src) = Some []
             \<and> ft_transport (fd_tasks p) = ss_status src \<and> fd_metrics p = cl_metrics (ss_client src)
             \<and> fd_weather p = None \<and> fd_service p = None
         | Over_Mqtt src \<Rightarrow> source_kind (as_config s) = MqttKind \<and> ms_tap src = Some []
             \<and> ft_transport (fd_tasks p) = ms_status src
             \<and> (\<exists>grid status availability weather service.
                  fd_weather p = Some (grid, weather) \<and> fd_service p = Some (status, availability, service)
                \<and> map aux_name (ms_aux src) = [grid, status, availability] \<and> distinct [grid, status, availability]
                \<and> pb_topics (publisher_start (weather_topic (as_config s)) st)
                  = \<lparr>wt_grid = grid, wt_status = status, wt_availability = availability\<rparr>
                \<and> wl_held weather = as_weather s \<and> sl_view service = as_weather_service s))"
proof (cases "source_kind (as_config s)")
  case SocketKind
  then show ?thesis
    by (auto simp: start_feed_parts_def feed_socket_source_def socket_source_new_def client_new_def feed_parts_of_def
        spawn_feed_def socket_source_subscribe_def with_message_tap_def get_recording_state_def set_recording_state_def
        Let_def split: sum.splits)
next
  case MqttKind
  have "ms_status (feed_mqtt_source (as_config s)) = Disconnected"
    by (simp add: feed_mqtt_source_def mqtt_source_new_def with_aux_topic_def source_subscribe_def Let_def)
  with MqttKind feed_source_topics [of "as_config s"] from_grid_topic_distinct [of "weather_topic (as_config s)"]
  show ?thesis
    by (auto simp: start_feed_parts_def feed_parts_of_def spawn_feed_def get_recording_state_def set_recording_state_def
        publisher_start_def relay_weather_start_def relay_service_start_def Let_def)
qed

end
