(* ===== verification/Spec2Isabelle.thy ===== *)
theory Spec2Isabelle imports Fan_Out Feed_Client_Props Feed_Source Sbs_Parser Flight_Queries Weather_State Weather_Config Weather_Publisher Flight_Bootstrap Stored_Events Scenarios Weather_Archive Server_Config Database_Transfer Desktop_Storage_Props Desktop_Feed_Props Weather_Path Metrics_Props Metrics_Http Weather_Cache Weather_Api Timestamps Arrow_Queries Storage_Open Tool_Server_Props Desktop_Commands_Props Feed_Process_Props Storage_Handle Service_Process_Props Desktop_App begin

text \<open>
  \<^bold>\<open>adsb-feed\<close> receives the aircraft messages a radio receiver decodes (SBS-1 lines over TCP),
  distributes them, stores them, and shows them beside the weather. Its Rust workspace (\<open>src/rust\<close>)
  has three libraries and three programs, and this development models what they compute and keep:

  \<^item> \<open>adsb-pulsar-client\<close>, the feed client: it connects to a receiver or listens for one, cuts the
    stream into lines, and sends each line to every configured forwarder (Pulsar, MQTT, a file, the
    console), each with a retry queue of its own. Its \<open>source\<close> module is the input side the other
    programs use: a socket or an MQTT broker.
  \<^item> \<open>adsb-data-engine\<close>: the SBS-1 parser, the ingest pipeline and the DuckDB storage, with flights
    computed while positions arrive.
  \<^item> \<open>adsb-data-server\<close>, the headless recorder: a source, the pipeline and the storage, retention, an
    archive of the weather, read-only tools and metrics.
  \<^item> \<open>adsb-weather-server\<close>, the weather service: it fetches a grid of winds under a budget of calls,
    survives restarts, publishes grid and status retained over MQTT, and is switched over HTTP or MQTT.
  \<^item> \<open>adsb-pulsar-client-desktop/src-tauri\<close>, the desktop client: a feed, the same storage, the state of
    the weather service and the commands of its window.

  They meet at the lines the forwarder publishes and the sources read, at the retained topics of the
  weather service, at the files of the database and at the Quack server that shares one database
  between processes.

  \<^bold>\<open>Reading the model.\<close> A definition has the name of the function it translates, with a suffix where
  HOL has the name, or \<open>_step\<close> for one turn of a task. A struct is a \<open>record\<close>, an enum a \<open>datatype\<close>; a
  fallible function returns \<open>'e + 'a\<close>, \<open>Inl\<close> the error, and a panic is an outcome of its own. Counters
  that wrap are \<open>64 word\<close>, saturating arithmetic is written out, an \<open>f64\<close> is a value of binary64 with
  its rounding, a \<open>String\<close> its UTF-8 bytes. An operation that reads the clock has the reading as an
  argument. A task that selects over channels, timers and connections is a step function over the events it
  selects; a run is a list of events, so what is proved holds for every order of them and for runs of
  every length. What the environment answers (a file system, a broker, the database engine, the network)
  comes with the event or as a list of outcomes in the state, so failing at any call is a run of the
  model. No loop needs fuel: each is a recursion over the data or the events it consumes, and where
  the code must end by itself that is a theorem. An SQL statement is the function it computes on
  tables, which are lists of rows.

  \<^bold>\<open>Shared theories.\<close>
  \<^item> \<open>Prelude\<close>: bytes, durations, saturating operations, results, lemmas on lists.
  \<^item> \<open>Rust_Str\<close>, \<open>F64\<close>, \<open>F64_Time\<close>, \<open>Net_Addr\<close>: what the code uses of the standard library: trimming,
    splitting and number parsing, binary64 arithmetic with its two orders, durations as \<open>f64\<close>, and
    \<open>IpAddr::from_str\<close>.
  \<^item> \<open>Step_Runs\<close>: runs of a partial step function; the locale \<open>kept\<close> (an invariant of the step is an
    invariant of the run) and \<open>carried\<close> (once it holds it stays), interpreted on the desktop's feed and
    on both its weather relays.
  \<^item> \<open>Keyed_Table\<close>: insert, update and delete by primary key, with the locale \<open>crud\<close> (a table refines a
    finite map), interpreted on the scenarios and on the events of interest.

  \<^bold>\<open>The feed client\<close> (\<open>adsb-pulsar-client/src\<close>).
  \<^item> \<open>Backoff\<close> (\<open>backoff.rs\<close>): delays, log throttle, eviction. Its locale \<open>paced_reconnect\<close> is the
    discipline of the MQTT event loops (grow on an error, reset on recovery, stay bounded); the three
    loops interpret it (\<open>mqtt_fw\<close>, \<open>mqtt_src\<close>, \<open>weather_pub\<close>).
  \<^item> \<open>Client_Error\<close> (\<open>error.rs\<close>), \<open>Conn_Monitor\<close> (\<open>connection_monitor.rs\<close>), \<open>Feed_Config\<close>
    (\<open>config.rs\<close>), \<open>Feed_Metrics\<close> (\<open>metrics.rs\<close>).
  \<^item> \<open>Forwarders\<close> (\<open>forwarder/\<close>): the trait as a record of methods, its four implementations, and the
    locale \<open>acknowledging\<close> (\<open>Ok\<close> means accepted, once), which the MQTT and the Pulsar forwarder
    interpret, as does any forwarder seen through a log.
  \<^item> \<open>Feed_Client\<close>, \<open>Feed_Client_Props\<close>, \<open>Fan_Out\<close> (\<open>client.rs\<close>): framing, fan-out, retry queues and
    housekeeping. Lines do not depend on how the stream is cut while the buffer has room, forwarders do
    not influence each other, nothing is lost while a queue has room.
  \<^item> \<open>Feed_Source\<close> (\<open>source/\<close>): the socket and the MQTT source with its auxiliary topics.
  \<^item> \<open>Feed_Process\<close>, \<open>Feed_Process_Props\<close> (\<open>main.rs\<close>, with the rest of \<open>client.rs\<close> and of
    \<open>config.rs\<close>): the layered configuration, the two connection modes as whole loops, the exit codes.
  \<^item> \<open>Metrics_Server\<close>, \<open>Metrics_Http\<close> (\<open>metrics_server.rs\<close>), \<open>Metrics_Export\<close>, \<open>Metrics_Props\<close>
    (\<open>metrics_export.rs\<close> of all three services): the HTTP
    endpoint from the bytes it reads, and what a scrape shows.

  \<^bold>\<open>Parser, pipeline and storage\<close> (\<open>adsb-data-engine/src\<close>).
  \<^item> \<open>Sbs_Parser\<close> (\<open>sbs_parser.rs\<close>), \<open>Ingest\<close> (\<open>ingest.rs\<close>), \<open>Timestamps\<close> (the instant a line is
    stored under).
  \<^item> \<open>Flights\<close> (\<open>storage.rs\<close>, writing): positions, the tracker and the flight table agree, a batch is
    its single inserts. \<open>Flight_Bootstrap\<close>: the migration, equal to live ingestion up to the callsign.
  \<^item> \<open>Flight_Queries\<close>, \<open>Arrow_Queries\<close>, \<open>Storage_Statistics\<close>, \<open>Storage_Statistics_Props\<close>
    (\<open>storage.rs\<close>, reading, and the sectors of \<open>geo.rs\<close>): trajectories, pruning, the queries answered
    as Arrow streams, summaries and counts.
  \<^item> \<open>Stored_Events\<close>, \<open>Scenarios\<close>, \<open>Weather_Archive\<close>: the authored tables and the archive of grids,
    with the recorder's task that fills it (\<open>adsb-data-server/src/weather.rs\<close>).
  \<^item> \<open>Quack_Share\<close> (\<open>share.rs\<close>, \<open>types.rs\<close>), \<open>Database_Transfer\<close>, \<open>Storage_Open\<close>,
    \<open>Storage_Handle\<close>: sharing a database, moving rows between two, opening one, and the asynchronous
    handle with the mutex a panic poisons, which refines the plain operations until then.

  \<^bold>\<open>The recorder and its tools.\<close>
  \<^item> \<open>Server_Config\<close> (\<open>adsb-data-server\<close>: \<open>config.rs\<close>, \<open>recorder.rs\<close>): settings, the maintenance
    loop, the lifetime of a recording.
  \<^item> \<open>Tool_Server\<close>, \<open>Tool_Server_Props\<close> (\<open>tool_service.rs\<close> and \<open>server.rs\<close> of
    \<open>adsb-data-server\<close>): the read-only tools, over a storage that may be released.
  \<^item> \<open>Service_Process\<close>, \<open>Service_Process_Props\<close> (\<open>main.rs\<close> of the recorder and of the weather service):
    what a process starts with, its routes, its exit codes, the addresses it binds.

  \<^bold>\<open>The weather service\<close> (\<open>adsb-weather-server/src\<close>).
  \<^item> \<open>Weather_Types\<close> (\<open>status.rs\<close>, \<open>snapshot.rs\<close>), \<open>Weather_Config\<close> (\<open>config.rs\<close>), \<open>Weather_Grid\<close>
    (\<open>grid.rs\<close>): vocabulary, settings, the geometry in binary64.
  \<^item> \<open>Weather_State\<close> (\<open>state_file.rs\<close>, \<open>control.rs\<close>), \<open>Weather_Cache\<close> (\<open>cache.rs\<close>): what is durable, down
    to every state of the disk during an atomic write.
  \<^item> \<open>Weather_Provider\<close> (\<open>budget.rs\<close>, \<open>provider.rs\<close>, \<open>open_meteo.rs\<close>): the budget, and a fetch that resumes where
    it failed.
  \<^item> \<open>Weather_Refresh\<close>, \<open>Weather_Schedule\<close> (\<open>refresh.rs\<close>): the loop, and what holds over all its runs:
    schedule, truthful status, nothing lost, rate limits that outlive a restart.
  \<^item> \<open>Weather_Publisher\<close> (\<open>projection.rs\<close>, \<open>publisher.rs\<close>): one status, and the retained messages.
  \<^item> \<open>Weather_Api\<close> (\<open>api.rs\<close>, \<open>api_server.rs\<close>, \<open>api_client.rs\<close>): the control API and its client over a network
    that loses requests and replies.

  \<^bold>\<open>The desktop client\<close> (\<open>adsb-pulsar-client-desktop/src-tauri/src\<close>).
  \<^item> \<open>Desktop_Config\<close> (\<open>storage_mode.rs\<close>, \<open>lib.rs\<close>), \<open>Desktop_Storage\<close>, \<open>Desktop_Storage_Props\<close> (\<open>lib.rs\<close>,
    \<open>commands.rs\<close>): the stack, the settings, and the database with release, reclaim and swap.
  \<^item> \<open>Desktop_Feed\<close>, \<open>Desktop_Feed_Props\<close> (\<open>bridge.rs\<close>, \<open>commands.rs\<close>): a running feed, the watchdog and
    the connection status they share.
  \<^item> \<open>Desktop_Weather\<close>, \<open>Desktop_Weather_Props\<close> (\<open>weather.rs\<close>): the relays of the service's status and
    of the grid. \<open>Weather_Path\<close> composes them with source, broker and publisher: what the service says
    is what the client shows.
  \<^item> \<open>Desktop_Commands\<close>, \<open>Desktop_Commands_Props\<close> (\<open>commands.rs\<close>, \<open>bridge.rs\<close>): recording, sharing and the
    commands on the weather service.
  \<^item> \<open>Desktop_App\<close> (\<open>lib.rs\<close>, \<open>state.rs\<close>, \<open>bridge.rs\<close>): the settings store, the state built at launch, and the
    parts \<open>start_feed\<close> connects, which read the topics the weather service writes.

  \<^bold>\<open>Properties\<close> carry their claim ids in the theories; each with a hypothesis is applied to a concrete
  input by the lemma \<open>_witness\<close> after it. They are of these kinds: safety over all runs of a task
  (nothing lost, no fetch early, a database always open), equivalences with a reference (batch and
  single inserts, migration and live ingestion, one forwarder and many, the two recorders),
  refinements of an abstract specification (windows of ingestion, scenarios as a map, the scrape as a
  view of the status), round trips (printing and parsing, quoting, reopening), and the error behaviour of
  failed saves, repeated hours and late feeders.

  \<^bold>\<open>Parameters.\<close> Third-party code is an argument: the broker and rumqttc, the Pulsar client, reqwest
  and axum as the events and answers they give; DuckDB as the answers of its statements and, where the
  code leaves it a choice, its choice (batch sizes, the rounding of a quotient cast to \<open>BIGINT\<close>); serde_json, where what matters is
  that it reads back what it wrote, which is then a named hypothesis; chrono's parser and the rules of
  a zone; \<open>libm\<close> functions; the order in which a hash map is drained. Instants are not before 1970
  where the model divides them.

  \<^bold>\<open>Simplifications.\<close> Counts and numbers of flights are unbounded where the columns are \<open>INTEGER\<close>, and
  so are the pauses of the sources before they are capped. One turn of the desktop's watchdog, and an
  update of a scenario with the reading back after it, happen at once, though the code lets go of its
  lock in between. The rows of an open database are in its file at once; what a write-ahead log holds is
  modelled for the swap alone. The settings store is written by a save only, not by the plugin itself.
  Retention that fails (a warning) is not a case of the maintenance loop, queries over NaN coordinates
  are not answered, and directories made on the way to a file are not part of the disk of the cache.

  \<^bold>\<open>Not modelled.\<close> Parsing of the command line (clap) and of JSON and TOML: what they parse is where the model
  starts. The bytes of the Arrow format, the text encoder of the prometheus crate, the texts of log lines and
  errors, OpenAPI documents and the Swagger page. The Tauri runtime, and the
  registration of commands and plugins with it. Signal handlers and task scheduling beyond the interleaving of events.
  Schema texts of the database. Outside Rust: the front end (TypeScript), the language-model agents
  (Python), deployment and the experiments; they are clients of what is modelled here or have no part in it.
\<close>

end
